(* ===== verification/Prelude.thy ===== *)
theory Prelude
  imports "HOL-Library.Word"
begin

text \<open>
  Shared vocabulary of the development: the machine integers of the Rust sources at their
  width, the checked and saturating arithmetic of the Rust standard library (and of the
  \<open>ruint\<close> integers, which follow the same conventions), fixed-width byte encodings in both
  byte orders, ASCII trimming, and the generic list lemmas the components share.
\<close>

unbundle bit_operations_syntax

section \<open>Names of the machine types\<close>

type_synonym u8 = "8 word"
type_synonym u16 = "16 word"
type_synonym u32 = "32 word"
type_synonym u64 = "64 word"
type_synonym u128 = "128 word"
type_synonym u256 = "256 word"
type_synonym address = "160 word"
type_synonym b256 = "256 word"
type_synonym bytes = "8 word list"

named_theorems rust_int \<open>definitions of the checked and saturating integer operations\<close>
named_theorems bytes_simps \<open>facts on byte encodings\<close>

abbreviation u64_max :: u64 where "u64_max \<equiv> - 1"
abbreviation u256_max :: u256 where "u256_max \<equiv> - 1"

section \<open>Checked and saturating arithmetic\<close>

definition checked_add :: "'a::len word \<Rightarrow> 'a word \<Rightarrow> 'a word option" where
  "checked_add a b = (if unat a + unat b < 2 ^ LENGTH('a) then Some (a + b) else None)"

definition checked_sub :: "'a::len word \<Rightarrow> 'a word \<Rightarrow> 'a word option" where
  "checked_sub a b = (if b \<le> a then Some (a - b) else None)"

definition checked_mul :: "'a::len word \<Rightarrow> 'a word \<Rightarrow> 'a word option" where
  "checked_mul a b = (if unat a * unat b < 2 ^ LENGTH('a) then Some (a * b) else None)"

definition checked_div :: "'a::len word \<Rightarrow> 'a word \<Rightarrow> 'a word option" where
  "checked_div a b = (if b = 0 then None else Some (a div b))"

text \<open>\<open>ruint\<close>'s \<open>checked_shl\<close>: \<open>None\<close> as soon as a set bit would leave the word.\<close>

definition checked_shl :: "'a::len word \<Rightarrow> nat \<Rightarrow> 'a word option" where
  "checked_shl a n = (if unat a * 2 ^ n < 2 ^ LENGTH('a) then Some (push_bit n a) else None)"

definition saturating_add :: "'a::len word \<Rightarrow> 'a word \<Rightarrow> 'a word" where
  "saturating_add a b = (if unat a + unat b < 2 ^ LENGTH('a) then a + b else - 1)"

definition saturating_sub :: "'a::len word \<Rightarrow> 'a word \<Rightarrow> 'a word" where
  "saturating_sub a b = (if b \<le> a then a - b else 0)"

definition saturating_mul :: "'a::len word \<Rightarrow> 'a word \<Rightarrow> 'a word" where
  "saturating_mul a b = (if unat a * unat b < 2 ^ LENGTH('a) then a * b else - 1)"

definition saturating_pow :: "'a::len word \<Rightarrow> nat \<Rightarrow> 'a word" where
  "saturating_pow a n = (if unat a ^ n < 2 ^ LENGTH('a) then a ^ n else - 1)"

lemmas [rust_int] = checked_add_def checked_sub_def checked_mul_def checked_div_def
  checked_shl_def saturating_add_def saturating_sub_def saturating_mul_def

lemma unat_add_small:
  fixes a b :: "'a::len word"
  shows "unat a + unat b < 2 ^ LENGTH('a) \<Longrightarrow> unat (a + b) = unat a + unat b"
  by (simp add: unat_word_ariths)

lemma unat_mult_small:
  fixes a b :: "'a::len word"
  shows "unat a * unat b < 2 ^ LENGTH('a) \<Longrightarrow> unat (a * b) = unat a * unat b"
  by (simp add: unat_word_ariths)

lemma unat_max_word: "unat (- 1 :: 'a::len word) = 2 ^ LENGTH('a) - 1"
  by (simp add: unsigned_minus_1_eq_mask mask_eq_exp_minus_1)

lemma unat_lt_exp: "unat (a :: 'a::len word) < 2 ^ LENGTH('a)"
  by (rule unsigned_less)

lemma checked_add_Some_iff:
  "checked_add a b = Some c \<longleftrightarrow>
     unat a + unat b < 2 ^ LENGTH('a) \<and> c = a + (b :: 'a::len word)"
  by (auto simp: checked_add_def)

lemma checked_add_SomeD:
  "checked_add a b = Some (c :: 'a::len word) \<Longrightarrow> unat c = unat a + unat b"
  by (auto simp: checked_add_def unat_add_small split: if_splits)

lemma checked_mul_SomeD:
  "checked_mul a b = Some (c :: 'a::len word) \<Longrightarrow> unat c = unat a * unat b"
  by (auto simp: checked_mul_def unat_mult_small split: if_splits)

lemma checked_sub_SomeD:
  "checked_sub a b = Some (c :: 'a::len word) \<Longrightarrow> unat c = unat a - unat b \<and> unat b \<le> unat a"
  by (auto simp: checked_sub_def unat_sub word_le_nat_alt split: if_splits)

lemma checked_shl_SomeD:
  fixes a c :: "'a::len word"
  assumes "checked_shl a n = Some c"
  shows "unat c = unat a * 2 ^ n"
proof -
  from assms have small: "unat a * 2 ^ n < 2 ^ LENGTH('a)" and c: "c = push_bit n a"
    by (auto simp: checked_shl_def split: if_splits)
  have "unat c = take_bit LENGTH('a) (push_bit n (unat a))"
    unfolding c by (simp add: unsigned_push_bit_eq)
  also have "\<dots> = unat a * 2 ^ n"
    using small by (simp add: push_bit_eq_mult take_bit_nat_eq_self)
  finally show ?thesis .
qed

lemma min_exp_pred: "min x (2 ^ n - 1) = (if x < 2 ^ n then x else 2 ^ n - 1)" for x :: nat
proof -
  have "(0::nat) < 2 ^ n" by simp
  then have "x \<le> 2 ^ n - 1 \<longleftrightarrow> x < 2 ^ n" by linarith
  then show ?thesis by (simp add: min_def)
qed

lemma unat_saturating_add:
  "unat (saturating_add a b) = min (unat a + unat b) (2 ^ LENGTH('a) - 1)"
  for a b :: "'a::len word"
  unfolding min_exp_pred by (simp add: saturating_add_def unat_add_small unat_max_word)

lemma unat_saturating_mul:
  "unat (saturating_mul a b) = min (unat a * unat b) (2 ^ LENGTH('a) - 1)"
  for a b :: "'a::len word"
  unfolding min_exp_pred by (simp add: saturating_mul_def unat_mult_small unat_max_word)

lemma unat_power_small:
  fixes a :: "'a::len word"
  assumes "unat a ^ n < 2 ^ LENGTH('a)"
  shows "unat (a ^ n) = unat a ^ n"
proof -
  have "a ^ n = word_of_nat (unat a ^ n)" by simp
  then show ?thesis using assms by (simp add: unsigned_of_nat take_bit_nat_eq_self del: of_nat_power)
qed

lemma unat_saturating_pow:
  "unat (saturating_pow a n) = min (unat a ^ n) (2 ^ LENGTH('a) - 1)"
  for a :: "'a::len word"
  unfolding min_exp_pred by (simp add: saturating_pow_def unat_power_small unat_max_word)

lemma unat_saturating_sub:
  "unat (saturating_sub a b) = unat a - unat b" for a b :: "'a::len word"
  by (auto simp: saturating_sub_def unat_sub word_le_nat_alt)

lemma saturating_add_ge: "a \<le> saturating_add a b"
  using unat_lt_exp[of a] unfolding word_le_nat_alt unat_saturating_add by linarith

lemma unat_min_word: "unat (min a b) = min (unat a) (unat (b :: 'a::len word))"
  by (auto simp: min_def word_le_nat_alt)

section \<open>Byte encodings of fixed width\<close>

fun nat_to_le :: "nat \<Rightarrow> nat \<Rightarrow> bytes" where
  "nat_to_le 0 x = []"
| "nat_to_le (Suc k) x = word_of_nat (x mod 256) # nat_to_le k (x div 256)"

fun le_to_nat :: "bytes \<Rightarrow> nat" where
  "le_to_nat [] = 0"
| "le_to_nat (b # bs) = unat b + 256 * le_to_nat bs"

definition nat_to_be :: "nat \<Rightarrow> nat \<Rightarrow> bytes" where
  "nat_to_be k x = rev (nat_to_le k x)"

definition be_to_nat :: "bytes \<Rightarrow> nat" where
  "be_to_nat bs = le_to_nat (rev bs)"

lemma length_nat_to_le [simp, bytes_simps]: "length (nat_to_le k x) = k"
  by (induction k arbitrary: x) simp_all

lemma length_nat_to_be [simp, bytes_simps]: "length (nat_to_be k x) = k"
  by (simp add: nat_to_be_def)

lemma unat_byte_of_mod: "unat (word_of_nat (x mod 256) :: 8 word) = x mod 256"
  by (simp add: unsigned_of_nat take_bit_eq_mod)

lemma le_to_nat_nat_to_le [bytes_simps]: "le_to_nat (nat_to_le k x) = x mod 256 ^ k"
proof (induction k arbitrary: x)
  case (Suc k)
  have "le_to_nat (nat_to_le (Suc k) x) = x mod 256 + 256 * ((x div 256) mod 256 ^ k)"
    by (simp add: unat_byte_of_mod Suc.IH)
  also have "\<dots> = x mod (256 * 256 ^ k)"
    by (simp only: mod_mult2_eq)
  finally show ?case by simp
qed simp

lemma be_to_nat_nat_to_be [bytes_simps]: "be_to_nat (nat_to_be k x) = x mod 256 ^ k"
  by (simp add: be_to_nat_def nat_to_be_def le_to_nat_nat_to_le)

lemma le_to_nat_bound: "le_to_nat bs < 256 ^ length bs"
proof (induction bs)
  case (Cons b bs)
  have "unat b < 256" using unsigned_less[of b] by simp
  with Cons show ?case by simp
qed simp

lemma be_to_nat_bound: "be_to_nat bs < 256 ^ length bs"
  using le_to_nat_bound[of "rev bs"] by (simp add: be_to_nat_def)

lemma nat_to_le_le_to_nat: "length bs = k \<Longrightarrow> nat_to_le k (le_to_nat bs) = bs"
proof (induction bs arbitrary: k)
  case (Cons b bs)
  have lt: "unat b < 256" using unsigned_less[of b] by simp
  then have "(unat b + 256 * le_to_nat bs) div 256 = le_to_nat bs"
    and "(unat b + 256 * le_to_nat bs) mod 256 = unat b" by simp_all
  then show ?case using Cons by auto
qed simp

lemma nat_to_be_be_to_nat: "length bs = k \<Longrightarrow> nat_to_be k (be_to_nat bs) = bs"
  by (simp add: nat_to_be_def be_to_nat_def nat_to_le_le_to_nat)

lemma nat_to_le_inj:
  assumes "nat_to_le k x = nat_to_le k y" "x < 256 ^ k" "y < 256 ^ k"
  shows "x = y"
  using arg_cong[OF assms(1), of le_to_nat] assms(2,3) by (simp add: le_to_nat_nat_to_le)

lemma nat_to_be_inj:
  assumes "nat_to_be k x = nat_to_be k y" "x < 256 ^ k" "y < 256 ^ k"
  shows "x = y"
  using assms by (auto simp: nat_to_be_def intro: nat_to_le_inj)

definition byte_of :: "nat \<Rightarrow> u8" where "byte_of n = word_of_nat n"

lemma unat_byte_of [simp, bytes_simps]: "n < 256 \<Longrightarrow> unat (byte_of n) = n"
  by (simp add: byte_of_def unsigned_of_nat take_bit_nat_eq_self)

text \<open>The encodings the Rust sources call: \<open>to_le_bytes\<close>, \<open>from_le_bytes\<close> and their
  big-endian twins on \<open>u32\<close>, \<open>u64\<close> and the 256-bit integers.\<close>

definition u32_to_le :: "u32 \<Rightarrow> bytes" where "u32_to_le w = nat_to_le 4 (unat w)"
definition u32_from_le :: "bytes \<Rightarrow> u32" where "u32_from_le bs = word_of_nat (le_to_nat bs)"
definition u64_to_be :: "u64 \<Rightarrow> bytes" where "u64_to_be w = nat_to_be 8 (unat w)"
definition u64_from_be :: "bytes \<Rightarrow> u64" where "u64_from_be bs = word_of_nat (be_to_nat bs)"
definition u256_to_be :: "u256 \<Rightarrow> bytes" where "u256_to_be w = nat_to_be 32 (unat w)"
definition u256_from_be :: "bytes \<Rightarrow> u256" where "u256_from_be bs = word_of_nat (be_to_nat bs)"
definition address_to_be :: "address \<Rightarrow> bytes" where "address_to_be w = nat_to_be 20 (unat w)"
definition address_from_be :: "bytes \<Rightarrow> address" where
  "address_from_be bs = word_of_nat (be_to_nat bs)"

lemma length_u32_to_le [simp, bytes_simps]: "length (u32_to_le w) = 4"
  by (simp add: u32_to_le_def)
lemma length_u64_to_be [simp, bytes_simps]: "length (u64_to_be w) = 8"
  by (simp add: u64_to_be_def)
lemma length_u256_to_be [simp, bytes_simps]: "length (u256_to_be w) = 32"
  by (simp add: u256_to_be_def)
lemma length_address_to_be [simp, bytes_simps]: "length (address_to_be w) = 20"
  by (simp add: address_to_be_def)

lemma u32_from_to_le [simp, bytes_simps]: "u32_from_le (u32_to_le w) = w"
  using unat_lt_exp[of w]
  by (simp add: u32_from_le_def u32_to_le_def le_to_nat_nat_to_le)

lemma u64_from_to_be [simp, bytes_simps]: "u64_from_be (u64_to_be w) = w"
  using unat_lt_exp[of w]
  by (simp add: u64_from_be_def u64_to_be_def be_to_nat_nat_to_be)

lemma u256_from_to_be [simp, bytes_simps]: "u256_from_be (u256_to_be w) = w"
  using unat_lt_exp[of w]
  by (simp add: u256_from_be_def u256_to_be_def be_to_nat_nat_to_be)

lemma address_from_to_be [simp, bytes_simps]: "address_from_be (address_to_be w) = w"
  using unat_lt_exp[of w]
  by (simp add: address_from_be_def address_to_be_def be_to_nat_nat_to_be)

lemma u64_to_be_inj [simp]: "u64_to_be a = u64_to_be b \<longleftrightarrow> a = b"
  by (metis u64_from_to_be)
lemma u256_to_be_inj [simp]: "u256_to_be a = u256_to_be b \<longleftrightarrow> a = b"
  by (metis u256_from_to_be)
lemma address_to_be_inj [simp]: "address_to_be a = address_to_be b \<longleftrightarrow> a = b"
  by (metis address_from_to_be)

section \<open>Strings\<close>

text \<open>\<open>str::trim\<close> on ASCII text: the white space characters are 9 to 13 and 32.\<close>

definition is_ws :: "char \<Rightarrow> bool" where
  "is_ws c = (let n = (of_char c :: nat) in (9 \<le> n \<and> n \<le> 13) \<or> n = 32)"

definition trim :: "string \<Rightarrow> string" where
  "trim s = rev (dropWhile is_ws (rev (dropWhile is_ws s)))"

lemma dropWhile_Nil_iff: "dropWhile P xs = [] \<longleftrightarrow> (\<forall>x \<in> set xs. P x)"
  by (induction xs) auto

lemma trim_empty_iff: "trim s = [] \<longleftrightarrow> (\<forall>c \<in> set s. is_ws c)"
proof -
  have "trim s = [] \<longleftrightarrow> (\<forall>c \<in> set (dropWhile is_ws s). is_ws c)"
    by (simp add: trim_def dropWhile_Nil_iff)
  also have "\<dots> \<longleftrightarrow> (\<forall>c \<in> set s. is_ws c)"
    by (induction s) auto
  finally show ?thesis .
qed

text \<open>The digits of \<open>{:02x}\<close>.\<close>

definition hex_digit :: "nat \<Rightarrow> char" where
  "hex_digit n = ''0123456789abcdef'' ! n"

definition hex_bytes :: "bytes \<Rightarrow> string" where
  "hex_bytes bs = concat (map (\<lambda>b. [hex_digit (unat b div 16), hex_digit (unat b mod 16)]) bs)"

section \<open>Lists and results\<close>

type_synonym ('e, 'a) result = "'e + 'a"

fun is_ok :: "'e + 'a \<Rightarrow> bool" where
  "is_ok (Inl _) = False"
| "is_ok (Inr _) = True"

lemma is_ok_iff: "is_ok r \<longleftrightarrow> (\<exists>a. r = Inr a)"
  by (cases r) simp_all

definition bind_res :: "'e + 'a \<Rightarrow> ('a \<Rightarrow> 'e + 'b) \<Rightarrow> 'e + 'b" where
  "bind_res r f = (case r of Inl e \<Rightarrow> Inl e | Inr a \<Rightarrow> f a)"

lemma bind_res_simps [simp]: "bind_res (Inl e) f = Inl e" "bind_res (Inr a) f = f a"
  by (simp_all add: bind_res_def)

lemma bind_res_Inr_iff: "bind_res r f = Inr b \<longleftrightarrow> (\<exists>a. r = Inr a \<and> f a = Inr b)"
  by (cases r) simp_all

lemma sorted_wrt_upt_lt: "sorted_wrt (<) [0..<n]"
  by (simp add: sorted_wrt_upt)

end
