(* ===== verification/Types.thy ===== *)
theory Types
  imports Prelude
begin

text \<open>
  The event envelope of \<open>crates/types/src/lib.rs\<close>: the metadata every event carries, the one
  validated constructor \<open>seal\<close>, and the \<open>validate\<close> a decoder must call because the derived
  deserialisers bypass \<open>seal\<close>.  A 32-byte block hash is a 256-bit word (its big-endian reading).
\<close>

datatype event_source =
    Ingress | Normalizer | StateEngine | OpportunityEngine | RiskEngine | Simulator
  | Execution | Relay

record chain_context =
  chain_id :: u64
  block_number :: u64
  block_hash :: b256

record publish_meta =
  source :: event_source
  chain_ctx :: chain_context
  event_version :: u16
  correlation_id :: u64

record journal_position =
  jp_sequence :: u64
  jp_byte_offset :: u64

datatype types_error =
    InvalidEnvelope (ie_field: string) (ie_reason: string)
  | UnsupportedEventVersion u16 u16

datatype mismatch_category =
    Profitability | Gas | Revert | StateDependency | BundleOutcome | Unknown

definition check_envelope_invariants :: "u64 \<Rightarrow> u16 \<Rightarrow> u64 \<Rightarrow> types_error + unit" where
  "check_envelope_invariants ts ver cid =
     (if ts = 0 then Inl (InvalidEnvelope ''timestamp_ns'' ''must be non-zero'')
      else if ver = 0 then Inl (InvalidEnvelope ''event_version'' ''must be non-zero'')
      else if cid = 0 then Inl (InvalidEnvelope ''chain_context.chain_id'' ''must be non-zero'')
      else Inr ())"

record 'p envelope =
  env_sequence :: u64
  env_timestamp_ns :: u64
  env_source :: event_source
  env_chain_context :: chain_context
  env_event_version :: u16
  env_correlation_id :: u64
  env_payload :: 'p

definition seal :: "publish_meta \<Rightarrow> 'p \<Rightarrow> u64 \<Rightarrow> u64 \<Rightarrow> types_error + 'p envelope" where
  "seal meta p sq ts =
     bind_res (check_envelope_invariants ts (event_version meta) (chain_id (chain_ctx meta)))
       (\<lambda>_. Inr \<lparr>env_sequence = sq, env_timestamp_ns = ts, env_source = source meta,
                 env_chain_context = chain_ctx meta, env_event_version = event_version meta,
                 env_correlation_id = correlation_id meta, env_payload = p\<rparr>)"

definition validate_envelope :: "'p envelope \<Rightarrow> types_error + unit" where
  "validate_envelope e =
     check_envelope_invariants (env_timestamp_ns e) (env_event_version e)
       (chain_id (env_chain_context e))"

definition into_payload :: "'p envelope \<Rightarrow> 'p" where
  "into_payload e = env_payload e"

text \<open>The metadata an envelope carries, read back.\<close>

definition meta_of :: "'p envelope \<Rightarrow> publish_meta" where
  "meta_of e = \<lparr>source = env_source e, chain_ctx = env_chain_context e,
                event_version = env_event_version e, correlation_id = env_correlation_id e\<rparr>"

definition envelope_ok :: "'p envelope \<Rightarrow> bool" where
  "envelope_ok e \<longleftrightarrow> env_timestamp_ns e \<noteq> 0 \<and> env_event_version e \<noteq> 0
                     \<and> chain_id (env_chain_context e) \<noteq> 0"

section \<open>Lemmas\<close>

lemma check_ok_iff:
  "check_envelope_invariants ts ver cid = Inr u \<longleftrightarrow> ts \<noteq> 0 \<and> ver \<noteq> 0 \<and> cid \<noteq> 0"
  by (auto simp: check_envelope_invariants_def)

lemma validate_ok_iff: "validate_envelope e = Inr u \<longleftrightarrow> envelope_ok e"
  by (simp add: validate_envelope_def check_ok_iff envelope_ok_def)

lemma validate_not_ok: "\<not> envelope_ok e \<Longrightarrow> \<exists>err. validate_envelope e = Inl err"
  by (metis validate_ok_iff old.sum.exhaust)

lemma seal_Inr_iff:
  "seal meta p sq ts = Inr e \<longleftrightarrow>
     ts \<noteq> 0 \<and> event_version meta \<noteq> 0 \<and> chain_id (chain_ctx meta) \<noteq> 0 \<and>
     e = \<lparr>env_sequence = sq, env_timestamp_ns = ts, env_source = source meta,
          env_chain_context = chain_ctx meta, env_event_version = event_version meta,
          env_correlation_id = correlation_id meta, env_payload = p\<rparr>"
  by (auto simp: seal_def bind_res_Inr_iff check_ok_iff)

lemma seal_fields:
  assumes "seal meta p sq ts = Inr e"
  shows "env_sequence e = sq" "env_timestamp_ns e = ts" "env_payload e = p"
    "meta_of e = meta" "envelope_ok e" "into_payload e = p"
  using assms by (auto simp: seal_Inr_iff meta_of_def envelope_ok_def into_payload_def)

lemma reseal:
  assumes "envelope_ok e"
  shows "seal (meta_of e) (env_payload e) (env_sequence e) (env_timestamp_ns e) = Inr e"
  using assms by (simp add: seal_Inr_iff meta_of_def envelope_ok_def)

end
