(* ===== verification/Event_Bus.thy ===== *)
theory Event_Bus
  imports Types
begin

text \<open>
  The bounded single-consumer event bus of \<open>crates/event-bus/src/lib.rs\<close>.  The crossbeam
  channel underneath is a parameter: a record of its operations, and the locale
  \<open>bounded_channel\<close> that states what its documentation promises (a FIFO of bounded length).
  The publish-state mutex is modelled by \<open>bb_blocked\<close>: while a publisher waits in the blocking
  \<open>send\<close> it holds the mutex, so no other publish can start, but the consumer goes on.  A run of
  the bus is a sequence of such interleaved steps.
\<close>

section \<open>The channel, a parameter\<close>

datatype send_reply = SendOk | SendFull | SendDisconnected
datatype 'e recv_reply = RecvItem 'e | RecvEmpty | RecvDisconnected

record ('c, 'e) channel_ops =
  ch_bounded :: "nat \<Rightarrow> 'c"
  ch_try_send :: "'c \<Rightarrow> 'e \<Rightarrow> send_reply \<times> 'c"
  ch_try_recv :: "'c \<Rightarrow> 'e recv_reply \<times> 'c"
  ch_len :: "'c \<Rightarrow> nat"

locale bounded_channel =
  fixes ops :: "('c, 'e) channel_ops"
    and contents :: "'c \<Rightarrow> 'e list"
    and room :: "'c \<Rightarrow> nat"
  assumes bounded_new: "0 < n \<Longrightarrow> contents (ch_bounded ops n) = [] \<and> room (ch_bounded ops n) = n"
    and try_send_ok: "ch_try_send ops c e = (SendOk, c') \<Longrightarrow>
          length (contents c) < room c \<and> contents c' = contents c @ [e] \<and> room c' = room c"
    and try_send_fail: "ch_try_send ops c e = (r, c') \<Longrightarrow> r \<noteq> SendOk \<Longrightarrow>
          contents c' = contents c \<and> room c' = room c"
    and try_recv_item: "ch_try_recv ops c = (RecvItem e, c') \<Longrightarrow>
          contents c = e # contents c' \<and> room c' = room c"
    and try_recv_none: "ch_try_recv ops c = (RecvEmpty, c') \<or> ch_try_recv ops c = (RecvDisconnected, c')
          \<Longrightarrow> contents c = [] \<and> contents c' = [] \<and> room c' = room c"
    and len_contents: "ch_len ops c = length (contents c)"

section \<open>The bus\<close>

datatype bus_error =
    InvalidCapacity nat
  | ClockUnavailable
  | SequenceExhausted
  | Envelope types_error
  | Closed

record publish_ack =
  ack_sequence :: u64
  ack_timestamp_ns :: u64

record bus_stats =
  st_published_total :: u64
  st_consumed_total :: u64
  st_backpressure_total :: u64
  st_current_depth :: nat
  st_capacity :: nat

text \<open>The pair (bus, consumer) that \<open>CrossbeamBoundedBus::new\<close> returns; \<open>consumed_total\<close> is the
  one atomic both halves share.  \<open>bb_blocked\<close> is the envelope of a publisher that is inside the
  blocking \<open>send\<close>, the mutex held.\<close>

record ('c, 'p) bus =
  bb_chan :: 'c
  bb_next_sequence :: u64
  bb_published_total :: u64
  bb_backpressure_total :: u64
  bb_consumed_total :: u64
  bb_capacity :: nat
  bb_blocked :: "'p envelope option"

text \<open>\<open>SystemTime::now().duration_since(UNIX_EPOCH)\<close> is the argument: \<open>None\<close> before the epoch,
  otherwise the nanoseconds, a 128-bit quantity in Rust.\<close>

definition now_ns :: "nat option \<Rightarrow> bus_error + u64" where
  "now_ns clock =
     (case clock of
        None \<Rightarrow> Inl ClockUnavailable
      | Some ns \<Rightarrow> if ns < 2 ^ 64 \<and> ns \<noteq> 0 then Inr (word_of_nat ns) else Inl ClockUnavailable)"

definition bus_new ::
  "('c, 'p envelope) channel_ops \<Rightarrow> nat \<Rightarrow> bus_error + ('c, 'p) bus" where
  "bus_new ops cap =
     (if cap = 0 then Inl (InvalidCapacity 0)
      else Inr \<lparr>bb_chan = ch_bounded ops cap, bb_next_sequence = 0, bb_published_total = 0,
                bb_backpressure_total = 0, bb_consumed_total = 0, bb_capacity = cap,
                bb_blocked = None\<rparr>)"

datatype publish_outcome = Returned "bus_error + publish_ack" | Blocked

text \<open>The tail of \<open>publish\<close>, after the envelope is in the channel.\<close>

definition publish_commit :: "'p envelope \<Rightarrow> 'c \<Rightarrow> ('c, 'p) bus \<Rightarrow> publish_outcome \<times> ('c, 'p) bus" where
  "publish_commit env c b =
     (Returned (Inr \<lparr>ack_sequence = env_sequence env, ack_timestamp_ns = env_timestamp_ns env\<rparr>),
      b\<lparr>bb_chan := c, bb_next_sequence := env_sequence env + 1,
        bb_published_total := bb_published_total b + 1, bb_blocked := None\<rparr>)"

definition publish ::
  "('c, 'p envelope) channel_ops \<Rightarrow> nat option \<Rightarrow> 'p \<Rightarrow> publish_meta \<Rightarrow> ('c, 'p) bus
     \<Rightarrow> publish_outcome \<times> ('c, 'p) bus" where
  "publish ops clock payload meta b =
     (case now_ns clock of
        Inl e \<Rightarrow> (Returned (Inl e), b)
      | Inr ts \<Rightarrow>
          let sq = bb_next_sequence b in
          if sq = u64_max then (Returned (Inl SequenceExhausted), b)
          else (case seal meta payload sq ts of
                  Inl e \<Rightarrow> (Returned (Inl (Envelope e)), b)
                | Inr env \<Rightarrow>
                    (case ch_try_send ops (bb_chan b) env of
                       (SendOk, c) \<Rightarrow> publish_commit env c b
                     | (SendFull, c) \<Rightarrow>
                         (Blocked, b\<lparr>bb_chan := c, bb_backpressure_total := bb_backpressure_total b + 1,
                                     bb_blocked := Some env\<rparr>)
                     | (SendDisconnected, c) \<Rightarrow> (Returned (Inl Closed), b\<lparr>bb_chan := c\<rparr>))))"

text \<open>A wake-up inside the blocking \<open>send\<close>: it goes through once there is room, gives up when the
  receiver is gone, and sleeps on otherwise.\<close>

definition publish_resume ::
  "('c, 'p envelope) channel_ops \<Rightarrow> ('c, 'p) bus \<Rightarrow> publish_outcome \<times> ('c, 'p) bus" where
  "publish_resume ops b =
     (case bb_blocked b of
        None \<Rightarrow> (Blocked, b)
      | Some env \<Rightarrow>
          (case ch_try_send ops (bb_chan b) env of
             (SendOk, c) \<Rightarrow> publish_commit env c b
           | (SendFull, c) \<Rightarrow> (Blocked, b\<lparr>bb_chan := c\<rparr>)
           | (SendDisconnected, c) \<Rightarrow>
               (Returned (Inl Closed), b\<lparr>bb_chan := c, bb_blocked := None\<rparr>)))"

text \<open>\<open>try_recv\<close>; \<open>Ok(None)\<close> on an empty queue is not an error.\<close>

definition bus_try_recv ::
  "('c, 'p envelope) channel_ops \<Rightarrow> ('c, 'p) bus \<Rightarrow> (bus_error + 'p envelope option) \<times> ('c, 'p) bus" where
  "bus_try_recv ops b =
     (case ch_try_recv ops (bb_chan b) of
        (RecvItem env, c) \<Rightarrow>
          (Inr (Some env), b\<lparr>bb_chan := c, bb_consumed_total := bb_consumed_total b + 1\<rparr>)
      | (RecvEmpty, c) \<Rightarrow> (Inr None, b\<lparr>bb_chan := c\<rparr>)
      | (RecvDisconnected, c) \<Rightarrow> (Inl Closed, b\<lparr>bb_chan := c\<rparr>))"

text \<open>\<open>recv\<close> blocks on an empty queue: the result \<open>None\<close> is the blocked call.\<close>

definition bus_recv ::
  "('c, 'p envelope) channel_ops \<Rightarrow> ('c, 'p) bus \<Rightarrow> (bus_error + 'p envelope) option \<times> ('c, 'p) bus" where
  "bus_recv ops b =
     (case ch_try_recv ops (bb_chan b) of
        (RecvItem env, c) \<Rightarrow>
          (Some (Inr env), b\<lparr>bb_chan := c, bb_consumed_total := bb_consumed_total b + 1\<rparr>)
      | (RecvEmpty, c) \<Rightarrow> (None, b\<lparr>bb_chan := c\<rparr>)
      | (RecvDisconnected, c) \<Rightarrow> (Some (Inl Closed), b\<lparr>bb_chan := c\<rparr>))"

definition bus_len :: "('c, 'p envelope) channel_ops \<Rightarrow> ('c, 'p) bus \<Rightarrow> nat" where
  "bus_len ops b = ch_len ops (bb_chan b)"

definition bus_is_empty :: "('c, 'p envelope) channel_ops \<Rightarrow> ('c, 'p) bus \<Rightarrow> bool" where
  "bus_is_empty ops b \<longleftrightarrow> bus_len ops b = 0"

definition bus_statistics :: "('c, 'p envelope) channel_ops \<Rightarrow> ('c, 'p) bus \<Rightarrow> bus_stats" where
  "bus_statistics ops b =
     \<lparr>st_published_total = bb_published_total b, st_consumed_total = bb_consumed_total b,
      st_backpressure_total = bb_backpressure_total b, st_current_depth = bus_len ops b,
      st_capacity = bb_capacity b\<rparr>"

section \<open>Interleaved runs\<close>

datatype 'p bus_action =
    Publish "nat option" 'p publish_meta
  | Resume
  | Recv
  | TryRecv

text \<open>The bus with the history an observer sees: the acknowledgements returned to producers and
  the envelopes returned to the consumer, in order.\<close>

record ('c, 'p) bus_sys =
  sys_bus :: "('c, 'p) bus"
  sys_acks :: "publish_ack list"
  sys_received :: "'p envelope list"

definition note_publish ::
  "publish_outcome \<times> ('c, 'p) bus \<Rightarrow> ('c, 'p) bus_sys \<Rightarrow> ('c, 'p) bus_sys" where
  "note_publish r s =
     (case r of
        (Returned (Inr a), b) \<Rightarrow> s\<lparr>sys_bus := b, sys_acks := sys_acks s @ [a]\<rparr>
      | (_, b) \<Rightarrow> s\<lparr>sys_bus := b\<rparr>)"

text \<open>A publish that finds the mutex taken waits: the step leaves the system as it is.\<close>

fun bus_step ::
  "('c, 'p envelope) channel_ops \<Rightarrow> 'p bus_action \<Rightarrow> ('c, 'p) bus_sys \<Rightarrow> ('c, 'p) bus_sys" where
  "bus_step ops (Publish clock p meta) s =
     (if bb_blocked (sys_bus s) \<noteq> None then s
      else note_publish (publish ops clock p meta (sys_bus s)) s)"
| "bus_step ops Resume s = note_publish (publish_resume ops (sys_bus s)) s"
| "bus_step ops Recv s =
     (case bus_recv ops (sys_bus s) of
        (Some (Inr env), b) \<Rightarrow> s\<lparr>sys_bus := b, sys_received := sys_received s @ [env]\<rparr>
      | (_, b) \<Rightarrow> s\<lparr>sys_bus := b\<rparr>)"
| "bus_step ops TryRecv s =
     (case bus_try_recv ops (sys_bus s) of
        (Inr (Some env), b) \<Rightarrow> s\<lparr>sys_bus := b, sys_received := sys_received s @ [env]\<rparr>
      | (_, b) \<Rightarrow> s\<lparr>sys_bus := b\<rparr>)"

definition bus_init :: "('c, 'p) bus \<Rightarrow> ('c, 'p) bus_sys" where
  "bus_init b = \<lparr>sys_bus = b, sys_acks = [], sys_received = []\<rparr>"

definition bus_run ::
  "('c, 'p envelope) channel_ops \<Rightarrow> 'p bus_action list \<Rightarrow> ('c, 'p) bus_sys \<Rightarrow> ('c, 'p) bus_sys" where
  "bus_run ops steps s = fold (bus_step ops) steps s"

section \<open>Single operations\<close>

lemma now_ns_Inr:
  "now_ns clock = Inr ts \<Longrightarrow> ts \<noteq> 0 \<and> clock = Some (unat ts)"
  by (auto simp: now_ns_def unsigned_of_nat take_bit_nat_eq_self word_of_nat_eq_0_iff
      split: option.splits if_splits dest: nat_dvd_not_less)

lemma publish_error_keeps:
  assumes "publish ops clock p meta b = (Returned (Inl err), b')"
  shows "b' = b\<lparr>bb_chan := bb_chan b'\<rparr>"
  using assms
  by (auto simp: publish_def publish_commit_def Let_def
      split: sum.splits if_splits prod.splits send_reply.splits)

text \<open>What an observer can say of a bus: everything received followed by everything queued is the
  history of the accepted publishes.\<close>

definition ack_of :: "'p envelope \<Rightarrow> publish_ack" where
  "ack_of e = \<lparr>ack_sequence = env_sequence e, ack_timestamp_ns = env_timestamp_ns e\<rparr>"

definition bus_history :: "('c \<Rightarrow> 'p envelope list) \<Rightarrow> ('c, 'p) bus_sys \<Rightarrow> 'p envelope list" where
  "bus_history contents s = sys_received s @ contents (bb_chan (sys_bus s))"

definition bus_inv :: "('c \<Rightarrow> 'p envelope list) \<Rightarrow> ('c \<Rightarrow> nat) \<Rightarrow> ('c, 'p) bus_sys \<Rightarrow> bool" where
  "bus_inv contents room s \<longleftrightarrow>
     (let b = sys_bus s; h = bus_history contents s; n = length h in
        n < 2 ^ 64 \<and> map env_sequence h = map word_of_nat [0..<n]
        \<and> sys_acks s = map ack_of h \<and> (\<forall>e \<in> set h. envelope_ok e)
        \<and> bb_next_sequence b = word_of_nat n
        \<and> bb_published_total b = word_of_nat n
        \<and> bb_consumed_total b = word_of_nat (length (sys_received s))
        \<and> room (bb_chan b) = bb_capacity b
        \<and> length (contents (bb_chan b)) \<le> bb_capacity b
        \<and> (\<forall>e. bb_blocked b = Some e \<longrightarrow>
              envelope_ok e \<and> env_sequence e = word_of_nat n \<and> (word_of_nat n :: u64) \<noteq> u64_max))"

lemma of_nat_ne_max:
  assumes "n < 2 ^ 64" "(word_of_nat n :: u64) \<noteq> u64_max"
  shows "Suc n < 2 ^ 64"
proof (rule ccontr)
  assume "\<not> Suc n < 2 ^ 64"
  with assms(1) have "n = 2 ^ 64 - 1" by simp
  then have "(word_of_nat n :: u64) = u64_max" by simp
  with assms(2) show False ..
qed

lemma bus_invD:
  assumes "bus_inv contents room s"
  shows "length (bus_history contents s) < 2 ^ 64"
    "bb_next_sequence (sys_bus s) = word_of_nat (length (bus_history contents s))"
    "map env_sequence (bus_history contents s) = map word_of_nat [0..<length (bus_history contents s)]"
    "sys_acks s = map ack_of (bus_history contents s)"
    "e \<in> set (bus_history contents s) \<Longrightarrow> envelope_ok e"
    "bb_published_total (sys_bus s) = word_of_nat (length (bus_history contents s))"
    "bb_consumed_total (sys_bus s) = word_of_nat (length (sys_received s))"
    "length (contents (bb_chan (sys_bus s))) \<le> bb_capacity (sys_bus s)"
    "room (bb_chan (sys_bus s)) = bb_capacity (sys_bus s)"
    "bb_blocked (sys_bus s) = Some e \<Longrightarrow> envelope_ok e \<and>
       env_sequence e = word_of_nat (length (bus_history contents s)) \<and>
       bb_next_sequence (sys_bus s) \<noteq> u64_max"
  using assms by (simp_all add: bus_inv_def Let_def)

locale envelope_channel = bounded_channel ops contents room
  for ops :: "('c, 'p envelope) channel_ops" and contents room
begin

text \<open>The one state change behind every accepted publish.\<close>

lemma commit_inv:
  assumes inv: "bus_inv contents room s"
    and send: "ch_try_send ops (bb_chan (sys_bus s)) env = (SendOk, c)"
    and env: "envelope_ok env" "env_sequence env = bb_next_sequence (sys_bus s)"
      "env_sequence env \<noteq> u64_max"
  shows "bus_inv contents room (note_publish (publish_commit env c (sys_bus s)) s)"
proof -
  define n where "n = length (bus_history contents s)"
  from try_send_ok[OF send] have c: "contents c = contents (bb_chan (sys_bus s)) @ [env]"
    and room: "room c = room (bb_chan (sys_bus s))"
    and lt: "length (contents (bb_chan (sys_bus s))) < room (bb_chan (sys_bus s))" by auto
  define s' where "s' = note_publish (publish_commit env c (sys_bus s)) s"
  have h: "bus_history contents s' = bus_history contents s @ [env]"
    by (simp add: s'_def note_publish_def publish_commit_def bus_history_def c)
  have sq: "env_sequence env = word_of_nat n"
    using env(2) bus_invD(2)[OF inv] by (simp add: n_def)
  have "n < 2 ^ 64" using bus_invD(1)[OF inv] by (simp add: n_def)
  with env(3) sq have "Suc n < 2 ^ 64" by (metis of_nat_ne_max)
  then show ?thesis
    using bus_invD[OF inv] env(1) sq lt room c h
    unfolding s'_def[symmetric] bus_inv_def Let_def h
    by (auto simp: s'_def note_publish_def publish_commit_def n_def[symmetric] ack_of_def
        add.commute)
qed

lemma bus_inv_cong:
  assumes "bus_inv contents room s"
    and "sys_received s' = sys_received s" "sys_acks s' = sys_acks s"
    and "contents (bb_chan (sys_bus s')) = contents (bb_chan (sys_bus s))"
    and "room (bb_chan (sys_bus s')) = room (bb_chan (sys_bus s))"
    and "bb_next_sequence (sys_bus s') = bb_next_sequence (sys_bus s)"
    and "bb_published_total (sys_bus s') = bb_published_total (sys_bus s)"
    and "bb_consumed_total (sys_bus s') = bb_consumed_total (sys_bus s)"
    and "bb_capacity (sys_bus s') = bb_capacity (sys_bus s)"
    and "\<And>e. bb_blocked (sys_bus s') = Some e \<Longrightarrow> envelope_ok e \<and>
          env_sequence e = bb_next_sequence (sys_bus s) \<and> bb_next_sequence (sys_bus s) \<noteq> u64_max"
  shows "bus_inv contents room s'"
proof -
  have h: "bus_history contents s' = bus_history contents s"
    using assms(2,4) by (simp add: bus_history_def)
  show ?thesis
    using bus_invD(1-9)[OF assms(1)] assms(2-10) unfolding bus_inv_def Let_def h by simp
qed

lemma stay_inv:
  assumes inv: "bus_inv contents room s"
    and send: "ch_try_send ops (bb_chan (sys_bus s)) env = (r, c)" "r \<noteq> SendOk"
    and blk: "\<And>e. blk = Some e \<Longrightarrow> envelope_ok e \<and>
          env_sequence e = bb_next_sequence (sys_bus s) \<and> bb_next_sequence (sys_bus s) \<noteq> u64_max"
  shows "bus_inv contents room (s\<lparr>sys_bus := (sys_bus s)\<lparr>bb_chan := c,
           bb_backpressure_total := bp, bb_blocked := blk\<rparr>\<rparr>)"
  using try_send_fail[OF send] blk by (intro bus_inv_cong[OF inv]) auto

lemma publish_inv:
  assumes inv: "bus_inv contents room s" and free: "bb_blocked (sys_bus s) = None"
  shows "bus_inv contents room (note_publish (publish ops clock p meta (sys_bus s)) s)"
proof -
  let ?b = "sys_bus s"
  have id: "note_publish (Returned (Inl x), ?b) s = s" for x by (simp add: note_publish_def)
  show ?thesis
  proof (cases "now_ns clock")
    case (Inl e)
    then show ?thesis using inv by (simp add: publish_def id)
  next
    case ts: (Inr ts)
    show ?thesis
    proof (cases "bb_next_sequence ?b = u64_max")
      case True
      then show ?thesis using inv ts by (simp add: publish_def id)
    next
      case False
      show ?thesis
      proof (cases "seal meta p (bb_next_sequence ?b) ts")
        case (Inl e)
        then show ?thesis using inv ts False by (simp add: publish_def id Let_def)
      next
        case (Inr env)
        note f = seal_fields[OF Inr]
        obtain r c where send: "ch_try_send ops (bb_chan ?b) env = (r, c)" by fastforce
        have blk: "e = env \<Longrightarrow> envelope_ok e \<and> env_sequence e = bb_next_sequence ?b \<and>
            bb_next_sequence ?b \<noteq> u64_max" for e
          using f False by simp
        show ?thesis
        proof (cases r)
          case SendOk
          then show ?thesis using commit_inv[OF inv _ f(5) f(1)] send f ts False Inr
            by (simp add: publish_def Let_def)
        next
          case SendFull
          have "note_publish (publish ops clock p meta ?b) s =
              s\<lparr>sys_bus := ?b\<lparr>bb_chan := c, bb_backpressure_total := bb_backpressure_total ?b + 1,
                              bb_blocked := Some env\<rparr>\<rparr>"
            using SendFull send ts False Inr by (simp add: publish_def Let_def note_publish_def)
          then show ?thesis
            by (simp only:) (rule stay_inv[OF inv send], use SendFull blk in auto)
        next
          case SendDisconnected
          have "note_publish (publish ops clock p meta ?b) s =
              s\<lparr>sys_bus := ?b\<lparr>bb_chan := c, bb_backpressure_total := bb_backpressure_total ?b,
                              bb_blocked := None\<rparr>\<rparr>"
            using SendDisconnected send ts False Inr free
            by (simp add: publish_def Let_def note_publish_def)
          then show ?thesis
            by (simp only:) (rule stay_inv[OF inv send], use SendDisconnected in auto)
        qed
      qed
    qed
  qed
qed

lemma resume_inv:
  assumes inv: "bus_inv contents room s"
  shows "bus_inv contents room (note_publish (publish_resume ops (sys_bus s)) s)"
proof (cases "bb_blocked (sys_bus s)")
  case None
  then show ?thesis using inv by (simp add: publish_resume_def note_publish_def)
next
  case (Some env)
  let ?b = "sys_bus s"
  from bus_invD(10)[OF inv Some] bus_invD(2)[OF inv]
  have e: "envelope_ok env" "env_sequence env = bb_next_sequence ?b"
    "bb_next_sequence ?b \<noteq> u64_max" by auto
  obtain r c where send: "ch_try_send ops (bb_chan ?b) env = (r, c)" by fastforce
  show ?thesis
  proof (cases r)
    case SendOk
    then show ?thesis using commit_inv[OF inv _ e(1,2)] e send Some
      by (simp add: publish_resume_def)
  next
    case SendFull
    have "note_publish (publish_resume ops ?b) s = s\<lparr>sys_bus := ?b\<lparr>bb_chan := c,
        bb_backpressure_total := bb_backpressure_total ?b, bb_blocked := Some env\<rparr>\<rparr>"
      using SendFull send Some by (simp add: publish_resume_def note_publish_def)
    then show ?thesis
      by (simp only:) (rule stay_inv[OF inv send], use SendFull e in auto)
  next
    case SendDisconnected
    have "note_publish (publish_resume ops ?b) s = s\<lparr>sys_bus := ?b\<lparr>bb_chan := c,
        bb_backpressure_total := bb_backpressure_total ?b, bb_blocked := None\<rparr>\<rparr>"
      using SendDisconnected send Some by (simp add: publish_resume_def note_publish_def)
    then show ?thesis
      by (simp only:) (rule stay_inv[OF inv send], use SendDisconnected in auto)
  qed
qed

text \<open>Receiving moves the head of the queue to the received events and keeps the history.\<close>

lemma received_inv:
  assumes inv: "bus_inv contents room s"
    and recv: "ch_try_recv ops (bb_chan (sys_bus s)) = (RecvItem env, c)"
  shows "bus_inv contents room (s\<lparr>sys_bus := (sys_bus s)\<lparr>bb_chan := c,
           bb_consumed_total := bb_consumed_total (sys_bus s) + 1\<rparr>,
           sys_received := sys_received s @ [env]\<rparr>)" (is "bus_inv contents room ?s'")
proof -
  from try_recv_item[OF recv] have c: "contents (bb_chan (sys_bus s)) = env # contents c"
    "room c = room (bb_chan (sys_bus s))" by auto
  have h: "bus_history contents ?s' = bus_history contents s"
    by (simp add: bus_history_def c)
  show ?thesis
    using bus_invD[OF inv] c unfolding bus_inv_def Let_def h
    by (auto simp: add.commute)
qed

lemma unreceived_inv:
  assumes inv: "bus_inv contents room s"
    and recv: "ch_try_recv ops (bb_chan (sys_bus s)) = (r, c)" "r = RecvEmpty \<or> r = RecvDisconnected"
  shows "bus_inv contents room (s\<lparr>sys_bus := (sys_bus s)\<lparr>bb_chan := c\<rparr>\<rparr>)"
proof (rule bus_inv_cong[OF inv])
  have "contents (bb_chan (sys_bus s)) = [] \<and> contents c = [] \<and> room c = room (bb_chan (sys_bus s))"
    using try_recv_none[of "bb_chan (sys_bus s)" c] recv by auto
  then show "contents (bb_chan (sys_bus (s\<lparr>sys_bus := (sys_bus s)\<lparr>bb_chan := c\<rparr>\<rparr>)))
      = contents (bb_chan (sys_bus s))"
    and "room (bb_chan (sys_bus (s\<lparr>sys_bus := (sys_bus s)\<lparr>bb_chan := c\<rparr>\<rparr>)))
      = room (bb_chan (sys_bus s))" by auto
next
  fix e assume "bb_blocked (sys_bus (s\<lparr>sys_bus := (sys_bus s)\<lparr>bb_chan := c\<rparr>\<rparr>)) = Some e"
  then show "envelope_ok e \<and> env_sequence e = bb_next_sequence (sys_bus s) \<and>
      bb_next_sequence (sys_bus s) \<noteq> u64_max"
    using bus_invD(2,10)[OF inv] by auto
qed simp_all

lemma step_inv: "bus_inv contents room s \<Longrightarrow> bus_inv contents room (bus_step ops a s)"
proof (cases a)
  case (Publish clock p meta)
  assume "bus_inv contents room s"
  then show ?thesis using publish_inv[of s clock p meta] by (simp add: Publish)
next
  case Resume
  assume "bus_inv contents room s"
  then show ?thesis using resume_inv by (simp add: Resume)
next
  case Recv
  assume inv: "bus_inv contents room s"
  obtain r c where "ch_try_recv ops (bb_chan (sys_bus s)) = (r, c)" by fastforce
  then show ?thesis using received_inv[OF inv] unreceived_inv[OF inv, of r c]
    by (cases r) (simp_all add: Recv bus_recv_def)
next
  case TryRecv
  assume inv: "bus_inv contents room s"
  obtain r c where "ch_try_recv ops (bb_chan (sys_bus s)) = (r, c)" by fastforce
  then show ?thesis using received_inv[OF inv] unreceived_inv[OF inv, of r c]
    by (cases r) (simp_all add: TryRecv bus_try_recv_def)
qed

lemma run_inv: "bus_inv contents room s \<Longrightarrow> bus_inv contents room (bus_run ops as s)"
  unfolding bus_run_def by (induction as arbitrary: s) (auto simp: step_inv)

lemma init_inv: "bus_new ops cap = Inr b \<Longrightarrow> bus_inv contents room (bus_init b)"
  using bounded_new[of cap]
  by (auto simp: bus_new_def bus_init_def bus_inv_def bus_history_def Let_def split: if_splits)

lemma run_capacity: "bb_capacity (sys_bus (bus_run ops as s)) = bb_capacity (sys_bus s)"
proof -
  have "bb_capacity (sys_bus (bus_step ops a s)) = bb_capacity (sys_bus s)" for a s
    by (cases a) (auto simp: publish_def publish_resume_def bus_recv_def bus_try_recv_def
        note_publish_def publish_commit_def Let_def
        split: sum.splits option.splits prod.splits send_reply.splits recv_reply.splits
          publish_outcome.splits)
  then show ?thesis unfolding bus_run_def by (induction as arbitrary: s) auto
qed

lemmas new_run_inv = run_inv[OF init_inv]

end

section \<open>A channel that meets the contract\<close>

text \<open>A bounded queue with a flag for a dropped receiver: the documented behaviour of a crossbeam
  channel as a list.  It shows that the contract can hold; the model of the bus does not use it.\<close>

record 'e queue_channel =
  qc_items :: "'e list"
  qc_cap :: nat
  qc_gone :: bool

definition queue_channel_ops :: "('e queue_channel, 'e) channel_ops" where
  "queue_channel_ops =
     \<lparr>ch_bounded = (\<lambda>n. \<lparr>qc_items = [], qc_cap = n, qc_gone = False\<rparr>),
      ch_try_send = (\<lambda>c e. if qc_gone c then (SendDisconnected, c)
                          else if length (qc_items c) < qc_cap c
                          then (SendOk, c\<lparr>qc_items := qc_items c @ [e]\<rparr>) else (SendFull, c)),
      ch_try_recv = (\<lambda>c. case qc_items c of
                          [] \<Rightarrow> (if qc_gone c then RecvDisconnected else RecvEmpty, c)
                        | e # es \<Rightarrow> (RecvItem e, c\<lparr>qc_items := es\<rparr>)),
      ch_len = (\<lambda>c. length (qc_items c))\<rparr>"

interpretation qch: envelope_channel queue_channel_ops qc_items qc_cap
  by unfold_locales
    (auto simp: queue_channel_ops_def split: if_splits list.splits)

section \<open>Properties\<close>

definition demo_meta :: publish_meta where
  "demo_meta = \<lparr>source = Ingress,
     chain_ctx = \<lparr>chain_id = 1, block_number = 18000000, block_hash = 11\<rparr>,
     event_version = 1, correlation_id = 42\<rparr>"

lemma bus_new_Suc:
  "bus_new ops (Suc n) = Inr \<lparr>bb_chan = ch_bounded ops (Suc n), bb_next_sequence = 0,
     bb_published_total = 0, bb_backpressure_total = 0, bb_consumed_total = 0,
     bb_capacity = Suc n, bb_blocked = None\<rparr>"
  by (simp add: bus_new_def)

text \<open>C5: Ordering.  In every interleaving of producers and the consumer, starting from a new bus,
  the envelopes handed to the consumer followed by those still queued carry exactly the sequence
  numbers 0, 1, 2, ... in order: nothing is lost, duplicated, reordered or left out, every
  acknowledgement names the envelope it acknowledges, the counter never reaches \<open>u64::MAX\<close>, and
  every envelope that went through satisfies the envelope invariants.\<close>

theorem bus_sequences_contiguous:
  assumes "envelope_channel ops contents room"
    and "bus_new ops cap = Inr b"
  shows "let s = bus_run ops as (bus_init b);
             h = sys_received s @ contents (bb_chan (sys_bus s)) in
         map env_sequence h = map word_of_nat [0..<length h] \<and> length h < 2 ^ 64
         \<and> sys_acks s = map ack_of h \<and> (\<forall>e \<in> set h. envelope_ok e)"
  using bus_invD(1,3,4,5)[OF envelope_channel.new_run_inv[OF assms]]
  by (simp add: bus_history_def Let_def)

theorem bus_sequences_contiguous_witness:
  "\<exists>b. bus_new queue_channel_ops 2 = Inr b \<and>
    (let s = bus_run queue_channel_ops
           [Publish (Some 5) (7::nat) demo_meta, Publish (Some 6) 8 demo_meta, Recv] (bus_init b);
         h = sys_received s @ qc_items (bb_chan (sys_bus s)) in
     map env_sequence h = map word_of_nat [0..<length h] \<and> length h < 2 ^ 64
     \<and> sys_acks s = map ack_of h \<and> (\<forall>e \<in> set h. envelope_ok e))"
proof -
  obtain b :: "(nat envelope queue_channel, nat) bus" where b: "bus_new queue_channel_ops 2 = Inr b"
    by (simp add: bus_new_def)
  with bus_sequences_contiguous[OF qch.envelope_channel_axioms b] show ?thesis by blast
qed

text \<open>Accounting.  In every reachable state the published counter is the number of
  acknowledgements, the consumed counter the number of envelopes handed out, the depth gauge the
  difference of the two, and the depth never exceeds the capacity the bus was built with.\<close>

theorem bus_statistics_account:
  assumes "envelope_channel ops contents room"
    and "bus_new ops cap = Inr b"
  shows "let s = bus_run ops as (bus_init b); st = bus_statistics ops (sys_bus s) in
         unat (st_published_total st) = length (sys_acks s)
         \<and> unat (st_consumed_total st) = length (sys_received s)
         \<and> st_current_depth st + length (sys_received s) = length (sys_acks s)
         \<and> st_current_depth st \<le> cap \<and> st_capacity st = cap"
proof -
  let ?s = "bus_run ops as (bus_init b)"
  have inv: "bus_inv contents room ?s" by (rule envelope_channel.new_run_inv[OF assms])
  have cap: "bb_capacity (sys_bus ?s) = cap"
    using assms(2) envelope_channel.run_capacity[OF assms(1), of as "bus_init b"]
    by (auto simp: bus_init_def bus_new_def split: if_splits)
  have len: "ch_len ops c = length (contents c)" for c
    using bounded_channel.len_contents[OF envelope_channel.axioms[OF assms(1)]] .
  have "length (sys_received ?s) < 2 ^ 64"
    using bus_invD(1)[OF inv] by (simp add: bus_history_def)
  then have "unat (bb_published_total (sys_bus ?s)) = length (bus_history contents ?s)"
    "unat (bb_consumed_total (sys_bus ?s)) = length (sys_received ?s)"
    using bus_invD(1,6,7)[OF inv] by (simp_all add: unsigned_of_nat take_bit_nat_eq_self
        del: of_nat_add)
  then show ?thesis
    using bus_invD(4,8)[OF inv] cap
    by (simp add: Let_def bus_statistics_def bus_len_def len bus_history_def)
qed

theorem bus_statistics_account_witness:
  "\<exists>b. bus_new queue_channel_ops 1 = Inr b \<and>
    (let s = bus_run queue_channel_ops
           [Publish (Some 5) (7::nat) demo_meta, Publish (Some 6) 8 demo_meta, TryRecv, Resume]
           (bus_init b);
         st = bus_statistics queue_channel_ops (sys_bus s) in
     unat (st_published_total st) = length (sys_acks s)
     \<and> unat (st_consumed_total st) = length (sys_received s)
     \<and> st_current_depth st + length (sys_received s) = length (sys_acks s)
     \<and> st_current_depth st \<le> 1 \<and> st_capacity st = 1)"
proof -
  obtain b :: "(nat envelope queue_channel, nat) bus" where b: "bus_new queue_channel_ops 1 = Inr b"
    by (simp add: bus_new_def)
  with bus_statistics_account[OF qch.envelope_channel_axioms b] show ?thesis by blast
qed

text \<open>Retry safety of \<open>publish\<close>, on every branch.  A failed publish leaves the next sequence
  number and all counters as they were, so that a retry reuses the number; an accepted one returns
  the old number and advances the counter by exactly one without wrapping; a blocked one keeps the
  number, counts one backpressure event and holds the sealed envelope.\<close>

theorem publish_retry_safe:
  "publish ops None p meta b = (Returned (Inl ClockUnavailable), b) \<and>
   (case publish ops clock p meta b of
     (Returned (Inl err), b') \<Rightarrow> b' = b\<lparr>bb_chan := bb_chan b'\<rparr>
   | (Returned (Inr ack), b') \<Rightarrow> ack_sequence ack = bb_next_sequence b \<and>
        unat (bb_next_sequence b') = Suc (unat (bb_next_sequence b)) \<and>
        clock = Some (unat (ack_timestamp_ns ack)) \<and>
        bb_published_total b' = bb_published_total b + 1
   | (Blocked, b') \<Rightarrow> bb_next_sequence b' = bb_next_sequence b \<and>
        bb_published_total b' = bb_published_total b \<and>
        bb_backpressure_total b' = bb_backpressure_total b + 1 \<and>
        (\<exists>ts env. clock = Some (unat ts) \<and> seal meta p (bb_next_sequence b) ts = Inr env \<and>
                  bb_blocked b' = Some env))"
proof -
  have suc: "unat (w + 1) = Suc (unat w)" if "w \<noteq> u64_max" for w :: u64
    using that unat_add_small[of w 1] unat_lt_exp[of w]
      word_unat_eq_iff[of w u64_max] unat_max_word[where 'a = 64] by simp
  have none: "publish ops None p meta b = (Returned (Inl ClockUnavailable), b)"
    by (simp add: publish_def now_ns_def)
  show ?thesis unfolding none
    by (auto simp: publish_def publish_commit_def Let_def seal_fields suc dest: now_ns_Inr
        split: sum.splits if_splits prod.splits send_reply.splits)
qed

text \<open>A full queue never loses the publisher's envelope.  When a blocked publisher wakes up
  and the channel accepts, it is the envelope sealed at the start that enters the queue and is
  acknowledged, under the sequence number it was given then.\<close>

theorem blocked_publish_completes:
  assumes "bb_blocked b = Some env"
    and "ch_try_send ops (bb_chan b) env = (SendOk, c)"
  shows "publish_resume ops b = (Returned (Inr (ack_of env)),
           b\<lparr>bb_chan := c, bb_next_sequence := env_sequence env + 1,
             bb_published_total := bb_published_total b + 1, bb_blocked := None\<rparr>)"
  using assms by (simp add: publish_resume_def publish_commit_def ack_of_def)

theorem blocked_publish_completes_witness:
  "\<exists>b :: (nat envelope queue_channel, nat) bus. \<exists>env c. bb_blocked b = Some env \<and>
     publish_resume queue_channel_ops b = (Returned (Inr (ack_of env)),
           b\<lparr>bb_chan := c, bb_next_sequence := env_sequence env + 1,
             bb_published_total := bb_published_total b + 1, bb_blocked := None\<rparr>)"
proof -
  obtain env :: "nat envelope" where "seal demo_meta 7 3 5 = Inr env"
    by (simp add: seal_def check_envelope_invariants_def demo_meta_def)
  let ?b = "\<lparr>bb_chan = \<lparr>qc_items = [], qc_cap = 1, qc_gone = False\<rparr>, bb_next_sequence = 3,
    bb_published_total = 3, bb_backpressure_total = 1, bb_consumed_total = 3, bb_capacity = 1,
    bb_blocked = Some env\<rparr>"
  have "ch_try_send queue_channel_ops (bb_chan ?b) env
      = (SendOk, \<lparr>qc_items = [env], qc_cap = 1, qc_gone = False\<rparr>)"
    by (simp add: queue_channel_ops_def)
  from blocked_publish_completes[OF _ this] show ?thesis by (intro exI[of _ ?b]) auto
qed

end
