(* ===== verification/Journal.thy ===== *)
theory Journal
  imports Types
begin

text \<open>
  The append-only journal of \<open>crates/journal/src/{frame,journal,error}.rs\<close>: the file header, the
  frame format (length prefix, payload, CRC trailer), the buffered writer and the iterator that
  fuses on the first error.  The codec (\<open>rkyv\<close>) and the checksum (\<open>crc32fast\<close>) are parameters.
  A file is its bytes and the number of bytes the storage still accepts; a read may be split by
  the operating system in any way (\<open>chunk\<close>) and may fail after some bytes (\<open>rd_fault\<close>).
\<close>

section \<open>Errors\<close>

datatype io_error = UnexpectedEof | StorageFull | OtherIo nat

datatype journal_error =
    Io io_error
  | TypesErr types_error
  | Rkyv nat
  | BincodeSerialize nat
  | BincodeDeserialize nat
  | ChecksumMismatch u64 u32 u32
  | InvalidFrameLength u64 u64 u64
  | TruncatedFrame u64 u32 u32
  | InvalidFileHeader bytes bytes
  | TruncatedFileHeader bytes
  | UnsupportedFileVersion u8
  | InvalidReservedHeader bytes
  | LastSequenceUnavailable
  | ReservedKey bytes
  | RocksDb nat

section \<open>Format constants\<close>

definition MAGIC :: bytes where "MAGIC = [0x4C, 0x4D, 0x45, 0x4A]"
definition FILE_FORMAT_VERSION :: u8 where "FILE_FORMAT_VERSION = 1"
definition RESERVED_HEADER :: bytes where "RESERVED_HEADER = [0, 0, 0]"
definition FILE_HEADER_LEN :: nat where "FILE_HEADER_LEN = 8"
definition MAX_FRAME_LEN :: u64 where "MAX_FRAME_LEN = 16 * 1024 * 1024"
definition FRAME_OVERHEAD :: nat where "FRAME_OVERHEAD = 4 + 4"

section \<open>The file and the buffered writer\<close>

record os_file =
  f_data :: bytes
  f_room :: nat

definition os_write_all :: "bytes \<Rightarrow> os_file \<Rightarrow> (io_error + unit) \<times> os_file" where
  "os_write_all d f =
     (if length d \<le> f_room f
      then (Inr (), f\<lparr>f_data := f_data f @ d, f_room := f_room f - length d\<rparr>)
      else (Inl StorageFull, f\<lparr>f_data := f_data f @ take (f_room f) d, f_room := 0\<rparr>))"

text \<open>\<open>std::io::BufWriter\<close> with its default capacity: a chunk that fits is copied, otherwise the
  buffer is flushed first, and a chunk as large as the buffer goes straight to the file.  A failed
  flush keeps what the file did not take.\<close>

definition BUF_CAPACITY :: nat where "BUF_CAPACITY = 8192"

definition bw_flush :: "os_file \<times> bytes \<Rightarrow> (io_error + unit) \<times> (os_file \<times> bytes)" where
  "bw_flush w =
     (case w of (f, buf) \<Rightarrow>
        (case os_write_all buf f of
           (Inr _, f') \<Rightarrow> (Inr (), (f', []))
         | (Inl e, f') \<Rightarrow> (Inl e, (f', drop (f_room f) buf))))"

definition bw_write_all :: "bytes \<Rightarrow> os_file \<times> bytes \<Rightarrow> (io_error + unit) \<times> (os_file \<times> bytes)" where
  "bw_write_all d w =
     (case w of (f, buf) \<Rightarrow>
        if length d < BUF_CAPACITY - length buf then (Inr (), (f, buf @ d))
        else
          (case (if length d > BUF_CAPACITY - length buf then bw_flush (f, buf)
                 else (Inr (), (f, buf))) of
             (Inl e, w1) \<Rightarrow> (Inl e, w1)
           | (Inr _, (f1, buf1)) \<Rightarrow>
               if length d \<ge> BUF_CAPACITY
               then (case os_write_all d f1 of
                       (Inl e, f2) \<Rightarrow> (Inl e, (f2, buf1))
                     | (Inr _, f2) \<Rightarrow> (Inr (), (f2, buf1)))
               else (Inr (), (f1, buf1 @ d))))"

section \<open>Header and frame helpers\<close>

definition write_file_header :: "os_file \<Rightarrow> (io_error + unit) \<times> os_file" where
  "write_file_header f =
     (case os_write_all MAGIC f of
        (Inl e, f1) \<Rightarrow> (Inl e, f1)
      | (Inr _, f1) \<Rightarrow>
          (case os_write_all [FILE_FORMAT_VERSION] f1 of
             (Inl e, f2) \<Rightarrow> (Inl e, f2)
           | (Inr _, f2) \<Rightarrow> os_write_all RESERVED_HEADER f2))"

definition read_and_validate_file_header :: "bytes \<Rightarrow> journal_error + unit" where
  "read_and_validate_file_header r =
     (if length r < FILE_HEADER_LEN then Inl (Io UnexpectedEof)
      else let buf = take FILE_HEADER_LEN r; magic = take 4 buf; version = buf ! 4;
               reserved = take 3 (drop 5 buf) in
           if magic \<noteq> MAGIC then Inl (InvalidFileHeader MAGIC magic)
           else if version \<noteq> FILE_FORMAT_VERSION then Inl (UnsupportedFileVersion version)
           else if reserved \<noteq> RESERVED_HEADER then Inl (InvalidReservedHeader reserved)
           else Inr ())"

definition validate_frame_length :: "u64 \<Rightarrow> u64 \<Rightarrow> journal_error + unit" where
  "validate_frame_length len off =
     (if len = 0 \<or> len > MAX_FRAME_LEN then Inl (InvalidFrameLength off len MAX_FRAME_LEN)
      else Inr ())"

section \<open>The journal\<close>

record journal =
  jn_writer :: "os_file \<times> bytes"
  jn_byte_offset :: u64
  jn_appended_total :: u64
  jn_bytes_written_total :: u64
  jn_read_total :: u64
  jn_corrupt_frames_total :: u64

record journal_stats =
  js_appended_total :: u64
  js_bytes_written_total :: u64
  js_read_total :: u64
  js_corrupt_frames_total :: u64

text \<open>\<open>open\<close>: the argument is what \<open>OpenOptions::open\<close> returned, a file created when it was
  absent; the second component is the file as it is left on the disk.\<close>

definition journal_open :: "io_error + os_file \<Rightarrow> (journal_error + journal) \<times> os_file option" where
  "journal_open opened =
     (case opened of
        Inl e \<Rightarrow> (Inl (Io e), None)
      | Inr f \<Rightarrow>
          let len = length (f_data f);
              mk = (\<lambda>f off. \<lparr>jn_writer = (f, []), jn_byte_offset = off, jn_appended_total = 0,
                             jn_bytes_written_total = 0, jn_read_total = 0,
                             jn_corrupt_frames_total = 0\<rparr>) in
          if len = 0 then
            (case write_file_header f of
               (Inl e, f') \<Rightarrow> (Inl (Io e), Some f')
             | (Inr _, f') \<Rightarrow> (Inr (mk f' (word_of_nat FILE_HEADER_LEN)), Some f'))
          else if len < FILE_HEADER_LEN then (Inl (TruncatedFileHeader (f_data f)), Some f)
          else (case read_and_validate_file_header (f_data f) of
                  Inl e \<Rightarrow> (Inl e, Some f)
                | Inr _ \<Rightarrow> (Inr (mk f (word_of_nat len)), Some f)))"

definition journal_statistics :: "journal \<Rightarrow> journal_stats" where
  "journal_statistics j =
     \<lparr>js_appended_total = jn_appended_total j, js_bytes_written_total = jn_bytes_written_total j,
      js_read_total = jn_read_total j, js_corrupt_frames_total = jn_corrupt_frames_total j\<rparr>"

definition journal_flush :: "journal \<Rightarrow> (journal_error + unit) \<times> journal" where
  "journal_flush j =
     (case bw_flush (jn_writer j) of
        (Inl e, w) \<Rightarrow> (Inl (Io e), j\<lparr>jn_writer := w\<rparr>)
      | (Inr _, w) \<Rightarrow> (Inr (), j\<lparr>jn_writer := w\<rparr>))"

text \<open>The codec and the checksum the journal calls.\<close>

record 'p codec =
  cd_to_bytes :: "'p envelope \<Rightarrow> nat + bytes"
  cd_from_bytes :: "bytes \<Rightarrow> nat + 'p envelope"
  cd_crc :: "bytes \<Rightarrow> u32"

definition append :: "'p codec \<Rightarrow> 'p envelope \<Rightarrow> journal \<Rightarrow> (journal_error + journal_position) \<times> journal" where
  "append cd env j =
     (let frame_start = jn_byte_offset j in
      case cd_to_bytes cd env of
        Inl e \<Rightarrow> (Inl (Rkyv e), j)
      | Inr payload \<Rightarrow>
          (case validate_frame_length (word_of_nat (length payload)) frame_start of
             Inl e \<Rightarrow> (Inl e, j)
           | Inr _ \<Rightarrow>
               let crc = cd_crc cd payload;
                   length_bytes = u32_to_le (word_of_nat (length payload));
                   crc_bytes = u32_to_le crc in
               (case bw_write_all length_bytes (jn_writer j) of
                  (Inl e, w) \<Rightarrow> (Inl (Io e), j\<lparr>jn_writer := w\<rparr>)
                | (Inr _, w1) \<Rightarrow>
                    (case bw_write_all payload w1 of
                       (Inl e, w) \<Rightarrow> (Inl (Io e), j\<lparr>jn_writer := w\<rparr>)
                     | (Inr _, w2) \<Rightarrow>
                         (case bw_write_all crc_bytes w2 of
                            (Inl e, w) \<Rightarrow> (Inl (Io e), j\<lparr>jn_writer := w\<rparr>)
                          | (Inr _, w3) \<Rightarrow>
                              let frame_size = word_of_nat FRAME_OVERHEAD + word_of_nat (length payload) in
                              (Inr \<lparr>jp_sequence = env_sequence env, jp_byte_offset = frame_start\<rparr>,
                               j\<lparr>jn_writer := w3, jn_byte_offset := frame_start + frame_size,
                                 jn_appended_total := jn_appended_total j + 1,
                                 jn_bytes_written_total := jn_bytes_written_total j + frame_size\<rparr>))))))"

section \<open>The iterator\<close>

record reader =
  rd_rest :: bytes
  rd_fault :: "(nat \<times> io_error) option"

text \<open>One \<open>read\<close> call for at most \<open>want\<close> bytes: an error once the fault is reached, nothing at the end
  of the file, otherwise between one and \<open>want\<close> bytes, how many being the system's choice.\<close>

definition read_count :: "(nat \<Rightarrow> nat) \<Rightarrow> nat \<Rightarrow> reader \<Rightarrow> nat" where
  "read_count chunk want r =
     (let top = min want (case rd_fault r of
                            None \<Rightarrow> length (rd_rest r)
                          | Some (k, _) \<Rightarrow> min k (length (rd_rest r))) in
      if top = 0 then 0 else max 1 (min (chunk (length (rd_rest r))) top))"

definition read_some :: "(nat \<Rightarrow> nat) \<Rightarrow> nat \<Rightarrow> reader \<Rightarrow> (io_error + bytes) \<times> reader" where
  "read_some chunk want r =
     (case rd_fault r of
        Some (0, e) \<Rightarrow> (Inl e, r)
      | _ \<Rightarrow>
          let n = read_count chunk want r in
          (Inr (take n (rd_rest r)),
           r\<lparr>rd_rest := drop n (rd_rest r), rd_fault := map_option (\<lambda>(k, e). (k - n, e)) (rd_fault r)\<rparr>))"

text \<open>The \<open>while filled < want\<close> loops of \<open>next\<close>.\<close>

function read_fill :: "(nat \<Rightarrow> nat) \<Rightarrow> nat \<Rightarrow> reader \<Rightarrow> (io_error + bytes) \<times> reader" where
  "read_fill chunk want r =
     (if want = 0 then (Inr [], r)
      else (case read_some chunk want r of
              (Inl e, r') \<Rightarrow> (Inl e, r')
            | (Inr got, r') \<Rightarrow>
                if got = [] then (Inr [], r')
                else (case read_fill chunk (want - length got) r' of
                        (Inl e, r'') \<Rightarrow> (Inl e, r'')
                      | (Inr later, r'') \<Rightarrow> (Inr (got @ later), r''))))"
  by pat_completeness auto
termination by (relation "measure (\<lambda>(_, want, _). want)") auto

declare read_fill.simps [simp del]

record 'p journal_iter =
  ji_reader :: "reader option"
  ji_byte_offset :: u64
  ji_fused :: bool
  ji_pending :: "journal_error option"
  ji_read_total :: u64
  ji_corrupt_total :: u64

text \<open>\<open>iter_all\<close> opens a fresh handle: what the operating system sees of the file, not what the
  writer still buffers.  The counters it borrows are copied in; the journal cannot be appended to
  while the iterator lives, so the bytes are fixed.\<close>

definition iter_all :: "io_error + reader \<Rightarrow> journal \<Rightarrow> 'p journal_iter" where
  "iter_all opened j =
     (case opened of
        Inr r \<Rightarrow> \<lparr>ji_reader = Some \<lparr>rd_rest = drop FILE_HEADER_LEN (rd_rest r), rd_fault = rd_fault r\<rparr>,
                  ji_byte_offset = word_of_nat FILE_HEADER_LEN, ji_fused = False, ji_pending = None,
                  ji_read_total = jn_read_total j, ji_corrupt_total = jn_corrupt_frames_total j\<rparr>
      | Inl e \<Rightarrow> \<lparr>ji_reader = None, ji_byte_offset = 0, ji_fused = False, ji_pending = Some (Io e),
                 ji_read_total = jn_read_total j, ji_corrupt_total = jn_corrupt_frames_total j\<rparr>)"

definition fuse_with_corrupt ::
  "journal_error \<Rightarrow> 'p journal_iter \<Rightarrow> (journal_error + 'p envelope) option \<times> 'p journal_iter" where
  "fuse_with_corrupt e it =
     (Some (Inl e), it\<lparr>ji_fused := True, ji_corrupt_total := ji_corrupt_total it + 1\<rparr>)"

text \<open>\<open>JournalIter::next\<close>, steps a to i.\<close>

definition journal_next ::
  "'p codec \<Rightarrow> (nat \<Rightarrow> nat) \<Rightarrow> 'p journal_iter \<Rightarrow> (journal_error + 'p envelope) option \<times> 'p journal_iter" where
  "journal_next cd chunk it =
     (if ji_fused it then (None, it)
      else case ji_pending it of
        Some e \<Rightarrow> fuse_with_corrupt e (it\<lparr>ji_pending := None\<rparr>)
      | None \<Rightarrow>
     (case ji_reader it of
        None \<Rightarrow> (None, it)
      | Some r \<Rightarrow>
     let frame_start = ji_byte_offset it in
     (case read_fill chunk 4 r of
        (Inl e, r1) \<Rightarrow> fuse_with_corrupt (Io e) (it\<lparr>ji_reader := Some r1\<rparr>)
      | (Inr len_buf, r1) \<Rightarrow>
     if length len_buf = 0 then (None, it\<lparr>ji_reader := Some r1\<rparr>)
     else if length len_buf \<noteq> 4
     then fuse_with_corrupt (TruncatedFrame frame_start 4 (word_of_nat (length len_buf)))
            (it\<lparr>ji_reader := Some r1\<rparr>)
     else let len = u32_from_le len_buf in
     (case validate_frame_length (ucast len) frame_start of
        Inl e \<Rightarrow> fuse_with_corrupt e (it\<lparr>ji_reader := Some r1\<rparr>)
      | Inr _ \<Rightarrow>
     (case read_fill chunk (unat len) r1 of
        (Inl e, r2) \<Rightarrow> fuse_with_corrupt (Io e) (it\<lparr>ji_reader := Some r2\<rparr>)
      | (Inr payload, r2) \<Rightarrow>
     if length payload < unat len
     then fuse_with_corrupt (TruncatedFrame frame_start len (word_of_nat (length payload)))
            (it\<lparr>ji_reader := Some r2\<rparr>)
     else
     (case read_fill chunk 4 r2 of
        (Inl e, r3) \<Rightarrow> fuse_with_corrupt (Io e) (it\<lparr>ji_reader := Some r3\<rparr>)
      | (Inr crc_buf, r3) \<Rightarrow>
     if length crc_buf < 4
     then fuse_with_corrupt (TruncatedFrame frame_start 4 (word_of_nat (length crc_buf)))
            (it\<lparr>ji_reader := Some r3\<rparr>)
     else let crc_read = u32_from_le crc_buf; crc_computed = cd_crc cd payload in
     if crc_computed \<noteq> crc_read
     then fuse_with_corrupt (ChecksumMismatch frame_start crc_computed crc_read)
            (it\<lparr>ji_reader := Some r3\<rparr>)
     else
     (case cd_from_bytes cd payload of
        Inl e \<Rightarrow> fuse_with_corrupt (Rkyv e) (it\<lparr>ji_reader := Some r3\<rparr>)
      | Inr env \<Rightarrow>
     (case validate_envelope env of
        Inl e \<Rightarrow> fuse_with_corrupt (TypesErr e) (it\<lparr>ji_reader := Some r3\<rparr>)
      | Inr _ \<Rightarrow>
          (Some (Inr env),
           it\<lparr>ji_reader := Some r3,
             ji_byte_offset := frame_start + (word_of_nat FRAME_OVERHEAD + ucast len),
             ji_read_total := ji_read_total it + 1\<rparr>)))))))))"

text \<open>The loop \<open>for r in journal.iter_all()\<close>: what \<open>next\<close> yields until it yields \<open>None\<close>.  The
  measure decreases with every item: an item consumes a frame, and the one error item fuses.\<close>

definition iter_measure :: "'p journal_iter \<Rightarrow> nat" where
  "iter_measure it =
     (if ji_fused it then 0
      else Suc (case ji_reader it of None \<Rightarrow> 0 | Some r \<Rightarrow> length (rd_rest r)))"

section \<open>Reading\<close>

lemma read_count_le: "read_count chunk want r \<le> want"
proof -
  have *: "(if t = 0 then 0 else max 1 (min c t)) \<le> want" if "t \<le> want" for t c :: nat
    using that by auto
  show ?thesis unfolding read_count_def Let_def by (rule *) simp
qed

lemma read_count_pos:
  assumes "rd_fault r = None" "0 < want" "rd_rest r \<noteq> []"
  shows "0 < read_count chunk want r" "read_count chunk want r \<le> length (rd_rest r)"
proof -
  have *: "0 < (if t = 0 then 0 else max 1 (min c t)) \<and> (if t = 0 then 0 else max 1 (min c t)) \<le> t"
    if "0 < t" for t c :: nat using that by auto
  have "0 < min want (length (rd_rest r))" using assms by simp
  from *[OF this, of "chunk (length (rd_rest r))"]
  show "0 < read_count chunk want r" "read_count chunk want r \<le> length (rd_rest r)"
    by (simp_all add: read_count_def Let_def assms(1))
qed

lemma read_some_ok:
  assumes "rd_fault r = None" "0 < want" "rd_rest r \<noteq> []"
  obtains n where "0 < n" "n \<le> want" "n \<le> length (rd_rest r)"
    "read_some chunk want r = (Inr (take n (rd_rest r)), r\<lparr>rd_rest := drop n (rd_rest r)\<rparr>)"
proof (rule that)
  show "0 < read_count chunk want r" "read_count chunk want r \<le> want"
    "read_count chunk want r \<le> length (rd_rest r)"
    using read_count_pos[OF assms] read_count_le by blast+
  show "read_some chunk want r = (Inr (take (read_count chunk want r) (rd_rest r)),
      r\<lparr>rd_rest := drop (read_count chunk want r) (rd_rest r)\<rparr>)"
    using assms(1) by (cases r) (simp add: read_some_def Let_def)
qed

lemma read_some_eof:
  assumes "rd_fault r = None" "rd_rest r = []"
  shows "read_some chunk want r = (Inr [], r)"
  using assms by (cases r) (simp add: read_some_def Let_def)

text \<open>However the system splits the reads, the loop gathers the next \<open>want\<close> bytes, or what is left.\<close>

lemma read_fill_ok:
  assumes "rd_fault r = None"
  shows "read_fill chunk want r
    = (Inr (take want (rd_rest r)), r\<lparr>rd_rest := drop want (rd_rest r)\<rparr>)"
  using assms
proof (induction chunk want r rule: read_fill.induct)
  case (1 chunk want r)
  consider "want = 0" | "want \<noteq> 0" "rd_rest r = []" | "want \<noteq> 0" "rd_rest r \<noteq> []" by blast
  then show ?case
  proof cases
    case 1
    then show ?thesis by (subst read_fill.simps) simp
  next
    case 2
    then show ?thesis
      by (subst read_fill.simps) (simp add: read_some_eof "1.prems")
  next
    case 3
    then obtain n where n: "0 < n" "n \<le> want" "n \<le> length (rd_rest r)"
      and rs: "read_some chunk want r = (Inr (take n (rd_rest r)), r\<lparr>rd_rest := drop n (rd_rest r)\<rparr>)"
      using read_some_ok[OF "1.prems"] by blast
    let ?r = "r\<lparr>rd_rest := drop n (rd_rest r)\<rparr>"
    have len: "length (take n (rd_rest r)) = n" and ne: "take n (rd_rest r) \<noteq> []"
      using n 3 by auto
    have "read_fill chunk (want - n) ?r
        = (Inr (take (want - n) (rd_rest ?r)), ?r\<lparr>rd_rest := drop (want - n) (rd_rest ?r)\<rparr>)"
      using "1.IH"[OF 3(1) rs[symmetric] refl ne] "1.prems" unfolding len by simp
    moreover have "take n (rd_rest r) @ take (want - n) (drop n (rd_rest r)) = take want (rd_rest r)"
      using take_add[of n "want - n" "rd_rest r"] n by simp
    ultimately show ?thesis
      using n by (subst read_fill.simps) (simp add: 3(1) rs ne len)
  qed
qed

lemma read_some_app:
  assumes "read_some chunk want r = (Inr bs, r')"
  shows "rd_rest r = bs @ rd_rest r'" "length bs \<le> want"
proof -
  have "bs = take (read_count chunk want r) (rd_rest r)
      \<and> rd_rest r' = drop (read_count chunk want r) (rd_rest r)"
    using assms by (auto simp: read_some_def Let_def split: option.splits prod.splits nat.splits)
  then show "rd_rest r = bs @ rd_rest r'" "length bs \<le> want"
    using read_count_le[of chunk want r] by auto
qed

lemma read_fill_app:
  assumes "read_fill chunk want r = (Inr bs, r')"
  shows "rd_rest r = bs @ rd_rest r' \<and> length bs \<le> want"
  using assms
proof (induction chunk want r arbitrary: bs r' rule: read_fill.induct)
  case (1 chunk want r)
  show ?case
  proof (cases "want = 0")
    case True
    then show ?thesis using "1.prems" by (simp add: read_fill.simps[of chunk 0 r])
  next
    case False
    obtain got r1 where rs: "read_some chunk want r = (Inr got, r1)"
      using "1.prems" False
      by (subst (asm) read_fill.simps) (auto split: prod.splits sum.splits)
    show ?thesis
    proof (cases "got = []")
      case True
      then show ?thesis using "1.prems" False rs read_some_app[OF rs]
        by (subst (asm) read_fill.simps) simp
    next
      case ne: False
      obtain later r2 where rf: "read_fill chunk (want - length got) r1 = (Inr later, r2)"
          "bs = got @ later" "r' = r2"
        using "1.prems" False rs ne
        by (subst (asm) read_fill.simps) (auto split: prod.splits sum.splits)
      show ?thesis
        using "1.IH"[OF False rs[symmetric] refl ne rf(1)] rf(2,3) read_some_app[OF rs] by auto
    qed
  qed
qed

section \<open>One step of the iterator\<close>

definition frame_of :: "'p codec \<Rightarrow> bytes \<Rightarrow> bytes" where
  "frame_of cd p = u32_to_le (word_of_nat (length p)) @ p @ u32_to_le (cd_crc cd p)"

definition payload_fits :: "bytes \<Rightarrow> bool" where
  "payload_fits p \<longleftrightarrow> 0 < length p \<and> length p \<le> 16777216"

lemma length_frame_of [simp]: "length (frame_of cd p) = 8 + length p"
  by (simp add: frame_of_def)

lemma validate_frame_length_nat:
  assumes "n < 2 ^ 64"
  shows "validate_frame_length (word_of_nat n) off =
    (if 0 < n \<and> n \<le> 16777216 then Inr () else Inl (InvalidFrameLength off (word_of_nat n) MAX_FRAME_LEN))"
  using assms
  by (auto simp: validate_frame_length_def MAX_FRAME_LEN_def word_le_nat_alt word_less_nat_alt
      unsigned_of_nat take_bit_nat_eq_self word_of_nat_eq_0_iff dest: nat_dvd_not_less)

lemma fits_u32:
  assumes "payload_fits p"
  shows "unat (word_of_nat (length p) :: u32) = length p"
    "(ucast (word_of_nat (length p) :: u32) :: u64) = word_of_nat (length p)"
proof -
  show "unat (word_of_nat (length p) :: u32) = length p"
    using assms by (simp add: payload_fits_def unsigned_of_nat take_bit_nat_eq_self)
  then have "(word_of_nat (unat (word_of_nat (length p) :: u32)) :: u64) = word_of_nat (length p)"
    by (rule arg_cong)
  then show "(ucast (word_of_nat (length p) :: u32) :: u64) = word_of_nat (length p)"
    by (simp only: of_nat_unat)
qed

lemma fits_valid:
  "payload_fits p \<Longrightarrow> validate_frame_length (word_of_nat (length p)) off = Inr ()"
  by (simp add: payload_fits_def validate_frame_length_nat)

text \<open>The state of an iterator that is reading, before and after a frame.\<close>

definition reading :: "'p journal_iter \<Rightarrow> bytes \<Rightarrow> bool" where
  "reading it bs \<longleftrightarrow> \<not> ji_fused it \<and> ji_pending it = None \<and>
     ji_reader it = Some \<lparr>rd_rest = bs, rd_fault = None\<rparr>"

definition advance :: "nat \<Rightarrow> bytes \<Rightarrow> 'p journal_iter \<Rightarrow> 'p journal_iter" where
  "advance n bs it = it\<lparr>ji_reader := Some \<lparr>rd_rest = bs, rd_fault = None\<rparr>,
     ji_byte_offset := ji_byte_offset it + word_of_nat (8 + n),
     ji_read_total := ji_read_total it + 1\<rparr>"

definition fuse_at :: "bytes \<Rightarrow> 'p journal_iter \<Rightarrow> 'p journal_iter" where
  "fuse_at bs it = it\<lparr>ji_reader := Some \<lparr>rd_rest = bs, rd_fault = None\<rparr>,
     ji_fused := True, ji_corrupt_total := ji_corrupt_total it + 1\<rparr>"

lemma reading_advance [simp]: "reading it bs \<Longrightarrow> reading (advance n bs' it) bs'"
  by (simp add: reading_def advance_def)

lemma next_frame:
  assumes "reading it (frame_of cd p @ tail)" "payload_fits p"
    and "cd_from_bytes cd p = Inr e" "envelope_ok e"
  shows "journal_next cd chunk it = (Some (Inr e), advance (length p) tail it)"
proof -
  have "validate_envelope e = Inr ()" using assms(4) by (simp add: validate_ok_iff)
  then show ?thesis
    using assms(1,3) fits_u32[OF assms(2)] fits_valid[OF assms(2)]
    by (simp add: reading_def journal_next_def frame_of_def read_fill_ok Let_def
        advance_def FRAME_OVERHEAD_def)
qed

lemma next_eof:
  assumes "reading it []"
  shows "journal_next cd chunk it = (None, it)"
  using assms by (cases it) (simp add: reading_def journal_next_def read_fill_ok Let_def)

lemma next_fused: "ji_fused it \<Longrightarrow> journal_next cd chunk it = (None, it)"
  by (simp add: journal_next_def)

lemma next_bad_crc:
  assumes "reading it (u32_to_le (word_of_nat (length p)) @ p @ u32_to_le c @ tail)"
    and "payload_fits p" "cd_crc cd p \<noteq> c"
  shows "journal_next cd chunk it
    = (Some (Inl (ChecksumMismatch (ji_byte_offset it) (cd_crc cd p) c)), fuse_at tail it)"
  using assms fits_u32[OF assms(2)] fits_valid[OF assms(2)]
  by (simp add: reading_def journal_next_def read_fill_ok Let_def fuse_at_def fuse_with_corrupt_def)

text \<open>A frame cut anywhere inside is reported as truncated, never as a record.\<close>

lemma next_truncated:
  assumes "reading it (take k (frame_of cd p))" "payload_fits p" "0 < k" "k < 8 + length p"
  shows "\<exists>need got. unat got < unat need \<and>
    journal_next cd chunk it = (Some (Inl (TruncatedFrame (ji_byte_offset it) need got)), fuse_at [] it)"
proof -
  note fits = fits_u32[OF assms(2)] fits_valid[OF assms(2)]
  have len: "length p \<le> 16777216" using assms(2) by (simp add: payload_fits_def)
  have small: "unat (word_of_nat n :: u32) = n" if "n \<le> 16777216" for n
    using that by (simp add: unsigned_of_nat take_bit_nat_eq_self)
  note sim = reading_def journal_next_def read_fill_ok Let_def fuse_at_def fuse_with_corrupt_def
  consider "k < 4" | "4 \<le> k" "k < 4 + length p" | "4 + length p \<le> k" by linarith
  then show ?thesis
  proof cases
    case 1
    have "take k (frame_of cd p) = take k (u32_to_le (word_of_nat (length p)))"
      using 1 by (simp add: frame_of_def)
    then have "journal_next cd chunk it
      = (Some (Inl (TruncatedFrame (ji_byte_offset it) 4 (word_of_nat k))), fuse_at [] it)"
      using assms(1,3) 1 by (simp add: sim min_def)
    then show ?thesis using 1 small[of k] by auto
  next
    case 2
    define m where "m = k - 4"
    have "take k (frame_of cd p) = u32_to_le (word_of_nat (length p)) @ take m p"
      using 2 by (simp add: frame_of_def m_def)
    moreover have "m < length p" using 2 by (simp add: m_def)
    ultimately have "journal_next cd chunk it = (Some (Inl (TruncatedFrame (ji_byte_offset it)
        (word_of_nat (length p)) (word_of_nat m))), fuse_at [] it)"
      using assms(1) fits by (simp add: sim)
    then show ?thesis using \<open>m < length p\<close> small[of m] small[of "length p"] len by auto
  next
    case 3
    define m where "m = k - (4 + length p)"
    have "take k (frame_of cd p) = u32_to_le (word_of_nat (length p)) @ p @ take m (u32_to_le (cd_crc cd p))"
      using 3 by (simp add: frame_of_def m_def)
    moreover have "m < 4" using 3 assms(4) by (simp add: m_def)
    ultimately have "journal_next cd chunk it = (Some (Inl (TruncatedFrame (ji_byte_offset it)
        4 (word_of_nat m))), fuse_at [] it)"
      using assms(1) fits by (simp add: sim)
    then show ?thesis using \<open>m < 4\<close> small[of m] by auto
  qed
qed

lemma fuse_with_corrupt_simps [simp]:
  "fst (fuse_with_corrupt e it) = Some (Inl e)"
  "ji_fused (snd (fuse_with_corrupt e it))"
  by (simp_all add: fuse_with_corrupt_def)

text \<open>An item is either one of the errors, which fuses, or a record that passed every check.\<close>

lemma next_cases:
  assumes "journal_next cd chunk it = (Some x, it')"
  shows "(\<exists>e. x = Inl e \<and> ji_fused it') \<or>
    (\<exists>r p e tail. x = Inr e \<and> ji_reader it = Some r \<and> rd_rest r = frame_of cd p @ tail \<and>
        (\<exists>r'. ji_reader it' = Some r' \<and> rd_rest r' = tail) \<and> payload_fits p \<and>
        cd_from_bytes cd p = Inr e \<and> envelope_ok e \<and> \<not> ji_fused it' \<and>
        ji_read_total it' = ji_read_total it + 1)"
proof (cases "\<exists>e. x = Inl e")
  case True
  then show ?thesis using assms
    by (auto simp: journal_next_def Let_def fuse_with_corrupt_def
        split: if_splits option.splits prod.splits sum.splits)
next
  case False
  then obtain e where x: "x = Inr e" by (cases x) auto
  with assms have live: "\<not> ji_fused it" "ji_pending it = None" "ji_reader it \<noteq> None"
    by (auto simp: journal_next_def fuse_with_corrupt_def split: if_splits option.splits)
  then obtain r where r: "ji_reader it = Some r" by auto
  note unf = assms[unfolded x journal_next_def Let_def fuse_with_corrupt_def]
  obtain lb r1 where f1: "read_fill chunk 4 r = (Inr lb, r1)" and lb: "length lb = 4"
    using unf live r by (auto split: if_splits prod.splits sum.splits)
  define len where "len = u32_from_le lb"
  have v: "validate_frame_length (ucast len) (ji_byte_offset it) = Inr ()"
    using unf live r f1 lb by (auto simp: len_def split: sum.splits)
  obtain p r2 where f2: "read_fill chunk (unat len) r1 = (Inr p, r2)" and p: "\<not> length p < unat len"
    using unf live r f1 lb v by (auto simp: len_def split: if_splits prod.splits sum.splits)
  obtain cb r3 where f3: "read_fill chunk 4 r2 = (Inr cb, r3)" and cb: "\<not> length cb < 4"
    using unf live r f1 lb v f2 p
    by (auto simp: len_def split: if_splits prod.splits sum.splits)
  have c: "cd_crc cd p = u32_from_le cb" and d: "cd_from_bytes cd p = Inr e"
    and ok: "validate_envelope e = Inr ()" and it': "it' = it\<lparr>ji_reader := Some r3,
             ji_byte_offset := ji_byte_offset it + (word_of_nat FRAME_OVERHEAD + ucast len),
             ji_read_total := ji_read_total it + 1\<rparr>"
    using unf live r f1 lb v f2 p f3 cb
    by (auto simp: len_def split: if_splits sum.splits)
  note apps = read_fill_app[OF f1] read_fill_app[OF f2] read_fill_app[OF f3]
  have lens: "length p = unat len" "length cb = 4" using apps p cb by auto
  have lb_eq: "u32_to_le (word_of_nat (length p)) = lb"
    using lb lens nat_to_le_le_to_nat[OF lb] le_to_nat_bound[of lb]
    by (simp add: len_def u32_to_le_def u32_from_le_def unsigned_of_nat take_bit_nat_eq_self)
  have cb_eq: "u32_to_le (cd_crc cd p) = cb"
    using c lens nat_to_le_le_to_nat[OF lens(2)] le_to_nat_bound[of cb]
    by (simp add: u32_to_le_def u32_from_le_def unsigned_of_nat take_bit_nat_eq_self)
  have "unat (ucast len :: u64) = length p"
    using lens(1) unat_lt_exp[of len] by (simp add: unsigned_ucast_eq take_bit_nat_eq_self)
  moreover from this have lp: "length p < 2 ^ 64" using unat_lt_exp[of "ucast len :: u64"] by simp
  ultimately have "(ucast len :: u64) = word_of_nat (length p)"
    by (simp add: word_unat_eq_iff unsigned_of_nat take_bit_nat_eq_self)
  then have "payload_fits p"
    using v validate_frame_length_nat[OF lp]
    by (auto simp: payload_fits_def split: if_splits)
  moreover have "rd_rest r = frame_of cd p @ rd_rest r3"
    using apps by (simp add: frame_of_def lb_eq cb_eq)
  ultimately show ?thesis
    using x r d ok it' live by (auto simp: validate_ok_iff)
qed

lemma next_decreases:
  assumes "journal_next cd chunk it = (Some x, it')"
  shows "iter_measure it' < iter_measure it"
proof -
  have "\<not> ji_fused it" using assms by (auto simp: journal_next_def)
  then show ?thesis using next_cases[OF assms] by (auto simp: iter_measure_def)
qed

function journal_drain ::
  "'p codec \<Rightarrow> (nat \<Rightarrow> nat) \<Rightarrow> 'p journal_iter \<Rightarrow> (journal_error + 'p envelope) list \<times> 'p journal_iter" where
  "journal_drain cd chunk it =
     (case journal_next cd chunk it of
        (None, it') \<Rightarrow> ([], it')
      | (Some x, it') \<Rightarrow> (case journal_drain cd chunk it' of (xs, it'') \<Rightarrow> (x # xs, it'')))"
  by pat_completeness auto
termination
  by (relation "measure (\<lambda>(_, _, it). iter_measure it)") (auto dest: next_decreases[OF sym])

declare journal_drain.simps [simp del]

section \<open>Draining a file\<close>

lemma drain_None:
  "journal_next cd chunk it = (None, it') \<Longrightarrow> journal_drain cd chunk it = ([], it')"
  by (subst journal_drain.simps) simp

lemma drain_Some:
  "journal_next cd chunk it = (Some x, it') \<Longrightarrow>
     journal_drain cd chunk it = (x # fst (journal_drain cd chunk it'), snd (journal_drain cd chunk it'))"
  by (subst journal_drain.simps) (simp split: prod.split)

lemma drain_fused: "ji_fused it \<Longrightarrow> journal_drain cd chunk it = ([], it)"
  by (rule drain_None) (rule next_fused)

lemma drain_error:
  "journal_next cd chunk it = (Some (Inl e), it') \<Longrightarrow> ji_fused it' \<Longrightarrow>
     journal_drain cd chunk it = ([Inl e], it')"
  by (simp add: drain_Some drain_fused)

text \<open>The payloads of a run of frames and the envelopes they decode to.\<close>

definition frame_holds :: "'p codec \<Rightarrow> bytes \<Rightarrow> 'p envelope \<Rightarrow> bool" where
  "frame_holds cd p e \<longleftrightarrow> payload_fits p \<and> cd_from_bytes cd p = Inr e \<and> envelope_ok e"

definition frames_of :: "'p codec \<Rightarrow> bytes list \<Rightarrow> bytes" where
  "frames_of cd ps = concat (map (frame_of cd) ps)"

lemma frames_of_simps [simp]:
  "frames_of cd [] = []" "frames_of cd (p # ps) = frame_of cd p @ frames_of cd ps"
  "frames_of cd (ps @ qs) = frames_of cd ps @ frames_of cd qs"
  by (simp_all add: frames_of_def)

definition advance_all :: "'p codec \<Rightarrow> bytes list \<Rightarrow> bytes \<Rightarrow> 'p journal_iter \<Rightarrow> 'p journal_iter" where
  "advance_all cd ps tail it = it\<lparr>ji_reader := Some \<lparr>rd_rest = tail, rd_fault = None\<rparr>,
     ji_byte_offset := ji_byte_offset it + word_of_nat (length (frames_of cd ps)),
     ji_read_total := ji_read_total it + word_of_nat (length ps)\<rparr>"

lemma reading_advance_all [simp]: "reading it bs \<Longrightarrow> reading (advance_all cd ps tail it) tail"
  by (simp add: reading_def advance_all_def)

lemma drain_frames:
  assumes "list_all2 (frame_holds cd) ps es" "reading it (frames_of cd ps @ tail)"
  shows "journal_drain cd chunk it =
    (map Inr es @ fst (journal_drain cd chunk (advance_all cd ps tail it)),
     snd (journal_drain cd chunk (advance_all cd ps tail it)))"
  using assms
proof (induction ps es arbitrary: it rule: list_all2_induct)
  case Nil
  then have "advance_all cd [] tail it = it" by (cases it) (simp add: advance_all_def reading_def)
  then show ?case by simp
next
  case (Cons p ps e es)
  let ?it = "advance (length p) (frames_of cd ps @ tail) it"
  have "journal_next cd chunk it = (Some (Inr e), ?it)"
    using Cons by (intro next_frame) (simp_all add: frame_holds_def)
  moreover have "reading ?it (frames_of cd ps @ tail)"
    using Cons.prems by simp
  moreover have "advance_all cd ps tail ?it = advance_all cd (p # ps) tail it"
    by (simp add: advance_all_def advance_def add.assoc add.left_commute add.commute)
  ultimately show ?case using Cons.IH[of ?it] by (simp add: drain_Some)
qed

lemma drain_all:
  assumes "list_all2 (frame_holds cd) ps es" "reading it (frames_of cd ps)"
  shows "journal_drain cd chunk it = (map Inr es, advance_all cd ps [] it)"
proof -
  have "reading (advance_all cd ps [] it) []" using assms(2) by simp
  then have "journal_drain cd chunk (advance_all cd ps [] it) = ([], advance_all cd ps [] it)"
    by (intro drain_None next_eof)
  then show ?thesis using drain_frames[of cd ps es it "[]"] assms by simp
qed

text \<open>What an arbitrary file yields: records that passed every check, framed one after the other at
  the front of the bytes, and at most one error, which comes last.\<close>

lemma drain_shape:
  assumes "journal_drain cd chunk it = (xs, it')"
  shows "\<exists>es errs ps. xs = map Inr es @ map Inl errs \<and> length errs \<le> 1 \<and>
    list_all2 (frame_holds cd) ps es \<and>
    (\<forall>r. ji_reader it = Some r \<longrightarrow> (\<exists>tail. rd_rest r = frames_of cd ps @ tail))"
  using assms
proof (induction cd chunk it arbitrary: xs it' rule: journal_drain.induct)
  case (1 cd chunk it)
  show ?case
  proof (cases "journal_next cd chunk it")
    case (Pair y it1)
    show ?thesis
    proof (cases y)
      case None
      then have "xs = []" using 1(2) Pair drain_None[of cd chunk it it1] by simp
      then show ?thesis by (intro exI[of _ "[]"]) simp
    next
      case (Some x)
      note nx = Pair[unfolded Some]
      obtain ys it2 where ys: "journal_drain cd chunk it1 = (ys, it2)" by fastforce
      have xs: "xs = x # ys" using 1(2) drain_Some[OF nx] ys by simp
      from next_cases[OF nx] show ?thesis
      proof (elim disjE exE conjE)
        fix e assume "x = Inl e" "ji_fused it1"
        then have "xs = map Inr [] @ map Inl [e]" using xs ys drain_fused[of it1 cd chunk] by simp
        then show ?thesis by (intro exI[of _ "[]"] exI[of _ "[e]"]) simp
      next
        fix r p e tail r'
        assume *: "x = Inr e" "ji_reader it = Some r" "rd_rest r = frame_of cd p @ tail"
          "ji_reader it1 = Some r'" "rd_rest r' = tail" "payload_fits p"
          "cd_from_bytes cd p = Inr e" "envelope_ok e"
        from 1(1)[OF nx[symmetric] refl ys] obtain es errs ps where
          IH: "ys = map Inr es @ map Inl errs" "length errs \<le> 1"
            "list_all2 (frame_holds cd) ps es"
            "\<forall>r. ji_reader it1 = Some r \<longrightarrow> (\<exists>tail. rd_rest r = frames_of cd ps @ tail)" by blast
        have "frame_holds cd p e" using * by (simp add: frame_holds_def)
        then show ?thesis using IH * xs
          by (intro exI[of _ "e # es"] exI[of _ errs] exI[of _ "p # ps"]) auto
      qed
    qed
  qed
qed

section \<open>Writing\<close>

text \<open>The byte stream the writer has accepted: what is in the file and what is still buffered.\<close>

definition stream_of :: "os_file \<times> bytes \<Rightarrow> bytes" where
  "stream_of w = f_data (fst w) @ snd w"

definition disk_size :: "os_file \<times> bytes \<Rightarrow> nat" where
  "disk_size w = length (f_data (fst w)) + f_room (fst w)"

lemma os_write_all_ok:
  "os_write_all d f = (Inr u, f') \<longleftrightarrow>
     length d \<le> f_room f \<and> f' = f\<lparr>f_data := f_data f @ d, f_room := f_room f - length d\<rparr>"
  by (auto simp: os_write_all_def)

lemma os_write_all_err:
  "os_write_all d f = (Inl e, f') \<Longrightarrow>
     f_room f < length d \<and> f' = f\<lparr>f_data := f_data f @ take (f_room f) d, f_room := 0\<rparr>"
  by (auto simp: os_write_all_def split: if_splits)

lemma bw_flush_stream:
  assumes "bw_flush w = (r, w')"
  shows "stream_of w' = stream_of w \<and> disk_size w' = disk_size w"
    "r = Inr u \<Longrightarrow> snd w' = []"
    "r = Inl e \<Longrightarrow> disk_size w < length (stream_of w)"
  using assms by (auto simp: bw_flush_def stream_of_def disk_size_def os_write_all_def
      split: prod.splits if_splits)

lemma bw_write_all_stream:
  assumes "bw_write_all d w = (r, w')"
  shows "\<exists>k \<le> length d. stream_of w' = stream_of w @ take k d \<and> disk_size w' = disk_size w \<and>
     (r = Inr () \<longrightarrow> k = length d) \<and> (r \<noteq> Inr () \<longrightarrow> disk_size w < length (stream_of w) + length d)"
proof -
  obtain f buf where w: "w = (f, buf)" by fastforce
  show ?thesis
  proof (cases "length d < BUF_CAPACITY - length buf")
    case True
    then show ?thesis using assms w
      by (intro exI[of _ "length d"]) (auto simp: bw_write_all_def stream_of_def disk_size_def)
  next
    case False
    obtain r1 w1 where fl: "(if length d > BUF_CAPACITY - length buf then bw_flush (f, buf)
        else (Inr (), (f, buf))) = (r1, w1)"
      by (meson surj_pair)
    have "stream_of w1 = stream_of w \<and> disk_size w1 = disk_size w \<and>
        (r1 \<noteq> Inr () \<longrightarrow> disk_size w < length (stream_of w)) \<and>
        (r1 = Inr () \<longrightarrow> length d \<ge> BUF_CAPACITY \<longrightarrow> snd w1 = [])"
    proof (cases "length d > BUF_CAPACITY - length buf")
      case True
      with fl have "bw_flush w = (r1, w1)" by (simp add: w)
      from bw_flush_stream[OF this] show ?thesis by (cases r1) auto
    next
      case False2: False
      with fl have "r1 = Inr ()" "w1 = w" by (auto simp: w)
      moreover have "length d \<ge> BUF_CAPACITY \<longrightarrow> length buf = 0"
        using False False2 unfolding BUF_CAPACITY_def by arith
      ultimately show ?thesis by (simp add: w)
    qed
    then have st: "stream_of w1 = stream_of w" "disk_size w1 = disk_size w"
      "r1 \<noteq> Inr () \<Longrightarrow> disk_size w < length (stream_of w)"
      and fit: "r1 = Inr () \<Longrightarrow> length d \<ge> BUF_CAPACITY \<Longrightarrow> snd w1 = []" by blast+
    show ?thesis
    proof (cases r1)
      case (Inl e)
      then have "r = Inl e" "w' = w1" using assms w False fl by (auto simp: bw_write_all_def)
      then show ?thesis using st Inl by (intro exI[of _ 0]) auto
    next
      case (Inr u)
      obtain f1 buf1 where w1: "w1 = (f1, buf1)" by fastforce
      show ?thesis
      proof (cases "length d \<ge> BUF_CAPACITY")
        case False2: False
        then have "r = Inr ()" "w' = (f1, buf1 @ d)"
          using assms w False fl Inr w1 by (auto simp: bw_write_all_def)
        then show ?thesis using st w1
          by (intro exI[of _ "length d"]) (auto simp: stream_of_def disk_size_def)
      next
        case True
        then have buf1: "buf1 = []" using fit Inr w1 by simp
        obtain r2 f2 where wr: "os_write_all d f1 = (r2, f2)" by fastforce
        have r: "r = r2" "w' = (f2, buf1)"
          using assms w False fl Inr w1 True wr by (auto simp: bw_write_all_def split: sum.splits)
        show ?thesis
        proof (cases r2)
          case (Inl e)
          from os_write_all_err[OF wr[unfolded Inl]] show ?thesis
            using st r w1 buf1 Inl
            by (intro exI[of _ "f_room f1"]) (simp add: stream_of_def disk_size_def)
        next
          case Inr2: (Inr u)
          with wr have "length d \<le> f_room f1"
            "f2 = f1\<lparr>f_data := f_data f1 @ d, f_room := f_room f1 - length d\<rparr>"
            by (simp_all add: os_write_all_ok)
          then show ?thesis
            using st r w1 buf1 Inr2
            by (intro exI[of _ "length d"]) (simp add: stream_of_def disk_size_def)
        qed
      qed
    qed
  qed
qed

text \<open>A successful \<open>append\<close> puts exactly one frame at the end of the stream.\<close>

lemma append_ok:
  assumes "append cd env j = (Inr pos, j')"
  obtains p where "cd_to_bytes cd env = Inr p"
    "validate_frame_length (word_of_nat (length p)) (jn_byte_offset j) = Inr ()"
    "stream_of (jn_writer j') = stream_of (jn_writer j) @ frame_of cd p"
    "disk_size (jn_writer j') = disk_size (jn_writer j)"
    "jn_byte_offset j' = jn_byte_offset j + word_of_nat (length (frame_of cd p))"
    "pos = \<lparr>jp_sequence = env_sequence env, jp_byte_offset = jn_byte_offset j\<rparr>"
    "jn_appended_total j' = jn_appended_total j + 1"
proof -
  obtain p where p: "cd_to_bytes cd env = Inr p"
    using assms by (auto simp: append_def Let_def split: sum.splits)
  have v: "validate_frame_length (word_of_nat (length p)) (jn_byte_offset j) = Inr ()"
    using assms p by (auto simp: append_def Let_def split: sum.splits)
  obtain w1 where w1: "bw_write_all (u32_to_le (word_of_nat (length p))) (jn_writer j) = (Inr (), w1)"
    using assms p v by (auto simp: append_def Let_def split: sum.splits prod.splits)
  obtain w2 where w2: "bw_write_all p w1 = (Inr (), w2)"
    using assms p v w1 by (auto simp: append_def Let_def split: sum.splits prod.splits)
  obtain w3 where w3: "bw_write_all (u32_to_le (cd_crc cd p)) w2 = (Inr (), w3)"
    using assms p v w1 w2 by (auto simp: append_def Let_def split: sum.splits prod.splits)
  have j': "pos = \<lparr>jp_sequence = env_sequence env, jp_byte_offset = jn_byte_offset j\<rparr>"
    "j' = j\<lparr>jn_writer := w3,
       jn_byte_offset := jn_byte_offset j + (word_of_nat FRAME_OVERHEAD + word_of_nat (length p)),
       jn_appended_total := jn_appended_total j + 1,
       jn_bytes_written_total := jn_bytes_written_total j + (word_of_nat FRAME_OVERHEAD + word_of_nat (length p))\<rparr>"
    using assms p v w1 w2 w3 by (simp_all add: append_def Let_def)
  show ?thesis
    using bw_write_all_stream[OF w1] bw_write_all_stream[OF w2] bw_write_all_stream[OF w3] j'
    by (intro that[OF p v]) (auto simp: frame_of_def FRAME_OVERHEAD_def)
qed

lemma append_succeeds:
  assumes "cd_to_bytes cd env = Inr p" "payload_fits p"
    and "length (stream_of (jn_writer j)) + length (frame_of cd p) \<le> disk_size (jn_writer j)"
  shows "\<exists>j'. append cd env j
    = (Inr \<lparr>jp_sequence = env_sequence env, jp_byte_offset = jn_byte_offset j\<rparr>, j')"
proof -
  have ok: "\<exists>w'. bw_write_all d w = (Inr (), w') \<and> stream_of w' = stream_of w @ d \<and>
      disk_size w' = disk_size w" if "length (stream_of w) + length d \<le> disk_size w" for d w
  proof -
    obtain r w' where rw: "bw_write_all d w = (r, w')" by (meson surj_pair)
    from bw_write_all_stream[OF this] that show ?thesis by (cases "r = Inr ()") (use rw in auto)
  qed
  obtain w1 where w1: "bw_write_all (u32_to_le (word_of_nat (length p))) (jn_writer j) = (Inr (), w1)"
      "stream_of w1 = stream_of (jn_writer j) @ u32_to_le (word_of_nat (length p))"
      "disk_size w1 = disk_size (jn_writer j)"
    using ok[of "jn_writer j" "u32_to_le (word_of_nat (length p))"] assms(3) by auto
  obtain w2 where w2: "bw_write_all p w1 = (Inr (), w2)"
      "stream_of w2 = stream_of w1 @ p" "disk_size w2 = disk_size w1"
    using ok[of w1 p] assms(3) w1 by auto
  obtain w3 where w3: "bw_write_all (u32_to_le (cd_crc cd p)) w2 = (Inr (), w3)"
    using ok[of w2 "u32_to_le (cd_crc cd p)"] assms(3) w1 w2 by auto
  show ?thesis
    by (simp add: append_def Let_def assms(1) fits_valid[OF assms(2)] w1 w2 w3)
qed

lemma append_err:
  assumes "append cd env j = (Inl err, j')"
  shows "j' = j\<lparr>jn_writer := jn_writer j'\<rparr>"
  using assms by (auto simp: append_def Let_def split: sum.splits prod.splits)

fun append_all :: "'p codec \<Rightarrow> 'p envelope list \<Rightarrow> journal \<Rightarrow> (journal_error + journal_position list) \<times> journal" where
  "append_all cd [] j = (Inr [], j)"
| "append_all cd (e # es) j =
     (case append cd e j of
        (Inl err, j') \<Rightarrow> (Inl err, j')
      | (Inr pos, j') \<Rightarrow> (case append_all cd es j' of
            (Inl err, j'') \<Rightarrow> (Inl err, j'')
          | (Inr ps, j'') \<Rightarrow> (Inr (pos # ps), j'')))"


text \<open>The positions \<open>append\<close> should return: each the start of its frame.\<close>

fun frame_positions :: "'p codec \<Rightarrow> u64 \<Rightarrow> 'p envelope list \<Rightarrow> bytes list \<Rightarrow> journal_position list" where
  "frame_positions cd off (e # es) (p # ps) =
     \<lparr>jp_sequence = env_sequence e, jp_byte_offset = off\<rparr>
       # frame_positions cd (off + word_of_nat (length (frame_of cd p))) es ps"
| "frame_positions cd off _ _ = []"

section \<open>The codec contract\<close>

text \<open>What the journal relies on of \<open>rkyv\<close>: decoding what was encoded gives it back, and an
  encoded value is at most \<open>isize::MAX\<close> bytes long, as every Rust allocation.\<close>

locale frame_codec =
  fixes cd :: "'p codec"
  assumes decode_encode: "cd_to_bytes cd e = Inr p \<Longrightarrow> cd_from_bytes cd p = Inr e"
    and encode_length: "cd_to_bytes cd e = Inr p \<Longrightarrow> length p < 2 ^ 63"
begin

lemma append_holds:
  assumes "append cd env j = (Inr pos, j')" "envelope_ok env"
  obtains p where "frame_holds cd p env"
    "stream_of (jn_writer j') = stream_of (jn_writer j) @ frame_of cd p"
    "disk_size (jn_writer j') = disk_size (jn_writer j)"
    "jn_byte_offset j' = jn_byte_offset j + word_of_nat (length (frame_of cd p))"
    "pos = \<lparr>jp_sequence = env_sequence env, jp_byte_offset = jn_byte_offset j\<rparr>"
    "jn_appended_total j' = jn_appended_total j + 1"
proof -
  from append_ok[OF assms(1)] obtain p where p: "cd_to_bytes cd env = Inr p"
    "validate_frame_length (word_of_nat (length p)) (jn_byte_offset j) = Inr ()"
    "stream_of (jn_writer j') = stream_of (jn_writer j) @ frame_of cd p"
    "disk_size (jn_writer j') = disk_size (jn_writer j)"
    "jn_byte_offset j' = jn_byte_offset j + word_of_nat (length (frame_of cd p))"
    "pos = \<lparr>jp_sequence = env_sequence env, jp_byte_offset = jn_byte_offset j\<rparr>"
    "jn_appended_total j' = jn_appended_total j + 1" by metis
  have "length p < 2 ^ 64" using encode_length[OF p(1)] by simp
  then have "frame_holds cd p env"
    using p(1,2) decode_encode[OF p(1)] assms(2) validate_frame_length_nat[of "length p"]
    by (auto simp: frame_holds_def payload_fits_def split: if_splits)
  then show ?thesis using p that by blast
qed

text \<open>A run of successful appends extends the stream by one valid frame per envelope, and the
  positions it returns are the starts of those frames.\<close>

lemma append_all_ok:
  assumes "append_all cd envs j = (Inr poss, j')" "\<forall>e \<in> set envs. envelope_ok e"
  shows "\<exists>ps. list_all2 (frame_holds cd) ps envs \<and>
    stream_of (jn_writer j') = stream_of (jn_writer j) @ frames_of cd ps \<and>
    jn_byte_offset j' = jn_byte_offset j + word_of_nat (length (frames_of cd ps)) \<and>
    jn_appended_total j' = jn_appended_total j + word_of_nat (length envs) \<and>
    poss = frame_positions cd (jn_byte_offset j) envs ps"
  using assms
proof (induction envs arbitrary: j poss)
  case Nil
  then show ?case by (intro exI[of _ "[]"]) simp
next
  case (Cons e es)
  obtain pos j1 where a: "append cd e j = (Inr pos, j1)"
    using Cons.prems(1) by (auto split: prod.splits sum.splits)
  obtain poss' where b: "append_all cd es j1 = (Inr poss', j')" and poss: "poss = pos # poss'"
    using Cons.prems(1) a by (auto split: prod.splits sum.splits)
  obtain p where p: "frame_holds cd p e"
    "stream_of (jn_writer j1) = stream_of (jn_writer j) @ frame_of cd p"
    "jn_byte_offset j1 = jn_byte_offset j + word_of_nat (length (frame_of cd p))"
    "pos = \<lparr>jp_sequence = env_sequence e, jp_byte_offset = jn_byte_offset j\<rparr>"
    "jn_appended_total j1 = jn_appended_total j + 1"
    using append_holds[OF a] Cons.prems(2) by auto
  from Cons.IH[OF b] Cons.prems(2) obtain ps where ps: "list_all2 (frame_holds cd) ps es"
    "stream_of (jn_writer j') = stream_of (jn_writer j1) @ frames_of cd ps"
    "jn_byte_offset j' = jn_byte_offset j1 + word_of_nat (length (frames_of cd ps))"
    "jn_appended_total j' = jn_appended_total j1 + word_of_nat (length es)"
    "poss' = frame_positions cd (jn_byte_offset j1) es ps"
    by auto
  show ?case
    using p ps poss
    by (intro exI[of _ "p # ps"])
      (simp add: add.assoc add.commute[of _ 1] del: length_frame_of)
qed

end

section \<open>Opening and flushing\<close>

definition file_header :: bytes where
  "file_header = MAGIC @ [FILE_FORMAT_VERSION] @ RESERVED_HEADER"

lemma length_file_header [simp]: "length file_header = 8"
  by (simp add: file_header_def MAGIC_def RESERVED_HEADER_def)

lemma write_file_header_ok:
  "write_file_header f = (Inr (), f') \<longleftrightarrow>
     8 \<le> f_room f \<and> f' = f\<lparr>f_data := f_data f @ file_header, f_room := f_room f - 8\<rparr>"
  by (auto simp: write_file_header_def os_write_all_def file_header_def MAGIC_def
      FILE_FORMAT_VERSION_def RESERVED_HEADER_def)

lemma header_valid_iff:
  "read_and_validate_file_header r = Inr () \<longleftrightarrow> (\<exists>body. r = file_header @ body)"
proof
  assume ok: "read_and_validate_file_header r = Inr ()"
  then have len: "8 \<le> length r"
    by (auto simp: read_and_validate_file_header_def FILE_HEADER_LEN_def split: if_splits)
  have parts: "take 4 r = MAGIC" "r ! 4 = FILE_FORMAT_VERSION" "take 3 (drop 5 (take 8 r)) = RESERVED_HEADER"
    using ok len by (auto simp: read_and_validate_file_header_def FILE_HEADER_LEN_def Let_def
        min_def split: if_splits)
  have "take 8 r = take 4 r @ [r ! 4] @ take 3 (drop 5 (take 8 r))"
  proof -
    have "take 8 r = take 4 r @ take 4 (drop 4 r)" using take_add[of 4 4 r] by simp
    also have "take 4 (drop 4 r) = r ! 4 # take 3 (drop 5 r)"
    proof -
      have d: "drop 4 r = r ! 4 # drop 5 r" using len Cons_nth_drop_Suc[of 4 r] by simp
      show ?thesis by (subst d) (simp add: take_Cons')
    qed
    finally have "take 8 r = take 4 r @ [r ! 4] @ take 3 (drop 5 r)"
      by (simp only: append_Cons append_Nil)
    moreover have "take 3 (drop 5 (take 8 r)) = take 3 (drop 5 r)" by (simp add: drop_take)
    ultimately show ?thesis by (simp only:)
  qed
  then have "take 8 r = file_header" by (simp add: parts file_header_def)
  then show "\<exists>body. r = file_header @ body" by (metis append_take_drop_id)
next
  assume "\<exists>body. r = file_header @ body"
  then show "read_and_validate_file_header r = Inr ()"
    by (auto simp: read_and_validate_file_header_def FILE_HEADER_LEN_def file_header_def
        MAGIC_def FILE_FORMAT_VERSION_def RESERVED_HEADER_def Let_def)
qed

lemma open_fresh:
  assumes "f_data f = []" "8 \<le> f_room f"
  shows "\<exists>f'. journal_open (Inr f) = (Inr \<lparr>jn_writer = (f', []), jn_byte_offset = 8,
      jn_appended_total = 0, jn_bytes_written_total = 0, jn_read_total = 0,
      jn_corrupt_frames_total = 0\<rparr>, Some f') \<and> f_data f' = file_header \<and>
      f_room f' = f_room f - 8"
  using assms write_file_header_ok[of f "f\<lparr>f_data := f_data f @ file_header, f_room := f_room f - 8\<rparr>"]
  by (simp add: journal_open_def Let_def FILE_HEADER_LEN_def)

lemma open_fresh_only:
  assumes "journal_open (Inr f) = (Inr j, g)" "f_data f = []"
  shows "stream_of (jn_writer j) = file_header" "snd (jn_writer j) = []" "jn_byte_offset j = 8"
  using assms
  by (auto simp: journal_open_def Let_def FILE_HEADER_LEN_def stream_of_def
      dest!: write_file_header_ok[THEN iffD1] split: prod.splits sum.splits)

lemma flush_ok:
  assumes "journal_flush j = (Inr (), j')"
  shows "f_data (fst (jn_writer j')) = stream_of (jn_writer j)"
proof -
  obtain w where fl: "bw_flush (jn_writer j) = (Inr (), w)" and j': "j' = j\<lparr>jn_writer := w\<rparr>"
    using assms by (auto simp: journal_flush_def split: prod.splits sum.splits)
  from bw_flush_stream(1)[OF fl] bw_flush_stream(2)[OF fl refl] show ?thesis
    by (simp add: j' stream_of_def)
qed

lemma flush_succeeds:
  assumes "length (stream_of (jn_writer j)) \<le> disk_size (jn_writer j)"
  shows "\<exists>j'. journal_flush j = (Inr (), j')"
proof -
  obtain r w where fl: "bw_flush (jn_writer j) = (r, w)" by (meson surj_pair)
  have "r \<noteq> Inl e" for e using bw_flush_stream(3)[OF fl, of e] assms by auto
  then show ?thesis using fl by (cases r) (auto simp: journal_flush_def)
qed

lemma append_all_succeeds:
  assumes "frame_codec cd"
    and "list_all2 (\<lambda>e p. cd_to_bytes cd e = Inr p \<and> payload_fits p) envs ps"
    and "length (stream_of (jn_writer j)) + length (frames_of cd ps) \<le> disk_size (jn_writer j)"
  shows "\<exists>poss j'. append_all cd envs j = (Inr poss, j') \<and>
    length (stream_of (jn_writer j')) \<le> disk_size (jn_writer j')"
  using assms(2,3)
proof (induction envs ps arbitrary: j rule: list_all2_induct)
  case (Cons e es p ps)
  obtain pos j1 where a: "append cd e j = (Inr pos, j1)"
    using append_succeeds[of cd e p j] Cons by auto
  from append_ok[OF a] Cons.hyps have
    "stream_of (jn_writer j1) = stream_of (jn_writer j) @ frame_of cd p"
    "disk_size (jn_writer j1) = disk_size (jn_writer j)" by auto
  then have "length (stream_of (jn_writer j1)) + length (frames_of cd ps) \<le> disk_size (jn_writer j1)"
    using Cons.prems by simp
  from Cons.IH[OF this] show ?case using a by auto
qed simp

lemma reading_iter_all:
  "reading (iter_all (Inr \<lparr>rd_rest = file_header @ body, rd_fault = None\<rparr>) j) body"
  by (simp add: reading_def iter_all_def FILE_HEADER_LEN_def)

section \<open>Cut files\<close>

lemma drain_cut:
  assumes "list_all2 (frame_holds cd) ps es" "k \<le> length (frames_of cd ps)"
    and "reading it (take k (frames_of cd ps))"
  shows "\<exists>n \<le> length es. length (frames_of cd (take n ps)) \<le> k \<and>
    (if k = length (frames_of cd (take n ps))
     then fst (journal_drain cd chunk it) = map Inr (take n es)
     else n < length es \<and> k < length (frames_of cd (take (Suc n) ps)) \<and>
       (\<exists>off need got. unat got < unat need \<and>
         fst (journal_drain cd chunk it) = map Inr (take n es) @ [Inl (TruncatedFrame off need got)]))"
  using assms
proof (induction ps es arbitrary: it k rule: list_all2_induct)
  case Nil
  then show ?case using drain_None[OF next_eof, of it cd chunk] by simp
next
  case (Cons p ps e es)
  have fits: "payload_fits p" using Cons.hyps by (simp add: frame_holds_def)
  let ?m = "8 + length p"
  consider "k = 0" | "0 < k" "k < ?m" | "?m \<le> k" by linarith
  then show ?case
  proof cases
    case 1
    then have "fst (journal_drain cd chunk it) = []"
      using Cons.prems(2) drain_None[OF next_eof, of it cd chunk] by simp
    then show ?thesis using 1 by (intro exI[of _ 0]) simp
  next
    case 2
    have "reading it (take k (frame_of cd p))" using Cons.prems(2) 2 by simp
    from next_truncated[OF this fits 2, of chunk] obtain need got where
      "unat got < unat need"
      and nx: "journal_next cd chunk it = (Some (Inl (TruncatedFrame (ji_byte_offset it) need got)), fuse_at [] it)"
      by blast
    moreover have "journal_drain cd chunk it = ([Inl (TruncatedFrame (ji_byte_offset it) need got)], fuse_at [] it)"
      by (rule drain_error[OF nx]) (simp add: fuse_at_def)
    ultimately show ?thesis using 2 by (intro exI[of _ 0]) auto
  next
    case 3
    let ?it = "advance (length p) (take (k - ?m) (frames_of cd ps)) it"
    have rd: "reading it (frame_of cd p @ take (k - ?m) (frames_of cd ps))"
      using Cons.prems(2) 3 by simp
    have nx: "journal_next cd chunk it = (Some (Inr e), ?it)"
      using Cons.hyps(1) rd by (intro next_frame) (simp_all add: frame_holds_def)
    have "k - ?m \<le> length (frames_of cd ps)" using Cons.prems(1) by simp
    from Cons.IH[OF this reading_advance[OF rd]] obtain n where
      n: "n \<le> length es" "length (frames_of cd (take n ps)) \<le> k - ?m"
        "if k - ?m = length (frames_of cd (take n ps))
         then fst (journal_drain cd chunk ?it) = map Inr (take n es)
         else n < length es \<and> k - ?m < length (frames_of cd (take (Suc n) ps)) \<and>
           (\<exists>off need got. unat got < unat need \<and>
         fst (journal_drain cd chunk ?it) = map Inr (take n es) @ [Inl (TruncatedFrame off need got)])"
      by blast
    have "(k = ?m + length (frames_of cd (take n ps))) = (k - ?m = length (frames_of cd (take n ps)))"
      using 3 by linarith
    then show ?thesis using n 3 drain_Some[OF nx] by (intro exI[of _ "Suc n"]) auto
  qed
qed

section \<open>A codec that meets the contract\<close>

text \<open>A fixed-width codec for the smoke-test payload with a CRC-32 (reflected polynomial
  \<open>0xEDB88320\<close>).  It stands in for \<open>rkyv\<close> and \<open>crc32fast\<close> where a concrete instance is needed;
  nothing about the journal depends on it.\<close>

record smoke_test_payload =
  stp_nonce :: u64
  stp_data :: b256

fun source_tag :: "event_source \<Rightarrow> u8" where
  "source_tag Ingress = 0"
| "source_tag Normalizer = 1"
| "source_tag StateEngine = 2"
| "source_tag OpportunityEngine = 3"
| "source_tag RiskEngine = 4"
| "source_tag Simulator = 5"
| "source_tag Execution = 6"
| "source_tag Relay = 7"

definition source_untag :: "u8 \<Rightarrow> event_source" where
  "source_untag b = (if b = 0 then Ingress else if b = 1 then Normalizer else if b = 2 then StateEngine
     else if b = 3 then OpportunityEngine else if b = 4 then RiskEngine else if b = 5 then Simulator
     else if b = 6 then Execution else Relay)"

lemma source_untag_tag [simp]: "source_untag (source_tag src) = src"
  by (cases src) (simp_all add: source_untag_def)

definition smoke_to_bytes :: "smoke_test_payload envelope \<Rightarrow> nat + bytes" where
  "smoke_to_bytes e = Inr (u64_to_be (env_sequence e) @ u64_to_be (env_timestamp_ns e) @
     [source_tag (env_source e)] @ u64_to_be (chain_id (env_chain_context e)) @
     u64_to_be (block_number (env_chain_context e)) @ u256_to_be (block_hash (env_chain_context e)) @
     u64_to_be (ucast (env_event_version e)) @ u64_to_be (env_correlation_id e) @
     u64_to_be (stp_nonce (env_payload e)) @ u256_to_be (stp_data (env_payload e)))"

definition smoke_from_bytes :: "bytes \<Rightarrow> nat + smoke_test_payload envelope" where
  "smoke_from_bytes bs =
     (if length bs \<noteq> 121 then Inl 0
      else Inr \<lparr>env_sequence = u64_from_be (take 8 bs),
                env_timestamp_ns = u64_from_be (take 8 (drop 8 bs)),
                env_source = source_untag (bs ! 16),
                env_chain_context = \<lparr>chain_id = u64_from_be (take 8 (drop 17 bs)),
                   block_number = u64_from_be (take 8 (drop 25 bs)),
                   block_hash = u256_from_be (take 32 (drop 33 bs))\<rparr>,
                env_event_version = ucast (u64_from_be (take 8 (drop 65 bs))),
                env_correlation_id = u64_from_be (take 8 (drop 73 bs)),
                env_payload = \<lparr>stp_nonce = u64_from_be (take 8 (drop 81 bs)),
                   stp_data = u256_from_be (take 32 (drop 89 bs))\<rparr>\<rparr>)"

fun crc32_bits :: "nat \<Rightarrow> u32 \<Rightarrow> u32" where
  "crc32_bits 0 c = c"
| "crc32_bits (Suc n) c =
     crc32_bits n (if c AND 1 = 1 then (drop_bit 1 c) XOR 0xEDB88320 else drop_bit 1 c)"

definition crc32 :: "bytes \<Rightarrow> u32" where
  "crc32 bs = NOT (foldl (\<lambda>c b. crc32_bits 8 (c XOR ucast b)) 0xFFFFFFFF bs)"

definition smoke_codec :: "smoke_test_payload codec" where
  "smoke_codec = \<lparr>cd_to_bytes = smoke_to_bytes, cd_from_bytes = smoke_from_bytes, cd_crc = crc32\<rparr>"

lemma ucast_ucast_u16: "(ucast (ucast (v :: u16) :: u64) :: u16) = v"
  using unat_lt_exp[of v]
  by (simp add: word_unat_eq_iff unsigned_ucast_eq unsigned_take_bit_eq take_bit_nat_eq_self)

lemma smoke_round_trip: "smoke_to_bytes e = Inr p \<Longrightarrow> smoke_from_bytes p = Inr e"
  by (cases e; cases "env_chain_context e"; cases "env_payload e")
    (auto simp: smoke_to_bytes_def smoke_from_bytes_def nth_append ucast_ucast_u16)

interpretation smoke: frame_codec smoke_codec
  by unfold_locales
    (auto simp: smoke_codec_def smoke_round_trip, auto simp: smoke_to_bytes_def)

section \<open>Properties\<close>

definition demo_envelope :: "smoke_test_payload envelope" where
  "demo_envelope = \<lparr>env_sequence = 3, env_timestamp_ns = 5, env_source = Simulator,
     env_chain_context = \<lparr>chain_id = 1, block_number = 18000000, block_hash = 11\<rparr>,
     env_event_version = 1, env_correlation_id = 9, env_payload = \<lparr>stp_nonce = 4, stp_data = 77\<rparr>\<rparr>"

lemma demo_frame:
  obtains p where "cd_to_bytes smoke_codec demo_envelope = Inr p" "length p = 121" "payload_fits p"
proof -
  obtain p where p: "cd_to_bytes smoke_codec demo_envelope = Inr p" "length p = 121"
    by (simp add: smoke_codec_def smoke_to_bytes_def)
  then have "payload_fits p" unfolding payload_fits_def p(2) by simp
  with p show ?thesis by (rule that)
qed

lemma demo_ok [simp]: "envelope_ok demo_envelope"
  by (simp add: demo_envelope_def envelope_ok_def)

lemma demo_holds:
  obtains p where "frame_holds smoke_codec p demo_envelope" "length p = 121"
proof -
  obtain p where p: "cd_to_bytes smoke_codec demo_envelope = Inr p" "length p = 121" "payload_fits p"
    by (rule demo_frame)
  from smoke.decode_encode[OF p(1)] p(3) have "frame_holds smoke_codec p demo_envelope"
    by (simp add: frame_holds_def)
  then show ?thesis using p(2) by (rule that)
qed

lemma journal_written_reads_back:
  assumes "frame_codec cd" "f_data f = []" "journal_open (Inr f) = (Inr j, g)"
    and "\<forall>e \<in> set envs. envelope_ok e"
    and "append_all cd envs j = (Inr poss, j1)" "journal_flush j1 = (Inr (), j2)"
  shows "fst (journal_drain cd chunk
      (iter_all (Inr \<lparr>rd_rest = f_data (fst (jn_writer j2)), rd_fault = None\<rparr>) j2)) = map Inr envs"
    and "\<exists>ps. list_all2 (frame_holds cd) ps envs \<and> poss = frame_positions cd 8 envs ps \<and>
      f_data (fst (jn_writer j2)) = file_header @ frames_of cd ps"
proof -
  note fresh = open_fresh_only[OF assms(3,2)]
  from frame_codec.append_all_ok[OF assms(1,5,4)] fresh obtain ps where
    ps: "list_all2 (frame_holds cd) ps envs" "poss = frame_positions cd 8 envs ps"
      "stream_of (jn_writer j1) = file_header @ frames_of cd ps" by auto
  have image: "f_data (fst (jn_writer j2)) = file_header @ frames_of cd ps"
    using flush_ok[OF assms(6)] ps(3) by simp
  show "fst (journal_drain cd chunk
      (iter_all (Inr \<lparr>rd_rest = f_data (fst (jn_writer j2)), rd_fault = None\<rparr>) j2)) = map Inr envs"
    using drain_all[OF ps(1) reading_iter_all] by (simp add: image)
  show "\<exists>ps. list_all2 (frame_holds cd) ps envs \<and> poss = frame_positions cd 8 envs ps \<and>
      f_data (fst (jn_writer j2)) = file_header @ frames_of cd ps"
    using ps image by blast
qed

text \<open>C1: Round trip.  Open an empty file, append any list of valid envelopes, flush, and iterate
  over what the operating system then sees: the iterator yields exactly those envelopes, in order
  and without an error, however the reads are split; each position that \<open>append\<close> returned is
  the offset of its frame.  The codec is only assumed to decode what it encoded.\<close>

theorem journal_round_trip:
  assumes "frame_codec cd"
    and "f_data f = []" "journal_open (Inr f) = (Inr j, g)"
    and "\<forall>e \<in> set envs. envelope_ok e"
    and "append_all cd envs j = (Inr poss, j1)" "journal_flush j1 = (Inr (), j2)"
  shows "fst (journal_drain cd chunk
      (iter_all (Inr \<lparr>rd_rest = f_data (fst (jn_writer j2)), rd_fault = None\<rparr>) j2)) = map Inr envs
    \<and> (\<exists>ps. list_all2 (frame_holds cd) ps envs \<and> poss = frame_positions cd 8 envs ps \<and>
         f_data (fst (jn_writer j2)) = file_header @ frames_of cd ps)"
  using journal_written_reads_back[OF assms] by blast

lemma journal_append_flush_total:
  assumes "frame_codec cd" "f_data f = []"
    and "list_all2 (\<lambda>e p. cd_to_bytes cd e = Inr p \<and> payload_fits p) envs ps"
    and "8 + length (frames_of cd ps) \<le> f_room f"
  shows "\<exists>j g poss j1 j2. journal_open (Inr f) = (Inr j, g) \<and>
     append_all cd envs j = (Inr poss, j1) \<and> journal_flush j1 = (Inr (), j2)"
proof -
  from open_fresh[OF assms(2)] assms(4) obtain j f' where
    op: "journal_open (Inr f) = (Inr j, Some f')" "jn_writer j = (f', [])" "f_data f' = file_header"
      "f_room f' = f_room f - 8" by auto
  have "length (stream_of (jn_writer j)) + length (frames_of cd ps) \<le> disk_size (jn_writer j)"
    using op assms(4) by (simp add: stream_of_def disk_size_def)
  from append_all_succeeds[OF assms(1,3) this] obtain poss j1 where
    ap: "append_all cd envs j = (Inr poss, j1)"
      "length (stream_of (jn_writer j1)) \<le> disk_size (jn_writer j1)" by blast
  with op flush_succeeds[OF ap(2)] show ?thesis by blast
qed

theorem journal_round_trip_witness:
  "\<exists>j2 :: journal. fst (journal_drain smoke_codec (\<lambda>_. 3)
      (iter_all (Inr \<lparr>rd_rest = f_data (fst (jn_writer j2)), rd_fault = None\<rparr>) j2))
    = map Inr [demo_envelope, demo_envelope]"
proof -
  obtain p where p: "cd_to_bytes smoke_codec demo_envelope = Inr p" "length p = 121" "payload_fits p"
    by (rule demo_frame)
  let ?f = "\<lparr>f_data = [], f_room = 1000\<rparr>"
  have "list_all2 (\<lambda>e p. cd_to_bytes smoke_codec e = Inr p \<and> payload_fits p)
      [demo_envelope, demo_envelope] [p, p]" using p by simp
  from journal_append_flush_total[OF smoke.frame_codec_axioms _ this, of ?f] p
  obtain j g poss j1 j2 where "journal_open (Inr ?f) = (Inr j, g)"
    "append_all smoke_codec [demo_envelope, demo_envelope] j = (Inr poss, j1)"
    "journal_flush j1 = (Inr (), j2)" by auto
  from journal_round_trip[OF smoke.frame_codec_axioms _ this(1) _ this(2,3), of "\<lambda>_. 3"]
  show ?thesis by auto
qed

text \<open>Progress of the writer.  When every envelope encodes into a payload of admissible length
  and the storage takes the header and the frames, opening, appending all of them and flushing all
  succeed.\<close>

theorem journal_writer_progress:
  assumes "frame_codec cd" "f_data f = []"
    and "list_all2 (\<lambda>e p. cd_to_bytes cd e = Inr p \<and> payload_fits p) envs ps"
    and "8 + length (frames_of cd ps) \<le> f_room f"
  shows "\<exists>j g poss j1 j2. journal_open (Inr f) = (Inr j, g) \<and>
     append_all cd envs j = (Inr poss, j1) \<and> journal_flush j1 = (Inr (), j2)"
  by (rule journal_append_flush_total[OF assms])

theorem journal_writer_progress_witness:
  "\<exists>j g poss j1 j2. journal_open (Inr \<lparr>f_data = [], f_room = 137\<rparr>) = (Inr j, g) \<and>
     append_all smoke_codec [demo_envelope] j = (Inr poss, j1) \<and> journal_flush j1 = (Inr (), j2)"
proof -
  obtain p where p: "cd_to_bytes smoke_codec demo_envelope = Inr p" "length p = 121" "payload_fits p"
    by (rule demo_frame)
  then show ?thesis
    by (intro journal_writer_progress[OF smoke.frame_codec_axioms, of _ _ "[p]"]) simp_all
qed

text \<open>Crash safety of the format.  Cut a journal of valid frames after any number of bytes:
  the iterator yields exactly the records whose frames are complete, and then either ends cleanly
  (the cut is a frame boundary) or reports one truncated frame; a partial frame is never taken for
  a record.\<close>

theorem journal_cut_anywhere:
  assumes "list_all2 (frame_holds cd) ps es" "k \<le> length (frames_of cd ps)"
  shows "\<exists>n \<le> length es. length (frames_of cd (take n ps)) \<le> k \<and>
    (let out = fst (journal_drain cd chunk
        (iter_all (Inr \<lparr>rd_rest = file_header @ take k (frames_of cd ps), rd_fault = None\<rparr>) j)) in
     if k = length (frames_of cd (take n ps)) then out = map Inr (take n es)
     else n < length es \<and> k < length (frames_of cd (take (Suc n) ps)) \<and>
       (\<exists>off need got. unat got < unat need \<and>
          out = map Inr (take n es) @ [Inl (TruncatedFrame off need got)]))"
  using drain_cut[OF assms reading_iter_all] by (simp add: Let_def)

theorem journal_cut_anywhere_witness:
  "\<exists>j p. \<exists>n \<le> length [demo_envelope, demo_envelope]. length (frames_of smoke_codec (take n [p, p])) \<le> 150 \<and>
    (let out = fst (journal_drain smoke_codec id
        (iter_all (Inr \<lparr>rd_rest = file_header @ take 150 (frames_of smoke_codec [p, p]), rd_fault = None\<rparr>) (j :: journal))) in
     if 150 = length (frames_of smoke_codec (take n [p, p])) then out = map Inr (take n [demo_envelope, demo_envelope])
     else n < length [demo_envelope, demo_envelope] \<and> 150 < length (frames_of smoke_codec (take (Suc n) [p, p])) \<and>
       (\<exists>off need got. unat got < unat need \<and>
          out = map Inr (take n [demo_envelope, demo_envelope]) @ [Inl (TruncatedFrame off need got)]))"
proof -
  obtain p where "frame_holds smoke_codec p demo_envelope" "length p = 121" by (rule demo_holds)
  then have "list_all2 (frame_holds smoke_codec) [p, p] [demo_envelope, demo_envelope]"
    and "150 \<le> length (frames_of smoke_codec [p, p])" by simp_all
  from journal_cut_anywhere[OF this, where chunk = id] show ?thesis by blast
qed

text \<open>C8: Corruption is contained.  When the bytes of one record no longer match its checksum, the
  iterator yields every record before it, then exactly one checksum error with the computed and
  the stored value, and nothing of what follows; the corruption counter goes up by one and the
  iterator stays finished.\<close>

theorem journal_corruption_contained:
  assumes "list_all2 (frame_holds cd) ps es" "payload_fits p" "cd_crc cd p \<noteq> c"
  shows "case journal_drain cd chunk (iter_all (Inr \<lparr>rd_rest = file_header @ frames_of cd ps @
           u32_to_le (word_of_nat (length p)) @ p @ u32_to_le c @ tail, rd_fault = None\<rparr>) j) of
     (out, it) \<Rightarrow> out = map Inr es @ [Inl (ChecksumMismatch
          (8 + word_of_nat (length (frames_of cd ps))) (cd_crc cd p) c)]
       \<and> ji_corrupt_total it = jn_corrupt_frames_total j + 1
       \<and> ji_read_total it = jn_read_total j + word_of_nat (length es)
       \<and> journal_next cd chunk it = (None, it)"
proof -
  let ?bad = "u32_to_le (word_of_nat (length p)) @ p @ u32_to_le c @ tail"
  let ?it = "iter_all (Inr \<lparr>rd_rest = file_header @ frames_of cd ps @ ?bad, rd_fault = None\<rparr>) j
    :: 'a journal_iter"
  let ?it1 = "advance_all cd ps ?bad ?it"
  have rd: "reading ?it (frames_of cd ps @ ?bad)" by (rule reading_iter_all)
  have nx: "journal_next cd chunk ?it1 =
    (Some (Inl (ChecksumMismatch (ji_byte_offset ?it1) (cd_crc cd p) c)), fuse_at tail ?it1)"
    by (rule next_bad_crc[OF reading_advance_all[OF rd] assms(2,3)])
  have fused: "ji_fused (fuse_at tail ?it1)" by (simp add: fuse_at_def)
  show ?thesis
    using drain_frames[OF assms(1) rd, of chunk] drain_error[OF nx fused] next_fused[OF fused, of cd chunk]
      list_all2_lengthD[OF assms(1)]
    by (simp add: fuse_at_def advance_all_def iter_all_def FILE_HEADER_LEN_def)
qed

theorem journal_corruption_contained_witness:
  "\<exists>p (j :: journal). case journal_drain smoke_codec id (iter_all (Inr \<lparr>rd_rest = file_header @
        frames_of smoke_codec [p] @ u32_to_le (word_of_nat (length p)) @ p @
        u32_to_le (cd_crc smoke_codec p + 1) @ [1, 2], rd_fault = None\<rparr>) j) of
     (out, it) \<Rightarrow> out = map Inr [demo_envelope] @ [Inl (ChecksumMismatch
          (8 + word_of_nat (length (frames_of smoke_codec [p]))) (cd_crc smoke_codec p) (cd_crc smoke_codec p + 1))]
       \<and> ji_corrupt_total it = jn_corrupt_frames_total j + 1
       \<and> ji_read_total it = jn_read_total j + word_of_nat (length [demo_envelope])
       \<and> journal_next smoke_codec id it = (None, it)"
proof -
  obtain p where p: "frame_holds smoke_codec p demo_envelope" "length p = 121" by (rule demo_holds)
  then have "list_all2 (frame_holds smoke_codec) [p] [demo_envelope]" "payload_fits p"
    "cd_crc smoke_codec p \<noteq> cd_crc smoke_codec p + 1" by (simp_all add: frame_holds_def)
  note fact = journal_corruption_contained[OF this, where chunk = id and tail = "[1, 2]"]
  show ?thesis by (intro exI, rule fact)
qed

text \<open>Soundness of reading, for arbitrary bytes, arbitrary splits of the reads and arbitrary
  read faults.  The iterator ends; what it yields is a list of records followed by at most one
  error; and the records are exactly the decodings of consecutive well-formed frames at the front
  of the body: admissible length, matching checksum, decodable, and passing \<open>validate\<close>.\<close>

theorem journal_reader_sound:
  "\<exists>es errs ps tail.
     fst (journal_drain cd chunk (iter_all (Inr r) j)) = map Inr es @ map Inl errs \<and>
     length errs \<le> 1 \<and> drop 8 (rd_rest r) = frames_of cd ps @ tail \<and>
     list_all2 (\<lambda>p e. payload_fits p \<and> cd_from_bytes cd p = Inr e \<and> validate_envelope e = Inr ()) ps es"
proof -
  obtain xs it' where d: "journal_drain cd chunk (iter_all (Inr r) j) = (xs, it')" by fastforce
  have "ji_reader (iter_all (Inr r) j :: 'a journal_iter)
      = Some \<lparr>rd_rest = drop 8 (rd_rest r), rd_fault = rd_fault r\<rparr>"
    by (simp add: iter_all_def FILE_HEADER_LEN_def)
  with drain_shape[OF d] obtain es errs ps tail where
    "xs = map Inr es @ map Inl errs" "length errs \<le> 1" "list_all2 (frame_holds cd) ps es"
    "drop 8 (rd_rest r) = frames_of cd ps @ tail" by auto
  then show ?thesis
    by (intro exI[of _ es] exI[of _ errs] exI[of _ ps] exI[of _ tail])
      (simp add: d frame_holds_def[abs_def] validate_ok_iff)
qed

text \<open>A failed \<open>append\<close> changes neither the write head nor any counter.  When the envelope does
  not encode or its payload has an inadmissible length, nothing at all is written; when the storage
  fails, a part of the frame may be left behind and nothing else.\<close>

theorem append_failure_contained:
  assumes "append cd env j = (Inl err, j')"
  shows "j' = j\<lparr>jn_writer := jn_writer j'\<rparr> \<and>
    ((\<nexists>e. err = Io e) \<longrightarrow> j' = j) \<and>
    (\<exists>rest. stream_of (jn_writer j') = stream_of (jn_writer j) @ rest \<and>
       (rest = [] \<or> (\<exists>p k. cd_to_bytes cd env = Inr p \<and> rest = take k (frame_of cd p))))"
proof -
  have part: "\<exists>k. rest = take k (frame_of cd p)"
    if "rest = take k1 (u32_to_le (word_of_nat (length p))) \<or>
        rest = u32_to_le (word_of_nat (length p)) @ take k1 p \<or>
        rest = u32_to_le (word_of_nat (length p)) @ p @ take k1 (u32_to_le (cd_crc cd p))" for rest k1 p
    using that
  proof (elim disjE)
    assume "rest = take k1 (u32_to_le (word_of_nat (length p)))"
    then show ?thesis
      by (cases "k1 \<le> 4") (auto simp: frame_of_def intro: exI[of _ k1] exI[of _ 4])
  next
    assume "rest = u32_to_le (word_of_nat (length p)) @ take k1 p"
    then show ?thesis
      by (cases "k1 \<le> length p")
        (auto simp: frame_of_def intro: exI[of _ "4 + k1"] exI[of _ "4 + length p"])
  next
    assume "rest = u32_to_le (word_of_nat (length p)) @ p @ take k1 (u32_to_le (cd_crc cd p))"
    then show ?thesis
      by (intro exI[of _ "4 + length p + k1"]) (simp add: frame_of_def)
  qed
  have silent: ?thesis if "j' = j"
    unfolding that by (intro conjI impI exI[of _ "[]"]) simp_all
  have torn: ?thesis if "cd_to_bytes cd env = Inr p" "err = Io e" "j' = j\<lparr>jn_writer := w\<rparr>"
      "stream_of w = stream_of (jn_writer j) @ take k (frame_of cd p)" for p e w k
    using that by (intro conjI exI[of _ "take k (frame_of cd p)"]) auto
  show ?thesis
  proof (cases "cd_to_bytes cd env")
    case (Inl e)
    then have "j' = j" using assms by (simp add: append_def)
    then show ?thesis by (rule silent)
  next
    case p: (Inr p)
    show ?thesis
    proof (cases "validate_frame_length (word_of_nat (length p)) (jn_byte_offset j)")
      case (Inl e)
      then have "j' = j" using assms p by (simp add: append_def Let_def)
      then show ?thesis by (rule silent)
    next
      case v: (Inr u)
      obtain r1 w1 where b1: "bw_write_all (u32_to_le (word_of_nat (length p))) (jn_writer j) = (r1, w1)"
        by (meson surj_pair)
      obtain r2 w2 where b2: "bw_write_all p w1 = (r2, w2)" by (meson surj_pair)
      obtain r3 w3 where b3: "bw_write_all (u32_to_le (cd_crc cd p)) w2 = (r3, w3)" by (meson surj_pair)
      note st = bw_write_all_stream[OF b1] bw_write_all_stream[OF b2] bw_write_all_stream[OF b3]
      consider (a) e where "r1 = Inl e" | (b) e where "r1 = Inr ()" "r2 = Inl e"
        | (c) e where "r1 = Inr ()" "r2 = Inr ()" "r3 = Inl e" | (d) "r1 = Inr ()" "r2 = Inr ()" "r3 = Inr ()"
        by (metis old.sum.exhaust old.unit.exhaust)
      then show ?thesis
      proof cases
        case a
        have e: "err = Io e" "j' = j\<lparr>jn_writer := w1\<rparr>"
          using assms p v b1 a by (simp_all add: append_def Let_def)
        obtain k where "stream_of w1 = stream_of (jn_writer j) @ take k (u32_to_le (word_of_nat (length p)))"
          using st(1) by auto
        with part[of _ k p] torn[OF p e] show ?thesis by metis
      next
        case b
        have e: "err = Io e" "j' = j\<lparr>jn_writer := w2\<rparr>"
          using assms p v b1 b2 b by (simp_all add: append_def Let_def)
        obtain k where "stream_of w2 = stream_of (jn_writer j) @
            u32_to_le (word_of_nat (length p)) @ take k p" using st(1,2) b by auto
        with part[of _ k p] torn[OF p e] show ?thesis by metis
      next
        case c
        have e: "err = Io e" "j' = j\<lparr>jn_writer := w3\<rparr>"
          using assms p v b1 b2 b3 c by (simp_all add: append_def Let_def)
        obtain k where "stream_of w3 = stream_of (jn_writer j) @
            u32_to_le (word_of_nat (length p)) @ p @ take k (u32_to_le (cd_crc cd p))"
          using st c by auto
        with part[of _ k p] torn[OF p e] show ?thesis by metis
      next
        case d
        then show ?thesis using assms p v b1 b2 b3 by (simp add: append_def Let_def)
      qed
    qed
  qed
qed

theorem append_failure_contained_witness:
  "\<exists>err j'. append smoke_codec demo_envelope \<lparr>jn_writer = (\<lparr>f_data = [], f_room = 4\<rparr>, replicate 8190 0),
      jn_byte_offset = 8190, jn_appended_total = 1, jn_bytes_written_total = 8182, jn_read_total = 0,
      jn_corrupt_frames_total = 0\<rparr> = (Inl err, j') \<and> jn_byte_offset j' = 8190 \<and> jn_appended_total j' = 1"
proof -
  let ?j = "\<lparr>jn_writer = (\<lparr>f_data = [], f_room = 4\<rparr>, replicate 8190 0), jn_byte_offset = 8190,
    jn_appended_total = 1, jn_bytes_written_total = 8182, jn_read_total = 0, jn_corrupt_frames_total = 0\<rparr>"
  obtain p where p: "cd_to_bytes smoke_codec demo_envelope = Inr p" "length p = 121" "payload_fits p"
    by (rule demo_frame)
  have "fst (append smoke_codec demo_envelope ?j) = Inl (Io StorageFull)"
    using fits_valid[OF p(3), of 8190]
    by (simp add: append_def p(1) Let_def bw_write_all_def BUF_CAPACITY_def bw_flush_def os_write_all_def)
  then obtain j' where a: "append smoke_codec demo_envelope ?j = (Inl (Io StorageFull), j')"
    by (metis prod.collapse)
  from append_failure_contained[OF a] have "j' = ?j\<lparr>jn_writer := jn_writer j'\<rparr>" by blast
  then have "jn_byte_offset j' = 8190" "jn_appended_total j' = 1" by (metis journal.simps)+
  with a show ?thesis by blast
qed

text \<open>Opening.  A fresh or empty file gets the header; an existing file is left byte for byte
  as it is, and is accepted only when it starts with the header, the write head being then its end;
  otherwise the error says which check failed.\<close>

theorem journal_open_contract:
  assumes "f_room f \<ge> 8"
  shows "case journal_open (Inr f) of
     (Inr j, Some g) \<Rightarrow> (f_data f = [] \<and> f_data g = file_header \<or> f_data f \<noteq> [] \<and> g = f) \<and>
        (\<exists>body. f_data g = file_header @ body) \<and> jn_writer j = (g, []) \<and>
        jn_byte_offset j = word_of_nat (length (f_data g))
   | (Inl e, Some g) \<Rightarrow> g = f \<and> f_data f \<noteq> [] \<and> (\<nexists>body. f_data f = file_header @ body) \<and>
        (length (f_data f) < 8 \<longrightarrow> e = TruncatedFileHeader (f_data f)) \<and>
        (length (f_data f) \<ge> 8 \<longrightarrow> read_and_validate_file_header (f_data f) = Inl e)
   | (_, None) \<Rightarrow> False"
proof (cases "f_data f = []")
  case True
  from open_fresh[OF True assms] show ?thesis by (auto simp: True)
next
  case False
  then show ?thesis
    using header_valid_iff[of "f_data f"]
    by (auto simp: journal_open_def Let_def FILE_HEADER_LEN_def split: sum.splits)
qed

theorem journal_open_contract_witness:
  "case journal_open (Inr \<lparr>f_data = [0x4C, 0x4D], f_room = 20\<rparr>) of
     (Inr j, Some g) \<Rightarrow> (False \<and> f_data g = file_header \<or> g = \<lparr>f_data = [0x4C, 0x4D], f_room = 20\<rparr>) \<and>
        (\<exists>body. f_data g = file_header @ body) \<and> jn_writer j = (g, []) \<and>
        jn_byte_offset j = word_of_nat (length (f_data g))
   | (Inl e, Some g) \<Rightarrow> g = \<lparr>f_data = [0x4C, 0x4D], f_room = 20\<rparr> \<and>
        e = TruncatedFileHeader [0x4C, 0x4D]
   | (_, None) \<Rightarrow> False"
  using journal_open_contract[of "\<lparr>f_data = [0x4C, 0x4D], f_room = 20\<rparr>"]
  by (auto split: prod.splits sum.splits option.splits)

end
