(* ===== verification/Snapshot.thy ===== *)
theory Snapshot
  imports Journal
begin

text \<open>
  The snapshot store of \<open>crates/journal/src/snapshot.rs\<close>: keyed values over RocksDB in bincode
  encoding, a reserved key prefix that user keys may not use, and the \<open>last_sequence\<close> watermark
  kept under a reserved key.  RocksDB and bincode are parameters with the contracts
  \<open>kv_store\<close> and \<open>value_codec\<close>.
\<close>

section \<open>The parameters\<close>

record 'd kv_ops =
  kv_put :: "'d \<Rightarrow> bytes \<Rightarrow> bytes \<Rightarrow> (nat + unit) \<times> 'd"
  kv_get :: "'d \<Rightarrow> bytes \<Rightarrow> nat + bytes option"

record 'v value_codec =
  vc_encode :: "'v \<Rightarrow> nat + bytes"
  vc_decode :: "bytes \<Rightarrow> nat + 'v"

locale kv_store =
  fixes kv :: "'d kv_ops" and lookup :: "'d \<Rightarrow> bytes \<Rightarrow> bytes option"
  assumes put_ok: "kv_put kv d k v = (Inr (), d') \<Longrightarrow> lookup d' = (lookup d)(k \<mapsto> v)"
    and put_err: "kv_put kv d k v = (Inl e, d') \<Longrightarrow> lookup d' = lookup d"
    and get_ok: "kv_get kv d k = Inr r \<Longrightarrow> r = lookup d k"

definition codec_law :: "'v value_codec \<Rightarrow> bool" where
  "codec_law vc \<longleftrightarrow> (\<forall>v bs. vc_encode vc v = Inr bs \<longrightarrow> vc_decode vc bs = Inr v)"

section \<open>The store\<close>

definition RESERVED_KEY_PREFIX :: bytes where
  "RESERVED_KEY_PREFIX = 0 # map (\<lambda>c. word_of_nat (of_char c)) ''rust_lmax_mev:snapshot:''"

definition LAST_SEQUENCE_KEY :: bytes where
  "LAST_SEQUENCE_KEY = 0 # map (\<lambda>c. word_of_nat (of_char c)) ''rust_lmax_mev:snapshot:last_sequence''"

definition starts_with :: "bytes \<Rightarrow> bytes \<Rightarrow> bool" where
  "starts_with key pre \<longleftrightarrow> take (length pre) key = pre"

record 'd snapshot =
  sn_db :: 'd
  sn_saved_total :: u64
  sn_loaded_total :: u64

record snapshot_stats =
  ss_saved_total :: u64
  ss_loaded_total :: u64

definition snapshot_open :: "nat + 'd \<Rightarrow> journal_error + 'd snapshot" where
  "snapshot_open opened =
     (case opened of
        Inl e \<Rightarrow> Inl (RocksDb e)
      | Inr db \<Rightarrow> Inr \<lparr>sn_db = db, sn_saved_total = 0, sn_loaded_total = 0\<rparr>)"

definition save ::
  "'d kv_ops \<Rightarrow> 'v value_codec \<Rightarrow> bytes \<Rightarrow> 'v \<Rightarrow> 'd snapshot \<Rightarrow> (journal_error + unit) \<times> 'd snapshot" where
  "save kv vc key v s =
     (if starts_with key RESERVED_KEY_PREFIX then (Inl (ReservedKey key), s)
      else (case vc_encode vc v of
              Inl e \<Rightarrow> (Inl (BincodeSerialize e), s)
            | Inr encoded \<Rightarrow>
                (case kv_put kv (sn_db s) key encoded of
                   (Inl e, db) \<Rightarrow> (Inl (RocksDb e), s\<lparr>sn_db := db\<rparr>)
                 | (Inr _, db) \<Rightarrow>
                     (Inr (), s\<lparr>sn_db := db, sn_saved_total := sn_saved_total s + 1\<rparr>))))"

definition load ::
  "'d kv_ops \<Rightarrow> 'v value_codec \<Rightarrow> bytes \<Rightarrow> 'd snapshot \<Rightarrow> (journal_error + 'v option) \<times> 'd snapshot" where
  "load kv vc key s =
     (if starts_with key RESERVED_KEY_PREFIX then (Inl (ReservedKey key), s)
      else (case kv_get kv (sn_db s) key of
              Inl e \<Rightarrow> (Inl (RocksDb e), s)
            | Inr None \<Rightarrow> (Inr None, s)
            | Inr (Some raw) \<Rightarrow>
                (case vc_decode vc raw of
                   Inl e \<Rightarrow> (Inl (BincodeDeserialize e), s)
                 | Inr v \<Rightarrow> (Inr (Some v), s\<lparr>sn_loaded_total := sn_loaded_total s + 1\<rparr>))))"

definition snapshot_statistics :: "'d snapshot \<Rightarrow> snapshot_stats" where
  "snapshot_statistics s =
     \<lparr>ss_saved_total = sn_saved_total s, ss_loaded_total = sn_loaded_total s\<rparr>"

definition set_last_sequence ::
  "'d kv_ops \<Rightarrow> u64 value_codec \<Rightarrow> u64 \<Rightarrow> 'd snapshot \<Rightarrow> (journal_error + unit) \<times> 'd snapshot" where
  "set_last_sequence kv uc sq s =
     (case vc_encode uc sq of
        Inl e \<Rightarrow> (Inl (BincodeSerialize e), s)
      | Inr encoded \<Rightarrow>
          (case kv_put kv (sn_db s) LAST_SEQUENCE_KEY encoded of
             (Inl e, db) \<Rightarrow> (Inl (RocksDb e), s\<lparr>sn_db := db\<rparr>)
           | (Inr _, db) \<Rightarrow> (Inr (), s\<lparr>sn_db := db\<rparr>)))"

definition last_sequence ::
  "'d kv_ops \<Rightarrow> u64 value_codec \<Rightarrow> 'd snapshot \<Rightarrow> journal_error + u64" where
  "last_sequence kv uc s =
     (case kv_get kv (sn_db s) LAST_SEQUENCE_KEY of
        Inl e \<Rightarrow> Inl (RocksDb e)
      | Inr None \<Rightarrow> Inl LastSequenceUnavailable
      | Inr (Some raw) \<Rightarrow> (case vc_decode uc raw of
            Inl e \<Rightarrow> Inl (BincodeDeserialize e)
          | Inr sq \<Rightarrow> Inr sq))"

section \<open>What the store promises\<close>

text \<open>The abstract store: a map from user keys to values, and a watermark apart from it.\<close>

record 'v abs_store =
  as_map :: "bytes \<Rightarrow> 'v option"
  as_mark :: "u64 option"
  as_saved :: u64
  as_loaded :: u64

datatype 'v snap_op = Save bytes 'v | Load bytes | SetLast u64 | GetLast
datatype 'v snap_out =
  OSave "journal_error + unit" | OLoad "journal_error + 'v option" | OSet "journal_error + unit"
  | OLast "journal_error + u64"

fun abs_step :: "'v snap_op \<Rightarrow> 'v abs_store \<Rightarrow> 'v snap_out \<times> 'v abs_store" where
  "abs_step (Save k v) a =
     (if starts_with k RESERVED_KEY_PREFIX then (OSave (Inl (ReservedKey k)), a)
      else (OSave (Inr ()), a\<lparr>as_map := (as_map a)(k \<mapsto> v), as_saved := as_saved a + 1\<rparr>))"
| "abs_step (Load k) a =
     (if starts_with k RESERVED_KEY_PREFIX then (OLoad (Inl (ReservedKey k)), a)
      else (OLoad (Inr (as_map a k)),
            if as_map a k = None then a else a\<lparr>as_loaded := as_loaded a + 1\<rparr>))"
| "abs_step (SetLast n) a = (OSet (Inr ()), a\<lparr>as_mark := Some n\<rparr>)"
| "abs_step GetLast a =
     (OLast (case as_mark a of None \<Rightarrow> Inl LastSequenceUnavailable | Some n \<Rightarrow> Inr n), a)"

fun snap_step ::
  "'d kv_ops \<Rightarrow> 'v value_codec \<Rightarrow> u64 value_codec \<Rightarrow> 'v snap_op \<Rightarrow> 'd snapshot
     \<Rightarrow> 'v snap_out \<times> 'd snapshot" where
  "snap_step kv vc uc (Save k v) s = (case save kv vc k v s of (r, s') \<Rightarrow> (OSave r, s'))"
| "snap_step kv vc uc (Load k) s = (case load kv vc k s of (r, s') \<Rightarrow> (OLoad r, s'))"
| "snap_step kv vc uc (SetLast n) s = (case set_last_sequence kv uc n s of (r, s') \<Rightarrow> (OSet r, s'))"
| "snap_step kv vc uc GetLast s = (OLast (last_sequence kv uc s), s)"

fun run_ops :: "('o \<Rightarrow> 's \<Rightarrow> 'r \<times> 's) \<Rightarrow> 'o list \<Rightarrow> 's \<Rightarrow> 'r list \<times> 's" where
  "run_ops step [] s = ([], s)"
| "run_ops step (x # xs) s =
     (case step x s of (r, s') \<Rightarrow> (case run_ops step xs s' of (rs, s'') \<Rightarrow> (r # rs, s'')))"

text \<open>A database and codecs that never fail, beside meeting their contracts.\<close>

definition reliable :: "'d kv_ops \<Rightarrow> 'v value_codec \<Rightarrow> u64 value_codec \<Rightarrow> bool" where
  "reliable kv vc uc \<longleftrightarrow>
     (\<forall>d k v. fst (kv_put kv d k v) = Inr ()) \<and> (\<forall>d k. is_ok (kv_get kv d k)) \<and>
     (\<forall>v. is_ok (vc_encode vc v)) \<and> (\<forall>n. is_ok (vc_encode uc n)) \<and> codec_law vc \<and> codec_law uc"

fun stored_as :: "'v value_codec \<Rightarrow> bytes option \<Rightarrow> 'v option \<Rightarrow> bool" where
  "stored_as vc None v \<longleftrightarrow> v = None"
| "stored_as vc (Some raw) v \<longleftrightarrow> (\<exists>x. vc_decode vc raw = Inr x \<and> v = Some x)"

definition snap_rel ::
  "('d \<Rightarrow> bytes \<Rightarrow> bytes option) \<Rightarrow> 'v value_codec \<Rightarrow> u64 value_codec \<Rightarrow> 'd snapshot \<Rightarrow> 'v abs_store \<Rightarrow> bool" where
  "snap_rel lookup vc uc s a \<longleftrightarrow>
     sn_saved_total s = as_saved a \<and> sn_loaded_total s = as_loaded a \<and>
     (\<forall>k. \<not> starts_with k RESERVED_KEY_PREFIX \<longrightarrow> stored_as vc (lookup (sn_db s) k) (as_map a k)) \<and>
     stored_as uc (lookup (sn_db s) LAST_SEQUENCE_KEY) (as_mark a)"

lemma reserved_last_key: "starts_with LAST_SEQUENCE_KEY RESERVED_KEY_PREFIX"
  by (simp add: starts_with_def LAST_SEQUENCE_KEY_def RESERVED_KEY_PREFIX_def)

lemma reliableD:
  assumes "reliable kv vc uc"
  obtains d' where "kv_put kv d k bs = (Inr (), d')"
  using assms by (metis reliable_def prod.collapse)

context kv_store
begin

lemma step_simulates:
  assumes rel: "reliable kv vc uc" and s: "snap_rel lookup vc uc s a"
  shows "fst (snap_step kv vc uc op s) = fst (abs_step op a)
    \<and> snap_rel lookup vc uc (snd (snap_step kv vc uc op s)) (snd (abs_step op a))"
proof (cases op)
  case (Save k v)
  obtain bs where bs: "vc_encode vc v = Inr bs" "vc_decode vc bs = Inr v"
    using rel by (metis reliable_def is_ok_iff codec_law_def)
  obtain d' where p: "kv_put kv (sn_db s) k bs = (Inr (), d')" by (rule reliableD[OF rel])
  show ?thesis
  proof (cases "starts_with k RESERVED_KEY_PREFIX")
    case True
    then show ?thesis using s by (simp add: Save save_def)
  next
    case False
    then have "k \<noteq> LAST_SEQUENCE_KEY" using reserved_last_key by auto
    then show ?thesis using s put_ok[OF p] bs p False
      by (simp add: Save save_def snap_rel_def)
  qed
next
  case (Load k)
  obtain r where g: "kv_get kv (sn_db s) k = Inr r" using rel by (metis reliable_def is_ok_iff)
  then have r: "r = lookup (sn_db s) k" by (rule get_ok)
  show ?thesis
  proof (cases "starts_with k RESERVED_KEY_PREFIX")
    case True
    then show ?thesis using s by (simp add: Load load_def)
  next
    case False
    then have "stored_as vc r (as_map a k)" using s r by (simp add: snap_rel_def)
    then show ?thesis using s g False
      by (cases r) (auto simp: Load load_def snap_rel_def)
  qed
next
  case (SetLast n)
  obtain bs where bs: "vc_encode uc n = Inr bs" "vc_decode uc bs = Inr n"
    using rel by (metis reliable_def is_ok_iff codec_law_def)
  obtain d' where p: "kv_put kv (sn_db s) LAST_SEQUENCE_KEY bs = (Inr (), d')"
    by (rule reliableD[OF rel])
  show ?thesis
    using s put_ok[OF p] bs p reserved_last_key
    by (auto simp: SetLast set_last_sequence_def snap_rel_def)
next
  case GetLast
  obtain r where g: "kv_get kv (sn_db s) LAST_SEQUENCE_KEY = Inr r"
    using rel by (metis reliable_def is_ok_iff)
  then have r: "r = lookup (sn_db s) LAST_SEQUENCE_KEY" by (rule get_ok)
  show ?thesis using s g unfolding r
    by (cases "lookup (sn_db s) LAST_SEQUENCE_KEY")
      (auto simp: GetLast last_sequence_def snap_rel_def)
qed

lemma run_simulates:
  assumes rel: "reliable kv vc uc" and "snap_rel lookup vc uc s a"
  shows "fst (run_ops (snap_step kv vc uc) ops s) = fst (run_ops abs_step ops a)"
  using assms(2)
proof (induction ops arbitrary: s a)
  case (Cons x ops)
  obtain r s' where c: "snap_step kv vc uc x s = (r, s')" by fastforce
  obtain q a' where b: "abs_step x a = (q, a')" by fastforce
  from step_simulates[OF rel Cons.prems, of x] have "r = q" "snap_rel lookup vc uc s' a'"
    by (simp_all add: b c)
  with Cons.IH[of s' a'] show ?case by (simp add: b c split_beta)
qed simp

lemma save_keeps_mark:
  assumes "save kv vc k v s = (r, s')"
  shows "lookup (sn_db s') LAST_SEQUENCE_KEY = lookup (sn_db s) LAST_SEQUENCE_KEY"
proof (cases "starts_with k RESERVED_KEY_PREFIX")
  case False
  then have "k \<noteq> LAST_SEQUENCE_KEY" using reserved_last_key by auto
  with False assms show ?thesis
    by (auto simp: save_def dest: put_ok put_err split: sum.splits prod.splits)
qed (use assms in \<open>simp add: save_def\<close>)

end

section \<open>An instance\<close>

definition map_kv :: "(bytes \<Rightarrow> bytes option) kv_ops" where
  "map_kv = \<lparr>kv_put = (\<lambda>d k v. (Inr (), d(k \<mapsto> v))), kv_get = (\<lambda>d k. Inr (d k))\<rparr>"

definition u64_codec :: "u64 value_codec" where
  "u64_codec = \<lparr>vc_encode = (\<lambda>n. Inr (rev (u64_to_be n))), vc_decode = (\<lambda>bs. Inr (u64_from_be (rev bs)))\<rparr>"

interpretation map_kv: kv_store map_kv "\<lambda>d. d"
  by unfold_locales (auto simp: map_kv_def)

lemma map_kv_reliable: "reliable map_kv u64_codec u64_codec"
  by (simp add: reliable_def map_kv_def u64_codec_def codec_law_def)

section \<open>Properties\<close>

text \<open>C6: Refinement.  Over a database and codecs that meet their contracts and do not fail, any
  sequence of saves, loads and watermark operations on a new store answers exactly as the abstract
  store: a map from user keys to values with the watermark kept apart, reserved keys refused, and
  an unset watermark an error rather than zero.\<close>

theorem snapshot_refines_abstract_store:
  assumes "kv_store kv lookup" "reliable kv vc uc"
    and "snapshot_open (Inr db) = Inr s" "lookup db = (\<lambda>_. None)"
  shows "fst (run_ops (snap_step kv vc uc) ops s)
    = fst (run_ops abs_step ops \<lparr>as_map = (\<lambda>_. None), as_mark = None, as_saved = 0, as_loaded = 0\<rparr>)"
  by (rule kv_store.run_simulates[OF assms(1,2)])
    (use assms(3,4) in \<open>auto simp: snapshot_open_def snap_rel_def\<close>)

theorem snapshot_refines_abstract_store_witness:
  "fst (run_ops (snap_step map_kv u64_codec u64_codec) [GetLast, Save [1] 7, SetLast 9, Load [1], GetLast]
      \<lparr>sn_db = (\<lambda>_. None), sn_saved_total = 0, sn_loaded_total = 0\<rparr>)
    = [OLast (Inl LastSequenceUnavailable), OSave (Inr ()), OSet (Inr ()), OLoad (Inr (Some 7)), OLast (Inr 9)]"
  using snapshot_refines_abstract_store[OF map_kv.kv_store_axioms map_kv_reliable,
      of "\<lambda>_. None" "\<lparr>sn_db = (\<lambda>_. None), sn_saved_total = 0, sn_loaded_total = 0\<rparr>"
        "[GetLast, Save [1] 7, SetLast 9, Load [1], GetLast]"]
  by (simp add: snapshot_open_def starts_with_def RESERVED_KEY_PREFIX_def)

text \<open>Isolation of the watermark.  No save, successful or failed, under any user key and with
  any codec, changes what is stored as the watermark, and the watermark never counts as a save.\<close>

theorem watermark_isolated:
  assumes "kv_store kv lookup"
  shows "lookup (sn_db (snd (save kv vc k v s))) LAST_SEQUENCE_KEY = lookup (sn_db s) LAST_SEQUENCE_KEY
    \<and> sn_saved_total (snd (set_last_sequence kv uc n s)) = sn_saved_total s"
proof -
  have "sn_saved_total (snd (set_last_sequence kv uc n s)) = sn_saved_total s"
    by (simp add: set_last_sequence_def split: sum.split prod.split)
  then show ?thesis using kv_store.save_keeps_mark[OF assms prod.collapse[symmetric]] by simp
qed

theorem watermark_isolated_witness:
  "sn_db (snd (save map_kv u64_codec [5] 6 \<lparr>sn_db = (\<lambda>_. None), sn_saved_total = 0, sn_loaded_total = 0\<rparr>))
     LAST_SEQUENCE_KEY = None"
  using watermark_isolated[OF map_kv.kv_store_axioms, of u64_codec "[5]" 6
      "\<lparr>sn_db = (\<lambda>_. None), sn_saved_total = 0, sn_loaded_total = 0\<rparr>"] by simp

end
