(* ===== verification/Config.thy ===== *)
theory Config
  imports Prelude
begin

text \<open>
  The configuration of \<open>crates/config/src/lib.rs\<close>: its sections and \<open>Config::validate\<close>, the gate
  every other component relies on.  Parsing (the \<open>config\<close> and \<open>url\<close> crates) is a parameter.
  Strings are ASCII, so \<open>trim\<close> removes ASCII white space.
\<close>

section \<open>Sections\<close>

datatype profile = Dev | Test | Shadow | Production
datatype key_backend = Disabled | HsmKms
datatype log_format = Json | Pretty
datatype mempool_source_kind = GethWs | External
datatype pool_kind = UniswapV2 | UniswapV3Fee005 | SushiswapV2
datatype relay_kind = Flashbots | Bloxroute

record fallback_rpc_config =
  fb_url :: string
  fb_label :: string

record node_config =
  geth_ws_url :: string
  geth_http_url :: string
  fallback_rpc :: "fallback_rpc_config list"
  archive_rpc :: "fallback_rpc_config option"

record observability_config =
  prometheus_listen :: string
  log_filter :: string
  ob_log_format :: log_format

record journal_config =
  file_journal_path :: string
  rocksdb_snapshot_path :: string
  ingress_journal_path :: string
  state_journal_path :: string
  mismatch_journal_path :: string
  submission_journal_path :: string

definition default_mismatch_journal_path :: string where
  "default_mismatch_journal_path = ''data/mismatch.bin''"
definition default_submission_journal_path :: string where
  "default_submission_journal_path = ''data/submission.bin''"

record bus_config =
  bus_capacity :: nat

record ingress_tokens =
  weth :: address
  usdc :: address

record ingress_config =
  tokens :: ingress_tokens
  watched_addresses :: "address list"
  mempool_source :: mempool_source_kind
  external_mempool_endpoint :: "string option"
  external_mempool_api_key :: "string option"

record pool_config =
  pc_kind :: pool_kind
  pc_address :: address

record state_config =
  pools :: "pool_config list"

record signing_audit_alert_config =
  max_attempts_per_minute :: u32
  max_failed_per_minute :: u32

record relay_endpoint_config =
  re_kind :: relay_kind
  endpoint :: string
  api_key :: "string option"

record relay_config =
  enabled_relays :: "relay_endpoint_config list"
  simulate_timeout_ms :: u64
  live_send :: bool
  execution_disabled :: bool
  rc_key_backend :: key_backend
  audit_key_id :: string
  signing_audit_alert :: signing_audit_alert_config
  allow_non_localhost_endpoint :: bool

definition default_relay_config :: relay_config where
  "default_relay_config =
     \<lparr>enabled_relays = [], simulate_timeout_ms = 2000, live_send = False,
      execution_disabled = False, rc_key_backend = Disabled, audit_key_id = '''',
      signing_audit_alert = \<lparr>max_attempts_per_minute = 0, max_failed_per_minute = 0\<rparr>,
      allow_non_localhost_endpoint = False\<rparr>"

record simulator_config =
  prefetch_enabled :: bool
  prefetch_cache_capacity :: nat
  freshness_window_blocks :: u64

definition default_simulator_config :: simulator_config where
  "default_simulator_config =
     \<lparr>prefetch_enabled = False, prefetch_cache_capacity = 64, freshness_window_blocks = 1\<rparr>"

record config =
  node :: node_config
  observability :: observability_config
  journal_cfg :: journal_config
  bus_cfg :: bus_config
  ingress :: ingress_config
  state_cfg :: state_config
  relay :: relay_config
  simulator :: simulator_config
  active_profile :: profile

datatype config_error =
    IoErr nat
  | Parse nat
  | MissingFallbackRpc
  | EmptyRequiredField string
  | InvalidSocketAddr string string
  | InvalidBusCapacity nat
  | EmptyWatchedAddresses
  | DuplicateIngressTokens
  | EmptyStatePools
  | DuplicatePoolAddress address
  | EmptyJournalPath string
  | DuplicateJournalPath string string
  | LiveSendRequiresProductionProfile
  | LiveSendRequiresHsmKms
  | LiveSendRequiresLocalhostEndpoint
  | EmptyRelayEndpoint nat
  | TooManyEnabledRelays nat
  | InvalidCacheCapacity nat
  | PrefetchRequiresArchiveRpc
  | ProductionProfileRequiresHsmKms
  | HsmKmsRequiresProductionProfile
  | HsmKmsRequiresNonEmptyAuditKeyId

section \<open>Helpers\<close>

text \<open>\<open>url::Url::parse\<close> followed by \<open>host_str\<close>: the outer \<open>None\<close> is a string that does not parse, the
  inner one a URL without a host.\<close>

type_synonym url_parser = "string \<Rightarrow> string option option"

definition is_localhost_endpoint :: "url_parser \<Rightarrow> string \<Rightarrow> bool" where
  "is_localhost_endpoint url ep =
     (let trimmed = trim ep in
      if trimmed = [] then False
      else case url trimmed of
        None \<Rightarrow> False
      | Some None \<Rightarrow> False
      | Some (Some host) \<Rightarrow> host = ''127.0.0.1'' \<or> host = ''localhost'' \<or> host = ''::1'' \<or> host = ''[::1]'')"

text \<open>\<open>PathBuf\<close> equality compares components: repeated and trailing separators and inner \<open>.\<close>
  components do not count, a leading \<open>.\<close> of a relative path does.\<close>

datatype path_component = RootDir | CurDir | ParentDir | NormalDir string

fun split_slash :: "string \<Rightarrow> string list" where
  "split_slash [] = [[]]"
| "split_slash (c # cs) =
     (case split_slash cs of
        [] \<Rightarrow> [[c]]
      | s # ss \<Rightarrow> if c = CHR ''/'' then [] # s # ss else (c # s) # ss)"

definition path_components :: "string \<Rightarrow> path_component list" where
  "path_components p =
     (let segs = split_slash p in
      (if p \<noteq> [] \<and> hd p = CHR ''/'' then [RootDir] else if hd segs = ''.'' then [CurDir] else [])
      @ map (\<lambda>s. if s = ''..'' then ParentDir else NormalDir s)
          (filter (\<lambda>s. s \<noteq> [] \<and> s \<noteq> ''.'') segs))"

definition path_eq :: "string \<Rightarrow> string \<Rightarrow> bool" where
  "path_eq p q \<longleftrightarrow> path_components p = path_components q"

text \<open>The nested loops over the pools and over the journal paths, with the first hit returned.\<close>

fun find_duplicate_pool :: "pool_config list \<Rightarrow> address option" where
  "find_duplicate_pool [] = None"
| "find_duplicate_pool (p # ps) =
     (if \<exists>q \<in> set ps. pc_address p = pc_address q then Some (pc_address p)
      else find_duplicate_pool ps)"

fun find_duplicate_path :: "(string \<times> string) list \<Rightarrow> (string \<times> string) option" where
  "find_duplicate_path [] = None"
| "find_duplicate_path ((a, pa) # rest) =
     (case find (\<lambda>(b, pb). path_eq pa pb) rest of
        Some (b, _) \<Rightarrow> Some (a, b)
      | None \<Rightarrow> find_duplicate_path rest)"

fun find_empty_endpoint :: "nat \<Rightarrow> relay_endpoint_config list \<Rightarrow> nat option" where
  "find_empty_endpoint i [] = None"
| "find_empty_endpoint i (e # es) =
     (if trim (endpoint e) = [] then Some i else find_empty_endpoint (Suc i) es)"

section \<open>\<open>Config::validate\<close>\<close>

definition validate_live_send :: "url_parser \<Rightarrow> config \<Rightarrow> config_error + unit" where
  "validate_live_send url c =
     (let r = relay c in
      if live_send r \<and> active_profile c \<noteq> Production then Inl LiveSendRequiresProductionProfile
      else if live_send r \<and> active_profile c = Production \<and> rc_key_backend r \<noteq> HsmKms
      then Inl LiveSendRequiresHsmKms
      else if live_send r \<and> \<not> allow_non_localhost_endpoint r \<and>
              (\<exists>ep \<in> set (enabled_relays r). \<not> is_localhost_endpoint url (endpoint ep))
      then Inl LiveSendRequiresLocalhostEndpoint
      else if active_profile c = Production \<and> rc_key_backend r \<noteq> HsmKms
      then Inl ProductionProfileRequiresHsmKms
      else if rc_key_backend r = HsmKms \<and> active_profile c \<noteq> Production
      then Inl HsmKmsRequiresProductionProfile
      else if rc_key_backend r = HsmKms \<and> trim (audit_key_id r) = []
      then Inl HsmKmsRequiresNonEmptyAuditKeyId
      else Inr ())"

definition checked_journal_paths :: "config \<Rightarrow> (string \<times> string) list" where
  "checked_journal_paths c =
     (let j = journal_cfg c in
      [(''file_journal_path'', file_journal_path j), (''ingress_journal_path'', ingress_journal_path j),
       (''state_journal_path'', state_journal_path j), (''mismatch_journal_path'', mismatch_journal_path j)])"

definition validate_journal_paths :: "config \<Rightarrow> config_error + unit" where
  "validate_journal_paths c =
     (case find (\<lambda>(f, p). p = []) (checked_journal_paths c) of
        Some (f, _) \<Rightarrow> Inl (EmptyJournalPath f)
      | None \<Rightarrow>
          (case find_duplicate_path (checked_journal_paths c) of
             Some (a, b) \<Rightarrow> Inl (DuplicateJournalPath a b)
           | None \<Rightarrow> Inr ()))"

definition validate_config :: "url_parser \<Rightarrow> config \<Rightarrow> config_error + unit" where
  "validate_config url c =
     (if fallback_rpc (node c) = [] then Inl MissingFallbackRpc
      else if trim (geth_ws_url (node c)) = [] then Inl (EmptyRequiredField ''node.geth_ws_url'')
      else if trim (geth_http_url (node c)) = [] then Inl (EmptyRequiredField ''node.geth_http_url'')
      else if bus_capacity (bus_cfg c) = 0 then Inl (InvalidBusCapacity 0)
      else if watched_addresses (ingress c) = [] then Inl EmptyWatchedAddresses
      else if weth (tokens (ingress c)) = usdc (tokens (ingress c)) then Inl DuplicateIngressTokens
      else if pools (state_cfg c) = [] then Inl EmptyStatePools
      else case find_duplicate_pool (pools (state_cfg c)) of
        Some a \<Rightarrow> Inl (DuplicatePoolAddress a)
      | None \<Rightarrow>
      bind_res (validate_live_send url c) (\<lambda>_.
      if prefetch_cache_capacity (simulator c) = 0 then Inl (InvalidCacheCapacity 0)
      else if prefetch_enabled (simulator c) \<and> archive_rpc (node c) = None
      then Inl PrefetchRequiresArchiveRpc
      else if length (enabled_relays (relay c)) > 1
      then Inl (TooManyEnabledRelays (length (enabled_relays (relay c))))
      else case find_empty_endpoint 0 (enabled_relays (relay c)) of
        Some i \<Rightarrow> Inl (EmptyRelayEndpoint i)
      | None \<Rightarrow> validate_journal_paths c))"

text \<open>\<open>load\<close> and \<open>from_toml_str\<close>: whatever the parser delivers is validated before it is returned.\<close>

definition load_config :: "url_parser \<Rightarrow> config_error + config \<Rightarrow> config_error + config" where
  "load_config url parsed =
     bind_res parsed (\<lambda>c. bind_res (validate_config url c) (\<lambda>_. Inr c))"

section \<open>What validation promises\<close>

definition paths_distinct :: "string list \<Rightarrow> bool" where
  "paths_distinct ps \<longleftrightarrow> (\<forall>i < length ps. \<forall>j < i. \<not> path_eq (ps ! i) (ps ! j)) \<and> [] \<notin> set ps"

definition live_send_safe :: "url_parser \<Rightarrow> config \<Rightarrow> bool" where
  "live_send_safe url c \<longleftrightarrow>
     (live_send (relay c) \<longrightarrow>
        active_profile c = Production \<and> rc_key_backend (relay c) = HsmKms \<and>
        trim (audit_key_id (relay c)) \<noteq> [] \<and>
        (allow_non_localhost_endpoint (relay c) \<or>
           (\<forall>ep \<in> set (enabled_relays (relay c)). is_localhost_endpoint url (endpoint ep))))"

definition signer_pairing :: "config \<Rightarrow> bool" where
  "signer_pairing c \<longleftrightarrow>
     (active_profile c = Production \<longleftrightarrow> rc_key_backend (relay c) = HsmKms) \<and>
     (rc_key_backend (relay c) = HsmKms \<longrightarrow> trim (audit_key_id (relay c)) \<noteq> [])"

definition config_ok :: "url_parser \<Rightarrow> config \<Rightarrow> bool" where
  "config_ok url c \<longleftrightarrow>
     fallback_rpc (node c) \<noteq> [] \<and> trim (geth_ws_url (node c)) \<noteq> [] \<and>
     trim (geth_http_url (node c)) \<noteq> [] \<and> bus_capacity (bus_cfg c) > 0 \<and>
     watched_addresses (ingress c) \<noteq> [] \<and> weth (tokens (ingress c)) \<noteq> usdc (tokens (ingress c)) \<and>
     pools (state_cfg c) \<noteq> [] \<and> distinct (map pc_address (pools (state_cfg c))) \<and>
     live_send_safe url c \<and> signer_pairing c \<and>
     prefetch_cache_capacity (simulator c) > 0 \<and>
     (prefetch_enabled (simulator c) \<longrightarrow> archive_rpc (node c) \<noteq> None) \<and>
     length (enabled_relays (relay c)) \<le> 1 \<and>
     (\<forall>ep \<in> set (enabled_relays (relay c)). trim (endpoint ep) \<noteq> []) \<and>
     paths_distinct (map snd (checked_journal_paths c))"

section \<open>Lemmas\<close>

lemma find_duplicate_pool_None:
  "find_duplicate_pool ps = None \<longleftrightarrow> distinct (map pc_address ps)"
  by (induction ps) auto

lemma find_empty_endpoint_None:
  "find_empty_endpoint i es = None \<longleftrightarrow> (\<forall>e \<in> set es. trim (endpoint e) \<noteq> [])"
  by (induction es arbitrary: i) auto

lemma path_eq_sym: "path_eq p q = path_eq q p"
  by (auto simp: path_eq_def)

lemma find_SomeD: "find P xs = Some x \<Longrightarrow> x \<in> set xs \<and> P x"
  by (induction xs) (auto split: if_splits)

lemma find_duplicate_path_None:
  "find_duplicate_path ps = None \<longleftrightarrow> sorted_wrt (\<lambda>x y. \<not> path_eq (snd x) (snd y)) ps"
  by (induction ps rule: find_duplicate_path.induct)
    (fastforce simp: find_None_iff dest: find_SomeD split: option.splits)+

lemma validate_journal_paths_ok:
  "validate_journal_paths c = Inr () \<longleftrightarrow> paths_distinct (map snd (checked_journal_paths c))"
proof -
  let ?ps = "checked_journal_paths c"
  have "validate_journal_paths c = Inr () \<longleftrightarrow>
      find (\<lambda>(f, p). p = []) ?ps = None \<and> find_duplicate_path ?ps = None"
    by (auto simp: validate_journal_paths_def split: option.splits)
  also have "find (\<lambda>(f, p). p = []) ?ps = None \<longleftrightarrow> [] \<notin> set (map snd ?ps)"
    by (force simp: find_None_iff)
  also have "find_duplicate_path ?ps = None \<longleftrightarrow>
      (\<forall>i < length (map snd ?ps). \<forall>j < i. \<not> path_eq (map snd ?ps ! i) (map snd ?ps ! j))"
    unfolding find_duplicate_path_None sorted_wrt_iff_nth_less
    by (auto simp: path_eq_sym) (metis path_eq_sym order.strict_trans)+
  finally show ?thesis by (auto simp: paths_distinct_def)
qed

lemma validate_live_send_ok:
  "validate_live_send url c = Inr () \<longleftrightarrow> live_send_safe url c \<and> signer_pairing c"
  by (auto simp: validate_live_send_def live_send_safe_def signer_pairing_def Let_def)

lemma validate_config_ok: "validate_config url c = Inr () \<longleftrightarrow> config_ok url c"
proof -
  have "validate_config url c = Inr () \<longleftrightarrow>
     fallback_rpc (node c) \<noteq> [] \<and> trim (geth_ws_url (node c)) \<noteq> [] \<and>
     trim (geth_http_url (node c)) \<noteq> [] \<and> bus_capacity (bus_cfg c) > 0 \<and>
     watched_addresses (ingress c) \<noteq> [] \<and> weth (tokens (ingress c)) \<noteq> usdc (tokens (ingress c)) \<and>
     pools (state_cfg c) \<noteq> [] \<and> find_duplicate_pool (pools (state_cfg c)) = None \<and>
     validate_live_send url c = Inr () \<and>
     prefetch_cache_capacity (simulator c) > 0 \<and>
     (prefetch_enabled (simulator c) \<longrightarrow> archive_rpc (node c) \<noteq> None) \<and>
     length (enabled_relays (relay c)) \<le> 1 \<and>
     find_empty_endpoint 0 (enabled_relays (relay c)) = None \<and>
     validate_journal_paths c = Inr ()"
    by (auto simp: validate_config_def bind_res_Inr_iff not_less split: option.split)
  then show ?thesis
    by (simp add: config_ok_def find_duplicate_pool_None validate_live_send_ok
        find_empty_endpoint_None validate_journal_paths_ok)
qed

section \<open>Properties\<close>


text \<open>The live-send gate.  A configuration that loads with \<open>live_send\<close> set runs the Production
  profile with the HSM/KMS signer and a non-blank audit key id, and unless the operator opted out
  every configured relay is a parseable URL on the local host; and no configuration that loads
  pairs a signer backend with the wrong profile.\<close>

theorem loaded_live_send_is_gated:
  assumes "load_config url parsed = Inr c" "live_send (relay c)"
  shows "active_profile c = Production \<and> rc_key_backend (relay c) = HsmKms \<and>
    (\<exists>ch \<in> set (audit_key_id (relay c)). \<not> is_ws ch) \<and>
    length (enabled_relays (relay c)) \<le> 1 \<and>
    (allow_non_localhost_endpoint (relay c) \<or>
      (\<forall>ep \<in> set (enabled_relays (relay c)).
         \<exists>host. url (trim (endpoint ep)) = Some (Some host) \<and>
           host \<in> {''127.0.0.1'', ''localhost'', ''::1'', ''[::1]''}))"
proof -
  have "config_ok url c"
    using assms(1) by (auto simp: load_config_def bind_res_Inr_iff validate_config_ok)
  then have "live_send_safe url c" "length (enabled_relays (relay c)) \<le> 1"
    by (simp_all add: config_ok_def)
  moreover have "\<exists>host. url (trim e) = Some (Some host) \<and>
      host \<in> {''127.0.0.1'', ''localhost'', ''::1'', ''[::1]''}" if "is_localhost_endpoint url e" for e
    using that by (auto simp: is_localhost_endpoint_def Let_def split: if_splits option.splits)
  ultimately show ?thesis
    using assms(2) by (simp add: live_send_safe_def trim_empty_iff) blast
qed

definition demo_url :: url_parser where
  "demo_url s = (if s = ''http://localhost:8545'' then Some (Some ''localhost'') else None)"

definition demo_config :: config where
  "demo_config =
     \<lparr>node = \<lparr>geth_ws_url = ''ws://a'', geth_http_url = ''http://a'',
        fallback_rpc = [\<lparr>fb_url = ''http://b'', fb_label = ''b''\<rparr>], archive_rpc = None\<rparr>,
      observability = \<lparr>prometheus_listen = ''127.0.0.1:9'', log_filter = ''info'', ob_log_format = Json\<rparr>,
      journal_cfg = \<lparr>file_journal_path = ''d/a'', rocksdb_snapshot_path = ''d/s'',
        ingress_journal_path = ''d/b'', state_journal_path = ''d/c'',
        mismatch_journal_path = ''d/e'', submission_journal_path = ''d/f''\<rparr>,
      bus_cfg = \<lparr>bus_capacity = 4\<rparr>,
      ingress = \<lparr>tokens = \<lparr>weth = 1, usdc = 2\<rparr>, watched_addresses = [3], mempool_source = GethWs,
        external_mempool_endpoint = None, external_mempool_api_key = None\<rparr>,
      state_cfg = \<lparr>pools = [\<lparr>pc_kind = UniswapV2, pc_address = 5\<rparr>, \<lparr>pc_kind = SushiswapV2, pc_address = 6\<rparr>]\<rparr>,
      relay = default_relay_config\<lparr>
        enabled_relays := [\<lparr>re_kind = Flashbots, endpoint = ''http://localhost:8545'', api_key = None\<rparr>],
        live_send := True, rc_key_backend := HsmKms, audit_key_id := ''k1''\<rparr>,
      simulator = default_simulator_config, active_profile = Production\<rparr>"

lemma demo_config_valid: "validate_config demo_url demo_config = Inr ()"
  by (simp add: validate_config_def demo_config_def trim_def is_ws_def Let_def validate_live_send_def
      default_relay_config_def is_localhost_endpoint_def demo_url_def default_simulator_config_def
      validate_journal_paths_def checked_journal_paths_def path_eq_def path_components_def)

theorem loaded_live_send_is_gated_witness:
  "\<exists>ch \<in> set (audit_key_id (relay demo_config)). \<not> is_ws ch"
  using loaded_live_send_is_gated[of demo_url "Inr demo_config" demo_config] demo_config_valid
  by (simp add: load_config_def demo_config_def)

text \<open>Journals of different record types never share a file: any two of the four checked
  journal paths of a configuration that loads name different paths (as \<open>PathBuf\<close> compares them),
  and the duplicate check over the pools rejects every repeated pool address.\<close>

theorem loaded_paths_and_pools_distinct:
  assumes "load_config url parsed = Inr c"
  shows "paths_distinct [file_journal_path (journal_cfg c), ingress_journal_path (journal_cfg c),
      state_journal_path (journal_cfg c), mismatch_journal_path (journal_cfg c)] \<and>
    distinct (map pc_address (pools (state_cfg c))) \<and> weth (tokens (ingress c)) \<noteq> usdc (tokens (ingress c))"
proof -
  have "config_ok url c"
    using assms by (auto simp: load_config_def bind_res_Inr_iff validate_config_ok)
  then show ?thesis by (simp add: config_ok_def checked_journal_paths_def Let_def)
qed

theorem loaded_paths_and_pools_distinct_witness:
  "distinct (map pc_address (pools (state_cfg demo_config)))"
  using loaded_paths_and_pools_distinct[of demo_url "Inr demo_config" demo_config] demo_config_valid
  by (simp add: load_config_def)

text \<open>The submission journal is not covered.  Take any configuration that validates and point
  \<open>submission_journal_path\<close> at the mismatch journal, or blank it: the result still validates, so two
  journals with different record types can be opened on one file, which the distinctness check is
  there to prevent.\<close>

theorem submission_journal_collision_accepted:
  assumes "validate_config url c = Inr ()"
  shows "validate_config url (c\<lparr>journal_cfg := (journal_cfg c)\<lparr>submission_journal_path :=
      mismatch_journal_path (journal_cfg c)\<rparr>\<rparr>) = Inr ()
    \<and> validate_config url (c\<lparr>journal_cfg := (journal_cfg c)\<lparr>submission_journal_path := []\<rparr>\<rparr>) = Inr ()"
  using assms
  by (simp add: validate_config_ok config_ok_def live_send_safe_def signer_pairing_def
      checked_journal_paths_def Let_def)

theorem submission_journal_collision_accepted_witness:
  "validate_config demo_url (demo_config\<lparr>journal_cfg := (journal_cfg demo_config)\<lparr>submission_journal_path :=
      mismatch_journal_path (journal_cfg demo_config)\<rparr>\<rparr>) = Inr ()"
  using submission_journal_collision_accepted[OF demo_config_valid] by blast

end
