(* ===== verification/Node.thy ===== *)
theory Node
  imports Config
begin

text \<open>
  The node provider of \<open>crates/node\<close>: the error classes and their classification, the HTTP calls
  with one retry and a fallback on transport failures only, the archive calls that never fall
  back, and the reconnecting subscription stream as a step relation.  The HTTP transport is a
  parameter: a record of operations on an arbitrary world \<open>'w\<close>.
\<close>

section \<open>Errors\<close>

datatype node_error =
    WsConnect string
  | Transport string
  | Rpc string
  | NodeDecode string
  | NodeClosed
  | ArchiveNotConfigured

text \<open>alloy's \<open>RpcError<TransportErrorKind>\<close>; every payload is its rendered text.\<close>

datatype rpc_error =
    ErrorResp string
  | DeserError string string
  | SerError string
  | NullResp
  | UnsupportedFeature string
  | LocalUsageError string
  | RpcTransport string

fun classify :: "rpc_error \<Rightarrow> node_error" where
  "classify (ErrorResp resp) = Rpc resp"
| "classify (DeserError err _) = NodeDecode err"
| "classify (SerError err) = NodeDecode err"
| "classify NullResp = NodeDecode ''server returned null when non-null expected''"
| "classify (UnsupportedFeature s) = Rpc (''unsupported feature: '' @ s)"
| "classify (LocalUsageError err) = Rpc (''local usage error: '' @ err)"
| "classify (RpcTransport kind) = Transport kind"

fun is_transport :: "node_error \<Rightarrow> bool" where
  "is_transport (Transport _) = True"
| "is_transport _ = False"

section \<open>Requests and the HTTP adapter\<close>

datatype block_id = HashId b256 | NumberId u64

record call_request =
  cr_to :: "address option"
  cr_input :: "bytes option"

text \<open>The private trait \<open>HttpRpc\<close>; transactions and proofs are opaque.\<close>

record ('w, 'tx, 'pf) http_rpc =
  hr_eth_call :: "call_request \<Rightarrow> 'w \<Rightarrow> (node_error + bytes) \<times> 'w"
  hr_eth_call_at_block :: "call_request \<Rightarrow> block_id \<Rightarrow> 'w \<Rightarrow> (node_error + bytes) \<times> 'w"
  hr_eth_get_transaction_by_hash :: "b256 \<Rightarrow> 'w \<Rightarrow> (node_error + 'tx option) \<times> 'w"
  hr_eth_get_proof :: "address \<Rightarrow> b256 list \<Rightarrow> block_id \<Rightarrow> 'w \<Rightarrow> (node_error + 'pf) \<times> 'w"
  hr_eth_get_storage_at :: "address \<Rightarrow> u256 \<Rightarrow> block_id \<Rightarrow> 'w \<Rightarrow> (node_error + b256) \<times> 'w"
  hr_eth_get_code :: "address \<Rightarrow> block_id \<Rightarrow> 'w \<Rightarrow> (node_error + bytes) \<times> 'w"

text \<open>alloy's provider, the code under \<open>AlloyHttp\<close>: the same calls with its own error type.\<close>

record ('w, 'tx, 'pf) root_provider =
  rp_call :: "call_request \<Rightarrow> block_id option \<Rightarrow> 'w \<Rightarrow> (rpc_error + bytes) \<times> 'w"
  rp_get_transaction_by_hash :: "b256 \<Rightarrow> 'w \<Rightarrow> (rpc_error + 'tx option) \<times> 'w"
  rp_get_proof :: "address \<Rightarrow> b256 list \<Rightarrow> block_id \<Rightarrow> 'w \<Rightarrow> (rpc_error + 'pf) \<times> 'w"
  rp_get_storage_at :: "address \<Rightarrow> u256 \<Rightarrow> block_id \<Rightarrow> 'w \<Rightarrow> (rpc_error + u256) \<times> 'w"
  rp_get_code_at :: "address \<Rightarrow> block_id \<Rightarrow> 'w \<Rightarrow> (rpc_error + bytes) \<times> 'w"

definition map_err_classify :: "(rpc_error + 'a) \<times> 'w \<Rightarrow> (node_error + 'a) \<times> 'w" where
  "map_err_classify r = map_prod (map_sum classify id) id r"

definition alloy_http :: "('w, 'tx, 'pf) root_provider \<Rightarrow> ('w, 'tx, 'pf) http_rpc" where
  "alloy_http p =
     \<lparr>hr_eth_call = (\<lambda>req w. map_err_classify (rp_call p req None w)),
      hr_eth_call_at_block = (\<lambda>req b w. map_err_classify (rp_call p req (Some b) w)),
      hr_eth_get_transaction_by_hash =
        (\<lambda>h w. map_err_classify (rp_get_transaction_by_hash p h w)),
      hr_eth_get_proof = (\<lambda>a slots b w. map_err_classify (rp_get_proof p a slots b w)),
      hr_eth_get_storage_at = (\<lambda>a s b w. map_err_classify (rp_get_storage_at p a s b w)),
      hr_eth_get_code = (\<lambda>a b w. map_err_classify (rp_get_code_at p a b w))\<rparr>"

section \<open>The provider\<close>

record ('w, 'tx, 'pf) node_provider =
  primary_http :: "('w, 'tx, 'pf) http_rpc"
  fallback_http :: "('w, 'tx, 'pf) http_rpc option"
  archive_http :: "('w, 'tx, 'pf) http_rpc option"
  ws_url :: string

definition parse_http_url :: "(string \<Rightarrow> string + 'u) \<Rightarrow> string \<Rightarrow> string \<Rightarrow> node_error + 'u" where
  "parse_http_url parse raw label =
     (case parse raw of
        Inl e \<Rightarrow> Inl (Transport (label @ '' HTTP URL parse: '' @ e))
      | Inr u \<Rightarrow> Inr u)"

definition connect ::
  "(string \<Rightarrow> string + 'u) \<Rightarrow> ('u \<Rightarrow> ('w, 'tx, 'pf) root_provider) \<Rightarrow> node_config
   \<Rightarrow> node_error + ('w, 'tx, 'pf) node_provider" where
  "connect parse on_http c =
     bind_res (parse_http_url parse (geth_http_url c) ''primary'') (\<lambda>primary_url.
     bind_res (case fallback_rpc c of
                 [] \<Rightarrow> Inr None
               | f # _ \<Rightarrow> bind_res (parse_http_url parse (fb_url f) ''fallback'')
                   (\<lambda>u. Inr (Some (alloy_http (on_http u))))) (\<lambda>fallback.
     bind_res (case archive_rpc c of
                 None \<Rightarrow> Inr None
               | Some a \<Rightarrow> bind_res (parse_http_url parse (fb_url a) ''archive'')
                   (\<lambda>u. Inr (Some (alloy_http (on_http u))))) (\<lambda>archive.
     Inr \<lparr>primary_http = alloy_http (on_http primary_url), fallback_http = fallback,
          archive_http = archive, ws_url = geth_ws_url c\<rparr>)))"

text \<open>The retry policy that the source writes out in each of the three calls: a transport failure
  is retried once on the primary, a second one goes to the fallback, if there is one.\<close>

definition with_fallback ::
  "('w \<Rightarrow> (node_error + 'r) \<times> 'w) \<Rightarrow> ('w \<Rightarrow> (node_error + 'r) \<times> 'w) option \<Rightarrow> 'w
   \<Rightarrow> (node_error + 'r) \<times> 'w" where
  "with_fallback primary fallback w =
     (case primary w of
        (Inl (Transport _), w1) \<Rightarrow>
          (case primary w1 of
             (Inl (Transport _), w2) \<Rightarrow>
               (case fallback of
                  Some fb \<Rightarrow> fb w2
                | None \<Rightarrow>
                    (Inl (Transport
                       ''primary transport failed (after retry); no fallback configured''), w2))
           | other \<Rightarrow> other)
      | other \<Rightarrow> other)"

definition eth_call ::
  "('w, 'tx, 'pf) node_provider \<Rightarrow> call_request \<Rightarrow> 'w \<Rightarrow> (node_error + bytes) \<times> 'w" where
  "eth_call np req w =
     with_fallback (hr_eth_call (primary_http np) req)
       (map_option (\<lambda>fb. hr_eth_call fb req) (fallback_http np)) w"

definition eth_call_at_block ::
  "('w, 'tx, 'pf) node_provider \<Rightarrow> call_request \<Rightarrow> block_id \<Rightarrow> 'w \<Rightarrow> (node_error + bytes) \<times> 'w" where
  "eth_call_at_block np req b w =
     with_fallback (hr_eth_call_at_block (primary_http np) req b)
       (map_option (\<lambda>fb. hr_eth_call_at_block fb req b) (fallback_http np)) w"

definition eth_get_transaction_by_hash ::
  "('w, 'tx, 'pf) node_provider \<Rightarrow> b256 \<Rightarrow> 'w \<Rightarrow> (node_error + 'tx option) \<times> 'w" where
  "eth_get_transaction_by_hash np h w =
     with_fallback (hr_eth_get_transaction_by_hash (primary_http np) h)
       (map_option (\<lambda>fb. hr_eth_get_transaction_by_hash fb h) (fallback_http np)) w"

definition eth_get_proof ::
  "('w, 'tx, 'pf) node_provider \<Rightarrow> address \<Rightarrow> b256 list \<Rightarrow> block_id \<Rightarrow> 'w \<Rightarrow> (node_error + 'pf) \<times> 'w" where
  "eth_get_proof np a slots b w =
     (case archive_http np of
        Some h \<Rightarrow> hr_eth_get_proof h a slots b w
      | None \<Rightarrow> (Inl ArchiveNotConfigured, w))"

definition eth_get_storage_at ::
  "('w, 'tx, 'pf) node_provider \<Rightarrow> address \<Rightarrow> u256 \<Rightarrow> block_id \<Rightarrow> 'w \<Rightarrow> (node_error + b256) \<times> 'w" where
  "eth_get_storage_at np a s b w =
     (case archive_http np of
        Some h \<Rightarrow> hr_eth_get_storage_at h a s b w
      | None \<Rightarrow> (Inl ArchiveNotConfigured, w))"

definition eth_get_code ::
  "('w, 'tx, 'pf) node_provider \<Rightarrow> address \<Rightarrow> block_id \<Rightarrow> 'w \<Rightarrow> (node_error + bytes) \<times> 'w" where
  "eth_get_code np a b w =
     (case archive_http np of
        Some h \<Rightarrow> hr_eth_get_code h a b w
      | None \<Rightarrow> (Inl ArchiveNotConfigured, w))"

section \<open>Backoff\<close>

text \<open>Delays in milliseconds.\<close>

definition backoff_delay :: "u32 \<Rightarrow> u64" where
  "backoff_delay retry_count =
     min (saturating_mul 1000 (saturating_pow 2 (unat (min retry_count 6)))) 60000"

section \<open>The reconnecting stream\<close>

text \<open>The background task of \<open>into_stream\<close>: it asks the factory for an inner stream, pumps its
  items into the unbounded channel, and starts over after a delay.  What the outside does is an
  event: the factory's answer, an item of the inner stream, its end, each with whether the
  consumer still holds the receiver.\<close>

datatype rc_phase = Connecting | Streaming | Stopped

datatype 't rc_event =
    FactoryFails node_error bool
  | FactoryOpens
  | InnerItem "node_error + 't" bool
  | InnerEnds

record 't reconnect =
  rc_phase :: rc_phase
  rc_attempt :: u32
  rc_sent :: "(node_error + 't) list"
  rc_slept :: "u64 list"

definition rc_init :: "'t reconnect" where
  "rc_init = \<lparr>rc_phase = Connecting, rc_attempt = 0, rc_sent = [], rc_slept = []\<rparr>"

definition rc_backoff :: "'t reconnect \<Rightarrow> 't reconnect" where
  "rc_backoff s = s\<lparr>rc_phase := Connecting, rc_slept := rc_slept s @ [backoff_delay (rc_attempt s)],
                    rc_attempt := saturating_add (rc_attempt s) 1\<rparr>"

inductive rc_step :: "'t reconnect \<Rightarrow> 't rc_event \<Rightarrow> 't reconnect \<Rightarrow> bool" where
  closed: "rc_phase s = Connecting \<Longrightarrow>
     rc_step s (FactoryFails NodeClosed alive) (s\<lparr>rc_phase := Stopped\<rparr>)"
| dropped_on_error: "rc_phase s = Connecting \<Longrightarrow> e \<noteq> NodeClosed \<Longrightarrow>
     rc_step s (FactoryFails e False) (s\<lparr>rc_phase := Stopped\<rparr>)"
| retry: "rc_phase s = Connecting \<Longrightarrow> e \<noteq> NodeClosed \<Longrightarrow>
     rc_step s (FactoryFails e True) (rc_backoff (s\<lparr>rc_sent := rc_sent s @ [Inl e]\<rparr>))"
| opened: "rc_phase s = Connecting \<Longrightarrow>
     rc_step s FactoryOpens (s\<lparr>rc_phase := Streaming, rc_attempt := 0\<rparr>)"
| item: "rc_phase s = Streaming \<Longrightarrow>
     rc_step s (InnerItem i True) (s\<lparr>rc_sent := rc_sent s @ [i]\<rparr>)"
| dropped_on_item: "rc_phase s = Streaming \<Longrightarrow>
     rc_step s (InnerItem i False) (s\<lparr>rc_phase := Stopped\<rparr>)"
| ended: "rc_phase s = Streaming \<Longrightarrow> rc_step s InnerEnds (rc_backoff s)"

inductive_cases rc_step_failsE: "rc_step s (FactoryFails e alive) s'"
inductive_cases rc_step_opensE: "rc_step s FactoryOpens s'"
inductive_cases rc_step_itemE: "rc_step s (InnerItem i alive) s'"
inductive_cases rc_step_endsE: "rc_step s InnerEnds s'"
inductive_simps rc_step_fails_iff: "rc_step s (FactoryFails e alive) s'"
inductive_simps rc_step_opens_iff: "rc_step s FactoryOpens s'"
inductive_simps rc_step_item_iff: "rc_step s (InnerItem i alive) s'"
inductive_simps rc_step_ends_iff: "rc_step s InnerEnds s'"

lemmas rc_step_iffs = rc_step_fails_iff rc_step_opens_iff rc_step_item_iff rc_step_ends_iff

inductive rc_run :: "'t reconnect \<Rightarrow> 't rc_event list \<Rightarrow> 't reconnect \<Rightarrow> bool" where
  rc_done: "rc_run s [] s"
| rc_more: "rc_run s es s1 \<Longrightarrow> rc_step s1 e s2 \<Longrightarrow> rc_run s (es @ [e]) s2"




section \<open>Which endpoint answers\<close>

text \<open>To speak of the calls an operation makes, each endpoint is wrapped so that it also records
  that it was called.\<close>

datatype endpoint_kind = PrimaryEp | FallbackEp | ArchiveEp

definition record_call ::
  "endpoint_kind \<Rightarrow> ('w \<Rightarrow> 'r \<times> 'w) \<Rightarrow> 'w \<times> endpoint_kind list \<Rightarrow> 'r \<times> ('w \<times> endpoint_kind list)" where
  "record_call e f wl = (let (r, w) = f (fst wl) in (r, (w, snd wl @ [e])))"

definition recording ::
  "endpoint_kind \<Rightarrow> ('w, 'tx, 'pf) http_rpc \<Rightarrow> ('w \<times> endpoint_kind list, 'tx, 'pf) http_rpc" where
  "recording e h =
     \<lparr>hr_eth_call = (\<lambda>req. record_call e (hr_eth_call h req)),
      hr_eth_call_at_block = (\<lambda>req b. record_call e (hr_eth_call_at_block h req b)),
      hr_eth_get_transaction_by_hash = (\<lambda>x. record_call e (hr_eth_get_transaction_by_hash h x)),
      hr_eth_get_proof = (\<lambda>a sl b. record_call e (hr_eth_get_proof h a sl b)),
      hr_eth_get_storage_at = (\<lambda>a s b. record_call e (hr_eth_get_storage_at h a s b)),
      hr_eth_get_code = (\<lambda>a b. record_call e (hr_eth_get_code h a b))\<rparr>"

definition recording_provider ::
  "('w, 'tx, 'pf) node_provider \<Rightarrow> ('w \<times> endpoint_kind list, 'tx, 'pf) node_provider" where
  "recording_provider np =
     \<lparr>primary_http = recording PrimaryEp (primary_http np),
      fallback_http = map_option (recording FallbackEp) (fallback_http np),
      archive_http = map_option (recording ArchiveEp) (archive_http np),
      ws_url = ws_url np\<rparr>"

fun transport_reply :: "node_error + 'r \<Rightarrow> bool" where
  "transport_reply (Inl e) = is_transport e"
| "transport_reply (Inr _) = False"

text \<open>What the retry policy promises of a call: its answer is the one of the unobserved call, the
  fallback is asked exactly after two transport failures, a first answer that is not a transport
  failure is final, and the archive is never asked.\<close>

definition fails_over ::
  "('w \<Rightarrow> (node_error + 'r) \<times> 'w) \<Rightarrow> bool \<Rightarrow> (node_error + 'r) \<times> 'w
   \<Rightarrow> (node_error + 'r) \<times> ('w \<times> endpoint_kind list) \<Rightarrow> 'w \<Rightarrow> bool" where
  "fails_over primary has_fallback plain observed w \<longleftrightarrow>
     (let first = fst (primary w); second = fst (primary (snd (primary w)));
          calls = snd (snd observed)
      in fst observed = fst plain \<and> fst (snd observed) = snd plain \<and>
         calls \<in> {[PrimaryEp], [PrimaryEp, PrimaryEp], [PrimaryEp, PrimaryEp, FallbackEp]} \<and>
         (calls = [PrimaryEp] \<longleftrightarrow> \<not> transport_reply first) \<and>
         (FallbackEp \<in> set calls \<longleftrightarrow>
            transport_reply first \<and> transport_reply second \<and> has_fallback) \<and>
         (\<not> transport_reply first \<longrightarrow> fst plain = first) \<and>
         (transport_reply first \<and> \<not> transport_reply second \<longrightarrow> fst plain = second))"

section \<open>Lemmas\<close>

lemmas node_ops_defs = eth_call_def eth_call_at_block_def eth_get_transaction_by_hash_def
  eth_get_proof_def eth_get_storage_at_def eth_get_code_def

lemma record_call_trace: "snd (snd (record_call e f (w, l))) = l @ [e]"
  by (simp add: record_call_def split: prod.splits)

lemma record_call_simp: "f w = (r, w') \<Longrightarrow> record_call e f (w, l) = (r, (w', l @ [e]))"
  by (simp add: record_call_def)

lemma is_transport_iff: "is_transport e \<longleftrightarrow> (\<exists>m. e = Transport m)"
  by (cases e) simp_all

lemma transport_reply_iff: "transport_reply r \<longleftrightarrow> (\<exists>m. r = Inl (Transport m))"
  by (cases r) (simp_all add: is_transport_iff)

lemma with_fallback_final:
  "primary w = (r, w1) \<Longrightarrow> \<not> transport_reply r \<Longrightarrow> with_fallback primary fb w = (r, w1)"
  by (auto simp: with_fallback_def transport_reply_iff split: sum.splits node_error.splits)

lemma with_fallback_retried:
  "primary w = (Inl (Transport m), w1) \<Longrightarrow> primary w1 = (r, w2) \<Longrightarrow> \<not> transport_reply r
   \<Longrightarrow> with_fallback primary fb w = (r, w2)"
  by (auto simp: with_fallback_def transport_reply_iff split: sum.splits node_error.splits)

lemma with_fallback_failed_over:
  "primary w = (Inl (Transport m), w1) \<Longrightarrow> primary w1 = (Inl (Transport m'), w2)
   \<Longrightarrow> with_fallback primary fb w =
     (case fb of Some f \<Rightarrow> f w2
      | None \<Rightarrow> (Inl (Transport ''primary transport failed (after retry); no fallback configured''), w2))"
  by (simp add: with_fallback_def)

lemmas with_fallback_cases =
  with_fallback_final with_fallback_retried with_fallback_failed_over

lemma with_fallback_fails_over:
  "fails_over primary (fb \<noteq> None) (with_fallback primary fb w)
     (with_fallback (record_call PrimaryEp primary) (map_option (record_call FallbackEp) fb) (w, [])) w"
proof -
  obtain r1 w1 where 1: "primary w = (r1, w1)" by fastforce
  obtain r2 w2 where 2: "primary w1 = (r2, w2)" by fastforce
  note obs1 = record_call_simp[of primary, OF 1, of PrimaryEp "[]"]
  note obs2 = record_call_simp[of primary, OF 2, of PrimaryEp "[PrimaryEp]"]
  show ?thesis
  proof (cases "transport_reply r1")
    case False
    then show ?thesis
      using 1 obs1 by (simp add: fails_over_def Let_def with_fallback_final)
  next
    case True
    then obtain m where m: "r1 = Inl (Transport m)" by (auto simp: transport_reply_iff)
    show ?thesis
    proof (cases "transport_reply r2")
      case False
      then show ?thesis
        using 1 2 m obs1 obs2 by (simp add: fails_over_def Let_def with_fallback_retried)
    next
      case True
      then obtain m' where m': "r2 = Inl (Transport m')" by (auto simp: transport_reply_iff)
      show ?thesis
      proof (cases fb)
        case None
        then show ?thesis
          using 1 2 m m' obs1 obs2 by (simp add: fails_over_def Let_def with_fallback_failed_over)
      next
        case (Some f)
        obtain r3 w3 where 3: "f w2 = (r3, w3)" by fastforce
        then show ?thesis
          using 1 2 m m' obs1 obs2 Some record_call_simp[of f, OF 3, of FallbackEp "[PrimaryEp, PrimaryEp]"]
          by (simp add: fails_over_def Let_def with_fallback_failed_over)
      qed
    qed
  qed
qed

lemma recording_fields [simp]:
  "hr_eth_call (recording e h) req = record_call e (hr_eth_call h req)"
  "hr_eth_call_at_block (recording e h) req b = record_call e (hr_eth_call_at_block h req b)"
  "hr_eth_get_transaction_by_hash (recording e h) x =
     record_call e (hr_eth_get_transaction_by_hash h x)"
  "hr_eth_get_proof (recording e h) a sl b = record_call e (hr_eth_get_proof h a sl b)"
  "hr_eth_get_storage_at (recording e h) a s b = record_call e (hr_eth_get_storage_at h a s b)"
  "hr_eth_get_code (recording e h) a b = record_call e (hr_eth_get_code h a b)"
  by (simp_all add: recording_def)

lemma recording_provider_fields [simp]:
  "primary_http (recording_provider np) = recording PrimaryEp (primary_http np)"
  "fallback_http (recording_provider np) = map_option (recording FallbackEp) (fallback_http np)"
  "archive_http (recording_provider np) = map_option (recording ArchiveEp) (archive_http np)"
  by (simp_all add: recording_provider_def)

text \<open>C25: the three HTTP calls of the node provider ask the fallback endpoint exactly when the
  primary failed twice in a row for transport reasons and a fallback is configured; every other
  answer (a result, a JSON-RPC error, a decode error) of the primary is final, at most three calls
  are made, and the archive endpoint is never involved.  The archive calls ask the archive endpoint
  once and nothing else, and answer \<open>ArchiveNotConfigured\<close> without any call when there is none.\<close>

theorem node_calls_fail_over_only_on_transport:
  "fails_over (hr_eth_call (primary_http np) req) (fallback_http np \<noteq> None)
     (eth_call np req w) (eth_call (recording_provider np) req (w, [])) w \<and>
   fails_over (hr_eth_call_at_block (primary_http np) req b) (fallback_http np \<noteq> None)
     (eth_call_at_block np req b w) (eth_call_at_block (recording_provider np) req b (w, [])) w \<and>
   fails_over (hr_eth_get_transaction_by_hash (primary_http np) h) (fallback_http np \<noteq> None)
     (eth_get_transaction_by_hash np h w)
     (eth_get_transaction_by_hash (recording_provider np) h (w, [])) w \<and>
   snd (snd (eth_get_proof (recording_provider np) a slots b (w, []))) =
     (if archive_http np = None then [] else [ArchiveEp]) \<and>
   snd (snd (eth_get_storage_at (recording_provider np) a s b (w, []))) =
     (if archive_http np = None then [] else [ArchiveEp]) \<and>
   snd (snd (eth_get_code (recording_provider np) a b (w, []))) =
     (if archive_http np = None then [] else [ArchiveEp]) \<and>
   eth_get_proof (np\<lparr>archive_http := None\<rparr>) a slots b w = (Inl ArchiveNotConfigured, w) \<and>
   eth_get_storage_at (np\<lparr>archive_http := None\<rparr>) a s b w = (Inl ArchiveNotConfigured, w) \<and>
   eth_get_code (np\<lparr>archive_http := None\<rparr>) a b w = (Inl ArchiveNotConfigured, w)"
  using with_fallback_fails_over[of "hr_eth_call (primary_http np) req"
      "map_option (\<lambda>fb. hr_eth_call fb req) (fallback_http np)" w]
    with_fallback_fails_over[of "hr_eth_call_at_block (primary_http np) req b"
      "map_option (\<lambda>fb. hr_eth_call_at_block fb req b) (fallback_http np)" w]
    with_fallback_fails_over[of "hr_eth_get_transaction_by_hash (primary_http np) h"
      "map_option (\<lambda>fb. hr_eth_get_transaction_by_hash fb h) (fallback_http np)" w]
  by (simp add: node_ops_defs option.map_comp comp_def record_call_trace split: option.splits)

section \<open>Backoff and reconnection\<close>

lemma unat_backoff_delay: "unat (backoff_delay n) = min (1000 * 2 ^ min (unat n) 6) 60000"
proof -
  have pow: "unat (saturating_pow (2::u64) (min (unat n) 6)) = 2 ^ min (unat n) 6"
  proof -
    have "(2::nat) ^ min (unat n) 6 \<le> 2 ^ 6" by (rule power_increasing) simp_all
    then show ?thesis by (simp add: unat_saturating_pow)
  qed
  moreover have "(2::nat) ^ min (unat n) 6 \<le> 2 ^ 6" by (rule power_increasing) simp_all
  ultimately show ?thesis
    by (simp add: backoff_delay_def unat_min_word unat_saturating_mul)
qed

text \<open>the reconnection delay doubles from one second and stays at one minute, with no wrap
  anywhere, however many attempts were made.\<close>

theorem backoff_doubles_to_a_minute:
  "unat (backoff_delay n) = min (1000 * 2 ^ unat n) 60000"
proof (cases "unat n \<le> 6")
  case True
  then show ?thesis by (simp add: unat_backoff_delay)
next
  case False
  then have "(2::nat) ^ 6 \<le> 2 ^ unat n" by (intro power_increasing) simp_all
  with False show ?thesis by (simp add: unat_backoff_delay)
qed


text \<open>What the consumer must have seen after a run: the errors of the factory and the items of the
  inner streams, in the order in which they happened.\<close>

fun forwarded :: "'t rc_event \<Rightarrow> (node_error + 't) list" where
  "forwarded (FactoryFails e alive) = (if alive \<and> e \<noteq> NodeClosed then [Inl e] else [])"
| "forwarded FactoryOpens = []"
| "forwarded (InnerItem i alive) = (if alive then [i] else [])"
| "forwarded InnerEnds = []"

fun ends_stream :: "'t rc_event \<Rightarrow> bool" where
  "ends_stream (FactoryFails e alive) \<longleftrightarrow> e = NodeClosed \<or> \<not> alive"
| "ends_stream FactoryOpens \<longleftrightarrow> False"
| "ends_stream (InnerItem i alive) \<longleftrightarrow> \<not> alive"
| "ends_stream InnerEnds \<longleftrightarrow> False"

text \<open>The attempt number before each delay: it starts over with every stream that opens.\<close>

fun next_attempt :: "u32 \<Rightarrow> 't rc_event \<Rightarrow> u32" where
  "next_attempt n (FactoryFails e alive) =
     (if e = NodeClosed \<or> \<not> alive then n else saturating_add n 1)"
| "next_attempt n FactoryOpens = 0"
| "next_attempt n (InnerItem i alive) = n"
| "next_attempt n InnerEnds = saturating_add n 1"

fun delays_from :: "u32 \<Rightarrow> 't rc_event list \<Rightarrow> u64 list" where
  "delays_from n [] = []"
| "delays_from n (e # es) =
     (case e of
        FactoryFails err alive \<Rightarrow> (if err = NodeClosed \<or> \<not> alive then [] else [backoff_delay n])
      | InnerEnds \<Rightarrow> [backoff_delay n]
      | _ \<Rightarrow> []) @ delays_from (next_attempt n e) es"

lemma delays_from_snoc:
  "delays_from n (es @ [e]) = delays_from n es @ delays_from (foldl next_attempt n es) [e]"
  by (induction es arbitrary: n) simp_all

lemma rc_step_effect:
  assumes "rc_step s e s'"
  shows "rc_phase s \<noteq> Stopped" "rc_sent s' = rc_sent s @ forwarded e"
    "rc_slept s' = rc_slept s @ delays_from (rc_attempt s) [e]"
    "rc_attempt s' = next_attempt (rc_attempt s) e"
    "rc_phase s' = Stopped \<longleftrightarrow> ends_stream e"
  using assms by (cases; simp add: rc_backoff_def)+

lemma rc_run_effect:
  assumes "rc_run s es s'" "rc_phase s \<noteq> Stopped"
  shows "rc_sent s' = rc_sent s @ concat (map forwarded es) \<and>
    rc_attempt s' = foldl next_attempt (rc_attempt s) es \<and>
    rc_slept s' = rc_slept s @ delays_from (rc_attempt s) es \<and>
    (rc_phase s' = Stopped \<longleftrightarrow> (\<exists>e \<in> set es. ends_stream e))"
  using assms
proof (induction)
  case (rc_more s es s1 e s2)
  note step = rc_step_effect[OF rc_more.hyps(2)]
  from rc_more step(1) show ?case
    by (simp only: step delays_from_snoc foldl_append) auto
qed simp

lemma rc_live:
  assumes "rc_phase s \<noteq> Stopped"
  shows "(rc_phase s = Connecting \<and> (\<exists>s'. rc_step s FactoryOpens s') \<and>
            (\<forall>e alive. \<exists>s'. rc_step s (FactoryFails e alive) s')) \<or>
         (rc_phase s = Streaming \<and> (\<exists>s'. rc_step s InnerEnds s') \<and>
            (\<forall>i alive. \<exists>s'. rc_step s (InnerItem i alive) s'))"
proof (cases "rc_phase s")
  case Connecting
  have "\<exists>s'. rc_step s (FactoryFails e alive) s'" for e alive
    by (cases alive; cases "e = NodeClosed")
      (simp_all add: rc_step_fails_iff Connecting)
  with Connecting show ?thesis by (simp add: rc_step_opens_iff)
next
  case Streaming
  have "\<exists>s'. rc_step s (InnerItem i alive) s'" for i alive
    by (cases alive) (simp_all add: rc_step_item_iff Streaming)
  with Streaming show ?thesis by (simp add: rc_step_ends_iff)
qed (use assms in simp)

text \<open>the reconnecting stream loses and reorders nothing: after any run of the background task
  the consumer has been sent exactly the factory's errors and the inner streams' items, in order;
  the task has slept exactly the back-off delay of every failed attempt and every ended stream, the
  count starting over whenever a stream opens; it has stopped exactly when the factory answered
  \<open>Closed\<close> or the consumer went away, and until then it can take a step whatever the outside does.\<close>

theorem reconnect_stream_faithful:
  assumes "rc_run rc_init es s"
  shows "rc_sent s = concat (map forwarded es) \<and> rc_slept s = delays_from 0 es \<and>
    (rc_phase s = Stopped \<longleftrightarrow> (\<exists>e \<in> set es. ends_stream e)) \<and>
    (rc_phase s = Connecting \<longrightarrow> (\<exists>s'. rc_step s FactoryOpens s') \<and>
       (\<forall>e alive. \<exists>s'. rc_step s (FactoryFails e alive) s')) \<and>
    (rc_phase s = Streaming \<longrightarrow> (\<exists>s'. rc_step s InnerEnds s') \<and>
       (\<forall>i alive. \<exists>s'. rc_step s (InnerItem i alive) s'))"
  using rc_run_effect[OF assms] rc_live[of s] by (simp add: rc_init_def) auto

lemma rc_demo_run:
  "rc_run rc_init [FactoryFails (Rpc ''x'') True, FactoryOpens, InnerItem (Inr (7::nat)) True, InnerEnds]
     \<lparr>rc_phase = Connecting, rc_attempt = 1, rc_sent = [Inl (Rpc ''x''), Inr 7],
      rc_slept = [1000, 1000]\<rparr>"
proof -
  let ?s1 = "\<lparr>rc_phase = Connecting, rc_attempt = 1, rc_sent = [Inl (Rpc ''x'')], rc_slept = [1000]\<rparr>"
  let ?s2 = "?s1\<lparr>rc_phase := Streaming, rc_attempt := 0\<rparr>"
  let ?s3 = "?s2\<lparr>rc_sent := [Inl (Rpc ''x''), Inr (7::nat)]\<rparr>"
  have b0: "backoff_delay 0 = 1000" by (simp add: word_unat_eq_iff unat_backoff_delay)
  have a: "saturating_add 0 (1::u32) = 1" by (simp add: saturating_add_def)
  have "rc_run rc_init ([] @ [FactoryFails (Rpc ''x'') True]) ?s1"
    by (rule rc_more[OF rc_done])
      (simp add: rc_step_fails_iff rc_init_def rc_backoff_def b0 a)
  then have "rc_run rc_init (([] @ [FactoryFails (Rpc ''x'') True]) @ [FactoryOpens]) ?s2"
    by (rule rc_more) (simp add: rc_step_opens_iff)
  then have "rc_run rc_init ((([] @ [FactoryFails (Rpc ''x'') True]) @ [FactoryOpens]) @ [InnerItem (Inr 7) True]) ?s3"
    by (rule rc_more) (simp add: rc_step_item_iff)
  from rc_more[OF this, of InnerEnds "rc_backoff ?s3"] show ?thesis
    by (simp add: rc_step_ends_iff rc_backoff_def b0 a)
qed

lemma reconnect_stream_faithful_witness:
  "concat (map forwarded [FactoryFails (Rpc ''x'') True, FactoryOpens, InnerItem (Inr (7::nat)) True, InnerEnds])
     = [Inl (Rpc ''x''), Inr 7] \<and>
   delays_from 0 [FactoryFails (Rpc ''x'') True, FactoryOpens, InnerItem (Inr (7::nat)) True, InnerEnds]
     = [1000, 1000]"
  using reconnect_stream_faithful[OF rc_demo_run] by simp

end
