(* ===== verification/Ingress.thy ===== *)
theory Ingress
  imports Node
begin

text \<open>
  The mempool ingress of \<open>crates/ingress/src/lib.rs\<close>: the event types, the external source that is
  closed by design, and the pipeline from announced hashes over the dedup cache, the fetch of the
  full transaction and the address filter to normalized events.  The LRU cache of the \<open>lru\<close> crate is
  a parameter with the contract \<open>lru_cache\<close>; the fetch runs in a world \<open>'w\<close>, which also has the clock.
\<close>

section \<open>Types\<close>

definition DEDUP_CAPACITY :: nat where "DEDUP_CAPACITY = 4096"

text \<open>What the code reads of an alloy \<open>Transaction\<close>.\<close>

record pending_tx =
  pt_hash :: b256
  pt_from :: address
  pt_to :: "address option"
  pt_value :: u256
  pt_input :: bytes
  pt_gas_limit :: u64
  pt_max_fee_per_gas :: u128

record mempool_event =
  me_tx_hash :: b256
  me_from :: address
  me_to :: "address option"
  me_value :: u256
  me_input :: bytes
  me_gas_limit :: u64
  me_max_fee :: u128
  me_observed_at_ns :: u64

record block_event =
  be_block_number :: u64
  be_block_hash :: b256
  be_parent_hash :: b256
  be_timestamp_ns :: u64

datatype ingress_event = Mempool mempool_event | Block block_event

datatype ingress_error =
    IngressNode node_error
  | IngressDecode string
  | IngressClosed
  | ExternalNotConfigured

section \<open>Sources\<close>

text \<open>A source is the list of items its stream yields before it ends.\<close>

record external_mempool_source =
  ems_endpoint :: "string option"
  ems_api_key :: "string option"

definition external_new :: "string option \<Rightarrow> string option \<Rightarrow> external_mempool_source" where
  "external_new ep key = \<lparr>ems_endpoint = ep, ems_api_key = key\<rparr>"

definition external_stream :: "external_mempool_source \<Rightarrow> (ingress_error + mempool_event) list" where
  "external_stream s = [Inl ExternalNotConfigured]"

fun programmable_clone :: "ingress_error + mempool_event \<Rightarrow> ingress_error + mempool_event" where
  "programmable_clone (Inr ev) = Inr ev"
| "programmable_clone (Inl ExternalNotConfigured) = Inl ExternalNotConfigured"
| "programmable_clone (Inl IngressClosed) = Inl IngressClosed"
| "programmable_clone (Inl (IngressDecode s)) = Inl (IngressDecode s)"
| "programmable_clone (Inl (IngressNode e)) =
     Inl (IngressDecode ''programmable: Node errors not cloneable'')"

definition programmable_stream ::
  "(ingress_error + mempool_event) list \<Rightarrow> (ingress_error + mempool_event) list" where
  "programmable_stream items = map programmable_clone items"

section \<open>The filter\<close>

definition normalizer_filter ::
  "nat option \<Rightarrow> pending_tx \<Rightarrow> address list \<Rightarrow> mempool_event option" where
  "normalizer_filter unix_ns t watched =
     (case pt_to t of
        None \<Rightarrow> None
      | Some to \<Rightarrow>
          if to \<notin> set watched then None
          else Some \<lparr>me_tx_hash = pt_hash t, me_from = pt_from t, me_to = Some to,
                     me_value = pt_value t, me_input = pt_input t, me_gas_limit = pt_gas_limit t,
                     me_max_fee = pt_max_fee_per_gas t,
                     me_observed_at_ns = (case unix_ns of Some ns \<Rightarrow> word_of_nat ns | None \<Rightarrow> 0)\<rparr>)"

section \<open>The pipeline\<close>

record 'c lru_ops =
  lru_new :: "nat \<Rightarrow> 'c"
  lru_put :: "b256 \<Rightarrow> 'c \<Rightarrow> bool \<times> 'c"

record 'w mempool_env =
  mp_fetch :: "b256 \<Rightarrow> 'w \<Rightarrow> (node_error + pending_tx option) \<times> 'w"
  mp_unix_ns :: "'w \<Rightarrow> nat option"

record ('c, 'w) mempool_task =
  mt_cache :: 'c
  mt_world :: 'w
  mt_sent :: "(ingress_error + mempool_event) list"
  mt_stopped :: bool

text \<open>An item of the hash stream, with whether the receiver is still held when the task would send.\<close>

type_synonym hash_item = "(node_error + b256) \<times> bool"

definition task_init :: "'c lru_ops \<Rightarrow> 'w \<Rightarrow> ('c, 'w) mempool_task" where
  "task_init ops w =
     \<lparr>mt_cache = lru_new ops DEDUP_CAPACITY, mt_world = w, mt_sent = [], mt_stopped = False\<rparr>"

text \<open>\<open>unbounded_send\<close>, returning from the task when it fails; and the send before a return.\<close>

definition send_or_stop ::
  "bool \<Rightarrow> ingress_error + mempool_event \<Rightarrow> ('c, 'w) mempool_task \<Rightarrow> ('c, 'w) mempool_task" where
  "send_or_stop alive x s =
     (if alive then s\<lparr>mt_sent := mt_sent s @ [x]\<rparr> else s\<lparr>mt_stopped := True\<rparr>)"

definition send_and_stop ::
  "bool \<Rightarrow> ingress_error + mempool_event \<Rightarrow> ('c, 'w) mempool_task \<Rightarrow> ('c, 'w) mempool_task" where
  "send_and_stop alive x s =
     (if alive then s\<lparr>mt_sent := mt_sent s @ [x], mt_stopped := True\<rparr> else s\<lparr>mt_stopped := True\<rparr>)"

definition mempool_step ::
  "'c lru_ops \<Rightarrow> 'w mempool_env \<Rightarrow> address list \<Rightarrow> hash_item \<Rightarrow> ('c, 'w) mempool_task
   \<Rightarrow> ('c, 'w) mempool_task" where
  "mempool_step ops env watched it s =
     (if mt_stopped s then s
      else case it of
        (Inl NodeClosed, alive) \<Rightarrow> send_and_stop alive (Inl IngressClosed) s
      | (Inl e, alive) \<Rightarrow> send_or_stop alive (Inl (IngressNode e)) s
      | (Inr h, alive) \<Rightarrow>
          (case lru_put ops h (mt_cache s) of
             (seen, c) \<Rightarrow>
               if seen then s\<lparr>mt_cache := c\<rparr>
               else case mp_fetch env h (mt_world s) of
                 (r, w) \<Rightarrow>
                   (let s = s\<lparr>mt_cache := c, mt_world := w\<rparr> in
                    case r of
                      Inr (Some t) \<Rightarrow>
                        (case normalizer_filter (mp_unix_ns env w) t watched of
                           Some ev \<Rightarrow> send_or_stop alive (Inr ev) s
                         | None \<Rightarrow> s)
                    | Inr None \<Rightarrow> s
                    | Inl NodeClosed \<Rightarrow> send_and_stop alive (Inl IngressClosed) s
                    | Inl e \<Rightarrow> send_or_stop alive (Inl (IngressNode e)) s)))"

definition build_mempool_stream ::
  "'c lru_ops \<Rightarrow> 'w mempool_env \<Rightarrow> address list \<Rightarrow> hash_item list \<Rightarrow> ('c, 'w) mempool_task
   \<Rightarrow> ('c, 'w) mempool_task" where
  "build_mempool_stream ops env watched items s = fold (mempool_step ops env watched) items s"

text \<open>\<open>GethWsMempool\<close>: the fetch is the provider's lookup by hash.\<close>

definition geth_env ::
  "('w, pending_tx, 'pf) node_provider \<Rightarrow> ('w \<Rightarrow> nat option) \<Rightarrow> 'w mempool_env" where
  "geth_env np unix_ns = \<lparr>mp_fetch = eth_get_transaction_by_hash np, mp_unix_ns = unix_ns\<rparr>"

section \<open>The cache contract\<close>

text \<open>The keys, most recently used first; \<open>put\<close> tells whether the key was there, moves it to the
  front and drops what exceeds the capacity.\<close>

locale lru_cache =
  fixes ops :: "'c lru_ops" and keys :: "'c \<Rightarrow> b256 list" and cap :: nat
  assumes new_empty: "keys (lru_new ops cap) = []"
    and put_seen: "lru_put ops k c = (seen, c') \<Longrightarrow> seen \<longleftrightarrow> k \<in> set (keys c)"
    and put_keys: "lru_put ops k c = (seen, c') \<Longrightarrow> keys c' = take cap (k # removeAll k (keys c))"

definition recent :: "b256 \<Rightarrow> b256 set \<Rightarrow> b256 list \<Rightarrow> bool" where
  "recent h newer ks \<longleftrightarrow> (\<exists>xs ys. ks = xs @ h # ys \<and> distinct xs \<and> set xs \<subseteq> newer)"

lemma recent_mem: "recent h newer ks \<Longrightarrow> h \<in> set ks"
  by (auto simp: recent_def)

lemma recent_mono: "recent h A ks \<Longrightarrow> A \<subseteq> B \<Longrightarrow> recent h B ks"
  unfolding recent_def by blast

lemma recent_put:
  assumes r: "recent h newer ks" and fin: "finite newer" and k: "k \<noteq> h \<Longrightarrow> k \<in> newer"
    and small: "card newer < cap"
  shows "recent h newer (take cap (k # removeAll k ks))"
proof (cases "k = h")
  case True
  obtain n where n: "cap = Suc n" using small by (cases cap) auto
  show ?thesis unfolding recent_def True n
    by (intro exI[of _ "[]"] exI[of _ "take n (removeAll h ks)"]) simp
next
  case False
  obtain xs ys where xs: "ks = xs @ h # ys" "distinct xs" "set xs \<subseteq> newer"
    using r by (auto simp: recent_def)
  let ?xs = "k # removeAll k xs"
  have d: "distinct ?xs" "set ?xs \<subseteq> newer" using xs k[OF False] by (auto simp: distinct_removeAll)
  have "length ?xs = card (set ?xs)" using d(1) by (metis distinct_card)
  also have "\<dots> \<le> card newer" by (rule card_mono[OF fin d(2)])
  finally have len: "length ?xs < cap" using small by simp
  have "k # removeAll k ks = ?xs @ h # removeAll k ys" using xs(1) False by simp
  then have "take cap (k # removeAll k ks) = ?xs @ h # take (cap - length ?xs - 1) (removeAll k ys)"
    using len by (simp add: take_Cons')
  then show ?thesis unfolding recent_def using d by blast
qed

context lru_cache
begin

lemma put_then_recent:
  assumes "lru_put ops h c = (seen, c')" "0 < cap"
  shows "recent h {} (keys c')"
proof -
  obtain n where n: "cap = Suc n" using assms(2) by (cases cap) auto
  show ?thesis unfolding recent_def put_keys[OF assms(1)] n
    by (intro exI[of _ "[]"] exI[of _ "take n (removeAll h (keys c))"]) simp
qed

lemma put_recent:
  assumes "recent h newer (keys c)" "finite newer" "k \<noteq> h \<Longrightarrow> k \<in> newer" "card newer < cap"
    and "lru_put ops k c = (seen, c')"
  shows "recent h newer (keys c')"
  using recent_put[OF assms(1-4)] put_keys[OF assms(5)] by simp

end

text \<open>An instance: the list of keys itself.\<close>

definition list_lru :: "nat \<Rightarrow> b256 list lru_ops" where
  "list_lru cap =
     \<lparr>lru_new = (\<lambda>_. []), lru_put = (\<lambda>k ks. (k \<in> set ks, take cap (k # removeAll k ks)))\<rparr>"

interpretation list_lru: lru_cache "list_lru cap" "\<lambda>ks. ks" cap for cap
  by unfold_locales (simp_all add: list_lru_def)

section \<open>Lemmas on the task\<close>

lemmas send_defs = send_or_stop_def send_and_stop_def

lemma send_cache [simp]:
  "mt_cache (send_or_stop a x s) = mt_cache s" "mt_cache (send_and_stop a x s) = mt_cache s"
  "mt_world (send_or_stop a x s) = mt_world s" "mt_world (send_and_stop a x s) = mt_world s"
  by (simp_all add: send_defs)

lemma step_cache:
  assumes "\<not> mt_stopped s"
  shows "mt_cache (mempool_step ops env watched it s) =
    (case fst it of Inl _ \<Rightarrow> mt_cache s | Inr h \<Rightarrow> snd (lru_put ops h (mt_cache s)))"
  using assms
  by (auto simp: mempool_step_def Let_def split: prod.split sum.split node_error.split option.split)

lemma step_stopped: "mt_stopped s \<Longrightarrow> mempool_step ops env watched it s = s"
  by (simp add: mempool_step_def)

lemma run_stopped: "mt_stopped s \<Longrightarrow> build_mempool_stream ops env watched items s = s"
  unfolding build_mempool_stream_def by (induction items) (simp_all add: step_stopped)

lemma filter_watched:
  "normalizer_filter now t watched = Some ev \<Longrightarrow>
    \<exists>to \<in> set watched. me_to ev = Some to \<and> pt_to t = Some to \<and> me_tx_hash ev = pt_hash t"
  by (auto simp: normalizer_filter_def split: option.splits if_splits)

definition only_watched :: "address list \<Rightarrow> (ingress_error + mempool_event) list \<Rightarrow> bool" where
  "only_watched watched xs \<longleftrightarrow> (\<forall>ev. Inr ev \<in> set xs \<longrightarrow> (\<exists>to \<in> set watched. me_to ev = Some to))"

lemma step_sent:
  "\<exists>new. mt_sent (mempool_step ops env watched it s) = mt_sent s @ new \<and> length new \<le> 1
    \<and> only_watched watched new"
proof -
  have send: "\<exists>new. mt_sent (send_or_stop a x s') = mt_sent s' @ new \<and> length new \<le> 1 \<and> set new \<subseteq> {x}"
    "\<exists>new. mt_sent (send_and_stop a x s') = mt_sent s' @ new \<and> length new \<le> 1 \<and> set new \<subseteq> {x}"
    for a x and s' :: "('a, 'b) mempool_task"
    by (auto simp: send_defs)
  have err: "set new \<subseteq> {Inl e} \<Longrightarrow> only_watched watched new" for new e
    by (auto simp: only_watched_def)
  have ev: "normalizer_filter now t watched = Some e \<Longrightarrow> set new \<subseteq> {Inr e} \<Longrightarrow> only_watched watched new"
    for now t e new
    using filter_watched by (fastforce simp: only_watched_def)
  have none: "only_watched watched []" by (simp add: only_watched_def)
  obtain x alive where it: "it = (x, alive)" by (meson surj_pair)
  show ?thesis
  proof (cases "mt_stopped s")
    case True
    then show ?thesis using none by (intro exI[of _ "[]"]) (simp add: step_stopped)
  next
    case live: False
    show ?thesis
    proof (cases x)
      case (Inl e)
      show ?thesis
        using live send[of alive _ s] err unfolding it Inl
        by (cases e) (simp_all add: mempool_step_def, (meson)+)
    next
      case (Inr h)
      obtain seen c where put: "lru_put ops h (mt_cache s) = (seen, c)" by (meson surj_pair)
      obtain r w where fetch: "mp_fetch env h (mt_world s) = (r, w)" by (meson surj_pair)
      let ?s = "s\<lparr>mt_cache := c, mt_world := w\<rparr>"
      have sent: "mt_sent ?s = mt_sent s" by simp
      have keep: "?thesis" if "mt_sent (mempool_step ops env watched it s) = mt_sent s"
        using that none by (intro exI[of _ "[]"]) simp
      show ?thesis
      proof (cases seen)
        case True
        then show ?thesis using live put it Inr by (intro keep) (simp add: mempool_step_def)
      next
        case unseen: False
        show ?thesis
        proof (cases r)
          case (Inl e)
          have step: "mempool_step ops env watched it s =
              (case e of NodeClosed \<Rightarrow> send_and_stop alive (Inl IngressClosed) ?s
               | _ \<Rightarrow> send_or_stop alive (Inl (IngressNode e)) ?s)"
            using live put fetch unseen
            by (cases e) (simp_all add: mempool_step_def it \<open>x = Inr h\<close> Inl)
          show ?thesis
            using send[of alive _ ?s] err unfolding step sent by (cases e) (simp_all, (meson)+)
        next
          case (Inr res)
          show ?thesis
          proof (cases "\<exists>t ev. res = Some t \<and> normalizer_filter (mp_unix_ns env w) t watched = Some ev")
            case True
            then obtain t ev' where t: "res = Some t" "normalizer_filter (mp_unix_ns env w) t watched = Some ev'"
              by blast
            have step: "mempool_step ops env watched it s = send_or_stop alive (Inr ev') ?s"
              using live put fetch unseen t by (simp add: mempool_step_def it \<open>x = Inr h\<close> Inr)
            show ?thesis using send(1)[of alive "Inr ev'" ?s] ev[OF t(2)] unfolding step sent by meson
          next
            case False
            then show ?thesis
              using live put fetch unseen
              by (intro keep)
                (auto simp: mempool_step_def it \<open>x = Inr h\<close> Inr Let_def split: option.split)
          qed
        qed
      qed
    qed
  qed
qed


definition announced :: "hash_item list \<Rightarrow> b256 set" where
  "announced items = {h. Inr h \<in> set (map fst items)}"

lemma finite_announced [simp]: "finite (announced items)"
proof -
  have "announced items \<subseteq> projr ` set (map fst items)"
    unfolding announced_def by (metis image_eqI mem_Collect_eq subsetI sum.sel(2))
  then show ?thesis by (rule finite_subset) simp
qed

lemma run_Cons:
  "build_mempool_stream ops env watched (it # items) s =
     build_mempool_stream ops env watched items (mempool_step ops env watched it s)"
  by (simp add: build_mempool_stream_def)

lemma announced_Cons: "announced (it # items) = (case fst it of Inr h \<Rightarrow> {h} | Inl _ \<Rightarrow> {}) \<union> announced items"
  by (auto simp: announced_def split: sum.split)

context lru_cache
begin

lemma run_recent:
  assumes "recent h newer (keys (mt_cache s))" "finite newer" "announced items \<subseteq> insert h newer"
    and "card newer < cap"
  shows "recent h newer (keys (mt_cache (build_mempool_stream ops env watched items s)))"
  using assms(1,3)
proof (induction items arbitrary: s)
  case (Cons it items)
  have sub: "announced items \<subseteq> insert h newer" using Cons.prems(2) by (simp add: announced_Cons)
  have "recent h newer (keys (mt_cache (mempool_step ops env watched it s)))"
  proof (cases "mt_stopped s")
    case True
    then show ?thesis using Cons.prems(1) by (simp add: step_stopped)
  next
    case live: False
    show ?thesis
    proof (cases "fst it")
      case (Inl e)
      then show ?thesis using Cons.prems(1) by (simp add: step_cache[OF live])
    next
      case (Inr k)
      obtain seen c where put: "lru_put ops k (mt_cache s) = (seen, c)" by (meson surj_pair)
      have "k \<noteq> h \<Longrightarrow> k \<in> newer" using Cons.prems(2) Inr by (auto simp: announced_Cons)
      from put_recent[OF Cons.prems(1) assms(2) this assms(4) put] show ?thesis
        by (simp add: step_cache[OF live] Inr put)
    qed
  qed
  from Cons.IH[OF this sub] show ?case by (simp add: run_Cons)
qed (simp add: build_mempool_stream_def)

lemma known_hash_ignored:
  assumes "recent h newer (keys (mt_cache s))"
  shows "mt_sent (mempool_step ops env watched (Inr h, alive) s) = mt_sent s \<and>
    mt_world (mempool_step ops env watched (Inr h, alive) s) = mt_world s"
proof -
  obtain seen c where put: "lru_put ops h (mt_cache s) = (seen, c)" by (meson surj_pair)
  then have "seen" using put_seen recent_mem[OF assms] by blast
  with put show ?thesis by (simp add: mempool_step_def)
qed

end

section \<open>Properties\<close>

text \<open>C30: deduplication.  Once a hash was announced, it is ignored as long as fewer than 4096 other
  hashes (a hash counts once, however often it comes) were announced since: nothing is fetched for it
  and nothing is sent, whatever the node answered before.\<close>

theorem mempool_deduplicates:
  assumes "lru_cache ops keys DEDUP_CAPACITY" "\<not> mt_stopped s"
    and "card (announced items - {h}) < DEDUP_CAPACITY"
    and "s' = build_mempool_stream ops env watched ((Inr h, alive) # items) s"
  shows "mt_sent (mempool_step ops env watched (Inr h, alive') s') = mt_sent s' \<and>
    mt_world (mempool_step ops env watched (Inr h, alive') s') = mt_world s'"
proof -
  obtain seen c where put: "lru_put ops h (mt_cache s) = (seen, c)" by (meson surj_pair)
  have cap: "0 < DEDUP_CAPACITY" by (simp add: DEDUP_CAPACITY_def)
  have "recent h (announced items - {h}) (keys c)"
    by (rule recent_mono[OF lru_cache.put_then_recent[OF assms(1) put cap]]) simp
  then have "recent h (announced items - {h}) (keys (mt_cache (mempool_step ops env watched (Inr h, alive) s)))"
    by (simp add: step_cache[OF assms(2)] put)
  from lru_cache.run_recent[OF assms(1) this _ _ assms(3), of items]
  have "recent h (announced items - {h}) (keys (mt_cache s'))"
    by (simp add: assms(4) run_Cons subset_insert_iff)
  from lru_cache.known_hash_ignored[OF assms(1) this] show ?thesis .
qed

definition demo_env :: "nat mempool_env" where
  "demo_env =
     \<lparr>mp_fetch = (\<lambda>h n. (Inr (Some \<lparr>pt_hash = h, pt_from = 1, pt_to = Some 2, pt_value = 3, pt_input = [],
        pt_gas_limit = 4, pt_max_fee_per_gas = 5\<rparr>), Suc n)), mp_unix_ns = (\<lambda>_. Some 6)\<rparr>"

lemma mempool_deduplicates_witness:
  "mt_world (build_mempool_stream (list_lru DEDUP_CAPACITY) demo_env [2]
     [(Inr 7, True), (Inr 8, True), (Inr 7, True)] (task_init (list_lru DEDUP_CAPACITY) 0)) = 2"
proof -
  have a: "announced [(Inr 8, True)] - {7} = {8}" by (auto simp: announced_def)
  have "mt_world (mempool_step (list_lru DEDUP_CAPACITY) demo_env [2] (Inr 7, True)
      (build_mempool_stream (list_lru DEDUP_CAPACITY) demo_env [2] [(Inr 7, True), (Inr 8, True)]
         (task_init (list_lru DEDUP_CAPACITY) 0)))
    = mt_world (build_mempool_stream (list_lru DEDUP_CAPACITY) demo_env [2] [(Inr 7, True), (Inr 8, True)]
         (task_init (list_lru DEDUP_CAPACITY) 0))"
    using mempool_deduplicates[OF list_lru.lru_cache_axioms, of "task_init (list_lru DEDUP_CAPACITY) 0"
        "[(Inr 8, True)]" 7 _ demo_env "[2]" True True] a
    by (simp add: DEDUP_CAPACITY_def task_init_def)
  also have "\<dots> = 2"
    by (simp add: build_mempool_stream_def mempool_step_def task_init_def list_lru_def demo_env_def
        DEDUP_CAPACITY_def normalizer_filter_def send_or_stop_def)
  finally show ?thesis by (simp add: build_mempool_stream_def)
qed

text \<open>only transactions to a watched address ever leave the ingress, one event for at most every
  announcement, also when fetches fail; and the external source yields its one error and nothing
  else, whatever its credentials.\<close>

theorem mempool_emits_only_watched:
  "only_watched watched (mt_sent (build_mempool_stream ops env watched items (task_init ops w))) \<and>
   length (mt_sent (build_mempool_stream ops env watched items (task_init ops w))) \<le> length items \<and>
   external_stream (external_new ep key) = [Inl ExternalNotConfigured]"
proof -
  have "\<exists>new. mt_sent (build_mempool_stream ops env watched items s) = mt_sent s @ new \<and>
      length new \<le> length items \<and> only_watched watched new" for s
  proof (induction items arbitrary: s)
    case Nil
    then show ?case by (simp add: build_mempool_stream_def only_watched_def)
  next
    case (Cons it items)
    obtain a where a: "mt_sent (mempool_step ops env watched it s) = mt_sent s @ a" "length a \<le> 1"
      "only_watched watched a" using step_sent by blast
    obtain b where b: "mt_sent (build_mempool_stream ops env watched items (mempool_step ops env watched it s))
        = mt_sent (mempool_step ops env watched it s) @ b" "length b \<le> length items" "only_watched watched b"
      using Cons.IH by blast
    show ?case
      using a b by (intro exI[of _ "a @ b"]) (auto simp: run_Cons only_watched_def)
  qed
  from this[of "task_init ops w"] show ?thesis
    by (simp add: task_init_def external_stream_def)
qed

end
