(* ===== verification/State_Types.thy ===== *)
theory State_Types
  imports Config Journal
begin

text \<open>
  The data the state engine, the opportunity engine and the simulator exchange
  (\<open>crates/state/src/lib.rs\<close>): pool identities, pool snapshots and state-update events.
\<close>

record pool_id =
  pid_kind :: pool_kind
  pid_address :: address

definition pool_id_from :: "pool_config \<Rightarrow> pool_id" where
  "pool_id_from c = \<lparr>pid_kind = pc_kind c, pid_address = pc_address c\<rparr>"

text \<open>\<open>tick\<close> is an \<open>i32\<close>: a 32-bit word read with \<open>sint\<close>.\<close>

datatype pool_state =
    UniV2 (reserve0: u256) (reserve1: u256) (block_timestamp_last: u32)
  | UniV3 (sqrt_price_x96: u256) (tick: u32) (liquidity: u128)

record state_update_event =
  su_block_number :: u64
  su_block_hash :: b256
  su_pool :: pool_id
  su_state :: pool_state

end
