(* ===== verification/State_Decode.thy ===== *)
theory State_Decode
  imports State_Types Node
begin

text \<open>
  The hand-written ABI decoders of \<open>crates/state/src/decode.rs\<close>: 32-byte big-endian words,
  unsigned values padded with zeros, the signed 24-bit tick sign-extended.  A padding violation is
  an error, never a wrong value.  The rendered message of a decode error is kept as its parts.
\<close>

datatype decode_error =
    TooShort string nat nat
  | UintPadding string nat
  | MalformedSignExtension u8 u8

datatype state_error =
    NodeErr node_error
  | DecodeErr decode_error
  | SnapshotErr journal_error
  | UnknownPool address

definition validate_uint_padding :: "bytes \<Rightarrow> nat \<Rightarrow> nat \<Rightarrow> string \<Rightarrow> state_error + unit" where
  "validate_uint_padding bs word_offset high_zero_count label =
     (if \<exists>b \<in> set (take high_zero_count (drop word_offset bs)). b \<noteq> 0
      then Inl (DecodeErr (UintPadding label high_zero_count)) else Inr ())"

definition decode_get_reserves :: "bytes \<Rightarrow> state_error + pool_state" where
  "decode_get_reserves bs =
     (if length bs < 96 then Inl (DecodeErr (TooShort ''getReserves'' 96 (length bs)))
      else
        bind_res (validate_uint_padding bs 0 14 ''getReserves.reserve0'') (\<lambda>_.
        let r0 = u256_from_be (take 32 bs) in
        bind_res (validate_uint_padding bs 32 14 ''getReserves.reserve1'') (\<lambda>_.
        let r1 = u256_from_be (take 32 (drop 32 bs)) in
        bind_res (validate_uint_padding bs 64 28 ''getReserves.blockTimestampLast'') (\<lambda>_.
        let ts = word_of_nat (be_to_nat (take 4 (drop 92 bs))) in
        Inr (UniV2 r0 r1 ts)))))"

definition decode_slot0 :: "bytes \<Rightarrow> state_error + (u256 \<times> u32)" where
  "decode_slot0 bs =
     (if length bs < 64 then Inl (DecodeErr (TooShort ''slot0'' 64 (length bs)))
      else
        bind_res (validate_uint_padding bs 0 12 ''slot0.sqrtPriceX96'') (\<lambda>_.
        let sqrt_price = u256_from_be (take 32 bs);
            tick_word = take 32 (drop 32 bs);
            low3 = take 3 (drop 29 tick_word);
            is_negative = (low3 ! 0) AND 0x80 \<noteq> 0;
            expected_pad = (if is_negative then 0xff else 0x00)
        in if \<not> (\<forall>b \<in> set (take 29 tick_word). b = expected_pad)
           then Inl (DecodeErr (MalformedSignExtension (low3 ! 0) expected_pad))
           else Inr (sqrt_price,
                     word_of_nat (be_to_nat [expected_pad, low3 ! 0, low3 ! 1, low3 ! 2]))))"

definition decode_liquidity :: "bytes \<Rightarrow> state_error + u128" where
  "decode_liquidity bs =
     (if length bs < 32 then Inl (DecodeErr (TooShort ''liquidity'' 32 (length bs)))
      else bind_res (validate_uint_padding bs 0 16 ''liquidity'') (\<lambda>_.
           Inr (word_of_nat (be_to_nat (take 16 (drop 16 bs))))))"

section \<open>Big-endian chunks\<close>

lemma be_to_nat_append: "be_to_nat (xs @ ys) = be_to_nat xs * 256 ^ length ys + be_to_nat ys"
proof (induction ys rule: rev_induct)
  case (snoc y ys)
  then show ?case by (simp add: be_to_nat_def algebra_simps)
qed (simp add: be_to_nat_def)

lemma be_to_nat_Nil [simp]: "be_to_nat [] = 0"
  by (simp add: be_to_nat_def)

lemma be_to_nat_single: "be_to_nat [b] = unat b"
  by (simp add: be_to_nat_def)

lemma be_to_nat_Cons: "be_to_nat (b # bs) = unat b * 256 ^ length bs + be_to_nat bs"
  using be_to_nat_append[of "[b]" bs] by (simp add: be_to_nat_single)

lemma be_to_nat_zero_iff: "be_to_nat xs = 0 \<longleftrightarrow> (\<forall>b \<in> set xs. b = 0)"
  by (induction xs) (auto simp: be_to_nat_Cons unat_eq_0)

lemma be_to_nat_max_iff: "be_to_nat xs = 256 ^ length xs - 1 \<longleftrightarrow> (\<forall>b \<in> set xs. b = 0xff)"
proof (induction xs)
  case (Cons b bs)
  have ub: "unat b < 256" using unat_lt_exp[of b] by simp
  note bs = be_to_nat_bound[of bs]
  have "be_to_nat (b # bs) = 256 ^ length (b # bs) - 1
    \<longleftrightarrow> unat b = 255 \<and> be_to_nat bs = 256 ^ length bs - 1"
  proof
    assume eq: "be_to_nat (b # bs) = 256 ^ length (b # bs) - 1"
    have "be_to_nat (b # bs) + 1 = 256 * 256 ^ length bs"
      using eq by simp
    then have e: "unat b * 256 ^ length bs + (be_to_nat bs + 1) = 256 * 256 ^ length bs"
      by (simp add: be_to_nat_Cons)
    have "unat b \<ge> 255"
    proof (rule ccontr)
      assume "\<not> unat b \<ge> 255"
      then have "unat b * 256 ^ length bs \<le> 254 * 256 ^ length bs" by (intro mult_right_mono) auto
      then show False using e bs by linarith
    qed
    then have "unat b = 255" using ub by simp
    with e show "unat b = 255 \<and> be_to_nat bs = 256 ^ length bs - 1" by simp
  next
    assume "unat b = 255 \<and> be_to_nat bs = 256 ^ length bs - 1"
    moreover have "(1::nat) \<le> 256 ^ length bs" by simp
    ultimately show "be_to_nat (b # bs) = 256 ^ length (b # bs) - 1"
      by (simp add: be_to_nat_Cons)
  qed
  moreover have "unat b = 255 \<longleftrightarrow> b = 0xff" by (auto simp: word_unat_eq_iff)
  ultimately show ?case using Cons.IH by auto
qed simp

text \<open>A chunk whose first \<open>k\<close> bytes are zero is a number below \<open>256 ^ (n - k)\<close>.\<close>

lemma zero_padding_iff:
  assumes "k \<le> length c"
  shows "(\<forall>b \<in> set (take k c). b = 0) \<longleftrightarrow> be_to_nat c < 256 ^ (length c - k)"
proof -
  have split: "be_to_nat c = be_to_nat (take k c) * 256 ^ (length c - k) + be_to_nat (drop k c)"
    using be_to_nat_append[of "take k c" "drop k c"] by simp
  have low: "be_to_nat (drop k c) < 256 ^ (length c - k)"
    using be_to_nat_bound[of "drop k c"] by simp
  show ?thesis
  proof
    assume "\<forall>b \<in> set (take k c). b = 0"
    then have "be_to_nat (take k c) = 0" by (simp add: be_to_nat_zero_iff)
    with split low show "be_to_nat c < 256 ^ (length c - k)" by simp
  next
    assume lt: "be_to_nat c < 256 ^ (length c - k)"
    have "be_to_nat (take k c) = 0"
    proof (rule ccontr)
      assume "be_to_nat (take k c) \<noteq> 0"
      then have "1 * 256 ^ (length c - k) \<le> be_to_nat (take k c) * 256 ^ (length c - k)"
        by (intro mult_right_mono) auto
      with split lt show False by simp
    qed
    then show "\<forall>b \<in> set (take k c). b = 0" by (simp add: be_to_nat_zero_iff)
  qed
qed

lemma zero_padded_value:
  assumes "k \<le> length c" "be_to_nat c < 256 ^ (length c - k)"
  shows "be_to_nat (drop k c) = be_to_nat c"
proof -
  have "be_to_nat (take k c) = 0"
    using zero_padding_iff[OF assms(1)] assms(2) by (simp add: be_to_nat_zero_iff)
  then show ?thesis using be_to_nat_append[of "take k c" "drop k c"] by simp
qed

lemma unat_u256_from_be: "length c = 32 \<Longrightarrow> unat (u256_from_be c) = be_to_nat c"
  using be_to_nat_bound[of c]
  by (simp add: u256_from_be_def unsigned_of_nat take_bit_nat_eq_self)

lemma u256_to_from_be: "length c = 32 \<Longrightarrow> u256_to_be (u256_from_be c) = c"
  by (simp add: u256_to_be_def unat_u256_from_be nat_to_be_be_to_nat)

lemma u256_to_be_eq_iff: "length c = 32 \<Longrightarrow> c = u256_to_be w \<longleftrightarrow> u256_from_be c = w"
  using u256_to_from_be by force

lemma be_to_nat_u256_to_be: "be_to_nat (u256_to_be w) = unat w"
  using unat_u256_from_be[of "u256_to_be w"] by simp


section \<open>The decoders accept exactly the ABI encodings\<close>

text \<open>The three words of a reply, and a narrow unsigned value in a word.\<close>

abbreviation abi_u32 :: "u32 \<Rightarrow> bytes" where "abi_u32 t \<equiv> u256_to_be (ucast t)"
abbreviation abi_u128 :: "u128 \<Rightarrow> bytes" where "abi_u128 t \<equiv> u256_to_be (ucast t)"
abbreviation abi_i24 :: "u32 \<Rightarrow> bytes" where "abi_i24 t \<equiv> u256_to_be (word_of_int (sint t))"

definition fits_i24 :: "u32 \<Rightarrow> bool" where
  "fits_i24 t \<longleftrightarrow> - (2 ^ 23) \<le> sint t \<and> sint t < 2 ^ 23"

lemma validate_padding_iff:
  assumes "length c = 32" "c = take 32 (drop off bs)" "k \<le> 32"
  shows "validate_uint_padding bs off k label =
    (if unat (u256_from_be c) < 256 ^ (32 - k) then Inr ()
     else Inl (DecodeErr (UintPadding label k)))"
proof -
  have "take k (drop off bs) = take k c" using assms by (simp add: min_def)
  with zero_padding_iff[of k c] assms(1,3) show ?thesis
    by (auto simp: validate_uint_padding_def unat_u256_from_be)
qed

lemma narrow_value:
  assumes "length c = 32" "k \<le> 32" "unat (u256_from_be c) < 256 ^ (32 - k)"
  shows "be_to_nat (drop k c) = unat (u256_from_be c)"
  using assms zero_padded_value[of k c] by (simp add: unat_u256_from_be)

lemma ucast_narrow_iff:
  fixes w :: u256 and t :: "'a::len word"
  assumes "LENGTH('a) < 256"
  shows "w = ucast t \<longleftrightarrow> unat w < 2 ^ LENGTH('a) \<and> t = word_of_nat (unat w)"
proof -
  have t: "unat t < 2 ^ LENGTH('a)" by (rule unat_lt_exp)
  also have "\<dots> \<le> 2 ^ 256" using assms by (intro power_increasing) simp_all
  finally have u: "unat (ucast t :: u256) = unat t"
    by (simp add: unsigned_ucast_eq take_bit_nat_eq_self)
  show ?thesis
  proof
    assume "w = ucast t"
    then have "unat w = unat t" using u by simp
    with t show "unat w < 2 ^ LENGTH('a) \<and> t = word_of_nat (unat w)" by simp
  next
    assume a: "unat w < 2 ^ LENGTH('a) \<and> t = word_of_nat (unat w)"
    then have "unat t = unat w" by (simp add: unsigned_ucast_eq take_bit_nat_eq_self)
    with u show "w = ucast t" by (simp add: word_unat_eq_iff)
  qed
qed

lemma chunk_lengths:
  assumes "32 * n \<le> length bs" "k < n"
  shows "length (take 32 (drop (32 * k) bs)) = 32"
proof -
  have "32 * k + 32 \<le> 32 * n" using assms(2) by simp
  then show ?thesis using assms(1) by simp
qed

lemma take_two_chunks: "take 64 bs = take 32 bs @ take 32 (drop 32 bs)"
  using take_add[of 32 32 bs] by simp

lemma take_three_chunks: "take 96 bs = take 32 bs @ take 32 (drop 32 bs) @ take 32 (drop 64 bs)"
  using take_add[of 64 32 bs] by (simp add: take_two_chunks)

lemma bind_guard_iff:
  "bind_res (if P then Inr u else Inl e) f = Inr s \<longleftrightarrow> P \<and> f u = Inr s"
  by simp

lemma decode_get_reserves_iff:
  "decode_get_reserves bs = Inr s \<longleftrightarrow>
     96 \<le> length bs \<and>
     (\<exists>r0 r1 ts. s = UniV2 r0 r1 ts \<and> unat r0 < 2 ^ 144 \<and> unat r1 < 2 ^ 144 \<and>
        take 96 bs = u256_to_be r0 @ u256_to_be r1 @ abi_u32 ts)"
proof (cases "96 \<le> length bs")
  case True
  define c0 c1 c2 where "c0 = take 32 bs" and "c1 = take 32 (drop 32 bs)" and "c2 = take 32 (drop 64 bs)"
  note cs = c0_def c1_def c2_def
  have len: "length c0 = 32" "length c1 = 32" "length c2 = 32" using True by (simp_all add: cs)
  define w0 w1 w2 where "w0 = u256_from_be c0" and "w1 = u256_from_be c1" and "w2 = u256_from_be c2"
  note ws = w0_def w1_def w2_def
  have ts: "take 4 (drop 92 bs) = drop 28 c2" by (simp add: cs drop_take)
  have pads:
    "validate_uint_padding bs 0 14 l = (if unat w0 < 256 ^ 18 then Inr () else Inl (DecodeErr (UintPadding l 14)))"
    "validate_uint_padding bs 32 14 l = (if unat w1 < 256 ^ 18 then Inr () else Inl (DecodeErr (UintPadding l 14)))"
    "validate_uint_padding bs 64 28 l = (if unat w2 < 256 ^ 4 then Inr () else Inl (DecodeErr (UintPadding l 28)))"
    for l
    using validate_padding_iff[OF len(1), of 0 bs 14 l] validate_padding_iff[OF len(2), of 32 bs 14 l]
      validate_padding_iff[OF len(3), of 64 bs 28 l] by (simp_all add: cs ws)
  have dec: "decode_get_reserves bs = Inr s \<longleftrightarrow>
      unat w0 < 256 ^ 18 \<and> unat w1 < 256 ^ 18 \<and> unat w2 < 256 ^ 4 \<and>
      s = UniV2 w0 w1 (word_of_nat (be_to_nat (drop 28 c2)))"
  proof -
    have nb: "\<not> length bs < 96" using True by simp
    note folds = w0_def[unfolded c0_def, symmetric] w1_def[unfolded c1_def, symmetric]
    show ?thesis
      by (simp only: decode_get_reserves_def nb if_False pads ts Let_def bind_guard_iff folds sum.inject
          eq_commute[of s])
  qed
  have val: "unat w2 < 256 ^ 4 \<Longrightarrow> be_to_nat (drop 28 c2) = unat w2"
    using narrow_value[OF len(3), of 28] by (simp add: ws)
  have enc: "take 96 bs = u256_to_be r0 @ u256_to_be r1 @ abi_u32 t \<longleftrightarrow>
      w0 = r0 \<and> w1 = r1 \<and> w2 = ucast t" for r0 r1 t
    by (simp add: take_three_chunks len u256_to_be_eq_iff ws flip: cs)
  show ?thesis
  proof -
    have p: "(256::nat) ^ 18 = 2 ^ 144" "(256::nat) ^ 4 = 2 ^ LENGTH(32)" by simp_all
    have key: "unat w2 < 2 ^ LENGTH(32) \<and> s = UniV2 w0 w1 (word_of_nat (be_to_nat (drop 28 c2))) \<longleftrightarrow>
        (\<exists>t :: u32. w2 = ucast t \<and> s = UniV2 w0 w1 t)"
      unfolding ucast_narrow_iff[of w2, where 'a=32, simplified] using val[unfolded p] by auto
    show ?thesis
      unfolding dec enc p key using True by blast
  qed
qed (simp add: decode_get_reserves_def)

lemma decode_liquidity_iff:
  "decode_liquidity bs = Inr l \<longleftrightarrow> 32 \<le> length bs \<and> take 32 bs = abi_u128 l"
proof (cases "32 \<le> length bs")
  case True
  define c where "c = take 32 bs"
  have len: "length c = 32" using True by (simp add: c_def)
  define w where "w = u256_from_be c"
  have pad: "validate_uint_padding bs 0 16 lb =
      (if unat w < 256 ^ 16 then Inr () else Inl (DecodeErr (UintPadding lb 16)))" for lb
    using validate_padding_iff[OF len, of 0 bs 16 lb] by (simp add: c_def w_def)
  have "take 16 (drop 16 bs) = drop 16 c" by (simp add: c_def drop_take)
  moreover have "unat w < 256 ^ 16 \<Longrightarrow> be_to_nat (drop 16 c) = unat w"
    using narrow_value[OF len, of 16] by (simp add: w_def)
  moreover have "c = abi_u128 l \<longleftrightarrow> w = ucast l"
    using u256_to_be_eq_iff[OF len] by (simp add: w_def)
  ultimately show ?thesis
    using True ucast_narrow_iff[of w l]
    by (simp add: decode_liquidity_def pad bind_guard_iff flip: c_def) auto
qed (simp add: decode_liquidity_def)


text \<open>The tick word: 29 padding bytes and three value bytes.\<close>

definition tick_of_word :: "bytes \<Rightarrow> u32 option" where
  "tick_of_word c =
     (let pad = (if (c ! 29) AND 0x80 \<noteq> 0 then 0xff else 0x00) in
      if \<forall>b \<in> set (take 29 c). b = pad
      then Some (word_of_nat (be_to_nat [pad, c ! 29, c ! 30, c ! 31])) else None)"

lemma sign_byte_iff: "(b :: u8) AND 0x80 \<noteq> 0 \<longleftrightarrow> 128 \<le> unat b"
proof -
  have e: "b AND 0x80 = 0 \<longleftrightarrow> \<not> bit b 7"
    using and_exp_eq_0_iff_not_bit[of b 7] by simp
  have "bit b 7 \<longleftrightarrow> odd (unat b div 2 ^ 7)"
  proof -
    have "bit (unat b) 7 \<longleftrightarrow> bit b 7" by (simp add: bit_unsigned_iff)
    then show ?thesis by (simp only: bit_iff_odd[of "unat b" 7])
  qed
  moreover have "unat b < 256" using unat_lt_exp[of b] by simp
  then have "odd (unat b div 2 ^ 7) \<longleftrightarrow> 128 \<le> unat b"
  proof -
    have "unat b div 128 = 0 \<or> unat b div 128 = 1" using \<open>unat b < 256\<close> by arith
    then show ?thesis by (auto simp: div_eq_0_iff)
  qed
  ultimately show ?thesis using e by simp
qed

lemma sint_eq_small: "n < 2 ^ 31 \<Longrightarrow> sint (word_of_nat n :: u32) = int n"
  by (simp add: signed_of_nat signed_take_bit_int_eq_self)

lemma sint_of_int_small: "- (2 ^ 31) \<le> k \<Longrightarrow> k < 2 ^ 31 \<Longrightarrow> sint (word_of_int k :: u32) = k"
  by (simp add: signed_of_int signed_take_bit_int_eq_self)

lemma word_of_int_sint_id: "word_of_int (sint (t :: u32)) = t"
  by simp

lemma sint_eq_negative:
  assumes "n < 2 ^ 24"
  shows "sint (word_of_nat (255 * 2 ^ 24 + n) :: u32) = int n - 2 ^ 24"
proof -
  have "word_of_nat (255 * 2 ^ 24 + n) = (word_of_int (int n - 2 ^ 24) :: u32)"
  proof -
    have "(word_of_nat (255 * 2 ^ 24 + n) :: u32) = word_of_int (int (255 * 2 ^ 24 + n))" by simp
    also have "\<dots> = word_of_int (int n - 2 ^ 24 + 2 ^ 32)" by (simp add: algebra_simps)
    also have "\<dots> = (word_of_int (int n - 2 ^ 24) :: u32) + word_of_int (2 ^ 32)"
      by (simp only: of_int_add)
    also have "(word_of_int (2 ^ 32) :: u32) = 0" by simp
    finally show ?thesis by simp
  qed
  moreover have "sint (word_of_int (int n - 2 ^ 24) :: u32) = int n - 2 ^ 24"
    by (rule sint_of_int_small) (use assms in simp_all)
  ultimately show ?thesis by (simp only:)
qed


lemma tick_of_word_cases:
  assumes len: "length c = 32"
  shows "tick_of_word c = Some t \<longleftrightarrow>
    (let low = be_to_nat (drop 29 c); high = be_to_nat (take 29 c) in
     (low < 2 ^ 23 \<and> high = 0 \<and> t = word_of_nat low) \<or>
     (2 ^ 23 \<le> low \<and> high = 256 ^ 29 - 1 \<and> t = word_of_nat (255 * 2 ^ 24 + low)))"
proof -
  have low3: "drop 29 c = [c ! 29, c ! 30, c ! 31]"
    using len by (simp add: list_eq_iff_nth_eq less_Suc_eq numeral_3_eq_3 numeral_eq_Suc)
  have b: "unat (c ! 30) < 256" "unat (c ! 31) < 256"
    using unat_lt_exp[of "c ! 30"] unat_lt_exp[of "c ! 31"] by simp_all
  have low: "be_to_nat (drop 29 c) = unat (c ! 29) * 65536 + unat (c ! 30) * 256 + unat (c ! 31)"
    unfolding low3 by (simp add: be_to_nat_Cons)
  have neg: "(c ! 29) AND 0x80 \<noteq> 0 \<longleftrightarrow> 2 ^ 23 \<le> be_to_nat (drop 29 c)"
    unfolding sign_byte_iff low using b by simp arith
  have len29: "length (take 29 c) = 29" using len by simp
  have val: "be_to_nat [p, c ! 29, c ! 30, c ! 31] = unat p * 2 ^ 24 + be_to_nat (drop 29 c)" for p
    unfolding low by (simp add: be_to_nat_Cons)
  show ?thesis
    using be_to_nat_zero_iff[of "take 29 c"] be_to_nat_max_iff[of "take 29 c"] len29
    by (cases "2 ^ 23 \<le> be_to_nat (drop 29 c)")
      (simp_all add: tick_of_word_def Let_def neg val eq_commute[of _ t])
qed

lemma be_to_nat_tick_word:
  assumes "length c = 32"
  shows "be_to_nat c = be_to_nat (take 29 c) * 2 ^ 24 + be_to_nat (drop 29 c)"
    "be_to_nat (drop 29 c) < 2 ^ 24"
  using be_to_nat_append[of "take 29 c" "drop 29 c"] be_to_nat_bound[of "drop 29 c"] assms by simp_all

lemma abi_i24_iff:
  assumes "length c = 32" "fits_i24 t"
  shows "c = abi_i24 t \<longleftrightarrow>
    int (be_to_nat c) = (if 0 \<le> sint t then sint t else 2 ^ 256 + sint t)"
proof -
  have "c = abi_i24 t \<longleftrightarrow> u256_from_be c = word_of_int (sint t)"
    by (rule u256_to_be_eq_iff[OF assms(1)])
  also have "\<dots> \<longleftrightarrow> int (unat (u256_from_be c)) = sint t mod 2 ^ 256"
  proof -
    have "uint (word_of_int (sint t) :: u256) = sint t mod 2 ^ 256"
      by (subst uint_word_of_int) simp
    then show ?thesis by (simp only: word_uint_eq_iff uint_nat)
  qed
  also have "sint t mod 2 ^ 256 = (if 0 \<le> sint t then sint t else 2 ^ 256 + sint t)"
    using assms(2) mod_pos_pos_trivial[of "sint t" "2 ^ 256"]
      mod_pos_pos_trivial[of "2 ^ 256 + sint t" "2 ^ 256"] mod_add_self1[of "2 ^ 256" "sint t"]
    by (cases "0 \<le> sint t") (simp_all add: fits_i24_def)
  finally show ?thesis using assms(1) by (simp only: unat_u256_from_be)
qed

lemma tick_of_word_iff:
  assumes len: "length c = 32"
  shows "tick_of_word c = Some t \<longleftrightarrow> fits_i24 t \<and> c = abi_i24 t"
proof -
  define low high where "low = be_to_nat (drop 29 c)" and "high = be_to_nat (take 29 c)"
  have v: "int (be_to_nat c) = int high * 2 ^ 24 + int low" and lt: "low < 2 ^ 24"
    using be_to_nat_tick_word[OF len] by (simp_all add: low_def high_def)
  have dec: "tick_of_word c = Some t \<longleftrightarrow>
     (low < 2 ^ 23 \<and> high = 0 \<and> t = word_of_nat low) \<or>
     (2 ^ 23 \<le> low \<and> high = 256 ^ 29 - 1 \<and> t = word_of_nat (255 * 2 ^ 24 + low))"
    unfolding tick_of_word_cases[OF len] Let_def low_def high_def ..
  show ?thesis
  proof
    assume "tick_of_word c = Some t"
    then consider
        (pos) "low < 2 ^ 23" "high = 0" "sint t = int low"
      | (neg) "2 ^ 23 \<le> low" "high = 256 ^ 29 - 1" "sint t = int low - 2 ^ 24"
      unfolding dec using lt sint_eq_small[of low] sint_eq_negative[of low] by auto
    then show "fits_i24 t \<and> c = abi_i24 t"
    proof cases
      case pos
      then have f: "fits_i24 t" by (simp add: fits_i24_def)
      from pos v have "int (be_to_nat c) = (if 0 \<le> sint t then sint t else 2 ^ 256 + sint t)" by simp
      with f abi_i24_iff[OF len f] show ?thesis by blast
    next
      case neg
      then have f: "fits_i24 t" using lt by (simp add: fits_i24_def)
      from neg v lt have "int (be_to_nat c) = (if 0 \<le> sint t then sint t else 2 ^ 256 + sint t)" by simp
      with f abi_i24_iff[OF len f] show ?thesis by blast
    qed
  next
    assume a: "fits_i24 t \<and> c = abi_i24 t"
    then have val: "int high * 2 ^ 24 + int low = (if 0 \<le> sint t then sint t else 2 ^ 256 + sint t)"
      using abi_i24_iff[OF len] unfolding v by blast
    have rng: "- (2 ^ 23) \<le> sint t" "sint t < 2 ^ 23" using a by (simp_all add: fits_i24_def)
    show "tick_of_word c = Some t"
    proof (cases "0 \<le> sint t")
      case True
      have h: "high = 0" using val rng True by simp
      with val True rng have l: "int low = sint t" by simp
      then have "low < 2 ^ 23" using rng by simp
      moreover from this have "sint (word_of_nat low :: u32) = sint t" using l sint_eq_small[of low] by simp
      then have "t = word_of_nat low" by (metis word_of_int_sint_id)
      ultimately show ?thesis using h unfolding dec by simp
    next
      case False
      have "int high * 2 ^ 24 + int low = 2 ^ 256 + sint t" using val False by simp
      then have h: "int high = 2 ^ 232 - 1" using rng False lt by simp
      with \<open>int high * 2 ^ 24 + int low = 2 ^ 256 + sint t\<close>
      have l: "int low = 2 ^ 24 + sint t" by simp
      have hn: "high = 256 ^ 29 - 1" by (rule int_int_eq[THEN iffD1]) (simp add: h)
      have "sint (word_of_nat (255 * 2 ^ 24 + low) :: u32) = sint t"
        unfolding sint_eq_negative[OF lt] using l by simp
      then have "t = word_of_nat (255 * 2 ^ 24 + low)" by (metis word_of_int_sint_id)
      moreover have "2 ^ 23 \<le> low" using l rng by simp
      ultimately show ?thesis using hn unfolding dec by blast
    qed
  qed
qed


lemma decode_slot0_iff:
  "decode_slot0 bs = Inr (p, t) \<longleftrightarrow>
     64 \<le> length bs \<and> unat p < 2 ^ 160 \<and> fits_i24 t \<and> take 64 bs = u256_to_be p @ abi_i24 t"
proof (cases "64 \<le> length bs")
  case True
  define c0 c1 where "c0 = take 32 bs" and "c1 = take 32 (drop 32 bs)"
  have len: "length c0 = 32" "length c1 = 32" using True by (simp_all add: c0_def c1_def)
  define w where "w = u256_from_be c0"
  have pad: "validate_uint_padding bs 0 12 l =
      (if unat w < 256 ^ 20 then Inr () else Inl (DecodeErr (UintPadding l 12)))" for l
    using validate_padding_iff[OF len(1), of 0 bs 12 l] by (simp add: c0_def w_def)
  have nths: "take 3 (drop 29 c1) ! 0 = c1 ! 29" "take 3 (drop 29 c1) ! 1 = c1 ! 30"
    "take 3 (drop 29 c1) ! 2 = c1 ! 31"
    using len(2) by simp_all
  have nb: "\<not> length bs < 64" using True by simp
  note folds = w_def[unfolded c0_def, symmetric] c1_def[symmetric]
  have dec: "decode_slot0 bs = Inr (p, t) \<longleftrightarrow>
      unat w < 256 ^ 20 \<and> w = p \<and> tick_of_word c1 = Some t"
    by (simp only: decode_slot0_def nb if_False pad bind_guard_iff folds Let_def nths tick_of_word_def)
      (simp split: if_splits)
  have enc: "take 64 bs = u256_to_be p @ abi_i24 t \<longleftrightarrow> w = p \<and> c1 = abi_i24 t"
  proof -
    have "take 64 bs = u256_to_be p @ abi_i24 t \<longleftrightarrow> c0 = u256_to_be p \<and> c1 = abi_i24 t"
      unfolding take_two_chunks folds c0_def[symmetric] using len by simp
    then show ?thesis unfolding u256_to_be_eq_iff[OF len(1)] w_def .
  qed
  have e: "(256::nat) ^ 20 = 2 ^ 160" by simp
  show ?thesis
    unfolding dec enc tick_of_word_iff[OF len(2)] e using True by blast
qed (simp add: decode_slot0_def)

lemma reserve_beyond_uint112:
  "decode_get_reserves (u256_to_be (2 ^ 112) @ u256_to_be 1 @ abi_u32 0) = Inr (UniV2 (2 ^ 112) 1 0)"
proof -
  have "unat (2 ^ 112 :: u256) = 2 ^ 112"
    using unat_power_small[of "2 :: u256" 112] by simp
  then show ?thesis unfolding decode_get_reserves_iff by simp
qed

text \<open>C24: Which replies the three decoders accept, and what they read: a reply decodes to
  a value if and only if it is long enough and its leading words are the big-endian encoding of
  that value, within 144 bits for the reserves, 32 for the timestamp, 160 for the square-root price,
  a sign-extended 24 bits for the tick, and 128 for the liquidity.  Every other byte string is an
  error.  All of these are the widths of the ABI types except the first: a reserve is a \<open>uint112\<close>, and the
  decoder, which checks 14 of the 18 high bytes, lets through what no pair contract can return, for instance a
  reserve of \<open>2 ^ 112\<close> (the last conjunct).\<close>

theorem abi_decoders_exact:
  "(decode_get_reserves bs = Inr s \<longleftrightarrow>
      96 \<le> length bs \<and>
      (\<exists>r0 r1 ts. s = UniV2 r0 r1 ts \<and> unat r0 < 2 ^ 144 \<and> unat r1 < 2 ^ 144 \<and>
         take 96 bs = u256_to_be r0 @ u256_to_be r1 @ abi_u32 ts)) \<and>
   (decode_slot0 bs = Inr (p, t) \<longleftrightarrow>
      64 \<le> length bs \<and> unat p < 2 ^ 160 \<and> - (2 ^ 23) \<le> sint t \<and> sint t < 2 ^ 23 \<and>
      take 64 bs = u256_to_be p @ u256_to_be (word_of_int (sint t))) \<and>
   (decode_liquidity bs = Inr l \<longleftrightarrow> 32 \<le> length bs \<and> take 32 bs = abi_u128 l) \<and>
   decode_get_reserves (u256_to_be (2 ^ 112) @ u256_to_be 1 @ abi_u32 0) = Inr (UniV2 (2 ^ 112) 1 0)"
  unfolding decode_get_reserves_iff[of bs] decode_slot0_iff decode_liquidity_iff fits_i24_def
  by (intro conjI refl reserve_beyond_uint112) (simp only: conj_assoc)

end
