(* ===== verification/State_Engine.thy ===== *)
theory State_Engine
  imports State_Decode Snapshot
begin

text \<open>
  The state engine of \<open>crates/state/src/lib.rs\<close> and the replay of \<open>crates/replay/src/lib.rs\<close>:
  block-pinned calls, decoding, the snapshot writes, the recorded caller and the replay driver.
  The node behind the caller is a world \<open>'w\<close>; the snapshot store is the one of theory \<open>Snapshot\<close>.
\<close>

section \<open>The engine\<close>

definition SELECTOR_GET_RESERVES :: bytes where
  "SELECTOR_GET_RESERVES = [0x09, 0x02, 0xf1, 0xac]"
definition SELECTOR_SLOT0 :: bytes where "SELECTOR_SLOT0 = [0x38, 0x50, 0xc7, 0xbd]"
definition SELECTOR_LIQUIDITY :: bytes where "SELECTOR_LIQUIDITY = [0x1a, 0x68, 0x65, 0x02]"

text \<open>The trait \<open>EthCaller\<close>.\<close>

type_synonym 'w eth_caller = "call_request \<Rightarrow> block_id \<Rightarrow> 'w \<Rightarrow> (node_error + bytes) \<times> 'w"

definition node_eth_caller :: "('w, 'tx, 'pf) node_provider \<Rightarrow> 'w eth_caller" where
  "node_eth_caller np req b w = eth_call_at_block np req b w"

record 'w state_engine =
  se_caller :: "'w eth_caller"
  se_pools :: "pool_id list"

definition state_engine_with_caller :: "'w eth_caller \<Rightarrow> pool_id list \<Rightarrow> 'w state_engine" where
  "state_engine_with_caller c ps = \<lparr>se_caller = c, se_pools = ps\<rparr>"

definition state_engine_new ::
  "('w, 'tx, 'pf) node_provider \<Rightarrow> pool_id list \<Rightarrow> 'w state_engine" where
  "state_engine_new np ps = state_engine_with_caller (node_eth_caller np) ps"

definition call_req :: "address \<Rightarrow> bytes \<Rightarrow> call_request" where
  "call_req to selector = \<lparr>cr_to = Some to, cr_input = Some selector\<rparr>"

definition snapshot_key :: "u64 \<Rightarrow> address \<Rightarrow> bytes" where
  "snapshot_key n a = u64_to_be n @ address_to_be a"

definition fetch_v2 ::
  "'w state_engine \<Rightarrow> address \<Rightarrow> block_id \<Rightarrow> 'w \<Rightarrow> (state_error + pool_state) \<times> 'w" where
  "fetch_v2 en a b w =
     (case se_caller en (call_req a SELECTOR_GET_RESERVES) b w of
        (Inl e, w) \<Rightarrow> (Inl (NodeErr e), w)
      | (Inr bs, w) \<Rightarrow> (decode_get_reserves bs, w))"

definition fetch_v3 ::
  "'w state_engine \<Rightarrow> address \<Rightarrow> block_id \<Rightarrow> 'w \<Rightarrow> (state_error + pool_state) \<times> 'w" where
  "fetch_v3 en a b w =
     (case se_caller en (call_req a SELECTOR_SLOT0) b w of
        (Inl e, w) \<Rightarrow> (Inl (NodeErr e), w)
      | (Inr bytes_slot0, w) \<Rightarrow>
          (case decode_slot0 bytes_slot0 of
             Inl e \<Rightarrow> (Inl e, w)
           | Inr (sqrt_price, t) \<Rightarrow>
               (case se_caller en (call_req a SELECTOR_LIQUIDITY) b w of
                  (Inl e, w) \<Rightarrow> (Inl (NodeErr e), w)
                | (Inr bytes_liq, w) \<Rightarrow>
                    (case decode_liquidity bytes_liq of
                       Inl e \<Rightarrow> (Inl e, w)
                     | Inr l \<Rightarrow> (Inr (UniV3 sqrt_price t l), w)))))"

definition fetch_state ::
  "'w state_engine \<Rightarrow> pool_id \<Rightarrow> block_id \<Rightarrow> 'w \<Rightarrow> (state_error + pool_state) \<times> 'w" where
  "fetch_state en p b w =
     (case pid_kind p of
        UniswapV2 \<Rightarrow> fetch_v2 en (pid_address p) b w
      | SushiswapV2 \<Rightarrow> fetch_v2 en (pid_address p) b w
      | UniswapV3Fee005 \<Rightarrow> fetch_v3 en (pid_address p) b w)"

definition event_for :: "u64 \<Rightarrow> b256 \<Rightarrow> pool_id \<Rightarrow> pool_state \<Rightarrow> state_update_event" where
  "event_for n h p st =
     \<lparr>su_block_number = n, su_block_hash = h, su_pool = p, su_state = st\<rparr>"

fun refresh_pools ::
  "'d kv_ops \<Rightarrow> pool_state value_codec \<Rightarrow> 'w state_engine \<Rightarrow> u64 \<Rightarrow> b256 \<Rightarrow> pool_id list
   \<Rightarrow> state_update_event list \<Rightarrow> 'w \<times> 'd snapshot
   \<Rightarrow> (state_error + state_update_event list) \<times> ('w \<times> 'd snapshot)" where
  "refresh_pools kv vc en n h [] events (w, s) = (Inr events, (w, s))"
| "refresh_pools kv vc en n h (p # ps) events (w, s) =
     (case fetch_state en p (HashId h) w of
        (Inl e, w) \<Rightarrow> (Inl e, (w, s))
      | (Inr st, w) \<Rightarrow>
          (case save kv vc (snapshot_key n (pid_address p)) st s of
             (Inl e, s) \<Rightarrow> (Inl (SnapshotErr e), (w, s))
           | (Inr _, s) \<Rightarrow>
               refresh_pools kv vc en n h ps (events @ [event_for n h p st]) (w, s)))"

definition refresh_block ::
  "'d kv_ops \<Rightarrow> pool_state value_codec \<Rightarrow> 'w state_engine \<Rightarrow> u64 \<Rightarrow> b256 \<Rightarrow> 'w \<times> 'd snapshot
   \<Rightarrow> (state_error + state_update_event list) \<times> ('w \<times> 'd snapshot)" where
  "refresh_block kv vc en n h ws = refresh_pools kv vc en n h (se_pools en) [] ws"

section \<open>Replay\<close>

record recorded_block =
  rb_number :: u64
  rb_hash :: b256

fun replay_blocks ::
  "'d kv_ops \<Rightarrow> pool_state value_codec \<Rightarrow> 'w state_engine \<Rightarrow> recorded_block list
   \<Rightarrow> state_update_event list \<Rightarrow> 'w \<times> 'd snapshot
   \<Rightarrow> (state_error + state_update_event list) \<times> ('w \<times> 'd snapshot)" where
  "replay_blocks kv vc en [] all ws = (Inr all, ws)"
| "replay_blocks kv vc en (b # bs) all ws =
     (case refresh_block kv vc en (rb_number b) (rb_hash b) ws of
        (Inl e, ws) \<Rightarrow> (Inl e, ws)
      | (Inr events, ws) \<Rightarrow> replay_blocks kv vc en bs (all @ events) ws)"

definition replay ::
  "'d kv_ops \<Rightarrow> pool_state value_codec \<Rightarrow> 'w state_engine \<Rightarrow> recorded_block list \<Rightarrow> 'w \<times> 'd snapshot
   \<Rightarrow> (state_error + state_update_event list) \<times> ('w \<times> 'd snapshot)" where
  "replay kv vc en blocks ws = replay_blocks kv vc en blocks [] ws"

text \<open>The recorded caller; its \<open>HashMap\<close> is a map.\<close>

type_synonym fixture_key = "b256 \<times> bytes \<times> address"

record recorded_caller =
  rs_responses :: "fixture_key \<Rightarrow> bytes option"
  rs_known :: "b256 set"
  rs_witness :: "fixture_key list"

definition recorded_caller_new :: recorded_caller where
  "recorded_caller_new = \<lparr>rs_responses = (\<lambda>_. None), rs_known = {}, rs_witness = []\<rparr>"

definition recorded_put :: "b256 \<Rightarrow> bytes \<Rightarrow> address \<Rightarrow> bytes \<Rightarrow> recorded_caller \<Rightarrow> recorded_caller" where
  "recorded_put h sel pool bs s =
     s\<lparr>rs_known := insert h (rs_known s), rs_responses := (rs_responses s)((h, sel, pool) \<mapsto> bs)\<rparr>"

definition recorded_witness :: "recorded_caller \<Rightarrow> fixture_key list" where
  "recorded_witness s = rs_witness s"

text \<open>The messages name the block, selector and pool; here only their fixed part is kept.\<close>

definition recorded_call :: "recorded_caller eth_caller" where
  "recorded_call req b s =
     (case b of
        NumberId _ \<Rightarrow> (Inl (Rpc ''unexpected block_id (non-hash)''), s)
      | HashId h \<Rightarrow>
          if h \<notin> rs_known s then (Inl (Rpc ''unexpected block_id hash''), s)
          else (case cr_to req of
             None \<Rightarrow> (Inl (Rpc ''missing to''), s)
           | Some to \<Rightarrow>
               (let input = (case cr_input req of None \<Rightarrow> [] | Some i \<Rightarrow> i) in
                if length input < 4 then (Inl (Rpc ''missing selector''), s)
                else (let key = (h, take 4 input, to) in
                  case rs_responses s key of
                    Some bs \<Rightarrow> (Inr bs, s\<lparr>rs_witness := rs_witness s @ [key]\<rparr>)
                  | None \<Rightarrow> (Inl (Rpc ''no fixture''), s)))))"

section \<open>Snapshot keys\<close>

lemma length_snapshot_key [simp]: "length (snapshot_key n a) = 28"
  by (simp add: snapshot_key_def)

lemma snapshot_key_inj: "snapshot_key n a = snapshot_key m b \<longleftrightarrow> n = m \<and> a = b"
  by (simp add: snapshot_key_def)

lemma snapshot_key_not_reserved:
  assumes "unat n < 2 ^ 48"
  shows "\<not> starts_with (snapshot_key n a) RESERVED_KEY_PREFIX"
proof
  assume st: "starts_with (snapshot_key n a) RESERVED_KEY_PREFIX"
  have len: "length RESERVED_KEY_PREFIX = 24" by (simp add: RESERVED_KEY_PREFIX_def)
  from st have "take 24 (snapshot_key n a) = RESERVED_KEY_PREFIX"
    unfolding starts_with_def len .
  then have "take 2 (take 24 (snapshot_key n a)) = take 2 RESERVED_KEY_PREFIX" by simp
  then have "take 2 (u64_to_be n) = [0, 0x72]"
    by (simp add: snapshot_key_def RESERVED_KEY_PREFIX_def)
  then have "be_to_nat (take 2 (u64_to_be n)) = 0x72" by (simp add: be_to_nat_Cons)
  moreover have "be_to_nat (u64_to_be n) =
      be_to_nat (take 2 (u64_to_be n)) * 256 ^ 6 + be_to_nat (drop 2 (u64_to_be n))"
    using be_to_nat_append[of "take 2 (u64_to_be n)" "drop 2 (u64_to_be n)"] by simp
  moreover have "be_to_nat (u64_to_be n) = unat n"
    using unat_lt_exp[of n] by (simp add: u64_to_be_def be_to_nat_nat_to_be)
  ultimately show False using assms by simp
qed


section \<open>Callers whose answers are pinned\<close>

text \<open>A caller that, in every world satisfying \<open>inv\<close>, gives the answer the request and the block
  determine, and stays in such worlds.\<close>

locale pinned_caller =
  fixes call :: "'w eth_caller" and inv :: "'w \<Rightarrow> bool"
    and answer :: "call_request \<Rightarrow> block_id \<Rightarrow> node_error + bytes"
  assumes call_answer: "inv w \<Longrightarrow> call req b w = (r, w') \<Longrightarrow> r = answer req b"
    and call_inv: "inv w \<Longrightarrow> call req b w = (r, w') \<Longrightarrow> inv w'"

text \<open>The reference: the engine over a caller without a world, one event per pool in the order of
  the configuration, the first failing pool being the result.\<close>

definition answered_state ::
  "(call_request \<Rightarrow> block_id \<Rightarrow> node_error + bytes) \<Rightarrow> block_id \<Rightarrow> pool_id \<Rightarrow> state_error + pool_state" where
  "answered_state answer b p =
     fst (fetch_state \<lparr>se_caller = (\<lambda>req b w. (answer req b, w)), se_pools = []\<rparr> p b ())"

fun block_events ::
  "(pool_id \<Rightarrow> state_error + pool_state) \<Rightarrow> u64 \<Rightarrow> b256 \<Rightarrow> pool_id list \<Rightarrow> state_error + state_update_event list" where
  "block_events f n h [] = Inr []"
| "block_events f n h (p # ps) =
     bind_res (f p) (\<lambda>st. bind_res (block_events f n h ps) (\<lambda>es. Inr (event_for n h p st # es)))"

fun replay_events ::
  "(block_id \<Rightarrow> pool_id \<Rightarrow> state_error + pool_state) \<Rightarrow> pool_id list \<Rightarrow> recorded_block list
   \<Rightarrow> state_error + state_update_event list" where
  "replay_events f ps [] = Inr []"
| "replay_events f ps (b # bs) =
     bind_res (block_events (f (HashId (rb_hash b))) (rb_number b) (rb_hash b) ps) (\<lambda>es.
     bind_res (replay_events f ps bs) (\<lambda>rest. Inr (es @ rest)))"

definition store_never_fails :: "'d kv_ops \<Rightarrow> 'v value_codec \<Rightarrow> bool" where
  "store_never_fails kv vc \<longleftrightarrow> (\<forall>d k v. fst (kv_put kv d k v) = Inr ()) \<and> (\<forall>v. is_ok (vc_encode vc v))"

lemma save_succeeds:
  assumes "store_never_fails kv vc" "unat n < 2 ^ 48"
  obtains s' where "save kv vc (snapshot_key n a) st s = (Inr (), s')"
proof -
  obtain bs where bs: "vc_encode vc st = Inr bs"
    using assms(1) by (metis store_never_fails_def is_ok_iff)
  have "fst (kv_put kv (sn_db s) (snapshot_key n a) bs) = Inr ()"
    using assms(1) by (simp add: store_never_fails_def)
  then obtain d where "kv_put kv (sn_db s) (snapshot_key n a) bs = (Inr (), d)"
    by (metis prod.collapse)
  with bs that show ?thesis
    by (simp add: save_def snapshot_key_not_reserved[OF assms(2)])
qed

context pinned_caller
begin

lemma fetch_pinned:
  assumes "inv w" "se_caller en = call" "fetch_state en p b w = (r, w')"
  shows "r = answered_state answer b p \<and> inv w'"
proof -
  have one: "\<exists>w1. call req b w = (answer req b, w1) \<and> inv w1" if "inv w" for req w
    by (metis call_answer call_inv that surj_pair)
  obtain w1 where 1: "call (call_req (pid_address p) SELECTOR_GET_RESERVES) b w
      = (answer (call_req (pid_address p) SELECTOR_GET_RESERVES) b, w1)" "inv w1"
    using one[OF assms(1)] by blast
  obtain w2 where 2: "call (call_req (pid_address p) SELECTOR_SLOT0) b w
      = (answer (call_req (pid_address p) SELECTOR_SLOT0) b, w2)" "inv w2"
    using one[OF assms(1)] by blast
  obtain w3 where 3: "call (call_req (pid_address p) SELECTOR_LIQUIDITY) b w2
      = (answer (call_req (pid_address p) SELECTOR_LIQUIDITY) b, w3)" "inv w3"
    using one[OF 2(2)] by blast
  have v2: "fetch_v2 en (pid_address p) b w = (r', w'') \<Longrightarrow>
      r' = fst (fetch_v2 \<lparr>se_caller = (\<lambda>req b w. (answer req b, w)), se_pools = []\<rparr> (pid_address p) b ())
      \<and> inv w''" for r' w''
    using 1 by (auto simp: fetch_v2_def assms(2) split: sum.splits)
  have v3: "fetch_v3 en (pid_address p) b w = (r', w'') \<Longrightarrow>
      r' = fst (fetch_v3 \<lparr>se_caller = (\<lambda>req b w. (answer req b, w)), se_pools = []\<rparr> (pid_address p) b ())
      \<and> inv w''" for r' w''
    using 2 3 by (auto simp: fetch_v3_def assms(2) split: sum.splits prod.splits)
  show ?thesis
    using assms(3) v2 v3 by (auto simp: fetch_state_def answered_state_def split: pool_kind.splits)
qed

lemma refresh_pinned:
  assumes "inv w" "se_caller en = call" "store_never_fails kv vc" "unat n < 2 ^ 48"
  shows "\<exists>w' s'. refresh_pools kv vc en n h ps events (w, s) =
      (bind_res (block_events (answered_state answer (HashId h)) n h ps) (\<lambda>es. Inr (events @ es)), (w', s'))
      \<and> inv w'"
  using assms(1)
proof (induction ps arbitrary: events w s)
  case (Cons p ps)
  obtain r w1 where f: "fetch_state en p (HashId h) w = (r, w1)" by (meson surj_pair)
  from fetch_pinned[OF Cons.prems assms(2) f]
  have r: "answered_state answer (HashId h) p = r" and w1: "inv w1" by simp_all
  show ?case
  proof (cases r)
    case (Inl e)
    then show ?thesis using f r w1 by simp
  next
    case (Inr st)
    obtain s1 where "save kv vc (snapshot_key n (pid_address p)) st s = (Inr (), s1)"
      by (rule save_succeeds[OF assms(3,4)])
    then show ?thesis
      using f r Inr Cons.IH[OF w1, of "events @ [event_for n h p st]" s1]
      by (cases "block_events (answered_state answer (HashId h)) n h ps") simp_all
  qed
qed simp

lemma replay_pinned:
  assumes "inv w" "se_caller en = call" "store_never_fails kv vc"
    and "\<forall>b \<in> set blocks. unat (rb_number b) < 2 ^ 48"
  shows "\<exists>w' s'. replay_blocks kv vc en blocks all (w, s) =
      (bind_res (replay_events (answered_state answer) (se_pools en) blocks) (\<lambda>es. Inr (all @ es)), (w', s'))
      \<and> inv w'"
  using assms(1,4)
proof (induction blocks arbitrary: all w s)
  case (Cons b bs)
  have small: "unat (rb_number b) < 2 ^ 48" using Cons.prems(2) by simp
  obtain w1 s1 where r: "refresh_block kv vc en (rb_number b) (rb_hash b) (w, s) =
      (block_events (answered_state answer (HashId (rb_hash b))) (rb_number b) (rb_hash b) (se_pools en), (w1, s1))"
    and w1: "inv w1"
    using refresh_pinned[OF Cons.prems(1) assms(2,3) small, of "rb_hash b" "se_pools en" "[]" s]
    by (cases "block_events (answered_state answer (HashId (rb_hash b))) (rb_number b) (rb_hash b) (se_pools en)")
      (auto simp: refresh_block_def)
  show ?case
  proof (cases "block_events (answered_state answer (HashId (rb_hash b))) (rb_number b) (rb_hash b) (se_pools en)")
    case (Inl e)
    then show ?thesis using r w1 by simp
  next
    case (Inr es)
    then show ?thesis
      using r Cons.IH[OF w1, of "all @ es" s1] Cons.prems(2)
      by (cases "replay_events (answered_state answer) (se_pools en) bs") simp_all
  qed
qed simp

end

text \<open>The recorded caller keeps this contract: its answers depend on the recordings only.\<close>

definition recorded_answer ::
  "(fixture_key \<Rightarrow> bytes option) \<Rightarrow> b256 set \<Rightarrow> call_request \<Rightarrow> block_id \<Rightarrow> node_error + bytes" where
  "recorded_answer responses known req b =
     fst (recorded_call req b \<lparr>rs_responses = responses, rs_known = known, rs_witness = []\<rparr>)"

definition holds_recordings ::
  "(fixture_key \<Rightarrow> bytes option) \<Rightarrow> b256 set \<Rightarrow> recorded_caller \<Rightarrow> bool" where
  "holds_recordings responses known c \<longleftrightarrow> rs_responses c = responses \<and> rs_known c = known"

lemma recorded_call_pinned:
  assumes "holds_recordings responses known c" "recorded_call req b c = (r, c')"
  shows "r = recorded_answer responses known req b \<and> holds_recordings responses known c'"
  using assms
  by (cases b; cases "cr_to req")
    (auto simp: recorded_call_def recorded_answer_def holds_recordings_def Let_def
      split: if_splits option.splits)

interpretation recorded: pinned_caller recorded_call "holds_recordings responses known"
    "recorded_answer responses known" for responses known
  by unfold_locales (blast dest: recorded_call_pinned)+


section \<open>What a refresh leaves in the store\<close>

lemma save_Inr:
  assumes "save kv vc k v s = (Inr u, s')"
  shows "\<exists>raw. vc_encode vc v = Inr raw \<and> kv_put kv (sn_db s) k raw = (Inr (), sn_db s')
    \<and> \<not> starts_with k RESERVED_KEY_PREFIX \<and> sn_saved_total s' = sn_saved_total s + 1"
  using assms by (auto simp: save_def split: if_splits sum.splits prod.splits)

lemma save_Inl_lookup:
  assumes "kv_store kv lookup" "save kv vc k v s = (Inl e, s')"
  shows "lookup (sn_db s') = lookup (sn_db s) \<and> sn_saved_total s' = sn_saved_total s"
proof -
  show ?thesis
  proof (cases "starts_with k RESERVED_KEY_PREFIX")
    case False
    then show ?thesis
      using assms by (auto simp: save_def split: sum.splits prod.splits dest: kv_store.put_err)
  qed (use assms(2) in \<open>simp add: save_def\<close>)
qed

text \<open>The keys a refresh of the pools \<open>ps\<close> at block \<open>n\<close> may write, and the stored value of a key.\<close>

definition pool_keys :: "u64 \<Rightarrow> pool_id list \<Rightarrow> bytes set" where
  "pool_keys n ps = snapshot_key n ` pid_address ` set ps"

definition stored_state ::
  "('d \<Rightarrow> bytes \<Rightarrow> bytes option) \<Rightarrow> pool_state value_codec \<Rightarrow> 'd snapshot \<Rightarrow> state_update_event \<Rightarrow> bool" where
  "stored_state lookup vc s e \<longleftrightarrow>
     stored_as vc (lookup (sn_db s) (snapshot_key (su_block_number e) (pid_address (su_pool e))))
       (Some (su_state e))"

context kv_store
begin

lemma refresh_writes:
  assumes "refresh_pools kv vc en n h ps events (w, s) = (r, (w', s'))" "codec_law vc"
  shows "(\<forall>k. k \<notin> pool_keys n ps \<longrightarrow> lookup (sn_db s') k = lookup (sn_db s) k)"
    and "r = Inr evs \<Longrightarrow> distinct (map pid_address ps) \<Longrightarrow>
      \<exists>new. evs = events @ new \<and> map su_pool new = ps \<and>
        (\<forall>e \<in> set new. su_block_number e = n \<and> su_block_hash e = h \<and> stored_state lookup vc s' e)"
proof -
  have "(\<forall>k. k \<notin> pool_keys n ps \<longrightarrow> lookup (sn_db s') k = lookup (sn_db s) k) \<and>
    (\<forall>evs. r = Inr evs \<longrightarrow> distinct (map pid_address ps) \<longrightarrow>
      (\<exists>new. evs = events @ new \<and> map su_pool new = ps \<and>
        (\<forall>e \<in> set new. su_block_number e = n \<and> su_block_hash e = h \<and> stored_state lookup vc s' e)))"
    using assms(1)
  proof (induction ps arbitrary: events w s)
    case (Cons p ps)
    obtain q w1 where f: "fetch_state en p (HashId h) w = (q, w1)" by (meson surj_pair)
    show ?case
    proof (cases q)
      case (Inl e)
      then show ?thesis using Cons.prems f by auto
    next
      case (Inr st)
      let ?k = "snapshot_key n (pid_address p)"
      obtain sr s1 where sv: "save kv vc ?k st s = (sr, s1)" by (meson surj_pair)
      show ?thesis
      proof (cases sr)
        case (Inl e)
        then have "lookup (sn_db s1) = lookup (sn_db s)"
          using save_Inl_lookup[OF kv_store_axioms sv[unfolded Inl]] by blast
        with Inl show ?thesis using Cons.prems f Inr sv by auto
      next
        case okv: (Inr u)
        obtain raw where raw: "vc_encode vc st = Inr raw" and put: "kv_put kv (sn_db s) ?k raw = (Inr (), sn_db s1)"
          using save_Inr[OF sv[unfolded okv]] by blast
        have l1: "lookup (sn_db s1) = (lookup (sn_db s))(?k \<mapsto> raw)" by (rule put_ok[OF put])
        have dec: "vc_decode vc raw = Inr st" using assms(2) raw by (simp add: codec_law_def)
        have rest: "refresh_pools kv vc en n h ps (events @ [event_for n h p st]) (w1, s1) = (r, (w', s'))"
          using Cons.prems f Inr sv okv by simp
        note ih = Cons.IH[OF rest]
        have frame: "lookup (sn_db s') k = lookup (sn_db s) k" if "k \<notin> pool_keys n (p # ps)" for k
          using ih that by (simp add: l1 pool_keys_def)
        have new: "\<exists>new. evs = events @ new \<and> map su_pool new = p # ps \<and>
            (\<forall>e \<in> set new. su_block_number e = n \<and> su_block_hash e = h \<and> stored_state lookup vc s' e)"
          if ok: "r = Inr evs" and di: "distinct (map pid_address (p # ps))" for evs
        proof -
          obtain new where new: "evs = (events @ [event_for n h p st]) @ new" "map su_pool new = ps"
            "\<forall>e \<in> set new. su_block_number e = n \<and> su_block_hash e = h \<and> stored_state lookup vc s' e"
            using conjunct2[OF ih, rule_format, OF ok] di by auto
          have "?k \<notin> pool_keys n ps"
            using di by (auto simp: pool_keys_def snapshot_key_inj)
          then have "lookup (sn_db s') ?k = Some raw" using ih l1 by simp
          then have "stored_state lookup vc s' (event_for n h p st)"
            by (simp add: stored_state_def event_for_def dec)
          with new show ?thesis
            by (intro exI[of _ "event_for n h p st # new"]) (simp add: event_for_def)
        qed
        from frame new show ?thesis by blast
      qed
    qed
  qed auto
  then show "(\<forall>k. k \<notin> pool_keys n ps \<longrightarrow> lookup (sn_db s') k = lookup (sn_db s) k)"
    and "r = Inr evs \<Longrightarrow> distinct (map pid_address ps) \<Longrightarrow>
      \<exists>new. evs = events @ new \<and> map su_pool new = ps \<and>
        (\<forall>e \<in> set new. su_block_number e = n \<and> su_block_hash e = h \<and> stored_state lookup vc s' e)"
    by blast+
qed

end


section \<open>Properties\<close>

text \<open>C27: a block refresh that succeeds yields one event per configured pool, in the order of the
  configuration, each pinned to the block's number and hash, and leaves in the snapshot store,
  under the key of each pool at that block, exactly the state its event carries; the keys of other
  blocks and of addresses that are not configured keep what they held, also when the refresh fails
  half way.\<close>

theorem refresh_block_persists:
  assumes "kv_store kv lookup" "codec_law vc"
    and "refresh_block kv vc en n h (w, s) = (r, (w', s'))"
    and "distinct (map pid_address (se_pools en))"
  shows "(\<forall>m a. m \<noteq> n \<or> a \<notin> pid_address ` set (se_pools en) \<longrightarrow>
        lookup (sn_db s') (snapshot_key m a) = lookup (sn_db s) (snapshot_key m a)) \<and>
    (\<forall>events. r = Inr events \<longrightarrow> map su_pool events = se_pools en \<and>
       (\<forall>e \<in> set events. su_block_number e = n \<and> su_block_hash e = h \<and> stored_state lookup vc s' e))"
proof -
  note w = kv_store.refresh_writes[OF assms(1) assms(3)[unfolded refresh_block_def] assms(2)]
  have "snapshot_key m a \<notin> pool_keys n (se_pools en)"
    if "m \<noteq> n \<or> a \<notin> pid_address ` set (se_pools en)" for m a
    using that by (auto simp: pool_keys_def snapshot_key_inj)
  with w(1) w(2)[OF _ assms(4)] show ?thesis by fastforce
qed

text \<open>C28: replay is deterministic.  Over stores that never fail, and for block numbers below \<open>2 ^ 48\<close>, a replay
  of recorded blocks answers as the recordings alone determine, pool by pool and block by block, whatever the
  store held before, whatever was looked up before and whichever store is used: two replays of the same recordings give the same
  events or the same error.\<close>

theorem replay_deterministic:
  assumes "store_never_fails kv vc" "store_never_fails kv' vc'"
    and "\<forall>b \<in> set blocks. unat (rb_number b) < 2 ^ 48"
    and "holds_recordings responses known c" "holds_recordings responses known c'"
  shows "fst (replay kv vc (state_engine_with_caller recorded_call ps) blocks (c, s)) =
      replay_events (answered_state (recorded_answer responses known)) ps blocks \<and>
    fst (replay kv' vc' (state_engine_with_caller recorded_call ps) blocks (c', s')) =
      fst (replay kv vc (state_engine_with_caller recorded_call ps) blocks (c, s))"
proof -
  have cal: "se_caller (state_engine_with_caller recorded_call ps) = recorded_call"
    and ps: "se_pools (state_engine_with_caller recorded_call ps) = ps"
    by (simp_all add: state_engine_with_caller_def)
  have id: "bind_res r (\<lambda>es. Inr ([] @ es)) = r" for r :: "state_error + state_update_event list"
    by (cases r) simp_all
  note r1 = recorded.replay_pinned[OF assms(4) cal assms(1,3), of "[]" s]
  note r2 = recorded.replay_pinned[OF assms(5) cal assms(2,3), of "[]" s']
  show ?thesis using r1 r2 unfolding replay_def ps id by auto
qed

lemma refresh_pools_pinned:
  assumes "\<And>req w. se_caller en req (HashId h) w = se_caller en' req (HashId h) w"
  shows "refresh_pools kv vc en n h ps events (w, s) = refresh_pools kv vc en' n h ps events (w, s)"
proof -
  have f: "fetch_state en p (HashId h) w = fetch_state en' p (HashId h) w" for p w
    by (simp add: fetch_state_def fetch_v2_def fetch_v3_def assms
        split: pool_kind.split sum.split prod.split)
  show ?thesis
    by (induction ps arbitrary: events w s) (simp_all add: f split: sum.splits prod.splits)
qed

text \<open>a refresh only ever asks about the block it was given: with any two callers that agree on
  the requests pinned to that block hash, it behaves the same, result, store and node included.\<close>

theorem refresh_pinned_to_block_hash:
  assumes "\<forall>req w. se_caller en req (HashId h) w = se_caller en' req (HashId h) w"
    and "se_pools en = se_pools en'"
  shows "refresh_block kv vc en n h ws = refresh_block kv vc en' n h ws"
proof (cases ws)
  case (Pair w s)
  then show ?thesis using refresh_pools_pinned[of en h en'] assms by (simp add: refresh_block_def)
qed

section \<open>A recorded block\<close>

definition demo_reserves :: bytes where
  "demo_reserves = u256_to_be 7 @ u256_to_be 11 @ abi_u32 13"

definition demo_recordings :: recorded_caller where
  "demo_recordings = recorded_put 9 SELECTOR_GET_RESERVES 5 demo_reserves recorded_caller_new"

definition demo_pool :: pool_id where
  "demo_pool = \<lparr>pid_kind = SushiswapV2, pid_address = 5\<rparr>"

text \<open>A codec for a one-value store: enough for an instance whose laws hold.\<close>

definition reserve_codec :: "pool_state value_codec" where
  "reserve_codec =
     \<lparr>vc_encode = (\<lambda>st. case st of
          UniV2 a b t \<Rightarrow> Inr (0 # u256_to_be a @ u256_to_be b @ abi_u32 t)
        | UniV3 p t l \<Rightarrow> Inr (1 # u256_to_be p @ abi_u32 t @ abi_u128 l)),
      vc_decode = (\<lambda>bs. case bs of
          [] \<Rightarrow> Inl 0
        | tag # raw \<Rightarrow>
            (let a = u256_from_be (take 32 raw); b = u256_from_be (take 32 (drop 32 raw));
                 c = u256_from_be (drop 64 raw)
             in if tag = 0 then Inr (UniV2 a b (ucast c)) else Inr (UniV3 a (ucast b) (ucast c))))\<rparr>"

lemma ucast_ucast_narrow:
  "ucast (ucast (t :: u32) :: u256) = t" "ucast (ucast (l :: u128) :: u256) = l"
  using ucast_narrow_iff[of "ucast t :: u256" t] ucast_narrow_iff[of "ucast l :: u256" l] by simp_all

lemma reserve_codec_law: "codec_law reserve_codec"
  unfolding codec_law_def
proof (intro allI impI)
  fix v bs assume "vc_encode reserve_codec v = Inr bs"
  then show "vc_decode reserve_codec bs = Inr v"
    by (cases v) (auto simp: reserve_codec_def Let_def ucast_ucast_narrow)
qed

lemma map_kv_never_fails: "store_never_fails map_kv reserve_codec"
  by (simp add: store_never_fails_def map_kv_def reserve_codec_def split: pool_state.splits)

lemma demo_answer: "recorded_call (call_req 5 SELECTOR_GET_RESERVES) (HashId 9) demo_recordings =
    (Inr demo_reserves, demo_recordings\<lparr>rs_witness := [(9, SELECTOR_GET_RESERVES, 5)]\<rparr>)"
  by (simp add: recorded_call_def demo_recordings_def recorded_put_def recorded_caller_new_def call_req_def
      SELECTOR_GET_RESERVES_def Let_def)

lemma demo_decode: "decode_get_reserves demo_reserves = Inr (UniV2 7 11 13)"
  unfolding decode_get_reserves_iff by (simp add: demo_reserves_def)

lemma demo_fetch:
  "fetch_state (state_engine_with_caller recorded_call [demo_pool]) demo_pool (HashId 9) demo_recordings =
    (Inr (UniV2 7 11 13), demo_recordings\<lparr>rs_witness := [(9, SELECTOR_GET_RESERVES, 5)]\<rparr>)"
  by (simp add: fetch_state_def fetch_v2_def demo_pool_def state_engine_with_caller_def demo_answer demo_decode)


lemma demo_refresh:
  assumes "save map_kv reserve_codec (snapshot_key 4 5) (UniV2 7 11 13) s = (Inr (), s')"
  shows "refresh_block map_kv reserve_codec (state_engine_with_caller recorded_call [demo_pool]) 4 9
      (demo_recordings, s)
    = (Inr [event_for 4 9 demo_pool (UniV2 7 11 13)],
       (demo_recordings\<lparr>rs_witness := [(9, SELECTOR_GET_RESERVES, 5)]\<rparr>, s'))"
proof -
  have "pid_address demo_pool = 5" "se_pools (state_engine_with_caller recorded_call [demo_pool]) = [demo_pool]"
    by (simp_all add: demo_pool_def state_engine_with_caller_def)
  with assms show ?thesis by (simp add: refresh_block_def demo_fetch)
qed

definition demo_store :: "(bytes \<Rightarrow> bytes option) snapshot" where
  "demo_store = \<lparr>sn_db = (\<lambda>_. None), sn_saved_total = 0, sn_loaded_total = 0\<rparr>"

lemma refresh_block_persists_witness:
  "\<exists>s'. stored_state (\<lambda>d. d) reserve_codec s' (event_for 4 9 demo_pool (UniV2 7 11 13)) \<and>
     sn_db s' (snapshot_key 3 5) = None"
proof -
  obtain s' where s': "save map_kv reserve_codec (snapshot_key 4 5) (UniV2 7 11 13) demo_store = (Inr (), s')"
    using save_succeeds[OF map_kv_never_fails, of 4 5 "UniV2 7 11 13" demo_store] by auto
  have "distinct (map pid_address (se_pools (state_engine_with_caller recorded_call [demo_pool])))"
    by (simp add: state_engine_with_caller_def)
  from refresh_block_persists[OF map_kv.kv_store_axioms reserve_codec_law demo_refresh[OF s'] this]
  have "(3 :: u64) \<noteq> 4 \<longrightarrow> sn_db s' (snapshot_key 3 5) = sn_db demo_store (snapshot_key 3 5)"
    and "stored_state (\<lambda>d. d) reserve_codec s' (event_for 4 9 demo_pool (UniV2 7 11 13))"
    by simp_all
  then show ?thesis by (intro exI[of _ s']) (simp add: demo_store_def)
qed

lemma replay_deterministic_witness:
  "fst (replay map_kv reserve_codec (state_engine_with_caller recorded_call [demo_pool])
      [\<lparr>rb_number = 4, rb_hash = 9\<rparr>] (demo_recordings, demo_store))
   = fst (replay map_kv reserve_codec (state_engine_with_caller recorded_call [demo_pool])
      [\<lparr>rb_number = 4, rb_hash = 9\<rparr>]
      (demo_recordings\<lparr>rs_witness := [(1, [2], 3)]\<rparr>, demo_store\<lparr>sn_saved_total := 8\<rparr>))"
proof -
  have "holds_recordings (rs_responses demo_recordings) (rs_known demo_recordings) demo_recordings"
    "holds_recordings (rs_responses demo_recordings) (rs_known demo_recordings)
       (demo_recordings\<lparr>rs_witness := [(1, [2], 3)]\<rparr>)"
    by (simp_all add: holds_recordings_def)
  from replay_deterministic[OF map_kv_never_fails map_kv_never_fails _ this,
      of "[\<lparr>rb_number = 4, rb_hash = 9\<rparr>]" "[demo_pool]" demo_store "demo_store\<lparr>sn_saved_total := 8\<rparr>"]
  show ?thesis by simp
qed

lemma refresh_pinned_to_block_hash_witness:
  "refresh_block map_kv reserve_codec
     (state_engine_with_caller (\<lambda>req b w. (if b = HashId 9 then Inr demo_reserves else Inl NodeClosed, w)) [demo_pool])
     4 9 ((), demo_store)
   = refresh_block map_kv reserve_codec
     (state_engine_with_caller (\<lambda>req b w. (Inr demo_reserves, w)) [demo_pool]) 4 9 ((), demo_store)"
  by (rule refresh_pinned_to_block_hash) (simp_all add: state_engine_with_caller_def)

end
