(* ===== verification/Opportunity.thy ===== *)
theory Opportunity
  imports State_Types Types
begin

text \<open>
  The opportunity engine of \<open>crates/opportunity/src/lib.rs\<close>: a pure comparison of two pool
  snapshots.  \<open>U256\<close> division by zero panics in Rust; both divisors are tested before.
\<close>

definition GAS_ESTIMATE_TWO_HOP_ARB :: u64 where "GAS_ESTIMATE_TWO_HOP_ARB = 350000"
definition OPTIMAL_AMOUNT_IN_WEI :: u256 where "OPTIMAL_AMOUNT_IN_WEI = 10000000000000000"
definition PRICE_Q64_SHIFT :: nat where "PRICE_Q64_SHIFT = 64"

record opportunity_engine =
  oe_weth :: address
  oe_usdc :: address

definition opportunity_engine_new :: "ingress_tokens \<Rightarrow> opportunity_engine" where
  "opportunity_engine_new t = \<lparr>oe_weth = weth t, oe_usdc = usdc t\<rparr>"

record opportunity_event =
  oo_block_number :: u64
  oo_block_hash :: b256
  source_pool :: pool_id
  sink_pool :: pool_id
  optimal_amount_in_wei :: u256
  expected_profit_wei :: u256
  gas_estimate :: u64

datatype opportunity_error = SamePool address | BlockMismatch u64 u64

fun pool_price_q64 :: "pool_state \<Rightarrow> u256 option" where
  "pool_price_q64 (UniV2 r0 r1 ts) =
     (if r0 = 0 then None
      else (case checked_shl r1 PRICE_Q64_SHIFT of
              None \<Rightarrow> None
            | Some shifted \<Rightarrow> Some (shifted div r0)))"
| "pool_price_q64 (UniV3 sp tk liq) =
     (if sp = 0 then None
      else (case checked_mul sp sp of
              None \<Rightarrow> None
            | Some sq \<Rightarrow> Some (drop_bit 128 sq)))"

text \<open>The tail of \<open>check\<close>, after the two pools are ordered by price.\<close>

definition check_spread ::
  "chain_context \<Rightarrow> pool_id \<Rightarrow> u256 \<Rightarrow> pool_id \<Rightarrow> u256 \<Rightarrow> opportunity_event option" where
  "check_spread ctx cheap_pool cheap_price expensive_pool expensive_price =
     (let price_diff = cheap_price - expensive_price;
          min_diff = drop_bit 12 cheap_price in
      if price_diff < min_diff then None
      else let amount_in_wei = OPTIMAL_AMOUNT_IN_WEI in
        (case checked_mul amount_in_wei price_diff of
           None \<Rightarrow> None
         | Some product \<Rightarrow>
             (case checked_div product cheap_price of
                None \<Rightarrow> None
              | Some profit_wei \<Rightarrow>
                  if profit_wei = 0 then None
                  else Some \<lparr>oo_block_number = block_number ctx, oo_block_hash = block_hash ctx,
                             source_pool = cheap_pool, sink_pool = expensive_pool,
                             optimal_amount_in_wei = amount_in_wei,
                             expected_profit_wei = profit_wei,
                             gas_estimate = GAS_ESTIMATE_TWO_HOP_ARB\<rparr>)))"

definition check_pair ::
  "chain_context \<Rightarrow> pool_id \<Rightarrow> pool_state \<Rightarrow> pool_id \<Rightarrow> pool_state \<Rightarrow> opportunity_event option" where
  "check_pair ctx pool_a state_a pool_b state_b =
     (if pid_address pool_a = pid_address pool_b then None
      else (case pool_price_q64 state_a of
              None \<Rightarrow> None
            | Some price_a \<Rightarrow>
                (case pool_price_q64 state_b of
                   None \<Rightarrow> None
                 | Some price_b \<Rightarrow>
                     if price_b < price_a then check_spread ctx pool_a price_a pool_b price_b
                     else if price_a < price_b then check_spread ctx pool_b price_b pool_a price_a
                     else None)))"

section \<open>Prices over the naturals\<close>

definition price_nat :: "pool_state \<Rightarrow> nat option" where
  "price_nat s =
     (case s of
        UniV2 r0 r1 ts \<Rightarrow>
          if r0 = 0 \<or> unat r1 * 2 ^ 64 \<ge> 2 ^ 256 then None else Some (unat r1 * 2 ^ 64 div unat r0)
      | UniV3 sp tk liq \<Rightarrow>
          if sp = 0 \<or> unat sp * unat sp \<ge> 2 ^ 256 then None else Some (unat sp * unat sp div 2 ^ 128))"

lemma pool_price_nat: "map_option unat (pool_price_q64 s) = price_nat s"
proof (cases s)
  case (UniV2 r0 r1 ts)
  show ?thesis
  proof (cases "checked_shl r1 64")
    case None
    then show ?thesis by (auto simp: UniV2 price_nat_def PRICE_Q64_SHIFT_def checked_shl_def split: if_splits)
  next
    case (Some c)
    moreover from this have "unat r1 * 2 ^ 64 < 2 ^ 256"
      by (auto simp: checked_shl_def split: if_splits)
    ultimately show ?thesis
      using checked_shl_SomeD[OF Some]
      by (auto simp: UniV2 price_nat_def PRICE_Q64_SHIFT_def unat_div)
  qed
next
  case (UniV3 sp tk liq)
  show ?thesis
  proof (cases "checked_mul sp sp")
    case None
    then show ?thesis by (auto simp: UniV3 price_nat_def checked_mul_def split: if_splits)
  next
    case (Some c)
    moreover from this have "unat sp * unat sp < 2 ^ 256"
      by (auto simp: checked_mul_def split: if_splits)
    ultimately show ?thesis
      using checked_mul_SomeD[OF Some]
      by (auto simp: UniV3 price_nat_def drop_bit_eq_div unat_div)
  qed
qed

lemma price_word_nat:
  "pool_price_q64 s = None \<longleftrightarrow> price_nat s = None"
  "pool_price_q64 s = Some p \<Longrightarrow> price_nat s = Some (unat p)"
  using pool_price_nat[of s] by auto

text \<open>The comparison of the tail, over the naturals: the spread is at least 1/4096 of the higher price
  (rounded down), and the predicted profit does not overflow and does not round to zero.\<close>

definition spread_pays :: "nat \<Rightarrow> nat \<Rightarrow> bool" where
  "spread_pays c e \<longleftrightarrow> e < c \<and> c div 4096 \<le> c - e \<and>
     10 ^ 16 * (c - e) < 2 ^ 256 \<and> c \<le> 10 ^ 16 * (c - e)"

lemma check_spread_Some:
  assumes "e < c"
  shows "check_spread ctx pc c pe e = Some ev \<longleftrightarrow>
    spread_pays (unat c) (unat e) \<and>
    ev = \<lparr>oo_block_number = block_number ctx, oo_block_hash = block_hash ctx,
          source_pool = pc, sink_pool = pe, optimal_amount_in_wei = OPTIMAL_AMOUNT_IN_WEI,
          expected_profit_wei = word_of_nat (10 ^ 16 * (unat c - unat e) div unat c),
          gas_estimate = GAS_ESTIMATE_TWO_HOP_ARB\<rparr>"
proof -
  have lt: "unat e < unat c" using assms by (simp add: word_less_nat_alt)
  have diff: "unat (c - e) = unat c - unat e"
    using assms by (intro unat_sub) simp
  have am: "unat (OPTIMAL_AMOUNT_IN_WEI) = 10 ^ 16" by (simp add: OPTIMAL_AMOUNT_IN_WEI_def)
  have floor: "c - e < drop_bit 12 c \<longleftrightarrow> unat c - unat e < unat c div 4096"
    by (simp add: word_less_nat_alt diff drop_bit_eq_div unat_div)
  have cm: "checked_mul OPTIMAL_AMOUNT_IN_WEI (c - e) =
      (if 10 ^ 16 * (unat c - unat e) < 2 ^ 256 then Some (OPTIMAL_AMOUNT_IN_WEI * (c - e)) else None)"
    by (simp add: checked_mul_def am diff)
  have c0: "c \<noteq> 0" using assms by auto
  have prod: "unat (OPTIMAL_AMOUNT_IN_WEI * (c - e)) = 10 ^ 16 * (unat c - unat e)"
    if "10 ^ 16 * (unat c - unat e) < 2 ^ 256"
    using that unat_mult_small[of OPTIMAL_AMOUNT_IN_WEI "c - e"] by (simp add: am diff)
  have quot: "OPTIMAL_AMOUNT_IN_WEI * (c - e) div c = word_of_nat (10 ^ 16 * (unat c - unat e) div unat c)"
    and zero: "OPTIMAL_AMOUNT_IN_WEI * (c - e) div c = 0 \<longleftrightarrow> 10 ^ 16 * (unat c - unat e) < unat c"
    if "10 ^ 16 * (unat c - unat e) < 2 ^ 256"
  proof -
    have u: "unat (OPTIMAL_AMOUNT_IN_WEI * (c - e) div c) = 10 ^ 16 * (unat c - unat e) div unat c"
      by (simp add: unat_div prod[OF that])
    then show "OPTIMAL_AMOUNT_IN_WEI * (c - e) div c = word_of_nat (10 ^ 16 * (unat c - unat e) div unat c)"
      by (metis of_nat_unat ucast_id)
    show "OPTIMAL_AMOUNT_IN_WEI * (c - e) div c = 0 \<longleftrightarrow> 10 ^ 16 * (unat c - unat e) < unat c"
      unfolding unat_eq_zero[symmetric] u using lt by (simp add: div_eq_0_iff)
  qed
  show ?thesis
    unfolding check_spread_def Let_def floor cm checked_div_def spread_pays_def
    using lt c0 quot zero by (auto simp: not_less)
qed

section \<open>Properties\<close>

definition event_of ::
  "chain_context \<Rightarrow> pool_id \<Rightarrow> nat \<Rightarrow> pool_id \<Rightarrow> nat \<Rightarrow> opportunity_event" where
  "event_of ctx pc c pe e =
     \<lparr>oo_block_number = block_number ctx, oo_block_hash = block_hash ctx, source_pool = pc,
      sink_pool = pe, optimal_amount_in_wei = OPTIMAL_AMOUNT_IN_WEI,
      expected_profit_wei = word_of_nat (10 ^ 16 * (c - e) div c),
      gas_estimate = GAS_ESTIMATE_TWO_HOP_ARB\<rparr>"

lemma check_pair_Some_iff:
  "check_pair ctx pa sa pb sb = Some ev \<longleftrightarrow>
     pid_address pa \<noteq> pid_address pb \<and>
     (\<exists>a b. price_nat sa = Some a \<and> price_nat sb = Some b \<and>
        (spread_pays a b \<and> ev = event_of ctx pa a pb b \<or>
         spread_pays b a \<and> ev = event_of ctx pb b pa a))"
proof (cases "\<exists>a b. pool_price_q64 sa = Some a \<and> pool_price_q64 sb = Some b")
  case False
  then have "check_pair ctx pa sa pb sb = None"
    by (auto simp: check_pair_def split: option.splits)
  moreover have "price_nat sa = None \<or> price_nat sb = None"
    using False price_word_nat(1)[of sa] price_word_nat(1)[of sb] by auto
  ultimately show ?thesis by auto
next
  case True
  then obtain a b where ab: "pool_price_q64 sa = Some a" "pool_price_q64 sb = Some b" by blast
  note nat = price_word_nat(2)[OF ab(1)] price_word_nat(2)[OF ab(2)]
  have no: "\<not> spread_pays m n" if "m \<le> n" for m n using that by (simp add: spread_pays_def)
  consider "b < a" | "a < b" | "a = b" by force
  then show ?thesis
  proof cases
    case 1
    then show ?thesis
      using no[of "unat b" "unat a"] check_spread_Some[OF 1, of ctx pa pb ev]
      by (auto simp: check_pair_def ab nat event_of_def word_less_nat_alt)
  next
    case 2
    then show ?thesis
      using no[of "unat a" "unat b"] check_spread_Some[OF 2, of ctx pb pa ev]
      by (auto simp: check_pair_def ab nat event_of_def word_less_nat_alt)
  next
    case 3
    then show ?thesis using no[of "unat a" "unat a"]
      by (auto simp: check_pair_def ab nat)
  qed
qed

text \<open>Two Uniswap V2 pools whose prices are \<open>a\<close> and \<open>b\<close> times \<open>2 ^ 64\<close> over \<open>r\<close>.\<close>

lemma v2_pair_pays:
  assumes "spread_pays (a * 2 ^ 64 div r) (b * 2 ^ 64 div r)" "0 < r" "r < 2 ^ 112" "a < 2 ^ 112" "b < 2 ^ 112"
  shows "check_pair ctx \<lparr>pid_kind = UniswapV2, pid_address = 1\<rparr> (UniV2 (word_of_nat r) (word_of_nat a) 0)
    \<lparr>pid_kind = SushiswapV2, pid_address = 2\<rparr> (UniV2 (word_of_nat r) (word_of_nat b) 0) \<noteq> None"
proof -
  have u: "unat (word_of_nat n :: u256) = n" if "n < 2 ^ 112" for n
    using that by (simp add: unsigned_of_nat take_bit_nat_eq_self)
  have "(word_of_nat r :: u256) \<noteq> 0" using u[OF assms(3)] assms(2) by (metis less_irrefl unsigned_0)
  then have "price_nat (UniV2 (word_of_nat r) (word_of_nat n) 0) = Some (n * 2 ^ 64 div r)" if "n < 2 ^ 112" for n
    using that u[OF that] u[OF assms(3)] by (simp add: price_nat_def)
  then show ?thesis
    using assms(1,4,5) check_pair_Some_iff[of ctx "\<lparr>pid_kind = UniswapV2, pid_address = 1\<rparr>" "UniV2 (word_of_nat r) (word_of_nat a) 0"
      "\<lparr>pid_kind = SushiswapV2, pid_address = 2\<rparr>" "UniV2 (word_of_nat r) (word_of_nat b) 0"]
    by (auto simp del: not_None_eq)
qed

text \<open>C29: The opportunity check, exactly.  An event is produced precisely when the pools are distinct,
  both prices exist, and the spread pays: strictly positive, at least 1/4096 of the higher price,
  and with a linear profit that neither overflows nor rounds to zero.  The source is the pool with
  the higher Q64 price, and the profit is the floor of amount times spread over price.  A 4096th is 2.44 basis
  points; the comments of the code and its tests call it about 24, and the module documentation asks for more
  than the threshold.  Neither is what the code does: a spread of 10 basis points (a price of 1.0010 against
  1) is reported, and so is one of exactly a 4096th.\<close>

theorem opportunity_check_exact:
  "(check_pair ctx pa sa pb sb = Some ev) =
     (pid_address pa \<noteq> pid_address pb \<and>
      (\<exists>a b. price_nat sa = Some a \<and> price_nat sb = Some b \<and>
         (spread_pays a b \<and> ev = event_of ctx pa a pb b \<or>
          spread_pays b a \<and> ev = event_of ctx pb b pa a))) \<and>
   check_pair ctx \<lparr>pid_kind = UniswapV2, pid_address = 1\<rparr> (UniV2 10000 10010 0)
     \<lparr>pid_kind = SushiswapV2, pid_address = 2\<rparr> (UniV2 10000 10000 0) \<noteq> None \<and>
   check_pair ctx \<lparr>pid_kind = UniswapV2, pid_address = 1\<rparr> (UniV2 1 4096 0)
     \<lparr>pid_kind = SushiswapV2, pid_address = 2\<rparr> (UniV2 1 4095 0) \<noteq> None"
proof (intro conjI)
  show "check_pair ctx \<lparr>pid_kind = UniswapV2, pid_address = 1\<rparr> (UniV2 10000 10010 0)
     \<lparr>pid_kind = SushiswapV2, pid_address = 2\<rparr> (UniV2 10000 10000 0) \<noteq> None"
    using v2_pair_pays[of 10010 10000 10000 ctx] by (simp add: spread_pays_def)
  show "check_pair ctx \<lparr>pid_kind = UniswapV2, pid_address = 1\<rparr> (UniV2 1 4096 0)
     \<lparr>pid_kind = SushiswapV2, pid_address = 2\<rparr> (UniV2 1 4095 0) \<noteq> None"
    using v2_pair_pays[of 4096 1 4095 ctx] by (simp add: spread_pays_def)
qed (rule check_pair_Some_iff)

text \<open>The direction of an opportunity does not depend on the order in which the caller passes the
  two pools.\<close>

theorem opportunity_check_symmetric:
  "check_pair ctx pa sa pb sb = check_pair ctx pb sb pa sa"
proof -
  have "check_pair ctx pa sa pb sb = Some ev \<longleftrightarrow> check_pair ctx pb sb pa sa = Some ev" for ev
    unfolding check_pair_Some_iff by auto
  then show ?thesis by (metis not_Some_eq)
qed

text \<open>What a reported opportunity is worth.  The predicted profit is positive and never more than
  the amount put in, the probe size and the gas estimate are the constants, source and sink are the
  two pools given and differ, and the event carries the block of the chain context.\<close>

theorem opportunity_profit_bounded:
  assumes "check_pair ctx pa sa pb sb = Some ev"
  shows "0 < expected_profit_wei ev \<and> expected_profit_wei ev \<le> optimal_amount_in_wei ev \<and>
    optimal_amount_in_wei ev = 10 ^ 16 \<and> gas_estimate ev = 350000 \<and>
    {source_pool ev, sink_pool ev} = {pa, pb} \<and>
    pid_address (source_pool ev) \<noteq> pid_address (sink_pool ev) \<and>
    oo_block_number ev = block_number ctx \<and> oo_block_hash ev = block_hash ctx"
proof -
  have val: "0 < (word_of_nat (10 ^ 16 * (c - e) div c) :: u256) \<and>
      (word_of_nat (10 ^ 16 * (c - e) div c) :: u256) \<le> OPTIMAL_AMOUNT_IN_WEI" if "spread_pays c e" for c e
  proof -
    let ?q = "10 ^ 16 * (c - e) div c"
    have "?q \<le> 10 ^ 16 * c div c" by (intro div_le_mono) simp
    also have "\<dots> = 10 ^ 16" using that by (simp add: spread_pays_def)
    finally have le: "?q \<le> 10 ^ 16" .
    have pos: "0 < ?q" using that by (simp add: spread_pays_def div_greater_zero_iff)
    have "unat (word_of_nat ?q :: u256) = ?q"
      using le by (simp add: unsigned_of_nat take_bit_nat_eq_self)
    then show ?thesis using le pos
      by (simp add: word_le_nat_alt word_less_nat_alt OPTIMAL_AMOUNT_IN_WEI_def)
  qed
  from assms obtain c e pc pe where
    ev: "spread_pays c e" "ev = event_of ctx pc c pe e" "{pc, pe} = {pa, pb}"
      "pid_address pc \<noteq> pid_address pe"
    unfolding check_pair_Some_iff by (metis insert_commute)
  show ?thesis using val[OF ev(1)] ev(2-4)
    by (simp add: event_of_def OPTIMAL_AMOUNT_IN_WEI_def GAS_ESTIMATE_TWO_HOP_ARB_def)
qed

definition demo_opportunity :: "opportunity_event option" where
  "demo_opportunity = check_pair \<lparr>chain_id = 1, block_number = 7, block_hash = 9\<rparr>
     \<lparr>pid_kind = UniswapV2, pid_address = 1\<rparr> (UniV2 1000 500 0)
     \<lparr>pid_kind = SushiswapV2, pid_address = 2\<rparr> (UniV2 1000 510 0)"

theorem opportunity_profit_bounded_witness:
  "\<exists>ev. demo_opportunity = Some ev \<and> 0 < expected_profit_wei ev"
proof -
  have "spread_pays (510 * 2 ^ 64 div 1000) (500 * 2 ^ 64 div 1000)" by (simp add: spread_pays_def)
  then obtain ev where "demo_opportunity = Some ev"
    unfolding demo_opportunity_def check_pair_Some_iff by (auto simp: price_nat_def)
  moreover from opportunity_profit_bounded[OF this[unfolded demo_opportunity_def]]
  have "0 < expected_profit_wei ev" by blast
  ultimately show ?thesis by blast
qed

end
