(* ===== verification/Risk.thy ===== *)
theory Risk
  imports Opportunity
begin

text \<open>
  The risk gate of \<open>crates/risk/src/lib.rs\<close>.  The resubmit table is a map; the arithmetic on \<open>U256\<close>
  is the wrapping \<open>*\<close> and \<open>+\<close> of the source, and division is by the constant 10 000.
\<close>

section \<open>Configuration and state\<close>

definition DEFAULT_PER_BUNDLE_MAX_NOTIONAL_WEI :: u128 where
  "DEFAULT_PER_BUNDLE_MAX_NOTIONAL_WEI = 100000000000000000"
definition DEFAULT_PER_BUNDLE_MAX_NOTIONAL_RELATIVE_BPS :: u16 where
  "DEFAULT_PER_BUNDLE_MAX_NOTIONAL_RELATIVE_BPS = 100"
definition DEFAULT_DAILY_REALIZED_LOSS_CAP_WEI :: u128 where
  "DEFAULT_DAILY_REALIZED_LOSS_CAP_WEI = 50000000000000000"
definition DEFAULT_DAILY_REALIZED_LOSS_CAP_RELATIVE_BPS :: u16 where
  "DEFAULT_DAILY_REALIZED_LOSS_CAP_RELATIVE_BPS = 300"
definition DEFAULT_MAX_GAS_SPEND_PER_DAY_WEI :: u128 where
  "DEFAULT_MAX_GAS_SPEND_PER_DAY_WEI = 30000000000000000"
definition DEFAULT_MAX_CONCURRENT_LIVE_BUNDLES :: u32 where
  "DEFAULT_MAX_CONCURRENT_LIVE_BUNDLES = 1"
definition DEFAULT_MAX_RESUBMITS_PER_OPPORTUNITY :: u32 where
  "DEFAULT_MAX_RESUBMITS_PER_OPPORTUNITY = 2"
definition DEFAULT_INITIAL_CANARY_CAPITAL_WEI :: u128 where
  "DEFAULT_INITIAL_CANARY_CAPITAL_WEI = 500000000000000000"
definition DEFAULT_GAS_PRICE_PROXY_WEI :: u128 where
  "DEFAULT_GAS_PRICE_PROXY_WEI = 30000000000"

record risk_budget_config =
  per_bundle_max_notional_wei :: u256
  per_bundle_max_notional_relative_bps :: u16
  daily_realized_loss_cap_wei :: u256
  daily_realized_loss_cap_relative_bps :: u16
  max_gas_spend_per_day_wei :: u256
  max_concurrent_live_bundles :: u32
  max_resubmits_per_opportunity :: u32
  initial_canary_capital_wei :: u256
  gas_price_proxy_wei :: u256
  strategy_capital_wei :: "u256 option"

definition risk_defaults :: risk_budget_config where
  "risk_defaults =
     \<lparr>per_bundle_max_notional_wei = ucast DEFAULT_PER_BUNDLE_MAX_NOTIONAL_WEI,
      per_bundle_max_notional_relative_bps = DEFAULT_PER_BUNDLE_MAX_NOTIONAL_RELATIVE_BPS,
      daily_realized_loss_cap_wei = ucast DEFAULT_DAILY_REALIZED_LOSS_CAP_WEI,
      daily_realized_loss_cap_relative_bps = DEFAULT_DAILY_REALIZED_LOSS_CAP_RELATIVE_BPS,
      max_gas_spend_per_day_wei = ucast DEFAULT_MAX_GAS_SPEND_PER_DAY_WEI,
      max_concurrent_live_bundles = DEFAULT_MAX_CONCURRENT_LIVE_BUNDLES,
      max_resubmits_per_opportunity = DEFAULT_MAX_RESUBMITS_PER_OPPORTUNITY,
      initial_canary_capital_wei = ucast DEFAULT_INITIAL_CANARY_CAPITAL_WEI,
      gas_price_proxy_wei = ucast DEFAULT_GAS_PRICE_PROXY_WEI,
      strategy_capital_wei = None\<rparr>"

record opportunity_key =
  ok_block_number :: u64
  ok_source_pool :: address
  ok_sink_pool :: address

definition key_from_event :: "opportunity_event \<Rightarrow> opportunity_key" where
  "key_from_event opp =
     \<lparr>ok_block_number = oo_block_number opp, ok_source_pool = pid_address (source_pool opp),
      ok_sink_pool = pid_address (sink_pool opp)\<rparr>"

record risk_budget_state =
  daily_realized_loss_wei :: u256
  gas_spend_today_wei :: u256
  concurrent_live_bundles :: u32
  resubmits_per_opportunity :: "opportunity_key \<Rightarrow> u32 option"
  day_started_unix_ns :: u64
  canary_remaining_wei :: u256

definition risk_state_new :: "risk_budget_config \<Rightarrow> u64 \<Rightarrow> risk_budget_state" where
  "risk_state_new c day =
     \<lparr>daily_realized_loss_wei = 0, gas_spend_today_wei = 0, concurrent_live_bundles = 0,
      resubmits_per_opportunity = (\<lambda>_. None), day_started_unix_ns = day,
      canary_remaining_wei = initial_canary_capital_wei c\<rparr>"

datatype abort_category =
    PerBundleNotionalCapExceeded
  | DailyLossCapWouldBeExceeded
  | DailyGasCapWouldBeExceeded
  | ConcurrencyCapExceeded
  | ResubmitCapExceeded
  | InsufficientCanaryCapital

record risk_checked_opportunity =
  rc_opportunity :: opportunity_event
  rc_size_wei :: u256

record opportunity_aborted =
  oa_opportunity :: opportunity_event
  oa_category :: abort_category

record risk_gate =
  rg_config :: risk_budget_config
  rg_state :: risk_budget_state

definition risk_gate_new :: "risk_budget_config \<Rightarrow> risk_gate" where
  "risk_gate_new c = \<lparr>rg_config = c, rg_state = risk_state_new c 0\<rparr>"

definition risk_gate_with_state :: "risk_budget_config \<Rightarrow> risk_budget_state \<Rightarrow> risk_gate" where
  "risk_gate_with_state c s = \<lparr>rg_config = c, rg_state = s\<rparr>"

section \<open>Evaluation\<close>

definition effective_cap :: "u256 \<Rightarrow> u16 \<Rightarrow> u256 option \<Rightarrow> u256" where
  "effective_cap absolute bps capital =
     (case capital of
        Some strategy_cap \<Rightarrow> min absolute (strategy_cap * ucast bps div 10000)
      | None \<Rightarrow> absolute)"

definition clamped_size :: "risk_budget_config \<Rightarrow> opportunity_event \<Rightarrow> u256" where
  "clamped_size c opp =
     min (optimal_amount_in_wei opp)
       (effective_cap (per_bundle_max_notional_wei c) (per_bundle_max_notional_relative_bps c)
          (strategy_capital_wei c))"

definition loss_cap :: "risk_budget_config \<Rightarrow> u256" where
  "loss_cap c = effective_cap (daily_realized_loss_cap_wei c) (daily_realized_loss_cap_relative_bps c)
     (strategy_capital_wei c)"

definition resubmits_of :: "risk_budget_state \<Rightarrow> opportunity_event \<Rightarrow> u32" where
  "resubmits_of s opp =
     (case resubmits_per_opportunity s (key_from_event opp) of None \<Rightarrow> 0 | Some n \<Rightarrow> n)"

definition gas_after :: "risk_budget_config \<Rightarrow> risk_budget_state \<Rightarrow> opportunity_event \<Rightarrow> u256" where
  "gas_after c s opp = gas_spend_today_wei s + ucast (gas_estimate opp) * gas_price_proxy_wei c"

definition evaluate :: "risk_gate \<Rightarrow> opportunity_event \<Rightarrow> opportunity_aborted + risk_checked_opportunity" where
  "evaluate g opp =
     (let c = rg_config g; s = rg_state g;
          aborted = (\<lambda>cat. Inl \<lparr>oa_opportunity = opp, oa_category = cat\<rparr>);
          size = clamped_size c opp in
      if concurrent_live_bundles s \<ge> max_concurrent_live_bundles c
      then aborted ConcurrencyCapExceeded
      else if resubmits_of s opp \<ge> max_resubmits_per_opportunity c
      then aborted ResubmitCapExceeded
      else if size > canary_remaining_wei s then aborted InsufficientCanaryCapital
      else if daily_realized_loss_wei s \<ge> loss_cap c then aborted DailyLossCapWouldBeExceeded
      else if gas_after c s opp > max_gas_spend_per_day_wei c then aborted DailyGasCapWouldBeExceeded
      else Inr \<lparr>rc_opportunity = opp, rc_size_wei = size\<rparr>)"

section \<open>Lemmas\<close>

lemma effective_cap_le: "effective_cap a b cap \<le> a"
  by (simp add: effective_cap_def split: option.split)

lemma effective_cap_relative:
  assumes "unat k * unat b < 2 ^ 256"
  shows "unat (effective_cap a b (Some k)) = min (unat a) (unat k * unat b div 10000)"
proof -
  have ub: "unat (ucast b :: u256) = unat b"
    using unat_lt_exp[of b] by (simp add: unsigned_ucast_eq unsigned_take_bit_eq take_bit_nat_eq_self)
  then have "unat (k * ucast b) = unat k * unat b"
    using unat_mult_small[of k "ucast b :: u256"] assms by simp
  then show ?thesis by (simp add: effective_cap_def unat_min_word unat_div)
qed

lemma evaluate_Inr:
  "evaluate g opp = Inr r \<longleftrightarrow>
     concurrent_live_bundles (rg_state g) < max_concurrent_live_bundles (rg_config g) \<and>
     resubmits_of (rg_state g) opp < max_resubmits_per_opportunity (rg_config g) \<and>
     clamped_size (rg_config g) opp \<le> canary_remaining_wei (rg_state g) \<and>
     daily_realized_loss_wei (rg_state g) < loss_cap (rg_config g) \<and>
     gas_after (rg_config g) (rg_state g) opp \<le> max_gas_spend_per_day_wei (rg_config g) \<and>
     r = \<lparr>rc_opportunity = opp, rc_size_wei = clamped_size (rg_config g) opp\<rparr>"
  by (auto simp: evaluate_def Let_def not_le not_less)

lemma gas_after_nat:
  assumes "unat (gas_spend_today_wei s) + unat (gas_estimate opp) * unat (gas_price_proxy_wei c) < 2 ^ 256"
  shows "unat (gas_after c s opp)
    = unat (gas_spend_today_wei s) + unat (gas_estimate opp) * unat (gas_price_proxy_wei c)"
proof -
  let ?g = "ucast (gas_estimate opp) :: u256"
  have ug: "unat ?g = unat (gas_estimate opp)"
    using unat_lt_exp[of "gas_estimate opp"]
    by (simp add: unsigned_ucast_eq unsigned_take_bit_eq take_bit_nat_eq_self)
  have "unat (?g * gas_price_proxy_wei c) = unat (gas_estimate opp) * unat (gas_price_proxy_wei c)"
    using unat_mult_small[of ?g "gas_price_proxy_wei c"] assms ug by simp
  then show ?thesis
    using unat_add_small[of "gas_spend_today_wei s" "?g * gas_price_proxy_wei c"] assms
    by (simp add: gas_after_def)
qed

section \<open>The caps over the naturals\<close>

text \<open>The specification of a cap: the absolute amount, and the basis points of the strategy capital when
  there is one, whichever is less.\<close>

definition cap_nat :: "u256 \<Rightarrow> u16 \<Rightarrow> u256 option \<Rightarrow> nat" where
  "cap_nat absolute bps capital =
     (case capital of
        None \<Rightarrow> unat absolute
      | Some k \<Rightarrow> min (unat absolute) (unat k * unat bps div 10000))"

text \<open>What the bundle would bring the gas spending of the day to, and the size it may have.\<close>

definition spending_nat :: "risk_gate \<Rightarrow> opportunity_event \<Rightarrow> nat" where
  "spending_nat g opp =
     unat (gas_spend_today_wei (rg_state g)) + unat (gas_estimate opp) * unat (gas_price_proxy_wei (rg_config g))"

definition size_nat :: "risk_gate \<Rightarrow> opportunity_event \<Rightarrow> nat" where
  "size_nat g opp =
     min (unat (optimal_amount_in_wei opp))
       (cap_nat (per_bundle_max_notional_wei (rg_config g)) (per_bundle_max_notional_relative_bps (rg_config g))
          (strategy_capital_wei (rg_config g)))"

text \<open>No product or sum the gate computes leaves 256 bits.\<close>

definition capital_fits :: "risk_budget_config \<Rightarrow> bool" where
  "capital_fits c =
     (case strategy_capital_wei c of
        None \<Rightarrow> True
      | Some k \<Rightarrow> unat k * unat (per_bundle_max_notional_relative_bps c) < 2 ^ 256 \<and>
          unat k * unat (daily_realized_loss_cap_relative_bps c) < 2 ^ 256)"

definition budget_fits :: "risk_gate \<Rightarrow> opportunity_event \<Rightarrow> bool" where
  "budget_fits g opp = (capital_fits (rg_config g) \<and> spending_nat g opp < 2 ^ 256)"

lemma effective_cap_nat:
  "capital_fits c \<Longrightarrow> bps = per_bundle_max_notional_relative_bps c \<or> bps = daily_realized_loss_cap_relative_bps c \<Longrightarrow>
     unat (effective_cap a bps (strategy_capital_wei c)) = cap_nat a bps (strategy_capital_wei c)"
proof (cases "strategy_capital_wei c")
  case (Some k)
  assume "capital_fits c" "bps = per_bundle_max_notional_relative_bps c \<or> bps = daily_realized_loss_cap_relative_bps c"
  then have "unat k * unat bps < 2 ^ 256" by (auto simp: capital_fits_def Some)
  then show ?thesis using effective_cap_relative[of k bps a] by (simp add: Some cap_nat_def)
qed (simp add: effective_cap_def cap_nat_def)

lemma clamped_size_nat: "capital_fits (rg_config g) \<Longrightarrow> unat (clamped_size (rg_config g) opp) = size_nat g opp"
  by (simp add: clamped_size_def size_nat_def unat_min_word effective_cap_nat)

lemma loss_cap_nat:
  "capital_fits c \<Longrightarrow>
     unat (loss_cap c)
       = cap_nat (daily_realized_loss_cap_wei c) (daily_realized_loss_cap_relative_bps c) (strategy_capital_wei c)"
  by (simp add: loss_cap_def effective_cap_nat)

lemma evaluate_nat:
  assumes "budget_fits g opp"
  shows "evaluate g opp = Inr r \<longleftrightarrow>
     concurrent_live_bundles (rg_state g) < max_concurrent_live_bundles (rg_config g) \<and>
     resubmits_of (rg_state g) opp < max_resubmits_per_opportunity (rg_config g) \<and>
     size_nat g opp \<le> unat (canary_remaining_wei (rg_state g)) \<and>
     unat (daily_realized_loss_wei (rg_state g))
       < cap_nat (daily_realized_loss_cap_wei (rg_config g)) (daily_realized_loss_cap_relative_bps (rg_config g))
           (strategy_capital_wei (rg_config g)) \<and>
     spending_nat g opp \<le> unat (max_gas_spend_per_day_wei (rg_config g)) \<and>
     rc_opportunity r = opp \<and> unat (rc_size_wei r) = size_nat g opp"
proof -
  have c: "capital_fits (rg_config g)" and s: "spending_nat g opp < 2 ^ 256"
    using assms by (simp_all add: budget_fits_def)
  have gas: "unat (gas_after (rg_config g) (rg_state g) opp) = spending_nat g opp"
    using gas_after_nat s unfolding spending_nat_def by blast
  have size: "r = \<lparr>rc_opportunity = opp, rc_size_wei = clamped_size (rg_config g) opp\<rparr> \<longleftrightarrow>
      rc_opportunity r = opp \<and> unat (rc_size_wei r) = size_nat g opp"
    by (cases r) (auto simp: word_unat_eq_iff clamped_size_nat[OF c])
  show ?thesis
    unfolding evaluate_Inr size by (simp add: word_le_nat_alt word_less_nat_alt gas clamped_size_nat[OF c] loss_cap_nat[OF c])
qed

definition demo_risk_opp :: opportunity_event where
  "demo_risk_opp = \<lparr>oo_block_number = 7, oo_block_hash = 9,
     source_pool = \<lparr>pid_kind = UniswapV2, pid_address = 1\<rparr>,
     sink_pool = \<lparr>pid_kind = SushiswapV2, pid_address = 2\<rparr>,
     optimal_amount_in_wei = 10000000000000000, expected_profit_wei = 5,
     gas_estimate = 350000\<rparr>"

definition demo_capital_gate :: risk_gate where
  "demo_capital_gate = risk_gate_new (risk_defaults\<lparr>strategy_capital_wei := Some 500000000000000000\<rparr>)"

lemmas risk_demo_simps = evaluate_def Let_def risk_gate_new_def risk_state_new_def risk_defaults_def
  demo_risk_opp_def demo_capital_gate_def clamped_size_def effective_cap_def loss_cap_def resubmits_of_def gas_after_def
  DEFAULT_PER_BUNDLE_MAX_NOTIONAL_WEI_def DEFAULT_DAILY_REALIZED_LOSS_CAP_WEI_def
  DEFAULT_MAX_GAS_SPEND_PER_DAY_WEI_def DEFAULT_MAX_CONCURRENT_LIVE_BUNDLES_def
  DEFAULT_MAX_RESUBMITS_PER_OPPORTUNITY_def DEFAULT_INITIAL_CANARY_CAPITAL_WEI_def
  DEFAULT_PER_BUNDLE_MAX_NOTIONAL_RELATIVE_BPS_def DEFAULT_DAILY_REALIZED_LOSS_CAP_RELATIVE_BPS_def
  DEFAULT_GAS_PRICE_PROXY_WEI_def min_def

lemma demo_risk_approved:
  "evaluate (risk_gate_new risk_defaults) demo_risk_opp
    = Inr \<lparr>rc_opportunity = demo_risk_opp, rc_size_wei = 10000000000000000\<rparr>"
  by (simp add: risk_demo_simps)

section \<open>Properties\<close>

text \<open>C7: What an approval guarantees, over the naturals.  As long as no product or sum of the gate leaves
  256 bits (\<open>budget_fits\<close>; the operators of the source wrap), an opportunity is approved exactly when a
  bundle slot is free, a resubmit is left for its key, its size fits the remaining canary capital, the
  realised loss of the day is strictly below the loss cap, and the gas spent today plus the whole projected
  cost of this bundle is within the daily budget; the approval hands on the opportunity itself with the
  requested amount clamped to the per-bundle cap.  Both caps are the absolute amount or the configured basis
  points of the strategy capital over 10 000, rounded down, whichever is less, when a capital is configured.
  The restriction is needed for the relative caps and the gas: a product that wraps to zero lets a bundle
  through whose projected cost is far over the budget (the last conjunct, a configuration with a gas price
  of \<open>2 ^ 255\<close>).\<close>

theorem risk_approval_within_caps:
  "(budget_fits g opp \<longrightarrow>
     (evaluate g opp = Inr r \<longleftrightarrow>
       concurrent_live_bundles (rg_state g) < max_concurrent_live_bundles (rg_config g) \<and>
       resubmits_of (rg_state g) opp < max_resubmits_per_opportunity (rg_config g) \<and>
       size_nat g opp \<le> unat (canary_remaining_wei (rg_state g)) \<and>
       unat (daily_realized_loss_wei (rg_state g))
         < cap_nat (daily_realized_loss_cap_wei (rg_config g)) (daily_realized_loss_cap_relative_bps (rg_config g))
             (strategy_capital_wei (rg_config g)) \<and>
       spending_nat g opp \<le> unat (max_gas_spend_per_day_wei (rg_config g)) \<and>
       rc_opportunity r = opp \<and> unat (rc_size_wei r) = size_nat g opp)) \<and>
   (\<exists>c dear. is_ok (evaluate (risk_gate_new c) dear) \<and>
     spending_nat (risk_gate_new c) dear > unat (max_gas_spend_per_day_wei c))"
proof (intro conjI impI exI)
  let ?c = "risk_defaults\<lparr>gas_price_proxy_wei := 2 ^ 255\<rparr>"
  show "is_ok (evaluate (risk_gate_new ?c) demo_risk_opp)" by (simp add: risk_demo_simps)
  show "spending_nat (risk_gate_new ?c) demo_risk_opp > unat (max_gas_spend_per_day_wei ?c)"
    by (simp add: spending_nat_def demo_risk_opp_def risk_gate_new_def risk_state_new_def risk_defaults_def
        DEFAULT_MAX_GAS_SPEND_PER_DAY_WEI_def)
qed (rule evaluate_nat)

text \<open>A capital of half an ether: one per cent of it is below the absolute cap and below the request, and
  the approval has that size.\<close>

theorem risk_approval_within_caps_witness:
  "budget_fits demo_capital_gate demo_risk_opp \<and>
   evaluate demo_capital_gate demo_risk_opp = Inr \<lparr>rc_opportunity = demo_risk_opp, rc_size_wei = 5000000000000000\<rparr>"
proof -
  have fits: "budget_fits demo_capital_gate demo_risk_opp"
    by (simp add: budget_fits_def capital_fits_def spending_nat_def risk_demo_simps)
  with risk_approval_within_caps[of demo_capital_gate demo_risk_opp] show ?thesis
    by (simp add: size_nat_def cap_nat_def spending_nat_def demo_capital_gate_def risk_gate_new_def risk_state_new_def
        risk_defaults_def demo_risk_opp_def resubmits_of_def min_def
        DEFAULT_PER_BUNDLE_MAX_NOTIONAL_WEI_def DEFAULT_DAILY_REALIZED_LOSS_CAP_WEI_def
        DEFAULT_MAX_GAS_SPEND_PER_DAY_WEI_def DEFAULT_MAX_CONCURRENT_LIVE_BUNDLES_def
        DEFAULT_MAX_RESUBMITS_PER_OPPORTUNITY_def DEFAULT_INITIAL_CANARY_CAPITAL_WEI_def
        DEFAULT_PER_BUNDLE_MAX_NOTIONAL_RELATIVE_BPS_def DEFAULT_DAILY_REALIZED_LOSS_CAP_RELATIVE_BPS_def
        DEFAULT_GAS_PRICE_PROXY_WEI_def)
qed

text \<open>The abort category is the first cap that fails, in the documented order; the gate aborts
  exactly when some cap fails, and always hands back the opportunity it was asked about.\<close>

theorem risk_abort_exact:
  "evaluate g opp =
     (let c = rg_config g; s = rg_state g;
          caps = [(ConcurrencyCapExceeded, concurrent_live_bundles s < max_concurrent_live_bundles c),
                  (ResubmitCapExceeded, resubmits_of s opp < max_resubmits_per_opportunity c),
                  (InsufficientCanaryCapital, clamped_size c opp \<le> canary_remaining_wei s),
                  (DailyLossCapWouldBeExceeded, daily_realized_loss_wei s < loss_cap c),
                  (DailyGasCapWouldBeExceeded, gas_after c s opp \<le> max_gas_spend_per_day_wei c)] in
      case find (\<lambda>(cat, ok). \<not> ok) caps of
        Some (cat, _) \<Rightarrow> Inl \<lparr>oa_opportunity = opp, oa_category = cat\<rparr>
      | None \<Rightarrow> Inr \<lparr>rc_opportunity = opp, rc_size_wei = clamped_size c opp\<rparr>)"
  by (simp add: evaluate_def Let_def not_le not_less)

end
