(* ===== verification/Rlp.thy ===== *)
theory Rlp
  imports Prelude
begin

text \<open>
  Recursive length prefix encoding as the signer uses it (the crate \<open>alloy_rlp\<close>).  The encoder is a
  parameter of the signer with the contract \<open>rlp_encoding\<close>: the announced lengths are the lengths
  written, and an item can be read off the front of any byte string.  The standard encoding
  (Ethereum yellow paper, appendix B) is shown to meet it.
\<close>

record rlp_ops =
  ro_u64 :: "u64 \<Rightarrow> bytes"
  ro_u256 :: "u256 \<Rightarrow> bytes"
  ro_address :: "address \<Rightarrow> bytes"
  ro_bytes :: "bytes \<Rightarrow> bytes"
  ro_header :: "bool \<Rightarrow> nat \<Rightarrow> bytes"
  ro_u64_len :: "u64 \<Rightarrow> nat"
  ro_u256_len :: "u256 \<Rightarrow> nat"
  ro_address_len :: "address \<Rightarrow> nat"
  ro_bytes_len :: "bytes \<Rightarrow> nat"
  ro_header_len :: "bool \<Rightarrow> nat \<Rightarrow> nat"

locale rlp_encoding =
  fixes ro :: rlp_ops
  assumes u64_len: "ro_u64_len ro x = length (ro_u64 ro x)"
    and u256_len: "ro_u256_len ro y = length (ro_u256 ro y)"
    and address_len: "ro_address_len ro a = length (ro_address ro a)"
    and bytes_len: "ro_bytes_len ro b = length (ro_bytes ro b)"
    and header_len: "ro_header_len ro l n = length (ro_header ro l n)"
    and u64_prefix: "ro_u64 ro x @ r = ro_u64 ro x' @ r' \<Longrightarrow> x = x' \<and> r = r'"
    and u256_prefix: "ro_u256 ro y @ r = ro_u256 ro y' @ r' \<Longrightarrow> y = y' \<and> r = r'"
    and address_prefix: "ro_address ro a @ r = ro_address ro a' @ r' \<Longrightarrow> a = a' \<and> r = r'"
    and bytes_prefix: "length b < 2 ^ 63 \<Longrightarrow> length b' < 2 ^ 63 \<Longrightarrow>
          ro_bytes ro b @ r = ro_bytes ro b' @ r' \<Longrightarrow> b = b' \<and> r = r'"
    and header_prefix: "n < 2 ^ 64 \<Longrightarrow> n' < 2 ^ 64 \<Longrightarrow>
          ro_header ro l n @ r = ro_header ro l n' @ r' \<Longrightarrow> n = n' \<and> r = r'"

section \<open>The standard encoding\<close>

fun minimal_be :: "nat \<Rightarrow> bytes" where
  "minimal_be n = (if n = 0 then [] else minimal_be (n div 256) @ [byte_of (n mod 256)])"

declare minimal_be.simps [simp del]

definition rlp_header :: "bool \<Rightarrow> nat \<Rightarrow> bytes" where
  "rlp_header lst n =
     (let base = (if lst then 192 else 128) in
      if n < 56 then [byte_of (base + n)]
      else byte_of (base + 55 + length (minimal_be n)) # minimal_be n)"

definition rlp_bytes :: "bytes \<Rightarrow> bytes" where
  "rlp_bytes bs =
     (if length bs = 1 \<and> unat (hd bs) < 128 then bs else rlp_header False (length bs) @ bs)"

definition rlp_nat :: "nat \<Rightarrow> bytes" where
  "rlp_nat n = rlp_bytes (minimal_be n)"

text \<open>Reading a header and an item back.\<close>

definition rlp_read_header :: "bool \<Rightarrow> bytes \<Rightarrow> nat \<times> bytes" where
  "rlp_read_header lst bs =
     (let base = (if lst then 192 else 128); b = unat (hd bs) - base; rest = tl bs in
      if b < 56 then (b, rest) else (be_to_nat (take (b - 55) rest), drop (b - 55) rest))"

definition rlp_read_bytes :: "bytes \<Rightarrow> bytes \<times> bytes" where
  "rlp_read_bytes bs =
     (if unat (hd bs) < 128 then ([hd bs], tl bs)
      else case rlp_read_header False bs of (n, rest) \<Rightarrow> (take n rest, drop n rest))"

lemma be_to_nat_snoc: "be_to_nat (bs @ [b]) = 256 * be_to_nat bs + unat b"
  by (simp add: be_to_nat_def)

lemma be_minimal_be: "be_to_nat (minimal_be n) = n"
proof (induction n rule: minimal_be.induct)
  case (1 n)
  show ?case
  proof (cases "n = 0")
    case True
    then show ?thesis by (simp add: minimal_be.simps be_to_nat_def)
  next
    case False
    have "be_to_nat (minimal_be n) = 256 * (n div 256) + n mod 256"
      using 1[OF False] False
      by (subst minimal_be.simps) (simp add: be_to_nat_snoc)
    then show ?thesis by simp
  qed
qed

lemma length_minimal_be: "n < 256 ^ k \<Longrightarrow> length (minimal_be n) \<le> k"
proof (induction k arbitrary: n)
  case 0
  then show ?case by (simp add: minimal_be.simps)
next
  case (Suc k)
  have "n div 256 < 256 ^ k" using Suc.prems by (simp add: less_mult_imp_div_less)
  from Suc.IH[OF this] show ?case by (subst minimal_be.simps) simp
qed

lemma read_header: 
  assumes "n < 2 ^ 64"
  shows "rlp_read_header lst (rlp_header lst n @ r) = (n, r)"
proof (cases "n < 56")
  case True
  then show ?thesis
    by (simp add: rlp_header_def rlp_read_header_def Let_def)
next
  case False
  have len: "length (minimal_be n) \<le> 8" using length_minimal_be[of n 8] assms by simp
  have pos: "length (minimal_be n) \<noteq> 0" using False by (subst minimal_be.simps) simp
  then show ?thesis using False len
    by (auto simp: rlp_header_def rlp_read_header_def Let_def be_minimal_be)
qed

lemma header_hd:
  assumes "n < 2 ^ 64"
  shows "\<not> unat (hd (rlp_header lst n @ r)) < 128"
proof -
  have "length (minimal_be n) \<le> 8" using length_minimal_be[of n 8] assms by simp
  then show ?thesis
    by (simp add: rlp_header_def Let_def)
qed

lemma read_bytes:
  assumes "length b < 2 ^ 64"
  shows "rlp_read_bytes (rlp_bytes b @ r) = (b, r)"
proof (cases "length b = 1 \<and> unat (hd b) < 128")
  case True
  then obtain x where "b = [x]" by (auto simp: length_Suc_conv)
  with True show ?thesis by (simp add: rlp_read_bytes_def rlp_bytes_def)
next
  case False
  then have "rlp_bytes b = rlp_header False (length b) @ b" by (auto simp: rlp_bytes_def)
  then show ?thesis
    using read_header[OF assms, of False "b @ r"] header_hd[OF assms, of False "b @ r"]
    by (simp add: rlp_read_bytes_def)
qed

lemma minimal_be_short: "length (minimal_be (unat (w :: 'a::len word))) < 2 ^ 64"
  if "LENGTH('a) \<le> 256"
proof -
  have "unat w < 2 ^ LENGTH('a)" by (rule unat_lt_exp)
  also have "(2::nat) ^ LENGTH('a) \<le> 2 ^ 256" using that by (intro power_increasing) simp_all
  finally have "unat w < 256 ^ 32" by simp
  from length_minimal_be[OF this] show ?thesis by simp
qed

lemma rlp_nat_prefix:
  fixes x y :: "'a::len word"
  assumes "rlp_nat (unat x) @ r = rlp_nat (unat y) @ s" "LENGTH('a) \<le> 256"
  shows "x = y \<and> r = s"
proof -
  have "(minimal_be (unat x), r) = (minimal_be (unat y), s)"
    using arg_cong[OF assms(1), of rlp_read_bytes] read_bytes minimal_be_short[OF assms(2)]
    by (metis rlp_nat_def)
  then show ?thesis by (metis be_minimal_be prod.inject word_unat_eq_iff)
qed

definition standard_rlp :: rlp_ops where
  "standard_rlp =
     \<lparr>ro_u64 = (\<lambda>x. rlp_nat (unat x)), ro_u256 = (\<lambda>x. rlp_nat (unat x)),
      ro_address = (\<lambda>a. rlp_bytes (address_to_be a)), ro_bytes = rlp_bytes, ro_header = rlp_header,
      ro_u64_len = (\<lambda>x. length (rlp_nat (unat x))), ro_u256_len = (\<lambda>x. length (rlp_nat (unat x))),
      ro_address_len = (\<lambda>a. length (rlp_bytes (address_to_be a))),
      ro_bytes_len = (\<lambda>b. length (rlp_bytes b)), ro_header_len = (\<lambda>l n. length (rlp_header l n))\<rparr>"

lemma rlp_bytes_prefix:
  assumes "rlp_bytes b @ r = rlp_bytes b' @ r'" "length b < 2 ^ 64" "length b' < 2 ^ 64"
  shows "b = b' \<and> r = r'"
  using arg_cong[OF assms(1), of rlp_read_bytes] read_bytes[OF assms(2), of r] read_bytes[OF assms(3), of r']
  by simp

lemma rlp_header_prefix:
  assumes "rlp_header l n @ r = rlp_header l n' @ r'" "n < 2 ^ 64" "n' < 2 ^ 64"
  shows "n = n' \<and> r = r'"
  using arg_cong[OF assms(1), of "rlp_read_header l"] read_header[OF assms(2), of l r]
    read_header[OF assms(3), of l r']
  by simp

interpretation std_rlp: rlp_encoding standard_rlp
proof (unfold_locales, unfold standard_rlp_def rlp_ops.simps)
  show "rlp_nat (unat x) @ r = rlp_nat (unat x') @ r' \<Longrightarrow> x = x' \<and> r = r'" for x x' :: u64 and r r'
    by (erule rlp_nat_prefix) simp
  show "rlp_nat (unat x) @ r = rlp_nat (unat x') @ r' \<Longrightarrow> x = x' \<and> r = r'" for x x' :: u256 and r r'
    by (erule rlp_nat_prefix) simp
  show "rlp_bytes (address_to_be a) @ r = rlp_bytes (address_to_be a') @ r' \<Longrightarrow> a = a' \<and> r = r'" for a a' r r'
    using rlp_bytes_prefix[of "address_to_be a" r "address_to_be a'" r'] by simp
  show "length b < 2 ^ 63 \<Longrightarrow> length b' < 2 ^ 63 \<Longrightarrow> rlp_bytes b @ r = rlp_bytes b' @ r' \<Longrightarrow> b = b' \<and> r = r'" for b b' r r'
    by (erule rlp_bytes_prefix) simp_all
  show "n < 2 ^ 64 \<Longrightarrow> n' < 2 ^ 64 \<Longrightarrow> rlp_header l n @ r = rlp_header l n' @ r' \<Longrightarrow> n = n' \<and> r = r'" for l n n' r r'
    by (erule rlp_header_prefix)
qed (rule refl)+

end
