(* ===== verification/Signer.thy ===== *)
theory Signer
  imports Rlp
begin

text \<open>
  The signer of \<open>crates/signer/src\<close>: the EIP-1559 encoders of \<open>rlp.rs\<close>, the signature handling of
  \<open>recovery.rs\<close>, and the disabled and production signers.  Parameters: the RLP encoder, keccak-256,
  the elliptic-curve library (\<open>k256\<close>) and the KMS client.  Audit events and counters are outputs.
\<close>

section \<open>Data\<close>

record bundle_tx =
  tx_from :: address
  tx_to :: address
  tx_value_wei :: u256
  tx_data :: bytes
  tx_gas_limit :: u64
  tx_nonce :: u64
  tx_chain_id :: u64
  tx_bundle_correlation_id :: u64
  tx_max_priority_fee_per_gas :: u256
  tx_max_fee_per_gas :: u256

definition bundle_tx_new ::
  "address \<Rightarrow> address \<Rightarrow> u256 \<Rightarrow> bytes \<Rightarrow> u64 \<Rightarrow> u64 \<Rightarrow> u64 \<Rightarrow> u64 \<Rightarrow> u256 \<Rightarrow> u256 \<Rightarrow> bundle_tx" where
  "bundle_tx_new sender recipient val dat gas non cid corr prio fee =
     \<lparr>tx_from = sender, tx_to = recipient, tx_value_wei = val, tx_data = dat, tx_gas_limit = gas,
      tx_nonce = non, tx_chain_id = cid, tx_bundle_correlation_id = corr,
      tx_max_priority_fee_per_gas = prio, tx_max_fee_per_gas = fee\<rparr>"

datatype signed_tx_bytes = SignedTxBytes (signed_bytes: bytes)

datatype signer_error =
    SignerDisabled | NotConfigured | ClientInit | AddressMismatch | KmsSignFailed
  | InvalidSignatureBytes | SignatureRecoveryFailed | InvalidBundleTx

datatype kms_client_error = GetPublicKeyFailed | SignFailed

record kms_client =
  kc_get_public_key_der :: "string \<Rightarrow> kms_client_error + bytes"
  kc_sign_digest :: "string \<Rightarrow> bytes \<Rightarrow> kms_client_error + bytes"

text \<open>The operations of the curve library that \<open>recovery.rs\<close> calls.\<close>

record ('sig, 'pk) ec_ops =
  ec_from_der :: "bytes \<Rightarrow> 'sig option"
  ec_normalize_s :: "'sig \<Rightarrow> 'sig option"
  ec_to_bytes :: "'sig \<Rightarrow> bytes"
  ec_from_slice :: "bytes \<Rightarrow> 'sig option"
  ec_pk_from_sec1 :: "bytes \<Rightarrow> 'pk option"
  ec_recover :: "bytes \<Rightarrow> 'sig \<Rightarrow> u8 \<Rightarrow> 'pk option"

section \<open>\<open>rlp.rs\<close>\<close>

definition unsigned_payload_length :: "rlp_ops \<Rightarrow> bundle_tx \<Rightarrow> nat" where
  "unsigned_payload_length ro tx =
     ro_u64_len ro (tx_chain_id tx) + ro_u64_len ro (tx_nonce tx)
     + ro_u256_len ro (tx_max_priority_fee_per_gas tx) + ro_u256_len ro (tx_max_fee_per_gas tx)
     + ro_u64_len ro (tx_gas_limit tx) + ro_address_len ro (tx_to tx)
     + ro_u256_len ro (tx_value_wei tx) + ro_bytes_len ro (tx_data tx) + ro_header_len ro True 0"

definition write_unsigned_fields :: "rlp_ops \<Rightarrow> bundle_tx \<Rightarrow> bytes" where
  "write_unsigned_fields ro tx =
     ro_u64 ro (tx_chain_id tx) @ ro_u64 ro (tx_nonce tx)
     @ ro_u256 ro (tx_max_priority_fee_per_gas tx) @ ro_u256 ro (tx_max_fee_per_gas tx)
     @ ro_u64 ro (tx_gas_limit tx) @ ro_address ro (tx_to tx)
     @ ro_u256 ro (tx_value_wei tx) @ ro_bytes ro (tx_data tx) @ ro_header ro True 0"

definition write_unsigned :: "rlp_ops \<Rightarrow> bundle_tx \<Rightarrow> bytes" where
  "write_unsigned ro tx = ro_header ro True (unsigned_payload_length ro tx) @ write_unsigned_fields ro tx"

definition encode_eip1559_unsigned :: "rlp_ops \<Rightarrow> bundle_tx \<Rightarrow> bytes" where
  "encode_eip1559_unsigned ro tx = 0x02 # write_unsigned ro tx"

definition encode_eip1559_signed :: "rlp_ops \<Rightarrow> bundle_tx \<Rightarrow> u8 \<Rightarrow> bytes \<Rightarrow> bytes \<Rightarrow> bytes" where
  "encode_eip1559_signed ro tx y_parity r s =
     (let r_u = u256_from_be r; s_u = u256_from_be s; y_u = (ucast y_parity :: u64);
          signed_payload = unsigned_payload_length ro tx + ro_u64_len ro y_u
                             + ro_u256_len ro r_u + ro_u256_len ro s_u in
      0x02 # ro_header ro True signed_payload @ write_unsigned_fields ro tx
        @ ro_u64 ro y_u @ ro_u256 ro r_u @ ro_u256 ro s_u)"

section \<open>\<open>recovery.rs\<close>\<close>

definition parse_der_to_rs :: "('sig, 'pk) ec_ops \<Rightarrow> bytes \<Rightarrow> signer_error + (bytes \<times> bytes)" where
  "parse_der_to_rs ec der =
     (case ec_from_der ec der of
        None \<Rightarrow> Inl InvalidSignatureBytes
      | Some sig0 \<Rightarrow>
          let sg = (case ec_normalize_s ec sig0 of None \<Rightarrow> sig0 | Some low \<Rightarrow> low);
              bs = ec_to_bytes ec sg in
          if length bs \<noteq> 64 then Inl InvalidSignatureBytes
          else Inr (take 32 bs, drop 32 bs))"

definition recover_y_parity ::
  "('sig, 'pk) ec_ops \<Rightarrow> bytes \<Rightarrow> bytes \<Rightarrow> bytes \<Rightarrow> bytes \<Rightarrow> signer_error + u8" where
  "recover_y_parity ec digest r s expected =
     (case ec_from_slice ec (r @ s) of
        None \<Rightarrow> Inl InvalidSignatureBytes
      | Some sg \<Rightarrow>
          (case ec_pk_from_sec1 ec expected of
             None \<Rightarrow> Inl ClientInit
           | Some expected_vk \<Rightarrow>
               (case find (\<lambda>v. ec_recover ec digest sg v = Some expected_vk) [0, 1] of
                  Some v \<Rightarrow> Inr v
                | None \<Rightarrow> Inl SignatureRecoveryFailed)))"

section \<open>\<open>production.rs\<close>\<close>

record signing_audit_thresholds =
  sat_max_attempts_per_minute :: u32
  sat_max_failed_per_minute :: u32

record production_signer =
  ps_audit_key_id :: string
  ps_derived_address :: "address option"
  ps_pubkey_sec1_65 :: "bytes option"
  ps_client :: "kms_client option"
  ps_thresholds :: signing_audit_thresholds

definition production_signer_new :: "string \<Rightarrow> production_signer" where
  "production_signer_new key_id =
     \<lparr>ps_audit_key_id = key_id, ps_derived_address = None, ps_pubkey_sec1_65 = None,
      ps_client = None,
      ps_thresholds = \<lparr>sat_max_attempts_per_minute = 0, sat_max_failed_per_minute = 0\<rparr>\<rparr>"

definition EXPECTED_PREFIX_TO_MARKER :: bytes where
  "EXPECTED_PREFIX_TO_MARKER =
     [0x30, 0x56, 0x30, 0x10, 0x06, 0x07, 0x2a, 0x86, 0x48, 0xce, 0x3d, 0x02,
      0x01, 0x06, 0x05, 0x2b, 0x81, 0x04, 0x00, 0x0a, 0x03, 0x42, 0x00, 0x04]"

definition parse_ec_pubkey_der_to_sec1_65 :: "bytes \<Rightarrow> signer_error + bytes" where
  "parse_ec_pubkey_der_to_sec1_65 der =
     (if length der \<noteq> 88 then Inl ClientInit
      else if take (length EXPECTED_PREFIX_TO_MARKER) der \<noteq> EXPECTED_PREFIX_TO_MARKER then Inl ClientInit
      else Inr (drop 23 der))"

definition derive_address_from_sec1_65 :: "(bytes \<Rightarrow> bytes) \<Rightarrow> bytes \<Rightarrow> address" where
  "derive_address_from_sec1_65 keccak sec1 = address_from_be (drop 12 (keccak (drop 1 sec1)))"

definition from_aws_kms_with_client ::
  "(bytes \<Rightarrow> bytes) \<Rightarrow> string \<Rightarrow> signing_audit_thresholds \<Rightarrow> kms_client \<Rightarrow> signer_error + production_signer" where
  "from_aws_kms_with_client keccak key_id thresholds client =
     (case kc_get_public_key_der client key_id of
        Inl e \<Rightarrow> Inl ClientInit
      | Inr der \<Rightarrow>
          bind_res (parse_ec_pubkey_der_to_sec1_65 der) (\<lambda>sec1.
            Inr \<lparr>ps_audit_key_id = key_id,
                 ps_derived_address = Some (derive_address_from_sec1_65 keccak sec1),
                 ps_pubkey_sec1_65 = Some sec1, ps_client = Some client,
                 ps_thresholds = thresholds\<rparr>))"

definition bundle_artifact_input :: "(bytes \<Rightarrow> bytes) \<Rightarrow> bundle_tx \<Rightarrow> bytes" where
  "bundle_artifact_input keccak tx =
     address_to_be (tx_from tx) @ address_to_be (tx_to tx) @ u256_to_be (tx_value_wei tx)
     @ u64_to_be (tx_gas_limit tx) @ u64_to_be (tx_nonce tx) @ u64_to_be (tx_chain_id tx)
     @ u64_to_be (tx_bundle_correlation_id tx) @ keccak (tx_data tx)"

definition compute_bundle_artifact_hash :: "(bytes \<Rightarrow> bytes) \<Rightarrow> bundle_tx \<Rightarrow> string" where
  "compute_bundle_artifact_hash keccak tx = hex_bytes (keccak (bundle_artifact_input keccak tx))"

record audit_event =
  ae_bundle_correlation_id :: u64
  ae_bundle_artifact_hash :: string
  ae_outcome :: string
  ae_audit_key_id :: string
  ae_chain_id :: u64
  ae_nonce :: u64

definition emit_attempt_audit ::
  "(bytes \<Rightarrow> bytes) \<Rightarrow> production_signer \<Rightarrow> bundle_tx \<Rightarrow> string \<Rightarrow> audit_event" where
  "emit_attempt_audit keccak sg tx outcome =
     \<lparr>ae_bundle_correlation_id = tx_bundle_correlation_id tx,
      ae_bundle_artifact_hash = compute_bundle_artifact_hash keccak tx,
      ae_outcome = outcome, ae_audit_key_id = ps_audit_key_id sg,
      ae_chain_id = tx_chain_id tx, ae_nonce = tx_nonce tx\<rparr>"

text \<open>The outputs of a call: the audit events and the increments of the outcome counter, in order.\<close>

record signer_log =
  sl_audits :: "audit_event list"
  sl_counters :: "string list"

definition finish ::
  "(bytes \<Rightarrow> bytes) \<Rightarrow> production_signer \<Rightarrow> bundle_tx \<Rightarrow> string \<Rightarrow> (signer_error + signed_tx_bytes)
     \<Rightarrow> signer_log \<Rightarrow> (signer_error + signed_tx_bytes) \<times> signer_log" where
  "finish keccak sg tx outcome res log =
     (res, log\<lparr>sl_audits := sl_audits log @ [emit_attempt_audit keccak sg tx outcome],
               sl_counters := sl_counters log @ [outcome]\<rparr>)"

definition sign_tx ::
  "rlp_ops \<Rightarrow> (bytes \<Rightarrow> bytes) \<Rightarrow> ('sig, 'pk) ec_ops \<Rightarrow> production_signer \<Rightarrow> bundle_tx \<Rightarrow> signer_log
     \<Rightarrow> (signer_error + signed_tx_bytes) \<times> signer_log" where
  "sign_tx ro keccak ec sg tx log =
     (let stop = (\<lambda>outcome e. finish keccak sg tx outcome (Inl e) log) in
      if (case ps_derived_address sg of None \<Rightarrow> False | Some derived \<Rightarrow> tx_from tx \<noteq> derived)
      then stop ''address_mismatch'' AddressMismatch
      else (case (ps_client sg, ps_derived_address sg, ps_pubkey_sec1_65 sg) of
        (Some client, Some derived, Some pubkey) \<Rightarrow>
          if tx_max_fee_per_gas tx < tx_max_priority_fee_per_gas tx
          then stop ''invalid_bundle_tx'' InvalidBundleTx
          else
            let digest = keccak (encode_eip1559_unsigned ro tx) in
            (case kc_sign_digest client (ps_audit_key_id sg) digest of
               Inl _ \<Rightarrow> stop ''kms_sign_failed'' KmsSignFailed
             | Inr der \<Rightarrow>
                 (case parse_der_to_rs ec der of
                    Inl _ \<Rightarrow> stop ''invalid_signature_bytes'' InvalidSignatureBytes
                  | Inr (r, s) \<Rightarrow>
                      (case recover_y_parity ec digest r s pubkey of
                         Inl _ \<Rightarrow> stop ''signature_recovery_failed'' SignatureRecoveryFailed
                       | Inr y_parity \<Rightarrow>
                           finish keccak sg tx ''ok''
                             (Inr (SignedTxBytes (encode_eip1559_signed ro tx y_parity r s))) log)))
      | _ \<Rightarrow> stop ''not_configured'' NotConfigured))"

text \<open>\<open>disabled.rs\<close>: the baseline signer.\<close>

definition disabled_sign_tx :: "bundle_tx \<Rightarrow> signer_error + signed_tx_bytes" where
  "disabled_sign_tx tx = Inl SignerDisabled"

section \<open>Encoding lemmas\<close>

context rlp_encoding
begin

lemma payload_length: "unsigned_payload_length ro tx = length (write_unsigned_fields ro tx)"
  by (simp add: unsigned_payload_length_def write_unsigned_fields_def u64_len u256_len address_len
      bytes_len header_len)

lemma unsigned_fields_inj:
  assumes "write_unsigned_fields ro t @ r = write_unsigned_fields ro t' @ r'"
    and "length (tx_data t) < 2 ^ 63" "length (tx_data t') < 2 ^ 63"
  shows "tx_chain_id t = tx_chain_id t' \<and> tx_nonce t = tx_nonce t' \<and>
    tx_max_priority_fee_per_gas t = tx_max_priority_fee_per_gas t' \<and>
    tx_max_fee_per_gas t = tx_max_fee_per_gas t' \<and> tx_gas_limit t = tx_gas_limit t' \<and>
    tx_to t = tx_to t' \<and> tx_value_wei t = tx_value_wei t' \<and> tx_data t = tx_data t' \<and> r = r'"
proof -
  note eq1 = assms(1)[unfolded write_unsigned_fields_def append_assoc]
  note eq2 = u64_prefix[OF eq1]
  note eq3 = u64_prefix[OF conjunct2[OF eq2]]
  note eq4 = u256_prefix[OF conjunct2[OF eq3]]
  note eq5 = u256_prefix[OF conjunct2[OF eq4]]
  note eq6 = u64_prefix[OF conjunct2[OF eq5]]
  note eq7 = address_prefix[OF conjunct2[OF eq6]]
  note eq8 = u256_prefix[OF conjunct2[OF eq7]]
  note eq9 = bytes_prefix[OF assms(2,3) conjunct2[OF eq8]]
  show ?thesis using eq2 eq3 eq4 eq5 eq6 eq7 eq8 eq9 by simp
qed

end

text \<open>The fields a signature covers.\<close>

definition same_signed_fields :: "bundle_tx \<Rightarrow> bundle_tx \<Rightarrow> bool" where
  "same_signed_fields t t' \<longleftrightarrow>
     tx_chain_id t = tx_chain_id t' \<and> tx_nonce t = tx_nonce t' \<and>
     tx_max_priority_fee_per_gas t = tx_max_priority_fee_per_gas t' \<and>
     tx_max_fee_per_gas t = tx_max_fee_per_gas t' \<and> tx_gas_limit t = tx_gas_limit t' \<and>
     tx_to t = tx_to t' \<and> tx_value_wei t = tx_value_wei t' \<and> tx_data t = tx_data t'"

section \<open>Properties\<close>

definition demo_tx :: bundle_tx where
  "demo_tx = bundle_tx_new 5 6 7 [1, 2, 3] 21000 1 1 42 2 10"

text \<open>The signing preimage is unambiguous.  Whatever the encoder, as long as it meets its contract,
  two transactions with the same unsigned preimage agree in every field the signature is meant to
  cover: chain id, nonce, both fees, gas limit, recipient, value and call data; and the list header
  announces exactly the bytes that follow.\<close>

theorem signing_preimage_injective:
  assumes "rlp_encoding ro"
    and "length (tx_data t) < 2 ^ 63" "length (tx_data t') < 2 ^ 63"
    and "unsigned_payload_length ro t < 2 ^ 64" "unsigned_payload_length ro t' < 2 ^ 64"
    and "encode_eip1559_unsigned ro t = encode_eip1559_unsigned ro t'"
  shows "same_signed_fields t t' \<and>
    encode_eip1559_unsigned ro t
      = 0x02 # ro_header ro True (length (write_unsigned_fields ro t)) @ write_unsigned_fields ro t"
proof -
  note laws = rlp_encoding.header_prefix[OF assms(1)] rlp_encoding.unsigned_fields_inj[OF assms(1)]
  from assms(6) have "ro_header ro True (unsigned_payload_length ro t) @ write_unsigned_fields ro t
      = ro_header ro True (unsigned_payload_length ro t') @ write_unsigned_fields ro t'"
    by (simp add: encode_eip1559_unsigned_def write_unsigned_def)
  from laws(1)[OF assms(4,5) this] have "write_unsigned_fields ro t @ [] = write_unsigned_fields ro t' @ []"
    by simp
  from laws(2)[OF this assms(2,3)] show ?thesis
    by (simp add: same_signed_fields_def encode_eip1559_unsigned_def write_unsigned_def
        rlp_encoding.payload_length[OF assms(1)])
qed

theorem signing_preimage_injective_witness:
  "same_signed_fields demo_tx (demo_tx\<lparr>tx_from := 99, tx_bundle_correlation_id := 0\<rparr>)"
proof -
  let ?t = "demo_tx\<lparr>tx_from := 99, tx_bundle_correlation_id := 0\<rparr>"
  have "encode_eip1559_unsigned standard_rlp demo_tx = encode_eip1559_unsigned standard_rlp ?t"
    by (simp add: encode_eip1559_unsigned_def write_unsigned_def unsigned_payload_length_def
        write_unsigned_fields_def)
  moreover have "unsigned_payload_length standard_rlp demo_tx < 2 ^ 64"
    "unsigned_payload_length standard_rlp ?t < 2 ^ 64"
    by (simp_all add: unsigned_payload_length_def standard_rlp_def demo_tx_def bundle_tx_new_def
        rlp_nat_def rlp_bytes_def rlp_header_def Let_def minimal_be.simps)
  moreover have "length (tx_data demo_tx) < 2 ^ 63" "length (tx_data ?t) < 2 ^ 63"
    by (simp_all add: demo_tx_def bundle_tx_new_def)
  ultimately show ?thesis
    using signing_preimage_injective[OF std_rlp.rlp_encoding_axioms, of demo_tx ?t] by blast
qed

text \<open>When the production signer signs.  It returns bytes exactly when it was booted from KMS, the
  sender is the address derived at boot, the fees are ordered, KMS signs the keccak digest of the
  unsigned preimage, the signature parses to 64 bytes, and one of the two parities recovers to the
  boot-time public key; the bytes then carry that parity and the normalised signature.\<close>

theorem sign_tx_ok_exactly_when:
  "(fst (sign_tx ro keccak ec sg tx log) = Inr out) =
     (\<exists>client pubkey der r s v.
        ps_client sg = Some client \<and> ps_derived_address sg = Some (tx_from tx) \<and>
        ps_pubkey_sec1_65 sg = Some pubkey \<and>
        tx_max_priority_fee_per_gas tx \<le> tx_max_fee_per_gas tx \<and>
        kc_sign_digest client (ps_audit_key_id sg) (keccak (encode_eip1559_unsigned ro tx)) = Inr der \<and>
        parse_der_to_rs ec der = Inr (r, s) \<and>
        recover_y_parity ec (keccak (encode_eip1559_unsigned ro tx)) r s pubkey = Inr v \<and>
        out = SignedTxBytes (encode_eip1559_signed ro tx v r s))"
  by (auto simp: sign_tx_def finish_def Let_def not_less split: option.splits sum.splits prod.splits if_splits)

fun outcome_label :: "signer_error + signed_tx_bytes \<Rightarrow> string" where
  "outcome_label (Inr _) = ''ok''"
| "outcome_label (Inl AddressMismatch) = ''address_mismatch''"
| "outcome_label (Inl NotConfigured) = ''not_configured''"
| "outcome_label (Inl InvalidBundleTx) = ''invalid_bundle_tx''"
| "outcome_label (Inl KmsSignFailed) = ''kms_sign_failed''"
| "outcome_label (Inl InvalidSignatureBytes) = ''invalid_signature_bytes''"
| "outcome_label (Inl SignatureRecoveryFailed) = ''signature_recovery_failed''"
| "outcome_label (Inl SignerDisabled) = []"
| "outcome_label (Inl ClientInit) = []"

text \<open>Every signing attempt leaves exactly one audit event and one counter increment, with the same
  outcome label, and the label tells the result: it is \<open>ok\<close> exactly on success and otherwise names
  the error returned.\<close>

theorem sign_tx_audited_once:
  "case sign_tx ro keccak ec sg tx log of
     (res, log') \<Rightarrow> outcome_label res \<noteq> [] \<and>
       sl_audits log' = sl_audits log @ [emit_attempt_audit keccak sg tx (outcome_label res)] \<and>
       sl_counters log' = sl_counters log @ [outcome_label res]"
  by (auto simp: sign_tx_def finish_def Let_def split: option.splits sum.splits prod.splits)

text \<open>Boot from KMS succeeds exactly when the key client answers with an 88-byte
  SubjectPublicKeyInfo carrying the expected prefix; the signer then holds the 65-byte point behind
  that prefix, the address derived from it and the client together, so that no later call can be
  refused as not configured.\<close>

theorem kms_boot_exact:
  "(from_aws_kms_with_client keccak key_id th client = Inr sg) =
     (\<exists>point. length point = 64 \<and>
        kc_get_public_key_der client key_id = Inr (EXPECTED_PREFIX_TO_MARKER @ point) \<and>
        sg = \<lparr>ps_audit_key_id = key_id,
              ps_derived_address = Some (address_from_be (drop 12 (keccak point))),
              ps_pubkey_sec1_65 = Some (0x04 # point), ps_client = Some client, ps_thresholds = th\<rparr>)"
proof -
  have len: "length EXPECTED_PREFIX_TO_MARKER = 24" by (simp add: EXPECTED_PREFIX_TO_MARKER_def)
  have parse: "parse_ec_pubkey_der_to_sec1_65 der = Inr sec1 \<longleftrightarrow>
      (\<exists>point. length point = 64 \<and> der = EXPECTED_PREFIX_TO_MARKER @ point \<and> sec1 = 0x04 # point)" for der sec1
  proof
    assume "parse_ec_pubkey_der_to_sec1_65 der = Inr sec1"
    then have d: "length der = 88" "take 24 der = EXPECTED_PREFIX_TO_MARKER" "sec1 = drop 23 der"
      by (auto simp: parse_ec_pubkey_der_to_sec1_65_def len split: if_splits)
    obtain point where der: "der = EXPECTED_PREFIX_TO_MARKER @ point"
      using d(2) append_take_drop_id[of 24 der] by metis
    have "drop 23 (EXPECTED_PREFIX_TO_MARKER @ point) = 0x04 # point"
      by (simp add: EXPECTED_PREFIX_TO_MARKER_def)
    then show "\<exists>point. length point = 64 \<and> der = EXPECTED_PREFIX_TO_MARKER @ point \<and> sec1 = 0x04 # point"
      using d(1,3) by (intro exI[of _ point]) (simp add: der len)
  next
    assume "\<exists>point. length point = 64 \<and> der = EXPECTED_PREFIX_TO_MARKER @ point \<and> sec1 = 0x04 # point"
    then show "parse_ec_pubkey_der_to_sec1_65 der = Inr sec1"
      by (auto simp: parse_ec_pubkey_der_to_sec1_65_def len)
        (simp add: EXPECTED_PREFIX_TO_MARKER_def)
  qed
  show ?thesis
    by (auto simp: from_aws_kms_with_client_def bind_res_Inr_iff parse derive_address_from_sec1_65_def
        split: sum.splits)
qed

text \<open>The audit hash input.  With a 32-byte keccak it is always 136 bytes, and equal inputs mean
  equal sender, recipient, value, gas limit, nonce, chain id and correlation id and equal digests of
  the call data; the two fee fields are not part of it, so transactions that differ only in their
  fees share one artifact hash.\<close>

theorem artifact_input_covers:
  assumes "\<And>bs. length (keccak bs) = 32"
  shows "length (bundle_artifact_input keccak t) = 136 \<and>
    (bundle_artifact_input keccak t = bundle_artifact_input keccak t' \<longleftrightarrow>
       tx_from t = tx_from t' \<and> tx_to t = tx_to t' \<and> tx_value_wei t = tx_value_wei t' \<and>
       tx_gas_limit t = tx_gas_limit t' \<and> tx_nonce t = tx_nonce t' \<and> tx_chain_id t = tx_chain_id t' \<and>
       tx_bundle_correlation_id t = tx_bundle_correlation_id t' \<and> keccak (tx_data t) = keccak (tx_data t'))"
  by (simp add: bundle_artifact_input_def assms)

theorem artifact_input_covers_witness:
  "bundle_artifact_input (\<lambda>bs. replicate 32 (byte_of (length bs))) demo_tx
    = bundle_artifact_input (\<lambda>bs. replicate 32 (byte_of (length bs))) (demo_tx\<lparr>tx_max_fee_per_gas := 11\<rparr>)"
  using artifact_input_covers[of "\<lambda>bs. replicate 32 (byte_of (length bs))" demo_tx
      "demo_tx\<lparr>tx_max_fee_per_gas := 11\<rparr>"] by simp

end
