(* ===== verification/Sim_Types.thy ===== *)
theory Sim_Types
  imports Prelude
begin

text \<open>
  The outcome of a local simulation (\<open>crates/simulator/src/lib.rs\<close>), as every stage after the
  simulator sees it.
\<close>

datatype profit_source = HeuristicPassthrough | RevmComputed

datatype sim_status =
    Success
  | Reverted string
  | OutOfGas
  | HaltedOther string

record simulation_outcome =
  so_opportunity_block_number :: u64
  so_gas_used :: u64
  so_status :: sim_status
  so_simulated_profit_wei :: u256
  so_profit_source :: profit_source

text \<open>The storage reads a simulation observed (\<open>crates/simulator/src/observation.rs\<close>), pinned to a
  block hash.\<close>

record state_observation =
  ob_account :: address
  ob_slot :: u256
  ob_value :: b256

record local_state_fingerprint =
  fp_block_hash :: b256
  fp_observations :: "state_observation list"

end
