(* ===== verification/Execution.thy ===== *)
theory Execution
  imports Sim_Types Signer
begin

text \<open>
  Bid strategies and bundle construction (\<open>crates/execution/src/bid_strategy.rs\<close> and
  \<open>lib.rs\<close>).  The strategy trait is the locale \<open>bid_strategy\<close>: what the constructor may rely on
  of any strategy.  A signer is the function behind the \<open>Signer\<close> trait.
\<close>

section \<open>Bid strategies\<close>

definition DEFAULT_FIXED_BID_FRACTION_BPS :: u16 where "DEFAULT_FIXED_BID_FRACTION_BPS = 9000"
definition DEFAULT_VALIDITY_BLOCK_WINDOW :: u64 where "DEFAULT_VALIDITY_BLOCK_WINDOW = 5"

record bid_context =
  block_base_fee_wei :: u256
  gas_used_estimate :: u64

definition bid_context_new :: "u256 \<Rightarrow> u64 \<Rightarrow> bid_context" where
  "bid_context_new fee gas = \<lparr>block_base_fee_wei = fee, gas_used_estimate = gas\<rparr>"

definition for_legacy_outcome :: "simulation_outcome \<Rightarrow> bid_context" where
  "for_legacy_outcome o1 = \<lparr>block_base_fee_wei = 0, gas_used_estimate = so_gas_used o1\<rparr>"

datatype abort_reason = SimulationNotSuccess | NonPositiveProfit | BidRoundsToZero
datatype execution_error = Aborted abort_reason | Setup string

record strategy =
  st_name :: string
  st_compute_bid :: "simulation_outcome \<Rightarrow> bid_context \<Rightarrow> u256"

definition fixed_fraction_bid :: "u16 \<Rightarrow> simulation_outcome \<Rightarrow> bid_context \<Rightarrow> u256" where
  "fixed_fraction_bid bps o1 ctx = saturating_mul (so_simulated_profit_wei o1) (ucast bps) div 10000"

definition fixed_fraction_new :: "u16 \<Rightarrow> execution_error + strategy" where
  "fixed_fraction_new bps =
     (if bps > 10000 then Inl (Setup ''fixed_bid_fraction_bps must be in 0..=10_000'')
      else Inr \<lparr>st_name = ''fixed_fraction'', st_compute_bid = fixed_fraction_bid bps\<rparr>)"

definition eip1559_bid :: "u16 \<Rightarrow> u256 \<Rightarrow> simulation_outcome \<Rightarrow> bid_context \<Rightarrow> u256" where
  "eip1559_bid bps tip o1 ctx =
     (let fixed = saturating_mul (so_simulated_profit_wei o1) (ucast bps) div 10000;
          cap = saturating_mul (saturating_add (block_base_fee_wei ctx) tip) (ucast (gas_used_estimate ctx)) in
      min fixed cap)"

definition eip1559_new :: "u16 \<Rightarrow> u256 \<Rightarrow> execution_error + strategy" where
  "eip1559_new bps tip =
     (if bps > 10000 then Inl (Setup ''fixed_bid_fraction_bps must be in 0..=10_000'')
      else Inr \<lparr>st_name = ''eip1559_basefee_aware'', st_compute_bid = eip1559_bid bps tip\<rparr>)"

section \<open>The bundle constructor\<close>

record bundle_config =
  fixed_bid_fraction_bps :: u16
  coinbase_recipient :: address
  validity_block_window :: u64

definition bundle_config_defaults :: bundle_config where
  "bundle_config_defaults =
     \<lparr>fixed_bid_fraction_bps = DEFAULT_FIXED_BID_FRACTION_BPS, coinbase_recipient = 0,
      validity_block_window = DEFAULT_VALIDITY_BLOCK_WINDOW\<rparr>"

record bundle_candidate =
  bc_opportunity_block_number :: u64
  bc_gas_used :: u64
  bc_simulated_profit_wei :: u256
  bc_gas_bid_wei :: u256
  bc_validity_block_min :: u64
  bc_validity_block_max :: u64
  bc_profit_source :: profit_source

record bundle_constructor =
  bd_cfg :: bundle_config
  bd_strategy :: strategy
  bd_signer :: "bundle_tx \<Rightarrow> signer_error + signed_tx_bytes"

definition constructor_with_signer ::
  "bundle_config \<Rightarrow> strategy \<Rightarrow> (bundle_tx \<Rightarrow> signer_error + signed_tx_bytes)
     \<Rightarrow> execution_error + bundle_constructor" where
  "constructor_with_signer cfg st sg =
     (if validity_block_window cfg = 0 then Inl (Setup ''validity_block_window must be non-zero'')
      else Inr \<lparr>bd_cfg = cfg, bd_strategy = st, bd_signer = sg\<rparr>)"

definition constructor_with_strategy :: "bundle_config \<Rightarrow> strategy \<Rightarrow> execution_error + bundle_constructor" where
  "constructor_with_strategy cfg st =
     (if validity_block_window cfg = 0 then Inl (Setup ''validity_block_window must be non-zero'')
      else Inr \<lparr>bd_cfg = cfg, bd_strategy = st, bd_signer = disabled_sign_tx\<rparr>)"

definition constructor_new :: "bundle_config \<Rightarrow> execution_error + bundle_constructor" where
  "constructor_new cfg =
     (if validity_block_window cfg = 0 then Inl (Setup ''validity_block_window must be non-zero'')
      else bind_res (fixed_fraction_new (fixed_bid_fraction_bps cfg)) (\<lambda>st.
             Inr \<lparr>bd_cfg = cfg, bd_strategy = st, bd_signer = disabled_sign_tx\<rparr>))"

definition sign_for_outcome :: "bundle_constructor \<Rightarrow> simulation_outcome \<Rightarrow> signer_error + signed_tx_bytes" where
  "sign_for_outcome bd o1 =
     bd_signer bd (bundle_tx_new 0 0 0 [] (so_gas_used o1) 0 1 (so_opportunity_block_number o1) 0 0)"

definition construct_with_context ::
  "bundle_constructor \<Rightarrow> simulation_outcome \<Rightarrow> bid_context \<Rightarrow> execution_error + bundle_candidate" where
  "construct_with_context bd o1 ctx =
     (if so_status o1 \<noteq> Success then Inl (Aborted SimulationNotSuccess)
      else if so_simulated_profit_wei o1 = 0 then Inl (Aborted NonPositiveProfit)
      else let bid = st_compute_bid (bd_strategy bd) o1 ctx in
        if bid = 0 then Inl (Aborted BidRoundsToZero)
        else let validity_min = so_opportunity_block_number o1;
                 validity_max = saturating_add validity_min (validity_block_window (bd_cfg bd) - 1) in
          Inr \<lparr>bc_opportunity_block_number = so_opportunity_block_number o1,
               bc_gas_used = so_gas_used o1,
               bc_simulated_profit_wei = so_simulated_profit_wei o1,
               bc_gas_bid_wei = bid, bc_validity_block_min = validity_min,
               bc_validity_block_max = validity_max, bc_profit_source = so_profit_source o1\<rparr>)"

definition construct :: "bundle_constructor \<Rightarrow> simulation_outcome \<Rightarrow> execution_error + bundle_candidate" where
  "construct bd o1 = construct_with_context bd o1 (for_legacy_outcome o1)"

section \<open>The strategy contract\<close>

locale bid_strategy =
  fixes bid :: "simulation_outcome \<Rightarrow> bid_context \<Rightarrow> u256"
  assumes bid_le_profit: "bid o1 ctx \<le> so_simulated_profit_wei o1"
begin

lemma candidate_bid_bounded:
  assumes "construct_with_context bd o1 ctx = Inr c" "st_compute_bid (bd_strategy bd) = bid"
  shows "0 < bc_gas_bid_wei c \<and> bc_gas_bid_wei c \<le> bc_simulated_profit_wei c"
  using assms bid_le_profit[of o1 ctx]
  by (auto simp: construct_with_context_def Let_def word_neq_0_conv split: if_splits)

end

lemma unat_ucast_u16 [simp]: "unat (ucast (b :: u16) :: u256) = unat b"
  using unat_lt_exp[of b] by (simp add: unsigned_ucast_eq unsigned_take_bit_eq take_bit_nat_eq_self)

lemma unat_ucast_u64 [simp]: "unat (ucast (b :: u64) :: u256) = unat b"
  using unat_lt_exp[of b] by (simp add: unsigned_ucast_eq unsigned_take_bit_eq take_bit_nat_eq_self)

lemma fraction_le:
  assumes "bps \<le> (10000 :: u16)"
  shows "saturating_mul p (ucast bps) div 10000 \<le> (p :: u256)"
proof -
  have "unat bps \<le> 10000" using assms by (simp add: word_le_nat_alt)
  then have "unat p * unat bps \<le> unat p * 10000" by simp
  moreover have "unat (saturating_mul p (ucast bps)) \<le> unat p * unat bps"
    unfolding unat_saturating_mul unat_ucast_u16 by (rule min.cobounded1)
  ultimately have "unat (saturating_mul p (ucast bps)) div 10000 \<le> unat p * 10000 div 10000"
    by (intro div_le_mono) linarith
  then have "unat (saturating_mul p (ucast bps) div 10000) \<le> unat p"
    by (simp add: unat_div)
  then show ?thesis by (simp only: word_le_nat_alt)
qed

lemma fixed_fraction_contract: "bps \<le> 10000 \<Longrightarrow> bid_strategy (fixed_fraction_bid bps)"
  by unfold_locales (simp add: fixed_fraction_bid_def fraction_le)

lemma eip1559_contract: "bps \<le> 10000 \<Longrightarrow> bid_strategy (eip1559_bid bps tip)"
  by unfold_locales (simp add: eip1559_bid_def Let_def fraction_le min.coboundedI1)

interpretation default_fixed: bid_strategy "fixed_fraction_bid DEFAULT_FIXED_BID_FRACTION_BPS"
  by (rule fixed_fraction_contract) (simp add: DEFAULT_FIXED_BID_FRACTION_BPS_def)

interpretation default_eip1559: bid_strategy "eip1559_bid DEFAULT_FIXED_BID_FRACTION_BPS 1000000000"
  by (rule eip1559_contract) (simp add: DEFAULT_FIXED_BID_FRACTION_BPS_def)

section \<open>Properties\<close>

text \<open>Every bundle candidate that either strategy produces, at any fraction its constructor accepts,
  bids more than nothing and at most the simulated profit; the EIP-1559 strategy never bids more
  than base fee plus tip times gas (saturating), nor more than the fixed fraction alone.\<close>

theorem bids_never_exceed_profit:
  assumes "fixed_fraction_new bps = Inr st \<or> eip1559_new bps tip = Inr st"
    and "construct_with_context bd o1 ctx = Inr c" "bd_strategy bd = st"
  shows "0 < bc_gas_bid_wei c \<and> bc_gas_bid_wei c \<le> so_simulated_profit_wei o1 \<and>
    eip1559_bid bps tip o1 ctx \<le> fixed_fraction_bid bps o1 ctx \<and>
    unat (eip1559_bid bps tip o1 ctx)
      \<le> (unat (block_base_fee_wei ctx) + unat tip) * unat (gas_used_estimate ctx)"
proof -
  have "bid_strategy (st_compute_bid st)"
    using assms(1) fixed_fraction_contract[of bps] eip1559_contract[of bps tip]
    by (auto simp: fixed_fraction_new_def eip1559_new_def not_less split: if_splits)
  from bid_strategy.candidate_bid_bounded[OF this assms(2)] assms(3)
  have "0 < bc_gas_bid_wei c \<and> bc_gas_bid_wei c \<le> bc_simulated_profit_wei c" by simp
  moreover have "bc_simulated_profit_wei c = so_simulated_profit_wei o1"
    using assms(2) by (auto simp: construct_with_context_def Let_def split: if_splits)
  moreover have "eip1559_bid bps tip o1 ctx \<le> fixed_fraction_bid bps o1 ctx"
    by (simp add: eip1559_bid_def fixed_fraction_bid_def Let_def)
  moreover have "unat (eip1559_bid bps tip o1 ctx)
      \<le> (unat (block_base_fee_wei ctx) + unat tip) * unat (gas_used_estimate ctx)"
  proof -
    have "unat (saturating_mul (saturating_add f tip) (ucast g)) \<le> (unat f + unat tip) * unat g"
      for f :: u256 and g :: u64
      by (simp add: unat_saturating_mul unat_saturating_add min.coboundedI1 mult_le_mono1)
    then show ?thesis by (simp add: eip1559_bid_def Let_def unat_min_word min.coboundedI2)
  qed
  ultimately show ?thesis by simp
qed

definition demo_outcome :: simulation_outcome where
  "demo_outcome = \<lparr>so_opportunity_block_number = 18000000, so_gas_used = 200000, so_status = Success,
     so_simulated_profit_wei = 1000000, so_profit_source = RevmComputed\<rparr>"

definition demo_constructor :: bundle_constructor where
  "demo_constructor = \<lparr>bd_cfg = bundle_config_defaults,
     bd_strategy = \<lparr>st_name = ''fixed_fraction'', st_compute_bid = fixed_fraction_bid 9000\<rparr>,
     bd_signer = disabled_sign_tx\<rparr>"

theorem bids_never_exceed_profit_witness:
  "\<exists>c. construct demo_constructor demo_outcome = Inr c \<and> bc_gas_bid_wei c \<le> 1000000"
proof -
  let ?ctx = "for_legacy_outcome demo_outcome"
  have st: "fixed_fraction_new 9000 = Inr (bd_strategy demo_constructor)"
    by (simp add: fixed_fraction_new_def demo_constructor_def)
  obtain c where c: "construct_with_context demo_constructor demo_outcome ?ctx = Inr c"
    by (simp add: construct_with_context_def Let_def demo_outcome_def demo_constructor_def
        fixed_fraction_bid_def saturating_mul_def)
  from bids_never_exceed_profit[OF disjI1[OF st] c refl] show ?thesis
    using c by (simp add: construct_def demo_outcome_def)
qed

text \<open>When a bundle is constructed.  A candidate comes out exactly for a successful simulation with
  positive profit and a non-zero bid, and the first failing condition names the abort; the candidate
  copies block, gas, profit and provenance of the outcome, and its validity window starts at the
  opportunity block and spans the configured number of blocks, saturating at the last block number.\<close>

theorem construct_exact:
  "construct_with_context bd o1 ctx =
     (case find fst
        [(so_status o1 \<noteq> Success, SimulationNotSuccess),
         (so_simulated_profit_wei o1 = 0, NonPositiveProfit),
         (st_compute_bid (bd_strategy bd) o1 ctx = 0, BidRoundsToZero)] of
        Some (_, reason) \<Rightarrow> Inl (Aborted reason)
      | None \<Rightarrow> Inr \<lparr>bc_opportunity_block_number = so_opportunity_block_number o1,
           bc_gas_used = so_gas_used o1, bc_simulated_profit_wei = so_simulated_profit_wei o1,
           bc_gas_bid_wei = st_compute_bid (bd_strategy bd) o1 ctx,
           bc_validity_block_min = so_opportunity_block_number o1,
           bc_validity_block_max =
             saturating_add (so_opportunity_block_number o1) (validity_block_window (bd_cfg bd) - 1),
           bc_profit_source = so_profit_source o1\<rparr>)"
  by (simp add: construct_with_context_def Let_def)

text \<open>The validity window of every candidate from a constructor that was accepted is non-empty, and
  contains exactly the configured number of blocks unless the block numbers run out.\<close>

theorem validity_window_length:
  assumes "constructor_with_signer cfg st sg = Inr bd"
    and "construct_with_context bd o1 ctx = Inr c"
  shows "bc_validity_block_min c \<le> bc_validity_block_max c \<and>
    (unat (so_opportunity_block_number o1) + unat (validity_block_window cfg) \<le> 2 ^ 64 \<longrightarrow>
       unat (bc_validity_block_max c) + 1 - unat (bc_validity_block_min c) = unat (validity_block_window cfg))"
proof -
  have cfg: "bd_cfg bd = cfg" "validity_block_window cfg \<noteq> 0"
    using assms(1) by (auto simp: constructor_with_signer_def split: if_splits)
  have c: "bc_validity_block_min c = so_opportunity_block_number o1"
    "bc_validity_block_max c = saturating_add (so_opportunity_block_number o1) (validity_block_window cfg - 1)"
    using assms(2) cfg(1) by (auto simp: construct_with_context_def Let_def split: if_splits)
  have w: "unat (validity_block_window cfg - 1) = unat (validity_block_window cfg) - 1"
    "0 < unat (validity_block_window cfg)"
    using cfg(2) by (simp_all add: unat_minus_one unat_gt_0)
  show ?thesis
    using saturating_add_ge[of "so_opportunity_block_number o1"] w
    by (auto simp: c unat_saturating_add)
qed

theorem validity_window_length_witness:
  "\<exists>c. construct demo_constructor demo_outcome = Inr c \<and>
     unat (bc_validity_block_max c) + 1 - unat (bc_validity_block_min c) = 5"
proof -
  let ?ctx = "for_legacy_outcome demo_outcome"
  obtain c where c: "construct_with_context demo_constructor demo_outcome ?ctx = Inr c"
    by (simp add: construct_with_context_def Let_def demo_outcome_def demo_constructor_def
        fixed_fraction_bid_def saturating_mul_def)
  have "constructor_with_signer bundle_config_defaults (bd_strategy demo_constructor) disabled_sign_tx
      = Inr demo_constructor"
    by (simp add: constructor_with_signer_def demo_constructor_def bundle_config_defaults_def
        DEFAULT_VALIDITY_BLOCK_WINDOW_def)
  from validity_window_length[OF this c] show ?thesis
    using c by (simp add: construct_def demo_outcome_def bundle_config_defaults_def
        DEFAULT_VALIDITY_BLOCK_WINDOW_def)
qed

text \<open>Signing for an outcome cannot succeed as it is wired.  The constructors without an explicit
  signer hold the disabled one, which always refuses; and a production signer with a derived address
  refuses with an address mismatch, because the transaction built for an outcome carries the zero
  sender, for every key whose address is not zero.\<close>

theorem sign_for_outcome_refused:
  assumes "ps_derived_address sg = Some a" "a \<noteq> 0"
    and "constructor_with_signer cfg st (\<lambda>tx. fst (sign_tx ro keccak ec sg tx log)) = Inr bd"
  shows "sign_for_outcome bd o1 = Inl AddressMismatch \<and>
    (case constructor_new cfg of Inl e \<Rightarrow> True | Inr bd' \<Rightarrow> sign_for_outcome bd' o1 = Inl SignerDisabled) \<and>
    (case constructor_with_strategy cfg st of Inl e \<Rightarrow> True
       | Inr bd' \<Rightarrow> sign_for_outcome bd' o1 = Inl SignerDisabled)"
  using assms
  by (auto simp: constructor_with_strategy_def constructor_with_signer_def sign_for_outcome_def
      constructor_new_def bind_res_def disabled_sign_tx_def sign_tx_def finish_def bundle_tx_new_def
      split: if_splits sum.splits)

theorem sign_for_outcome_refused_witness:
  "sign_for_outcome \<lparr>bd_cfg = bundle_config_defaults, bd_strategy = bd_strategy demo_constructor,
     bd_signer = (\<lambda>tx. fst (sign_tx standard_rlp id (undefined :: (nat, nat) ec_ops)
        ((production_signer_new ''k'')\<lparr>ps_derived_address := Some 5\<rparr>) tx \<lparr>sl_audits = [], sl_counters = []\<rparr>))\<rparr>
     demo_outcome = Inl AddressMismatch"
  by (rule conjunct1[OF sign_for_outcome_refused[where a = 5 and cfg = bundle_config_defaults
        and st = "bd_strategy demo_constructor"]])
    (simp_all add: constructor_with_signer_def bundle_config_defaults_def DEFAULT_VALIDITY_BLOCK_WINDOW_def)

end
