(* ===== verification/Relay_Sim.thy ===== *)
theory Relay_Sim
  imports Sim_Types Types
begin

text \<open>
  The relay simulation types and the comparator of \<open>crates/relay-sim/src/lib.rs\<close>: the zero-tolerance
  comparison of a local simulation with a relay's, its order of precedence, and the in-memory mock.
  The rendered detail of an abort is kept as its parts.
\<close>

section \<open>Types\<close>

record local_bundle_shape =
  bs_expected_inclusion_index :: u32
  bs_expected_coinbase_transfer_wei :: u256

record relay_sim_request =
  rq_block_hash :: b256
  rq_state_block_number :: u64
  rq_txs :: "bytes list"

record relay_simulation_outcome =
  rs_gas_used :: u64
  rs_status :: sim_status
  rs_measured_profit_wei :: u256
  rs_state_observations :: "state_observation list"
  rs_inclusion_index :: u32
  rs_coinbase_transfer_wei :: u256

text \<open>The texts of \<open>Transport\<close> and \<open>UnrecognizedResponse\<close> are the fixed ones of the clients, in
  which at most a number varies.\<close>

datatype relay_sim_error =
    RelayNotConfigured
  | RelayTransport string
  | UnrecognizedResponse string
  | UnsignedBundleUnavailable

datatype mismatch_detail =
    StatusDiffers bool bool
  | InclusionDiffers u32 u32
  | CoinbaseDiffers u256 u256
  | SlotDiffers u256 address b256 b256
  | ProfitDiffers u256 u256
  | GasDiffers u64 u64
  | RelayError relay_sim_error

record comparator_inputs =
  ci_local :: simulation_outcome
  ci_local_shape :: local_bundle_shape
  ci_local_fingerprint :: local_state_fingerprint

record mismatch_abort =
  mm_category :: mismatch_category
  mm_detail :: mismatch_detail
  mm_local :: simulation_outcome
  mm_local_shape :: local_bundle_shape
  mm_local_fingerprint :: local_state_fingerprint
  mm_relay :: "relay_simulation_outcome option"

section \<open>The comparator\<close>

definition abort_with ::
  "mismatch_category \<Rightarrow> mismatch_detail \<Rightarrow> comparator_inputs \<Rightarrow> relay_simulation_outcome option \<Rightarrow> mismatch_abort" where
  "abort_with c d i r =
     \<lparr>mm_category = c, mm_detail = d, mm_local = ci_local i, mm_local_shape = ci_local_shape i,
      mm_local_fingerprint = ci_local_fingerprint i, mm_relay = r\<rparr>"

definition same_slot :: "state_observation \<Rightarrow> state_observation \<Rightarrow> bool" where
  "same_slot l r \<longleftrightarrow> ob_account r = ob_account l \<and> ob_slot r = ob_slot l"

text \<open>The loop over the local observations: the first one that the relay also reports, in its first
  entry for that slot, with another value.\<close>

fun first_conflict ::
  "state_observation list \<Rightarrow> state_observation list \<Rightarrow> (state_observation \<times> state_observation) option" where
  "first_conflict [] rs = None"
| "first_conflict (l # ls) rs =
     (case List.find (same_slot l) rs of
        Some r \<Rightarrow> if ob_value r \<noteq> ob_value l then Some (l, r) else first_conflict ls rs
      | None \<Rightarrow> first_conflict ls rs)"

definition compare :: "comparator_inputs \<Rightarrow> relay_simulation_outcome \<Rightarrow> mismatch_abort + unit" where
  "compare i r =
     (let local = ci_local i; shape = ci_local_shape i;
          local_success = (so_status local = Success);
          relay_success = (rs_status r = Success)
      in if local_success \<noteq> relay_success
         then Inl (abort_with Revert (StatusDiffers local_success relay_success) i (Some r))
      else if bs_expected_inclusion_index shape \<noteq> rs_inclusion_index r
         then Inl (abort_with BundleOutcome
                (InclusionDiffers (bs_expected_inclusion_index shape) (rs_inclusion_index r)) i (Some r))
      else if bs_expected_coinbase_transfer_wei shape \<noteq> rs_coinbase_transfer_wei r
         then Inl (abort_with BundleOutcome
                (CoinbaseDiffers (bs_expected_coinbase_transfer_wei shape) (rs_coinbase_transfer_wei r)) i (Some r))
      else case first_conflict (fp_observations (ci_local_fingerprint i)) (rs_state_observations r) of
           Some (lo, ro) \<Rightarrow>
             Inl (abort_with StateDependency
                (SlotDiffers (ob_slot lo) (ob_account lo) (ob_value lo) (ob_value ro)) i (Some r))
         | None \<Rightarrow>
             if so_simulated_profit_wei local \<noteq> rs_measured_profit_wei r
             then Inl (abort_with Profitability
                (ProfitDiffers (so_simulated_profit_wei local) (rs_measured_profit_wei r)) i (Some r))
             else if so_gas_used local \<noteq> rs_gas_used r
             then Inl (abort_with Gas (GasDiffers (so_gas_used local) (rs_gas_used r)) i (Some r))
             else Inr ())"

definition compare_result ::
  "comparator_inputs \<Rightarrow> relay_sim_error + relay_simulation_outcome \<Rightarrow> mismatch_abort + unit" where
  "compare_result i rr =
     (case rr of
        Inr outcome \<Rightarrow> compare i outcome
      | Inl err \<Rightarrow> Inl (abort_with Unknown (RelayError err) i None))"

section \<open>The mock\<close>

record mock_relay =
  programmed :: "relay_sim_error + relay_simulation_outcome"

definition mock_relay_new :: mock_relay where
  "mock_relay_new = \<lparr>programmed = Inl RelayNotConfigured\<rparr>"

definition mock_program ::
  "relay_sim_error + relay_simulation_outcome \<Rightarrow> mock_relay \<Rightarrow> mock_relay" where
  "mock_program r m = m\<lparr>programmed := r\<rparr>"

definition mock_simulate_bundle ::
  "relay_sim_request \<Rightarrow> mock_relay \<Rightarrow> (relay_sim_error + relay_simulation_outcome) \<times> mock_relay" where
  "mock_simulate_bundle req m = (programmed m, m)"

section \<open>What counts as a mismatch\<close>

text \<open>The five reachable categories, each with the disagreement it stands for, in the order of the
  documented precedence.\<close>

fun disagrees :: "comparator_inputs \<Rightarrow> relay_simulation_outcome \<Rightarrow> mismatch_category \<Rightarrow> bool" where
  "disagrees i r Revert \<longleftrightarrow> (so_status (ci_local i) = Success) \<noteq> (rs_status r = Success)"
| "disagrees i r BundleOutcome \<longleftrightarrow>
     bs_expected_inclusion_index (ci_local_shape i) \<noteq> rs_inclusion_index r \<or>
     bs_expected_coinbase_transfer_wei (ci_local_shape i) \<noteq> rs_coinbase_transfer_wei r"
| "disagrees i r StateDependency \<longleftrightarrow>
     (\<exists>l \<in> set (fp_observations (ci_local_fingerprint i)). \<exists>v.
        List.find (same_slot l) (rs_state_observations r) = Some v \<and> ob_value v \<noteq> ob_value l)"
| "disagrees i r Profitability \<longleftrightarrow> so_simulated_profit_wei (ci_local i) \<noteq> rs_measured_profit_wei r"
| "disagrees i r Gas \<longleftrightarrow> so_gas_used (ci_local i) \<noteq> rs_gas_used r"
| "disagrees i r Unknown \<longleftrightarrow> False"

definition precedence :: "mismatch_category list" where
  "precedence = [Revert, BundleOutcome, StateDependency, Profitability, Gas]"

definition carries_inputs ::
  "mismatch_abort \<Rightarrow> comparator_inputs \<Rightarrow> relay_simulation_outcome option \<Rightarrow> bool" where
  "carries_inputs a i r \<longleftrightarrow>
     mm_local a = ci_local i \<and> mm_local_shape a = ci_local_shape i \<and>
     mm_local_fingerprint a = ci_local_fingerprint i \<and> mm_relay a = r"

section \<open>Lemmas\<close>

lemma abort_with_simps [simp]:
  "mm_category (abort_with c d i r) = c" "carries_inputs (abort_with c d i r) i r"
  "mm_relay (abort_with c d i r) = r"
  by (simp_all add: abort_with_def carries_inputs_def)

lemma first_conflict_None_iff:
  "first_conflict ls rs = None \<longleftrightarrow>
     (\<forall>l \<in> set ls. \<forall>v. List.find (same_slot l) rs = Some v \<longrightarrow> ob_value v = ob_value l)"
  by (induction ls) (auto split: option.split)

lemma state_dependency_iff:
  "disagrees i r StateDependency \<longleftrightarrow>
     first_conflict (fp_observations (ci_local_fingerprint i)) (rs_state_observations r) \<noteq> None"
  unfolding first_conflict_None_iff disagrees.simps by blast

lemma find_distinct:
  assumes "distinct (map (\<lambda>v. (ob_account v, ob_slot v)) rs)" "v \<in> set rs" "same_slot l v"
  shows "List.find (same_slot l) rs = Some v"
proof -
  have "\<exists>u. List.find (same_slot l) rs = Some u"
    using assms(2,3) by (cases "List.find (same_slot l) rs") (auto simp: find_None_iff)
  then obtain u where u: "List.find (same_slot l) rs = Some u" "u \<in> set rs" "same_slot l u"
    by (metis find_Some_iff nth_mem)
  then have "(ob_account u, ob_slot u) = (ob_account v, ob_slot v)"
    using assms(3) by (simp add: same_slot_def)
  with assms(1,2) u(1,2) show ?thesis by (auto simp: distinct_map dest: inj_onD)
qed

lemma compare_cases:
  "case compare i r of
     Inr _ \<Rightarrow> List.find (disagrees i r) precedence = None
   | Inl a \<Rightarrow> List.find (disagrees i r) precedence = Some (mm_category a) \<and> carries_inputs a i (Some r)"
proof (cases "first_conflict (fp_observations (ci_local_fingerprint i)) (rs_state_observations r)")
  case None
  then have "\<not> disagrees i r StateDependency" unfolding state_dependency_iff by simp
  with None show ?thesis
    by (simp add: compare_def precedence_def Let_def del: disagrees.simps(3))
next
  case (Some c)
  then have "disagrees i r StateDependency" unfolding state_dependency_iff by simp
  with Some show ?thesis
    by (cases c) (simp add: compare_def precedence_def Let_def del: disagrees.simps(3))
qed

section \<open>Properties\<close>

text \<open>C4: the comparator is exact and its diagnosis follows the documented precedence: it accepts
  exactly when the two sides agree in all five respects; otherwise the category of the abort is the
  first one, in the order revert, bundle outcome, state dependency, profitability, gas, in which they
  disagree, and the abort carries all of its inputs.  The category for an unknown failure is given
  exactly to the errors of the relay, with no relay outcome, and an error is never accepted.\<close>

theorem comparator_exact:
  "(case compare_result i (Inr r) of
      Inr _ \<Rightarrow> \<forall>c. \<not> disagrees i r c
    | Inl a \<Rightarrow> List.find (disagrees i r) precedence = Some (mm_category a) \<and> carries_inputs a i (Some r)) \<and>
   (case compare_result i (Inl e) of
      Inr _ \<Rightarrow> False
    | Inl a \<Rightarrow> mm_category a = Unknown \<and> carries_inputs a i None)"
proof -
  have "\<forall>c. \<not> disagrees i r c" if none: "List.find (disagrees i r) precedence = None"
  proof
    fix c
    have "\<forall>c \<in> {Revert, BundleOutcome, StateDependency, Profitability, Gas}. \<not> disagrees i r c"
      using none unfolding find_None_iff precedence_def by (auto simp del: disagrees.simps)
    then show "\<not> disagrees i r c" by (cases c) (simp_all del: disagrees.simps(1-5))
  qed
  then show ?thesis
    using compare_cases[of i r]
    by (auto simp: compare_result_def simp del: disagrees.simps split: sum.splits)
qed

text \<open>when the relay reports each slot at most once, the state-dependency check is the
  intersection check: it fires exactly when some slot that both sides read has two values, and slots
  that only one side read never matter.\<close>

theorem state_dependency_is_intersection_check:
  assumes "distinct (map (\<lambda>v. (ob_account v, ob_slot v)) (rs_state_observations r))"
  shows "disagrees i r StateDependency \<longleftrightarrow>
    (\<exists>l \<in> set (fp_observations (ci_local_fingerprint i)). \<exists>v \<in> set (rs_state_observations r).
       ob_account l = ob_account v \<and> ob_slot l = ob_slot v \<and> ob_value l \<noteq> ob_value v)"
proof
  assume "disagrees i r StateDependency"
  then obtain l v where "l \<in> set (fp_observations (ci_local_fingerprint i))"
    "List.find (same_slot l) (rs_state_observations r) = Some v" "ob_value v \<noteq> ob_value l" by auto
  then show "\<exists>l \<in> set (fp_observations (ci_local_fingerprint i)). \<exists>v \<in> set (rs_state_observations r).
       ob_account l = ob_account v \<and> ob_slot l = ob_slot v \<and> ob_value l \<noteq> ob_value v"
    by (intro bexI[of _ l] bexI[of _ v]) (auto simp: find_Some_iff same_slot_def)
next
  assume "\<exists>l \<in> set (fp_observations (ci_local_fingerprint i)). \<exists>v \<in> set (rs_state_observations r).
       ob_account l = ob_account v \<and> ob_slot l = ob_slot v \<and> ob_value l \<noteq> ob_value v"
  then obtain l v where l: "l \<in> set (fp_observations (ci_local_fingerprint i))"
    and v: "v \<in> set (rs_state_observations r)" "same_slot l v" and "ob_value l \<noteq> ob_value v"
    by (auto simp: same_slot_def)
  then show "disagrees i r StateDependency"
    using find_distinct[OF assms v] by (auto intro!: bexI[of _ l])
qed

definition demo_observation :: "u256 \<Rightarrow> b256 \<Rightarrow> state_observation" where
  "demo_observation s v = \<lparr>ob_account = 7, ob_slot = s, ob_value = v\<rparr>"

definition demo_inputs :: comparator_inputs where
  "demo_inputs =
     \<lparr>ci_local = \<lparr>so_opportunity_block_number = 22, so_gas_used = 100, so_status = Success,
        so_simulated_profit_wei = 5, so_profit_source = RevmComputed\<rparr>,
      ci_local_shape = \<lparr>bs_expected_inclusion_index = 0, bs_expected_coinbase_transfer_wei = 0\<rparr>,
      ci_local_fingerprint = \<lparr>fp_block_hash = 9, fp_observations = [demo_observation 1 10, demo_observation 2 20]\<rparr>\<rparr>"

definition demo_relay_outcome :: relay_simulation_outcome where
  "demo_relay_outcome =
     \<lparr>rs_gas_used = 100, rs_status = Success, rs_measured_profit_wei = 6,
      rs_state_observations = [demo_observation 3 30, demo_observation 2 21],
      rs_inclusion_index = 0, rs_coinbase_transfer_wei = 0\<rparr>"

lemma state_dependency_is_intersection_check_witness:
  "disagrees demo_inputs demo_relay_outcome StateDependency"
  using state_dependency_is_intersection_check[of demo_relay_outcome demo_inputs]
  by (simp add: demo_inputs_def demo_relay_outcome_def demo_observation_def)

end
