(* ===== verification/Relay_Clients.thy ===== *)
theory Relay_Clients
  imports Relay_Sim Signer Config
begin

text \<open>
  The relay endpoints: the bundle types, errors and kill switch of \<open>crates/bundle-relay\<close>, and the
  Flashbots and bloXroute adapters of \<open>crates/relay-clients\<close> with their shared JSON-RPC helpers.
  The HTTP client, the JSON codec, URL parsing and the radix parser of the 256-bit integers are
  parameters; the kill switch is a flag of the state, read at the moment of the call.
\<close>

section \<open>Bundle relay types\<close>

record signed_bundle =
  sb_block_hash :: b256
  sb_state_block_number :: u64
  sb_signed_txs :: "bytes list"
  sb_coinbase_recipient :: address
  sb_coinbase_transfer_wei :: u256
  sb_validity_block_min :: u64
  sb_validity_block_max :: u64

record submission_receipt =
  sr_relay_name :: string
  sr_bundle_hash :: string
  sr_submitted_at_unix_ns :: u64
  sr_local_bundle_hash :: string

datatype bundle_relay_error =
    SubmitDisabled
  | KillSwitchActive
  | SubmitDisabledNonLocalhost
  | SubmitHttpFailed
  | BundleHashMismatch

record submission_attempt =
  sa_signed_bundle :: signed_bundle

text \<open>The \<open>AtomicBool\<close> all clones share.\<close>

record kill_switch =
  ks_flag :: bool

definition kill_switch_new :: "bool \<Rightarrow> kill_switch" where
  "kill_switch_new initial_disabled = \<lparr>ks_flag = initial_disabled\<rparr>"
definition is_active :: "kill_switch \<Rightarrow> bool" where "is_active k = ks_flag k"
definition set_active :: "bool \<Rightarrow> kill_switch \<Rightarrow> kill_switch" where
  "set_active disabled k = k\<lparr>ks_flag := disabled\<rparr>"

section \<open>The wire\<close>

record url =
  url_text :: string
  url_host :: "string option"

type_synonym url_parse = "string \<Rightarrow> url option"

datatype http_failure = HttpTimeout | HttpConnect | HttpRequest | HttpOther

text \<open>A response: the status and the body, whose reading can fail.\<close>

record http_response =
  hs_status :: nat
  hs_body :: "unit + bytes"

record eth_call_bundle_params =
  cp_txs :: "string list"
  cp_block_number :: string
  cp_state_block_number :: string
  cp_timestamp :: "u64 option"

record eth_send_bundle_params =
  sp_txs :: "string list"
  sp_block_number :: string

text \<open>The JSON-RPC envelopes (version 2.0, id 1), one per method.\<close>

datatype rpc_body =
    EthCallBundle eth_call_bundle_params
  | EthSendBundle eth_send_bundle_params

record json_rpc_error =
  je_code :: int
  je_message :: string

record eth_call_bundle_tx_result =
  tr_revert :: "string option"
  tr_error :: "string option"

record eth_call_bundle_result =
  cr_total_gas_used :: u64
  cr_coinbase_diff :: string
  cr_eth_sent_to_coinbase :: string
  cr_results :: "eth_call_bundle_tx_result list"

record eth_send_bundle_result =
  se_bundle_hash :: string

record 'r json_rpc_response =
  jr_result :: "'r option"
  jr_error :: "json_rpc_error option"

text \<open>What the adapters use of the outside: one HTTP POST (the first argument is the client's
  default \<open>Authorization\<close> header), the two JSON decoders, the radix parser, a clock.\<close>

record 'w relay_env =
  re_post :: "string option \<Rightarrow> url \<Rightarrow> rpc_body \<Rightarrow> 'w \<Rightarrow> (http_failure + http_response) \<times> 'w"
  re_parse_call :: "bytes \<Rightarrow> eth_call_bundle_result json_rpc_response option"
  re_parse_send :: "bytes \<Rightarrow> eth_send_bundle_result json_rpc_response option"
  re_from_str_radix :: "string \<Rightarrow> nat \<Rightarrow> u256 option"
  re_unix_ns :: "'w \<Rightarrow> nat option"

section \<open>Rendering\<close>

fun hex_nat :: "nat \<Rightarrow> string" where
  "hex_nat n = (if n < 16 then [hex_digit n] else hex_nat (n div 16) @ [hex_digit (n mod 16)])"

declare hex_nat.simps [simp del]

definition hex_0x :: "u64 \<Rightarrow> string" where "hex_0x n = ''0x'' @ hex_nat (unat n)"
definition hex_tx :: "bytes \<Rightarrow> string" where "hex_tx raw = ''0x'' @ hex_bytes raw"

fun decimal :: "nat \<Rightarrow> string" where
  "decimal n = (if n < 10 then [hex_digit n] else decimal (n div 10) @ [hex_digit (n mod 10)])"

declare decimal.simps [simp del]

definition decimal_int :: "int \<Rightarrow> string" where
  "decimal_int i = (if i < 0 then ''-'' @ decimal (nat (- i)) else decimal (nat i))"

definition strip_prefix :: "string \<Rightarrow> string \<Rightarrow> string option" where
  "strip_prefix pre s = (if take (length pre) s = pre then Some (drop (length pre) s) else None)"

definition parse_decimal_or_hex_u256 :: "(string \<Rightarrow> nat \<Rightarrow> u256 option) \<Rightarrow> string \<Rightarrow> u256" where
  "parse_decimal_or_hex_u256 from_str_radix s =
     (let trimmed = trim s in
      if trimmed = [] then 0
      else case (case strip_prefix ''0x'' trimmed of
                   Some x \<Rightarrow> Some x
                 | None \<Rightarrow> strip_prefix ''0X'' trimmed) of
             Some stripped \<Rightarrow> (case from_str_radix stripped 16 of Some v \<Rightarrow> v | None \<Rightarrow> 0)
           | None \<Rightarrow> (case from_str_radix trimmed 10 of Some v \<Rightarrow> v | None \<Rightarrow> 0))"

section \<open>Simulation requests\<close>

fun failure_kind :: "http_failure \<Rightarrow> string" where
  "failure_kind HttpTimeout = ''timeout''"
| "failure_kind HttpConnect = ''connect''"
| "failure_kind HttpRequest = ''request''"
| "failure_kind HttpOther = ''other''"

text \<open>The first transaction with a revert or an error decides.\<close>

fun relay_status_of :: "eth_call_bundle_tx_result list \<Rightarrow> sim_status" where
  "relay_status_of [] = Success"
| "relay_status_of (r # rs) =
     (if tr_revert r \<noteq> None then Reverted ''relay-revert-redacted''
      else if tr_error r \<noteq> None then Reverted ''relay-tx-error-redacted''
      else relay_status_of rs)"

definition call_bundle_body :: "relay_sim_request \<Rightarrow> rpc_body" where
  "call_bundle_body req =
     EthCallBundle \<lparr>cp_txs = map hex_tx (rq_txs req),
       cp_block_number = hex_0x (rq_state_block_number req),
       cp_state_block_number = hex_0x (rq_state_block_number req), cp_timestamp = None\<rparr>"

definition read_call_response ::
  "(string \<Rightarrow> nat \<Rightarrow> u256 option) \<Rightarrow> eth_call_bundle_result json_rpc_response
   \<Rightarrow> relay_sim_error + relay_simulation_outcome" where
  "read_call_response radix parsed =
     (case jr_error parsed of
        Some err \<Rightarrow> Inl (RelayTransport (''relay JSON-RPC error code '' @ decimal_int (je_code err)))
      | None \<Rightarrow>
          (case jr_result parsed of
             None \<Rightarrow> Inl (UnrecognizedResponse ''relay response missing 'result' field'')
           | Some res \<Rightarrow>
               Inr \<lparr>rs_gas_used = cr_total_gas_used res, rs_status = relay_status_of (cr_results res),
                    rs_measured_profit_wei = parse_decimal_or_hex_u256 radix (cr_coinbase_diff res),
                    rs_state_observations = [], rs_inclusion_index = 0,
                    rs_coinbase_transfer_wei =
                      parse_decimal_or_hex_u256 radix (cr_eth_sent_to_coinbase res)\<rparr>))"

definition call_eth_call_bundle ::
  "'w relay_env \<Rightarrow> string option \<Rightarrow> url \<Rightarrow> relay_sim_request \<Rightarrow> 'w
   \<Rightarrow> (relay_sim_error + relay_simulation_outcome) \<times> 'w" where
  "call_eth_call_bundle env auth ep req w =
     (case re_post env auth ep (call_bundle_body req) w of
        (Inl e, w) \<Rightarrow> (Inl (RelayTransport (''relay HTTP error: '' @ failure_kind e)), w)
      | (Inr resp, w) \<Rightarrow>
          (if \<not> (200 \<le> hs_status resp \<and> hs_status resp < 300)
           then (Inl (RelayTransport (''relay HTTP status: '' @ decimal (hs_status resp))), w)
           else case hs_body resp of
              Inl _ \<Rightarrow> (Inl (RelayTransport ''relay response body read failed''), w)
            | Inr bs \<Rightarrow>
                (case re_parse_call env bs of
                   None \<Rightarrow> (Inl (UnrecognizedResponse ''relay response is not valid JSON-RPC''), w)
                 | Some parsed \<Rightarrow> (read_call_response (re_from_str_radix env) parsed, w))))"

section \<open>Submission requests\<close>

definition send_bundle_body :: "signed_bundle \<Rightarrow> rpc_body" where
  "send_bundle_body b =
     EthSendBundle \<lparr>sp_txs = map hex_tx (sb_signed_txs b), sp_block_number = hex_0x (sb_validity_block_min b)\<rparr>"

definition submit_eth_send_bundle ::
  "'w relay_env \<Rightarrow> string option \<Rightarrow> url \<Rightarrow> string \<Rightarrow> signed_bundle \<Rightarrow> 'w
   \<Rightarrow> (bundle_relay_error + submission_receipt) \<times> 'w" where
  "submit_eth_send_bundle env auth ep relay_name b w =
     (let submitted_at = (case re_unix_ns env w of Some ns \<Rightarrow> word_of_nat ns | None \<Rightarrow> 0) in
      case re_post env auth ep (send_bundle_body b) w of
        (Inl e, w) \<Rightarrow> (Inl SubmitHttpFailed, w)
      | (Inr resp, w) \<Rightarrow>
          (if \<not> (200 \<le> hs_status resp \<and> hs_status resp < 300) then (Inl SubmitHttpFailed, w)
           else case hs_body resp of
              Inl _ \<Rightarrow> (Inl SubmitHttpFailed, w)
            | Inr bs \<Rightarrow>
                (case re_parse_send env bs of
                   None \<Rightarrow> (Inl SubmitHttpFailed, w)
                 | Some parsed \<Rightarrow>
                     (if jr_error parsed \<noteq> None then (Inl SubmitHttpFailed, w)
                      else case jr_result parsed of
                         None \<Rightarrow> (Inl SubmitHttpFailed, w)
                       | Some res \<Rightarrow>
                           (Inr \<lparr>sr_relay_name = relay_name, sr_bundle_hash = se_bundle_hash res,
                                 sr_submitted_at_unix_ns = submitted_at,
                                 sr_local_bundle_hash = ''''\<rparr>, w)))))"

definition is_localhost_url :: "url \<Rightarrow> bool" where
  "is_localhost_url ep \<longleftrightarrow>
     url_host ep \<in> {Some ''127.0.0.1'', Some ''localhost'', Some ''::1'', Some ''[::1]''}"

section \<open>The adapters\<close>

record flashbots_config =
  fc_endpoint :: string
  fc_timeout_ms :: u64

record bloxroute_config =
  bc_endpoint :: string
  bc_timeout_ms :: u64
  bc_api_key :: "string option"

definition flashbots_config_default :: flashbots_config where
  "flashbots_config_default =
     \<lparr>fc_endpoint = ''https://relay.flashbots.net'', fc_timeout_ms = 2000\<rparr>"

definition bloxroute_config_default :: bloxroute_config where
  "bloxroute_config_default =
     \<lparr>bc_endpoint = ''https://api.blxrbdn.com'', bc_timeout_ms = 2000, bc_api_key = None\<rparr>"

text \<open>The reqwest client is its default \<open>Authorization\<close> header (none for Flashbots); bloXroute has no
  client at all without a key.\<close>

record flashbots_relay =
  fr_name :: string
  fr_endpoint :: url
  fr_timeout :: u64
  fr_allow_non_localhost :: bool

record bloxroute_relay =
  br_name :: string
  br_endpoint :: url
  br_http :: "string option"
  br_timeout :: u64
  br_allow_non_localhost :: bool

text \<open>\<open>build_ok\<close> is whether \<open>reqwest::Client::builder().build()\<close> succeeds, \<open>header_ok\<close> whether a
  string is a legal header value.\<close>

definition flashbots_new ::
  "url_parse \<Rightarrow> bool \<Rightarrow> flashbots_config \<Rightarrow> bool \<Rightarrow> relay_sim_error + flashbots_relay" where
  "flashbots_new parse build_ok cfg allow =
     (if trim (fc_endpoint cfg) = [] then Inl RelayNotConfigured
      else case parse (trim (fc_endpoint cfg)) of
        None \<Rightarrow> Inl RelayNotConfigured
      | Some ep \<Rightarrow>
          if \<not> build_ok then Inl RelayNotConfigured
          else Inr \<lparr>fr_name = ''flashbots'', fr_endpoint = ep, fr_timeout = fc_timeout_ms cfg,
                    fr_allow_non_localhost = allow\<rparr>)"

definition bloxroute_new ::
  "url_parse \<Rightarrow> (string \<Rightarrow> bool) \<Rightarrow> bool \<Rightarrow> bloxroute_config \<Rightarrow> bool \<Rightarrow> relay_sim_error + bloxroute_relay" where
  "bloxroute_new parse header_ok build_ok cfg allow =
     (if trim (bc_endpoint cfg) = [] then Inl RelayNotConfigured
      else case parse (trim (bc_endpoint cfg)) of
        None \<Rightarrow> Inl RelayNotConfigured
      | Some ep \<Rightarrow>
          bind_res
            (case bc_api_key cfg of
               Some key \<Rightarrow>
                 if key \<noteq> [] then
                   (if \<not> header_ok key then Inl RelayNotConfigured
                    else if \<not> build_ok then Inl RelayNotConfigured
                    else Inr (Some key))
                 else Inr None
             | None \<Rightarrow> Inr None)
            (\<lambda>http. Inr \<lparr>br_name = ''bloxroute'', br_endpoint = ep, br_http = http,
                          br_timeout = bc_timeout_ms cfg, br_allow_non_localhost = allow\<rparr>))"

definition flashbots_simulate_bundle ::
  "'w relay_env \<Rightarrow> flashbots_relay \<Rightarrow> relay_sim_request \<Rightarrow> 'w
   \<Rightarrow> (relay_sim_error + relay_simulation_outcome) \<times> 'w" where
  "flashbots_simulate_bundle env r req w =
     (if rq_txs req = [] then (Inl UnsignedBundleUnavailable, w)
      else call_eth_call_bundle env None (fr_endpoint r) req w)"

definition bloxroute_simulate_bundle ::
  "'w relay_env \<Rightarrow> bloxroute_relay \<Rightarrow> relay_sim_request \<Rightarrow> 'w
   \<Rightarrow> (relay_sim_error + relay_simulation_outcome) \<times> 'w" where
  "bloxroute_simulate_bundle env r req w =
     (if rq_txs req = [] then (Inl UnsignedBundleUnavailable, w)
      else case br_http r of
        None \<Rightarrow> (Inl RelayNotConfigured, w)
      | Some key \<Rightarrow> call_eth_call_bundle env (Some key) (br_endpoint r) req w)"

definition flashbots_submit_bundle ::
  "'w relay_env \<Rightarrow> kill_switch \<Rightarrow> flashbots_relay \<Rightarrow> signed_bundle \<Rightarrow> 'w
   \<Rightarrow> (bundle_relay_error + submission_receipt) \<times> 'w" where
  "flashbots_submit_bundle env ks r b w =
     (if is_active ks then (Inl KillSwitchActive, w)
      else if \<not> fr_allow_non_localhost r \<and> \<not> is_localhost_url (fr_endpoint r)
      then (Inl SubmitDisabledNonLocalhost, w)
      else submit_eth_send_bundle env None (fr_endpoint r) (fr_name r) b w)"

definition bloxroute_submit_bundle ::
  "'w relay_env \<Rightarrow> kill_switch \<Rightarrow> bloxroute_relay \<Rightarrow> signed_bundle \<Rightarrow> 'w
   \<Rightarrow> (bundle_relay_error + submission_receipt) \<times> 'w" where
  "bloxroute_submit_bundle env ks r b w =
     (if is_active ks then (Inl KillSwitchActive, w)
      else if \<not> br_allow_non_localhost r \<and> \<not> is_localhost_url (br_endpoint r)
      then (Inl SubmitDisabledNonLocalhost, w)
      else case br_http r of
        None \<Rightarrow> (Inl SubmitHttpFailed, w)
      | Some key \<Rightarrow> submit_eth_send_bundle env (Some key) (br_endpoint r) (br_name r) b w)"


section \<open>Hexadecimal rendering loses nothing\<close>

lemma hex_digit_inj:
  assumes "m < 16" "n < 16" "hex_digit m = hex_digit n"
  shows "m = n"
proof -
  have d: "distinct ''0123456789abcdef''" "length ''0123456789abcdef'' = 16" by simp_all
  show ?thesis
    using assms nth_eq_iff_index_eq[OF d(1), of m n] unfolding hex_digit_def d(2) by blast
qed

lemma hex_bytes_Cons:
  "hex_bytes (b # bs) = hex_digit (unat b div 16) # hex_digit (unat b mod 16) # hex_bytes bs"
  by (simp add: hex_bytes_def)

lemma hex_bytes_inj: "hex_bytes xs = hex_bytes ys \<Longrightarrow> xs = ys"
proof (induction xs arbitrary: ys)
  case Nil
  then show ?case by (cases ys) (simp_all add: hex_bytes_def)
next
  case (Cons x xs)
  then obtain y ys' where ys: "ys = y # ys'" by (cases ys) (simp_all add: hex_bytes_def)
  have lt: "unat x div 16 < 16" "unat y div 16 < 16"
    using unat_lt_exp[of x] unat_lt_exp[of y] by (simp_all add: less_mult_imp_div_less)
  from Cons.prems have e: "hex_digit (unat x div 16) = hex_digit (unat y div 16)"
    "hex_digit (unat x mod 16) = hex_digit (unat y mod 16)" "hex_bytes xs = hex_bytes ys'"
    by (simp_all add: ys hex_bytes_Cons)
  have "unat x div 16 = unat y div 16" "unat x mod 16 = unat y mod 16"
    using hex_digit_inj[OF lt e(1)] hex_digit_inj[OF _ _ e(2)] by simp_all
  then have "unat x = unat y" by (metis div_mult_mod_eq)
  then show ?case using Cons.IH[OF e(3)] by (simp add: ys word_unat_eq_iff)
qed

lemma hex_tx_inj: "hex_tx a = hex_tx b \<longleftrightarrow> a = b"
  by (auto simp: hex_tx_def dest: hex_bytes_inj)

lemma hex_nat_nonempty: "hex_nat n \<noteq> []"
  by (subst hex_nat.simps) simp

lemma hex_nat_short: "n < 16 \<Longrightarrow> hex_nat n = [hex_digit n]"
  by (subst hex_nat.simps) simp

lemma hex_nat_long: "16 \<le> n \<Longrightarrow> hex_nat n = hex_nat (n div 16) @ [hex_digit (n mod 16)]"
  by (subst hex_nat.simps) simp

lemma hex_nat_inj: "hex_nat m = hex_nat n \<Longrightarrow> m = n"
proof (induction m arbitrary: n rule: less_induct)
  case (less m)
  show ?case
  proof (cases "m < 16")
    case True
    have "n < 16"
      using less.prems hex_nat_nonempty[of "n div 16"] True
      by (cases "n < 16") (auto simp: hex_nat_short hex_nat_long Cons_eq_append_conv)
    with True less.prems show ?thesis by (simp add: hex_nat_short hex_digit_inj)
  next
    case False
    then have n: "\<not> n < 16"
      using less.prems hex_nat_nonempty[of "m div 16"]
      by (cases "n < 16") (auto simp: hex_nat_short hex_nat_long append_eq_Cons_conv)
    from less.prems False n have "hex_nat (m div 16) = hex_nat (n div 16)"
      and "hex_digit (m mod 16) = hex_digit (n mod 16)" by (simp_all add: hex_nat_long)
    with less.IH[of "m div 16" "n div 16"] hex_digit_inj[of "m mod 16" "n mod 16"] False
    have "m div 16 = n div 16" "m mod 16 = n mod 16" by simp_all
    then show ?thesis by (metis div_mult_mod_eq)
  qed
qed

lemma hex_0x_inj: "hex_0x a = hex_0x b \<longleftrightarrow> a = b"
  by (auto simp: hex_0x_def word_unat_eq_iff dest: hex_nat_inj)

section \<open>Properties\<close>

text \<open>To speak of the requests an adapter makes, the environment is wrapped so that every POST is
  also recorded.\<close>

definition recording_env ::
  "'w relay_env \<Rightarrow> ('w \<times> (string option \<times> url \<times> rpc_body) list) relay_env" where
  "recording_env env =
     \<lparr>re_post = (\<lambda>auth ep body wl.
        let (r, w) = re_post env auth ep body (fst wl) in (r, (w, snd wl @ [(auth, ep, body)]))),
      re_parse_call = re_parse_call env, re_parse_send = re_parse_send env,
      re_from_str_radix = re_from_str_radix env, re_unix_ns = (\<lambda>wl. re_unix_ns env (fst wl))\<rparr>"

definition posts_of :: "'r \<times> ('w \<times> 'p list) \<Rightarrow> 'p list" where
  "posts_of res = snd (snd res)"

lemma submit_records:
  "posts_of (submit_eth_send_bundle (recording_env env) auth ep nm b (w, l)) = l @ [(auth, ep, send_bundle_body b)]"
  "fst (submit_eth_send_bundle env auth ep nm b w) \<noteq> Inl KillSwitchActive"
  "fst (submit_eth_send_bundle env auth ep nm b w) \<noteq> Inl SubmitDisabledNonLocalhost"
  by (simp_all add: posts_of_def submit_eth_send_bundle_def recording_env_def Let_def
      split: sum.split prod.split option.split)

lemma call_records:
  "posts_of (call_eth_call_bundle (recording_env env) auth ep req (w, l)) = l @ [(auth, ep, call_bundle_body req)]"
  by (simp add: posts_of_def call_eth_call_bundle_def recording_env_def
      split: sum.split prod.split option.split)

text \<open>C2: safety of submission.  An adapter sends at most one request, to its own endpoint, and sends
  one exactly when the kill switch is off and the endpoint is on this machine or the operator opted
  in (and, for bloXroute, a key is configured); an active kill switch is always the reported reason,
  before any other, and a refused endpoint the next one.\<close>

theorem submission_gate:
  "posts_of (flashbots_submit_bundle (recording_env env) ks f b (w, [])) =
     (if \<not> is_active ks \<and> (fr_allow_non_localhost f \<or> is_localhost_url (fr_endpoint f))
      then [(None, fr_endpoint f, send_bundle_body b)] else []) \<and>
   posts_of (bloxroute_submit_bundle (recording_env env) ks x b (w, [])) =
     (if \<not> is_active ks \<and> (br_allow_non_localhost x \<or> is_localhost_url (br_endpoint x))
         \<and> br_http x \<noteq> None
      then [(br_http x, br_endpoint x, send_bundle_body b)] else []) \<and>
   (fst (flashbots_submit_bundle env ks f b w) = Inl KillSwitchActive \<longleftrightarrow> is_active ks) \<and>
   (fst (bloxroute_submit_bundle env ks x b w) = Inl KillSwitchActive \<longleftrightarrow> is_active ks) \<and>
   (fst (flashbots_submit_bundle env ks f b w) = Inl SubmitDisabledNonLocalhost \<longleftrightarrow>
      \<not> is_active ks \<and> \<not> fr_allow_non_localhost f \<and> \<not> is_localhost_url (fr_endpoint f)) \<and>
   (fst (bloxroute_submit_bundle env ks x b w) = Inl SubmitDisabledNonLocalhost \<longleftrightarrow>
      \<not> is_active ks \<and> \<not> br_allow_non_localhost x \<and> \<not> is_localhost_url (br_endpoint x))"
  by (auto simp: flashbots_submit_bundle_def bloxroute_submit_bundle_def submit_records
      posts_of_def[of "(_, _)"] split: option.split)

definition scrub ::
  "eth_call_bundle_result json_rpc_response \<Rightarrow> eth_call_bundle_result json_rpc_response" where
  "scrub p =
     \<lparr>jr_result = map_option (\<lambda>r. r\<lparr>cr_results :=
        map (\<lambda>t. \<lparr>tr_revert = map_option (\<lambda>_. '''') (tr_revert t),
                   tr_error = map_option (\<lambda>_. '''') (tr_error t)\<rparr>) (cr_results r)\<rparr>) (jr_result p),
      jr_error = map_option (\<lambda>e. e\<lparr>je_message := ''''\<rparr>) (jr_error p)\<rparr>"

lemma relay_status_scrub:
  "relay_status_of (map (\<lambda>t. \<lparr>tr_revert = map_option (\<lambda>_. '''') (tr_revert t),
      tr_error = map_option (\<lambda>_. '''') (tr_error t)\<rparr>) rs) = relay_status_of rs"
  by (induction rs) simp_all

lemma relay_status_success_iff:
  "relay_status_of rs = Success \<longleftrightarrow> (\<forall>t \<in> set rs. tr_revert t = None \<and> tr_error t = None)"
  by (induction rs) auto

text \<open>without signed transactions an adapter makes no request at all, with them exactly one; and
  what it reports does not depend on any free text the relay sent: blanking the error message and
  every revert and error string of a response leaves the reported outcome unchanged.\<close>

theorem simulation_requests_and_redaction:
  "posts_of (flashbots_simulate_bundle (recording_env env) f req (w, [])) =
     (if rq_txs req = [] then [] else [(None, fr_endpoint f, call_bundle_body req)]) \<and>
   posts_of (bloxroute_simulate_bundle (recording_env env) x req (w, [])) =
     (if rq_txs req = [] \<or> br_http x = None then []
      else [(br_http x, br_endpoint x, call_bundle_body req)]) \<and>
   read_call_response radix (scrub p) = read_call_response radix p"
  by (auto simp: flashbots_simulate_bundle_def bloxroute_simulate_bundle_def call_records
      read_call_response_def scrub_def relay_status_scrub posts_of_def[of "(_, _)"] split: option.split)

text \<open>the request sent to a relay determines the signed transactions and the target block, byte
  for byte, and carries nothing else of the bundle.\<close>

theorem send_body_determines_bundle:
  "send_bundle_body a = send_bundle_body b \<longleftrightarrow>
     sb_signed_txs a = sb_signed_txs b \<and> sb_validity_block_min a = sb_validity_block_min b"
proof -
  have "map hex_tx xs = map hex_tx ys \<longleftrightarrow> xs = ys" for xs ys
    by (rule inj_map_eq_map) (simp add: inj_def hex_tx_inj)
  then show ?thesis by (simp add: send_bundle_body_def hex_0x_inj)
qed

end
