(* ===== verification/Storage_Layout.thy ===== *)
theory Storage_Layout
  imports State_Decode "HOL-Library.Signed_Division"
begin

text \<open>
  Solidity storage slots (\<open>crates/state-fetcher/src/storage_key.rs\<close>) and the Uniswap layouts
  (\<open>uniswap.rs\<close>): which slots of a pool are fetched first and which follow from the values already
  fetched.  An \<open>i32\<close> is a 32-bit word read with \<open>sint\<close>; keccak-256 is a parameter.
\<close>

section \<open>Storage keys\<close>

definition mapping_slot_u256 :: "(bytes \<Rightarrow> bytes) \<Rightarrow> u256 \<Rightarrow> b256 \<Rightarrow> u256" where
  "mapping_slot_u256 keccak mapping_slot key =
     u256_from_be (keccak (u256_to_be key @ u256_to_be mapping_slot))"

definition signed_int_key :: "u32 \<Rightarrow> nat \<Rightarrow> b256" where
  "signed_int_key v n =
     (let signed_be = u64_to_be (scast v);
          key = replicate 32 (if v <s 0 then 0xff else 0x00);
          tk = min n 8
      in u256_from_be (take (32 - tk) key @ drop (8 - tk) signed_be))"

definition address_key :: "address \<Rightarrow> b256" where
  "address_key addr = u256_from_be (replicate 12 0 @ address_to_be addr)"

definition array_element_slot :: "(bytes \<Rightarrow> bytes) \<Rightarrow> u256 \<Rightarrow> u256 \<Rightarrow> u32 \<Rightarrow> u256" where
  "array_element_slot keccak array_slot i element_words =
     u256_from_be (keccak (u256_to_be array_slot)) + i * ucast element_words"

section \<open>The tick\<close>

definition TICK_SPACING_005 :: u32 where "TICK_SPACING_005 = 10"
definition MIN_SQRT_RATIO :: u128 where "MIN_SQRT_RATIO = 4295128739"
definition MIN_SQRT_RATIO_PLUS_ONE :: u128 where "MIN_SQRT_RATIO_PLUS_ONE = MIN_SQRT_RATIO + 1"
definition MAX_SQRT_RATIO_MINUS_ONE_BYTES :: bytes where
  "MAX_SQRT_RATIO_MINUS_ONE_BYTES = replicate 12 0 @
     [0xff, 0xfd, 0x89, 0x63, 0xef, 0xd1, 0xfc, 0x6a, 0x50, 0x64, 0x88, 0x49, 0x5d, 0x95, 0x1d,
      0x52, 0x63, 0x98, 0x8d, 0x25]"

text \<open>\<open>None\<close> is the panic of the two divisions.\<close>

definition compress_tick :: "u32 \<Rightarrow> u32 \<Rightarrow> u32 option" where
  "compress_tick tk spacing =
     (if spacing = 0 \<or> tk = 0x80000000 \<and> spacing = - 1 then None
      else let compressed = word_of_int (sint tk sdiv sint spacing) in
        Some (if tk <s 0 \<and> sint tk smod sint spacing \<noteq> 0 then compressed - 1 else compressed))"

definition slot0_tick :: "b256 \<Rightarrow> u32" where
  "slot0_tick slot0 =
     (let tick_low = ucast (drop_bit 160 slot0 AND (push_bit 24 1 - 1)) :: u32
      in if tick_low AND push_bit 23 1 \<noteq> 0 then tick_low OR 0xff000000 else tick_low)"

text \<open>The position of the bitmap word of the current tick; the spacing is the constant 10.\<close>

definition active_word_pos :: "b256 \<Rightarrow> u32" where
  "active_word_pos slot0 =
     (case compress_tick (slot0_tick slot0) TICK_SPACING_005 of
        Some compressed \<Rightarrow> signed_drop_bit 8 compressed
      | None \<Rightarrow> 0)"

section \<open>Layouts\<close>

text \<open>The trait \<open>PoolSlotLayout\<close>.\<close>

record slot_layout =
  base_slots :: "pool_id \<Rightarrow> u256 list"
  derived_slots :: "pool_id \<Rightarrow> (u256 \<times> b256) list \<Rightarrow> u256 list"

definition caller_supplied_slots :: "u256 list \<Rightarrow> slot_layout" where
  "caller_supplied_slots xs = \<lparr>base_slots = (\<lambda>_. xs), derived_slots = (\<lambda>_ _. [])\<rparr>"

definition no_extra_slots :: slot_layout where
  "no_extra_slots = \<lparr>base_slots = (\<lambda>_. []), derived_slots = (\<lambda>_ _. [])\<rparr>"

definition UNIV2_FACTORY_SLOT :: u64 where "UNIV2_FACTORY_SLOT = 0"
definition UNIV2_TOKEN0_SLOT :: u64 where "UNIV2_TOKEN0_SLOT = 6"
definition UNIV2_TOKEN1_SLOT :: u64 where "UNIV2_TOKEN1_SLOT = 7"
definition UNIV2_RESERVES_SLOT :: u64 where "UNIV2_RESERVES_SLOT = 8"

definition uniswap_v2_layout :: slot_layout where
  "uniswap_v2_layout =
     \<lparr>base_slots = (\<lambda>_. map ucast [UNIV2_FACTORY_SLOT, UNIV2_TOKEN0_SLOT, UNIV2_TOKEN1_SLOT, UNIV2_RESERVES_SLOT]),
      derived_slots = (\<lambda>_ _. [])\<rparr>"

definition sushiswap_v2_layout :: slot_layout where
  "sushiswap_v2_layout =
     \<lparr>base_slots = base_slots uniswap_v2_layout, derived_slots = derived_slots uniswap_v2_layout\<rparr>"

definition UNIV3_SLOT0_SLOT :: u64 where "UNIV3_SLOT0_SLOT = 0"
definition UNIV3_FEE_GROWTH_GLOBAL0_SLOT :: u64 where "UNIV3_FEE_GROWTH_GLOBAL0_SLOT = 1"
definition UNIV3_FEE_GROWTH_GLOBAL1_SLOT :: u64 where "UNIV3_FEE_GROWTH_GLOBAL1_SLOT = 2"
definition UNIV3_PROTOCOL_FEES_SLOT :: u64 where "UNIV3_PROTOCOL_FEES_SLOT = 3"
definition UNIV3_LIQUIDITY_SLOT :: u64 where "UNIV3_LIQUIDITY_SLOT = 4"
definition UNIV3_TICKS_MAPPING_SLOT :: u64 where "UNIV3_TICKS_MAPPING_SLOT = 5"
definition UNIV3_TICKBITMAP_MAPPING_SLOT :: u64 where "UNIV3_TICKBITMAP_MAPPING_SLOT = 6"

definition phase2_bitmap_slots :: "(bytes \<Rightarrow> bytes) \<Rightarrow> b256 \<Rightarrow> u256 list" where
  "phase2_bitmap_slots keccak slot0 =
     (let wp = active_word_pos slot0 in
      map (\<lambda>w. mapping_slot_u256 keccak (ucast UNIV3_TICKBITMAP_MAPPING_SLOT) (signed_int_key w 2))
        [wp - 1, wp, wp + 1])"

definition slot_value :: "u256 \<Rightarrow> (u256 \<times> b256) list \<Rightarrow> b256 option" where
  "slot_value s already = map_option snd (List.find (\<lambda>p. fst p = s) already)"

fun position :: "'a \<Rightarrow> 'a list \<Rightarrow> nat option" where
  "position x [] = None"
| "position x (y # ys) = (if y = x then Some 0 else map_option Suc (position x ys))"

definition tick_info_slots :: "(bytes \<Rightarrow> bytes) \<Rightarrow> u32 \<Rightarrow> b256 \<Rightarrow> u256 list" where
  "tick_info_slots keccak this_word_pos word =
     concat (map (\<lambda>bit_pos.
       if bit word bit_pos then
         (let compressed_tick = this_word_pos * 256 + word_of_nat bit_pos;
              tick_index = compressed_tick * TICK_SPACING_005;
              base = mapping_slot_u256 keccak (ucast UNIV3_TICKS_MAPPING_SLOT) (signed_int_key tick_index 3)
          in map (\<lambda>offset. base + word_of_nat offset) [0 ..< 4])
       else []) [0 ..< 256])"

definition phase3_tick_info_slots ::
  "(bytes \<Rightarrow> bytes) \<Rightarrow> u256 list \<Rightarrow> (u256 \<times> b256) list \<Rightarrow> u256 list" where
  "phase3_tick_info_slots keccak bitmap_slots already =
     concat (map (\<lambda>(slot, v).
       (case position slot bitmap_slots of
          None \<Rightarrow> []
        | Some idx \<Rightarrow>
            let active_wp = (case slot_value (ucast UNIV3_SLOT0_SLOT) already of
                  Some s0 \<Rightarrow> active_word_pos s0 | None \<Rightarrow> 0);
                this_word_pos = active_wp + (word_of_nat idx - 1)
            in tick_info_slots keccak this_word_pos v)) already)"

definition fetched :: "(u256 \<times> b256) list \<Rightarrow> u256 \<Rightarrow> bool" where
  "fetched already s \<longleftrightarrow> (\<exists>p \<in> set already. fst p = s)"

definition uniswap_v3_derived :: "(bytes \<Rightarrow> bytes) \<Rightarrow> (u256 \<times> b256) list \<Rightarrow> u256 list" where
  "uniswap_v3_derived keccak already =
     (case slot_value (ucast UNIV3_SLOT0_SLOT) already of
        None \<Rightarrow> []
      | Some slot0 \<Rightarrow>
          let bitmap_word_slots = phase2_bitmap_slots keccak slot0;
              phase2_done = (\<exists>s \<in> set bitmap_word_slots. fetched already s);
              candidate = (if \<not> phase2_done then bitmap_word_slots
                           else phase3_tick_info_slots keccak bitmap_word_slots already)
          in filter (\<lambda>s. \<not> fetched already s) candidate)"

definition uniswap_v3_layout :: "(bytes \<Rightarrow> bytes) \<Rightarrow> slot_layout" where
  "uniswap_v3_layout keccak =
     \<lparr>base_slots = (\<lambda>_. map ucast [UNIV3_SLOT0_SLOT, UNIV3_FEE_GROWTH_GLOBAL0_SLOT,
         UNIV3_FEE_GROWTH_GLOBAL1_SLOT, UNIV3_PROTOCOL_FEES_SLOT, UNIV3_LIQUIDITY_SLOT]),
      derived_slots = (\<lambda>_. uniswap_v3_derived keccak)\<rparr>"

section \<open>Signed keys\<close>

lemma sint_u32_bounds: "- (2 ^ 31) \<le> sint (v :: u32) \<and> sint v < 2 ^ 31"
  using sint_ge[of v] sint_less[of v] by simp

lemma be_to_nat_drop:
  assumes "k \<le> length bs"
  shows "be_to_nat (drop k bs) = be_to_nat bs mod 256 ^ (length bs - k)"
proof -
  have "be_to_nat bs = be_to_nat (take k bs) * 256 ^ (length bs - k) + be_to_nat (drop k bs)"
    using be_to_nat_append[of "take k bs" "drop k bs"] by simp
  moreover have "be_to_nat (drop k bs) < 256 ^ (length bs - k)"
    using be_to_nat_bound[of "drop k bs"] by simp
  ultimately show ?thesis by simp
qed

lemma be_to_nat_replicate_ff: "be_to_nat (replicate n 0xff) = 256 ^ n - 1"
proof (induction n)
  case (Suc n)
  have "be_to_nat (replicate (Suc n) 0xff) = 255 * 256 ^ n + (256 ^ n - 1)"
    using Suc be_to_nat_append[of "[0xff]" "replicate n 0xff"] by (simp add: be_to_nat_single)
  also have "\<dots> = 256 ^ Suc n - 1" by (simp add: trans_less_add1)
  finally show ?case .
qed (simp add: be_to_nat_Nil)

lemma be_to_nat_replicate_0: "be_to_nat (replicate n 0) = 0"
  by (simp add: be_to_nat_zero_iff)

definition fits_bytes :: "u32 \<Rightarrow> nat \<Rightarrow> bool" where
  "fits_bytes v n \<longleftrightarrow> - (2 ^ (8 * n - 1)) \<le> sint v \<and> sint v < 2 ^ (8 * n - 1)"

lemma unat_word_of_int_64: "int (unat (word_of_int k :: u64)) = k mod 2 ^ 64"
  unfolding uint_nat[symmetric] by (simp add: uint_word_of_int)

lemma signed_int_key_value:
  assumes "0 < n" "n \<le> 8" "fits_bytes v n"
  shows "signed_int_key v n = word_of_int (sint v)"
proof -
  define x where "x = unat (scast v :: u64)"
  have x: "int x = sint v mod 2 ^ 64" unfolding x_def scast_eq by (rule unat_word_of_int_64)
  have low: "be_to_nat (drop (8 - n) (u64_to_be (scast v))) = x mod 256 ^ n"
    using assms(2) be_to_nat_drop[of "8 - n" "u64_to_be (scast v)"] unat_lt_exp[of "scast v :: u64"]
    by (simp add: u64_to_be_def be_to_nat_nat_to_be x_def)
  have pow: "(256 :: int) ^ n = 2 ^ (8 * n)" by (simp add: power_mult)
  have "(2 :: int) ^ (8 * n) dvd 2 ^ 64" using assms(2) by (intro le_imp_power_dvd) simp
  then have low': "int (x mod 256 ^ n) = sint v mod 2 ^ (8 * n)"
    by (simp add: zmod_int x pow mod_mod_cancel)
  have half: "(2 :: int) ^ (8 * n) = 2 * 2 ^ (8 * n - 1)" using assms(1) by (simp flip: power_Suc)
  have total: "signed_int_key v n = word_of_nat
      (be_to_nat (replicate (32 - n) (if v <s 0 then 0xff else 0x00)) * 256 ^ n + x mod 256 ^ n)"
    using assms(2) by (simp add: signed_int_key_def Let_def min_def u256_from_be_def be_to_nat_append low)
  show ?thesis
  proof (cases "v <s 0")
    case True
    then have neg: "sint v < 0" by (simp add: word_sless_alt)
    have "sint v mod 2 ^ (8 * n) = (sint v + 2 ^ (8 * n)) mod 2 ^ (8 * n)" by simp
    also have "\<dots> = sint v + 2 ^ (8 * n)"
      using assms(3) neg half by (intro mod_pos_pos_trivial) (auto simp: fits_bytes_def)
    finally have m: "int (x mod 256 ^ n) = sint v + 2 ^ (8 * n)" using low' by simp
    have "int (be_to_nat (replicate (32 - n) 0xff) * 256 ^ n + x mod 256 ^ n)
        = (256 ^ (32 - n) - 1) * 256 ^ n + (sint v + 2 ^ (8 * n))"
      by (simp add: be_to_nat_replicate_ff m of_nat_diff)
    also have "\<dots> = 2 ^ 256 + sint v"
    proof -
      have "(256 :: int) ^ (32 - n) * 256 ^ n = 2 ^ 256" using assms(2) by (simp flip: power_add)
      then show ?thesis by (simp add: left_diff_distrib pow)
    qed
    finally have "word_of_int (int (be_to_nat (replicate (32 - n) 0xff) * 256 ^ n + x mod 256 ^ n))
        = (word_of_int (2 ^ 256 + sint v) :: u256)" by simp
    also have "\<dots> = word_of_int (sint v)" by (simp add: word_of_int_eq_iff take_bit_eq_mod)
    finally show ?thesis using True by (simp add: total)
  next
    case False
    then have "0 \<le> sint v" by (simp add: word_sless_alt)
    then have "sint v mod 2 ^ (8 * n) = sint v"
      using assms(3) half by (intro mod_pos_pos_trivial) (auto simp: fits_bytes_def)
    with low' have "int (x mod 256 ^ n) = sint v" by simp
    then have "word_of_int (int (x mod 256 ^ n)) = (word_of_int (sint v) :: u256)" by simp
    then show ?thesis using False by (simp add: total be_to_nat_replicate_0)
  qed
qed

section \<open>Ticks over the integers\<close>

lemma compress_tick_floor:
  assumes "0 < sint spacing"
  obtains c where "compress_tick tk spacing = Some c" "sint c = sint tk div sint spacing"
proof -
  define a b where "a = sint tk" and "b = sint spacing"
  have b: "0 < b" using assms by (simp add: b_def)
  have ra: "- (2 ^ 31) \<le> a" "a < 2 ^ 31" using sint_u32_bounds[of tk] by (simp_all add: a_def)
  have q: "- (2 ^ 31) \<le> a div b" "a div b < 2 ^ 31"
  proof -
    show "- (2 ^ 31) \<le> a div b"
    proof (cases "0 \<le> a")
      case True
      then have "0 \<le> a div b" using b by (simp add: pos_imp_zdiv_nonneg_iff)
      then show ?thesis by simp
    next
      case False
      then have "a div 1 \<le> a div b" using b by (intro zdiv_mono2_neg) simp_all
      with ra show ?thesis by simp
    qed
    show "a div b < 2 ^ 31"
    proof (cases "0 \<le> a")
      case True
      then have "a div b \<le> a div 1" using b by (intro zdiv_mono2) simp_all
      with ra show ?thesis by simp
    next
      case False
      then have "a div b < 0" using b by (simp add: div_neg_pos_less0)
      then show ?thesis by simp
    qed
  qed
  have ne: "spacing \<noteq> 0" "spacing \<noteq> - 1" using assms by auto
  have floor: "(if a < 0 \<and> a smod b \<noteq> 0 then a sdiv b - 1 else a sdiv b) = a div b"
    using b zdiv_zminus1_eq_if[of b "- a"] zmod_zminus1_eq_if[of "- a" b]
    by (auto simp: signed_divide_int_def signed_modulo_int_def sgn_if)
  define c where "c = (if tk <s 0 \<and> sint tk smod sint spacing \<noteq> 0 then word_of_int (sint tk sdiv sint spacing) - 1
    else (word_of_int (sint tk sdiv sint spacing) :: u32))"
  have "c = word_of_int (a div b)"
    unfolding floor[symmetric] by (simp add: c_def a_def b_def word_sless_alt)
  then have "sint c = a div b" using sint_of_int_small[OF q] by simp
  moreover have "compress_tick tk spacing = Some c"
    using ne by (simp add: compress_tick_def Let_def c_def)
  ultimately show thesis using that by (simp add: a_def b_def)
qed

text \<open>The \<open>int24\<close> in bits 160 to 183.\<close>

definition tick24 :: "b256 \<Rightarrow> int" where
  "tick24 s = (let n = unat s div 2 ^ 160 mod 2 ^ 24 in if n < 2 ^ 23 then int n else int n - 2 ^ 24)"

lemma slot0_tick_value: "sint (slot0_tick s) = tick24 s"
proof -
  define n where "n = unat s div 2 ^ 160 mod 2 ^ 24"
  have n: "n < 2 ^ 24" by (simp add: n_def)
  have low: "(ucast (drop_bit 160 s AND (push_bit 24 1 - 1)) :: u32) = word_of_nat n"
  proof -
    have "drop_bit 160 s AND (push_bit 24 1 - 1) = take_bit 24 (drop_bit 160 s)"
      by (simp add: take_bit_eq_mask mask_eq_exp_minus_1 push_bit_eq_mult)
    then have "unat (drop_bit 160 s AND (push_bit 24 1 - 1)) = take_bit 24 (drop_bit 160 (unat s))"
      by (simp only: unsigned_take_bit_eq unat_drop_bit_eq)
    then have "unat (drop_bit 160 s AND (push_bit 24 1 - 1)) = n"
      by (simp only: n_def drop_bit_eq_div take_bit_eq_mod)
    then show ?thesis by (simp only: word_unat_eq_iff unsigned_ucast_eq unsigned_of_nat) simp
  qed
  have b: "bit (word_of_nat n :: u32) k \<longleftrightarrow> bit n k \<and> k < 32" for k
    by (auto simp: bit_of_nat_iff)
  have small: "\<not> bit n k" if "24 \<le> k" for k
    using that n by (metis bit_take_bit_iff leD take_bit_nat_eq_self)
  have sign: "(word_of_nat n AND push_bit 23 1 \<noteq> (0 :: u32)) \<longleftrightarrow> 2 ^ 23 \<le> n"
  proof -
    have "word_of_nat n AND push_bit 23 1 = (0 :: u32) \<longleftrightarrow> \<not> bit n 23"
      by (simp only: push_bit_of_1 and_exp_eq_0_iff_not_bit b) simp
    moreover have "bit n 23 \<longleftrightarrow> odd (n div 2 ^ 23)" by (simp add: bit_iff_odd)
    moreover have "n div 2 ^ 23 < 2" using n by (simp add: less_mult_imp_div_less)
    ultimately show ?thesis by (auto simp: less_2_cases_iff div_eq_0_iff)
  qed
  have ext: "word_of_nat n OR 0xff000000 = (word_of_nat (255 * 2 ^ 24 + n) :: u32)"
  proof -
    have "\<not> bit (0xff000000 :: u32) k \<or> \<not> bit (word_of_nat n :: u32) k" for k
    proof (cases "24 \<le> k")
      case False
      have "(0xff000000 :: u32) = push_bit 24 0xff" by (simp add: push_bit_eq_mult)
      with False show ?thesis by (simp only: bit_push_bit_iff) simp
    qed (simp add: b small)
    then have "0xff000000 + word_of_nat n = (0xff000000 OR word_of_nat n :: u32)"
      by (intro disjunctive_add) auto
    then show ?thesis by (simp add: or.commute)
  qed
  show ?thesis
  proof (cases "2 ^ 23 \<le> n")
    case True
    with sint_eq_negative[OF n] show ?thesis
      unfolding slot0_tick_def Let_def low tick24_def n_def[symmetric] using sign ext by simp
  next
    case False
    with sint_eq_small[of n] n show ?thesis
      unfolding slot0_tick_def Let_def low tick24_def n_def[symmetric] using sign by simp
  qed
qed

text \<open>The bitmap word of a slot0: the floor of the tick over the spacing, over 256.\<close>

definition word_of_slot0 :: "b256 \<Rightarrow> int" where
  "word_of_slot0 s = tick24 s div 10 div 256"

lemma tick24_bounds: "- (2 ^ 23) \<le> tick24 s \<and> tick24 s < 2 ^ 23"
proof -
  define n where "n = unat s div 2 ^ 160 mod 2 ^ 24"
  have "n < 2 ^ 24" by (simp add: n_def)
  moreover have "tick24 s = (if n < 2 ^ 23 then int n else int n - 2 ^ 24)"
    by (simp only: tick24_def n_def Let_def)
  ultimately show ?thesis by (cases "n < 2 ^ 23") simp_all
qed

lemma word_of_slot0_bounds: "- 3277 \<le> word_of_slot0 s \<and> word_of_slot0 s \<le> 3276"
proof -
  have "(- 8388608) div 10 div 256 \<le> tick24 s div 10 div 256"
    using tick24_bounds[of s] by (intro zdiv_mono1) simp_all
  moreover have "tick24 s div 10 div 256 \<le> 8388607 div 10 div 256"
    using tick24_bounds[of s] by (intro zdiv_mono1) simp_all
  ultimately show ?thesis by (simp add: word_of_slot0_def)
qed

lemma sint_active_word_pos: "sint (active_word_pos s) = word_of_slot0 s"
proof -
  have "0 < sint TICK_SPACING_005" by (simp add: TICK_SPACING_005_def)
  then obtain c where c: "compress_tick (slot0_tick s) TICK_SPACING_005 = Some c"
    "sint c = sint (slot0_tick s) div sint TICK_SPACING_005" by (rule compress_tick_floor)
  then have "sint c = tick24 s div 10" by (simp add: slot0_tick_value TICK_SPACING_005_def)
  moreover have "active_word_pos s = signed_drop_bit 8 c" by (simp add: active_word_pos_def c(1))
  ultimately show ?thesis
    by (simp add: sint_signed_drop_bit_eq drop_bit_eq_div word_of_slot0_def)
qed

lemma active_word_pos_int: "active_word_pos s = word_of_int (word_of_slot0 s)"
  using sint_active_word_pos[of s] by (metis word_of_int_sint_id)

definition word_slot :: "(bytes \<Rightarrow> bytes) \<Rightarrow> int \<Rightarrow> u256" where
  "word_slot keccak w = mapping_slot_u256 keccak 6 (word_of_int w)"

definition tick_slot :: "(bytes \<Rightarrow> bytes) \<Rightarrow> int \<Rightarrow> u256" where
  "tick_slot keccak t = mapping_slot_u256 keccak 5 (word_of_int t)"

lemma signed_key_of_int:
  assumes "0 < n" "n \<le> 4" "- (2 ^ (8 * n - 1)) \<le> k" "k < 2 ^ (8 * n - 1)"
  shows "signed_int_key (word_of_int k) n = word_of_int k"
proof -
  have "(2 :: int) ^ (8 * n - 1) \<le> 2 ^ 31" using assms(2) by (intro power_increasing) simp_all
  then have "sint (word_of_int k :: u32) = k" using assms by (intro sint_of_int_small) linarith+
  with signed_int_key_value[of n "word_of_int k"] assms show ?thesis by (simp add: fits_bytes_def)
qed

lemma phase2_slots:
  "phase2_bitmap_slots keccak s = map (\<lambda>k. word_slot keccak (word_of_slot0 s + k)) [- 1, 0, 1]"
proof -
  have key: "signed_int_key (word_of_int (word_of_slot0 s + k)) 2 = word_of_int (word_of_slot0 s + k)"
    if "k \<in> {- 1, 0, 1}" for k
    using that word_of_slot0_bounds[of s] by (intro signed_key_of_int) auto
  show ?thesis
    using key[of "- 1"] key[of 0] key[of 1]
    by (simp add: phase2_bitmap_slots_def Let_def active_word_pos_int word_slot_def
        UNIV3_TICKBITMAP_MAPPING_SLOT_def)
qed

lemma tick_info_slots_int:
  assumes "- 3000 \<le> w" "w \<le> 3000"
  shows "tick_info_slots keccak (word_of_int w) v =
    concat (map (\<lambda>b. if bit v b then map (\<lambda>k. tick_slot keccak (10 * (256 * w + int b)) + word_of_nat k) [0 ..< 4] else [])
      [0 ..< 256])"
proof -
  have idx: "(word_of_int w * 256 + word_of_nat b) * TICK_SPACING_005 = (word_of_int (10 * (256 * w + int b)) :: u32)" for b
    by (simp add: TICK_SPACING_005_def algebra_simps)
  have key: "signed_int_key (word_of_int (10 * (256 * w + int b))) 3 = word_of_int (10 * (256 * w + int b))"
    if "b < 256" for b
    using that assms by (intro signed_key_of_int) auto
  have slot: "mapping_slot_u256 keccak (ucast UNIV3_TICKS_MAPPING_SLOT) (signed_int_key (word_of_int (10 * (256 * w + int b))) 3)
      = tick_slot keccak (10 * (256 * w + int b))" if "b < 256" for b
    unfolding key[OF that] tick_slot_def UNIV3_TICKS_MAPPING_SLOT_def by simp
  show ?thesis
    unfolding tick_info_slots_def Let_def idx
    by (intro arg_cong[of _ _ concat] map_cong refl if_cong) (simp only: slot set_upt atLeastLessThan_iff)
qed

lemma position_iff:
  "distinct xs \<Longrightarrow> position s xs = Some i \<longleftrightarrow> i < length xs \<and> xs ! i = s"
proof (induction xs arbitrary: i)
  case (Cons x xs)
  note ih = Cons.IH[of "i - 1"]
  show ?case
  proof (cases "x = s")
    case True
    then show ?thesis using Cons.prems nth_mem[of "i - 1" xs] by (cases i) auto
  next
    case False
    then show ?thesis using Cons.prems ih by (cases i) auto
  qed
qed simp

lemma grid_iff:
  "x \<in> set (concat (map (\<lambda>b. if P b then map (f b) [0 ..< m] else []) [0 ..< n])) \<longleftrightarrow>
    (\<exists>b < n. \<exists>k < m. P b \<and> x = f b k)"
  by (force split: if_splits)

lemma tick_info_slots_iff:
  assumes "- 3000 \<le> w" "w \<le> 3000"
  shows "x \<in> set (tick_info_slots keccak (word_of_int w) v) \<longleftrightarrow>
    (\<exists>b < 256. \<exists>k < 4. bit v b \<and> x = tick_slot keccak (10 * (256 * w + int b)) + word_of_nat k)"
  unfolding tick_info_slots_int[OF assms] by (rule grid_iff)

lemma phase3_at:
  assumes "slot_value 0 already = Some s0"
  shows "phase3_tick_info_slots keccak bm already =
    concat (map (\<lambda>(slot, v). case position slot bm of None \<Rightarrow> []
        | Some i \<Rightarrow> tick_info_slots keccak (active_word_pos s0 + (word_of_nat i - 1)) v) already)"
proof -
  have "slot_value (ucast UNIV3_SLOT0_SLOT) already = Some s0" using assms by (simp add: UNIV3_SLOT0_SLOT_def)
  then show ?thesis unfolding phase3_tick_info_slots_def Let_def by (simp only: option.case)
qed

lemma phase3_iff:
  assumes "slot_value 0 already = Some s0" "\<bar>tick24 s0\<bar> \<le> 887272" "distinct (phase2_bitmap_slots keccak s0)"
  shows "x \<in> set (phase3_tick_info_slots keccak (phase2_bitmap_slots keccak s0) already) \<longleftrightarrow>
    (\<exists>w v. \<bar>w - word_of_slot0 s0\<bar> \<le> 1 \<and> (word_slot keccak w, v) \<in> set already \<and>
       (\<exists>b < 256. \<exists>k < 4. bit v b \<and> x = tick_slot keccak (10 * (256 * w + int b)) + word_of_nat k))"
    (is "?L \<longleftrightarrow> ?R")
proof -
  define W where "W = word_of_slot0 s0"
  have "(- 887272) div 10 div 256 \<le> tick24 s0 div 10 div 256"
    using assms(2) by (intro zdiv_mono1) simp_all
  moreover have "tick24 s0 div 10 div 256 \<le> 887272 div 10 div 256"
    using assms(2) by (intro zdiv_mono1) simp_all
  ultimately have W: "- 347 \<le> W" "W \<le> 346" by (simp_all add: W_def word_of_slot0_def)
  have pos: "position slot (phase2_bitmap_slots keccak s0) = Some i \<longleftrightarrow> i < 3 \<and> slot = word_slot keccak (W + int i - 1)" for slot i
    unfolding position_iff[OF assms(3)] 
    by (auto simp: phase2_slots W_def[symmetric] less_Suc_eq numeral_3_eq_3 add.commute)
  have wp: "active_word_pos s0 + (word_of_nat i - 1) = word_of_int (W + int i - 1)" for i
    by (simp add: active_word_pos_int W_def)
  have "?L \<longleftrightarrow> (\<exists>slot v i. (slot, v) \<in> set already \<and> position slot (phase2_bitmap_slots keccak s0) = Some i \<and>
      x \<in> set (tick_info_slots keccak (active_word_pos s0 + (word_of_nat i - 1)) v))"
    unfolding phase3_at[OF assms(1)] by (force split: option.splits)
  also have "\<dots> \<longleftrightarrow> (\<exists>v. \<exists>i < 3. (word_slot keccak (W + int i - 1), v) \<in> set already \<and>
      x \<in> set (tick_info_slots keccak (word_of_int (W + int i - 1)) v))"
    unfolding wp pos by auto
  also have "\<dots> \<longleftrightarrow> (\<exists>w v. \<bar>w - W\<bar> \<le> 1 \<and> (word_slot keccak w, v) \<in> set already \<and>
      x \<in> set (tick_info_slots keccak (word_of_int w) v))"
  proof -
    have "(\<exists>i < 3. P (W + int i - 1)) \<longleftrightarrow> (\<exists>w. \<bar>w - W\<bar> \<le> 1 \<and> P w)" for P
    proof
      assume "\<exists>w. \<bar>w - W\<bar> \<le> 1 \<and> P w"
      then obtain w where "\<bar>w - W\<bar> \<le> 1" "P w" by blast
      then show "\<exists>i < 3. P (W + int i - 1)" by (intro exI[of _ "nat (w - W + 1)"]) auto
    qed force
    then have "(\<exists>v. \<exists>i < 3. Q v (W + int i - 1)) \<longleftrightarrow> (\<exists>v w. \<bar>w - W\<bar> \<le> 1 \<and> Q v w)" for Q by (simp only:)
    from this[of "\<lambda>v w. (word_slot keccak w, v) \<in> set already \<and> x \<in> set (tick_info_slots keccak (word_of_int w) v)"]
    show ?thesis by (simp only:) (rule ex_comm)
  qed
  also have "\<dots> \<longleftrightarrow> ?R"
  proof -
    have "x \<in> set (tick_info_slots keccak (word_of_int w) v) \<longleftrightarrow>
      (\<exists>b < 256. \<exists>k < 4. bit v b \<and> x = tick_slot keccak (10 * (256 * w + int b)) + word_of_nat k)"
      if "\<bar>w - W\<bar> \<le> 1" for w v
      by (rule tick_info_slots_iff) (use that W in simp_all)
    then show ?thesis unfolding W_def by (simp cong: conj_cong)
  qed
  finally show ?thesis .
qed

section \<open>Which slots are fetched\<close>

lemma v3_derived:
  assumes "slot_value 0 all = Some s0"
  shows "uniswap_v3_derived keccak all = filter (\<lambda>s. \<not> fetched all s)
    (if \<exists>x \<in> set (phase2_bitmap_slots keccak s0). fetched all x
     then phase3_tick_info_slots keccak (phase2_bitmap_slots keccak s0) all
     else phase2_bitmap_slots keccak s0)"
  using assms by (simp add: uniswap_v3_derived_def UNIV3_SLOT0_SLOT_def Let_def)

text \<open>The words around the one of the current tick, and the record words of the initialised ticks in those that
  have been fetched.\<close>

definition words_around :: "(bytes \<Rightarrow> bytes) \<Rightarrow> b256 \<Rightarrow> u256 list" where
  "words_around keccak s0 = map (\<lambda>k. word_slot keccak (tick24 s0 div 10 div 256 + k)) [- 1, 0, 1]"

definition tick_records :: "(bytes \<Rightarrow> bytes) \<Rightarrow> b256 \<Rightarrow> (u256 \<times> b256) list \<Rightarrow> u256 set" where
  "tick_records keccak s0 already =
     {tick_slot keccak (10 * (256 * w + int b)) + word_of_nat k | w v b k.
        \<bar>w - tick24 s0 div 10 div 256\<bar> \<le> 1 \<and> (word_slot keccak w, v) \<in> set already \<and> b < 256 \<and> bit v b \<and> k < 4}"

lemma words_around: "phase2_bitmap_slots keccak s0 = words_around keccak s0"
  by (simp only: phase2_slots words_around_def word_of_slot0_def)

lemma phase3_records:
  assumes "slot_value 0 already = Some s0" "\<bar>tick24 s0\<bar> \<le> 887272" "distinct (words_around keccak s0)"
  shows "set (phase3_tick_info_slots keccak (words_around keccak s0) already) = tick_records keccak s0 already"
proof -
  note p3 = phase3_iff[OF assms(1,2) assms(3)[folded words_around], unfolded words_around]
  have "set (phase3_tick_info_slots keccak (words_around keccak s0) already) =
      {x. \<exists>w v. \<bar>w - word_of_slot0 s0\<bar> \<le> 1 \<and> (word_slot keccak w, v) \<in> set already \<and>
       (\<exists>b < 256. \<exists>k < 4. bit v b \<and> x = tick_slot keccak (10 * (256 * w + int b)) + word_of_nat k)}"
    by (intro set_eqI) (simp only: p3 mem_Collect_eq)
  also have "\<dots> = {tick_slot keccak (10 * (256 * w + int b)) + word_of_nat k | w v b k.
         \<bar>w - word_of_slot0 s0\<bar> \<le> 1 \<and> (word_slot keccak w, v) \<in> set already \<and>
         b < 256 \<and> bit v b \<and> k < 4}" by blast
  finally show ?thesis by (simp only: tick_records_def word_of_slot0_def)
qed

text \<open>C18: The Uniswap V3 layout asks for the right slots, by what has been fetched so far.  Without slot0 it
  derives nothing.  With slot0, and none of the three bitmap words around the one of the current tick fetched,
  it derives these three, in order; the tick is the signed 24-bit field of slot0, divided by the spacing with
  the floor, as in the contract.  Once one of them has been fetched it derives exactly the four words of the
  record of every initialised tick in the fetched ones, less those that have been fetched, for
  a tick in the contract's range (up to 887272 either way) and when keccak maps the three words to
  different slots; so it derives nothing more once all of these are there.\<close>

theorem v3_slots_exact:
  "base_slots (uniswap_v3_layout keccak) pool = [0, 1, 2, 3, 4] \<and>
   derived_slots (uniswap_v3_layout keccak) pool already = uniswap_v3_derived keccak already \<and>
   (case slot_value 0 already of
      None \<Rightarrow> uniswap_v3_derived keccak already = []
    | Some s0 \<Rightarrow>
        if \<forall>x \<in> set (words_around keccak s0). \<not> fetched already x
        then uniswap_v3_derived keccak already = words_around keccak s0
        else \<bar>tick24 s0\<bar> \<le> 887272 \<and> distinct (words_around keccak s0) \<longrightarrow>
          set (uniswap_v3_derived keccak already) = tick_records keccak s0 already - {x. fetched already x})"
proof (intro conjI)
  show "base_slots (uniswap_v3_layout keccak) pool = [0, 1, 2, 3, 4]"
    "derived_slots (uniswap_v3_layout keccak) pool already = uniswap_v3_derived keccak already"
    by (simp_all add: uniswap_v3_layout_def UNIV3_SLOT0_SLOT_def UNIV3_FEE_GROWTH_GLOBAL0_SLOT_def
        UNIV3_FEE_GROWTH_GLOBAL1_SLOT_def UNIV3_PROTOCOL_FEES_SLOT_def UNIV3_LIQUIDITY_SLOT_def)
  show "case slot_value 0 already of
      None \<Rightarrow> uniswap_v3_derived keccak already = []
    | Some s0 \<Rightarrow>
        if \<forall>x \<in> set (words_around keccak s0). \<not> fetched already x
        then uniswap_v3_derived keccak already = words_around keccak s0
        else \<bar>tick24 s0\<bar> \<le> 887272 \<and> distinct (words_around keccak s0) \<longrightarrow>
          set (uniswap_v3_derived keccak already) = tick_records keccak s0 already - {x. fetched already x}"
  proof (cases "slot_value 0 already")
    case None
    then show ?thesis by (simp add: uniswap_v3_derived_def UNIV3_SLOT0_SLOT_def)
  next
    case (Some s0)
    note d = v3_derived[OF Some, of keccak, unfolded words_around]
    have "set (uniswap_v3_derived keccak already) = tick_records keccak s0 already - {x. fetched already x}"
      if "\<exists>x \<in> set (words_around keccak s0). fetched already x" "\<bar>tick24 s0\<bar> \<le> 887272" "distinct (words_around keccak s0)"
      unfolding d using that(1) phase3_records[OF Some that(2,3)] by auto
    moreover have "uniswap_v3_derived keccak already = words_around keccak s0"
      if "\<forall>x \<in> set (words_around keccak s0). \<not> fetched already x"
      unfolding d using that by (auto simp: filter_id_conv)
    ultimately show ?thesis using Some by auto
  qed
qed

text \<open>The keys of the storage mappings: a signed key is the sign extension of its value whenever the
  value fits the declared width, and an address key is the address.\<close>

theorem storage_keys_exact:
  assumes "0 < n" "n \<le> 8" "fits_bytes v n"
  shows "sint (signed_int_key v n) = sint v \<and> unat (address_key a) = unat a"
proof -
  have "sint (word_of_int k :: u256) = k" if "- (2 ^ 31) \<le> k" "k < 2 ^ 31" for k
    using that by (simp add: signed_of_int signed_take_bit_int_eq_self)
  with sint_u32_bounds[of v] have "sint (word_of_int (sint v) :: u256) = sint v" by blast
  moreover have "unat (address_key a) = unat a"
    using unat_lt_exp[of a]
    by (simp add: address_key_def u256_from_be_def be_to_nat_append be_to_nat_replicate_0 address_to_be_def
        be_to_nat_nat_to_be unsigned_ucast_eq unsigned_of_nat take_bit_nat_eq_self)
  ultimately show ?thesis by (simp only: signed_int_key_value[OF assms])
qed

lemma mapping_slot_take: "mapping_slot_u256 (take 32) m k = k"
  by (simp add: mapping_slot_u256_def)

text \<open>Tick 12800 is the first of word 5: the words 4, 5 and 6 are asked for, and with bit 3 of word 5 set the
  record of tick 12830.\<close>

theorem v3_slots_exact_witness:
  "\<exists>s0. tick24 s0 = 12800 \<and> uniswap_v3_derived (take 32) [(0, s0)] = [4, 5, 6] \<and>
     12831 \<in> set (uniswap_v3_derived (take 32) [(0, s0), (5, 8)])"
proof -
  define s0 :: b256 where "s0 = 12800 * 2 ^ 160"
  have t: "tick24 s0 = 12800" by (simp add: tick24_def s0_def Let_def)
  have words: "words_around (take 32) s0 = [4, 5, 6]"
    by (simp add: words_around_def word_slot_def mapping_slot_take t)
  have mem: "12831 \<in> tick_records (take 32) s0 [(0, s0), (5, 8)]"
    unfolding tick_records_def mem_Collect_eq
    by (rule exI[of _ 5], rule exI[of _ 8], rule exI[of _ 3], rule exI[of _ 1])
      (simp add: t tick_slot_def word_slot_def mapping_slot_take)
  have "uniswap_v3_derived (take 32) [(0, s0)] = [4, 5, 6]"
    using v3_slots_exact[of "take 32" undefined "[(0, s0)]"] by (simp add: slot_value_def words fetched_def)
  moreover have "12831 \<in> set (uniswap_v3_derived (take 32) [(0, s0), (5, 8)])"
    using v3_slots_exact[of "take 32" undefined "[(0, s0), (5, 8)]"] mem by (simp add: slot_value_def words fetched_def t)
  ultimately show ?thesis using t by blast
qed

lemma storage_keys_exact_witness: "sint (signed_int_key (- 887272) 3) = - 887272"
  using storage_keys_exact[of 3 "- 887272" 7] by (simp add: fits_bytes_def)

end
