(* ===== verification/State_Fetcher.thy ===== *)
theory State_Fetcher
  imports Storage_Layout State_Engine
begin

text \<open>
  The archive state fetcher of \<open>crates/state-fetcher/src/lib.rs\<close>: code and storage of a pool or an
  account at a pinned block, through two bounded caches, with the layout-driven loop that derives
  further slots from values already fetched.  The two \<open>LruCache\<close>s are parameters under the contract
  of the locale \<open>bounded_cache\<close>; metrics are left out, the statistics kept.
\<close>

section \<open>Data\<close>

datatype fetch_error =
    FetchNode node_error
  | InvalidBlockHash
  | DerivedSlotsTooDeep nat
  | FetchInternal string

definition DERIVED_SLOTS_MAX_DEPTH :: nat where "DERIVED_SLOTS_MAX_DEPTH = 3"

record state_fetcher_config =
  bytecode_cache_capacity :: nat
  storage_cache_capacity :: nat

definition fetcher_defaults :: state_fetcher_config where
  "fetcher_defaults = \<lparr>bytecode_cache_capacity = 4096, storage_cache_capacity = 65536\<rparr>"

type_synonym auxiliary_contract = "address \<times> bytes \<times> (u256 \<times> b256) list"

record fetched_pool_state =
  fp_pool :: pool_id
  fp_hash :: b256
  fp_pool_code :: bytes
  fp_pool_storage :: "(u256 \<times> b256) list"
  fp_auxiliary :: "auxiliary_contract list"

record fetched_account =
  fa_address :: address
  fa_block_hash :: b256
  fa_code :: bytes
  fa_storage :: "(u256 \<times> b256) list"

record cache_stats =
  bytecode_hits :: u64
  bytecode_misses :: u64
  storage_hits :: u64
  storage_misses :: u64

definition cache_stats_zero :: cache_stats where
  "cache_stats_zero = \<lparr>bytecode_hits = 0, bytecode_misses = 0, storage_hits = 0, storage_misses = 0\<rparr>"

text \<open>The private trait \<open>ArchiveBackend\<close> and its production instance.\<close>

record 'w archive_backend =
  ab_get_storage_at :: "address \<Rightarrow> u256 \<Rightarrow> b256 \<Rightarrow> 'w \<Rightarrow> (node_error + b256) \<times> 'w"
  ab_get_code :: "address \<Rightarrow> b256 \<Rightarrow> 'w \<Rightarrow> (node_error + bytes) \<times> 'w"

definition node_backend :: "('w, 'tx, 'pf) node_provider \<Rightarrow> 'w archive_backend" where
  "node_backend np =
     \<lparr>ab_get_storage_at = (\<lambda>a slot h. eth_get_storage_at np a slot (HashId h)),
      ab_get_code = (\<lambda>a h. eth_get_code np a (HashId h))\<rparr>"

record ('k, 'v, 'c) cache_ops =
  ca_new :: "nat \<Rightarrow> 'c"
  ca_get :: "'k \<Rightarrow> 'c \<Rightarrow> 'v option \<times> 'c"
  ca_put :: "'k \<Rightarrow> 'v \<Rightarrow> 'c \<Rightarrow> 'c"

type_synonym code_key = "address \<times> b256"
type_synonym storage_key = "address \<times> b256 \<times> u256"

record ('w, 'cc, 'sc) fetcher =
  af_world :: 'w
  af_code_cache :: 'cc
  af_storage_cache :: 'sc
  af_stats :: cache_stats

text \<open>What does not change: the backend and the operations of the two caches.\<close>

record ('w, 'cc, 'sc) fetcher_env =
  fe_backend :: "'w archive_backend"
  fe_code :: "(code_key, bytes, 'cc) cache_ops"
  fe_storage :: "(storage_key, b256, 'sc) cache_ops"

section \<open>Operations\<close>

definition fetcher_with_backend ::
  "('w, 'cc, 'sc) fetcher_env \<Rightarrow> state_fetcher_config \<Rightarrow> 'w \<Rightarrow> ('w, 'cc, 'sc) fetcher" where
  "fetcher_with_backend fe cfg w =
     \<lparr>af_world = w, af_code_cache = ca_new (fe_code fe) (bytecode_cache_capacity cfg),
      af_storage_cache = ca_new (fe_storage fe) (storage_cache_capacity cfg), af_stats = cache_stats_zero\<rparr>"

definition get_code_cached ::
  "('w, 'cc, 'sc) fetcher_env \<Rightarrow> address \<Rightarrow> b256 \<Rightarrow> ('w, 'cc, 'sc) fetcher
   \<Rightarrow> (fetch_error + bytes) \<times> ('w, 'cc, 'sc) fetcher" where
  "get_code_cached fe a h s =
     (case ca_get (fe_code fe) (a, h) (af_code_cache s) of
        (Some hit, c) \<Rightarrow>
          (Inr hit, s\<lparr>af_code_cache := c,
             af_stats := (af_stats s)\<lparr>bytecode_hits := bytecode_hits (af_stats s) + 1\<rparr>\<rparr>)
      | (None, c) \<Rightarrow>
          (let s = s\<lparr>af_code_cache := c,
             af_stats := (af_stats s)\<lparr>bytecode_misses := bytecode_misses (af_stats s) + 1\<rparr>\<rparr> in
           case ab_get_code (fe_backend fe) a h (af_world s) of
             (Inl e, w) \<Rightarrow> (Inl (FetchNode e), s\<lparr>af_world := w\<rparr>)
           | (Inr code, w) \<Rightarrow>
               (Inr code, s\<lparr>af_world := w,
                  af_code_cache := ca_put (fe_code fe) (a, h) code (af_code_cache s)\<rparr>)))"

definition get_storage_cached ::
  "('w, 'cc, 'sc) fetcher_env \<Rightarrow> address \<Rightarrow> u256 \<Rightarrow> b256 \<Rightarrow> ('w, 'cc, 'sc) fetcher
   \<Rightarrow> (fetch_error + b256) \<times> ('w, 'cc, 'sc) fetcher" where
  "get_storage_cached fe a slot h s =
     (case ca_get (fe_storage fe) (a, h, slot) (af_storage_cache s) of
        (Some hit, c) \<Rightarrow>
          (Inr hit, s\<lparr>af_storage_cache := c,
             af_stats := (af_stats s)\<lparr>storage_hits := storage_hits (af_stats s) + 1\<rparr>\<rparr>)
      | (None, c) \<Rightarrow>
          (let s = s\<lparr>af_storage_cache := c,
             af_stats := (af_stats s)\<lparr>storage_misses := storage_misses (af_stats s) + 1\<rparr>\<rparr> in
           case ab_get_storage_at (fe_backend fe) a slot h (af_world s) of
             (Inl e, w) \<Rightarrow> (Inl (FetchNode e), s\<lparr>af_world := w\<rparr>)
           | (Inr v, w) \<Rightarrow>
               (Inr v, s\<lparr>af_world := w,
                  af_storage_cache := ca_put (fe_storage fe) (a, h, slot) v (af_storage_cache s)\<rparr>)))"

fun fetch_slots ::
  "('w, 'cc, 'sc) fetcher_env \<Rightarrow> address \<Rightarrow> b256 \<Rightarrow> u256 list \<Rightarrow> (u256 \<times> b256) list \<Rightarrow> ('w, 'cc, 'sc) fetcher
   \<Rightarrow> (fetch_error + (u256 \<times> b256) list) \<times> ('w, 'cc, 'sc) fetcher" where
  "fetch_slots fe a h [] all s = (Inr all, s)"
| "fetch_slots fe a h (slot # slots) all s =
     (case get_storage_cached fe a slot h s of
        (Inl e, s) \<Rightarrow> (Inl e, s)
      | (Inr v, s) \<Rightarrow> fetch_slots fe a h slots (all @ [(slot, v)]) s)"

definition fresh_slots :: "u256 list \<Rightarrow> (u256 \<times> b256) list \<Rightarrow> u256 list" where
  "fresh_slots to_fetch all = filter (\<lambda>s. \<not> fetched all s) (remdups_adj (sort to_fetch))"

text \<open>The loop of \<open>fetch_pool\<close>.\<close>

function fetch_rounds ::
  "('w, 'cc, 'sc) fetcher_env \<Rightarrow> slot_layout \<Rightarrow> pool_id \<Rightarrow> b256 \<Rightarrow> nat \<Rightarrow> u256 list
   \<Rightarrow> (u256 \<times> b256) list \<Rightarrow> ('w, 'cc, 'sc) fetcher
   \<Rightarrow> (fetch_error + (u256 \<times> b256) list) \<times> ('w, 'cc, 'sc) fetcher" where
  "fetch_rounds fe layout pool h depth to_fetch all s =
     (if fresh_slots to_fetch all = [] then (Inr all, s)
      else case fetch_slots fe (pid_address pool) h (fresh_slots to_fetch all) all s of
        (Inl e, s) \<Rightarrow> (Inl e, s)
      | (Inr all, s) \<Rightarrow>
          (if derived_slots layout pool all = [] then (Inr all, s)
           else if DERIVED_SLOTS_MAX_DEPTH \<le> depth + 1
           then (Inl (DerivedSlotsTooDeep DERIVED_SLOTS_MAX_DEPTH), s)
           else fetch_rounds fe layout pool h (depth + 1) (derived_slots layout pool all) all s))"
  by pat_completeness auto

termination
  by (relation "measure (\<lambda>(fe, layout, pool, h, depth, to_fetch, all, s). DERIVED_SLOTS_MAX_DEPTH - depth)")
    auto

declare fetch_rounds.simps [simp del]

definition fetch_pool ::
  "('w, 'cc, 'sc) fetcher_env \<Rightarrow> pool_id \<Rightarrow> b256 \<Rightarrow> slot_layout \<Rightarrow> ('w, 'cc, 'sc) fetcher
   \<Rightarrow> (fetch_error + fetched_pool_state) \<times> ('w, 'cc, 'sc) fetcher" where
  "fetch_pool fe pool h layout s =
     (if h = 0 then (Inl InvalidBlockHash, s)
      else case get_code_cached fe (pid_address pool) h s of
        (Inl e, s) \<Rightarrow> (Inl e, s)
      | (Inr code, s) \<Rightarrow>
          (case fetch_rounds fe layout pool h 0 (base_slots layout pool) [] s of
             (Inl e, s) \<Rightarrow> (Inl e, s)
           | (Inr all, s) \<Rightarrow>
               (Inr \<lparr>fp_pool = pool, fp_hash = h, fp_pool_code = code,
                     fp_pool_storage = sort_key fst all, fp_auxiliary = []\<rparr>, s)))"

definition fetch_account ::
  "('w, 'cc, 'sc) fetcher_env \<Rightarrow> address \<Rightarrow> u256 list \<Rightarrow> b256 \<Rightarrow> ('w, 'cc, 'sc) fetcher
   \<Rightarrow> (fetch_error + fetched_account) \<times> ('w, 'cc, 'sc) fetcher" where
  "fetch_account fe a slots h s =
     (if h = 0 then (Inl InvalidBlockHash, s)
      else case get_code_cached fe a h s of
        (Inl e, s) \<Rightarrow> (Inl e, s)
      | (Inr code, s) \<Rightarrow>
          (case fetch_slots fe a h (remdups_adj (sort slots)) [] s of
             (Inl e, s) \<Rightarrow> (Inl e, s)
           | (Inr st, s) \<Rightarrow>
               (Inr \<lparr>fa_address = a, fa_block_hash = h, fa_code = code, fa_storage = st\<rparr>, s)))"

section \<open>The cache contract\<close>

locale bounded_cache =
  fixes ops :: "('k, 'v, 'c) cache_ops" and entries :: "'c \<Rightarrow> 'k \<Rightarrow> 'v option"
  assumes new_empty: "entries (ca_new ops n) k = None"
    and get_entry: "fst (ca_get ops k c) = entries c k"
    and get_keeps: "entries (snd (ca_get ops k c)) = entries c"
    and put_only: "entries (ca_put ops k v c) k' = Some v' \<Longrightarrow> (k' = k \<and> v' = v) \<or> entries c k' = Some v'"

text \<open>An instance: the capacity and the entries, the most recently used first.\<close>

definition list_cache :: "('k, 'v, nat \<times> ('k \<times> 'v) list) cache_ops" where
  "list_cache =
     \<lparr>ca_new = (\<lambda>n. (n, [])),
      ca_get = (\<lambda>k c. case map_of (snd c) k of
          None \<Rightarrow> (None, c)
        | Some v \<Rightarrow> (Some v, (fst c, (k, v) # filter (\<lambda>p. fst p \<noteq> k) (snd c)))),
      ca_put = (\<lambda>k v c. (fst c, take (fst c) ((k, v) # filter (\<lambda>p. fst p \<noteq> k) (snd c))))\<rparr>"

lemma map_of_filter_other: "k' \<noteq> k \<Longrightarrow> map_of (filter (\<lambda>p. fst p \<noteq> k) xs) k' = map_of xs k'"
  by (induction xs) auto

lemma map_of_take: "map_of (take n xs) k = Some v \<Longrightarrow> map_of xs k = Some v"
proof (induction n arbitrary: xs)
  case (Suc n)
  then show ?case by (cases xs) (auto split: if_splits)
qed simp

interpretation list_cache: bounded_cache list_cache "\<lambda>c. map_of (snd c)"
proof
  show "map_of (snd (snd (ca_get list_cache k c))) = map_of (snd c)" for k :: 'a and c :: "nat \<times> ('a \<times> 'b) list"
    by (auto simp: list_cache_def fun_eq_iff map_of_filter_other split: option.split)
next
  fix k k' :: 'a and v v' :: 'b and c :: "nat \<times> ('a \<times> 'b) list"
  assume "map_of (snd (ca_put list_cache k v c)) k' = Some v'"
  then have "map_of (take (fst c) ((k, v) # filter (\<lambda>p. fst p \<noteq> k) (snd c))) k' = Some v'"
    by (simp only: list_cache_def cache_ops.select_convs snd_conv)
  then have "map_of ((k, v) # filter (\<lambda>p. fst p \<noteq> k) (snd c)) k' = Some v'" by (rule map_of_take)
  then show "(k' = k \<and> v' = v) \<or> map_of (snd c) k' = Some v'"
    by (cases "k' = k") (simp_all add: map_of_filter_other)
qed (simp_all add: list_cache_def split: option.split)

section \<open>The archive the caches stand for\<close>

record archive =
  ar_code :: "address \<Rightarrow> b256 \<Rightarrow> bytes"
  ar_storage :: "address \<Rightarrow> b256 \<Rightarrow> u256 \<Rightarrow> b256"

text \<open>A backend may fail at any time, but what it answers is what the archive holds.\<close>

definition honest :: "'w archive_backend \<Rightarrow> archive \<Rightarrow> bool" where
  "honest be ar \<longleftrightarrow>
     (\<forall>a h w c. fst (ab_get_code be a h w) = Inr c \<longrightarrow> c = ar_code ar a h) \<and>
     (\<forall>a slot h w v. fst (ab_get_storage_at be a slot h w) = Inr v \<longrightarrow> v = ar_storage ar a h slot)"

text \<open>What a fetch is meant to return: the loop without caches, errors and state.\<close>

function archive_rounds ::
  "archive \<Rightarrow> slot_layout \<Rightarrow> pool_id \<Rightarrow> b256 \<Rightarrow> nat \<Rightarrow> u256 list \<Rightarrow> (u256 \<times> b256) list
   \<Rightarrow> fetch_error + (u256 \<times> b256) list" where
  "archive_rounds ar layout pool h depth to_fetch all =
     (if fresh_slots to_fetch all = [] then Inr all
      else let all = all @ map (\<lambda>slot. (slot, ar_storage ar (pid_address pool) h slot)) (fresh_slots to_fetch all) in
        if derived_slots layout pool all = [] then Inr all
        else if DERIVED_SLOTS_MAX_DEPTH \<le> depth + 1 then Inl (DerivedSlotsTooDeep DERIVED_SLOTS_MAX_DEPTH)
        else archive_rounds ar layout pool h (depth + 1) (derived_slots layout pool all) all)"
  by pat_completeness auto

termination
  by (relation "measure (\<lambda>(ar, layout, pool, h, depth, to_fetch, all). DERIVED_SLOTS_MAX_DEPTH - depth)") auto

declare archive_rounds.simps [simp del]

definition archive_pool ::
  "archive \<Rightarrow> pool_id \<Rightarrow> b256 \<Rightarrow> slot_layout \<Rightarrow> fetch_error + fetched_pool_state" where
  "archive_pool ar pool h layout =
     (if h = 0 then Inl InvalidBlockHash
      else bind_res (archive_rounds ar layout pool h 0 (base_slots layout pool) []) (\<lambda>all.
        Inr \<lparr>fp_pool = pool, fp_hash = h, fp_pool_code = ar_code ar (pid_address pool) h,
             fp_pool_storage = sort_key fst all, fp_auxiliary = []\<rparr>))"

definition archive_account :: "archive \<Rightarrow> address \<Rightarrow> u256 list \<Rightarrow> b256 \<Rightarrow> fetch_error + fetched_account" where
  "archive_account ar a slots h =
     (if h = 0 then Inl InvalidBlockHash
      else Inr \<lparr>fa_address = a, fa_block_hash = h, fa_code = ar_code ar a h,
                fa_storage = map (\<lambda>slot. (slot, ar_storage ar a h slot)) (remdups_adj (sort slots))\<rparr>)"

definition coherent ::
  "('cc \<Rightarrow> code_key \<Rightarrow> bytes option) \<Rightarrow> ('sc \<Rightarrow> storage_key \<Rightarrow> b256 option) \<Rightarrow> archive
   \<Rightarrow> ('w, 'cc, 'sc) fetcher \<Rightarrow> bool" where
  "coherent cent sent ar s \<longleftrightarrow>
     (\<forall>a h c. cent (af_code_cache s) (a, h) = Some c \<longrightarrow> c = ar_code ar a h) \<and>
     (\<forall>a h slot v. sent (af_storage_cache s) (a, h, slot) = Some v \<longrightarrow> v = ar_storage ar a h slot)"

definition as_archive :: "fetch_error + 'a \<Rightarrow> fetch_error + 'a \<Rightarrow> bool" where
  "as_archive r spec \<longleftrightarrow> r = spec \<or> (\<exists>e. r = Inl (FetchNode e))"

locale two_caches =
  code: bounded_cache "fe_code fe" cent + storage: bounded_cache "fe_storage fe" sent
  for fe :: "('w, 'cc, 'sc) fetcher_env" and cent :: "'cc \<Rightarrow> code_key \<Rightarrow> bytes option"
    and sent :: "'sc \<Rightarrow> storage_key \<Rightarrow> b256 option"
begin

lemma fresh_coherent: "coherent cent sent ar (fetcher_with_backend fe cfg w)"
  by (simp add: coherent_def fetcher_with_backend_def code.new_empty storage.new_empty)

lemma code_cached:
  assumes "honest (fe_backend fe) ar" "coherent cent sent ar s" "get_code_cached fe a h s = (r, s')"
  shows "coherent cent sent ar s' \<and> as_archive r (Inr (ar_code ar a h))"
proof -
  obtain g c where g: "ca_get (fe_code fe) (a, h) (af_code_cache s) = (g, c)" by (meson surj_pair)
  have c: "cent c = cent (af_code_cache s)" and gv: "g = cent (af_code_cache s) (a, h)"
    using code.get_keeps[of "(a, h)" "af_code_cache s"] code.get_entry[of "(a, h)" "af_code_cache s"] g by simp_all
  show ?thesis
  proof (cases g)
    case (Some hit)
    then have "hit = ar_code ar a h" using gv assms(2) by (metis coherent_def)
    moreover have "r = Inr hit" "cent (af_code_cache s') = cent (af_code_cache s)"
      "af_storage_cache s' = af_storage_cache s" using assms(3) g Some c by (auto simp: get_code_cached_def)
    ultimately show ?thesis using assms(2) by (simp add: coherent_def as_archive_def)
  next
    case None
    obtain q w where q: "ab_get_code (fe_backend fe) a h (af_world s) = (q, w)" by (meson surj_pair)
    show ?thesis
    proof (cases q)
      case (Inl e)
      with assms(2,3) g None q c show ?thesis
        by (auto simp: get_code_cached_def coherent_def as_archive_def)
    next
      case (Inr cd)
      then have cd: "cd = ar_code ar a h" using assms(1) q by (metis honest_def fst_conv)
      have "x = ar_code ar a' h'" if "cent (ca_put (fe_code fe) (a, h) cd c) (a', h') = Some x" for a' h' x
        using code.put_only[OF that] c cd assms(2) by (auto simp: coherent_def)
      with assms(2,3) g None q Inr cd show ?thesis
        by (auto simp: get_code_cached_def coherent_def as_archive_def)
    qed
  qed
qed

lemma storage_cached:
  assumes "honest (fe_backend fe) ar" "coherent cent sent ar s" "get_storage_cached fe a slot h s = (r, s')"
  shows "coherent cent sent ar s' \<and> as_archive r (Inr (ar_storage ar a h slot))"
proof -
  obtain g c where g: "ca_get (fe_storage fe) (a, h, slot) (af_storage_cache s) = (g, c)" by (meson surj_pair)
  have c: "sent c = sent (af_storage_cache s)" and gv: "g = sent (af_storage_cache s) (a, h, slot)"
    using storage.get_keeps[of "(a, h, slot)" "af_storage_cache s"]
      storage.get_entry[of "(a, h, slot)" "af_storage_cache s"] g by simp_all
  show ?thesis
  proof (cases g)
    case (Some hit)
    then have "hit = ar_storage ar a h slot" using gv assms(2) by (metis coherent_def)
    moreover have "r = Inr hit" "sent (af_storage_cache s') = sent (af_storage_cache s)"
      "af_code_cache s' = af_code_cache s" using assms(3) g Some c by (auto simp: get_storage_cached_def)
    ultimately show ?thesis using assms(2) by (simp add: coherent_def as_archive_def)
  next
    case None
    obtain q w where q: "ab_get_storage_at (fe_backend fe) a slot h (af_world s) = (q, w)" by (meson surj_pair)
    show ?thesis
    proof (cases q)
      case (Inl e)
      with assms(2,3) g None q c show ?thesis
        by (auto simp: get_storage_cached_def coherent_def as_archive_def)
    next
      case (Inr v)
      then have v: "v = ar_storage ar a h slot" using assms(1) q by (metis honest_def fst_conv)
      have "x = ar_storage ar a' h' s''" if "sent (ca_put (fe_storage fe) (a, h, slot) v c) (a', h', s'') = Some x" for a' h' s'' x
        using storage.put_only[OF that] c v assms(2) by (auto simp: coherent_def)
      with assms(2,3) g None q Inr v show ?thesis
        by (auto simp: get_storage_cached_def coherent_def as_archive_def)
    qed
  qed
qed

lemma slots_cached:
  assumes "honest (fe_backend fe) ar" "coherent cent sent ar s" "fetch_slots fe a h slots all s = (r, s')"
  shows "coherent cent sent ar s' \<and> as_archive r (Inr (all @ map (\<lambda>slot. (slot, ar_storage ar a h slot)) slots))"
  using assms(2,3)
proof (induction slots arbitrary: all s)
  case (Cons slot slots)
  obtain g s1 where g: "get_storage_cached fe a slot h s = (g, s1)" by (meson surj_pair)
  note st = storage_cached[OF assms(1) Cons.prems(1) g]
  show ?case
  proof (cases g)
    case (Inl e)
    with st Cons.prems(2) g show ?thesis by (auto simp: as_archive_def)
  next
    case (Inr v)
    with st have v: "v = ar_storage ar a h slot" by (simp add: as_archive_def)
    from Cons.IH[of s1 "all @ [(slot, v)]"] st Cons.prems(2) g Inr show ?thesis by (simp add: v)
  qed
qed (simp add: as_archive_def)

lemma rounds_cached:
  assumes "honest (fe_backend fe) ar" "coherent cent sent ar s"
    and "fetch_rounds fe layout pool h depth to_fetch all s = (r, s')"
  shows "coherent cent sent ar s' \<and> as_archive r (archive_rounds ar layout pool h depth to_fetch all)"
  using assms(2,3)
proof (induction "DERIVED_SLOTS_MAX_DEPTH - depth" arbitrary: depth to_fetch all s rule: less_induct)
  case less
  define a where "a = pid_address pool"
  define fs where "fs = fresh_slots to_fetch all"
  define all' where "all' = all @ map (\<lambda>slot. (slot, ar_storage ar a h slot)) fs"
  show ?case
  proof (cases "fs = []")
    case True
    with less.prems show ?thesis
      by (simp add: fetch_rounds.simps archive_rounds.simps as_archive_def fs_def)
  next
    case False
    obtain g s1 where g: "fetch_slots fe a h fs all s = (g, s1)" by (meson surj_pair)
    note st = slots_cached[OF assms(1) less.prems(1) g, folded all'_def]
    show ?thesis
    proof (cases g)
      case (Inl e)
      with less.prems(2) g False st show ?thesis
        by (auto simp: fetch_rounds.simps[of fe] a_def[symmetric] fs_def[symmetric] as_archive_def)
    next
      case (Inr al)
      with st have al: "al = all'" by (simp add: as_archive_def)
      have f: "fetch_rounds fe layout pool h depth to_fetch all s =
          (if derived_slots layout pool all' = [] then (Inr all', s1)
           else if DERIVED_SLOTS_MAX_DEPTH \<le> depth + 1
           then (Inl (DerivedSlotsTooDeep DERIVED_SLOTS_MAX_DEPTH), s1)
           else fetch_rounds fe layout pool h (depth + 1) (derived_slots layout pool all') all' s1)"
        using g False by (simp add: fetch_rounds.simps[of fe layout pool h depth to_fetch] a_def[symmetric]
            fs_def[symmetric] Inr al)
      have p: "archive_rounds ar layout pool h depth to_fetch all =
          (if derived_slots layout pool all' = [] then Inr all'
           else if DERIVED_SLOTS_MAX_DEPTH \<le> depth + 1 then Inl (DerivedSlotsTooDeep DERIVED_SLOTS_MAX_DEPTH)
           else archive_rounds ar layout pool h (depth + 1) (derived_slots layout pool all') all')"
        using False by (simp add: archive_rounds.simps[of ar layout pool h depth to_fetch] a_def[symmetric]
            fs_def[symmetric] all'_def[symmetric] Let_def)
      show ?thesis
      proof (cases "derived_slots layout pool all' = [] \<or> DERIVED_SLOTS_MAX_DEPTH \<le> depth + 1")
        case True
        with less.prems(2) st show ?thesis unfolding f p by (auto simp: as_archive_def split: if_splits)
      next
        case False
        then have "depth + 1 < DERIVED_SLOTS_MAX_DEPTH" by simp
        then have "DERIVED_SLOTS_MAX_DEPTH - (depth + 1) < DERIVED_SLOTS_MAX_DEPTH - depth" by arith
        with False less.hyps[of "depth + 1" s1 "derived_slots layout pool all'" all'] st less.prems(2)
        show ?thesis unfolding f p by simp
      qed
    qed
  qed
qed

lemma pool_cached:
  assumes "honest (fe_backend fe) ar" "coherent cent sent ar s" "fetch_pool fe pool h layout s = (r, s')"
  shows "coherent cent sent ar s' \<and> as_archive r (archive_pool ar pool h layout)"
proof (cases "h = 0")
  case True
  with assms(2,3) show ?thesis by (simp add: fetch_pool_def archive_pool_def as_archive_def)
next
  case False
  obtain g s1 where g: "get_code_cached fe (pid_address pool) h s = (g, s1)" by (meson surj_pair)
  obtain q s2 where q: "fetch_rounds fe layout pool h 0 (base_slots layout pool) [] s1 = (q, s2)" by (meson surj_pair)
  note c = code_cached[OF assms(1,2) g]
  note rs = rounds_cached[OF assms(1) conjunct1[OF c] q]
  show ?thesis
    using assms(3) False g q c rs
    by (cases g; cases q; cases "archive_rounds ar layout pool h 0 (base_slots layout pool) []")
      (auto simp: fetch_pool_def archive_pool_def as_archive_def bind_res_simps)
qed

lemma account_cached:
  assumes "honest (fe_backend fe) ar" "coherent cent sent ar s" "fetch_account fe a slots h s = (r, s')"
  shows "coherent cent sent ar s' \<and> as_archive r (archive_account ar a slots h)"
proof (cases "h = 0")
  case True
  with assms(2,3) show ?thesis by (simp add: fetch_account_def archive_account_def as_archive_def)
next
  case False
  obtain g s1 where g: "get_code_cached fe a h s = (g, s1)" by (meson surj_pair)
  obtain q s2 where q: "fetch_slots fe a h (remdups_adj (sort slots)) [] s1 = (q, s2)" by (meson surj_pair)
  note c = code_cached[OF assms(1,2) g]
  note rs = slots_cached[OF assms(1) conjunct1[OF c] q]
  show ?thesis
    using assms(3) False g q c rs
    by (cases g; cases q) (auto simp: fetch_account_def archive_account_def as_archive_def)
qed

end

section \<open>The order of the slots\<close>

lemma sorted_remdups_adj: "sorted xs \<Longrightarrow> sorted_wrt (<) (remdups_adj (xs :: 'a::linorder list))"
proof (induction xs rule: remdups_adj.induct)
  case (3 x y xs)
  show ?case
  proof (cases "x = y")
    case False
    then have "x < y" using 3(3) by auto
    moreover have "\<forall>z \<in> set xs. y \<le> z" using 3(3) by auto
    ultimately show ?thesis using 3(2)[OF False] 3(3) False by (auto simp: order_less_le_trans)
  qed (use 3 in simp)
qed simp_all

lemma distinct_fresh: "distinct (fresh_slots tf all)"
  using sorted_remdups_adj[of "sort tf"] by (simp add: fresh_slots_def strict_sorted_iff)

lemma fetched_iff: "fetched all s \<longleftrightarrow> s \<in> fst ` set all"
  by (auto simp: fetched_def image_iff)

lemma set_fresh: "set (fresh_slots tf all) = set tf - fst ` set all"
  by (auto simp: fresh_slots_def fetched_iff)

lemma slots_shape:
  "fetch_slots fe a h slots all s = (Inr all', s') \<Longrightarrow> \<exists>vs. length vs = length slots \<and> all' = all @ zip slots vs"
proof (induction slots arbitrary: all s)
  case (Cons slot slots)
  obtain g s1 where g: "get_storage_cached fe a slot h s = (g, s1)" by (meson surj_pair)
  with Cons.prems obtain v where "g = Inr v" by (cases g) auto
  with Cons.prems g obtain vs where "length vs = length slots" "all' = (all @ [(slot, v)]) @ zip slots vs"
    using Cons.IH[of "all @ [(slot, v)]" s1] by auto
  then show ?case by (intro exI[of _ "v # vs"]) simp
qed simp

lemma slots_shape_err: "fetch_slots fe a h slots all s = (Inl e, s') \<Longrightarrow> \<exists>ne. e = FetchNode ne"
proof (induction slots arbitrary: all s)
  case (Cons slot slots)
  obtain g s1 where g: "get_storage_cached fe a slot h s = (g, s1)" by (meson surj_pair)
  show ?case
  proof (cases g)
    case (Inl e')
    have "\<exists>ne. e' = FetchNode ne"
      using g Inl by (auto simp: get_storage_cached_def Let_def split: prod.splits option.splits sum.splits)
    then show ?thesis using Cons.prems g Inl by simp
  next
    case (Inr v)
    with Cons.prems g Cons.IH show ?thesis by simp
  qed
qed simp

lemma rounds_distinct:
  assumes "distinct (map fst all)" "fetch_rounds fe layout pool h depth tf all s = (Inr all', s')"
  shows "distinct (map fst all') \<and> fst ` set all \<union> set tf \<subseteq> fst ` set all'"
  using assms
proof (induction "DERIVED_SLOTS_MAX_DEPTH - depth" arbitrary: depth tf all s rule: less_induct)
  case less
  define fs where "fs = fresh_slots tf all"
  show ?case
  proof (cases "fs = []")
    case True
    then have "set tf \<subseteq> fst ` set all" using set_fresh[of tf all] by (simp add: fs_def)
    with less.prems True show ?thesis by (simp add: fetch_rounds.simps[of fe] fs_def)
  next
    case False
    obtain g s1 where g: "fetch_slots fe (pid_address pool) h fs all s = (g, s1)" by (meson surj_pair)
    with less.prems(2) False obtain al where al: "g = Inr al"
      by (cases g) (auto simp: fetch_rounds.simps[of fe layout pool h depth tf] fs_def[symmetric])
    with slots_shape[of fe "pid_address pool" h fs all s al s1] g obtain vs where
      vs: "length vs = length fs" "al = all @ zip fs vs" by auto
    have keys: "map fst al = map fst all @ fs" by (simp add: vs)
    have d: "distinct (map fst al)"
      unfolding keys using less.prems(1) distinct_fresh[of tf all] set_fresh[of tf all] by (auto simp: fs_def)
    have sub: "fst ` set all \<union> set tf \<subseteq> fst ` set al"
      using set_fresh[of tf all] keys by (metis fs_def Un_Diff_cancel list.set_map set_append subset_refl sup.commute)
    have f: "fetch_rounds fe layout pool h depth tf all s =
        (if derived_slots layout pool al = [] then (Inr al, s1)
         else if DERIVED_SLOTS_MAX_DEPTH \<le> depth + 1
         then (Inl (DerivedSlotsTooDeep DERIVED_SLOTS_MAX_DEPTH), s1)
         else fetch_rounds fe layout pool h (depth + 1) (derived_slots layout pool al) al s1)"
      using g False by (simp add: fetch_rounds.simps[of fe layout pool h depth tf] fs_def[symmetric] al)
    show ?thesis
    proof (cases "derived_slots layout pool al = [] \<or> DERIVED_SLOTS_MAX_DEPTH \<le> depth + 1")
      case True
      with less.prems(2) d sub show ?thesis unfolding f by (auto split: if_splits)
    next
      case False
      then have lt: "depth + 1 < DERIVED_SLOTS_MAX_DEPTH" by simp
      then have "DERIVED_SLOTS_MAX_DEPTH - (depth + 1) < DERIVED_SLOTS_MAX_DEPTH - depth" by arith
      moreover have "fetch_rounds fe layout pool h (depth + 1) (derived_slots layout pool al) al s1 = (Inr all', s')"
        using less.prems(2) False unfolding f by simp
      ultimately have "distinct (map fst all') \<and> fst ` set al \<union> set (derived_slots layout pool al) \<subseteq> fst ` set all'"
        by (rule less.hyps[OF _ d])
      with sub show ?thesis by blast
    qed
  qed
qed

lemma pool_storage_shape:
  assumes "fetch_pool fe pool h layout s = (Inr st, s')"
  shows "sorted_wrt (<) (map fst (fp_pool_storage st)) \<and>
    set (base_slots layout pool) \<subseteq> fst ` set (fp_pool_storage st) \<and> fp_hash st = h \<and> fp_pool st = pool"
proof -
  obtain g s1 where g: "get_code_cached fe (pid_address pool) h s = (g, s1)" by (meson surj_pair)
  obtain q s2 where q: "fetch_rounds fe layout pool h 0 (base_slots layout pool) [] s1 = (q, s2)" by (meson surj_pair)
  have "h \<noteq> 0" using assms by (auto simp: fetch_pool_def)
  with assms g q obtain c al where cg: "g = Inr c" "q = Inr al"
    "st = \<lparr>fp_pool = pool, fp_hash = h, fp_pool_code = c, fp_pool_storage = sort_key fst al, fp_auxiliary = []\<rparr>"
    by (cases g; cases q) (auto simp: fetch_pool_def)
  have "distinct (map fst al) \<and> set (base_slots layout pool) \<subseteq> fst ` set al"
    using rounds_distinct[of "[]" fe layout pool h 0 "base_slots layout pool" s1 al s2] q cg(2) by simp
  moreover have "distinct (map fst (sort_key fst al)) = distinct (map fst al)"
    by (simp add: distinct_map)
  ultimately show ?thesis by (simp add: cg(3) strict_sorted_iff)
qed

lemma account_storage_shape:
  assumes "fetch_account fe a slots h s = (Inr ac, s')"
  shows "sorted_wrt (<) (map fst (fa_storage ac)) \<and> fst ` set (fa_storage ac) = set slots \<and>
    fa_block_hash ac = h \<and> fa_address ac = a"
proof -
  let ?slots = "remdups_adj (sort slots)"
  obtain g s1 where g: "get_code_cached fe a h s = (g, s1)" by (meson surj_pair)
  obtain q s2 where q: "fetch_slots fe a h ?slots [] s1 = (q, s2)" by (meson surj_pair)
  have "h \<noteq> 0" using assms by (auto simp: fetch_account_def)
  with assms g q obtain c al where cg: "q = Inr al"
    "ac = \<lparr>fa_address = a, fa_block_hash = h, fa_code = c, fa_storage = al\<rparr>"
    by (cases g; cases q) (auto simp: fetch_account_def)
  with slots_shape[of fe a h ?slots "[]" s1 al s2] q obtain vs where "length vs = length ?slots" "al = zip ?slots vs"
    by auto
  then have keys: "map fst al = ?slots" by simp
  have "fst ` set al = set slots" using arg_cong[OF keys, of set] by simp
  then show ?thesis using sorted_remdups_adj[of "sort slots"] by (simp add: cg(2) keys)
qed

text \<open>What the loop fails with.\<close>

lemma rounds_err:
  "fetch_rounds fe layout pool h depth tf all s = (Inl e, s') \<Longrightarrow>
     (\<exists>ne. e = FetchNode ne) \<or> e = DerivedSlotsTooDeep DERIVED_SLOTS_MAX_DEPTH"
proof (induction "DERIVED_SLOTS_MAX_DEPTH - depth" arbitrary: depth tf all s rule: less_induct)
  case less
  note unf = fetch_rounds.simps[of fe layout pool h depth tf all s]
  obtain g s1 where g: "fetch_slots fe (pid_address pool) h (fresh_slots tf all) all s = (g, s1)" by (meson surj_pair)
  show ?case
  proof (cases g)
    case (Inl x)
    with less.prems g have "e = x" by (simp add: unf split: if_splits)
    with slots_shape_err[OF g[unfolded Inl]] show ?thesis by blast
  next
    case (Inr al)
    show ?thesis
    proof (cases "DERIVED_SLOTS_MAX_DEPTH \<le> depth + 1 \<or> derived_slots layout pool al = [] \<or> fresh_slots tf all = []")
      case True
      then show ?thesis using less.prems g Inr by (auto simp: unf split: if_splits)
    next
      case False
      then have "DERIVED_SLOTS_MAX_DEPTH - (depth + 1) < DERIVED_SLOTS_MAX_DEPTH - depth" by arith
      moreover have "fetch_rounds fe layout pool h (depth + 1) (derived_slots layout pool al) al s1 = (Inl e, s')"
        using less.prems g Inr False by (simp add: unf)
      ultimately show ?thesis by (rule less.hyps)
    qed
  qed
qed

section \<open>The three phases of Uniswap V3\<close>

lemma v3_base: "base_slots (uniswap_v3_layout keccak) pool = [0, 1, 2, 3, 4]"
  by (simp add: uniswap_v3_layout_def UNIV3_SLOT0_SLOT_def UNIV3_FEE_GROWTH_GLOBAL0_SLOT_def
      UNIV3_FEE_GROWTH_GLOBAL1_SLOT_def UNIV3_PROTOCOL_FEES_SLOT_def UNIV3_LIQUIDITY_SLOT_def)

lemma slot_value_append: "slot_value x as = Some v \<Longrightarrow> slot_value x (as @ bs) = Some v"
  by (induction as) (auto simp: slot_value_def split: if_splits)

lemma slot_value_fetched: "fetched as x \<Longrightarrow> \<exists>v. slot_value x as = Some v"
  by (induction as) (auto simp: slot_value_def fetched_def)

lemma fetched_append: "fetched (as @ bs) x \<longleftrightarrow> fetched as x \<or> fetched bs x"
  by (auto simp: fetched_def)

lemma position_None: "position x ys = None \<longleftrightarrow> x \<notin> set ys"
  by (induction ys) auto

lemma phase3_append:
  assumes "slot_value 0 as = Some s0" "\<forall>b \<in> set bs. fst b \<notin> set bm"
  shows "phase3_tick_info_slots keccak bm (as @ bs) = phase3_tick_info_slots keccak bm as"
proof -
  define f where "f = (\<lambda>(slot, v). case position slot bm of None \<Rightarrow> []
    | Some i \<Rightarrow> tick_info_slots keccak (active_word_pos s0 + (word_of_nat i - 1)) v)"
  have "f b = []" if "b \<in> set bs" for b
    using assms(2) that position_None[of "fst b" bm] by (cases b) (auto simp: f_def split: option.split)
  then have "concat (map f bs) = []" by simp
  then show ?thesis
    unfolding phase3_at[OF assms(1)] phase3_at[OF slot_value_append[OF assms(1)]] f_def[symmetric] by simp
qed

text \<open>One round of the loop that ends in the depth error.\<close>

lemma too_deep_round:
  assumes "fetch_rounds fe layout pool h depth tf all s = (Inl (DerivedSlotsTooDeep k), s')"
  obtains vs s1 where "derived_slots layout pool (all @ zip (fresh_slots tf all) vs) \<noteq> []"
    "length vs = length (fresh_slots tf all)"
    "depth + 1 < DERIVED_SLOTS_MAX_DEPTH \<Longrightarrow>
       fetch_rounds fe layout pool h (depth + 1) (derived_slots layout pool (all @ zip (fresh_slots tf all) vs))
         (all @ zip (fresh_slots tf all) vs) s1 = (Inl (DerivedSlotsTooDeep k), s')"
proof -
  obtain g s1 where g: "fetch_slots fe (pid_address pool) h (fresh_slots tf all) all s = (g, s1)" by (meson surj_pair)
  have ne: "fresh_slots tf all \<noteq> []" using assms by (auto simp: fetch_rounds.simps[of fe])
  show thesis
  proof (cases g)
    case (Inl e)
    with slots_shape_err[of fe _ h _ all s e s1] g obtain x where "e = FetchNode x" by blast
    with assms g Inl ne show thesis by (simp add: fetch_rounds.simps[of fe layout pool h depth tf])
  next
    case (Inr al)
    with slots_shape[of fe _ h _ all s al s1] g obtain vs where
      vs: "length vs = length (fresh_slots tf all)" "al = all @ zip (fresh_slots tf all) vs" by blast
    have "(if derived_slots layout pool al = [] then (Inr al, s1)
         else if DERIVED_SLOTS_MAX_DEPTH \<le> depth + 1
         then (Inl (DerivedSlotsTooDeep DERIVED_SLOTS_MAX_DEPTH), s1)
         else fetch_rounds fe layout pool h (depth + 1) (derived_slots layout pool al) al s1)
      = (Inl (DerivedSlotsTooDeep k), s')"
      using assms g Inr ne by (simp add: fetch_rounds.simps[of fe layout pool h depth tf])
    then show thesis by (intro that[of vs s1]) (auto simp: vs split: if_splits)
  qed
qed

lemma fetched_round:
  assumes "length vs = length (fresh_slots tf all)"
  shows "fetched (all @ zip (fresh_slots tf all) vs) x \<longleftrightarrow> fetched all x \<or> x \<in> set tf"
proof -
  have "fst ` set (zip (fresh_slots tf all) vs) = set (fresh_slots tf all)"
    using assms by (metis list.set_map map_fst_zip)
  then show ?thesis using set_fresh[of tf all] by (auto simp: fetched_iff image_Un)
qed

lemma v3_not_too_deep:
  assumes "\<And>s0 x. x \<in> set (phase2_bitmap_slots keccak s0) \<Longrightarrow> x \<notin> {0, 1, 2, 3, 4}"
  shows "fetch_rounds fe (uniswap_v3_layout keccak) pool h 0 (base_slots (uniswap_v3_layout keccak) pool) [] s
    \<noteq> (Inl (DerivedSlotsTooDeep k), s')"
proof
  let ?l = "uniswap_v3_layout keccak"
  have base: "base_slots ?l pool = [0, 1, 2, 3, 4]" "derived_slots ?l pool = uniswap_v3_derived keccak"
    by (simp_all add: uniswap_v3_layout_def UNIV3_SLOT0_SLOT_def UNIV3_FEE_GROWTH_GLOBAL0_SLOT_def
        UNIV3_FEE_GROWTH_GLOBAL1_SLOT_def UNIV3_PROTOCOL_FEES_SLOT_def UNIV3_LIQUIDITY_SLOT_def)
  assume "fetch_rounds fe ?l pool h 0 (base_slots ?l pool) [] s = (Inl (DerivedSlotsTooDeep k), s')"
  then obtain vs1 s1 where r1: "length vs1 = length (fresh_slots [0, 1, 2, 3, 4] [])"
    and next1: "fetch_rounds fe ?l pool h 1 (uniswap_v3_derived keccak ([] @ zip (fresh_slots [0, 1, 2, 3, 4] []) vs1))
       ([] @ zip (fresh_slots [0, 1, 2, 3, 4] []) vs1) s1 = (Inl (DerivedSlotsTooDeep k), s')"
    unfolding base by (rule too_deep_round) (simp add: base DERIVED_SLOTS_MAX_DEPTH_def)
  define all1 where "all1 = [] @ zip (fresh_slots [0, 1, 2, 3, 4] []) vs1"
  have f1: "fetched all1 x \<longleftrightarrow> x \<in> {0, 1, 2, 3, 4}" for x
    using fetched_round[OF r1, of x] by (auto simp: all1_def fetched_def)
  then obtain s0 where s0: "slot_value 0 all1 = Some s0" using slot_value_fetched[of all1 0] by auto
  define B where "B = phase2_bitmap_slots keccak s0"
  have B: "\<not> fetched all1 x" if "x \<in> set B" for x
  proof -
    have "x \<notin> {0, 1, 2, 3, 4}" using that unfolding B_def by (rule assms)
    then show ?thesis unfolding f1 .
  qed
  have B0: "B \<noteq> []" by (simp add: B_def phase2_slots)
  have d1: "uniswap_v3_derived keccak all1 = B"
    using B by (auto simp: v3_derived[OF s0] B_def[symmetric])
  obtain vs2 s2 where r2: "length vs2 = length (fresh_slots B all1)"
    and next2: "fetch_rounds fe ?l pool h 2 (uniswap_v3_derived keccak (all1 @ zip (fresh_slots B all1) vs2))
       (all1 @ zip (fresh_slots B all1) vs2) s2 = (Inl (DerivedSlotsTooDeep k), s')"
    using next1[folded all1_def, unfolded d1]
    by (rule too_deep_round) (simp add: base DERIVED_SLOTS_MAX_DEPTH_def numeral_2_eq_2)
  define all2 where "all2 = all1 @ zip (fresh_slots B all1) vs2"
  have f2: "fetched all2 x \<longleftrightarrow> fetched all1 x \<or> x \<in> set B" for x
    using fetched_round[OF r2] by (simp add: all2_def)
  have s02: "slot_value 0 all2 = Some s0" unfolding all2_def by (rule slot_value_append[OF s0])
  define P where "P = phase3_tick_info_slots keccak B all2"
  have d2: "uniswap_v3_derived keccak all2 = filter (\<lambda>x. \<not> fetched all2 x) P"
    using f2 B0 by (auto simp: v3_derived[OF s02] B_def[symmetric] P_def ex_in_conv)
  obtain vs3 where r3: "length vs3 = length (fresh_slots (filter (\<lambda>x. \<not> fetched all2 x) P) all2)"
    and next3: "uniswap_v3_derived keccak (all2 @ zip (fresh_slots (filter (\<lambda>x. \<not> fetched all2 x) P) all2) vs3) \<noteq> []"
    using next2[folded all2_def, unfolded d2] by (rule too_deep_round) (simp add: base)
  define new where "new = zip (fresh_slots (filter (\<lambda>x. \<not> fetched all2 x) P) all2) vs3"
  have f3: "fetched (all2 @ new) x \<longleftrightarrow> fetched all2 x \<or> x \<in> set P" for x
    using fetched_round[OF r3, of x] by (auto simp: new_def)
  have s03: "slot_value 0 (all2 @ new) = Some s0" by (rule slot_value_append[OF s02])
  have "fst b \<notin> set B" if "b \<in> set new" for b
  proof -
    have "fst b \<in> set (fresh_slots (filter (\<lambda>x. \<not> fetched all2 x) P) all2)"
      using that unfolding new_def by (metis in_set_zipE prod.collapse)
    then show ?thesis using f2 by (auto simp: set_fresh)
  qed
  then have same: "phase3_tick_info_slots keccak B (all2 @ new) = P"
    unfolding P_def by (intro phase3_append[OF s02]) blast
  have "uniswap_v3_derived keccak (all2 @ new) = filter (\<lambda>x. \<not> fetched (all2 @ new) x) P"
    using f2 f3 B0 by (auto simp: v3_derived[OF s03] B_def[symmetric] same ex_in_conv)
  also have "\<dots> = []" using f3 by (simp add: filter_empty_conv)
  finally show False using next3 by (simp add: new_def)
qed

section \<open>What a fetch promises\<close>

text \<open>C17: The caches are transparent.  Whatever was fetched before, however small the caches are and
  whatever they evict, a fetch of a pool or an account returns what the archive holds at the pinned
  block, by the loop of the layout without any cache, or reports an error of the node; and the caches
  stay coherent, also across a failure.\<close>

theorem fetches_read_the_archive:
  assumes "two_caches fe cent sent" "honest (fe_backend fe) ar" "coherent cent sent ar s"
  shows "(let (r, s') = fetch_pool fe pool h layout s in
      coherent cent sent ar s' \<and> (r = archive_pool ar pool h layout \<or> (\<exists>e. r = Inl (FetchNode e)))) \<and>
    (let (r, s') = fetch_account fe a slots h s in
      coherent cent sent ar s' \<and> (r = archive_account ar a slots h \<or> (\<exists>e. r = Inl (FetchNode e))))"
proof -
  obtain r s' where p: "fetch_pool fe pool h layout s = (r, s')" by (meson surj_pair)
  obtain q t' where a: "fetch_account fe a slots h s = (q, t')" by (meson surj_pair)
  from two_caches.pool_cached[OF assms p] two_caches.account_cached[OF assms a] show ?thesis
    by (simp add: p a as_archive_def)
qed

text \<open>C21: The storage of a fetched pool or account is strictly sorted by slot, so no slot appears twice.  That of a
  pool holds every base slot of the layout, that of an account exactly the slots asked for; both results carry
  the pool or the address, and the block, that were asked for.\<close>

theorem fetched_storage_sorted:
  "(fetch_pool fe pool h layout s = (Inr st, s') \<longrightarrow>
      sorted_wrt (<) (map fst (fp_pool_storage st)) \<and>
      set (base_slots layout pool) \<subseteq> fst ` set (fp_pool_storage st) \<and> fp_hash st = h \<and> fp_pool st = pool) \<and>
   (fetch_account fe a slots h s = (Inr ac, s'') \<longrightarrow>
      sorted_wrt (<) (map fst (fa_storage ac)) \<and> fst ` set (fa_storage ac) = set slots \<and>
      fa_block_hash ac = h \<and> fa_address ac = a)"
  using pool_storage_shape account_storage_shape by blast

text \<open>C19: The three rounds suffice for Uniswap V3: when no hashed bitmap slot is one of the five plain
  ones (a side condition on keccak), fetching a V3 pool at a block hash other than zero, which is refused,
  succeeds or reports an error of the node, whatever the node answers and whatever the caches hold; it never
  ends in the depth error.\<close>

theorem v3_fetch_never_too_deep:
  assumes "\<And>s0 x. x \<in> set (phase2_bitmap_slots keccak s0) \<Longrightarrow> x \<notin> {0, 1, 2, 3, 4}"
  shows "case fst (fetch_pool fe pool h (uniswap_v3_layout keccak) s) of
      Inr st \<Rightarrow> h \<noteq> 0 \<and> {0, 1, 2, 3, 4} \<subseteq> fst ` set (fp_pool_storage st)
    | Inl e \<Rightarrow> if h = 0 then e = InvalidBlockHash else \<exists>ne. e = FetchNode ne"
proof -
  let ?l = "uniswap_v3_layout keccak"
  obtain r s' where r: "fetch_pool fe pool h ?l s = (r, s')" by (meson surj_pair)
  show ?thesis
  proof (cases r)
    case (Inr st)
    have "h \<noteq> 0" using r Inr by (auto simp: fetch_pool_def)
    with pool_storage_shape[OF r[unfolded Inr]] show ?thesis by (simp add: r Inr v3_base)
  next
    case (Inl e)
    have "\<exists>ne. e = FetchNode ne" if h: "h \<noteq> 0"
    proof -
      obtain g s1 where g: "get_code_cached fe (pid_address pool) h s = (g, s1)" by (meson surj_pair)
      obtain q s2 where q: "fetch_rounds fe ?l pool h 0 (base_slots ?l pool) [] s1 = (q, s2)" by (meson surj_pair)
      have "q \<noteq> Inl (DerivedSlotsTooDeep k)" for k
        using v3_not_too_deep[of keccak fe pool h s1 k s2] assms q by auto
      then have "\<exists>ne. x = FetchNode ne" if "q = Inl x" for x using rounds_err[OF q[unfolded that]] that by blast
      moreover have "\<exists>ne. x = FetchNode ne" if "g = Inl x" for x
        using g that by (auto simp: get_code_cached_def Let_def split: prod.splits option.splits sum.splits)
      ultimately show ?thesis using r h g q Inl by (cases g; cases q) (auto simp: fetch_pool_def)
    qed
    then show ?thesis using r Inl by (auto simp: fetch_pool_def)
  qed
qed

section \<open>Examples\<close>

interpretation list_caches:
  two_caches "\<lparr>fe_backend = be, fe_code = list_cache, fe_storage = list_cache\<rparr>"
    "\<lambda>c. map_of (snd c)" "\<lambda>c. map_of (snd c)" for be
  by (intro two_caches.intro) (simp_all add: list_cache.bounded_cache_axioms)

definition demo_archive :: archive where
  "demo_archive = \<lparr>ar_code = (\<lambda>a h. [1]), ar_storage = (\<lambda>a h slot. slot + 1)\<rparr>"

definition demo_backend :: "unit archive_backend" where
  "demo_backend = \<lparr>ab_get_storage_at = (\<lambda>a slot h w. (Inr (slot + 1), w)), ab_get_code = (\<lambda>a h w. (Inr [1], w))\<rparr>"

abbreviation demo_fe ::
  "(unit, nat \<times> (code_key \<times> bytes) list, nat \<times> (storage_key \<times> b256) list) fetcher_env" where
  "demo_fe \<equiv> \<lparr>fe_backend = demo_backend, fe_code = list_cache, fe_storage = list_cache\<rparr>"

definition demo_fetcher ::
  "(unit, nat \<times> (code_key \<times> bytes) list, nat \<times> (storage_key \<times> b256) list) fetcher" where
  "demo_fetcher = fetcher_with_backend demo_fe \<lparr>bytecode_cache_capacity = 1, storage_cache_capacity = 1\<rparr> ()"

lemma demo_honest: "honest (fe_backend demo_fe) demo_archive"
  by (simp add: honest_def demo_backend_def demo_archive_def)

lemma demo_pool_fetch:
  "\<exists>st s'. fetch_pool demo_fe demo_pool 9 (caller_supplied_slots [7]) demo_fetcher = (Inr st, s') \<and>
     fp_pool_storage st = [(7, 8)]"
  by (simp add: fetch_pool_def get_code_cached_def demo_fetcher_def fetcher_with_backend_def list_cache_def
      demo_backend_def Let_def fetch_rounds.simps fresh_slots_def fetched_def get_storage_cached_def
      caller_supplied_slots_def)

theorem fetches_read_the_archive_witness:
  "\<exists>st s'. fetch_pool demo_fe demo_pool 9 (caller_supplied_slots [7]) demo_fetcher = (Inr st, s') \<and>
     Inr st = archive_pool demo_archive demo_pool 9 (caller_supplied_slots [7])"
proof -
  obtain st s' where st: "fetch_pool demo_fe demo_pool 9 (caller_supplied_slots [7]) demo_fetcher = (Inr st, s')"
    using demo_pool_fetch by blast
  have "coherent (\<lambda>c. map_of (snd c)) (\<lambda>c. map_of (snd c)) demo_archive demo_fetcher"
    unfolding demo_fetcher_def by (rule list_caches.fresh_coherent)
  from fetches_read_the_archive[OF list_caches.two_caches_axioms demo_honest this, of demo_pool 9 "caller_supplied_slots [7]"]
  have "Inr st = archive_pool demo_archive demo_pool 9 (caller_supplied_slots [7])" by (simp add: st)
  with st show ?thesis by (intro exI[of _ st] exI[of _ s'] conjI)
qed

lemma demo_account_fetch:
  "\<exists>ac s'. fetch_account demo_fe 5 [9, 7, 9] 4 demo_fetcher = (Inr ac, s')"
  by (simp add: fetch_account_def get_code_cached_def demo_fetcher_def fetcher_with_backend_def list_cache_def
      demo_backend_def Let_def get_storage_cached_def)

theorem fetched_storage_sorted_witness:
  "\<exists>st s' ac s''. fetch_pool demo_fe demo_pool 9 (caller_supplied_slots [7]) demo_fetcher = (Inr st, s') \<and>
     fetch_account demo_fe 5 [9, 7, 9] 4 demo_fetcher = (Inr ac, s'') \<and>
     7 \<in> fst ` set (fp_pool_storage st) \<and> fp_hash st = 9 \<and> map fst (fa_storage ac) = [7, 9]"
proof -
  obtain st s' where st: "fetch_pool demo_fe demo_pool 9 (caller_supplied_slots [7]) demo_fetcher = (Inr st, s')"
    using demo_pool_fetch by blast
  obtain ac s'' where ac: "fetch_account demo_fe 5 [9, 7, 9] 4 demo_fetcher = (Inr ac, s'')"
    using demo_account_fetch by blast
  note f = fetched_storage_sorted[where fe = demo_fe and s = demo_fetcher and st = st and ac = ac]
  have "sorted_wrt (<) (map fst (fa_storage ac))" "set (map fst (fa_storage ac)) = {7, 9}"
    using f[THEN conjunct2, rule_format, OF ac] by auto
  then have "map fst (fa_storage ac) = sorted_list_of_set {7, 9}"
    by (metis sorted_list_of_set.idem_if_sorted_distinct strict_sorted_iff)
  then have "map fst (fa_storage ac) = [7, 9]" by simp
  moreover have "7 \<in> fst ` set (fp_pool_storage st)" "fp_hash st = 9"
    using f[THEN conjunct1, rule_format, OF st] by (simp_all add: caller_supplied_slots_def)
  ultimately show ?thesis using st ac by (intro exI[of _ st] exI[of _ s'] exI[of _ ac] exI[of _ s''] conjI)
qed

text \<open>With a keccak that never gives one of the plain slots.\<close>

theorem v3_fetch_never_too_deep_witness:
  "case fst (fetch_pool demo_fe demo_pool 9 (uniswap_v3_layout (\<lambda>_. u256_to_be 9)) demo_fetcher) of
      Inr st \<Rightarrow> {0, 1, 2, 3, 4} \<subseteq> fst ` set (fp_pool_storage st)
    | Inl e \<Rightarrow> \<exists>ne. e = FetchNode ne"
proof -
  have "x \<notin> {0, 1, 2, 3, 4}" if "x \<in> set (phase2_bitmap_slots (\<lambda>_. u256_to_be 9) s0)" for s0 x
  proof -
    have "x = 9" using that by (auto simp: phase2_slots word_slot_def mapping_slot_u256_def)
    then show ?thesis by simp
  qed
  note ok = this
  have "case fst (fetch_pool demo_fe demo_pool 9 (uniswap_v3_layout (\<lambda>_. u256_to_be 9)) demo_fetcher) of
      Inr st \<Rightarrow> (9 :: b256) \<noteq> 0 \<and> {0, 1, 2, 3, 4} \<subseteq> fst ` set (fp_pool_storage st)
    | Inl e \<Rightarrow> if (9 :: b256) = 0 then e = InvalidBlockHash else \<exists>ne. e = FetchNode ne"
    by (rule v3_fetch_never_too_deep) (rule ok)
  then show ?thesis by (simp split: sum.splits)
qed

end
