(* ===== verification/Observability.thy ===== *)
theory Observability
  imports Config
begin

text \<open>
  The start-up of logging and metrics (\<open>crates/observability/src/lib.rs\<close>): the process-wide guard
  around the two installations.  The tracing and Prometheus crates are arguments; the world holds
  their registries.
\<close>

datatype observability_error =
    AlreadyInitialized
  | TracingInstall string
  | PrometheusInstall string

record 'w obs_env =
  env_filter :: "string \<Rightarrow> string option"
  tracing_try_init :: "log_format \<Rightarrow> 'w \<Rightarrow> (string + unit) \<times> 'w"
  install_recorder :: "string \<Rightarrow> 'w \<Rightarrow> (string + unit) \<times> 'w"

record 'w process =
  init_guard :: bool
  proc_world :: 'w

text \<open>\<open>env_filter\<close> is the error of \<open>EnvFilter::try_new\<close>, if any.\<close>

definition obs_init ::
  "'w obs_env \<Rightarrow> observability_config \<Rightarrow> 'w process \<Rightarrow> (observability_error + unit) \<times> 'w process" where
  "obs_init oe cfg p =
     (if init_guard p then (Inl AlreadyInitialized, p)
      else case env_filter oe (log_filter cfg) of
        Some e \<Rightarrow> (Inl (TracingInstall e), p)
      | None \<Rightarrow>
          (case tracing_try_init oe (ob_log_format cfg) (proc_world p) of
             (Inl e, w) \<Rightarrow> (Inl (TracingInstall e), p\<lparr>proc_world := w\<rparr>)
           | (Inr _, w) \<Rightarrow>
               (case install_recorder oe (prometheus_listen cfg) w of
                  (Inl e, w) \<Rightarrow> (Inl (PrometheusInstall e), p\<lparr>proc_world := w\<rparr>)
                | (Inr _, w) \<Rightarrow> (Inr (), p\<lparr>init_guard := True, proc_world := w\<rparr>))))"

text \<open>A successful start sets the guard, and behind the guard every further start is refused
  without touching a registry.\<close>

lemma obs_init_ok: "obs_init oe cfg p = (Inr u, p') \<Longrightarrow> \<not> init_guard p \<and> init_guard p'"
  unfolding obs_init_def by (auto split: if_splits option.splits prod.splits sum.splits)

lemma obs_init_again: "obs_init oe cfg p = (Inr u, p') \<Longrightarrow> obs_init oe cfg' p' = (Inl AlreadyInitialized, p')"
  by (drule obs_init_ok) (simp add: obs_init_def)

text \<open>A failed start leaves the guard open.\<close>

lemma obs_init_error: "obs_init oe cfg p = (Inl e, p') \<Longrightarrow> init_guard p' = init_guard p"
  unfolding obs_init_def by (auto split: if_splits option.splits prod.splits sum.splits)

end
