(* ===== verification/App_Drivers.thy ===== *)
theory App_Drivers
  imports "HOL-Library.AList" Event_Bus State_Engine Ingress Opportunity Risk Execution Relay_Clients
begin

text \<open>
  The driver tasks of \<open>crates/app/src/lib.rs\<close> that turn one stage's events into the next stage's:
  sealing, the ingress producer, the journal drains, and the state, opportunity, risk, simulator and
  execution drivers.  A task is a fold of its body over what its receiver returns; a broadcast send
  is the list of what was sent (the sources ignore the result of a send).  The clock is a function
  of the number of readings.  The local simulator is used through its two operations.
\<close>

section \<open>Receivers and loops\<close>

datatype 'e recv_result = Received 'e | RxLagged u64 | RxClosed

text \<open>A driver loop: both \<open>Lagged\<close> and \<open>Closed\<close> end it.\<close>

fun run_driver :: "('e \<Rightarrow> 's \<Rightarrow> 's) \<Rightarrow> 'e recv_result list \<Rightarrow> 's \<Rightarrow> 's" where
  "run_driver body [] s = s"
| "run_driver body (Received e # rs) s = run_driver body rs (body e s)"
| "run_driver body (RxLagged n # rs) s = s"
| "run_driver body (RxClosed # rs) s = s"

section \<open>Sealing\<close>

type_synonym clock = "nat \<Rightarrow> nat option"

record 'p stage =
  sg_seq :: u64
  sg_tick :: nat
  sg_out :: "'p envelope list"

definition stage_init :: "'p stage" where
  "stage_init = \<lparr>sg_seq = 0, sg_tick = 0, sg_out = []\<rparr>"

definition clock_ns :: "clock \<Rightarrow> nat \<Rightarrow> u64" where
  "clock_ns clk t = (case clk t of Some d \<Rightarrow> word_of_nat d | None \<Rightarrow> 1)"

definition seal_envelope_with_context ::
  "clock \<Rightarrow> nat \<Rightarrow> event_source \<Rightarrow> 'p \<Rightarrow> u64 \<Rightarrow> chain_context \<Rightarrow> u64 \<Rightarrow> 'p envelope option \<times> u64" where
  "seal_envelope_with_context clk t src p sq cc cid =
     (let meta = \<lparr>source = src, chain_ctx = cc, event_version = 1, correlation_id = cid\<rparr>;
          sq = sq + 1
      in (case seal meta p sq (clock_ns clk t) of Inl e \<Rightarrow> None | Inr env \<Rightarrow> Some env, sq))"

definition no_block :: chain_context where
  "no_block = \<lparr>chain_id = 1, block_number = 0, block_hash = 0\<rparr>"

definition seal_envelope ::
  "clock \<Rightarrow> nat \<Rightarrow> event_source \<Rightarrow> 'p \<Rightarrow> u64 \<Rightarrow> 'p envelope option \<times> u64" where
  "seal_envelope clk t src p sq = seal_envelope_with_context clk t src p sq no_block 0"

text \<open>Seal and send, the pattern of every stage.\<close>

definition emit :: "clock \<Rightarrow> event_source \<Rightarrow> 'p \<Rightarrow> 'p stage \<Rightarrow> 'p stage" where
  "emit clk src p s =
     (case seal_envelope clk (sg_tick s) src p (sg_seq s) of
        (Some env, sq) \<Rightarrow> s\<lparr>sg_seq := sq, sg_tick := Suc (sg_tick s), sg_out := sg_out s @ [env]\<rparr>
      | (None, sq) \<Rightarrow> s\<lparr>sg_seq := sq, sg_tick := Suc (sg_tick s)\<rparr>)"

definition emit_all :: "clock \<Rightarrow> event_source \<Rightarrow> 'p list \<Rightarrow> 'p stage \<Rightarrow> 'p stage" where
  "emit_all clk src ps s = fold (emit clk src) ps s"

section \<open>The tasks\<close>

definition producer_step ::
  "clock \<Rightarrow> ingress_error + mempool_event \<Rightarrow> ingress_event stage \<Rightarrow> ingress_event stage" where
  "producer_step clk it s =
     (case it of
        Inr ev \<Rightarrow> emit clk Ingress (Mempool ev) s
      | Inl e \<Rightarrow> s)"

definition producer_loop ::
  "clock \<Rightarrow> (ingress_error + mempool_event) list \<Rightarrow> ingress_event stage \<Rightarrow> ingress_event stage" where
  "producer_loop clk items s = fold (producer_step clk) items s"

text \<open>The drain of a broadcast channel and the drain of a bounded bus: an append that fails is logged
  and skipped, the final flush ends both.\<close>

definition drain_step :: "'p codec \<Rightarrow> 'p envelope \<Rightarrow> journal \<Rightarrow> journal" where
  "drain_step cd env j = snd (append cd env j)"

definition journal_drain_loop :: "'p codec \<Rightarrow> 'p envelope recv_result list \<Rightarrow> journal \<Rightarrow> journal" where
  "journal_drain_loop cd rs j = snd (journal_flush (run_driver (drain_step cd) rs j))"

fun consume_loop :: "'p codec \<Rightarrow> (bus_error + 'p envelope) list \<Rightarrow> journal \<Rightarrow> journal" where
  "consume_loop cd (Inr env # rs) j = consume_loop cd rs (snd (append cd env j))"
| "consume_loop cd (Inl e # rs) j = snd (journal_flush j)"
| "consume_loop cd [] j = j"

record ('w, 'd) state_driver =
  sd_stage :: "state_update_event stage"
  sd_world :: "'w \<times> 'd snapshot"

definition state_engine_step ::
  "'d kv_ops \<Rightarrow> pool_state value_codec \<Rightarrow> 'w state_engine \<Rightarrow> clock \<Rightarrow> ingress_event envelope
   \<Rightarrow> ('w, 'd) state_driver \<Rightarrow> ('w, 'd) state_driver" where
  "state_engine_step kv vc en clk env s =
     (case env_payload env of
        Block b \<Rightarrow>
          (case refresh_block kv vc en (be_block_number b) (be_block_hash b) (sd_world s) of
             (Inr events, w) \<Rightarrow>
               s\<lparr>sd_world := w, sd_stage := emit_all clk StateEngine events (sd_stage s)\<rparr>
           | (Inl e, w) \<Rightarrow> s\<lparr>sd_world := w\<rparr>)
      | Mempool m \<Rightarrow> s)"

text \<open>The groups of one block, by block number.\<close>

type_synonym block_groups = "(u64 \<times> state_update_event envelope list) list"

record opportunity_driver =
  od_stage :: "opportunity_event stage"
  od_by_block :: block_groups

definition group_of :: "block_groups \<Rightarrow> u64 \<Rightarrow> state_update_event envelope list" where
  "group_of m n = (case map_of m n of None \<Rightarrow> [] | Some g \<Rightarrow> g)"

fun pairs :: "'a list \<Rightarrow> ('a \<times> 'a) list" where
  "pairs [] = []"
| "pairs (x # xs) = map (Pair x) xs @ pairs xs"

definition check_envelopes ::
  "state_update_event envelope \<times> state_update_event envelope \<Rightarrow> opportunity_event option" where
  "check_envelopes ab =
     check_pair (env_chain_context (fst ab)) (su_pool (env_payload (fst ab))) (su_state (env_payload (fst ab)))
       (su_pool (env_payload (snd ab))) (su_state (env_payload (snd ab)))"

definition evict :: "u64 \<Rightarrow> block_groups \<Rightarrow> block_groups" where
  "evict n m =
     (if 16 < length m
      then let high = (case map fst m of [] \<Rightarrow> n | k # ks \<Rightarrow> fold max ks k);
               cutoff = saturating_sub high 8
           in filter (\<lambda>(k, _). cutoff \<le> k) m
      else m)"

definition opportunity_step ::
  "clock \<Rightarrow> state_update_event envelope \<Rightarrow> opportunity_driver \<Rightarrow> opportunity_driver" where
  "opportunity_step clk env s =
     (let n = su_block_number (env_payload env);
          by_block = AList.update n (group_of (od_by_block s) n @ [env]) (od_by_block s);
          group = group_of by_block n;
          found = (if 2 \<le> length group then List.map_filter check_envelopes (pairs group) else [])
      in s\<lparr>od_stage := emit_all clk OpportunityEngine found (od_stage s),
           od_by_block := evict n by_block\<rparr>)"

definition risk_step ::
  "risk_gate \<Rightarrow> clock \<Rightarrow> opportunity_event envelope \<Rightarrow> risk_checked_opportunity stage
   \<Rightarrow> risk_checked_opportunity stage" where
  "risk_step g clk env s =
     (case evaluate g (env_payload env) of
        Inr checked \<Rightarrow> emit clk RiskEngine checked s
      | Inl aborted \<Rightarrow> s)"

record simulation_outcome_with_fingerprint =
  sf_outcome :: simulation_outcome
  sf_fingerprint :: local_state_fingerprint
  sf_signed_bundle :: "signed_bundle option"

text \<open>The operations of \<open>LocalSimulator\<close> that the driver calls, on the simulator's state \<open>'m\<close>;
  \<open>ls_prefetch\<close> is absent when no fetcher is configured.\<close>

record 'm local_simulator =
  ls_prefetch :: "(opportunity_event \<Rightarrow> address \<Rightarrow> address \<Rightarrow> 'm \<Rightarrow> bool \<times> 'm) option"
  ls_simulate :: "risk_checked_opportunity \<Rightarrow> 'm
     \<Rightarrow> (simulation_outcome \<times> local_state_fingerprint) option \<times> 'm"

record 'm simulator_driver =
  md_stage :: "simulation_outcome_with_fingerprint stage"
  md_sim :: 'm

definition bundle_for :: "chain_context \<Rightarrow> simulation_outcome \<Rightarrow> signed_tx_bytes \<Rightarrow> signed_bundle" where
  "bundle_for cc outcome tx =
     \<lparr>sb_block_hash = block_hash cc, sb_state_block_number = block_number cc,
      sb_signed_txs = [signed_bytes tx], sb_coinbase_recipient = 0, sb_coinbase_transfer_wei = 0,
      sb_validity_block_min = so_opportunity_block_number outcome,
      sb_validity_block_max = so_opportunity_block_number outcome\<rparr>"

definition simulator_simulate ::
  "'m local_simulator \<Rightarrow> bundle_constructor \<Rightarrow> clock \<Rightarrow> risk_checked_opportunity envelope
   \<Rightarrow> 'm simulator_driver \<Rightarrow> 'm simulator_driver" where
  "simulator_simulate sim bd clk env s =
     (case ls_simulate sim (env_payload env) (md_sim s) of
        (None, m) \<Rightarrow> s\<lparr>md_sim := m\<rparr>
      | (Some (outcome, fingerprint), m) \<Rightarrow>
          (case sign_for_outcome bd outcome of
             Inl e \<Rightarrow> s\<lparr>md_sim := m\<rparr>
           | Inr tx \<Rightarrow>
               s\<lparr>md_sim := m,
                 md_stage := emit clk Simulator
                   \<lparr>sf_outcome = outcome, sf_fingerprint = fingerprint,
                    sf_signed_bundle = Some (bundle_for (env_chain_context env) outcome tx)\<rparr> (md_stage s)\<rparr>))"

definition simulator_step ::
  "'m local_simulator \<Rightarrow> address \<Rightarrow> address \<Rightarrow> bundle_constructor \<Rightarrow> clock
   \<Rightarrow> risk_checked_opportunity envelope \<Rightarrow> 'm simulator_driver \<Rightarrow> 'm simulator_driver" where
  "simulator_step sim weth_address usdc_proxy_address bd clk env s =
     (case ls_prefetch sim of
        None \<Rightarrow> simulator_simulate sim bd clk env s
      | Some prefetch \<Rightarrow>
          (case prefetch (rc_opportunity (env_payload env)) weth_address usdc_proxy_address (md_sim s) of
             (False, m) \<Rightarrow> s\<lparr>md_sim := m\<rparr>
           | (True, m) \<Rightarrow> simulator_simulate sim bd clk env (s\<lparr>md_sim := m\<rparr>)))"

definition execution_step ::
  "bundle_constructor \<Rightarrow> clock \<Rightarrow> simulation_outcome_with_fingerprint envelope
   \<Rightarrow> bundle_candidate stage \<Rightarrow> bundle_candidate stage" where
  "execution_step bd clk env s =
     (case construct bd (sf_outcome (env_payload env)) of
        Inr candidate \<Rightarrow> emit clk Execution candidate s
      | Inl e \<Rightarrow> s)"

section \<open>Publishing stages\<close>

text \<open>What the drivers share: a stage publishes only by sealing and sending, under its own source.\<close>

locale publishing_stage =
  fixes step :: "'e \<Rightarrow> 's \<Rightarrow> 's" and stage :: "'s \<Rightarrow> 'p stage" and clk :: clock and src :: event_source
  assumes publishes: "\<exists>ps. stage (step e s) = emit_all clk src ps (stage s)"

definition stage_sealed :: "event_source \<Rightarrow> 'p envelope \<Rightarrow> bool" where
  "stage_sealed src env \<longleftrightarrow>
     envelope_ok env \<and>
     meta_of env = \<lparr>source = src, chain_ctx = no_block, event_version = 1, correlation_id = 0\<rparr>"

definition clock_runs :: "clock \<Rightarrow> bool" where
  "clock_runs clk \<longleftrightarrow> (\<forall>t. clock_ns clk t \<noteq> 0)"

lemma emit_cases:
  obtains (sent) env where "emit clk src p s =
      \<lparr>sg_seq = sg_seq s + 1, sg_tick = Suc (sg_tick s), sg_out = sg_out s @ [env]\<rparr>"
      "stage_sealed src env" "env_sequence env = sg_seq s + 1" "env_payload env = p"
      "clock_ns clk (sg_tick s) \<noteq> 0"
  | (failed) "emit clk src p s = \<lparr>sg_seq = sg_seq s + 1, sg_tick = Suc (sg_tick s), sg_out = sg_out s\<rparr>"
      "clock_ns clk (sg_tick s) = 0"
proof (cases "clock_ns clk (sg_tick s) = 0")
  case True
  then show ?thesis
    by (intro failed)
      (simp_all add: emit_def seal_envelope_def seal_envelope_with_context_def Let_def seal_def
        check_envelope_invariants_def)
next
  case False
  let ?meta = "\<lparr>source = src, chain_ctx = no_block, event_version = 1, correlation_id = 0\<rparr>"
  obtain env where env: "seal ?meta p (sg_seq s + 1) (clock_ns clk (sg_tick s)) = Inr env"
    using False by (auto simp: seal_Inr_iff no_block_def)
  note f = seal_fields[OF env]
  show ?thesis
    by (rule sent[of env])
      (use f env False in \<open>simp_all add: emit_def seal_envelope_def seal_envelope_with_context_def Let_def
        stage_sealed_def\<close>)
qed

lemma emit_all_Nil [simp]: "emit_all clk src [] s = s"
  by (simp add: emit_all_def)

lemma emit_all_Cons: "emit_all clk src (p # ps) s = emit_all clk src ps (emit clk src p s)"
  by (simp add: emit_all_def)

lemma emit_all_append: "emit_all clk src (ps @ qs) s = emit_all clk src qs (emit_all clk src ps s)"
  by (simp add: emit_all_def)

lemma emit_all_sealed:
  "\<forall>env \<in> set (sg_out s). stage_sealed src env \<Longrightarrow>
   \<forall>env \<in> set (sg_out (emit_all clk src ps s)). stage_sealed src env"
proof (induction ps arbitrary: s)
  case (Cons p ps)
  have "\<forall>env \<in> set (sg_out (emit clk src p s)). stage_sealed src env"
    by (rule emit_cases[of clk src p s]) (use Cons.prems in auto)
  from Cons.IH[OF this] show ?case by (simp add: emit_all_Cons)
qed simp

lemma emit_all_numbering:
  assumes "clock_runs clk" "map env_sequence (sg_out s) = map word_of_nat [1 ..< Suc (length (sg_out s))]"
    and "sg_seq s = word_of_nat (length (sg_out s))"
  shows "map env_sequence (sg_out (emit_all clk src ps s))
      = map word_of_nat [1 ..< Suc (length (sg_out (emit_all clk src ps s)))] \<and>
    sg_seq (emit_all clk src ps s) = word_of_nat (length (sg_out (emit_all clk src ps s))) \<and>
    map env_payload (sg_out (emit_all clk src ps s)) = map env_payload (sg_out s) @ ps"
  using assms(2,3)
proof (induction ps arbitrary: s)
  case (Cons p ps)
  show ?case
  proof (rule emit_cases[of clk src p s])
    fix env assume e: "emit clk src p s =
      \<lparr>sg_seq = sg_seq s + 1, sg_tick = Suc (sg_tick s), sg_out = sg_out s @ [env]\<rparr>"
      "env_sequence env = sg_seq s + 1" "env_payload env = p"
    have "map env_sequence (sg_out (emit clk src p s)) =
        map word_of_nat [1 ..< Suc (length (sg_out (emit clk src p s)))]"
      "sg_seq (emit clk src p s) = word_of_nat (length (sg_out (emit clk src p s)))"
      using Cons.prems e by (simp_all add: add.commute)
    from Cons.IH[OF this] show ?thesis using e by (simp add: emit_all_Cons)
  qed (use assms(1) in \<open>auto simp: clock_runs_def\<close>)
qed simp

context publishing_stage
begin

lemma run_publishes: "\<exists>ps. stage (run_driver step rs s) = emit_all clk src ps (stage s)"
proof (induction rs arbitrary: s)
  case Nil
  show ?case by (intro exI[of _ "[]"]) simp
next
  case (Cons r rs)
  show ?case
  proof (cases r)
    case (Received e)
    obtain ps where ps: "stage (step e s) = emit_all clk src ps (stage s)" using publishes by blast
    obtain qs where "stage (run_driver step rs (step e s)) = emit_all clk src qs (stage (step e s))"
      using Cons.IH by blast
    with ps show ?thesis
      by (intro exI[of _ "ps @ qs"]) (simp add: Received emit_all_append)
  qed (auto intro: exI[of _ "[]"])
qed

lemma run_sealed:
  assumes "stage s = stage_init"
  shows "\<forall>env \<in> set (sg_out (stage (run_driver step rs s))). stage_sealed src env"
proof -
  obtain ps where "stage (run_driver step rs s) = emit_all clk src ps (stage s)"
    using run_publishes by blast
  with emit_all_sealed[of "stage s" src clk ps] assms show ?thesis by (simp add: stage_init_def)
qed

lemma run_numbering:
  assumes "stage s = stage_init" "clock_runs clk"
  shows "map env_sequence (sg_out (stage (run_driver step rs s)))
    = map word_of_nat [1 ..< Suc (length (sg_out (stage (run_driver step rs s))))]"
proof -
  obtain ps where "stage (run_driver step rs s) = emit_all clk src ps (stage s)"
    using run_publishes by blast
  with emit_all_numbering[OF assms(2), of "stage s" src ps] assms(1) show ?thesis
    by (simp add: stage_init_def)
qed

end

text \<open>The five broadcast stages keep the contract.\<close>

lemma emit_as_all: "emit clk src p s = emit_all clk src [p] s"
  by (simp add: emit_all_def)

lemma state_engine_publishes:
  "\<exists>ps. sd_stage (state_engine_step kv vc en clk e s) = emit_all clk StateEngine ps (sd_stage s)"
  by (auto simp: state_engine_step_def intro: exI[of _ "[]"] split: ingress_event.split sum.split prod.split)

lemma simulator_simulate_publishes:
  "\<exists>ps. md_stage (simulator_simulate sim bd clk e s) = emit_all clk Simulator ps (md_stage s)"
  by (auto simp: simulator_simulate_def emit_as_all intro: exI[of _ "[]"]
      split: sum.split prod.split option.split)

lemma simulator_publishes:
  "\<exists>ps. md_stage (simulator_step sim wa ua bd clk e s) = emit_all clk Simulator ps (md_stage s)"
proof -
  have "\<exists>ps. md_stage (simulator_simulate sim bd clk e (s\<lparr>md_sim := m\<rparr>)) = emit_all clk Simulator ps (md_stage s)"
    for m using simulator_simulate_publishes[of sim bd clk e "s\<lparr>md_sim := m\<rparr>"] by simp
  with simulator_simulate_publishes[of sim bd clk e s] show ?thesis
    by (auto simp: simulator_step_def intro: exI[of _ "[]"] split: option.split prod.split bool.split)
qed

lemma opportunity_publishes:
  "\<exists>ps. od_stage (opportunity_step clk e s) = emit_all clk OpportunityEngine ps (od_stage s)"
  unfolding opportunity_step_def Let_def by (rule exI) simp

interpretation state_stage: publishing_stage "state_engine_step kv vc en clk" sd_stage clk StateEngine
  for kv vc en clk
  by unfold_locales (rule state_engine_publishes)

interpretation opportunity_stage: publishing_stage "opportunity_step clk" od_stage clk OpportunityEngine
  for clk
  by unfold_locales (rule opportunity_publishes)

interpretation risk_stage: publishing_stage "risk_step g clk" "\<lambda>s. s" clk RiskEngine for g clk
  by unfold_locales (auto simp: risk_step_def emit_as_all intro: exI[of _ "[]"] split: sum.split)

interpretation simulator_stage: publishing_stage "simulator_step sim wa ua bd clk" md_stage clk Simulator
  for sim wa ua bd clk
  by unfold_locales (rule simulator_publishes)

interpretation execution_stage: publishing_stage "execution_step bd clk" "\<lambda>s. s" clk Execution for bd clk
  by unfold_locales (auto simp: execution_step_def emit_as_all intro: exI[of _ "[]"] split: sum.split)


section \<open>What the stages publish\<close>

definition numbered :: "'p stage \<Rightarrow> bool" where
  "numbered s \<longleftrightarrow> map env_sequence (sg_out s) = map word_of_nat [1 ..< Suc (length (sg_out s))]"

definition all_sealed :: "event_source \<Rightarrow> 'p stage \<Rightarrow> bool" where
  "all_sealed src s \<longleftrightarrow> (\<forall>env \<in> set (sg_out s). stage_sealed src env)"

text \<open>every envelope that the five broadcast stages publish from a fresh start is a valid one,
  stamped with the stage's own source, and, when the clock does not read zero, the envelopes of a
  stage are numbered 1, 2, 3, ... without a gap, whatever they receive and however long they run.\<close>

theorem stages_publish_numbered_envelopes:
  assumes "clock_runs clk" "sd_stage s1 = stage_init" "od_stage s2 = stage_init"
    and "md_stage s4 = stage_init"
  shows "(let r1 = sd_stage (run_driver (state_engine_step kv vc en clk) rs1 s1);
              r2 = od_stage (run_driver (opportunity_step clk) rs2 s2);
              r3 = run_driver (risk_step g clk) rs3 stage_init;
              r4 = md_stage (run_driver (simulator_step sim wa ua bd clk) rs4 s4);
              r5 = run_driver (execution_step bd clk) rs5 stage_init
          in all_sealed StateEngine r1 \<and> all_sealed OpportunityEngine r2 \<and> all_sealed RiskEngine r3 \<and>
             all_sealed Simulator r4 \<and> all_sealed Execution r5 \<and>
             numbered r1 \<and> numbered r2 \<and> numbered r3 \<and> numbered r4 \<and> numbered r5)"
  using state_stage.run_sealed[OF assms(2)] state_stage.run_numbering[OF assms(2,1)]
    opportunity_stage.run_sealed[OF assms(3)] opportunity_stage.run_numbering[OF assms(3,1)]
    risk_stage.run_sealed[OF refl] risk_stage.run_numbering[OF refl assms(1)]
    simulator_stage.run_sealed[OF assms(4)] simulator_stage.run_numbering[OF assms(4,1)]
    execution_stage.run_sealed[OF refl] execution_stage.run_numbering[OF refl assms(1)]
  by (simp add: Let_def all_sealed_def numbered_def)

definition demo_clock :: clock where "demo_clock t = Some (Suc 0)"

lemma demo_clock_runs: "clock_runs demo_clock"
  by (simp add: clock_runs_def clock_ns_def demo_clock_def)

definition demo_driver :: opportunity_driver where
  "demo_driver = \<lparr>od_stage = stage_init, od_by_block = []\<rparr>"

lemma stages_publish_numbered_envelopes_witness:
  "numbered (od_stage (run_driver (opportunity_step demo_clock) [RxLagged 3] demo_driver))"
  using stages_publish_numbered_envelopes[OF demo_clock_runs,
      of "\<lparr>sd_stage = stage_init, sd_world = ((), demo_store)\<rparr>" demo_driver
        "\<lparr>md_stage = stage_init, md_sim = ()\<rparr>" map_kv reserve_codec
        "state_engine_with_caller (\<lambda>req b w. (Inl NodeClosed, w)) []" "[]" "[RxLagged 3]"]
  by (simp add: Let_def demo_driver_def)

end
