(* ===== verification/App_Pipeline.thy ===== *)
theory App_Pipeline
  imports App_Drivers
begin

text \<open>
  Properties of the drivers of \<open>crates/app/src/lib.rs\<close> composed: what the opportunity driver
  publishes and keeps, and what the stages make of each other's envelopes.
\<close>

section \<open>The groups of the opportunity driver\<close>

definition stored :: "state_update_event envelope set \<Rightarrow> block_groups \<Rightarrow> bool" where
  "stored R m \<longleftrightarrow> (\<forall>x \<in> set m. \<forall>e \<in> set (snd x). e \<in> R \<and> su_block_number (env_payload e) = fst x)"

definition justified :: "state_update_event envelope set \<Rightarrow> opportunity_event \<Rightarrow> bool" where
  "justified R ev \<longleftrightarrow>
     (\<exists>a \<in> R. \<exists>b \<in> R. su_block_number (env_payload a) = su_block_number (env_payload b) \<and>
        check_envelopes (a, b) = Some ev)"

definition od_ok :: "state_update_event envelope set \<Rightarrow> opportunity_driver \<Rightarrow> bool" where
  "od_ok R s \<longleftrightarrow> stored R (od_by_block s) \<and>
     (\<forall>e \<in> set (sg_out (od_stage s)). justified R (env_payload e))"

definition od_init :: opportunity_driver where
  "od_init = \<lparr>od_stage = stage_init, od_by_block = []\<rparr>"

definition groups_bounded :: "block_groups \<Rightarrow> bool" where
  "groups_bounded m \<longleftrightarrow> length m \<le> 16 \<and> distinct (map fst m)"

lemma set_pairs: "(a, b) \<in> set (pairs xs) \<Longrightarrow> a \<in> set xs \<and> b \<in> set xs"
  by (induction xs) auto

lemma group_of_update: "group_of (AList.update n g m) k = (if k = n then g else group_of m k)"
  by (simp add: group_of_def update_conv')

lemma group_of_set: "e \<in> set (group_of m n) \<Longrightarrow> \<exists>g. (n, g) \<in> set m \<and> e \<in> set g"
  by (cases "map_of m n") (auto simp: group_of_def dest: map_of_SomeD)

lemma stored_group: "stored R m \<Longrightarrow> e \<in> set (group_of m n) \<Longrightarrow> e \<in> R \<and> su_block_number (env_payload e) = n"
  using group_of_set[of e m n] by (fastforce simp: stored_def)

lemma set_alist_update: "x \<in> set (AList.update k v m) \<Longrightarrow> x = (k, v) \<or> x \<in> set m"
  by (induction m) (auto split: if_splits)

lemma set_evict: "set (evict n m) \<subseteq> set m"
  by (auto simp: evict_def Let_def)

lemma stored_evict: "stored R m \<Longrightarrow> stored R (evict n m)"
  unfolding stored_def using set_evict by blast

lemma stored_update:
  assumes "stored R m" "env \<in> R" "su_block_number (env_payload env) = n"
  shows "stored R (AList.update n (group_of m n @ [env]) m)"
  unfolding stored_def
proof (intro ballI)
  fix x e assume x: "x \<in> set (AList.update n (group_of m n @ [env]) m)" and e: "e \<in> set (snd x)"
  from set_alist_update[OF x] show "e \<in> R \<and> su_block_number (env_payload e) = fst x"
  proof
    assume "x = (n, group_of m n @ [env])"
    with e stored_group[OF assms(1)] assms(2,3) show ?thesis by auto
  next
    assume "x \<in> set m"
    with e assms(1) show ?thesis by (simp add: stored_def)
  qed
qed

lemma emit_all_payloads:
  "env \<in> set (sg_out (emit_all clk src ps s)) \<Longrightarrow> env \<in> set (sg_out s) \<or> env_payload env \<in> set ps"
proof (induction ps arbitrary: s)
  case (Cons p ps)
  from Cons.prems have "env \<in> set (sg_out (emit_all clk src ps (emit clk src p s)))"
    by (simp add: emit_all_Cons)
  from Cons.IH[OF this] show ?case
    by (cases rule: emit_cases[of clk src p s]) auto
qed simp

text \<open>One step, with the group spelled out.\<close>

definition found_in :: "state_update_event envelope list \<Rightarrow> opportunity_event list" where
  "found_in g = List.map_filter check_envelopes (pairs g)"

lemma found_in_short: "length g < 2 \<Longrightarrow> found_in g = []"
  by (cases g; cases "tl g") (simp_all add: found_in_def)

lemma opportunity_step_eq:
  "opportunity_step clk env s =
     (let n = su_block_number (env_payload env); g = group_of (od_by_block s) n @ [env]
      in s\<lparr>od_stage := emit_all clk OpportunityEngine (found_in g) (od_stage s),
           od_by_block := evict n (AList.update n g (od_by_block s))\<rparr>)"
proof -
  have "(if 2 \<le> length g then List.map_filter check_envelopes (pairs g) else []) = found_in g" for g
    by (cases "2 \<le> length g") (simp_all add: found_in_short, simp add: found_in_def)
  then show ?thesis by (simp add: opportunity_step_def Let_def group_of_update)
qed

lemma found_justified:
  assumes "ev \<in> set (found_in g)" "\<And>e. e \<in> set g \<Longrightarrow> e \<in> R \<and> su_block_number (env_payload e) = n"
  shows "justified R ev"
proof -
  obtain a b where "(a, b) \<in> set (pairs g)" "check_envelopes (a, b) = Some ev"
    using assms(1) by (auto simp: found_in_def map_filter_def)
  with set_pairs[of a b g] assms(2)[of a] assms(2)[of b] show ?thesis
    unfolding justified_def by (intro bexI[of _ a] bexI[of _ b]) simp_all
qed

lemma od_ok_step:
  assumes "od_ok R s" "env \<in> R"
  shows "od_ok R (opportunity_step clk env s)"
proof -
  define n where "n = su_block_number (env_payload env)"
  define g where "g = group_of (od_by_block s) n @ [env]"
  have st: "stored R (od_by_block s)" using assms(1) by (simp add: od_ok_def)
  have g: "e \<in> R \<and> su_block_number (env_payload e) = n" if "e \<in> set g" for e
    using that stored_group[OF st, of e n] assms(2) unfolding g_def n_def by auto
  have "stored R (evict n (AList.update n g (od_by_block s)))"
    unfolding g_def by (intro stored_evict stored_update st assms(2)) (simp add: n_def)
  moreover have "justified R (env_payload e)"
    if "e \<in> set (sg_out (emit_all clk OpportunityEngine (found_in g) (od_stage s)))" for e
    using emit_all_payloads[OF that] found_justified[of _ g R n, OF _ g] assms(1)
    unfolding od_ok_def by blast
  moreover have "opportunity_step clk env s =
      s\<lparr>od_stage := emit_all clk OpportunityEngine (found_in g) (od_stage s),
        od_by_block := evict n (AList.update n g (od_by_block s))\<rparr>"
    unfolding opportunity_step_eq Let_def g_def n_def by (rule refl)
  ultimately show ?thesis by (simp add: od_ok_def)
qed

lemma od_ok_run:
  assumes "od_ok R s" "\<forall>env. Received env \<in> set rs \<longrightarrow> env \<in> R"
  shows "od_ok R (run_driver (opportunity_step clk) rs s)"
  using assms
proof (induction "opportunity_step clk" rs s rule: run_driver.induct)
  case (2 e rs s)
  from 2(2,3) show ?case by (simp add: 2(1) od_ok_step del: run_driver.simps(1))
qed simp_all


lemma od_ok_from_start:
  assumes "\<forall>env. Received env \<in> set rs \<longrightarrow> env \<in> R"
  shows "od_ok R (run_driver (opportunity_step clk) rs od_init)"
  by (rule od_ok_run[OF _ assms]) (simp add: od_ok_def od_init_def stored_def stage_init_def)

text \<open>The number of groups kept.\<close>

lemma fold_max_ge: "k \<in> set ks \<or> k = x \<Longrightarrow> k \<le> fold max ks (x::'a::linorder)"
proof (induction ks arbitrary: x k)
  case (Cons y ks)
  have "max y x \<le> fold max ks (max y x)" by (rule Cons.IH) simp
  then have "y \<le> fold max ks (max y x)" "x \<le> fold max ks (max y x)" by simp_all
  with Cons.IH[of k "max y x"] Cons.prems show ?case by auto
qed simp

lemma card_window: "card {k::u64. saturating_sub h 8 \<le> k \<and> k \<le> h} \<le> 9"
proof -
  have "unat ` {k. saturating_sub h 8 \<le> k \<and> k \<le> h} \<subseteq> {unat h - 8 .. unat h}"
    by (auto simp: word_le_nat_alt unat_saturating_sub)
  from card_mono[OF _ this] have "card (unat ` {k. saturating_sub h 8 \<le> k \<and> k \<le> h}) \<le> 9" by simp
  moreover have "inj_on unat {k::u64. saturating_sub h 8 \<le> k \<and> k \<le> h}"
    by (simp add: inj_on_def word_unat_eq_iff)
  ultimately show ?thesis by (simp add: card_image)
qed

lemma evict_bounded:
  assumes "distinct (map fst m)"
  shows "groups_bounded (evict n m)"
proof (cases "16 < length m")
  case True
  then obtain k ks where m: "map fst m = k # ks" by (cases m) auto
  define h where "h = fold max ks k"
  let ?m = "filter (\<lambda>(k, _). saturating_sub h 8 \<le> k) m"
  have ev: "evict n m = ?m" by (simp add: evict_def True m h_def Let_def)
  have d: "distinct (map fst ?m)" using assms by (simp add: distinct_map_filter)
  have "fst x \<le> h" if "x \<in> set m" for x
  proof -
    have "fst x \<in> set (k # ks)" using that m by (metis image_eqI list.set_map)
    then show ?thesis unfolding h_def by (intro fold_max_ge) auto
  qed
  then have "set (map fst ?m) \<subseteq> {k. saturating_sub h 8 \<le> k \<and> k \<le> h}" by auto
  then have "card (set (map fst ?m)) \<le> 9" using card_window[of h] by (meson card_mono finite le_trans)
  then have "length ?m \<le> 9" using distinct_card[OF d] by simp
  then show ?thesis using d by (simp add: ev groups_bounded_def)
qed (use assms in \<open>simp add: evict_def groups_bounded_def\<close>)

lemma groups_bounded_step:
  "groups_bounded (od_by_block s) \<Longrightarrow> groups_bounded (od_by_block (opportunity_step clk env s))"
  unfolding opportunity_step_eq Let_def
  by (simp add: evict_bounded groups_bounded_def[of "od_by_block s"] distinct_update)


lemma groups_bounded_run:
  "groups_bounded (od_by_block s) \<Longrightarrow>
   groups_bounded (od_by_block (run_driver (opportunity_step clk) rs s))"
  by (induction "opportunity_step clk" rs s rule: run_driver.induct) (simp_all add: groups_bounded_step)

lemma emit_all_payloads_exact:
  "clock_runs clk \<Longrightarrow> map env_payload (sg_out (emit_all clk src ps stage_init)) = ps"
  using emit_all_numbering[of clk stage_init src ps] by (simp add: stage_init_def)

text \<open>All updates of one block, in the order they arrive.\<close>

lemma run_driver_received:
  "run_driver body (map Received xs @ rs) s = run_driver body rs (fold body xs s)"
  by (induction xs arbitrary: s) simp_all

lemma opportunity_driver_one_block:
  assumes "\<forall>e \<in> set es. su_block_number (env_payload e) = n"
  shows "fold (opportunity_step clk) es od_init =
    \<lparr>od_stage = emit_all clk OpportunityEngine (concat (map (\<lambda>k. found_in (take k es)) [1 ..< Suc (length es)])) stage_init,
     od_by_block = (if es = [] then [] else [(n, es)])\<rparr>"
  using assms
proof (induction es rule: rev_induct)
  case (snoc e es)
  let ?before = "if es = [] then [] else [(n, es)]"
  have "group_of ?before n = es" by (simp add: group_of_def)
  moreover have "AList.update n (es @ [e]) ?before = [(n, es @ [e])]" by simp
  moreover have "map (\<lambda>k. found_in (take k (es @ [e]))) [1 ..< Suc (length (es @ [e]))] =
      map (\<lambda>k. found_in (take k es)) [1 ..< Suc (length es)] @ [found_in (es @ [e])]"
    by (auto simp: le_Suc_eq Suc_le_eq)
  moreover have "evict n [(n, es @ [e])] = [(n, es @ [e])]" by (simp add: evict_def)
  moreover have "su_block_number (env_payload e) = n" using snoc.prems by simp
  moreover have "fold (opportunity_step clk) es od_init =
      \<lparr>od_stage = emit_all clk OpportunityEngine (concat (map (\<lambda>k. found_in (take k es)) [1 ..< Suc (length es)])) stage_init,
       od_by_block = ?before\<rparr>"
    by (rule snoc.IH) (use snoc.prems in simp)
  ultimately show ?case
    by (simp add: opportunity_step_eq[of clk e] Let_def emit_all_append del: upt_Suc AList.update.simps)
qed (simp add: od_init_def)

lemma found_in_pair:
  "check_envelopes (a, b) = Some ev \<Longrightarrow> 2 \<le> k \<Longrightarrow> ev \<in> set (found_in (take k (a # b # es)))"
  by (cases k; cases "k - 1") (auto simp: found_in_def map_filter_simps)

lemma count_list_concat_ge:
  "\<forall>xs \<in> set xss. x \<in> set xs \<Longrightarrow> length xss \<le> count_list (concat xss) x"
proof (induction xss)
  case (Cons xs xss)
  then have "count_list xs x \<noteq> 0" by (simp add: count_list_0_iff)
  with Cons show ?case by simp
qed simp

section \<open>What the opportunity driver promises\<close>

text \<open>Every opportunity the driver publishes is the check of two updates it received, both of the
  same block, whatever it receives in whatever order.\<close>

theorem opportunities_from_one_block:
  assumes "env \<in> set (sg_out (od_stage (run_driver (opportunity_step clk) rs od_init)))"
  shows "\<exists>a b. Received a \<in> set rs \<and> Received b \<in> set rs \<and>
    su_block_number (env_payload a) = su_block_number (env_payload b) \<and>
    check_envelopes (a, b) = Some (env_payload env)"
  using od_ok_from_start[of rs "{e. Received e \<in> set rs}" clk] assms
  by (auto simp: od_ok_def justified_def)

text \<open>The driver keeps the updates of at most 16 blocks, one group per block, after every run.\<close>

theorem opportunity_memory_bounded:
  "length (od_by_block (run_driver (opportunity_step clk) rs od_init)) \<le> 16 \<and>
   distinct (map fst (od_by_block (run_driver (opportunity_step clk) rs od_init)))"
  using groups_bounded_run[of od_init clk rs] by (simp add: groups_bounded_def od_init_def)

text \<open>Every arrival re-checks all pairs of its block: an opportunity between the first two updates of
  a block is published again with each further update of that block.\<close>

theorem opportunity_published_again:
  assumes "clock_runs clk" "check_envelopes (a, b) = Some ev"
    and "\<forall>e \<in> set (a # b # es). su_block_number (env_payload e) = n"
  shows "Suc (length es) \<le> count_list (map env_payload
    (sg_out (od_stage (run_driver (opportunity_step clk) (map Received (a # b # es)) od_init)))) ev"
proof -
  let ?es = "a # b # es"
  have run: "run_driver (opportunity_step clk) (map Received ?es) od_init = fold (opportunity_step clk) ?es od_init"
    using run_driver_received[of "opportunity_step clk" ?es "[]" od_init] by simp
  have "map env_payload (sg_out (od_stage (run_driver (opportunity_step clk) (map Received ?es) od_init)))
      = concat (map (\<lambda>k. found_in (take k ?es)) [1 ..< Suc (length ?es)])"
    unfolding run opportunity_driver_one_block[OF assms(3)]
    using emit_all_payloads_exact[OF assms(1)] by (simp del: upt_Suc)
  also have "\<dots> = found_in (take 1 ?es) @ concat (map (\<lambda>k. found_in (take k ?es)) [2 ..< Suc (length ?es)])"
    by (subst upt_conv_Cons) (simp_all add: numeral_2_eq_2 del: upt_Suc)
  finally have out: "map env_payload (sg_out (od_stage (run_driver (opportunity_step clk) (map Received ?es) od_init)))
      = found_in (take 1 ?es) @ concat (map (\<lambda>k. found_in (take k ?es)) [2 ..< Suc (length ?es)])" .
  have "\<forall>xs \<in> set (map (\<lambda>k. found_in (take k ?es)) [2 ..< Suc (length ?es)]). ev \<in> set xs"
    by (auto intro: found_in_pair[OF assms(2)] simp del: upt_Suc take_Suc_Cons)
  from count_list_concat_ge[OF this] show ?thesis
    unfolding out by (simp del: upt_Suc take_Suc_Cons add: trans_le_add2)
qed


lemma opportunity_without_block:
  assumes "sd_stage s = stage_init"
    and "\<forall>u. Received u \<in> set rs \<longrightarrow>
      u \<in> set (sg_out (sd_stage (run_driver (state_engine_step kv vc en clk) blocks s)))"
    and "env \<in> set (sg_out (od_stage (run_driver (opportunity_step clk') rs od_init)))"
  shows "oo_block_number (env_payload env) = 0 \<and> oo_block_hash (env_payload env) = 0"
proof -
  obtain a b where ab: "Received a \<in> set rs" "check_envelopes (a, b) = Some (env_payload env)"
    using od_ok_from_start[of rs "{e. Received e \<in> set rs}" clk'] assms(3)
    by (auto simp: od_ok_def justified_def)
  have "stage_sealed StateEngine a"
    using state_stage.run_sealed[OF assms(1), of kv vc en clk blocks] assms(2) ab(1) by blast
  then have "env_chain_context a = no_block" by (auto simp: stage_sealed_def meta_of_def)
  with ab(2) show ?thesis
    by (auto simp: check_envelopes_def check_pair_Some_iff event_of_def no_block_def)
qed

text \<open>Opportunities carry no block.  The state driver seals its updates with an empty chain context, and
  the opportunity driver copies the context's block into the event: whatever the node answered, an
  opportunity found on the state driver's updates claims block 0 with hash 0.\<close>

theorem opportunities_lose_their_block:
  assumes "sd_stage s = stage_init"
    and "\<forall>u. Received u \<in> set rs \<longrightarrow>
      u \<in> set (sg_out (sd_stage (run_driver (state_engine_step kv vc en clk) blocks s)))"
    and "env \<in> set (sg_out (od_stage (run_driver (opportunity_step clk') rs od_init)))"
  shows "oo_block_number (env_payload env) = 0 \<and> oo_block_hash (env_payload env) = 0"
  using assms by (rule opportunity_without_block)

lemma producer_payloads:
  "\<forall>env \<in> set (sg_out s). \<exists>m. env_payload env = Mempool m \<Longrightarrow>
   \<forall>env \<in> set (sg_out (producer_loop clk items s)). \<exists>m. env_payload env = Mempool m"
proof (induction items arbitrary: s)
  case (Cons it items)
  have "\<forall>env \<in> set (sg_out (producer_step clk it s)). \<exists>m. env_payload env = Mempool m"
  proof (cases it)
    case (Inr ev)
    show ?thesis
      by (cases rule: emit_cases[of clk Ingress "Mempool ev" s])
        (use Cons.prems in \<open>auto simp: producer_step_def Inr\<close>)
  qed (use Cons.prems in \<open>simp add: producer_step_def\<close>)
  from Cons.IH[OF this] show ?case by (simp add: producer_loop_def)
qed (simp add: producer_loop_def)

text \<open>Nothing starts the pipeline.  The only producer wired into the ingress publishes mempool events,
  and the state driver reacts to block events alone: fed with what the producer publishes, it
  refreshes nothing, stores nothing and emits nothing.\<close>

theorem mempool_never_moves_the_state:
  assumes "\<forall>env. Received env \<in> set rs \<longrightarrow> env \<in> set (sg_out (producer_loop clk items stage_init))"
  shows "run_driver (state_engine_step kv vc en clk') rs s = s"
proof -
  have still: "state_engine_step kv vc en clk' env s = s"
    if "env \<in> set (sg_out (producer_loop clk items stage_init))" for env s
    using producer_payloads[of stage_init clk items] that
    by (auto simp: state_engine_step_def stage_init_def)
  from assms show ?thesis
  proof (induction rs)
    case (Cons r rs)
    then show ?case by (cases r) (simp_all add: still)
  qed simp
qed


section \<open>Draining a channel into a journal\<close>

lemma append_all_drains:
  "append_all cd envs j = (Inr poss, j1) \<Longrightarrow> fold (drain_step cd) envs j = j1"
proof (induction envs arbitrary: j poss)
  case (Cons e es)
  from Cons.prems obtain pos j' poss' where "append cd e j = (Inr pos, j')" "append_all cd es j' = (Inr poss', j1)"
    by (auto split: prod.splits sum.splits)
  with Cons.IH show ?case by (simp add: drain_step_def)
qed simp

lemma drained_reads_back:
  assumes "frame_codec cd" "f_data f = []" "\<forall>e \<in> set envs. envelope_ok e"
    and "list_all2 (\<lambda>e p. cd_to_bytes cd e = Inr p \<and> payload_fits p) envs ps"
    and "8 + length (frames_of cd ps) \<le> f_room f"
    and "journal_open (Inr f) = (Inr j, g)" "stop = RxClosed \<or> stop = RxLagged n"
  shows "(let j2 = journal_drain_loop cd (map Received envs @ stop # rs) j in
     fst (journal_drain cd chunk
       (iter_all (Inr \<lparr>rd_rest = f_data (fst (jn_writer j2)), rd_fault = None\<rparr>) j2)) = map Inr envs)"
proof -
  from journal_append_flush_total[OF assms(1,2,4,5)] assms(6) obtain poss j1 j2 where
    ap: "append_all cd envs j = (Inr poss, j1)" "journal_flush j1 = (Inr (), j2)" by auto
  have "journal_drain_loop cd (map Received envs @ stop # rs) j = j2"
    using assms(7) append_all_drains[OF ap(1)] ap(2)
    by (auto simp: journal_drain_loop_def run_driver_received)
  with journal_written_reads_back(1)[OF assms(1,2,6,3) ap] show ?thesis by (simp add: Let_def)
qed

text \<open>A drain task makes what it received durable: with room for the frames, after the task has seen
  the channel close, or has given up because it lagged, reading its journal back yields exactly the
  envelopes received before that, in order.\<close>

theorem journal_drain_durable:
  assumes "frame_codec cd" "f_data f = []" "\<forall>e \<in> set envs. envelope_ok e"
    and "list_all2 (\<lambda>e p. cd_to_bytes cd e = Inr p \<and> payload_fits p) envs ps"
    and "8 + length (frames_of cd ps) \<le> f_room f"
    and "journal_open (Inr f) = (Inr j, g)" "stop = RxClosed \<or> stop = RxLagged n"
  shows "(let j2 = journal_drain_loop cd (map Received envs @ stop # rs) j in
     fst (journal_drain cd chunk
       (iter_all (Inr \<lparr>rd_rest = f_data (fst (jn_writer j2)), rd_fault = None\<rparr>) j2)) = map Inr envs)"
  by (rule drained_reads_back[OF assms])

section \<open>Examples\<close>

definition demo_update :: "address \<Rightarrow> u256 \<Rightarrow> state_update_event envelope" where
  "demo_update a r = \<lparr>env_sequence = 1, env_timestamp_ns = 1, env_source = StateEngine,
     env_chain_context = no_block, env_event_version = 1, env_correlation_id = 0,
     env_payload = \<lparr>su_block_number = 7, su_block_hash = 9,
       su_pool = \<lparr>pid_kind = UniswapV2, pid_address = a\<rparr>, su_state = UniV2 1000 r 0\<rparr>\<rparr>"

lemma demo_check: "\<exists>ev. check_envelopes (demo_update 1 500, demo_update 2 510) = Some ev"
  by (auto simp: check_envelopes_def demo_update_def check_pair_Some_iff price_nat_def spread_pays_def)

lemma demo_published:
  obtains env where
    "env \<in> set (sg_out (od_stage (run_driver (opportunity_step demo_clock)
       [Received (demo_update 1 500), Received (demo_update 2 510)] od_init)))"
    "check_envelopes (demo_update 1 500, demo_update 2 510) = Some (env_payload env)"
proof -
  obtain ev where ev: "check_envelopes (demo_update 1 500, demo_update 2 510) = Some ev"
    using demo_check by blast
  have n: "\<forall>e \<in> set [demo_update 1 500, demo_update 2 510]. su_block_number (env_payload e) = 7"
    by (simp add: demo_update_def)
  have "map env_payload (sg_out (od_stage (fold (opportunity_step demo_clock)
      [demo_update 1 500, demo_update 2 510] od_init))) = [ev]"
    unfolding opportunity_driver_one_block[OF n]
    by (simp add: emit_all_payloads_exact[OF demo_clock_runs] found_in_def map_filter_simps ev)
  then obtain env where "env_payload env = ev" "env \<in> set (sg_out (od_stage
      (fold (opportunity_step demo_clock) [demo_update 1 500, demo_update 2 510] od_init)))"
    by (auto simp: map_eq_Cons_conv)
  with ev that show thesis by simp
qed

theorem opportunities_from_one_block_witness:
  "\<exists>(env :: opportunity_event envelope) a b. Received a \<in> set [Received (demo_update 1 500), Received (demo_update 2 510)] \<and>
    check_envelopes (a, b) = Some (env_payload env)"
proof -
  obtain env where "env \<in> set (sg_out (od_stage (run_driver (opportunity_step demo_clock)
       [Received (demo_update 1 500), Received (demo_update 2 510)] od_init)))"
    by (rule demo_published)
  from opportunities_from_one_block[OF this] obtain a b where
    "Received a \<in> set [Received (demo_update 1 500), Received (demo_update 2 510)]"
    "check_envelopes (a, b) = Some (env_payload env)" by (elim exE conjE)
  then show ?thesis by blast
qed

theorem opportunity_published_again_witness:
  "\<exists>ev. 3 \<le> count_list (map env_payload (sg_out (od_stage (run_driver (opportunity_step demo_clock)
      (map Received [demo_update 1 500, demo_update 2 510, demo_update 3 500, demo_update 4 500]) od_init)))) ev"
proof -
  obtain ev where "check_envelopes (demo_update 1 500, demo_update 2 510) = Some ev"
    using demo_check by blast
  from opportunity_published_again[OF demo_clock_runs this, of "[demo_update 3 500, demo_update 4 500]" 7]
  show ?thesis by (intro exI[of _ ev]) (simp add: demo_update_def)
qed

text \<open>The groups are by block number alone: after a reorganisation, updates of two blocks of one number and
  different hashes are checked against each other.\<close>

theorem blocks_of_one_number_mix:
  "\<exists>a b ev. su_block_hash (env_payload a) \<noteq> su_block_hash (env_payload b) \<and>
     ev \<in> set (map env_payload
       (sg_out (od_stage (run_driver (opportunity_step demo_clock) [Received a, Received b] od_init))))"
proof -
  let ?b = "(demo_update 2 510)\<lparr>env_payload := (env_payload (demo_update 2 510))\<lparr>su_block_hash := 10\<rparr>\<rparr>"
  obtain ev where "check_envelopes (demo_update 1 500, demo_update 2 510) = Some ev" using demo_check by blast
  then have "check_envelopes (demo_update 1 500, ?b) = Some ev" by (simp add: check_envelopes_def)
  from opportunity_published_again[OF demo_clock_runs this, of "[]" 7]
  have "count_list (map env_payload (sg_out (od_stage (run_driver (opportunity_step demo_clock)
      [Received (demo_update 1 500), Received ?b] od_init)))) ev \<noteq> 0"
    by (simp add: demo_update_def)
  then have "ev \<in> set (map env_payload (sg_out (od_stage (run_driver (opportunity_step demo_clock)
      [Received (demo_update 1 500), Received ?b] od_init))))"
    by (simp only: count_list_0_iff not_not)
  moreover have "su_block_hash (env_payload (demo_update 1 500)) \<noteq> su_block_hash (env_payload ?b)"
    by (simp add: demo_update_def)
  ultimately show ?thesis by blast
qed

definition demo_mempool :: mempool_event where
  "demo_mempool = \<lparr>me_tx_hash = 3, me_from = 1, me_to = Some 2, me_value = 0, me_input = [],
     me_gas_limit = 21000, me_max_fee = 1, me_observed_at_ns = 1\<rparr>"

theorem mempool_never_moves_the_state_witness:
  "\<exists>env. run_driver (state_engine_step map_kv reserve_codec (state_engine_with_caller (\<lambda>req b w. (Inl NodeClosed, w)) []) demo_clock)
     [Received env] \<lparr>sd_stage = stage_init, sd_world = ((), demo_store)\<rparr> =
   \<lparr>sd_stage = stage_init, sd_world = ((), demo_store)\<rparr>"
proof -
  have "map env_payload (sg_out (producer_loop demo_clock [Inr demo_mempool] stage_init)) = [Mempool demo_mempool]"
    using emit_all_payloads_exact[OF demo_clock_runs, of Ingress "[Mempool demo_mempool]"]
    by (simp add: producer_loop_def producer_step_def emit_all_Cons)
  then obtain env where "env \<in> set (sg_out (producer_loop demo_clock [Inr demo_mempool] stage_init))"
    by (auto simp: map_eq_Cons_conv)
  then have "\<forall>e. Received e \<in> set [Received env] \<longrightarrow>
      e \<in> set (sg_out (producer_loop demo_clock [Inr demo_mempool] stage_init))" by simp
  from mempool_never_moves_the_state[OF this] show ?thesis by blast
qed

text \<open>Two pools that answer with different reserves.\<close>

definition demo_v2 :: "address \<Rightarrow> pool_id" where
  "demo_v2 a = \<lparr>pid_kind = UniswapV2, pid_address = a\<rparr>"

definition demo_answers :: "address option \<Rightarrow> bytes" where
  "demo_answers a = u256_to_be 1000 @ u256_to_be (if a = Some 1 then 500 else 510) @ abi_u32 0"

definition two_pools :: "unit state_engine" where
  "two_pools = state_engine_with_caller (\<lambda>req b w. (Inr (demo_answers (cr_to req)), w)) [demo_v2 1, demo_v2 2]"

lemma two_pools_fetch:
  "fetch_state two_pools (demo_v2 a) b w = (Inr (UniV2 1000 (if a = 1 then 500 else 510) 0), w)"
proof -
  have "decode_get_reserves (demo_answers (Some a)) = Inr (UniV2 1000 (if a = 1 then 500 else 510) 0)"
    unfolding decode_get_reserves_iff by (simp add: demo_answers_def)
  then show ?thesis
    by (simp add: fetch_state_def fetch_v2_def two_pools_def state_engine_with_caller_def demo_v2_def call_req_def)
qed

lemma two_pools_refresh:
  "\<exists>w. refresh_block map_kv reserve_codec two_pools 7 9 ((), demo_store) =
     (Inr [event_for 7 9 (demo_v2 1) (UniV2 1000 500 0), event_for 7 9 (demo_v2 2) (UniV2 1000 510 0)], w)"
proof -
  obtain s1 where s1: "save map_kv reserve_codec (snapshot_key 7 1) (UniV2 1000 500 0) demo_store = (Inr (), s1)"
    by (rule save_succeeds[OF map_kv_never_fails]) auto
  obtain s2 where s2: "save map_kv reserve_codec (snapshot_key 7 2) (UniV2 1000 510 0) s1 = (Inr (), s2)"
    by (rule save_succeeds[OF map_kv_never_fails]) auto
  have pools: "se_pools two_pools = [demo_v2 1, demo_v2 2]" "pid_address (demo_v2 a) = a" for a
    by (simp_all add: two_pools_def state_engine_with_caller_def demo_v2_def)
  show ?thesis by (simp add: refresh_block_def pools two_pools_fetch s1 s2)
qed

definition demo_state :: "(unit, bytes \<Rightarrow> bytes option) state_driver" where
  "demo_state = \<lparr>sd_stage = stage_init, sd_world = ((), demo_store)\<rparr>"

definition demo_block :: block_event where
  "demo_block = \<lparr>be_block_number = 7, be_block_hash = 9, be_parent_hash = 8, be_timestamp_ns = 1\<rparr>"

lemma two_pools_updates:
  obtains env u v where "env_payload env = Block demo_block"
    "sg_out (sd_stage (run_driver (state_engine_step map_kv reserve_codec two_pools demo_clock) [Received env] demo_state)) = [u, v]"
    "env_payload u = event_for 7 9 (demo_v2 1) (UniV2 1000 500 0)"
    "env_payload v = event_for 7 9 (demo_v2 2) (UniV2 1000 510 0)"
proof -
  define env where "env = \<lparr>env_sequence = 1, env_timestamp_ns = 1, env_source = Ingress,
     env_chain_context = \<lparr>chain_id = 1, block_number = 7, block_hash = 9\<rparr>, env_event_version = 1,
     env_correlation_id = 0, env_payload = Block demo_block\<rparr>"
  obtain w where w: "refresh_block map_kv reserve_codec two_pools 7 9 ((), demo_store) =
     (Inr [event_for 7 9 (demo_v2 1) (UniV2 1000 500 0), event_for 7 9 (demo_v2 2) (UniV2 1000 510 0)], w)"
    using two_pools_refresh by blast
  have "map env_payload (sg_out (sd_stage (run_driver (state_engine_step map_kv reserve_codec two_pools demo_clock) [Received env] demo_state)))
      = [event_for 7 9 (demo_v2 1) (UniV2 1000 500 0), event_for 7 9 (demo_v2 2) (UniV2 1000 510 0)]"
    using w by (simp add: state_engine_step_def env_def demo_block_def demo_state_def emit_all_payloads_exact[OF demo_clock_runs])
  then obtain u v where "sg_out (sd_stage (run_driver (state_engine_step map_kv reserve_codec two_pools demo_clock) [Received env] demo_state)) = [u, v]"
    "env_payload u = event_for 7 9 (demo_v2 1) (UniV2 1000 500 0)"
    "env_payload v = event_for 7 9 (demo_v2 2) (UniV2 1000 510 0)"
    by (auto simp: map_eq_Cons_conv)
  then show thesis by (intro that[of env]) (simp_all add: env_def)
qed

theorem opportunities_lose_their_block_witness:
  "\<exists>blocks rs env u.
     env_payload blocks = Block demo_block \<and>
     sg_out (sd_stage (run_driver (state_engine_step map_kv reserve_codec two_pools demo_clock) [Received blocks] demo_state)) = u \<and>
     env \<in> set (sg_out (od_stage (run_driver (opportunity_step demo_clock) (map Received u) od_init))) \<and>
     oo_block_number (env_payload env) = 0"
proof -
  obtain blocks u v where uv: "env_payload blocks = Block demo_block"
    "sg_out (sd_stage (run_driver (state_engine_step map_kv reserve_codec two_pools demo_clock) [Received blocks] demo_state)) = [u, v]"
    "env_payload u = event_for 7 9 (demo_v2 1) (UniV2 1000 500 0)"
    "env_payload v = event_for 7 9 (demo_v2 2) (UniV2 1000 510 0)" by (rule two_pools_updates)
  have same: "\<forall>e \<in> set [u, v]. su_block_number (env_payload e) = 7" by (simp add: uv(3,4) event_for_def)
  have "\<exists>ev. check_envelopes (u, v) = Some ev"
    by (auto simp: check_envelopes_def uv(3,4) event_for_def demo_v2_def check_pair_Some_iff
        price_nat_def spread_pays_def)
  then obtain ev where ev: "check_envelopes (u, v) = Some ev" by blast
  have "map env_payload (sg_out (od_stage (run_driver (opportunity_step demo_clock) (map Received [u, v]) od_init))) = [ev]"
    using opportunity_driver_one_block[OF same, of demo_clock]
    by (simp add: emit_all_payloads_exact[OF demo_clock_runs] found_in_def map_filter_simps ev)
  then obtain env where env: "env \<in> set (sg_out (od_stage (run_driver (opportunity_step demo_clock) (map Received [u, v]) od_init)))"
    by (auto simp: map_eq_Cons_conv)
  have st: "sd_stage demo_state = stage_init" by (simp add: demo_state_def)
  have "oo_block_number (env_payload env) = 0"
    using opportunities_lose_their_block[OF st _ env, of map_kv reserve_codec two_pools demo_clock "[Received blocks]"] uv(2)
    by auto
  with uv(1,2) env show ?thesis by blast
qed

theorem journal_drain_durable_witness:
  "\<exists>j. (let j2 = journal_drain_loop smoke_codec [Received demo_envelope, RxLagged 2, Received demo_envelope] j in
     fst (journal_drain smoke_codec id
       (iter_all (Inr \<lparr>rd_rest = f_data (fst (jn_writer j2)), rd_fault = None\<rparr>) j2)) = map Inr [demo_envelope])"
proof -
  obtain p where p: "cd_to_bytes smoke_codec demo_envelope = Inr p" "length p = 121" "payload_fits p"
    by (rule demo_frame)
  let ?f = "\<lparr>f_data = [], f_room = 1000\<rparr>"
  have ps: "list_all2 (\<lambda>e p. cd_to_bytes smoke_codec e = Inr p \<and> payload_fits p) [demo_envelope] [p]"
    using p by simp
  from journal_append_flush_total[OF smoke.frame_codec_axioms _ ps, of ?f] p
  obtain j g where "journal_open (Inr ?f) = (Inr j, g)" by auto
  from journal_drain_durable[OF smoke.frame_codec_axioms _ _ ps _ this, of "RxLagged 2" 2 "[Received demo_envelope]" id] p
  show ?thesis by (intro exI[of _ j]) (simp add: Let_def)
qed

end
