(* ===== verification/Swap_Calldata.thy ===== *)
theory Swap_Calldata
  imports Sim_Types State_Fetcher
begin

text \<open>
  What the local simulator sends to the mock router: the Uniswap V2 amount formula and the ABI
  encodings (\<open>crates/simulator/src/swap_calldata.rs\<close>), the packed reserves of a recorded V2 pool and
  the router's calldata (\<open>crates/simulator/src/lib.rs\<close>).  An \<open>I256\<close> is its 256-bit word.  A result
  \<open>None\<close> is a panic of the code where the text says so.
\<close>

section \<open>Amounts\<close>

text \<open>\<open>None\<close>: one of the \<open>expect\<close>s, or the division by zero.\<close>

definition uniswap_v2_get_amount_out :: "u256 \<Rightarrow> u256 \<Rightarrow> u256 \<Rightarrow> u256 option" where
  "uniswap_v2_get_amount_out amount_in reserve_in reserve_out =
     Option.bind (checked_mul amount_in 997) (\<lambda>amount_in_with_fee.
     Option.bind (checked_mul amount_in_with_fee reserve_out) (\<lambda>numerator.
     Option.bind (checked_mul reserve_in 1000) (\<lambda>scaled.
     Option.bind (checked_add scaled amount_in_with_fee) (\<lambda>denominator.
     checked_div numerator denominator))))"

definition min_sqrt_ratio_plus_one :: u256 where "min_sqrt_ratio_plus_one = ucast MIN_SQRT_RATIO_PLUS_ONE"

definition max_sqrt_ratio_minus_one :: u256 where
  "max_sqrt_ratio_minus_one = u256_from_be MAX_SQRT_RATIO_MINUS_ONE_BYTES"

section \<open>ABI encodings\<close>

definition SELECTOR_V2_SWAP :: bytes where "SELECTOR_V2_SWAP = [0x02, 0x2c, 0x0d, 0x9f]"
definition SELECTOR_V3_SWAP :: bytes where "SELECTOR_V3_SWAP = [0x12, 0x8a, 0xcb, 0x08]"
definition SELECTOR_V3_CALLBACK :: bytes where "SELECTOR_V3_CALLBACK = [0xfa, 0x46, 0x1e, 0x33]"
definition SELECTOR_EXEC_V3_SWAP :: bytes where "SELECTOR_EXEC_V3_SWAP = [0x4a, 0x52, 0x0a, 0xf2]"
definition SELECTOR_EXEC_V2_SWAP :: bytes where "SELECTOR_EXEC_V2_SWAP = [0xcc, 0x5b, 0xcf, 0x23]"
definition MOCK_ROUTER_ADDRESS :: address where
  "MOCK_ROUTER_ADDRESS = address_from_be (replicate 20 0x33)"

definition write_address_padded :: "address \<Rightarrow> bytes" where
  "write_address_padded a = replicate 12 0 @ address_to_be a"

definition bool_word :: "bool \<Rightarrow> bytes" where
  "bool_word b = (replicate 32 0)[31 := (if b then 1 else 0)]"

text \<open>The tail of a dynamic argument: its length, its bytes, padding to a multiple of 32.\<close>

definition write_data :: "bytes \<Rightarrow> bytes" where
  "write_data bs = u256_to_be (word_of_nat (length bs)) @ bs
     @ replicate ((32 - length bs mod 32) mod 32) 0"

definition univ2_swap_calldata :: "u256 \<Rightarrow> u256 \<Rightarrow> address \<Rightarrow> bytes \<Rightarrow> bytes" where
  "univ2_swap_calldata amount0_out amount1_out recipient bs =
     SELECTOR_V2_SWAP @ u256_to_be amount0_out @ u256_to_be amount1_out @ write_address_padded recipient
     @ u256_to_be 0x80 @ write_data bs"

definition univ3_swap_calldata :: "address \<Rightarrow> bool \<Rightarrow> u256 \<Rightarrow> u256 \<Rightarrow> bytes \<Rightarrow> bytes" where
  "univ3_swap_calldata recipient zero_for_one amount_specified sqrt_price_limit_x96 bs =
     SELECTOR_V3_SWAP @ write_address_padded recipient @ bool_word zero_for_one
     @ u256_to_be amount_specified @ u256_to_be sqrt_price_limit_x96 @ u256_to_be 0xa0 @ write_data bs"

definition build_exec_v2_swap_calldata :: "address \<Rightarrow> address \<Rightarrow> u256 \<Rightarrow> u256 \<Rightarrow> u256 \<Rightarrow> bytes" where
  "build_exec_v2_swap_calldata pool input_token amount_in amount0_out amount1_out =
     SELECTOR_EXEC_V2_SWAP @ write_address_padded pool @ write_address_padded input_token
     @ u256_to_be amount_in @ u256_to_be amount0_out @ u256_to_be amount1_out"

definition build_exec_v3_swap_calldata :: "address \<Rightarrow> bool \<Rightarrow> u256 \<Rightarrow> u256 \<Rightarrow> address \<Rightarrow> bytes" where
  "build_exec_v3_swap_calldata pool zero_for_one amount_specified sqrt_price_limit_x96 input_token =
     SELECTOR_EXEC_V3_SWAP @ write_address_padded pool @ bool_word zero_for_one
     @ u256_to_be amount_specified @ u256_to_be sqrt_price_limit_x96 @ write_address_padded input_token"

section \<open>The packed reserves of a V2 pool\<close>

definition V2_RESERVES_SLOT :: u256 where "V2_RESERVES_SLOT = 8"

fun is_v2 :: "pool_kind \<Rightarrow> bool" where
  "is_v2 UniswapV2 = True"
| "is_v2 SushiswapV2 = True"
| "is_v2 UniswapV3Fee005 = False"

definition v2_block_timestamp_last :: "fetched_pool_state \<Rightarrow> u32 option" where
  "v2_block_timestamp_last st =
     (if \<not> is_v2 (pid_kind (fp_pool st)) then None
      else map_option (\<lambda>v. word_of_nat (be_to_nat (take 4 (u256_to_be v))))
        (slot_value V2_RESERVES_SLOT (fp_pool_storage st)))"

definition decode_v2_reserves :: "fetched_pool_state \<Rightarrow> (u256 \<times> u256) option" where
  "decode_v2_reserves st =
     map_option (\<lambda>v.
         (u256_from_be (replicate 18 0 @ drop 18 (u256_to_be v)),
          u256_from_be (replicate 18 0 @ take 14 (drop 4 (u256_to_be v)))))
       (slot_value V2_RESERVES_SLOT (fp_pool_storage st))"

section \<open>The router calls\<close>

text \<open>The messages of \<open>SimulationError::Setup\<close>, one constructor per format string.\<close>

datatype setup_error =
    ZeroChainId
  | ZeroGasLimit
  | ZeroEoaBalance
  | FixtureHashDiffers string b256 b256
  | ImplSlotZero
  | NoFixturesLoaded
  | FixtureBlockHash b256 b256
  | LoadedSource pool_id pool_id
  | LoadedSink pool_id pool_id
  | ReservesNotInFixture address
  | ExceedsI256 string
  | PoolHashMismatch b256 b256
  | AuxHashMismatch address b256 b256
  | InsertPoolStorage
  | InsertAccountStorage
  | WethSlotNotPopulated u256 address
  | WethSnapshotDiffers u256 u256

datatype simulation_error =
    SimSetup setup_error
  | SimExecution string
  | SimFetch fetch_error

definition i256_try_from :: "u256 \<Rightarrow> u256 option" where
  "i256_try_from v = (if bit v 255 then None else Some v)"

definition build_router_calldata_sell_weth ::
  "fetched_pool_state \<Rightarrow> u256 \<Rightarrow> address \<Rightarrow> (simulation_error + bytes) option" where
  "build_router_calldata_sell_weth pool weth_in weth_address =
     (if is_v2 (pid_kind (fp_pool pool)) then
        (case decode_v2_reserves pool of
           None \<Rightarrow> Some (Inl (SimSetup (ReservesNotInFixture (pid_address (fp_pool pool)))))
         | Some (reserve0_usdc, reserve1_weth) \<Rightarrow>
             map_option (\<lambda>usdc_out. Inr (build_exec_v2_swap_calldata (pid_address (fp_pool pool))
                 weth_address weth_in usdc_out 0))
               (uniswap_v2_get_amount_out weth_in reserve1_weth reserve0_usdc))
      else Some (case i256_try_from weth_in of
           None \<Rightarrow> Inl (SimSetup (ExceedsI256 ''weth_in''))
         | Some amount_specified \<Rightarrow>
             Inr (build_exec_v3_swap_calldata (pid_address (fp_pool pool)) False amount_specified
               max_sqrt_ratio_minus_one weth_address)))"

definition build_router_calldata_buy_weth ::
  "fetched_pool_state \<Rightarrow> u256 \<Rightarrow> address \<Rightarrow> (simulation_error + bytes) option" where
  "build_router_calldata_buy_weth pool usdc_in usdc_address =
     (if is_v2 (pid_kind (fp_pool pool)) then
        (case decode_v2_reserves pool of
           None \<Rightarrow> Some (Inl (SimSetup (ReservesNotInFixture (pid_address (fp_pool pool)))))
         | Some (reserve0_usdc, reserve1_weth) \<Rightarrow>
             map_option (\<lambda>weth_out. Inr (build_exec_v2_swap_calldata (pid_address (fp_pool pool))
                 usdc_address usdc_in 0 weth_out))
               (uniswap_v2_get_amount_out usdc_in reserve0_usdc reserve1_weth))
      else Some (case i256_try_from usdc_in of
           None \<Rightarrow> Inl (SimSetup (ExceedsI256 ''usdc_in''))
         | Some amount_specified \<Rightarrow>
             Inr (build_exec_v3_swap_calldata (pid_address (fp_pool pool)) True amount_specified
               min_sqrt_ratio_plus_one usdc_address)))"

section \<open>The amount formula is the pair's own limit\<close>

text \<open>The check of \<open>UniswapV2Pair.swap\<close> over the integers: the product of the balances, the fee of three
  per mille deducted from the input, does not fall.\<close>

definition pair_accepts :: "nat \<Rightarrow> nat \<Rightarrow> nat \<Rightarrow> nat \<Rightarrow> bool" where
  "pair_accepts reserve_in reserve_out amount_in out \<longleftrightarrow> out \<le> reserve_out \<and>
     reserve_in * reserve_out * 1000 ^ 2
       \<le> ((reserve_in + amount_in) * 1000 - 3 * amount_in) * ((reserve_out - out) * 1000)"

lemma pair_accepts_iff:
  assumes "0 < ri * 1000 + a * 997"
  shows "pair_accepts ri ro a x \<longleftrightarrow> x \<le> a * 997 * ro div (ri * 1000 + a * 997)"
proof (cases "x \<le> ro")
  case True
  let ?d = "ri * 1000 + a * 997"
  obtain k where ro: "ro = x + k" using True le_iff_add by blast
  have d: "(ri + a) * 1000 - 3 * a = ?d" by simp
  have "pair_accepts ri ro a x \<longleftrightarrow> ri * ro * 1000 * 1000 \<le> ?d * k * 1000"
    unfolding pair_accepts_def d using True by (simp add: ro power2_eq_square algebra_simps)
  also have "\<dots> \<longleftrightarrow> ri * ro * 1000 \<le> ?d * k" by (simp only: mult_le_cancel2) simp
  also have "\<dots> \<longleftrightarrow> x * ?d \<le> a * 997 * ro" by (simp add: ro algebra_simps)
  also have "\<dots> \<longleftrightarrow> x \<le> a * 997 * ro div ?d" using assms by (simp add: less_eq_div_iff_mult_less_eq)
  finally show ?thesis .
next
  case False
  have "a * 997 * ro \<le> (ri * 1000 + a * 997) * ro" by (simp add: algebra_simps)
  then have "a * 997 * ro div (ri * 1000 + a * 997) \<le> (ri * 1000 + a * 997) * ro div (ri * 1000 + a * 997)"
    by (rule div_le_mono)
  also have "\<dots> = ro" using assms by simp
  finally have "a * 997 * ro div (ri * 1000 + a * 997) \<le> ro" .
  with False show ?thesis by (simp add: pair_accepts_def)
qed

definition amount_out_panics :: "nat \<Rightarrow> nat \<Rightarrow> nat \<Rightarrow> bool" where
  "amount_out_panics a ri ro \<longleftrightarrow> 2 ^ 256 \<le> a * 997 \<or> 2 ^ 256 \<le> a * 997 * ro
     \<or> 2 ^ 256 \<le> ri * 1000 + a * 997 \<or> ri = 0 \<and> a = 0"

lemma amount_out_Some:
  assumes "\<not> amount_out_panics (unat a) (unat ri) (unat ro)"
  obtains out where "uniswap_v2_get_amount_out a ri ro = Some out"
    and "unat out = unat a * 997 * unat ro div (unat ri * 1000 + unat a * 997)"
proof -
  have b: "unat a * 997 < 2 ^ 256" "unat a * 997 * unat ro < 2 ^ 256" "unat ri * 1000 + unat a * 997 < 2 ^ 256"
    using assms by (simp_all add: amount_out_panics_def)
  have k: "unat (997 :: u256) = 997" "unat (1000 :: u256) = 1000" by simp_all
  have m1: "checked_mul a 997 = Some (a * 997)" and u1: "unat (a * 997) = unat a * 997"
    using b(1) by (simp_all add: checked_mul_def unat_mult_small)
  have m2: "checked_mul (a * 997) ro = Some (a * 997 * ro)" and u2: "unat (a * 997 * ro) = unat a * 997 * unat ro"
    using b(2) by (simp_all add: checked_mul_def unat_mult_small u1)
  have m3: "checked_mul ri 1000 = Some (ri * 1000)" and u3: "unat (ri * 1000) = unat ri * 1000"
    using b(3) by (simp_all add: checked_mul_def unat_mult_small)
  have m4: "checked_add (ri * 1000) (a * 997) = Some (ri * 1000 + a * 997)"
    and u4: "unat (ri * 1000 + a * 997) = unat ri * 1000 + unat a * 997"
    using b(3) by (simp_all add: checked_add_def unat_add_small u1 u3)
  have nz: "ri * 1000 + a * 997 \<noteq> 0"
  proof
    assume "ri * 1000 + a * 997 = 0"
    then have "unat (ri * 1000 + a * 997) = 0" by simp
    then have "unat ri = 0" "unat a = 0" unfolding u4 by simp_all
    then show False using assms by (simp add: amount_out_panics_def)
  qed
  show thesis
  proof (rule that)
    show "uniswap_v2_get_amount_out a ri ro = Some (a * 997 * ro div (ri * 1000 + a * 997))"
      by (simp add: uniswap_v2_get_amount_out_def m1 m2 m3 m4 checked_div_def nz)
    show "unat (a * 997 * ro div (ri * 1000 + a * 997))
        = unat a * 997 * unat ro div (unat ri * 1000 + unat a * 997)"
      by (simp add: unat_div_distrib u2 u4)
  qed
qed

lemma amount_out_None:
  assumes "amount_out_panics (unat a) (unat ri) (unat ro)"
  shows "uniswap_v2_get_amount_out a ri ro = None"
proof (rule ccontr)
  assume "uniswap_v2_get_amount_out a ri ro \<noteq> None"
  then obtain p n d e where m: "checked_mul a 997 = Some p" "checked_mul p ro = Some n"
      "checked_mul ri 1000 = Some d" "checked_add d p = Some e" "e \<noteq> 0"
    by (auto simp: uniswap_v2_get_amount_out_def checked_div_def bind_eq_Some_conv split: if_splits)
  have k: "unat (997 :: u256) = 997" "unat (1000 :: u256) = 1000" by simp_all
  have u: "unat p = unat a * 997" "unat n = unat p * unat ro" "unat d = unat ri * 1000" "unat e = unat d + unat p"
    using m(1-4) by (simp_all add: checked_mul_SomeD checked_add_SomeD)
  have "unat e \<noteq> 0" using m(5) by (simp add: unat_eq_0)
  with u assms unat_lt_exp[of p] unat_lt_exp[of n] unat_lt_exp[of e] show False
    by (auto simp: amount_out_panics_def)
qed

text \<open>The amount the simulator asks a V2 pool for is the floor of the fee-adjusted formula, and that is
  exactly the largest amount the pool's own check accepts: one unit more and the swap would revert,
  any less leaves value behind.  The function panics exactly when a product or the denominator
  leaves 256 bits or both the reserve and the amount are zero.\<close>

theorem v2_amount_out_exact:
  "case uniswap_v2_get_amount_out a ri ro of
     None \<Rightarrow> amount_out_panics (unat a) (unat ri) (unat ro)
   | Some out \<Rightarrow> \<not> amount_out_panics (unat a) (unat ri) (unat ro) \<and>
       unat out = unat a * 997 * unat ro div (unat ri * 1000 + unat a * 997) \<and>
       (\<forall>x. pair_accepts (unat ri) (unat ro) (unat a) x \<longleftrightarrow> x \<le> unat out)"
proof (cases "amount_out_panics (unat a) (unat ri) (unat ro)")
  case False
  then obtain out where out: "uniswap_v2_get_amount_out a ri ro = Some out"
      "unat out = unat a * 997 * unat ro div (unat ri * 1000 + unat a * 997)"
    by (rule amount_out_Some)
  have "0 < unat ri * 1000 + unat a * 997" using False by (auto simp: amount_out_panics_def)
  from pair_accepts_iff[OF this] out False show ?thesis by simp
qed (simp add: amount_out_None)

section \<open>The packed reserves\<close>

lemma split_be_word:
  fixes v :: u256
  defines "bs \<equiv> u256_to_be v"
  shows "unat v = be_to_nat (take 4 bs) * 2 ^ 224 + be_to_nat (take 14 (drop 4 bs)) * 2 ^ 112
      + be_to_nat (drop 18 bs)"
    and "be_to_nat (take 4 bs) < 2 ^ 32" "be_to_nat (take 14 (drop 4 bs)) < 2 ^ 112"
      "be_to_nat (drop 18 bs) < 2 ^ 112"
proof -
  have l: "length bs = 32" by (simp add: bs_def)
  have "drop 4 bs = take 14 (drop 4 bs) @ drop 18 bs"
    using append_take_drop_id[of 14 "drop 4 bs"] by simp
  then have bs: "bs = take 4 bs @ (take 14 (drop 4 bs) @ drop 18 bs)"
    using append_take_drop_id[of 4 bs] by simp
  have "be_to_nat bs = be_to_nat (take 4 bs) * 256 ^ 28 + (be_to_nat (take 14 (drop 4 bs)) * 256 ^ 14
      + be_to_nat (drop 18 bs))"
    by (subst bs, subst be_to_nat_append, subst be_to_nat_append) (simp add: l)
  then show "unat v = be_to_nat (take 4 bs) * 2 ^ 224 + be_to_nat (take 14 (drop 4 bs)) * 2 ^ 112
      + be_to_nat (drop 18 bs)"
    by (simp add: bs_def be_to_nat_u256_to_be)
  show "be_to_nat (take 4 bs) < 2 ^ 32" "be_to_nat (take 14 (drop 4 bs)) < 2 ^ 112"
      "be_to_nat (drop 18 bs) < 2 ^ 112"
    using be_to_nat_bound[of "take 4 bs"] be_to_nat_bound[of "take 14 (drop 4 bs)"]
      be_to_nat_bound[of "drop 18 bs"] l by simp_all
qed

lemma radix_unique:
  fixes m :: nat
  assumes "p * m + x = p' * m + x'" "x < m" "x' < m"
  shows "p = p' \<and> x = x'"
proof -
  have "x = x'" using arg_cong[OF assms(1), of "\<lambda>z. z mod m"] assms(2,3) by simp
  with assms show ?thesis by simp
qed

lemma mixed_radix:
  fixes t t' y y' x x' :: nat
  assumes "t * 2 ^ 224 + y * 2 ^ 112 + x = t' * 2 ^ 224 + y' * 2 ^ 112 + x'"
    and "y < 2 ^ 112" "y' < 2 ^ 112" "x < 2 ^ 112" "x' < 2 ^ 112"
  shows "t = t' \<and> y = y' \<and> x = x'"
proof -
  have e: "(t * 2 ^ 112 + y) * 2 ^ 112 + x = (t' * 2 ^ 112 + y') * 2 ^ 112 + x'"
    using assms(1) by (simp add: algebra_simps)
  from radix_unique[OF e assms(4,5)] have "t * 2 ^ 112 + y = t' * 2 ^ 112 + y'" and x: "x = x'" by simp_all
  from radix_unique[OF this(1) assms(2,3)] x show ?thesis by simp
qed

lemma unat_padded_be:
  "length bs \<le> 14 \<Longrightarrow> unat (u256_from_be (replicate 18 0 @ bs)) = be_to_nat bs"
proof -
  assume "length bs \<le> 14"
  then have "be_to_nat bs < 256 ^ 14"
    using be_to_nat_bound[of bs] power_increasing[of "length bs" 14 "256::nat"] by linarith
  moreover have "be_to_nat (replicate 18 0 @ bs) = be_to_nat bs"
    by (simp add: be_to_nat_append be_to_nat_replicate_0)
  ultimately show ?thesis by (simp add: u256_from_be_def unsigned_of_nat take_bit_nat_eq_self)
qed

text \<open>The reserves and the time stamp of a recorded pool are read back exactly as the pair packs them
  into its slot 8: the time stamp above the second reserve above the first.\<close>

theorem v2_reserves_exact:
  "decode_v2_reserves st = Some (r0, r1) \<and> v2_block_timestamp_last st = Some t \<longleftrightarrow>
   is_v2 (pid_kind (fp_pool st)) \<and> unat r0 < 2 ^ 112 \<and> unat r1 < 2 ^ 112 \<and>
   (\<exists>v. slot_value V2_RESERVES_SLOT (fp_pool_storage st) = Some v \<and>
      unat v = unat t * 2 ^ 224 + unat r1 * 2 ^ 112 + unat r0)"
proof (cases "slot_value V2_RESERVES_SLOT (fp_pool_storage st)")
  case (Some v)
  let ?bs = "u256_to_be v"
  let ?t = "word_of_nat (be_to_nat (take 4 ?bs)) :: u32"
  let ?r1 = "u256_from_be (replicate 18 0 @ take 14 (drop 4 ?bs))"
  let ?r0 = "u256_from_be (replicate 18 0 @ drop 18 ?bs)"
  have u: "unat ?r1 = be_to_nat (take 14 (drop 4 ?bs))" "unat ?r0 = be_to_nat (drop 18 ?bs)"
    by (simp_all add: unat_padded_be)
  have ut: "unat ?t = be_to_nat (take 4 ?bs)"
    using split_be_word(2)[of v] by (simp add: unsigned_of_nat take_bit_nat_eq_self)
  have v: "unat v = unat ?t * 2 ^ 224 + unat ?r1 * 2 ^ 112 + unat ?r0"
    unfolding u ut by (rule split_be_word(1))
  have b: "unat ?r1 < 2 ^ 112" "unat ?r0 < 2 ^ 112" unfolding u by (rule split_be_word)+
  have "?r0 = r0 \<and> ?r1 = r1 \<and> ?t = t \<longleftrightarrow> unat r0 < 2 ^ 112 \<and> unat r1 < 2 ^ 112 \<and>
      unat v = unat t * 2 ^ 224 + unat r1 * 2 ^ 112 + unat r0"
  proof
    assume r: "unat r0 < 2 ^ 112 \<and> unat r1 < 2 ^ 112 \<and>
      unat v = unat t * 2 ^ 224 + unat r1 * 2 ^ 112 + unat r0"
    with v b mixed_radix[of "unat ?t" "unat ?r1" "unat ?r0" "unat t" "unat r1" "unat r0"]
    show "?r0 = r0 \<and> ?r1 = r1 \<and> ?t = t" by (simp add: word_unat_eq_iff)
  qed (use v b in auto)
  then show ?thesis using Some by (auto simp: decode_v2_reserves_def v2_block_timestamp_last_def)
qed (simp add: decode_v2_reserves_def)

section \<open>What the router reads from a call\<close>

definition call_word :: "nat \<Rightarrow> bytes \<Rightarrow> u256" where
  "call_word k bs = u256_from_be (take 32 (drop (4 + 32 * k) bs))"

lemma call_word_last [simp]: "length s = 4 \<Longrightarrow> length w = 32 \<Longrightarrow> call_word 0 (s @ w) = u256_from_be w"
  by (simp add: call_word_def)

lemma call_word_0 [simp]:
  "length s = 4 \<Longrightarrow> length w = 32 \<Longrightarrow> call_word 0 (s @ w @ bs) = u256_from_be w"
  by (simp add: call_word_def)

lemma call_word_Suc [simp]:
  "length s = 4 \<Longrightarrow> length w = 32 \<Longrightarrow> call_word (Suc k) (s @ w @ bs) = call_word k (s @ bs)"
  by (simp add: call_word_def)

lemma length_padded_address [simp]: "length (write_address_padded a) = 32"
  by (simp add: write_address_padded_def)

lemma padded_address [simp]: "u256_from_be (write_address_padded a) = ucast a"
proof -
  have "be_to_nat (write_address_padded a) = unat a"
    using unat_lt_exp[of a]
    by (simp add: write_address_padded_def be_to_nat_append be_to_nat_replicate_0 address_to_be_def
      be_to_nat_nat_to_be)
  then show ?thesis by (simp add: u256_from_be_def)
qed

lemma bool_word_eq: "bool_word b = replicate 31 0 @ [if b then 1 else 0]"
proof -
  have "replicate 32 (0::u8) = replicate 31 0 @ [0]" by (simp add: numeral_eq_Suc)
  then show ?thesis by (simp add: bool_word_def list_update_append)
qed

lemma bool_word_value [simp]: "length (bool_word b) = 32" "u256_from_be (bool_word b) = (if b then 1 else 0)"
  by (simp_all add: bool_word_eq u256_from_be_def be_to_nat_append be_to_nat_replicate_0 be_to_nat_single)

lemma selector_lengths [simp]: "length SELECTOR_EXEC_V2_SWAP = 4" "length SELECTOR_EXEC_V3_SWAP = 4"
  by (simp_all add: SELECTOR_EXEC_V2_SWAP_def SELECTOR_EXEC_V3_SWAP_def)

lemma v2_call_words:
  "map (\<lambda>k. call_word k (build_exec_v2_swap_calldata p tok a x y)) [0, 1, 2, 3, 4]
     = [ucast p, ucast tok, a, x, y]"
  by (simp add: build_exec_v2_swap_calldata_def numeral_eq_Suc)

lemma v3_call_words:
  "map (\<lambda>k. call_word k (build_exec_v3_swap_calldata p z a lim tok)) [0, 1, 2, 3, 4]
     = [ucast p, if z then 1 else 0, a, lim, ucast tok]"
  by (simp add: build_exec_v3_swap_calldata_def numeral_eq_Suc)

text \<open>Both ABI encodings of a direct pool call are a selector and whole words.\<close>

lemma write_data_words: "32 dvd length (write_data bs)"
proof -
  have pad: "m dvd n + (m - n mod m) mod m" if "0 < m" for n m :: nat
  proof -
    have "n mod m < m" using that by simp
    then have "n mod m + (m - n mod m) = m" by linarith
    then have "(n mod m + (m - n mod m)) mod m = 0" by simp
    then have "(n + (m - n mod m) mod m) mod m = 0" by (simp only: mod_add_left_eq mod_add_right_eq)
    then show ?thesis by (simp only: dvd_eq_mod_eq_0)
  qed
  have "32 dvd length bs + (32 - length bs mod 32) mod 32" by (rule pad) simp
  then have "32 dvd 32 + (length bs + (32 - length bs mod 32) mod 32)" by (rule dvd_add[OF dvd_refl])
  then show ?thesis by (simp only: write_data_def length_append length_u256_to_be length_replicate)
qed

lemma pool_calls_words:
  "32 dvd length (univ2_swap_calldata x y r bs) - 4" "32 dvd length (univ3_swap_calldata r z a lim bs) - 4"
  using write_data_words[of bs]
  by (simp_all add: univ2_swap_calldata_def univ3_swap_calldata_def SELECTOR_V2_SWAP_def SELECTOR_V3_SWAP_def
    dvd_add_right_iff)

text \<open>What the two hops ask of a V2 pool.  A call that is built names the pool, the token paid and the
  amount in, asks nothing of the token paid, and asks of the other token exactly the largest amount
  the pool's check accepts at the recorded reserves.\<close>

theorem v2_hops_ask_the_limit:
  assumes "is_v2 (pid_kind (fp_pool pool))" "decode_v2_reserves pool = Some (r0, r1)"
    and "build_router_calldata_sell_weth pool weth_in weth_address = Some (Inr sell)"
    and "build_router_calldata_buy_weth pool usdc_in usdc_address = Some (Inr buy)"
  shows "\<exists>usdc_out weth_out.
    map (\<lambda>k. call_word k sell) [0, 1, 2, 3, 4]
      = [ucast (pid_address (fp_pool pool)), ucast weth_address, weth_in, usdc_out, 0] \<and>
    (\<forall>x. pair_accepts (unat r1) (unat r0) (unat weth_in) x \<longleftrightarrow> x \<le> unat usdc_out) \<and>
    map (\<lambda>k. call_word k buy) [0, 1, 2, 3, 4]
      = [ucast (pid_address (fp_pool pool)), ucast usdc_address, usdc_in, 0, weth_out] \<and>
    (\<forall>x. pair_accepts (unat r0) (unat r1) (unat usdc_in) x \<longleftrightarrow> x \<le> unat weth_out)"
proof -
  from assms obtain u w where u: "uniswap_v2_get_amount_out weth_in r1 r0 = Some u"
      "sell = build_exec_v2_swap_calldata (pid_address (fp_pool pool)) weth_address weth_in u 0"
    and w: "uniswap_v2_get_amount_out usdc_in r0 r1 = Some w"
      "buy = build_exec_v2_swap_calldata (pid_address (fp_pool pool)) usdc_address usdc_in 0 w"
    by (auto simp: build_router_calldata_sell_weth_def build_router_calldata_buy_weth_def)
  have limit: "pair_accepts (unat ri) (unat ro) (unat a) x \<longleftrightarrow> x \<le> unat out"
    if "uniswap_v2_get_amount_out a ri ro = Some out" for a ri ro out x
  proof -
    from that have "\<not> amount_out_panics (unat a) (unat ri) (unat ro)" using amount_out_None by fastforce
    moreover from this have "0 < unat ri * 1000 + unat a * 997" by (auto simp: amount_out_panics_def)
    ultimately show ?thesis using that pair_accepts_iff by (auto elim: amount_out_Some)
  qed
  show ?thesis
    unfolding u(2) w(2) v2_call_words using limit[OF u(1)] limit[OF w(1)] by blast
qed

definition demo_v2_pool :: fetched_pool_state where
  "demo_v2_pool = \<lparr>fp_pool = \<lparr>pid_kind = UniswapV2, pid_address = 7\<rparr>, fp_hash = 1, fp_pool_code = [],
     fp_pool_storage = [(8, push_bit 112 2000 + 4000)], fp_auxiliary = []\<rparr>"

lemma demo_v2_reserves: "decode_v2_reserves demo_v2_pool = Some (4000, 2000)"
proof -
  have "is_v2 (pid_kind (fp_pool demo_v2_pool)) \<and> unat (4000::u256) < 2 ^ 112 \<and> unat (2000::u256) < 2 ^ 112 \<and>
    (\<exists>v. slot_value V2_RESERVES_SLOT (fp_pool_storage demo_v2_pool) = Some v \<and>
      unat v = unat (0::u32) * 2 ^ 224 + unat (2000::u256) * 2 ^ 112 + unat (4000::u256))"
    by (simp add: demo_v2_pool_def slot_value_def V2_RESERVES_SLOT_def)
  then show ?thesis using v2_reserves_exact by blast
qed

theorem v2_hops_ask_the_limit_witness:
  "\<exists>sell usdc_out. build_router_calldata_sell_weth demo_v2_pool 100 9 = Some (Inr sell) \<and>
     map (\<lambda>k. call_word k sell) [0, 1, 2, 3, 4] = [7, 9, 100, usdc_out, 0] \<and> pair_accepts 2000 4000 100 (unat usdc_out)"
proof -
  have v2: "is_v2 (pid_kind (fp_pool demo_v2_pool))" "pid_address (fp_pool demo_v2_pool) = 7"
    by (simp_all add: demo_v2_pool_def)
  obtain u where "uniswap_v2_get_amount_out 100 2000 4000 = Some u"
    by (rule amount_out_Some[of 100 2000 4000]) (simp add: amount_out_panics_def)
  then obtain sell where sell: "build_router_calldata_sell_weth demo_v2_pool 100 9 = Some (Inr sell)"
    by (simp add: build_router_calldata_sell_weth_def v2 demo_v2_reserves)
  obtain w where "uniswap_v2_get_amount_out 100 4000 2000 = Some w"
    by (rule amount_out_Some[of 100 4000 2000]) (simp add: amount_out_panics_def)
  then obtain buy where buy: "build_router_calldata_buy_weth demo_v2_pool 100 8 = Some (Inr buy)"
    by (simp add: build_router_calldata_buy_weth_def v2 demo_v2_reserves)
  from v2_hops_ask_the_limit[OF v2(1) demo_v2_reserves sell buy] sell v2(2) show ?thesis by auto
qed

end
