(* ===== verification/App_Submission.thy ===== *)
theory App_Submission
  imports App_Drivers Observability Swap_Calldata
begin

text \<open>
  The last two drivers of \<open>crates/app/src/lib.rs\<close> and what they are built from: the relay adapters made
  from the configuration, the comparator driver with its fail-closed mismatch journal, the submission
  gate, and the submission driver.  The world \<open>'w\<close> holds the shared kill switch and whatever the
  adapters talk to; between two iterations anything may happen to it, so every input of a loop
  carries the change of the world before it.
\<close>

section \<open>The adapters behind the trait objects\<close>

datatype relay_object = FlashbotsObject flashbots_relay | BloxrouteObject bloxroute_relay

text \<open>An \<open>std::io::Error\<close> of the operating system, or one made from another crate's error.\<close>

datatype app_io_error =
    OsIo io_error
  | RelayIo relay_sim_error
  | SimulatorIo simulation_error
  | BundleIo execution_error

datatype app_error =
    AppConfig config_error
  | AppObservability observability_error
  | AppJournal journal_error
  | AppBus bus_error
  | AppIo app_io_error
  | AppConsumerJoin string
  | AppNode node_error
  | AppState state_error
  | AppProductionSignerInit signer_error

definition lift_app :: "relay_sim_error + 'a \<Rightarrow> app_error + 'a" where
  "lift_app r = (case r of Inl e \<Rightarrow> Inl (AppIo (RelayIo e)) | Inr x \<Rightarrow> Inr x)"

definition build_adapter ::
  "url_parse \<Rightarrow> (string \<Rightarrow> bool) \<Rightarrow> bool \<Rightarrow> relay_config \<Rightarrow> app_error + relay_object option" where
  "build_adapter parse header_ok build_ok cfg =
     (case enabled_relays cfg of
        [] \<Rightarrow> Inr None
      | first # _ \<Rightarrow>
          (let timeout = simulate_timeout_ms cfg; allow = allow_non_localhost_endpoint cfg in
           case re_kind first of
             Flashbots \<Rightarrow>
               bind_res (lift_app (flashbots_new parse build_ok
                   \<lparr>fc_endpoint = endpoint first, fc_timeout_ms = timeout\<rparr> allow))
                 (\<lambda>r. Inr (Some (FlashbotsObject r)))
           | Bloxroute \<Rightarrow>
               bind_res (lift_app (bloxroute_new parse header_ok build_ok
                   \<lparr>bc_endpoint = endpoint first, bc_timeout_ms = timeout, bc_api_key = api_key first\<rparr> allow))
                 (\<lambda>r. Inr (Some (BloxrouteObject r)))))"

text \<open>The two builders of the code differ only in the trait they return.\<close>

definition build_relay_sim_from_config ::
  "url_parse \<Rightarrow> (string \<Rightarrow> bool) \<Rightarrow> bool \<Rightarrow> relay_config \<Rightarrow> app_error + relay_object option" where
  "build_relay_sim_from_config parse header_ok build_ok cfg = build_adapter parse header_ok build_ok cfg"

definition build_bundle_relay_from_config ::
  "url_parse \<Rightarrow> (string \<Rightarrow> bool) \<Rightarrow> bool \<Rightarrow> relay_config \<Rightarrow> app_error + relay_object option" where
  "build_bundle_relay_from_config parse header_ok build_ok cfg = build_adapter parse header_ok build_ok cfg"

definition dyn_simulate ::
  "'w relay_env \<Rightarrow> relay_object \<Rightarrow> relay_sim_request \<Rightarrow> 'w
   \<Rightarrow> (relay_sim_error + relay_simulation_outcome) \<times> 'w" where
  "dyn_simulate env ro =
     (case ro of FlashbotsObject r \<Rightarrow> flashbots_simulate_bundle env r
      | BloxrouteObject r \<Rightarrow> bloxroute_simulate_bundle env r)"

definition dyn_submit ::
  "'w relay_env \<Rightarrow> ('w \<Rightarrow> kill_switch) \<Rightarrow> relay_object \<Rightarrow> signed_bundle \<Rightarrow> 'w
   \<Rightarrow> (bundle_relay_error + submission_receipt) \<times> 'w" where
  "dyn_submit env ks ro b w =
     (case ro of FlashbotsObject r \<Rightarrow> flashbots_submit_bundle env (ks w) r b w
      | BloxrouteObject r \<Rightarrow> bloxroute_submit_bundle env (ks w) r b w)"

section \<open>Journals as the drivers see them\<close>

record ('p, 'j) journal_sink =
  sink_append :: "'p envelope \<Rightarrow> 'j \<Rightarrow> (journal_error + unit) \<times> 'j"
  sink_flush :: "'j \<Rightarrow> (journal_error + unit) \<times> 'j"

definition file_sink :: "'p codec \<Rightarrow> ('p, journal) journal_sink" where
  "file_sink cd =
     \<lparr>sink_append = (\<lambda>env j. case append cd env j of
         (Inl e, j') \<Rightarrow> (Inl e, j') | (Inr pos, j') \<Rightarrow> (Inr (), j')),
      sink_flush = journal_flush\<rparr>"

text \<open>Append, then flush; whether both succeeded.\<close>

definition record_durably ::
  "('p, 'j) journal_sink \<Rightarrow> 'p envelope \<Rightarrow> 'j \<Rightarrow> bool \<times> 'j" where
  "record_durably ms env j =
     (case sink_append ms env j of
        (Inl e, j) \<Rightarrow> (False, j)
      | (Inr _, j) \<Rightarrow>
          (case sink_flush ms j of
             (Inl e, j) \<Rightarrow> (False, j)
           | (Inr _, j) \<Rightarrow> (True, j)))"

section \<open>The comparator driver\<close>

datatype comparator_action =
    SentPassed bundle_candidate
  | SentAttempt submission_attempt
  | SentMismatch mismatch_abort

record ('w, 'j) comparator_state =
  cs_world :: 'w
  cs_seq :: u64
  cs_tick :: nat
  cs_journal :: 'j
  cs_sent :: "comparator_action list"

definition report_mismatch ::
  "(mismatch_abort, 'j) journal_sink \<Rightarrow> clock \<Rightarrow> chain_context \<Rightarrow> u64 \<Rightarrow> mismatch_abort
   \<Rightarrow> ('w, 'j) comparator_state \<Rightarrow> ('w, 'j) comparator_state" where
  "report_mismatch ms clk cc cid abort s =
     (case seal_envelope_with_context clk (cs_tick s) Relay abort (cs_seq s) cc cid of
        (None, sq) \<Rightarrow> s\<lparr>cs_seq := sq, cs_tick := Suc (cs_tick s)\<rparr>
      | (Some env, sq) \<Rightarrow>
          (case record_durably ms env (cs_journal s) of
             (False, j) \<Rightarrow> s\<lparr>cs_seq := sq, cs_tick := Suc (cs_tick s), cs_journal := j\<rparr>
           | (True, j) \<Rightarrow> s\<lparr>cs_seq := sq, cs_tick := Suc (cs_tick s), cs_journal := j,
                 cs_sent := cs_sent s @ [SentMismatch abort]\<rparr>))"

definition comparator_step ::
  "(relay_sim_request \<Rightarrow> 'w \<Rightarrow> (relay_sim_error + relay_simulation_outcome) \<times> 'w)
   \<Rightarrow> ('w \<Rightarrow> kill_switch) \<Rightarrow> bundle_constructor \<Rightarrow> (mismatch_abort, 'j) journal_sink \<Rightarrow> clock
   \<Rightarrow> simulation_outcome_with_fingerprint envelope \<Rightarrow> ('w, 'j) comparator_state
   \<Rightarrow> ('w, 'j) comparator_state" where
  "comparator_step simulate ks bd ms clk env s =
     (if is_active (ks (cs_world s)) then s
      else let cc = env_chain_context env; correlation_id = env_correlation_id env;
               local_outcome = sf_outcome (env_payload env);
               local_fingerprint = sf_fingerprint (env_payload env) in
        (case construct bd local_outcome of
           Inl e \<Rightarrow> s
         | Inr candidate \<Rightarrow>
             let local_shape = \<lparr>bs_expected_inclusion_index = 0, bs_expected_coinbase_transfer_wei = 0\<rparr>;
                 req = \<lparr>rq_block_hash = block_hash cc, rq_state_block_number = block_number cc, rq_txs = []\<rparr> in
             (case simulate req (cs_world s) of
                (relay_result, w) \<Rightarrow>
                  (case compare_result \<lparr>ci_local = local_outcome, ci_local_shape = local_shape,
                       ci_local_fingerprint = local_fingerprint\<rparr> relay_result of
                     Inr _ \<Rightarrow> s\<lparr>cs_world := w, cs_sent := cs_sent s @ SentPassed candidate #
                       (case sf_signed_bundle (env_payload env) of
                          Some b \<Rightarrow> [SentAttempt \<lparr>sa_signed_bundle = b\<rparr>]
                        | None \<Rightarrow> [])\<rparr>
                   | Inl abort \<Rightarrow> report_mismatch ms clk cc correlation_id abort (s\<lparr>cs_world := w\<rparr>)))))"

definition shut_comparator ::
  "(mismatch_abort, 'j) journal_sink \<Rightarrow> ('w, 'j) comparator_state \<Rightarrow> ('w, 'j) comparator_state" where
  "shut_comparator ms s = s\<lparr>cs_journal := snd (sink_flush ms (cs_journal s))\<rparr>"

type_synonym ('w, 'e) inputs = "(('w \<Rightarrow> 'w) \<times> 'e recv_result) list"

fun comparator_loop ::
  "('e \<Rightarrow> ('w, 'j) comparator_state \<Rightarrow> ('w, 'j) comparator_state) \<Rightarrow> (mismatch_abort, 'j) journal_sink
   \<Rightarrow> ('w, 'e) inputs \<Rightarrow> ('w, 'j) comparator_state \<Rightarrow> ('w, 'j) comparator_state" where
  "comparator_loop body ms [] s = s"
| "comparator_loop body ms ((u, Received e) # rs) s =
     comparator_loop body ms rs (body e (s\<lparr>cs_world := u (cs_world s)\<rparr>))"
| "comparator_loop body ms ((u, RxLagged n) # rs) s = shut_comparator ms (s\<lparr>cs_world := u (cs_world s)\<rparr>)"
| "comparator_loop body ms ((u, RxClosed) # rs) s = shut_comparator ms (s\<lparr>cs_world := u (cs_world s)\<rparr>)"

definition comparator_driver ::
  "(relay_sim_request \<Rightarrow> 'w \<Rightarrow> (relay_sim_error + relay_simulation_outcome) \<times> 'w) option
   \<Rightarrow> ('w \<Rightarrow> kill_switch) \<Rightarrow> bundle_constructor \<Rightarrow> (mismatch_abort, 'j) journal_sink \<Rightarrow> clock
   \<Rightarrow> ('w, simulation_outcome_with_fingerprint envelope) inputs \<Rightarrow> ('w, 'j) comparator_state
   \<Rightarrow> ('w, 'j) comparator_state" where
  "comparator_driver relay_sim ks bd ms clk rs s =
     (case relay_sim of
        None \<Rightarrow> s
      | Some simulate \<Rightarrow> comparator_loop (comparator_step simulate ks bd ms clk) ms rs s)"

section \<open>The submission driver\<close>

record submission_gate =
  gate_live_send :: bool
  gate_production_profile :: bool
  gate_hsmkms :: bool

definition permits_submission :: "submission_gate \<Rightarrow> bool" where
  "permits_submission g \<longleftrightarrow> gate_live_send g \<and> gate_production_profile g \<and> gate_hsmkms g"

definition gate_from_config :: "config \<Rightarrow> submission_gate" where
  "gate_from_config cfg =
     \<lparr>gate_live_send = live_send (relay cfg),
      gate_production_profile = (active_profile cfg = Production),
      gate_hsmkms = (rc_key_backend (relay cfg) = HsmKms)\<rparr>"

definition compute_local_bundle_hash :: "(bytes \<Rightarrow> bytes) \<Rightarrow> signed_bundle \<Rightarrow> string" where
  "compute_local_bundle_hash keccak b = ''0x'' @ hex_bytes (keccak (concat (sb_signed_txs b)))"

definition ascii_lower :: "char \<Rightarrow> char" where
  "ascii_lower c = (if 65 \<le> (of_char c :: nat) \<and> (of_char c :: nat) \<le> 90 then char_of ((of_char c :: nat) + 32) else c)"

definition normalize_hash_hex :: "string \<Rightarrow> string" where
  "normalize_hash_hex raw =
     (let lower = map ascii_lower (trim raw) in
      if take 2 lower = ''0x'' then lower else ''0x'' @ lower)"

definition bundle_bytes_plausible :: "signed_bundle \<Rightarrow> bool" where
  "bundle_bytes_plausible b \<longleftrightarrow> sb_signed_txs b \<noteq> [] \<and> (\<forall>t \<in> set (sb_signed_txs b). 64 \<le> length t)"

record ('w, 'j) submission_state =
  ss_world :: 'w
  ss_seq :: u64
  ss_tick :: nat
  ss_journal :: 'j

text \<open>The comparison of the two hashes only chooses the log line; the receipt carries both.\<close>

definition submission_step ::
  "(signed_bundle \<Rightarrow> 'w \<Rightarrow> (bundle_relay_error + submission_receipt) \<times> 'w)
   \<Rightarrow> ('w \<Rightarrow> kill_switch) \<Rightarrow> submission_gate \<Rightarrow> (bytes \<Rightarrow> bytes) \<Rightarrow> (submission_receipt, 'j) journal_sink
   \<Rightarrow> clock \<Rightarrow> submission_attempt \<Rightarrow> ('w, 'j) submission_state \<Rightarrow> ('w, 'j) submission_state" where
  "submission_step submit ks gate keccak ms clk attempt s =
     (if is_active (ks (ss_world s)) then s
      else if \<not> permits_submission gate then s
      else if \<not> bundle_bytes_plausible (sa_signed_bundle attempt) then s
      else let local_bundle_hash = compute_local_bundle_hash keccak (sa_signed_bundle attempt) in
        (case submit (sa_signed_bundle attempt) (ss_world s) of
           (Inl e, w) \<Rightarrow> s\<lparr>ss_world := w\<rparr>
         | (Inr receipt, w) \<Rightarrow>
             (case seal_envelope clk (ss_tick s) Relay (receipt\<lparr>sr_local_bundle_hash := local_bundle_hash\<rparr>) (ss_seq s) of
                (None, sq) \<Rightarrow> s\<lparr>ss_world := w, ss_seq := sq, ss_tick := Suc (ss_tick s)\<rparr>
              | (Some env, sq) \<Rightarrow>
                  s\<lparr>ss_world := w, ss_seq := sq, ss_tick := Suc (ss_tick s),
                    ss_journal := snd (record_durably ms env (ss_journal s))\<rparr>)))"

fun submission_loop ::
  "(submission_attempt \<Rightarrow> ('w, 'j) submission_state \<Rightarrow> ('w, 'j) submission_state)
   \<Rightarrow> ('w, submission_attempt) inputs \<Rightarrow> ('w, 'j) submission_state \<Rightarrow> ('w, 'j) submission_state" where
  "submission_loop body [] s = s"
| "submission_loop body ((u, Received a) # rs) s =
     submission_loop body rs (body a (s\<lparr>ss_world := u (ss_world s)\<rparr>))"
| "submission_loop body ((u, RxLagged n) # rs) s = submission_loop body rs (s\<lparr>ss_world := u (ss_world s)\<rparr>)"
| "submission_loop body ((u, RxClosed) # rs) s = s\<lparr>ss_world := u (ss_world s)\<rparr>"

text \<open>Without a relay the driver only drains its receiver: it submits and records nothing.\<close>

definition submission_driver ::
  "(signed_bundle \<Rightarrow> 'w \<Rightarrow> (bundle_relay_error + submission_receipt) \<times> 'w) option
   \<Rightarrow> ('w \<Rightarrow> kill_switch) \<Rightarrow> submission_gate \<Rightarrow> (bytes \<Rightarrow> bytes) \<Rightarrow> (submission_receipt, 'j) journal_sink
   \<Rightarrow> clock \<Rightarrow> ('w, submission_attempt) inputs \<Rightarrow> ('w, 'j) submission_state \<Rightarrow> ('w, 'j) submission_state" where
  "submission_driver handle ks gate keccak ms clk rs s =
     (case handle of
        None \<Rightarrow> s
      | Some submit \<Rightarrow> submission_loop (submission_step submit ks gate keccak ms clk) rs s)"


section \<open>Durable records\<close>

text \<open>What the drivers rely on: once append and flush have both succeeded the record is in the journal,
  and nothing that happens later takes it away.\<close>

locale durable_journal =
  fixes ms :: "('p, 'j) journal_sink" and durable :: "'j \<Rightarrow> 'p envelope \<Rightarrow> bool"
  assumes recorded: "sink_append ms env j = (Inr (), j1) \<Longrightarrow> sink_flush ms j1 = (Inr (), j2) \<Longrightarrow> durable j2 env"
    and append_keeps: "durable j e \<Longrightarrow> durable (snd (sink_append ms env j)) e"
    and flush_keeps: "durable j e \<Longrightarrow> durable (snd (sink_flush ms j)) e"

text \<open>The envelope of a mismatch that was found for the simulated outcome of an upstream envelope: it carries
  that envelope's block and correlation, and what the comparison of its outcome with the relay's answer to
  its request, given in some world, reports.\<close>

definition found_for ::
  "(relay_sim_request \<Rightarrow> 'w \<Rightarrow> (relay_sim_error + relay_simulation_outcome) \<times> 'w) \<Rightarrow> bundle_constructor
   \<Rightarrow> simulation_outcome_with_fingerprint envelope \<Rightarrow> mismatch_abort envelope \<Rightarrow> bool" where
  "found_for simulate bd e env \<longleftrightarrow>
     env_source env = Relay \<and> env_chain_context env = env_chain_context e \<and>
     env_correlation_id env = env_correlation_id e \<and>
     (\<exists>candidate w. construct bd (sf_outcome (env_payload e)) = Inr candidate \<and>
        compare_result
          \<lparr>ci_local = sf_outcome (env_payload e),
           ci_local_shape = \<lparr>bs_expected_inclusion_index = 0, bs_expected_coinbase_transfer_wei = 0\<rparr>,
           ci_local_fingerprint = sf_fingerprint (env_payload e)\<rparr>
          (fst (simulate \<lparr>rq_block_hash = block_hash (env_chain_context e),
                          rq_state_block_number = block_number (env_chain_context e), rq_txs = []\<rparr> w))
          = Inl (env_payload env))"

definition announced_ok ::
  "('j \<Rightarrow> mismatch_abort envelope \<Rightarrow> bool) \<Rightarrow> (mismatch_abort envelope \<Rightarrow> bool) \<Rightarrow> ('w, 'j) comparator_state \<Rightarrow> bool" where
  "announced_ok durable found s \<longleftrightarrow>
     (\<forall>a. SentMismatch a \<in> set (cs_sent s) \<longrightarrow>
        (\<exists>env. env_payload env = a \<and> found env \<and> envelope_ok env \<and> durable (cs_journal s) env))"

lemma record_durably_cases:
  obtains (full) j1 j2 where "record_durably ms env j = (True, j2)" "sink_append ms env j = (Inr (), j1)"
      "sink_flush ms j1 = (Inr (), j2)"
  | (half) e j1 j2 where "record_durably ms env j = (False, j2)" "sink_append ms env j = (Inr (), j1)"
      "sink_flush ms j1 = (Inl e, j2)"
  | (none) e j1 where "record_durably ms env j = (False, j1)" "sink_append ms env j = (Inl e, j1)"
proof -
  obtain r j1 where a: "sink_append ms env j = (r, j1)" by (meson surj_pair)
  obtain q j2 where f: "sink_flush ms j1 = (q, j2)" by (meson surj_pair)
  show thesis
    by (cases r; cases q) (use a f that in \<open>auto simp: record_durably_def\<close>)
qed

lemma sealed_with_context:
  assumes "seal_envelope_with_context clk t src p sq cc cid = (Some env, sq')"
  shows "sq' = sq + 1 \<and> envelope_ok env \<and> env_payload env = p \<and> env_source env = src \<and>
    env_chain_context env = cc \<and> env_correlation_id env = cid \<and> env_sequence env = sq + 1"
  using assms seal_fields[of "\<lparr>source = src, chain_ctx = cc, event_version = 1, correlation_id = cid\<rparr>" p "sq + 1" "clock_ns clk t" env]
  by (auto simp: seal_envelope_with_context_def Let_def meta_of_def split: sum.splits)

context durable_journal
begin

lemma record_durable: "record_durably ms env j = (True, j') \<Longrightarrow> durable j' env"
  by (rule record_durably_cases[of ms env j]) (auto intro: recorded)

lemma record_keeps: "durable j e \<Longrightarrow> durable (snd (record_durably ms env j)) e"
  using append_keeps[of j e env] flush_keeps[of "snd (sink_append ms env j)" e]
  by (cases rule: record_durably_cases[of ms env j]) auto

end

lemma report_mismatch_sent:
  "set (cs_sent (report_mismatch ms clk cc cid a s)) \<subseteq> insert (SentMismatch a) (set (cs_sent s))"
proof -
  obtain r sq where r: "seal_envelope_with_context clk (cs_tick s) Relay a (cs_seq s) cc cid = (r, sq)"
    by (meson surj_pair)
  show ?thesis
  proof (cases r)
    case (Some env)
    obtain b j where "record_durably ms env (cs_journal s) = (b, j)" by (meson surj_pair)
    then show ?thesis by (cases b) (auto simp: report_mismatch_def r Some)
  qed (auto simp: report_mismatch_def r)
qed

lemma announced_ok_later:
  assumes "announced_ok durable found s" "\<And>e. durable (cs_journal s) e \<Longrightarrow> durable (cs_journal s') e"
    and "\<And>a. SentMismatch a \<in> set (cs_sent s') \<Longrightarrow> SentMismatch a \<in> set (cs_sent s) \<or>
      (\<exists>env. env_payload env = a \<and> found env \<and> envelope_ok env \<and> durable (cs_journal s') env)"
  shows "announced_ok durable found s'"
  using assms unfolding announced_ok_def by meson

lemma report_mismatch_keeps:
  assumes "durable_journal ms durable" "announced_ok durable found s"
    and "\<And>env. env_payload env = a \<Longrightarrow> env_source env = Relay \<Longrightarrow> env_chain_context env = cc \<Longrightarrow>
      env_correlation_id env = cid \<Longrightarrow> found env"
  shows "announced_ok durable found (report_mismatch ms clk cc cid a s)"
proof -
  obtain r sq where r: "seal_envelope_with_context clk (cs_tick s) Relay a (cs_seq s) cc cid = (r, sq)"
    by (meson surj_pair)
  show ?thesis
  proof (cases r)
    case None
    with assms(2) show ?thesis by (simp add: report_mismatch_def r announced_ok_def)
  next
    case (Some env)
    note env = sealed_with_context[OF r[unfolded Some]]
    obtain b j where b: "record_durably ms env (cs_journal s) = (b, j)" by (meson surj_pair)
    have keep: "durable j e" if "durable (cs_journal s) e" for e
      using durable_journal.record_keeps[OF assms(1) that, of env] b by simp
    have new: "durable j env" if b
      using durable_journal.record_durable[OF assms(1), of env "cs_journal s" j] b that by simp
    have s': "report_mismatch ms clk cc cid a s = (if b
      then s\<lparr>cs_seq := sq, cs_tick := Suc (cs_tick s), cs_journal := j, cs_sent := cs_sent s @ [SentMismatch a]\<rparr>
      else s\<lparr>cs_seq := sq, cs_tick := Suc (cs_tick s), cs_journal := j\<rparr>)"
      by (cases b) (simp_all add: report_mismatch_def r Some b)
    show ?thesis
      by (rule announced_ok_later[OF assms(2)]) (use keep new env assms(3)[of env] in \<open>auto simp: s' split: if_splits\<close>)
  qed
qed

lemma comparator_step_cases:
  obtains (idle) "comparator_step simulate ks bd ms clk env s = s"
  | (passed) candidate w where
      "comparator_step simulate ks bd ms clk env s = s\<lparr>cs_world := w, cs_sent := cs_sent s @ SentPassed candidate #
         (case sf_signed_bundle (env_payload env) of Some b \<Rightarrow> [SentAttempt \<lparr>sa_signed_bundle = b\<rparr>] | None \<Rightarrow> [])\<rparr>"
      "\<not> is_active (ks (cs_world s))" "construct bd (sf_outcome (env_payload env)) = Inr candidate"
  | (refused) a w where
      "comparator_step simulate ks bd ms clk env s =
         report_mismatch ms clk (env_chain_context env) (env_correlation_id env) a (s\<lparr>cs_world := w\<rparr>)"
      "\<not> is_active (ks (cs_world s))"
      "\<And>m. env_payload m = a \<Longrightarrow> env_source m = Relay \<Longrightarrow> env_chain_context m = env_chain_context env \<Longrightarrow>
         env_correlation_id m = env_correlation_id env \<Longrightarrow> found_for simulate bd env m"
proof -
  let ?cc = "env_chain_context env"
  let ?req = "\<lparr>rq_block_hash = block_hash ?cc, rq_state_block_number = block_number ?cc, rq_txs = []\<rparr>"
  obtain rr w where w: "simulate ?req (cs_world s) = (rr, w)" by (meson surj_pair)
  define inp where "inp = \<lparr>ci_local = sf_outcome (env_payload env),
    ci_local_shape = \<lparr>bs_expected_inclusion_index = 0, bs_expected_coinbase_transfer_wei = 0\<rparr>,
    ci_local_fingerprint = sf_fingerprint (env_payload env)\<rparr>"
  show thesis
  proof (cases "is_active (ks (cs_world s))")
    case False
    show thesis
    proof (cases "construct bd (sf_outcome (env_payload env))")
      case (Inr candidate)
      show thesis
      proof (cases "compare_result inp rr")
        case (Inl a)
        show thesis
        proof (rule refused[of a w])
          show "found_for simulate bd env m" if "env_payload m = a" "env_source m = Relay"
            "env_chain_context m = env_chain_context env" "env_correlation_id m = env_correlation_id env" for m
            using that Inr Inl w unfolding found_for_def inp_def by (metis fst_conv)
        qed (simp_all add: comparator_step_def False Inr Let_def w Inl[unfolded inp_def])
      next
        case (Inr u)
        then show thesis
          by (intro passed[of candidate w])
            (simp_all add: comparator_step_def False \<open>construct bd _ = Inr candidate\<close> Let_def w inp_def)
      qed
    qed (simp add: idle comparator_step_def False)
  qed (simp add: idle comparator_step_def)
qed

lemma comparator_keeps:
  assumes "durable_journal ms durable" "announced_ok durable found s"
    and "\<And>m. found_for simulate bd env m \<Longrightarrow> found m"
  shows "announced_ok durable found (comparator_step simulate ks bd ms clk env (s\<lparr>cs_world := w\<rparr>))"
proof -
  have s': "announced_ok durable found (s\<lparr>cs_world := w'\<rparr>)" for w'
    using assms(2) by (simp add: announced_ok_def)
  show ?thesis
  proof (cases rule: comparator_step_cases[of simulate ks bd ms clk env "s\<lparr>cs_world := w\<rparr>"])
    case idle
    with s' show ?thesis by simp
  next
    case (passed candidate w')
    show ?thesis
      by (rule announced_ok_later[OF assms(2)]) (auto simp: passed(1) split: option.splits)
  next
    case (refused a w')
    have "announced_ok durable found (report_mismatch ms clk (env_chain_context env) (env_correlation_id env) a
        (s\<lparr>cs_world := w'\<rparr>))"
      by (rule report_mismatch_keeps[OF assms(1) s']) (rule assms(3), rule refused(3))
    then show ?thesis by (simp add: refused(1))
  qed
qed

lemma shut_keeps:
  assumes "durable_journal ms durable" "announced_ok durable found s"
  shows "announced_ok durable found (shut_comparator ms (s\<lparr>cs_world := w\<rparr>))"
  by (rule announced_ok_later[OF assms(2)])
    (simp_all add: shut_comparator_def durable_journal.flush_keeps[OF assms(1)])

lemma comparator_loop_keeps:
  assumes "durable_journal ms durable"
  shows "announced_ok durable found s \<Longrightarrow> \<forall>e m. Received e \<in> snd ` set rs \<and> found_for simulate bd e m \<longrightarrow> found m \<Longrightarrow>
    announced_ok durable found (comparator_loop (comparator_step simulate ks bd ms clk) ms rs s)"
proof (induction rs arbitrary: s)
  case (Cons x rs)
  obtain u r where x: "x = (u, r)" by (meson surj_pair)
  show ?case
  proof (cases r)
    case (Received e)
    have "announced_ok durable found (comparator_step simulate ks bd ms clk e (s\<lparr>cs_world := u (cs_world s)\<rparr>))"
      by (rule comparator_keeps[OF assms Cons.prems(1)]) (use Cons.prems(2) in \<open>auto simp: x Received\<close>)
    moreover have "\<forall>e m. Received e \<in> snd ` set rs \<and> found_for simulate bd e m \<longrightarrow> found m"
      using Cons.prems(2) by auto
    ultimately show ?thesis using Cons.IH by (simp add: x Received)
  qed (simp_all add: x shut_keeps[OF assms Cons.prems(1)])
qed simp

section \<open>The file journal keeps its records\<close>

definition file_holds :: "'p codec \<Rightarrow> journal \<Rightarrow> 'p envelope \<Rightarrow> bool" where
  "file_holds cd j env \<longleftrightarrow>
     (\<exists>p pre post. cd_to_bytes cd env = Inr p \<and> f_data (fst (jn_writer j)) = pre @ frame_of cd p @ post)"

lemma os_write_grows: "os_write_all d f = (r, f') \<Longrightarrow> \<exists>post. f_data f' = f_data f @ post"
  by (auto simp: os_write_all_def split: if_splits)

lemma bw_flush_grows: "bw_flush w = (r, w') \<Longrightarrow> \<exists>post. f_data (fst w') = f_data (fst w) @ post"
  by (auto simp: bw_flush_def split: prod.splits sum.splits dest: os_write_grows)

lemma bw_write_all_grows:
  assumes "bw_write_all d w = (r, w')"
  shows "\<exists>post. f_data (fst w') = f_data (fst w) @ post"
proof -
  obtain f buf where w: "w = (f, buf)" by (meson surj_pair)
  define fl where "fl = (if length d > BUF_CAPACITY - length buf then bw_flush (f, buf) else (Inr (), (f, buf)))"
  obtain q f1 buf1 where q: "fl = (q, (f1, buf1))" by (metis surj_pair)
  have g1: "\<exists>post. f_data f1 = f_data f @ post"
    using bw_flush_grows[of "(f, buf)" q "(f1, buf1)"] q by (auto simp: fl_def split: if_splits)
  obtain v f2 where v: "os_write_all d f1 = (v, f2)" by (meson surj_pair)
  have g2: "\<exists>post. f_data f2 = f_data f @ post"
    using g1 os_write_grows[OF v] by auto
  have "fst w' \<in> {f, f1, f2}"
    using assms q[unfolded fl_def] v by (auto simp: bw_write_all_def w split: if_splits sum.splits)
  with g1 g2 show ?thesis by (auto simp: w)
qed

lemma append_grows:
  assumes "append cd env j = (r, j')"
  shows "\<exists>post. f_data (fst (jn_writer j')) = f_data (fst (jn_writer j)) @ post"
proof (cases "cd_to_bytes cd env")
  case (Inr p)
  obtain r1 w1 where w1: "bw_write_all (u32_to_le (word_of_nat (length p))) (jn_writer j) = (r1, w1)" by (meson surj_pair)
  obtain r2 w2 where w2: "bw_write_all p w1 = (r2, w2)" by (meson surj_pair)
  obtain r3 w3 where w3: "bw_write_all (u32_to_le (cd_crc cd p)) w2 = (r3, w3)" by (meson surj_pair)
  have "jn_writer j' \<in> {jn_writer j, w1, w2, w3}"
    using assms by (auto simp: append_def Inr Let_def w1 w2 w3 split: sum.splits)
  moreover note bw_write_all_grows[OF w1] bw_write_all_grows[OF w2] bw_write_all_grows[OF w3]
  ultimately show ?thesis by fastforce
qed (use assms in \<open>simp add: append_def\<close>)

lemma flush_grows:
  "journal_flush j = (r, j') \<Longrightarrow> \<exists>post. f_data (fst (jn_writer j')) = f_data (fst (jn_writer j)) @ post"
  by (auto simp: journal_flush_def split: prod.splits sum.splits dest: bw_flush_grows)

lemma file_holds_grows:
  assumes "file_holds cd j env" "\<exists>post. f_data (fst (jn_writer j')) = f_data (fst (jn_writer j)) @ post"
  shows "file_holds cd j' env"
  using assms unfolding file_holds_def by fastforce

lemma file_sink_append: "snd (sink_append (file_sink cd) env j) = snd (append cd env j)"
  by (simp add: file_sink_def split: prod.split sum.split)

lemma file_journal_recorded:
  assumes "sink_append (file_sink cd) env j = (Inr (), j1)" "sink_flush (file_sink cd) j1 = (Inr (), j2)"
  shows "file_holds cd j2 env"
proof -
  obtain pos where ap: "append cd env j = (Inr pos, j1)"
    using assms(1) by (auto simp: file_sink_def split: prod.splits sum.splits)
  obtain p where "cd_to_bytes cd env = Inr p" "stream_of (jn_writer j1) = stream_of (jn_writer j) @ frame_of cd p"
    by (rule append_ok[OF ap])
  moreover have "f_data (fst (jn_writer j2)) = stream_of (jn_writer j1)"
    using assms(2) by (intro flush_ok) (simp add: file_sink_def)
  ultimately show ?thesis unfolding file_holds_def by (metis append_Nil2)
qed

interpretation file_journal: durable_journal "file_sink cd" "file_holds cd" for cd
proof
  show "file_holds cd j2 env"
    if "sink_append (file_sink cd) env j = (Inr (), j1)" "sink_flush (file_sink cd) j1 = (Inr (), j2)" for env j j1 j2
    using that by (rule file_journal_recorded)
  show "file_holds cd (snd (sink_append (file_sink cd) env j)) e" if "file_holds cd j e" for j e env
    unfolding file_sink_append by (rule file_holds_grows[OF that append_grows]) (rule surjective_pairing)
  show "file_holds cd (snd (sink_flush (file_sink cd) j)) e" if "file_holds cd j e" for j e
    using file_holds_grows[OF that flush_grows[OF surjective_pairing]] by (simp add: file_sink_def)
qed

section \<open>What an adapter posts\<close>

text \<open>Every POST is recorded together with the state of the kill switch at that moment.\<close>

type_synonym posting = "string option \<times> url \<times> rpc_body \<times> bool"

definition ledger_env :: "('w \<Rightarrow> kill_switch) \<Rightarrow> 'w relay_env \<Rightarrow> ('w \<times> posting list) relay_env" where
  "ledger_env ks env =
     \<lparr>re_post = (\<lambda>auth ep body wl.
        let (r, w) = re_post env auth ep body (fst wl)
        in (r, (w, snd wl @ [(auth, ep, body, is_active (ks (fst wl)))]))),
      re_parse_call = re_parse_call env, re_parse_send = re_parse_send env,
      re_from_str_radix = re_from_str_radix env, re_unix_ns = (\<lambda>wl. re_unix_ns env (fst wl))\<rparr>"

definition object_endpoint :: "relay_object \<Rightarrow> url" where
  "object_endpoint ro = (case ro of FlashbotsObject r \<Rightarrow> fr_endpoint r | BloxrouteObject r \<Rightarrow> br_endpoint r)"

definition object_open :: "relay_object \<Rightarrow> bool" where
  "object_open ro \<longleftrightarrow>
     (case ro of FlashbotsObject r \<Rightarrow> fr_allow_non_localhost r | BloxrouteObject r \<Rightarrow> br_allow_non_localhost r)
     \<or> is_localhost_url (object_endpoint ro)"

lemma submit_ledger:
  "snd (snd (submit_eth_send_bundle (ledger_env ks env) auth ep nm b wl)) =
     snd wl @ [(auth, ep, send_bundle_body b, is_active (ks (fst wl)))]"
  by (simp add: submit_eth_send_bundle_def ledger_env_def Let_def
      split: sum.split prod.split option.split)

lemma dyn_submit_ledger:
  "snd (snd (dyn_submit (ledger_env ks env) (\<lambda>wl. ks (fst wl)) ro b wl)) = snd wl \<or>
   (\<exists>auth. snd (snd (dyn_submit (ledger_env ks env) (\<lambda>wl. ks (fst wl)) ro b wl)) =
      snd wl @ [(auth, object_endpoint ro, send_bundle_body b, False)]) \<and>
   object_open ro \<and> \<not> is_active (ks (fst wl))"
  by (cases ro)
    (auto simp: dyn_submit_def flashbots_submit_bundle_def bloxroute_submit_bundle_def submit_ledger
      object_endpoint_def object_open_def split: option.split)

definition posting_ok ::
  "relay_object \<Rightarrow> submission_gate \<Rightarrow> submission_attempt set \<Rightarrow> posting \<Rightarrow> bool" where
  "posting_ok ro gate As e \<longleftrightarrow>
     (case e of (auth, ep, body, active) \<Rightarrow>
        \<not> active \<and> permits_submission gate \<and> ep = object_endpoint ro \<and> object_open ro \<and>
        (\<exists>a \<in> As. body = send_bundle_body (sa_signed_bundle a) \<and> bundle_bytes_plausible (sa_signed_bundle a)))"

lemma submission_step_world:
  "ss_world (submission_step submit ks gate keccak ms clk a s) =
     (if is_active (ks (ss_world s)) \<or> \<not> permits_submission gate \<or> \<not> bundle_bytes_plausible (sa_signed_bundle a)
      then ss_world s else snd (submit (sa_signed_bundle a) (ss_world s)))"
  by (auto simp: submission_step_def Let_def split: sum.split prod.split option.split)

definition lifted_inputs :: "('w, 'e) inputs \<Rightarrow> ('w \<times> 'l, 'e) inputs" where
  "lifted_inputs rs = map (\<lambda>x. (\<lambda>wl. (fst x (fst wl), snd wl), snd x)) rs"

lemma lifted_inputs_simps:
  "lifted_inputs [] = []"
  "lifted_inputs ((u, r) # rs) = ((\<lambda>wl. (u (fst wl), snd wl)), r) # lifted_inputs rs"
  by (simp_all add: lifted_inputs_def)

lemma submission_posts:
  assumes "\<forall>e \<in> set (snd (ss_world s)). posting_ok ro gate As e"
    and "\<forall>a. Received a \<in> snd ` set rs \<longrightarrow> a \<in> As"
  shows "\<forall>e \<in> set (snd (ss_world (submission_loop
      (submission_step (dyn_submit (ledger_env ks env) (\<lambda>wl. ks (fst wl)) ro) (\<lambda>wl. ks (fst wl)) gate keccak ms clk)
      (lifted_inputs rs) s))). posting_ok ro gate As e"
  using assms
proof (induction rs arbitrary: s)
  case (Cons x rs)
  let ?step = "submission_step (dyn_submit (ledger_env ks env) (\<lambda>wl. ks (fst wl)) ro) (\<lambda>wl. ks (fst wl)) gate keccak ms clk"
  obtain u r where x: "x = (u, r)" by (meson surj_pair)
  define t where "t = s\<lparr>ss_world := (u (fst (ss_world s)), snd (ss_world s))\<rparr>"
  have t: "\<forall>e \<in> set (snd (ss_world t)). posting_ok ro gate As e" using Cons.prems(1) by (simp add: t_def)
  have rest: "\<forall>a. Received a \<in> snd ` set rs \<longrightarrow> a \<in> As" using Cons.prems(2) by auto
  show ?case
  proof (cases r)
    case (Received a)
    have a: "a \<in> As" using Cons.prems(2) by (force simp: x Received)
    have "\<forall>e \<in> set (snd (ss_world (?step a t))). posting_ok ro gate As e"
      using dyn_submit_ledger[of ks env ro "sa_signed_bundle a" "ss_world t"] t a
      unfolding submission_step_world by (auto simp: posting_ok_def)
    from Cons.IH[OF this rest] show ?thesis by (simp add: x Received t_def lifted_inputs_simps)
  next
    case (RxLagged n)
    with Cons.IH[OF t rest] show ?thesis by (simp add: x t_def lifted_inputs_simps)
  next
    case RxClosed
    with t show ?thesis by (simp add: x t_def lifted_inputs_simps)
  qed
qed (simp add: lifted_inputs_simps)

section \<open>Safety of the comparator and of submission\<close>

text \<open>C9: Fail closed: whatever the relay answers and whatever happens to the disk, every mismatch the
  comparator driver has broadcast, after any number of inputs, is a complete frame of its journal file on disk,
  and its envelope is that of a mismatch found for an envelope the driver received: it carries the
  block and the correlation of that envelope, from which the candidate could be built, and what the comparison
  of its outcome with the relay's answer reported.\<close>

theorem mismatch_announced_only_when_durable:
  assumes "cs_sent s = []"
    and "SentMismatch a \<in> set (cs_sent (comparator_driver relay_sim ks bd (file_sink cd) clk rs s))"
  shows "\<exists>simulate e env p pre post. relay_sim = Some simulate \<and> Received e \<in> snd ` set rs \<and>
    found_for simulate bd e env \<and> env_payload env = a \<and> envelope_ok env \<and> cd_to_bytes cd env = Inr p \<and>
    f_data (fst (jn_writer (cs_journal (comparator_driver relay_sim ks bd (file_sink cd) clk rs s))))
      = pre @ frame_of cd p @ post"
proof (cases relay_sim)
  case None
  with assms show ?thesis by (simp add: comparator_driver_def)
next
  case (Some simulate)
  let ?found = "\<lambda>m. \<exists>e. Received e \<in> snd ` set rs \<and> found_for simulate bd e m"
  have "announced_ok (file_holds cd) ?found s" using assms(1) by (simp add: announced_ok_def)
  then have "announced_ok (file_holds cd) ?found (comparator_driver relay_sim ks bd (file_sink cd) clk rs s)"
    unfolding comparator_driver_def Some option.case
    by (rule comparator_loop_keeps[OF file_journal.durable_journal_axioms]) blast
  with assms(2) Some show ?thesis by (fastforce simp: announced_ok_def file_holds_def)
qed

text \<open>A submission passes every gate.  Whatever is broadcast to the submission driver, however the
  kill switch is flipped between its iterations and however often it lags, every POST it causes goes
  to the configured relay's endpoint, which is local or explicitly allowed, is made while the kill
  switch is off, under a gate that permits submission, and carries a received bundle whose
  transactions all have at least 64 bytes.\<close>

theorem submissions_gated:
  assumes "snd (ss_world s) = []"
    and "(auth, ep, body, active) \<in> set (snd (ss_world (submission_driver
       (Some (dyn_submit (ledger_env ks env) (\<lambda>wl. ks (fst wl)) ro)) (\<lambda>wl. ks (fst wl)) gate keccak ms clk
       (lifted_inputs rs) s)))"
  shows "\<not> active \<and> permits_submission gate \<and> ep = object_endpoint ro \<and> object_open ro \<and>
    (\<exists>a. Received a \<in> snd ` set rs \<and> body = send_bundle_body (sa_signed_bundle a) \<and>
       bundle_bytes_plausible (sa_signed_bundle a))"
  using submission_posts[of s ro gate "{a. Received a \<in> snd ` set rs}" rs ks env keccak ms clk] assms
  by (fastforce simp: submission_driver_def posting_ok_def)

lemma submission_posts_ok:
  assumes "snd (ss_world s) = []"
    and "e \<in> set (snd (ss_world (submission_driver
       (Some (dyn_submit (ledger_env ks env) (\<lambda>wl. ks (fst wl)) ro)) (\<lambda>wl. ks (fst wl)) gate keccak ms clk
       (lifted_inputs rs) s)))"
  shows "posting_ok ro gate {a. Received a \<in> snd ` set rs} e"
  using submission_posts[of s ro gate "{a. Received a \<in> snd ` set rs}" rs ks env keccak ms clk] assms
  by (simp add: submission_driver_def)

lemma built_endpoint:
  assumes "build_adapter parse header_ok build_ok cfg = Inr (Some ro)"
  shows "\<exists>first rest. enabled_relays cfg = first # rest \<and>
    parse (trim (endpoint first)) = Some (object_endpoint ro) \<and>
    (object_open ro \<longleftrightarrow> allow_non_localhost_endpoint cfg \<or> is_localhost_url (object_endpoint ro))"
proof -
  obtain first rest where fr: "enabled_relays cfg = first # rest"
    using assms by (cases "enabled_relays cfg") (simp_all add: build_adapter_def)
  with assms show ?thesis
    by (auto simp: build_adapter_def Let_def lift_app_def bind_res_Inr_iff flashbots_new_def bloxroute_new_def
        object_endpoint_def object_open_def split: relay_kind.splits sum.splits if_splits option.splits)
qed

text \<open>C10: From the configuration to the wire.  A program built from a configuration that loads makes a
  submission POST only if the configuration says live_send, runs the production profile and signs
  with the HSM; and the POST goes to the first configured relay, on this machine unless the operator
  opted out.\<close>

theorem configured_submission:
  assumes "load_config (\<lambda>x. map_option url_host (parse x)) parsed = Inr c"
    and "build_bundle_relay_from_config parse header_ok build_ok (relay c) = Inr (Some ro)"
    and "snd (ss_world s) = []"
    and "(auth, ep, body, active) \<in> set (snd (ss_world (submission_driver
       (Some (dyn_submit (ledger_env ks env) (\<lambda>wl. ks (fst wl)) ro)) (\<lambda>wl. ks (fst wl)) (gate_from_config c)
       keccak ms clk (lifted_inputs rs) s)))"
  shows "live_send (relay c) \<and> active_profile c = Production \<and> rc_key_backend (relay c) = HsmKms \<and>
    (\<exists>first. enabled_relays (relay c) = [first] \<and> parse (trim (endpoint first)) = Some ep) \<and>
    (allow_non_localhost_endpoint (relay c) \<or> is_localhost_url ep)"
proof -
  have "config_ok (\<lambda>x. map_option url_host (parse x)) c"
    using assms(1) by (auto simp: load_config_def bind_res_Inr_iff validate_config_ok)
  then have "length (enabled_relays (relay c)) \<le> 1" by (simp add: config_ok_def)
  with built_endpoint[OF assms(2)[unfolded build_bundle_relay_from_config_def]]
    submission_posts_ok[OF assms(3,4)]
  show ?thesis
    by (auto simp: posting_ok_def permits_submission_def gate_from_config_def)
qed

lemma dyn_simulate_unsigned:
  "rq_txs req = [] \<Longrightarrow> dyn_simulate env ro req w = (Inl UnsignedBundleUnavailable, w)"
  by (cases ro) (simp_all add: dyn_simulate_def flashbots_simulate_bundle_def bloxroute_simulate_bundle_def)

definition refusals :: "comparator_action set" where
  "refusals = {SentMismatch a | a. mm_category a = Unknown \<and> mm_detail a = RelayError UnsignedBundleUnavailable}"

lemma report_mismatch_world: "cs_world (report_mismatch ms clk cc cid a s) = cs_world s"
  by (simp add: report_mismatch_def split: option.split prod.split bool.split)

lemma comparator_step_refuses:
  assumes "set (cs_sent s) \<subseteq> refusals"
  shows "set (cs_sent (comparator_step (dyn_simulate env ro) ks bd ms clk e s)) \<subseteq> refusals \<and>
    cs_world (comparator_step (dyn_simulate env ro) ks bd ms clk e s) = cs_world s"
proof (cases "is_active (ks (cs_world s)) \<or> (\<exists>err. construct bd (sf_outcome (env_payload e)) = Inl err)")
  case True
  with assms show ?thesis by (auto simp: comparator_step_def Let_def)
next
  case False
  then obtain cand where cand: "construct bd (sf_outcome (env_payload e)) = Inr cand" "\<not> is_active (ks (cs_world s))"
    by (cases "construct bd (sf_outcome (env_payload e))") auto
  define a where "a = abort_with Unknown (RelayError UnsignedBundleUnavailable)
    \<lparr>ci_local = sf_outcome (env_payload e),
     ci_local_shape = \<lparr>bs_expected_inclusion_index = 0, bs_expected_coinbase_transfer_wei = 0\<rparr>,
     ci_local_fingerprint = sf_fingerprint (env_payload e)\<rparr> None"
  have st: "comparator_step (dyn_simulate env ro) ks bd ms clk e s =
       report_mismatch ms clk (env_chain_context e) (env_correlation_id e) a s"
    using cand by (simp add: comparator_step_def Let_def dyn_simulate_unsigned compare_result_def a_def)
  have "SentMismatch a \<in> refusals" by (simp add: refusals_def a_def abort_with_def)
  with report_mismatch_sent[of ms clk "env_chain_context e" "env_correlation_id e" a s] assms
  show ?thesis unfolding st report_mismatch_world by blast
qed

lemma comparator_loop_refuses:
  assumes "set (cs_sent s) \<subseteq> refusals"
  shows "set (cs_sent (comparator_loop (comparator_step (dyn_simulate env ro) ks bd ms clk) ms (lifted_inputs rs) s)) \<subseteq> refusals \<and>
    snd (cs_world (comparator_loop (comparator_step (dyn_simulate env ro) ks bd ms clk) ms (lifted_inputs rs) s)) = snd (cs_world s)"
  using assms
proof (induction rs arbitrary: s)
  case (Cons x rs)
  obtain u r where x: "x = (u, r)" by (meson surj_pair)
  define t where "t = s\<lparr>cs_world := (u (fst (cs_world s)), snd (cs_world s))\<rparr>"
  have t: "set (cs_sent t) \<subseteq> refusals" "snd (cs_world t) = snd (cs_world s)" using Cons.prems by (simp_all add: t_def)
  show ?case
  proof (cases r)
    case (Received e)
    note st = comparator_step_refuses[OF t(1), of env ro ks bd ms clk e]
    from Cons.IH[of "comparator_step (dyn_simulate env ro) ks bd ms clk e t"] st t(2) show ?thesis
      by (simp add: x Received lifted_inputs_simps t_def)
  qed (use t in \<open>simp_all add: x lifted_inputs_simps t_def shut_comparator_def\<close>)
qed (simp add: lifted_inputs_simps)

text \<open>C23: No configured relay can confirm a bundle.  The comparator driver asks for a simulation without
  transactions, and both adapters refuse that before any request: with an adapter built from a
  configuration the driver broadcasts nothing but mismatches of the category Unknown, so no
  submission attempt ever reaches the submission driver, signed or not, and the relay is never
  contacted.\<close>

theorem configured_relays_never_match:
  "set (cs_sent (comparator_driver (Some (dyn_simulate (ledger_env ks env) ro)) (\<lambda>wl. ks (fst wl)) bd ms clk
      (lifted_inputs rs) (s\<lparr>cs_sent := []\<rparr>))) \<subseteq> refusals \<and>
   snd (cs_world (comparator_driver (Some (dyn_simulate (ledger_env ks env) ro)) (\<lambda>wl. ks (fst wl)) bd ms clk
      (lifted_inputs rs) (s\<lparr>cs_sent := []\<rparr>))) = snd (cs_world s)"
  using comparator_loop_refuses[of "s\<lparr>cs_sent := []\<rparr>" "ledger_env ks env" ro "\<lambda>wl. ks (fst wl)" bd ms clk rs]
  by (simp add: comparator_driver_def)

section \<open>The hash the relay echoes\<close>

lemma hex_digit_not_x:
  assumes "n < 16"
  shows "hex_digit n \<noteq> CHR ''x''"
proof -
  have "\<forall>c \<in> set ''0123456789abcdef''. c \<noteq> CHR ''x''" by simp
  moreover have "hex_digit n \<in> set ''0123456789abcdef''" using assms unfolding hex_digit_def by (intro nth_mem) simp
  ultimately show ?thesis by blast
qed

lemma hex_bytes_chars: "c \<in> set (hex_bytes bs) \<Longrightarrow> c \<noteq> CHR ''x''"
proof -
  have lt: "unat b div 16 < 16" for b :: u8
    using unat_lt_exp[of b] by (simp add: less_mult_imp_div_less)
  assume "c \<in> set (hex_bytes bs)"
  then have "\<exists>b::u8. c = hex_digit (unat b div 16) \<or> c = hex_digit (unat b mod 16)"
    unfolding hex_bytes_def by (induction bs) auto
  then show ?thesis using hex_digit_not_x[OF lt] hex_digit_not_x[of "unat _ mod 16"] by fastforce
qed

text \<open>The echoed hash counts as the local one exactly when, white space around it and the case of its
  letters aside, it is the local hash with or without its prefix.\<close>

theorem hash_echo_exact:
  "normalize_hash_hex raw = compute_local_bundle_hash keccak b \<longleftrightarrow>
     map ascii_lower (trim raw) \<in> {compute_local_bundle_hash keccak b, drop 2 (compute_local_bundle_hash keccak b)}"
proof -
  let ?h = "hex_bytes (keccak (concat (sb_signed_txs b)))"
  have "take 2 ?h \<noteq> ''0x''"
    using hex_bytes_chars[of "CHR ''x''" "keccak (concat (sb_signed_txs b))"] in_set_takeD[of "CHR ''x''" 2 ?h] by auto
  then show ?thesis
    by (auto simp: normalize_hash_hex_def compute_local_bundle_hash_def Let_def)
qed

section \<open>Examples\<close>

definition flat_codec :: "'p codec" where
  "flat_codec = \<lparr>cd_to_bytes = (\<lambda>_. Inr [1]), cd_from_bytes = (\<lambda>_. Inl 0), cd_crc = (\<lambda>_. 0)\<rparr>"

definition demo_journal :: journal where
  "demo_journal = \<lparr>jn_writer = (\<lparr>f_data = file_header, f_room = 100\<rparr>, []), jn_byte_offset = 8,
     jn_appended_total = 0, jn_bytes_written_total = 0, jn_read_total = 0, jn_corrupt_frames_total = 0\<rparr>"

definition demo_simulated :: "simulation_outcome_with_fingerprint envelope" where
  "demo_simulated = \<lparr>env_sequence = 1, env_timestamp_ns = 1, env_source = Simulator,
     env_chain_context = \<lparr>chain_id = 1, block_number = 7, block_hash = 11\<rparr>, env_event_version = 1, env_correlation_id = 5,
     env_payload = \<lparr>sf_outcome = demo_outcome, sf_fingerprint = \<lparr>fp_block_hash = 0, fp_observations = []\<rparr>, sf_signed_bundle = None\<rparr>\<rparr>"

definition demo_comparator :: "(unit, journal) comparator_state" where
  "demo_comparator = \<lparr>cs_world = (), cs_seq = 0, cs_tick = 0, cs_journal = demo_journal, cs_sent = []\<rparr>"

definition demo_compared :: "(unit, journal) comparator_state" where
  "demo_compared = comparator_driver (Some (\<lambda>req w. (Inl RelayNotConfigured, w))) (\<lambda>_. kill_switch_new False)
     demo_constructor (file_sink flat_codec) demo_clock [(id, Received demo_simulated)] demo_comparator"

lemma demo_record: "\<exists>j. record_durably (file_sink flat_codec) env demo_journal = (True, j)"
  by (simp add: record_durably_def file_sink_def append_def flat_codec_def demo_journal_def Let_def
      validate_frame_length_def MAX_FRAME_LEN_def bw_write_all_def BUF_CAPACITY_def journal_flush_def
      bw_flush_def os_write_all_def)

lemma demo_construct: "\<exists>c. construct demo_constructor demo_outcome = Inr c"
  by (simp add: construct_def construct_with_context_def Let_def demo_outcome_def demo_constructor_def
      fixed_fraction_bid_def saturating_mul_def)

lemma demo_announced: "\<exists>a. SentMismatch a \<in> set (cs_sent demo_compared)"
proof -
  obtain c where c: "construct demo_constructor demo_outcome = Inr c" using demo_construct by blast
  define a where "a = abort_with Unknown (RelayError RelayNotConfigured)
    \<lparr>ci_local = demo_outcome,
     ci_local_shape = \<lparr>bs_expected_inclusion_index = 0, bs_expected_coinbase_transfer_wei = 0\<rparr>,
     ci_local_fingerprint = \<lparr>fp_block_hash = 0, fp_observations = []\<rparr>\<rparr> None"
  have eq: "demo_compared = report_mismatch (file_sink flat_codec) demo_clock \<lparr>chain_id = 1, block_number = 7, block_hash = 11\<rparr> 5 a demo_comparator"
    using c by (simp add: demo_compared_def comparator_driver_def comparator_step_def demo_simulated_def
        demo_comparator_def Let_def compare_result_def a_def kill_switch_new_def is_active_def)
  obtain env sq where env: "seal_envelope_with_context demo_clock 0 Relay a 0 \<lparr>chain_id = 1, block_number = 7, block_hash = 11\<rparr> 5 = (Some env, sq)"
    using demo_clock_runs
    by (simp add: seal_envelope_with_context_def Let_def seal_def check_envelope_invariants_def no_block_def
        clock_runs_def)
  obtain j where "record_durably (file_sink flat_codec) env demo_journal = (True, j)" using demo_record by blast
  with env show ?thesis
    by (intro exI[of _ a]) (simp add: eq report_mismatch_def demo_comparator_def)
qed

theorem mismatch_announced_only_when_durable_witness:
  "\<exists>env p pre post. SentMismatch (env_payload env) \<in> set (cs_sent demo_compared) \<and>
     env_chain_context env = \<lparr>chain_id = 1, block_number = 7, block_hash = 11\<rparr> \<and> env_correlation_id env = 5 \<and>
     cd_to_bytes flat_codec env = Inr p \<and>
     f_data (fst (jn_writer (cs_journal demo_compared)))
       = pre @ frame_of (flat_codec :: mismatch_abort codec) p @ post"
proof -
  obtain a where a: "SentMismatch a \<in> set (cs_sent demo_compared)" using demo_announced by blast
  have "cs_sent demo_comparator = []" by (simp add: demo_comparator_def)
  from mismatch_announced_only_when_durable[OF this a[unfolded demo_compared_def]]
  obtain e env p pre post and simulate :: "relay_sim_request \<Rightarrow> unit \<Rightarrow> (relay_sim_error + relay_simulation_outcome) \<times> unit"
    where m: "Received e \<in> snd ` set [(id :: unit \<Rightarrow> unit, Received demo_simulated)]"
    "found_for simulate demo_constructor e env" "env_payload env = a" "cd_to_bytes flat_codec env = Inr p"
    "f_data (fst (jn_writer (cs_journal demo_compared))) = pre @ frame_of (flat_codec :: mismatch_abort codec) p @ post"
    unfolding demo_compared_def by blast
  then have "env_chain_context env = \<lparr>chain_id = 1, block_number = 7, block_hash = 11\<rparr> \<and> env_correlation_id env = 5"
    by (simp add: found_for_def demo_simulated_def)
  with m a show ?thesis by blast
qed

definition demo_endpoint :: url where
  "demo_endpoint = \<lparr>url_text = ''http://localhost:8545'', url_host = Some ''localhost''\<rparr>"

definition demo_parse :: url_parse where
  "demo_parse s = (if s = ''http://localhost:8545'' then Some demo_endpoint else None)"

definition silent_env :: "unit relay_env" where
  "silent_env = \<lparr>re_post = (\<lambda>auth ep body w. (Inl HttpTimeout, w)), re_parse_call = (\<lambda>_. None),
     re_parse_send = (\<lambda>_. None), re_from_str_radix = (\<lambda>_ _. None), re_unix_ns = (\<lambda>_. None)\<rparr>"

definition demo_attempt :: submission_attempt where
  "demo_attempt = \<lparr>sa_signed_bundle = \<lparr>sb_block_hash = 0, sb_state_block_number = 7,
     sb_signed_txs = [replicate 64 0], sb_coinbase_recipient = 0, sb_coinbase_transfer_wei = 0,
     sb_validity_block_min = 8, sb_validity_block_max = 8\<rparr>\<rparr>"

definition demo_submission :: "(unit \<times> posting list, journal) submission_state" where
  "demo_submission = \<lparr>ss_world = ((), []), ss_seq = 0, ss_tick = 0, ss_journal = demo_journal\<rparr>"

definition demo_relay :: relay_object where
  "demo_relay = FlashbotsObject \<lparr>fr_name = ''flashbots'', fr_endpoint = demo_endpoint,
     fr_timeout = 2000, fr_allow_non_localhost = False\<rparr>"

definition demo_submitted :: "(unit \<times> posting list, journal) submission_state" where
  "demo_submitted = submission_driver
     (Some (dyn_submit (ledger_env (\<lambda>_. kill_switch_new False) silent_env) (\<lambda>wl. kill_switch_new False) demo_relay))
     (\<lambda>wl. kill_switch_new False) (gate_from_config demo_config) id (file_sink flat_codec) demo_clock
     (lifted_inputs [(id, RxLagged 3), (id, Received demo_attempt)]) demo_submission"

lemma demo_gate: "permits_submission (gate_from_config demo_config)"
  by (simp add: permits_submission_def gate_from_config_def demo_config_def)

lemma demo_posting:
  "(None, demo_endpoint, send_bundle_body (sa_signed_bundle demo_attempt), False) \<in> set (snd (ss_world demo_submitted))"
proof -
  have "bundle_bytes_plausible (sa_signed_bundle demo_attempt)"
    by (simp add: bundle_bytes_plausible_def demo_attempt_def)
  then show ?thesis
    by (simp add: demo_submitted_def submission_driver_def lifted_inputs_simps submission_step_world demo_gate
        dyn_submit_def demo_relay_def flashbots_submit_bundle_def submit_ledger demo_submission_def
        kill_switch_new_def is_active_def is_localhost_url_def demo_endpoint_def)
qed

theorem submissions_gated_witness:
  "permits_submission (gate_from_config demo_config) \<and> demo_endpoint = object_endpoint demo_relay"
proof -
  have "snd (ss_world demo_submission) = []" by (simp add: demo_submission_def)
  from submissions_gated[OF this demo_posting[unfolded demo_submitted_def]] show ?thesis by blast
qed

theorem configured_submission_witness:
  "live_send (relay demo_config) \<and> demo_parse (trim ''http://localhost:8545'') = Some demo_endpoint"
proof -
  have "(\<lambda>x. map_option url_host (demo_parse x)) = demo_url"
    by (simp add: fun_eq_iff demo_parse_def demo_url_def demo_endpoint_def)
  then have load: "load_config (\<lambda>x. map_option url_host (demo_parse x)) (Inr demo_config) = Inr demo_config"
    using demo_config_valid by (simp add: load_config_def)
  have built: "build_bundle_relay_from_config demo_parse (\<lambda>_. True) True (relay demo_config) = Inr (Some demo_relay)"
    by (simp add: build_bundle_relay_from_config_def build_adapter_def demo_config_def default_relay_config_def
        Let_def lift_app_def flashbots_new_def trim_def is_ws_def demo_parse_def demo_relay_def)
  have "snd (ss_world demo_submission) = []" by (simp add: demo_submission_def)
  from configured_submission[OF load built this demo_posting[unfolded demo_submitted_def]]
  have live: "live_send (relay demo_config)"
    and "\<exists>first. enabled_relays (relay demo_config) = [first] \<and> demo_parse (trim (endpoint first)) = Some demo_endpoint"
    by blast+
  then show ?thesis by (auto simp: demo_config_def default_relay_config_def)
qed

end
