(* ===== verification/Reconcile.thy ===== *)
theory Reconcile
  imports Sim_Types
begin

text \<open>
  The diagnostic that compares the heuristic profit of an opportunity with the simulated one
  (\<open>crates/simulator/src/reconcile.rs\<close>).  The 128-bit saturations are kept; the signed ratio is an
  integer within the bounds of \<open>i64\<close>.
\<close>

record reconciliation_report =
  ratio_bps :: "int option"
  sign_flip :: bool
  revm_unprofitable_after_heuristic_pass :: bool

datatype reconciliation_label = EqualProfit | Divergent | RevmUnprofitable

definition u256_to_u128_sat :: "u256 \<Rightarrow> u128" where
  "u256_to_u128_sat v =
     (if \<exists>b \<in> set (take 16 (u256_to_be v)). b \<noteq> 0 then - 1
      else word_of_nat (be_to_nat (drop 16 (u256_to_be v))))"

definition ratio_of :: "u128 \<Rightarrow> u128 \<Rightarrow> int" where
  "ratio_of h r =
     (let positive = h \<le> r;
          abs_delta = (if positive then r - h else h - r);
          bps = saturating_mul abs_delta 10000 div max h 1;
          signed = (if positive then 1 else - 1) * min (int (unat bps)) (2 ^ 127 - 1)
      in max (- (2 ^ 63)) (min (2 ^ 63 - 1) signed))"

definition reconcile :: "u256 \<Rightarrow> u256 \<Rightarrow> sim_status \<Rightarrow> reconciliation_report \<times> reconciliation_label" where
  "reconcile heuristic_wei revm_wei status =
     (let success = (status = Success); heuristic_zero = (heuristic_wei = 0); revm_zero = (revm_wei = 0) in
      (\<lparr>ratio_bps = (if heuristic_zero then None
          else Some (ratio_of (u256_to_u128_sat heuristic_wei) (u256_to_u128_sat revm_wei))),
        sign_flip = (heuristic_zero \<noteq> revm_zero),
        revm_unprofitable_after_heuristic_pass = (\<not> success \<or> revm_zero \<and> \<not> heuristic_zero)\<rparr>,
       if \<not> success \<or> revm_zero \<and> \<not> heuristic_zero then RevmUnprofitable
       else if heuristic_wei = revm_wei then EqualProfit
       else Divergent))"

section \<open>The ratio\<close>

lemma be_to_nat_split: "be_to_nat bs = be_to_nat (take n bs) * 256 ^ (length bs - n) + be_to_nat (drop n bs)"
proof -
  have app: "le_to_nat (xs @ ys) = le_to_nat xs + 256 ^ length xs * le_to_nat ys" for xs ys
    by (induction xs) (simp_all add: algebra_simps)
  have "be_to_nat (xs @ ys) = be_to_nat xs * 256 ^ length ys + be_to_nat ys" for xs ys
    by (simp add: be_to_nat_def app)
  from this[of "take n bs" "drop n bs"] show ?thesis by simp
qed

lemma unat_u128_sat: "unat (u256_to_u128_sat v) = min (unat v) (2 ^ 128 - 1)"
proof -
  let ?bs = "u256_to_be v" let ?hi = "be_to_nat (take 16 ?bs)" let ?lo = "be_to_nat (drop 16 ?bs)"
  have v: "unat v = ?hi * 2 ^ 128 + ?lo"
    using be_to_nat_split[of ?bs 16] unat_lt_exp[of v] by (simp add: u256_to_be_def be_to_nat_nat_to_be)
  have lo: "?lo < 2 ^ 128" using be_to_nat_bound[of "drop 16 ?bs"] by simp
  have zero: "be_to_nat xs = 0 \<longleftrightarrow> (\<forall>b \<in> set xs. b = 0)" for xs
  proof -
    have "le_to_nat ys = 0 \<longleftrightarrow> (\<forall>b \<in> set ys. b = 0)" for ys
      by (induction ys) (auto simp: unat_eq_0)
    then show ?thesis by (simp add: be_to_nat_def)
  qed
  show ?thesis
  proof (cases "?hi = 0")
    case True
    with lo v zero[of "take 16 ?bs"] show ?thesis
      by (simp add: u256_to_u128_sat_def unsigned_of_nat take_bit_nat_eq_self)
  next
    case False
    then have "2 ^ 128 \<le> unat v" unfolding v by (simp add: trans_le_add1)
    with False zero[of "take 16 ?bs"] show ?thesis
      by (auto simp: u256_to_u128_sat_def unat_max_word)
  qed
qed

text \<open>For profits below \<open>2 ^ 113\<close> wei nothing saturates: the ratio is the relative difference in basis
  points, rounded towards zero and clamped to \<open>i64\<close>.\<close>

lemma signed_difference:
  "m < n \<Longrightarrow> sgn (int n - int m) = 1 \<and> \<bar>int n - int m\<bar> = int (n - m)"
  "m < n \<Longrightarrow> sgn (int m - int n) = - 1 \<and> \<bar>int m - int n\<bar> = int (n - m)"
  by (simp_all add: of_nat_diff sgn_if)

lemma reconcile_ratio_exact:
  assumes "unat h < 2 ^ 113" "unat r < 2 ^ 113" "h \<noteq> 0"
  shows "ratio_bps (fst (reconcile h r st)) =
    Some (max (- (2 ^ 63)) (min (2 ^ 63 - 1)
      (sgn (int (unat r) - int (unat h)) * (10000 * \<bar>int (unat r) - int (unat h)\<bar> div int (unat h)))))"
proof -
  let ?h = "u256_to_u128_sat h" let ?r = "u256_to_u128_sat r"
  have u: "unat ?h = unat h" "unat ?r = unat r" using assms(1,2) by (simp_all add: unat_u128_sat)
  have pos: "0 < unat h" using assms(3) by (simp add: unat_eq_0 zero_less_iff_neq_zero)
  then have "1 \<le> ?h" by (simp add: word_le_nat_alt u)
  then have mx: "max ?h 1 = ?h" by (rule max_absorb1)
  have core: "int (unat (saturating_mul d 10000 div ?h)) = 10000 * int (unat d) div int (unat h)"
    and small: "int (unat (saturating_mul d 10000 div ?h)) \<le> 2 ^ 127 - 1"
    if "unat d < 2 ^ 113" for d
  proof -
    have k: "unat (10000 :: u128) = 10000" by simp
    have s: "unat (saturating_mul d 10000) = unat d * 10000" using that by (simp add: unat_saturating_mul)
    show "int (unat (saturating_mul d 10000 div ?h)) = 10000 * int (unat d) div int (unat h)"
      by (simp add: unat_div_distrib s u zdiv_int mult.commute)
    have "unat (saturating_mul d 10000 div ?h) \<le> unat d * 10000"
      by (simp add: unat_div_distrib s div_le_dividend)
    moreover have "int n \<le> 2 ^ 127 - 1" if "n \<le> m * 10000" "m < 2 ^ 113" for n m :: nat using that by simp
    ultimately show "int (unat (saturating_mul d 10000 div ?h)) \<le> 2 ^ 127 - 1" using that by blast
  qed
  have delta: "unat (?r - ?h) = unat r - unat h" if "?h \<le> ?r" using that by (simp add: unat_sub_if' word_le_nat_alt u)
  have delta': "unat (?h - ?r) = unat h - unat r" if "\<not> ?h \<le> ?r" using that by (simp add: unat_sub_if' word_le_nat_alt u)
  have ratio: "ratio_bps (fst (reconcile h r st)) = Some (ratio_of ?h ?r)"
    using assms(3) by (simp add: reconcile_def Let_def)
  have up: "ratio_of ?h ?r = max (- (2 ^ 63)) (min (2 ^ 63 - 1) (1 * (10000 * int (unat r - unat h) div int (unat h))))"
    if "?h \<le> ?r" "unat (?r - ?h) < 2 ^ 113"
    using that(1) by (simp only: ratio_of_def Let_def if_True mx core[OF that(2)] delta[OF that(1)]
      min_absorb1[OF small[OF that(2), unfolded core[OF that(2)] delta[OF that(1)]]])
  have down: "ratio_of ?h ?r = max (- (2 ^ 63)) (min (2 ^ 63 - 1) (- 1 * (10000 * int (unat h - unat r) div int (unat h))))"
    if "\<not> ?h \<le> ?r" "unat (?h - ?r) < 2 ^ 113"
    using that(1) by (simp only: ratio_of_def Let_def if_False mx core[OF that(2)] delta'[OF that(1)]
      min_absorb1[OF small[OF that(2), unfolded core[OF that(2)] delta'[OF that(1)]]])
  show ?thesis unfolding ratio
  proof (cases "?h \<le> ?r")
    case True
    then have le: "unat h \<le> unat r" by (simp add: word_le_nat_alt u)
    have b: "unat (?r - ?h) < 2 ^ 113" using assms(2) by (simp add: delta[OF True])
    show "Some (ratio_of ?h ?r) = Some (max (- (2 ^ 63)) (min (2 ^ 63 - 1)
      (sgn (int (unat r) - int (unat h)) * (10000 * \<bar>int (unat r) - int (unat h)\<bar> div int (unat h)))))"
    proof (cases "unat r = unat h")
      case eq: True
      show ?thesis unfolding up[OF True b] eq by simp
    next
      case False
      with le signed_difference(1)[of "unat h" "unat r"]
      have "sgn (int (unat r) - int (unat h)) = 1" "\<bar>int (unat r) - int (unat h)\<bar> = int (unat r - unat h)"
        by linarith+
      then show ?thesis unfolding up[OF True b] by (simp only:)
    qed
  next
    case False
    then have lt: "unat r < unat h" by (simp add: word_le_nat_alt u)
    have b: "unat (?h - ?r) < 2 ^ 113" using assms(1) by (simp add: delta'[OF False])
    have "sgn (int (unat r) - int (unat h)) = - 1" "\<bar>int (unat r) - int (unat h)\<bar> = int (unat h - unat r)"
      using signed_difference(2)[OF lt] by blast+
    then show "Some (ratio_of ?h ?r) = Some (max (- (2 ^ 63)) (min (2 ^ 63 - 1)
      (sgn (int (unat r) - int (unat h)) * (10000 * \<bar>int (unat r) - int (unat h)\<bar> div int (unat h)))))"
      unfolding down[OF False b] by (simp only:)
  qed
qed

end
