(* ===== verification/Sim_Database.thy ===== *)
theory Sim_Database
  imports Swap_Calldata
begin

text \<open>
  The databases of the local simulator: the strict wrapper that refuses every read of state nobody
  provided (\<open>crates/simulator/src/strict_db.rs\<close>), the recording wrapper
  (\<open>crates/simulator/src/recording_db.rs\<close>) and the database a fixture is loaded into
  (\<open>crates/simulator/src/cache_db_builder.rs\<close>).  revm's \<open>CacheDB\<close> is a parameter under the contract of
  the locale \<open>cache_db\<close>; the trait \<open>Database\<close> is a record of its operations.
\<close>

section \<open>The types of revm the sources use\<close>

record account_info =
  ai_balance :: u256
  ai_nonce :: u64
  ai_code_hash :: b256
  ai_code :: "bytes option"

text \<open>What a committed transaction did to one account: its info and the slots it touched with their
  present values.\<close>

record account_change =
  ac_info :: account_info
  ac_storage :: "(u256 \<times> u256) list"

type_synonym changes = "(address \<times> account_change) list"

definition code_hash :: "(bytes \<Rightarrow> bytes) \<Rightarrow> bytes \<Rightarrow> b256" where
  "code_hash keccak code = u256_from_be (keccak code)"

definition KECCAK_EMPTY :: "(bytes \<Rightarrow> bytes) \<Rightarrow> b256" where
  "KECCAK_EMPTY keccak = code_hash keccak []"

text \<open>The traits \<open>Database\<close> and \<open>DatabaseCommit\<close>.\<close>

record ('d, 'e) database =
  db_basic :: "address \<Rightarrow> 'd \<Rightarrow> ('e + account_info option) \<times> 'd"
  db_code_by_hash :: "b256 \<Rightarrow> 'd \<Rightarrow> ('e + bytes) \<times> 'd"
  db_storage :: "address \<Rightarrow> u256 \<Rightarrow> 'd \<Rightarrow> ('e + u256) \<times> 'd"
  db_block_hash :: "u64 \<Rightarrow> 'd \<Rightarrow> ('e + b256) \<times> 'd"
  db_commit :: "changes \<Rightarrow> 'd \<Rightarrow> 'd"

text \<open>\<open>CacheDB<EmptyDB>\<close>: the trait and the two insertions.\<close>

record 'd cache_db_ops =
  cd_empty :: 'd
  cd_insert_account_info :: "address \<Rightarrow> account_info \<Rightarrow> 'd \<Rightarrow> 'd"
  cd_insert_account_storage :: "address \<Rightarrow> u256 \<Rightarrow> u256 \<Rightarrow> 'd \<Rightarrow> (string + unit) \<times> 'd"
  cd_database :: "('d, string) database"

section \<open>The strict database\<close>

datatype strict_missing_error =
    MissingAccount address
  | MissingStorage address u256
  | MissingCodeHash b256
  | MissingBlockHash u64

record 'd strict_db =
  sb_inner :: 'd
  populated_accounts :: "address set"
  populated_storage :: "(address \<times> u256) set"

definition strict_default :: "'d cache_db_ops \<Rightarrow> 'd strict_db" where
  "strict_default cd = \<lparr>sb_inner = cd_empty cd, populated_accounts = {}, populated_storage = {}\<rparr>"

definition strict_insert_account ::
  "'d cache_db_ops \<Rightarrow> address \<Rightarrow> account_info \<Rightarrow> 'd strict_db \<Rightarrow> 'd strict_db" where
  "strict_insert_account cd addr info s =
     s\<lparr>sb_inner := cd_insert_account_info cd addr info (sb_inner s),
       populated_accounts := insert addr (populated_accounts s)\<rparr>"

definition strict_insert_storage ::
  "'d cache_db_ops \<Rightarrow> address \<Rightarrow> u256 \<Rightarrow> u256 \<Rightarrow> 'd strict_db
   \<Rightarrow> (strict_missing_error + unit) \<times> 'd strict_db" where
  "strict_insert_storage cd addr slot v s =
     (case cd_insert_account_storage cd addr slot v (sb_inner s) of
        (Inl e, d) \<Rightarrow> (Inl (MissingStorage addr slot), s\<lparr>sb_inner := d\<rparr>)
      | (Inr _, d) \<Rightarrow>
          (Inr (), s\<lparr>sb_inner := d, populated_accounts := insert addr (populated_accounts s),
             populated_storage := insert (addr, slot) (populated_storage s)\<rparr>))"

definition strict_basic ::
  "'d cache_db_ops \<Rightarrow> address \<Rightarrow> 'd strict_db
   \<Rightarrow> (strict_missing_error + account_info option) \<times> 'd strict_db" where
  "strict_basic cd addr s =
     (if addr \<notin> populated_accounts s then (Inl (MissingAccount addr), s)
      else case db_basic (cd_database cd) addr (sb_inner s) of
        (Inr v, d) \<Rightarrow> (Inr v, s\<lparr>sb_inner := d\<rparr>)
      | (Inl e, d) \<Rightarrow> (Inl (MissingAccount addr), s\<lparr>sb_inner := d\<rparr>))"

definition strict_code_by_hash ::
  "'d cache_db_ops \<Rightarrow> (bytes \<Rightarrow> bytes) \<Rightarrow> b256 \<Rightarrow> 'd strict_db
   \<Rightarrow> (strict_missing_error + bytes) \<times> 'd strict_db" where
  "strict_code_by_hash cd keccak h s =
     (if h = KECCAK_EMPTY keccak then (Inr [], s)
      else case db_code_by_hash (cd_database cd) h (sb_inner s) of
        (Inr bc, d) \<Rightarrow> (if bc \<noteq> [] then Inr bc else Inl (MissingCodeHash h), s\<lparr>sb_inner := d\<rparr>)
      | (Inl e, d) \<Rightarrow> (Inl (MissingCodeHash h), s\<lparr>sb_inner := d\<rparr>))"

definition strict_storage ::
  "'d cache_db_ops \<Rightarrow> address \<Rightarrow> u256 \<Rightarrow> 'd strict_db
   \<Rightarrow> (strict_missing_error + u256) \<times> 'd strict_db" where
  "strict_storage cd addr index s =
     (if (addr, index) \<notin> populated_storage s then (Inl (MissingStorage addr index), s)
      else case db_storage (cd_database cd) addr index (sb_inner s) of
        (Inr v, d) \<Rightarrow> (Inr v, s\<lparr>sb_inner := d\<rparr>)
      | (Inl e, d) \<Rightarrow> (Inl (MissingStorage addr index), s\<lparr>sb_inner := d\<rparr>))"

definition strict_block_hash ::
  "u64 \<Rightarrow> 'd strict_db \<Rightarrow> (strict_missing_error + b256) \<times> 'd strict_db" where
  "strict_block_hash n s = (Inl (MissingBlockHash n), s)"

text \<open>The slots a set of changes names.\<close>

definition touched :: "changes \<Rightarrow> (address \<times> u256) set" where
  "touched ch = (\<Union>(a, c) \<in> set ch. (\<lambda>p. (a, fst p)) ` set (ac_storage c))"

definition strict_commit :: "'d cache_db_ops \<Rightarrow> changes \<Rightarrow> 'd strict_db \<Rightarrow> 'd strict_db" where
  "strict_commit cd ch s =
     s\<lparr>sb_inner := db_commit (cd_database cd) ch (sb_inner s),
       populated_accounts := populated_accounts s \<union> fst ` set ch,
       populated_storage := populated_storage s \<union> touched ch\<rparr>"

definition strict_database ::
  "'d cache_db_ops \<Rightarrow> (bytes \<Rightarrow> bytes) \<Rightarrow> ('d strict_db, strict_missing_error) database" where
  "strict_database cd keccak =
     \<lparr>db_basic = strict_basic cd, db_code_by_hash = strict_code_by_hash cd keccak,
      db_storage = strict_storage cd, db_block_hash = strict_block_hash, db_commit = strict_commit cd\<rparr>"

section \<open>The recording database\<close>

record 'd recording_db =
  rd_inner :: 'd
  rd_reads :: "state_observation list"

definition recording_new :: "'d \<Rightarrow> 'd recording_db" where
  "recording_new d = \<lparr>rd_inner = d, rd_reads = []\<rparr>"

definition through ::
  "('d \<Rightarrow> 'r \<times> 'd) \<Rightarrow> 'd recording_db \<Rightarrow> 'r \<times> 'd recording_db" where
  "through f s = (case f (rd_inner s) of (r, d) \<Rightarrow> (r, s\<lparr>rd_inner := d\<rparr>))"

definition recording_storage ::
  "('d, 'e) database \<Rightarrow> address \<Rightarrow> u256 \<Rightarrow> 'd recording_db \<Rightarrow> ('e + u256) \<times> 'd recording_db" where
  "recording_storage db addr index s =
     (case db_storage db addr index (rd_inner s) of
        (Inl e, d) \<Rightarrow> (Inl e, s\<lparr>rd_inner := d\<rparr>)
      | (Inr v, d) \<Rightarrow>
          (Inr v, s\<lparr>rd_inner := d,
             rd_reads := rd_reads s @ [\<lparr>ob_account = addr, ob_slot = index, ob_value = v\<rparr>]\<rparr>))"

definition recording_database ::
  "('d, 'e) database \<Rightarrow> ('d recording_db, 'e) database" where
  "recording_database db =
     \<lparr>db_basic = (\<lambda>a. through (db_basic db a)), db_code_by_hash = (\<lambda>h. through (db_code_by_hash db h)),
      db_storage = recording_storage db, db_block_hash = (\<lambda>n. through (db_block_hash db n)),
      db_commit = (\<lambda>ch s. s\<lparr>rd_inner := db_commit db ch (rd_inner s)\<rparr>)\<rparr>"

section \<open>Loading a fixture\<close>

record auxiliary_accounts =
  mock_router_address :: address
  mock_router_bytecode :: bytes
  mock_router_eth_balance_wei :: u256
  mock_router_weth_balance_wei :: u256

record 'd prepared_simulation =
  ps_db :: "'d strict_db"
  pre_router_weth_wei :: u256

fun insert_slots ::
  "'d cache_db_ops \<Rightarrow> setup_error \<Rightarrow> address \<Rightarrow> (u256 \<times> b256) list \<Rightarrow> 'd strict_db
   \<Rightarrow> simulation_error + 'd strict_db" where
  "insert_slots cd err addr [] s = Inr s"
| "insert_slots cd err addr ((slot, v) # slots) s =
     (case strict_insert_storage cd addr slot v s of
        (Inl e, s) \<Rightarrow> Inl (SimSetup err)
      | (Inr _, s) \<Rightarrow> insert_slots cd err addr slots s)"

definition code_account :: "(bytes \<Rightarrow> bytes) \<Rightarrow> u256 \<Rightarrow> u64 \<Rightarrow> bytes \<Rightarrow> account_info" where
  "code_account keccak balance nonce code =
     \<lparr>ai_balance = balance, ai_nonce = nonce, ai_code_hash = code_hash keccak code, ai_code = Some code\<rparr>"

definition insert_pool ::
  "'d cache_db_ops \<Rightarrow> (bytes \<Rightarrow> bytes) \<Rightarrow> fetched_pool_state \<Rightarrow> 'd strict_db
   \<Rightarrow> simulation_error + 'd strict_db" where
  "insert_pool cd keccak pool s =
     (let addr = pid_address (fp_pool pool) in
      insert_slots cd InsertPoolStorage addr (fp_pool_storage pool)
        (strict_insert_account cd addr (code_account keccak 0 1 (fp_pool_code pool)) s))"

definition insert_account_full ::
  "'d cache_db_ops \<Rightarrow> (bytes \<Rightarrow> bytes) \<Rightarrow> fetched_account \<Rightarrow> 'd strict_db
   \<Rightarrow> simulation_error + 'd strict_db" where
  "insert_account_full cd keccak acc s =
     (let nonce = (if fa_code acc = [] then 0 else 1) in
      insert_slots cd InsertAccountStorage (fa_address acc) (fa_storage acc)
        (strict_insert_account cd (fa_address acc) (code_account keccak 0 nonce (fa_code acc)) s))"

fun insert_accounts ::
  "'d cache_db_ops \<Rightarrow> (bytes \<Rightarrow> bytes) \<Rightarrow> fetched_account list \<Rightarrow> 'd strict_db
   \<Rightarrow> simulation_error + 'd strict_db" where
  "insert_accounts cd keccak [] s = Inr s"
| "insert_accounts cd keccak (acc # accs) s =
     bind_res (insert_account_full cd keccak acc s) (insert_accounts cd keccak accs)"

definition build_prepared ::
  "'d cache_db_ops \<Rightarrow> (bytes \<Rightarrow> bytes) \<Rightarrow> fetched_pool_state \<Rightarrow> fetched_pool_state
   \<Rightarrow> fetched_account list \<Rightarrow> auxiliary_accounts \<Rightarrow> address \<Rightarrow> u256
   \<Rightarrow> simulation_error + 'd prepared_simulation" where
  "build_prepared cd keccak source_st sink_st extra aux weth_address weth_router_balance_slot =
     (if fp_hash source_st \<noteq> fp_hash sink_st
      then Inl (SimSetup (PoolHashMismatch (fp_hash source_st) (fp_hash sink_st)))
      else case List.find (\<lambda>acc. fa_block_hash acc \<noteq> fp_hash source_st) extra of
        Some acc \<Rightarrow> Inl (SimSetup (AuxHashMismatch (fa_address acc) (fa_block_hash acc) (fp_hash source_st)))
      | None \<Rightarrow>
        bind_res (insert_pool cd keccak source_st (strict_default cd)) (\<lambda>s.
        bind_res (if pid_address (fp_pool sink_st) \<noteq> pid_address (fp_pool source_st)
                  then insert_pool cd keccak sink_st s else Inr s) (\<lambda>s.
        bind_res (insert_accounts cd keccak extra s) (\<lambda>s.
        let s = strict_insert_account cd (mock_router_address aux)
              (code_account keccak (mock_router_eth_balance_wei aux) 0 (mock_router_bytecode aux)) s in
        (case strict_storage cd weth_address weth_router_balance_slot s of
           (Inl e, s) \<Rightarrow> Inl (SimSetup (WethSlotNotPopulated weth_router_balance_slot weth_address))
         | (Inr pre, s) \<Rightarrow>
             if pre \<noteq> mock_router_weth_balance_wei aux
             then Inl (SimSetup (WethSnapshotDiffers pre (mock_router_weth_balance_wei aux)))
             else Inr \<lparr>ps_db = s, pre_router_weth_wei = pre\<rparr>)))))"

section \<open>The contract of the inner database\<close>

text \<open>\<open>slot d a s\<close> is what the database holds in a slot.  Insertion never fails on \<open>EmptyDB\<close>, reads answer
  what is held and change nothing held.\<close>

locale cache_db =
  fixes cd :: "'d cache_db_ops" and slot :: "'d \<Rightarrow> address \<Rightarrow> u256 \<Rightarrow> u256"
  assumes empty_slot: "slot (cd_empty cd) a i = 0"
    and insert_info_slot: "slot (cd_insert_account_info cd a info d) = slot d"
    and insert_storage_ok: "fst (cd_insert_account_storage cd a i v d) = Inr ()"
    and insert_storage_slot: "slot (snd (cd_insert_account_storage cd a i v d)) b j
          = (if a = b \<and> i = j then v else slot d b j)"
    and storage_value: "fst (db_storage (cd_database cd) a i d) = Inr (slot d a i)"
    and storage_keeps: "slot (snd (db_storage (cd_database cd) a i d)) = slot d"
    and basic_keeps: "slot (snd (db_basic (cd_database cd) a d)) = slot d"
    and code_keeps: "slot (snd (db_code_by_hash (cd_database cd) h d)) = slot d"

text \<open>The blocks of slots a fixture loads, in the order of loading; a later write wins.\<close>

definition fixture_blocks ::
  "fetched_pool_state \<Rightarrow> fetched_pool_state \<Rightarrow> fetched_account list \<Rightarrow> (address \<times> (u256 \<times> b256) list) list" where
  "fixture_blocks source_st sink_st extra =
     (pid_address (fp_pool source_st), fp_pool_storage source_st) #
     (if pid_address (fp_pool sink_st) \<noteq> pid_address (fp_pool source_st)
      then [(pid_address (fp_pool sink_st), fp_pool_storage sink_st)] else []) @
     map (\<lambda>acc. (fa_address acc, fa_storage acc)) extra"

fun loaded :: "(address \<times> (u256 \<times> b256) list) list \<Rightarrow> (address \<Rightarrow> u256 \<Rightarrow> u256 option) \<Rightarrow> address \<Rightarrow> u256 \<Rightarrow> u256 option" where
  "loaded [] m = m"
| "loaded ((a, slots) # bs) m = loaded bs (m(a := m a ++ map_of (rev slots)))"

lemma loaded_append: "loaded (bs @ cs) m = loaded cs (loaded bs m)"
proof (induction bs arbitrary: m)
  case (Cons b bs)
  then show ?case by (cases b) (simp only: append_Cons loaded.simps)
qed simp

context cache_db
begin

definition holds :: "'d strict_db \<Rightarrow> address \<Rightarrow> u256 \<Rightarrow> u256 option" where
  "holds s a i = (if (a, i) \<in> populated_storage s then Some (slot (sb_inner s) a i) else None)"

lemma strict_read:
  "fst (strict_storage cd a i s) = (case holds s a i of Some v \<Rightarrow> Inr v | None \<Rightarrow> Inl (MissingStorage a i))"
  "holds (snd (strict_storage cd a i s)) = holds s"
  using storage_value[of a i "sb_inner s"] storage_keeps[of a i "sb_inner s"]
  by (auto simp: strict_storage_def holds_def fun_eq_iff split: prod.split sum.split)

lemma holds_empty: "holds (strict_default cd) = (\<lambda>_ _. None)"
  by (simp add: strict_default_def holds_def fun_eq_iff)

lemma holds_insert_account: "holds (strict_insert_account cd a info s) = holds s"
  by (simp add: strict_insert_account_def holds_def fun_eq_iff insert_info_slot)

lemma insert_storage_holds:
  "\<exists>s'. strict_insert_storage cd a i v s = (Inr (), s') \<and> holds s' = (holds s)(a := (holds s a)(i \<mapsto> v))"
  using insert_storage_ok[of a i v "sb_inner s"] insert_storage_slot[of a i v "sb_inner s"]
  by (auto simp: strict_insert_storage_def holds_def fun_eq_iff split: prod.split sum.split)

lemma insert_slots_holds:
  "\<exists>s'. insert_slots cd err a slots s = Inr s' \<and> holds s' = (holds s)(a := holds s a ++ map_of (rev slots))"
proof (induction slots arbitrary: s)
  case (Cons p slots)
  obtain i v where p: "p = (i, v)" by (cases p)
  obtain s1 where s1: "strict_insert_storage cd a i v s = (Inr (), s1)"
      "holds s1 = (holds s)(a := (holds s a)(i \<mapsto> v))" using insert_storage_holds by blast
  obtain s2 where "insert_slots cd err a slots s1 = Inr s2"
      "holds s2 = (holds s1)(a := holds s1 a ++ map_of (rev slots))" using Cons.IH by blast
  with s1 show ?case by (simp add: p map_add_def fun_eq_iff split: option.split)
qed simp

lemma insert_pool_holds:
  "\<exists>s'. insert_pool cd keccak pool s = Inr s' \<and>
     holds s' = loaded [(pid_address (fp_pool pool), fp_pool_storage pool)] (holds s)"
  using insert_slots_holds[of InsertPoolStorage _ "fp_pool_storage pool"]
  by (simp add: insert_pool_def Let_def holds_insert_account) (metis holds_insert_account)

lemma insert_account_holds:
  "\<exists>s'. insert_account_full cd keccak acc s = Inr s' \<and> holds s' = loaded [(fa_address acc, fa_storage acc)] (holds s)"
  using insert_slots_holds[of InsertAccountStorage _ "fa_storage acc"]
  by (simp add: insert_account_full_def Let_def holds_insert_account) (metis holds_insert_account)

lemma insert_accounts_holds:
  "\<exists>s'. insert_accounts cd keccak accs s = Inr s' \<and>
     holds s' = loaded (map (\<lambda>acc. (fa_address acc, fa_storage acc)) accs) (holds s)"
proof (induction accs arbitrary: s)
  case (Cons acc accs)
  obtain s1 where s1: "insert_account_full cd keccak acc s = Inr s1"
      "holds s1 = loaded [(fa_address acc, fa_storage acc)] (holds s)" using insert_account_holds by blast
  obtain s2 where s2: "insert_accounts cd keccak accs s1 = Inr s2"
      "holds s2 = loaded (map (\<lambda>acc. (fa_address acc, fa_storage acc)) accs) (holds s1)"
    using Cons.IH by blast
  have "insert_accounts cd keccak (acc # accs) s = Inr s2" by (simp add: s1(1) s2(1))
  moreover have "holds s2 = loaded (map (\<lambda>acc. (fa_address acc, fa_storage acc)) (acc # accs)) (holds s)"
    by (simp only: s2(2) s1(2) list.map loaded.simps)
  ultimately show ?case by blast
qed simp

lemma fixture_loads:
  "\<exists>s1 s2 s3. insert_pool cd keccak a (strict_default cd) = Inr s1 \<and>
     (if pid_address (fp_pool b) \<noteq> pid_address (fp_pool a) then insert_pool cd keccak b s1 else Inr s1) = Inr s2 \<and>
     insert_accounts cd keccak extra s2 = Inr s3 \<and>
     holds s3 = loaded (fixture_blocks a b extra) (\<lambda>_ _. None)"
proof -
  obtain s1 where s1: "insert_pool cd keccak a (strict_default cd) = Inr s1"
      "holds s1 = loaded [(pid_address (fp_pool a), fp_pool_storage a)] (\<lambda>_ _. None)"
    using insert_pool_holds[of keccak a "strict_default cd"] unfolding holds_empty by blast
  obtain s2 where s2: "(if pid_address (fp_pool b) \<noteq> pid_address (fp_pool a) then insert_pool cd keccak b s1 else Inr s1) = Inr s2"
      "holds s2 = loaded (if pid_address (fp_pool b) \<noteq> pid_address (fp_pool a)
         then [(pid_address (fp_pool b), fp_pool_storage b)] else []) (holds s1)"
  proof (cases "pid_address (fp_pool b) = pid_address (fp_pool a)")
    case False
    obtain s2 where "insert_pool cd keccak b s1 = Inr s2"
      "holds s2 = loaded [(pid_address (fp_pool b), fp_pool_storage b)] (holds s1)"
      using insert_pool_holds by blast
    with False show ?thesis by (intro that[of s2]) (simp_all only: if_False if_True simp_thms not_False_eq_True)
  qed (use that in simp)
  obtain s3 where s3: "insert_accounts cd keccak extra s2 = Inr s3"
      "holds s3 = loaded (map (\<lambda>acc. (fa_address acc, fa_storage acc)) extra) (holds s2)"
    using insert_accounts_holds by blast
  have "holds s3 = loaded (fixture_blocks a b extra) (\<lambda>_ _. None)"
    unfolding s3(2) s2(2) s1(2) fixture_blocks_def by (simp add: loaded_append)
  with s1(1) s2(1) s3(1) show ?thesis by blast
qed

lemma build_prepared_exact:
  shows "is_ok (build_prepared cd keccak a b extra aux w ws) \<longleftrightarrow>
     fp_hash a = fp_hash b \<and> (\<forall>acc \<in> set extra. fa_block_hash acc = fp_hash a) \<and>
     loaded (fixture_blocks a b extra) (\<lambda>_ _. None) w ws = Some (mock_router_weth_balance_wei aux)"
    and "build_prepared cd keccak a b extra aux w ws = Inr ps \<Longrightarrow>
     holds (ps_db ps) = loaded (fixture_blocks a b extra) (\<lambda>_ _. None) \<and>
     pre_router_weth_wei ps = mock_router_weth_balance_wei aux"
proof -
  obtain s1 s2 s3 where s: "insert_pool cd keccak a (strict_default cd) = Inr s1"
      "(if pid_address (fp_pool b) \<noteq> pid_address (fp_pool a) then insert_pool cd keccak b s1 else Inr s1) = Inr s2"
      "insert_accounts cd keccak extra s2 = Inr s3"
      "holds s3 = loaded (fixture_blocks a b extra) (\<lambda>_ _. None)"
    using fixture_loads[of keccak a b extra] by blast
  define s4 where "s4 = strict_insert_account cd (mock_router_address aux)
      (code_account keccak (mock_router_eth_balance_wei aux) 0 (mock_router_bytecode aux)) s3"
  have h4: "holds s4 = loaded (fixture_blocks a b extra) (\<lambda>_ _. None)"
    unfolding s4_def holds_insert_account by (rule s(4))
  obtain r s5 where r: "strict_storage cd w ws s4 = (r, s5)" by (meson surj_pair)
  have r': "r = (case holds s4 w ws of Some v \<Rightarrow> Inr v | None \<Rightarrow> Inl (MissingStorage w ws))" "holds s5 = holds s4"
    using strict_read[of w ws s4] by (simp_all add: r)
  have b: "build_prepared cd keccak a b extra aux w ws =
     (if fp_hash a \<noteq> fp_hash b then Inl (SimSetup (PoolHashMismatch (fp_hash a) (fp_hash b)))
      else case List.find (\<lambda>acc. fa_block_hash acc \<noteq> fp_hash a) extra of
        Some acc \<Rightarrow> Inl (SimSetup (AuxHashMismatch (fa_address acc) (fa_block_hash acc) (fp_hash a)))
      | None \<Rightarrow> (case holds s4 w ws of
           None \<Rightarrow> Inl (SimSetup (WethSlotNotPopulated ws w))
         | Some pre \<Rightarrow> if pre \<noteq> mock_router_weth_balance_wei aux
             then Inl (SimSetup (WethSnapshotDiffers pre (mock_router_weth_balance_wei aux)))
             else Inr \<lparr>ps_db = s5, pre_router_weth_wei = pre\<rparr>))"
    unfolding build_prepared_def Let_def s(1) bind_res_simps s(2) s(3) s4_def[symmetric] r prod.case r'(1)
    by (cases "holds s4 w ws") (simp_all split: option.split)
  show "is_ok (build_prepared cd keccak a b extra aux w ws) \<longleftrightarrow>
     fp_hash a = fp_hash b \<and> (\<forall>acc \<in> set extra. fa_block_hash acc = fp_hash a) \<and>
     loaded (fixture_blocks a b extra) (\<lambda>_ _. None) w ws = Some (mock_router_weth_balance_wei aux)"
    unfolding b h4[symmetric]
    by (auto simp: find_None_iff split: option.split dest: find_SomeD)
  show "build_prepared cd keccak a b extra aux w ws = Inr ps \<Longrightarrow>
     holds (ps_db ps) = loaded (fixture_blocks a b extra) (\<lambda>_ _. None) \<and>
     pre_router_weth_wei ps = mock_router_weth_balance_wei aux"
    unfolding b h4[symmetric] by (auto simp: r'(2) split: if_splits option.splits)
qed

end

text \<open>An instance: accounts and slots as functions.\<close>

type_synonym flat_db = "(address \<Rightarrow> account_info option) \<times> (address \<Rightarrow> u256 \<Rightarrow> u256)"

fun write_slots :: "address \<Rightarrow> (u256 \<times> u256) list \<Rightarrow> (address \<Rightarrow> u256 \<Rightarrow> u256) \<Rightarrow> address \<Rightarrow> u256 \<Rightarrow> u256" where
  "write_slots a [] f = f"
| "write_slots a ((i, v) # xs) f = write_slots a xs (f(a := (f a)(i := v)))"

fun flat_commit :: "changes \<Rightarrow> flat_db \<Rightarrow> flat_db" where
  "flat_commit [] d = d"
| "flat_commit ((a, c) # ch) (ai, st) = flat_commit ch (ai(a \<mapsto> ac_info c), write_slots a (ac_storage c) st)"

definition flat_db_ops :: "flat_db cache_db_ops" where
  "flat_db_ops =
     \<lparr>cd_empty = (Map.empty, \<lambda>_ _. 0),
      cd_insert_account_info = (\<lambda>a info (ai, st). (ai(a \<mapsto> info), st)),
      cd_insert_account_storage = (\<lambda>a i v (ai, st). (Inr (), (ai, st(a := (st a)(i := v))))),
      cd_database = \<lparr>db_basic = (\<lambda>a (ai, st). (Inr (ai a), (ai, st))),
        db_code_by_hash = (\<lambda>h d. (Inr [], d)),
        db_storage = (\<lambda>a i (ai, st). (Inr (st a i), (ai, st))),
        db_block_hash = (\<lambda>n d. (Inr 0, d)), db_commit = flat_commit\<rparr>\<rparr>"

interpretation flat: cache_db flat_db_ops snd
  by unfold_locales (auto simp: flat_db_ops_def fun_eq_iff)

section \<open>The prepared database is the fixture\<close>

text \<open>C33: A fixture loads exactly when all its parts were recorded at one block hash and it holds the
  router's token balance equal to the amount to be sold; and then the database answers a read with
  the last value the fixture gives the slot and refuses every other slot.  Nothing is defaulted.\<close>

theorem prepared_database_exact:
  assumes "cache_db cd slot"
  shows "case build_prepared cd keccak source_st sink_st extra aux w ws of
     Inl e \<Rightarrow> \<not> (fp_hash source_st = fp_hash sink_st \<and> (\<forall>acc \<in> set extra. fa_block_hash acc = fp_hash source_st) \<and>
       loaded (fixture_blocks source_st sink_st extra) (\<lambda>_ _. None) w ws = Some (mock_router_weth_balance_wei aux))
   | Inr ps \<Rightarrow> fp_hash source_st = fp_hash sink_st \<and> (\<forall>acc \<in> set extra. fa_block_hash acc = fp_hash source_st) \<and>
       loaded (fixture_blocks source_st sink_st extra) (\<lambda>_ _. None) w ws = Some (mock_router_weth_balance_wei aux) \<and>
       pre_router_weth_wei ps = mock_router_weth_balance_wei aux \<and>
       (\<forall>a i. fst (strict_storage cd a i (ps_db ps)) =
         (case loaded (fixture_blocks source_st sink_st extra) (\<lambda>_ _. None) a i of
            Some v \<Rightarrow> Inr v | None \<Rightarrow> Inl (MissingStorage a i)))"
proof (cases "build_prepared cd keccak source_st sink_st extra aux w ws")
  case (Inl e)
  then show ?thesis using cache_db.build_prepared_exact(1)[OF assms, of keccak source_st sink_st extra aux w ws] by simp
next
  case (Inr ps)
  from cache_db.build_prepared_exact(2)[OF assms Inr] have
    h: "cache_db.holds slot (ps_db ps) = loaded (fixture_blocks source_st sink_st extra) (\<lambda>_ _. None)"
      "pre_router_weth_wei ps = mock_router_weth_balance_wei aux" by simp_all
  have "fst (strict_storage cd a i (ps_db ps)) = (case loaded (fixture_blocks source_st sink_st extra) (\<lambda>_ _. None) a i of
      Some v \<Rightarrow> Inr v | None \<Rightarrow> Inl (MissingStorage a i))" for a i
    using cache_db.strict_read(1)[OF assms, of a i "ps_db ps"] unfolding h(1) .
  then show ?thesis using Inr h(2) cache_db.build_prepared_exact(1)[OF assms, of keccak source_st sink_st extra aux w ws] by simp
qed

definition demo_v3_pool :: fetched_pool_state where
  "demo_v3_pool = \<lparr>fp_pool = \<lparr>pid_kind = UniswapV3Fee005, pid_address = 6\<rparr>, fp_hash = 1, fp_pool_code = [],
     fp_pool_storage = [(0, 5)], fp_auxiliary = []\<rparr>"

definition demo_weth :: fetched_account where
  "demo_weth = \<lparr>fa_address = 9, fa_block_hash = 1, fa_code = [], fa_storage = [(3, 100)]\<rparr>"

definition demo_aux :: auxiliary_accounts where
  "demo_aux = \<lparr>mock_router_address = MOCK_ROUTER_ADDRESS, mock_router_bytecode = [], mock_router_eth_balance_wei = 1,
     mock_router_weth_balance_wei = 100\<rparr>"

theorem prepared_database_exact_witness:
  "\<exists>ps. build_prepared flat_db_ops (\<lambda>x. x) demo_v2_pool demo_v3_pool [demo_weth] demo_aux 9 3 = Inr ps \<and>
     fst (strict_storage flat_db_ops 9 3 (ps_db ps)) = Inr 100 \<and>
     fst (strict_storage flat_db_ops 7 12 (ps_db ps)) = Inl (MissingStorage 7 12)"
proof -
  have l: "loaded (fixture_blocks demo_v2_pool demo_v3_pool [demo_weth]) (\<lambda>_ _. None) 9 3 = Some 100"
    "loaded (fixture_blocks demo_v2_pool demo_v3_pool [demo_weth]) (\<lambda>_ _. None) 7 12 = None"
    by (simp_all add: fixture_blocks_def demo_v2_pool_def demo_v3_pool_def demo_weth_def)
  have e: "fp_hash demo_v2_pool = fp_hash demo_v3_pool" "\<forall>acc \<in> set [demo_weth]. fa_block_hash acc = fp_hash demo_v2_pool"
    "mock_router_weth_balance_wei demo_aux = 100"
    by (simp_all add: demo_aux_def demo_v2_pool_def demo_v3_pool_def demo_weth_def)
  show ?thesis
    using prepared_database_exact[OF flat.cache_db_axioms, where keccak = "\<lambda>x. x" and source_st = demo_v2_pool
      and sink_st = demo_v3_pool and extra = "[demo_weth]" and aux = demo_aux and w = 9 and ws = 3]
      e l by (cases "build_prepared flat_db_ops (\<lambda>x. x) demo_v2_pool demo_v3_pool [demo_weth] demo_aux 9 3") auto
qed

section \<open>Recording changes nothing\<close>

lemma through_inner:
  "through f s = (fst (f (rd_inner s)), s\<lparr>rd_inner := snd (f (rd_inner s))\<rparr>)"
  by (simp add: through_def split: prod.split)

lemma recording_storage_inner:
  "\<exists>obs. recording_storage db a i s = (fst (db_storage db a i (rd_inner s)),
     \<lparr>rd_inner = snd (db_storage db a i (rd_inner s)), rd_reads = rd_reads s @ obs\<rparr>) \<and>
     obs = (case fst (db_storage db a i (rd_inner s)) of
       Inl e \<Rightarrow> [] | Inr v \<Rightarrow> [\<lparr>ob_account = a, ob_slot = i, ob_value = v\<rparr>])"
  by (cases s) (auto simp: recording_storage_def split: prod.split sum.split)

end
