(* ===== verification/Sim_Fixtures.thy ===== *)
theory Sim_Fixtures
  imports Sim_Database Risk
begin

text \<open>
  What the local simulator runs on (\<open>crates/simulator/src/lib.rs\<close>): its configuration, the fixture
  slot and the cache behind the mutex, and the prefetch that fills them from the state fetcher.
\<close>

section \<open>Configuration and fixtures\<close>

record sim_config =
  sc_chain_id :: u64
  gas_limit_per_sim :: u64
  base_fee_wei :: u256
  eoa_initial_balance_wei :: u256

definition DEFAULT_GAS_LIMIT_PER_SIM :: u64 where "DEFAULT_GAS_LIMIT_PER_SIM = 30000000"
definition DEFAULT_BASE_FEE_WEI :: u256 where "DEFAULT_BASE_FEE_WEI = 30000000000"
definition DEFAULT_EOA_INITIAL_BALANCE_WEI :: u256 where
  "DEFAULT_EOA_INITIAL_BALANCE_WEI = 100000000000000000000"

definition sim_defaults :: sim_config where
  "sim_defaults =
     \<lparr>sc_chain_id = 1, gas_limit_per_sim = DEFAULT_GAS_LIMIT_PER_SIM,
      base_fee_wei = DEFAULT_BASE_FEE_WEI, eoa_initial_balance_wei = DEFAULT_EOA_INITIAL_BALANCE_WEI\<rparr>"

definition WETH9_BALANCES_SLOT :: u256 where "WETH9_BALANCES_SLOT = 3"
definition USDC_BALANCES_SLOT :: u256 where "USDC_BALANCES_SLOT = 9"
definition TEST_EOA_CALLER :: address where "TEST_EOA_CALLER = address_from_be (replicate 20 0xee)"
definition V2_FACTORY_ADDRESS :: address where
  "V2_FACTORY_ADDRESS = address_from_be
     [0x5c, 0x69, 0xbe, 0xe7, 0x01, 0xef, 0x81, 0x4a, 0x2b, 0x6a, 0x3e, 0xdd, 0x4b, 0x16, 0x52, 0xcb,
      0x9c, 0xc5, 0xaa, 0x6f]"

definition validate_cfg :: "sim_config \<Rightarrow> simulation_error + unit" where
  "validate_cfg cfg =
     (if sc_chain_id cfg = 0 then Inl (SimSetup ZeroChainId)
      else if gas_limit_per_sim cfg = 0 then Inl (SimSetup ZeroGasLimit)
      else if eoa_initial_balance_wei cfg = 0 then Inl (SimSetup ZeroEoaBalance)
      else Inr ())"

record fixture_set =
  fx_block_hash :: b256
  fx_source :: fetched_pool_state
  fx_sink :: fetched_pool_state
  fx_weth :: fetched_account
  fx_usdc_proxy :: fetched_account
  fx_usdc_impl :: fetched_account
  fx_v2_factory :: fetched_account

type_synonym fixture_key = "b256 \<times> address \<times> address"

definition from_fixture :: "fixture_set \<Rightarrow> fixture_key" where
  "from_fixture f = (fx_block_hash f, pid_address (fp_pool (fx_source f)), pid_address (fp_pool (fx_sink f)))"

record 'c simulator_state =
  ls_active :: "fixture_set option"
  ls_cache :: 'c
  ls_freshness_window_blocks :: u64
  ls_last_block_seen :: "u64 option"

text \<open>The LRU cache of the fetcher, with \<open>clear\<close>.\<close>

record ('k, 'v, 'c) lru_ops =
  lru_base :: "('k, 'v, 'c) cache_ops"
  lru_clear :: "'c \<Rightarrow> 'c"

definition with_cache ::
  "(fixture_key, fixture_set, 'c) lru_ops \<Rightarrow> sim_config \<Rightarrow> nat \<Rightarrow> u64
   \<Rightarrow> simulation_error + sim_config \<times> 'c simulator_state" where
  "with_cache lru cfg cache_capacity freshness =
     bind_res (validate_cfg cfg) (\<lambda>_. Inr (cfg,
       \<lparr>ls_active = None, ls_cache = ca_new (lru_base lru) cache_capacity, ls_freshness_window_blocks = freshness,
        ls_last_block_seen = None\<rparr>))"

definition simulator_new ::
  "(fixture_key, fixture_set, 'c) lru_ops \<Rightarrow> sim_config \<Rightarrow> simulation_error + sim_config \<times> 'c simulator_state" where
  "simulator_new lru cfg = with_cache lru cfg 1 1"

definition install_fixture ::
  "(fixture_key, fixture_set, 'c) lru_ops \<Rightarrow> fixture_key \<Rightarrow> fixture_set \<Rightarrow> 'c simulator_state
   \<Rightarrow> 'c simulator_state" where
  "install_fixture lru key fix s = s\<lparr>ls_cache := ca_put (lru_base lru) key fix (ls_cache s), ls_active := Some fix\<rparr>"

definition load_fixture ::
  "(fixture_key, fixture_set, 'c) lru_ops \<Rightarrow> fetched_pool_state \<Rightarrow> fetched_pool_state \<Rightarrow> fetched_account
   \<Rightarrow> fetched_account \<Rightarrow> fetched_account \<Rightarrow> fetched_account \<Rightarrow> 'c simulator_state
   \<Rightarrow> (simulation_error + unit) \<times> 'c simulator_state" where
  "load_fixture lru source_st sink_st weth_acc usdc_proxy usdc_impl v2_factory s =
     (let bh = fp_hash source_st in
      case List.find (\<lambda>p. snd p \<noteq> bh)
        [(''sink'', fp_hash sink_st), (''weth'', fa_block_hash weth_acc), (''usdc_proxy'', fa_block_hash usdc_proxy),
         (''usdc_impl'', fa_block_hash usdc_impl), (''v2_factory'', fa_block_hash v2_factory)] of
        Some (name, hash) \<Rightarrow> (Inl (SimSetup (FixtureHashDiffers name hash bh)), s)
      | None \<Rightarrow>
          (let fix = \<lparr>fx_block_hash = bh, fx_source = source_st, fx_sink = sink_st, fx_weth = weth_acc,
                 fx_usdc_proxy = usdc_proxy, fx_usdc_impl = usdc_impl, fx_v2_factory = v2_factory\<rparr>
           in (Inr (), install_fixture lru (from_fixture fix) fix s)))"

section \<open>The prefetch\<close>

text \<open>The trait \<open>StateFetcher\<close> and its archive implementation.\<close>

record 'f state_fetcher =
  tf_fetch_pool :: "pool_id \<Rightarrow> b256 \<Rightarrow> slot_layout \<Rightarrow> 'f \<Rightarrow> (fetch_error + fetched_pool_state) \<times> 'f"
  tf_fetch_account :: "address \<Rightarrow> u256 list \<Rightarrow> b256 \<Rightarrow> 'f \<Rightarrow> (fetch_error + fetched_account) \<times> 'f"

definition archive_fetcher :: "('w, 'cc, 'sc) fetcher_env \<Rightarrow> ('w, 'cc, 'sc) fetcher state_fetcher" where
  "archive_fetcher fe =
     \<lparr>tf_fetch_pool = fetch_pool fe, tf_fetch_account = fetch_account fe\<rparr>"

definition lift_fetch :: "(fetch_error + 'a) \<times> 'f \<Rightarrow> (simulation_error + 'a) \<times> 'f" where
  "lift_fetch p = (case p of (Inl e, f) \<Rightarrow> (Inl (SimFetch e), f) | (Inr x, f) \<Rightarrow> (Inr x, f))"

definition and_then :: "('e + 'a) \<times> 'f \<Rightarrow> ('a \<Rightarrow> 'f \<Rightarrow> ('e + 'b) \<times> 'f) \<Rightarrow> ('e + 'b) \<times> 'f" where
  "and_then p g = (case p of (Inl e, f) \<Rightarrow> (Inl e, f) | (Inr x, f) \<Rightarrow> g x f)"

definition layout_dispatch ::
  "(bytes \<Rightarrow> bytes) \<Rightarrow> 'f state_fetcher \<Rightarrow> pool_id \<Rightarrow> b256 \<Rightarrow> 'f
   \<Rightarrow> (simulation_error + fetched_pool_state) \<times> 'f" where
  "layout_dispatch keccak tf pool h f =
     lift_fetch (if is_v2 (pid_kind pool) then tf_fetch_pool tf pool h uniswap_v2_layout f
       else tf_fetch_pool tf pool h (uniswap_v3_layout keccak) f)"

definition EIP1967_IMPL_SLOT :: u256 where
  "EIP1967_IMPL_SLOT = 0x360894a13ba1a3210667c828492db98dca3e2076cc3735a920a3ca505d382bbc"
definition ZEPPELINOS_IMPL_SLOT :: u256 where
  "ZEPPELINOS_IMPL_SLOT = 0x7050c9e0f4ca769c69bd3a8ef740bc37934f8e2c036e5a723fd8ee048ed3f8c3"
definition ZEPPELINOS_ADMIN_SLOT :: u256 where
  "ZEPPELINOS_ADMIN_SLOT = 0x10d6a54a4754c8869d6886b5f5d7fbfa5b4522237ea5c60d11bc4e7a1ff9390b"

definition build_usdc_proxy_slots :: "(bytes \<Rightarrow> bytes) \<Rightarrow> address \<Rightarrow> address \<Rightarrow> u256 list" where
  "build_usdc_proxy_slots keccak src snk =
     [EIP1967_IMPL_SLOT, ZEPPELINOS_IMPL_SLOT, ZEPPELINOS_ADMIN_SLOT,
      mapping_slot_u256 keccak USDC_BALANCES_SLOT (address_key MOCK_ROUTER_ADDRESS),
      mapping_slot_u256 keccak USDC_BALANCES_SLOT (address_key src),
      mapping_slot_u256 keccak USDC_BALANCES_SLOT (address_key snk)]
     @ map word_of_nat [0..<16]"

definition nonzero_slot :: "u256 \<Rightarrow> fetched_account \<Rightarrow> b256 option" where
  "nonzero_slot i proxy =
     (case slot_value i (fa_storage proxy) of Some v \<Rightarrow> (if v \<noteq> 0 then Some v else None) | None \<Rightarrow> None)"

definition parse_usdc_impl_address :: "fetched_account \<Rightarrow> address option" where
  "parse_usdc_impl_address proxy =
     (case (case nonzero_slot EIP1967_IMPL_SLOT proxy of
              Some v \<Rightarrow> Some v | None \<Rightarrow> nonzero_slot ZEPPELINOS_IMPL_SLOT proxy) of
        None \<Rightarrow> None
      | Some v \<Rightarrow> Some (address_from_be (drop 12 (u256_to_be v))))"

definition opp_key :: "opportunity_event \<Rightarrow> fixture_key" where
  "opp_key opp = (oo_block_hash opp, pid_address (source_pool opp), pid_address (sink_pool opp))"

text \<open>Phase 1, under the lock: retention, then the cache; whether the fixture was found.\<close>

definition retain :: "(fixture_key, fixture_set, 'c) lru_ops \<Rightarrow> u64 \<Rightarrow> 'c simulator_state \<Rightarrow> 'c simulator_state" where
  "retain lru block s =
     (case ls_last_block_seen s of
        None \<Rightarrow> s\<lparr>ls_last_block_seen := Some block\<rparr>
      | Some seen \<Rightarrow>
          (if seen < block \<and> ls_freshness_window_blocks s \<le> saturating_sub block seen
           then s\<lparr>ls_cache := lru_clear lru (ls_cache s), ls_last_block_seen := Some (max seen block)\<rparr>
           else s\<lparr>ls_last_block_seen := Some (max seen block)\<rparr>))"

definition prefetch_lookup ::
  "(fixture_key, fixture_set, 'c) lru_ops \<Rightarrow> opportunity_event \<Rightarrow> 'c simulator_state \<Rightarrow> bool \<times> 'c simulator_state" where
  "prefetch_lookup lru opp s =
     (let key = opp_key opp; s = retain lru (oo_block_number opp) s in
      case ca_get (lru_base lru) key (ls_cache s) of
        (None, c) \<Rightarrow> (False, s\<lparr>ls_cache := c\<rparr>)
      | (Some fix, c) \<Rightarrow>
          (True, if map_option from_fixture (ls_active s) = Some key then s\<lparr>ls_cache := c\<rparr>
                 else s\<lparr>ls_cache := c, ls_active := Some fix\<rparr>))"

text \<open>Phase 2, without the lock.\<close>

definition prefetch_fetch ::
  "(bytes \<Rightarrow> bytes) \<Rightarrow> 'f state_fetcher \<Rightarrow> opportunity_event \<Rightarrow> address \<Rightarrow> address \<Rightarrow> 'f
   \<Rightarrow> (simulation_error + fixture_set) \<times> 'f" where
  "prefetch_fetch keccak tf opp weth_address usdc_proxy_address f =
     (let h = oo_block_hash opp; src = pid_address (source_pool opp); snk = pid_address (sink_pool opp) in
      and_then (layout_dispatch keccak tf (source_pool opp) h f) (\<lambda>source_st f.
      and_then (layout_dispatch keccak tf (sink_pool opp) h f) (\<lambda>sink_st f.
      and_then (lift_fetch (tf_fetch_account tf weth_address
          [mapping_slot_u256 keccak WETH9_BALANCES_SLOT (address_key MOCK_ROUTER_ADDRESS),
           mapping_slot_u256 keccak WETH9_BALANCES_SLOT (address_key src),
           mapping_slot_u256 keccak WETH9_BALANCES_SLOT (address_key snk)] h f)) (\<lambda>weth_acc f.
      and_then (lift_fetch (tf_fetch_account tf usdc_proxy_address
          (build_usdc_proxy_slots keccak src snk) h f)) (\<lambda>usdc_proxy f.
      case parse_usdc_impl_address usdc_proxy of
        None \<Rightarrow> (Inl (SimSetup ImplSlotZero), f)
      | Some impl_addr \<Rightarrow>
      and_then (lift_fetch (tf_fetch_account tf impl_addr [] h f)) (\<lambda>usdc_impl f.
      and_then (lift_fetch (tf_fetch_account tf V2_FACTORY_ADDRESS [0] h f)) (\<lambda>v2_factory f.
        (Inr \<lparr>fx_block_hash = h, fx_source = source_st, fx_sink = sink_st, fx_weth = weth_acc,
              fx_usdc_proxy = usdc_proxy, fx_usdc_impl = usdc_impl, fx_v2_factory = v2_factory\<rparr>, f))))))))"

text \<open>The three phases; between them the lock is free, and \<open>others\<close> is what other holders did to the
  state while the fetch was under way.\<close>

definition prefetch_for ::
  "(fixture_key, fixture_set, 'c) lru_ops \<Rightarrow> (bytes \<Rightarrow> bytes) \<Rightarrow> 'f state_fetcher
   \<Rightarrow> ('c simulator_state \<Rightarrow> 'c simulator_state) \<Rightarrow> opportunity_event \<Rightarrow> address \<Rightarrow> address
   \<Rightarrow> 'c simulator_state \<Rightarrow> 'f \<Rightarrow> (simulation_error + unit) \<times> 'c simulator_state \<times> 'f" where
  "prefetch_for lru keccak tf others opp weth_address usdc_proxy_address s f =
     (case prefetch_lookup lru opp s of
        (True, s) \<Rightarrow> (Inr (), s, f)
      | (False, s) \<Rightarrow>
          (case prefetch_fetch keccak tf opp weth_address usdc_proxy_address f of
             (Inl e, f) \<Rightarrow> (Inl e, others s, f)
           | (Inr fix, f) \<Rightarrow> (Inr (), install_fixture lru (opp_key opp) fix (others s), f)))"

section \<open>Contracts\<close>

locale clearable_cache = bounded_cache ops entries
  for ops :: "('k, 'v, 'c) cache_ops" and entries :: "'c \<Rightarrow> 'k \<Rightarrow> 'v option" +
  fixes clear :: "'c \<Rightarrow> 'c"
  assumes clear_empty: "entries (clear c) k = None"

definition list_lru_ops :: "('k, 'v, nat \<times> ('k \<times> 'v) list) lru_ops" where
  "list_lru_ops = \<lparr>lru_base = list_cache, lru_clear = (\<lambda>c. (fst c, []))\<rparr>"

interpretation list_clearable: clearable_cache "lru_base list_lru_ops" "\<lambda>c. map_of (snd c)" "lru_clear list_lru_ops"
  unfolding list_lru_ops_def lru_ops.select_convs by unfold_locales simp

text \<open>A fetcher answers for what it was asked.\<close>

locale faithful_fetcher =
  fixes tf :: "'f state_fetcher"
  assumes pool_asked: "tf_fetch_pool tf pool h layout f = (Inr st, f') \<Longrightarrow> fp_pool st = pool \<and> fp_hash st = h"
    and account_asked: "tf_fetch_account tf a slots h f = (Inr acc, f') \<Longrightarrow> fa_address acc = a \<and> fa_block_hash acc = h"

interpretation archive: faithful_fetcher "archive_fetcher fe" for fe
  by unfold_locales (auto simp: archive_fetcher_def fetch_pool_def fetch_account_def
    split: if_splits prod.splits sum.splits)

section \<open>The cache never serves another block\<close>

definition consistent :: "fixture_set \<Rightarrow> bool" where
  "consistent f \<longleftrightarrow> fp_hash (fx_source f) = fx_block_hash f \<and> fp_hash (fx_sink f) = fx_block_hash f \<and>
     (\<forall>acc \<in> {fx_weth f, fx_usdc_proxy f, fx_usdc_impl f, fx_v2_factory f}. fa_block_hash acc = fx_block_hash f)"

definition sim_inv :: "('c \<Rightarrow> fixture_key \<Rightarrow> fixture_set option) \<Rightarrow> 'c simulator_state \<Rightarrow> bool" where
  "sim_inv ent s \<longleftrightarrow> (\<forall>k f. ent (ls_cache s) k = Some f \<longrightarrow> from_fixture f = k \<and> consistent f) \<and>
     (\<forall>f. ls_active s = Some f \<longrightarrow> consistent f)"

lemma lift_fetch_Inr: "lift_fetch p = (Inr x, f) \<longleftrightarrow> p = (Inr x, f)"
  by (cases p; cases "fst p") (auto simp: lift_fetch_def)

lemma and_then_Inr: "and_then p g = (Inr x, f) \<longleftrightarrow> (\<exists>y f'. p = (Inr y, f') \<and> g y f' = (Inr x, f))"
  by (cases p; cases "fst p") (auto simp: and_then_def)

lemma layout_dispatch_Inr:
  "layout_dispatch keccak tf pool h f = (Inr st, f') \<Longrightarrow> \<exists>layout. tf_fetch_pool tf pool h layout f = (Inr st, f')"
  by (auto simp: layout_dispatch_def lift_fetch_Inr split: if_splits)

context faithful_fetcher
begin

lemma prefetch_fetch_asked:
  assumes "prefetch_fetch keccak tf opp wa ua f = (Inr fx, f')"
  shows "from_fixture fx = opp_key opp \<and> consistent fx \<and> fp_pool (fx_source fx) = source_pool opp \<and>
    fp_pool (fx_sink fx) = sink_pool opp \<and> fa_address (fx_weth fx) = wa \<and> fa_address (fx_usdc_proxy fx) = ua"
  using assms unfolding prefetch_fetch_def Let_def and_then_Inr
  by (auto simp: and_then_Inr lift_fetch_Inr from_fixture_def opp_key_def consistent_def split: option.splits
    dest!: layout_dispatch_Inr pool_asked account_asked)

end

locale fixture_cache = clearable_cache "lru_base lru" entries "lru_clear lru"
  for lru :: "(fixture_key, fixture_set, 'c) lru_ops" and entries :: "'c \<Rightarrow> fixture_key \<Rightarrow> fixture_set option"
begin

lemma lookup_inv:
  assumes "sim_inv entries s" and "prefetch_lookup lru opp s = (hit, s')"
  shows "sim_inv entries s' \<and>
    (hit \<longrightarrow> (\<exists>f. ls_active s' = Some f \<and> from_fixture f = opp_key opp))"
proof -
  define s2 where "s2 = retain lru (oo_block_number opp) s"
  have inv2: "sim_inv entries s2"
    using assms(1) clear_empty by (auto simp: s2_def retain_def sim_inv_def split: option.split)
  obtain r c where g: "ca_get (lru_base lru) (opp_key opp) (ls_cache s2) = (r, c)" by (meson surj_pair)
  then have r: "r = entries (ls_cache s2) (opp_key opp)" and c: "entries c = entries (ls_cache s2)"
    using get_entry[of "opp_key opp" "ls_cache s2"] get_keeps[of "opp_key opp" "ls_cache s2"] by simp_all
  have "(hit, s') = (case r of
        None \<Rightarrow> (False, s2\<lparr>ls_cache := c\<rparr>)
      | Some fx \<Rightarrow> (True, if map_option from_fixture (ls_active s2) = Some (opp_key opp) then s2\<lparr>ls_cache := c\<rparr>
          else s2\<lparr>ls_cache := c, ls_active := Some fx\<rparr>))"
    using assms(2) unfolding prefetch_lookup_def Let_def s2_def[symmetric] g prod.case by (cases r) simp_all
  note e = this
  have keep: "sim_inv entries (s2\<lparr>ls_cache := c\<rparr>)" using inv2 by (simp add: sim_inv_def c)
  show ?thesis
  proof (cases r)
    case None
    with e keep show ?thesis by simp
  next
    case (Some fx)
    with r have fx: "from_fixture fx = opp_key opp" "consistent fx" using inv2 unfolding sim_inv_def by metis+
    then have "sim_inv entries (s2\<lparr>ls_cache := c, ls_active := Some fx\<rparr>)" using keep by (simp add: sim_inv_def)
    with e keep Some fx(1) show ?thesis by (auto split: if_splits)
  qed
qed

lemma install_inv:
  assumes "sim_inv entries s" "from_fixture fx = k" "consistent fx"
  shows "sim_inv entries (install_fixture lru k fx s)"
proof -
  have "from_fixture f = k' \<and> consistent f" if "entries (ca_put (lru_base lru) k fx (ls_cache s)) k' = Some f" for k' f
    using put_only[OF that] assms unfolding sim_inv_def by blast
  then show ?thesis using assms(3) by (simp add: sim_inv_def install_fixture_def)
qed

end

interpretation fixture_lru: fixture_cache list_lru_ops "\<lambda>c. map_of (snd c)"
  by unfold_locales

text \<open>C35: A prefetch that reports success leaves an active fixture of exactly the opportunity's block and
  pools, all of whose parts were recorded at that block, whatever the cache held, whatever was evicted
  and whatever other holders of the lock did in between; and no cache entry is ever filed under
  another block or pool pair.\<close>

theorem prefetch_serves_the_block:
  assumes "fixture_cache lru ent" "faithful_fetcher tf"
    and "sim_inv ent s" "\<forall>s. sim_inv ent s \<longrightarrow> sim_inv ent (others s)"
    and "prefetch_for lru keccak tf others opp wa ua s f = (r, s', f')"
  shows "sim_inv ent s' \<and> (r = Inr () \<longrightarrow> (\<exists>fx. ls_active s' = Some fx \<and> consistent fx \<and>
    from_fixture fx = (oo_block_hash opp, pid_address (source_pool opp), pid_address (sink_pool opp))))"
proof -
  obtain hit s1 where l: "prefetch_lookup lru opp s = (hit, s1)" by (meson surj_pair)
  note inv1 = fixture_cache.lookup_inv[OF assms(1,3) l]
  show ?thesis
  proof (cases hit)
    case True
    with assms(5) inv1 show ?thesis by (auto simp: prefetch_for_def l sim_inv_def opp_key_def)
  next
    case False
    obtain q f1 where q: "prefetch_fetch keccak tf opp wa ua f = (q, f1)" by (meson surj_pair)
    show ?thesis
    proof (cases q)
      case (Inl e)
      with False assms(4,5) inv1 show ?thesis by (auto simp: prefetch_for_def l q)
    next
      case (Inr fx)
      with q have "from_fixture fx = opp_key opp" "consistent fx"
        using faithful_fetcher.prefetch_fetch_asked[OF assms(2)] by blast+
      moreover have "sim_inv ent (others s1)" using assms(4) inv1 by blast
      ultimately show ?thesis
        using fixture_cache.install_inv[OF assms(1), of "others s1" fx] False Inr assms(5)
        by (auto simp: prefetch_for_def l q install_fixture_def opp_key_def)
    qed
  qed
qed

definition demo_tf :: "unit state_fetcher" where
  "demo_tf =
     \<lparr>tf_fetch_pool = (\<lambda>pool h layout f. (Inr \<lparr>fp_pool = pool, fp_hash = h, fp_pool_code = [],
          fp_pool_storage = map (\<lambda>i. (i, 1)) (base_slots layout pool), fp_auxiliary = []\<rparr>, f)),
      tf_fetch_account = (\<lambda>a slots h f. (Inr \<lparr>fa_address = a, fa_block_hash = h, fa_code = [],
          fa_storage = map (\<lambda>i. (i, 1)) slots\<rparr>, f))\<rparr>"

interpretation demo_tf: faithful_fetcher demo_tf
  by unfold_locales (auto simp: demo_tf_def)

definition demo_opp :: opportunity_event where
  "demo_opp = \<lparr>oo_block_number = 5, oo_block_hash = 1, source_pool = \<lparr>pid_kind = UniswapV3Fee005, pid_address = 6\<rparr>,
     sink_pool = \<lparr>pid_kind = UniswapV2, pid_address = 7\<rparr>, optimal_amount_in_wei = 100, expected_profit_wei = 1,
     gas_estimate = 1\<rparr>"

definition demo_sim_state :: "(nat \<times> (fixture_key \<times> fixture_set) list) simulator_state" where
  "demo_sim_state = \<lparr>ls_active = None, ls_cache = (4, []), ls_freshness_window_blocks = 1, ls_last_block_seen = None\<rparr>"

lemma demo_sim_state_new: "with_cache list_lru_ops sim_defaults 4 1 = Inr (sim_defaults, demo_sim_state)"
  by (simp add: with_cache_def validate_cfg_def sim_defaults_def DEFAULT_GAS_LIMIT_PER_SIM_def
    DEFAULT_EOA_INITIAL_BALANCE_WEI_def list_lru_ops_def list_cache_def demo_sim_state_def)

lemma demo_sim_inv: "sim_inv (\<lambda>c. map_of (snd c)) demo_sim_state"
  by (simp add: sim_inv_def demo_sim_state_def)

lemma demo_fetch_account [simp]:
  "lift_fetch (tf_fetch_account demo_tf a slots h f) =
     (Inr \<lparr>fa_address = a, fa_block_hash = h, fa_code = [], fa_storage = map (\<lambda>i. (i, 1)) slots\<rparr>, f)"
  by (simp add: lift_fetch_def demo_tf_def)

lemma demo_impl:
  "parse_usdc_impl_address \<lparr>fa_address = a, fa_block_hash = h, fa_code = [],
     fa_storage = map (\<lambda>i. (i, 1)) (build_usdc_proxy_slots keccak src snk)\<rparr> = Some (address_from_be (drop 12 (u256_to_be 1)))"
  by (simp add: parse_usdc_impl_address_def nonzero_slot_def build_usdc_proxy_slots_def slot_value_def)

lemma demo_fetched: "\<exists>fx f'. prefetch_fetch keccak demo_tf demo_opp 9 8 f = (Inr fx, f')"
  by (simp add: prefetch_fetch_def Let_def and_then_def demo_impl layout_dispatch_def)
    (simp add: lift_fetch_def demo_tf_def)

theorem prefetch_serves_the_block_witness:
  "\<exists>s' fx. fst (snd (prefetch_for list_lru_ops (\<lambda>x. x) demo_tf (\<lambda>s. s) demo_opp 9 8 demo_sim_state ())) = s' \<and>
     ls_active s' = Some fx \<and> consistent fx \<and> from_fixture fx = (1, 6, 7)"
proof -
  obtain fx f' where f: "prefetch_fetch (\<lambda>x. x) demo_tf demo_opp 9 8 () = (Inr fx, f')" using demo_fetched by blast
  have "fst (prefetch_for list_lru_ops (\<lambda>x. x) demo_tf (\<lambda>s. s) demo_opp 9 8 demo_sim_state ()) = Inr ()"
    by (simp add: prefetch_for_def prefetch_lookup_def retain_def demo_sim_state_def list_lru_ops_def list_cache_def f)
  then obtain s' f'' where p:
      "prefetch_for list_lru_ops (\<lambda>x. x) demo_tf (\<lambda>s. s) demo_opp 9 8 demo_sim_state () = (Inr (), s', f'')"
    by (metis prod.exhaust_sel)
  have opp: "oo_block_hash demo_opp = 1" "pid_address (source_pool demo_opp) = 6" "pid_address (sink_pool demo_opp) = 7"
    by (simp_all add: demo_opp_def)
  from prefetch_serves_the_block[OF fixture_lru.fixture_cache_axioms demo_tf.faithful_fetcher_axioms demo_sim_inv _ p]
  show ?thesis by (simp add: p opp)
qed

text \<open>A block hash of zero is refused by the archive fetcher before anything is fetched, and nothing is
  cached for it.\<close>

lemma prefetch_refuses_zero_hash:
  assumes "fixture_cache lru ent" "oo_block_hash opp = 0"
    and "\<forall>k f. ent (ls_cache s) k = Some f \<longrightarrow> fst k \<noteq> 0"
    and "prefetch_for lru keccak (archive_fetcher fe) (\<lambda>s. s) opp wa ua s f = (r, s', f')"
  shows "r = Inl (SimFetch InvalidBlockHash) \<and> f' = f \<and> ls_active s' = ls_active s \<and>
    (\<forall>k f. ent (ls_cache s') k = Some f \<longrightarrow> fst k \<noteq> 0)"
proof -
  have fc: "clearable_cache (lru_base lru) ent (lru_clear lru)" using assms(1) by (simp add: fixture_cache_def)
  then have bc: "bounded_cache (lru_base lru) ent" by (simp add: clearable_cache_def)
  define s2 where "s2 = retain lru (oo_block_number opp) s"
  have s2: "\<forall>k f. ent (ls_cache s2) k = Some f \<longrightarrow> fst k \<noteq> 0" "ls_active s2 = ls_active s"
    using assms(3) clearable_cache.clear_empty[OF fc]
    by (auto simp: s2_def retain_def split: option.split)
  obtain q c where g: "ca_get (lru_base lru) (opp_key opp) (ls_cache s2) = (q, c)" by (meson surj_pair)
  have q: "q = ent (ls_cache s2) (opp_key opp)" "ent c = ent (ls_cache s2)"
    using bounded_cache.get_entry[OF bc, of "opp_key opp" "ls_cache s2"]
      bounded_cache.get_keeps[OF bc, of "opp_key opp" "ls_cache s2"] by (simp_all add: g)
  have "fst (opp_key opp) = 0" by (simp add: opp_key_def assms(2))
  with s2(1) q(1) have "q = None" by (metis option.exhaust)
  then have l: "prefetch_lookup lru opp s = (False, s2\<lparr>ls_cache := c\<rparr>)"
    unfolding prefetch_lookup_def Let_def s2_def[symmetric] g by simp
  have "prefetch_fetch keccak (archive_fetcher fe) opp wa ua f = (Inl (SimFetch InvalidBlockHash), f)"
    by (simp add: prefetch_fetch_def and_then_def layout_dispatch_def archive_fetcher_def fetch_pool_def
      lift_fetch_def assms(2))
  with assms(4) l have "r = Inl (SimFetch InvalidBlockHash)" "f' = f" "s' = s2\<lparr>ls_cache := c\<rparr>"
    by (simp_all add: prefetch_for_def)
  with s2 q(2) show ?thesis by (simp del: split_paired_All)
qed

end
