(* ===== verification/Mock_Router.thy ===== *)
theory Mock_Router
  imports Swap_Calldata
begin

text \<open>
  The deployed byte code of the router contract (\<open>crates/simulator/src/mock_router.rs\<close>), which a simulation
  puts at its address before it calls it, and the facts that the source states of it.  What the code
  does is up to the virtual machine, a parameter of the simulator.
\<close>

section \<open>The byte code\<close>

text \<open>The literal in parts of twenty of its rows.\<close>

definition router_code_1 :: bytes where
  "router_code_1 =
    [0x60, 0x80, 0x60, 0x40, 0x52, 0x34, 0x80, 0x15, 0x61, 0x00, 0x0f, 0x57, 0x5f, 0x5f, 0xfd, 0x5b,
     0x50, 0x60, 0x04, 0x36, 0x10, 0x61, 0x00, 0x3f, 0x57, 0x5f, 0x35, 0x60, 0xe0, 0x1c, 0x80, 0x63,
     0x4a, 0x52, 0x0a, 0xf2, 0x14, 0x61, 0x00, 0x43, 0x57, 0x80, 0x63, 0xcc, 0x5b, 0xcf, 0x23, 0x14,
     0x61, 0x00, 0x5f, 0x57, 0x80, 0x63, 0xfa, 0x46, 0x1e, 0x33, 0x14, 0x61, 0x00, 0x7b, 0x57, 0x5b,
     0x5f, 0x5f, 0xfd, 0x5b, 0x61, 0x00, 0x5d, 0x60, 0x04, 0x80, 0x36, 0x03, 0x81, 0x01, 0x90, 0x61,
     0x00, 0x58, 0x91, 0x90, 0x61, 0x04, 0x44, 0x56, 0x5b, 0x61, 0x00, 0x97, 0x56, 0x5b, 0x00, 0x5b,
     0x61, 0x00, 0x79, 0x60, 0x04, 0x80, 0x36, 0x03, 0x81, 0x01, 0x90, 0x61, 0x00, 0x74, 0x91, 0x90,
     0x61, 0x04, 0xee, 0x56, 0x5b, 0x61, 0x01, 0x3f, 0x56, 0x5b, 0x00, 0x5b, 0x61, 0x00, 0x95, 0x60,
     0x04, 0x80, 0x36, 0x03, 0x81, 0x01, 0x90, 0x61, 0x00, 0x90, 0x91, 0x90, 0x61, 0x05, 0xc6, 0x56,
     0x5b, 0x61, 0x02, 0x6a, 0x56, 0x5b, 0x00, 0x5b, 0x84, 0x73, 0xff, 0xff, 0xff, 0xff, 0xff, 0xff,
     0xff, 0xff, 0xff, 0xff, 0xff, 0xff, 0xff, 0xff, 0xff, 0xff, 0xff, 0xff, 0xff, 0xff, 0x16, 0x63,
     0x12, 0x8a, 0xcb, 0x08, 0x30, 0x86, 0x86, 0x86, 0x86, 0x60, 0x40, 0x51, 0x60, 0x20, 0x01, 0x61,
     0x00, 0xc8, 0x91, 0x90, 0x61, 0x06, 0x46, 0x56, 0x5b, 0x60, 0x40, 0x51, 0x60, 0x20, 0x81, 0x83,
     0x03, 0x03, 0x81, 0x52, 0x90, 0x60, 0x40, 0x52, 0x60, 0x40, 0x51, 0x86, 0x63, 0xff, 0xff, 0xff,
     0xff, 0x16, 0x60, 0xe0, 0x1b, 0x81, 0x52, 0x60, 0x04, 0x01, 0x61, 0x00, 0xf7, 0x95, 0x94, 0x93,
     0x92, 0x91, 0x90, 0x61, 0x06, 0xfc, 0x56, 0x5b, 0x60, 0x40, 0x80, 0x51, 0x80, 0x83, 0x03, 0x81,
     0x5f, 0x87, 0x5a, 0xf1, 0x15, 0x80, 0x15, 0x61, 0x01, 0x12, 0x57, 0x3d, 0x5f, 0x5f, 0x3e, 0x3d,
     0x5f, 0xfd, 0x5b, 0x50, 0x50, 0x50, 0x50, 0x60, 0x40, 0x51, 0x3d, 0x60, 0x1f, 0x19, 0x60, 0x1f,
     0x82, 0x01, 0x16, 0x82, 0x01, 0x80, 0x60, 0x40, 0x52, 0x50, 0x81, 0x01, 0x90, 0x61, 0x01, 0x36,
     0x91, 0x90, 0x61, 0x07, 0x68, 0x56, 0x5b, 0x50, 0x50, 0x50, 0x50, 0x50, 0x50, 0x50, 0x56, 0x5b]"

definition router_code_2 :: bytes where
  "router_code_2 =
    [0x83, 0x73, 0xff, 0xff, 0xff, 0xff, 0xff, 0xff, 0xff, 0xff, 0xff, 0xff, 0xff, 0xff, 0xff, 0xff,
     0xff, 0xff, 0xff, 0xff, 0xff, 0xff, 0x16, 0x63, 0xa9, 0x05, 0x9c, 0xbb, 0x86, 0x85, 0x60, 0x40,
     0x51, 0x83, 0x63, 0xff, 0xff, 0xff, 0xff, 0x16, 0x60, 0xe0, 0x1b, 0x81, 0x52, 0x60, 0x04, 0x01,
     0x61, 0x01, 0x7a, 0x92, 0x91, 0x90, 0x61, 0x07, 0xb5, 0x56, 0x5b, 0x60, 0x20, 0x60, 0x40, 0x51,
     0x80, 0x83, 0x03, 0x81, 0x5f, 0x87, 0x5a, 0xf1, 0x15, 0x80, 0x15, 0x61, 0x01, 0x96, 0x57, 0x3d,
     0x5f, 0x5f, 0x3e, 0x3d, 0x5f, 0xfd, 0x5b, 0x50, 0x50, 0x50, 0x50, 0x60, 0x40, 0x51, 0x3d, 0x60,
     0x1f, 0x19, 0x60, 0x1f, 0x82, 0x01, 0x16, 0x82, 0x01, 0x80, 0x60, 0x40, 0x52, 0x50, 0x81, 0x01,
     0x90, 0x61, 0x01, 0xba, 0x91, 0x90, 0x61, 0x07, 0xf0, 0x56, 0x5b, 0x61, 0x01, 0xf9, 0x57, 0x60,
     0x40, 0x51, 0x7f, 0x08, 0xc3, 0x79, 0xa0, 0x00, 0x00, 0x00, 0x00, 0x00, 0x00, 0x00, 0x00, 0x00,
     0x00, 0x00, 0x00, 0x00, 0x00, 0x00, 0x00, 0x00, 0x00, 0x00, 0x00, 0x00, 0x00, 0x00, 0x00, 0x00,
     0x00, 0x00, 0x00, 0x81, 0x52, 0x60, 0x04, 0x01, 0x61, 0x01, 0xf0, 0x90, 0x61, 0x08, 0x75, 0x56,
     0x5b, 0x60, 0x40, 0x51, 0x80, 0x91, 0x03, 0x90, 0xfd, 0x5b, 0x84, 0x73, 0xff, 0xff, 0xff, 0xff,
     0xff, 0xff, 0xff, 0xff, 0xff, 0xff, 0xff, 0xff, 0xff, 0xff, 0xff, 0xff, 0xff, 0xff, 0xff, 0xff,
     0x16, 0x63, 0x02, 0x2c, 0x0d, 0x9f, 0x83, 0x83, 0x30, 0x60, 0x40, 0x51, 0x84, 0x63, 0xff, 0xff,
     0xff, 0xff, 0x16, 0x60, 0xe0, 0x1b, 0x81, 0x52, 0x60, 0x04, 0x01, 0x61, 0x02, 0x36, 0x93, 0x92,
     0x91, 0x90, 0x61, 0x08, 0xb6, 0x56, 0x5b, 0x5f, 0x60, 0x40, 0x51, 0x80, 0x83, 0x03, 0x81, 0x5f,
     0x87, 0x80, 0x3b, 0x15, 0x80, 0x15, 0x61, 0x02, 0x4d, 0x57, 0x5f, 0x5f, 0xfd, 0x5b, 0x50, 0x5a,
     0xf1, 0x15, 0x80, 0x15, 0x61, 0x02, 0x5f, 0x57, 0x3d, 0x5f, 0x5f, 0x3e, 0x3d, 0x5f, 0xfd, 0x5b,
     0x50, 0x50, 0x50, 0x50, 0x50, 0x50, 0x50, 0x50, 0x50, 0x56, 0x5b, 0x5f, 0x82, 0x82, 0x81, 0x01,
     0x90, 0x61, 0x02, 0x7a, 0x91, 0x90, 0x61, 0x09, 0x39, 0x56, 0x5b, 0x90, 0x50, 0x5f, 0x5f, 0x86]"

definition router_code_3 :: bytes where
  "router_code_3 =
    [0x13, 0x61, 0x02, 0x8a, 0x57, 0x84, 0x61, 0x02, 0x8c, 0x56, 0x5b, 0x85, 0x5b, 0x90, 0x50, 0x81,
     0x73, 0xff, 0xff, 0xff, 0xff, 0xff, 0xff, 0xff, 0xff, 0xff, 0xff, 0xff, 0xff, 0xff, 0xff, 0xff,
     0xff, 0xff, 0xff, 0xff, 0xff, 0x16, 0x63, 0xa9, 0x05, 0x9c, 0xbb, 0x33, 0x83, 0x60, 0x40, 0x51,
     0x83, 0x63, 0xff, 0xff, 0xff, 0xff, 0x16, 0x60, 0xe0, 0x1b, 0x81, 0x52, 0x60, 0x04, 0x01, 0x61,
     0x02, 0xc9, 0x92, 0x91, 0x90, 0x61, 0x07, 0xb5, 0x56, 0x5b, 0x60, 0x20, 0x60, 0x40, 0x51, 0x80,
     0x83, 0x03, 0x81, 0x5f, 0x87, 0x5a, 0xf1, 0x15, 0x80, 0x15, 0x61, 0x02, 0xe5, 0x57, 0x3d, 0x5f,
     0x5f, 0x3e, 0x3d, 0x5f, 0xfd, 0x5b, 0x50, 0x50, 0x50, 0x50, 0x60, 0x40, 0x51, 0x3d, 0x60, 0x1f,
     0x19, 0x60, 0x1f, 0x82, 0x01, 0x16, 0x82, 0x01, 0x80, 0x60, 0x40, 0x52, 0x50, 0x81, 0x01, 0x90,
     0x61, 0x03, 0x09, 0x91, 0x90, 0x61, 0x07, 0xf0, 0x56, 0x5b, 0x61, 0x03, 0x48, 0x57, 0x60, 0x40,
     0x51, 0x7f, 0x08, 0xc3, 0x79, 0xa0, 0x00, 0x00, 0x00, 0x00, 0x00, 0x00, 0x00, 0x00, 0x00, 0x00,
     0x00, 0x00, 0x00, 0x00, 0x00, 0x00, 0x00, 0x00, 0x00, 0x00, 0x00, 0x00, 0x00, 0x00, 0x00, 0x00,
     0x00, 0x00, 0x81, 0x52, 0x60, 0x04, 0x01, 0x61, 0x03, 0x3f, 0x90, 0x61, 0x09, 0xae, 0x56, 0x5b,
     0x60, 0x40, 0x51, 0x80, 0x91, 0x03, 0x90, 0xfd, 0x5b, 0x50, 0x50, 0x50, 0x50, 0x50, 0x50, 0x56,
     0x5b, 0x5f, 0x5f, 0xfd, 0x5b, 0x5f, 0x5f, 0xfd, 0x5b, 0x5f, 0x73, 0xff, 0xff, 0xff, 0xff, 0xff,
     0xff, 0xff, 0xff, 0xff, 0xff, 0xff, 0xff, 0xff, 0xff, 0xff, 0xff, 0xff, 0xff, 0xff, 0xff, 0x82,
     0x16, 0x90, 0x50, 0x91, 0x90, 0x50, 0x56, 0x5b, 0x5f, 0x61, 0x03, 0x81, 0x82, 0x61, 0x03, 0x58,
     0x56, 0x5b, 0x90, 0x50, 0x91, 0x90, 0x50, 0x56, 0x5b, 0x61, 0x03, 0x91, 0x81, 0x61, 0x03, 0x77,
     0x56, 0x5b, 0x81, 0x14, 0x61, 0x03, 0x9b, 0x57, 0x5f, 0x5f, 0xfd, 0x5b, 0x50, 0x56, 0x5b, 0x5f,
     0x81, 0x35, 0x90, 0x50, 0x61, 0x03, 0xac, 0x81, 0x61, 0x03, 0x88, 0x56, 0x5b, 0x92, 0x91, 0x50,
     0x50, 0x56, 0x5b, 0x5f, 0x81, 0x15, 0x15, 0x90, 0x50, 0x91, 0x90, 0x50, 0x56, 0x5b, 0x61, 0x03]"

definition router_code_4 :: bytes where
  "router_code_4 =
    [0xc6, 0x81, 0x61, 0x03, 0xb2, 0x56, 0x5b, 0x81, 0x14, 0x61, 0x03, 0xd0, 0x57, 0x5f, 0x5f, 0xfd,
     0x5b, 0x50, 0x56, 0x5b, 0x5f, 0x81, 0x35, 0x90, 0x50, 0x61, 0x03, 0xe1, 0x81, 0x61, 0x03, 0xbd,
     0x56, 0x5b, 0x92, 0x91, 0x50, 0x50, 0x56, 0x5b, 0x5f, 0x81, 0x90, 0x50, 0x91, 0x90, 0x50, 0x56,
     0x5b, 0x61, 0x03, 0xf9, 0x81, 0x61, 0x03, 0xe7, 0x56, 0x5b, 0x81, 0x14, 0x61, 0x04, 0x03, 0x57,
     0x5f, 0x5f, 0xfd, 0x5b, 0x50, 0x56, 0x5b, 0x5f, 0x81, 0x35, 0x90, 0x50, 0x61, 0x04, 0x14, 0x81,
     0x61, 0x03, 0xf0, 0x56, 0x5b, 0x92, 0x91, 0x50, 0x50, 0x56, 0x5b, 0x61, 0x04, 0x23, 0x81, 0x61,
     0x03, 0x58, 0x56, 0x5b, 0x81, 0x14, 0x61, 0x04, 0x2d, 0x57, 0x5f, 0x5f, 0xfd, 0x5b, 0x50, 0x56,
     0x5b, 0x5f, 0x81, 0x35, 0x90, 0x50, 0x61, 0x04, 0x3e, 0x81, 0x61, 0x04, 0x1a, 0x56, 0x5b, 0x92,
     0x91, 0x50, 0x50, 0x56, 0x5b, 0x5f, 0x5f, 0x5f, 0x5f, 0x5f, 0x60, 0xa0, 0x86, 0x88, 0x03, 0x12,
     0x15, 0x61, 0x04, 0x5d, 0x57, 0x61, 0x04, 0x5c, 0x61, 0x03, 0x50, 0x56, 0x5b, 0x5b, 0x5f, 0x61,
     0x04, 0x6a, 0x88, 0x82, 0x89, 0x01, 0x61, 0x03, 0x9e, 0x56, 0x5b, 0x95, 0x50, 0x50, 0x60, 0x20,
     0x61, 0x04, 0x7b, 0x88, 0x82, 0x89, 0x01, 0x61, 0x03, 0xd3, 0x56, 0x5b, 0x94, 0x50, 0x50, 0x60,
     0x40, 0x61, 0x04, 0x8c, 0x88, 0x82, 0x89, 0x01, 0x61, 0x04, 0x06, 0x56, 0x5b, 0x93, 0x50, 0x50,
     0x60, 0x60, 0x61, 0x04, 0x9d, 0x88, 0x82, 0x89, 0x01, 0x61, 0x04, 0x30, 0x56, 0x5b, 0x92, 0x50,
     0x50, 0x60, 0x80, 0x61, 0x04, 0xae, 0x88, 0x82, 0x89, 0x01, 0x61, 0x03, 0x9e, 0x56, 0x5b, 0x91,
     0x50, 0x50, 0x92, 0x95, 0x50, 0x92, 0x95, 0x90, 0x93, 0x50, 0x56, 0x5b, 0x5f, 0x81, 0x90, 0x50,
     0x91, 0x90, 0x50, 0x56, 0x5b, 0x61, 0x04, 0xcd, 0x81, 0x61, 0x04, 0xbb, 0x56, 0x5b, 0x81, 0x14,
     0x61, 0x04, 0xd7, 0x57, 0x5f, 0x5f, 0xfd, 0x5b, 0x50, 0x56, 0x5b, 0x5f, 0x81, 0x35, 0x90, 0x50,
     0x61, 0x04, 0xe8, 0x81, 0x61, 0x04, 0xc4, 0x56, 0x5b, 0x92, 0x91, 0x50, 0x50, 0x56, 0x5b, 0x5f,
     0x5f, 0x5f, 0x5f, 0x5f, 0x60, 0xa0, 0x86, 0x88, 0x03, 0x12, 0x15, 0x61, 0x05, 0x07, 0x57, 0x61]"

definition router_code_5 :: bytes where
  "router_code_5 =
    [0x05, 0x06, 0x61, 0x03, 0x50, 0x56, 0x5b, 0x5b, 0x5f, 0x61, 0x05, 0x14, 0x88, 0x82, 0x89, 0x01,
     0x61, 0x03, 0x9e, 0x56, 0x5b, 0x95, 0x50, 0x50, 0x60, 0x20, 0x61, 0x05, 0x25, 0x88, 0x82, 0x89,
     0x01, 0x61, 0x03, 0x9e, 0x56, 0x5b, 0x94, 0x50, 0x50, 0x60, 0x40, 0x61, 0x05, 0x36, 0x88, 0x82,
     0x89, 0x01, 0x61, 0x04, 0xda, 0x56, 0x5b, 0x93, 0x50, 0x50, 0x60, 0x60, 0x61, 0x05, 0x47, 0x88,
     0x82, 0x89, 0x01, 0x61, 0x04, 0xda, 0x56, 0x5b, 0x92, 0x50, 0x50, 0x60, 0x80, 0x61, 0x05, 0x58,
     0x88, 0x82, 0x89, 0x01, 0x61, 0x04, 0xda, 0x56, 0x5b, 0x91, 0x50, 0x50, 0x92, 0x95, 0x50, 0x92,
     0x95, 0x90, 0x93, 0x50, 0x56, 0x5b, 0x5f, 0x5f, 0xfd, 0x5b, 0x5f, 0x5f, 0xfd, 0x5b, 0x5f, 0x5f,
     0xfd, 0x5b, 0x5f, 0x5f, 0x83, 0x60, 0x1f, 0x84, 0x01, 0x12, 0x61, 0x05, 0x86, 0x57, 0x61, 0x05,
     0x85, 0x61, 0x05, 0x65, 0x56, 0x5b, 0x5b, 0x82, 0x35, 0x90, 0x50, 0x67, 0xff, 0xff, 0xff, 0xff,
     0xff, 0xff, 0xff, 0xff, 0x81, 0x11, 0x15, 0x61, 0x05, 0xa3, 0x57, 0x61, 0x05, 0xa2, 0x61, 0x05,
     0x69, 0x56, 0x5b, 0x5b, 0x60, 0x20, 0x83, 0x01, 0x91, 0x50, 0x83, 0x60, 0x01, 0x82, 0x02, 0x83,
     0x01, 0x11, 0x15, 0x61, 0x05, 0xbf, 0x57, 0x61, 0x05, 0xbe, 0x61, 0x05, 0x6d, 0x56, 0x5b, 0x5b,
     0x92, 0x50, 0x92, 0x90, 0x50, 0x56, 0x5b, 0x5f, 0x5f, 0x5f, 0x5f, 0x60, 0x60, 0x85, 0x87, 0x03,
     0x12, 0x15, 0x61, 0x05, 0xde, 0x57, 0x61, 0x05, 0xdd, 0x61, 0x03, 0x50, 0x56, 0x5b, 0x5b, 0x5f,
     0x61, 0x05, 0xeb, 0x87, 0x82, 0x88, 0x01, 0x61, 0x04, 0x06, 0x56, 0x5b, 0x94, 0x50, 0x50, 0x60,
     0x20, 0x61, 0x05, 0xfc, 0x87, 0x82, 0x88, 0x01, 0x61, 0x04, 0x06, 0x56, 0x5b, 0x93, 0x50, 0x50,
     0x60, 0x40, 0x85, 0x01, 0x35, 0x67, 0xff, 0xff, 0xff, 0xff, 0xff, 0xff, 0xff, 0xff, 0x81, 0x11,
     0x15, 0x61, 0x06, 0x1d, 0x57, 0x61, 0x06, 0x1c, 0x61, 0x03, 0x54, 0x56, 0x5b, 0x5b, 0x61, 0x06,
     0x29, 0x87, 0x82, 0x88, 0x01, 0x61, 0x05, 0x71, 0x56, 0x5b, 0x92, 0x50, 0x92, 0x50, 0x50, 0x92,
     0x95, 0x91, 0x94, 0x50, 0x92, 0x50, 0x56, 0x5b, 0x61, 0x06, 0x40, 0x81, 0x61, 0x03, 0x77, 0x56]"

definition router_code_6 :: bytes where
  "router_code_6 =
    [0x5b, 0x82, 0x52, 0x50, 0x50, 0x56, 0x5b, 0x5f, 0x60, 0x20, 0x82, 0x01, 0x90, 0x50, 0x61, 0x06,
     0x59, 0x5f, 0x83, 0x01, 0x84, 0x61, 0x06, 0x37, 0x56, 0x5b, 0x92, 0x91, 0x50, 0x50, 0x56, 0x5b,
     0x61, 0x06, 0x68, 0x81, 0x61, 0x03, 0xb2, 0x56, 0x5b, 0x82, 0x52, 0x50, 0x50, 0x56, 0x5b, 0x61,
     0x06, 0x77, 0x81, 0x61, 0x03, 0xe7, 0x56, 0x5b, 0x82, 0x52, 0x50, 0x50, 0x56, 0x5b, 0x61, 0x06,
     0x86, 0x81, 0x61, 0x03, 0x58, 0x56, 0x5b, 0x82, 0x52, 0x50, 0x50, 0x56, 0x5b, 0x5f, 0x81, 0x51,
     0x90, 0x50, 0x91, 0x90, 0x50, 0x56, 0x5b, 0x5f, 0x82, 0x82, 0x52, 0x60, 0x20, 0x82, 0x01, 0x90,
     0x50, 0x92, 0x91, 0x50, 0x50, 0x56, 0x5b, 0x82, 0x81, 0x83, 0x5e, 0x5f, 0x83, 0x83, 0x01, 0x52,
     0x50, 0x50, 0x50, 0x56, 0x5b, 0x5f, 0x60, 0x1f, 0x19, 0x60, 0x1f, 0x83, 0x01, 0x16, 0x90, 0x50,
     0x91, 0x90, 0x50, 0x56, 0x5b, 0x5f, 0x61, 0x06, 0xce, 0x82, 0x61, 0x06, 0x8c, 0x56, 0x5b, 0x61,
     0x06, 0xd8, 0x81, 0x85, 0x61, 0x06, 0x96, 0x56, 0x5b, 0x93, 0x50, 0x61, 0x06, 0xe8, 0x81, 0x85,
     0x60, 0x20, 0x86, 0x01, 0x61, 0x06, 0xa6, 0x56, 0x5b, 0x61, 0x06, 0xf1, 0x81, 0x61, 0x06, 0xb4,
     0x56, 0x5b, 0x84, 0x01, 0x91, 0x50, 0x50, 0x92, 0x91, 0x50, 0x50, 0x56, 0x5b, 0x5f, 0x60, 0xa0,
     0x82, 0x01, 0x90, 0x50, 0x61, 0x07, 0x0f, 0x5f, 0x83, 0x01, 0x88, 0x61, 0x06, 0x37, 0x56, 0x5b,
     0x61, 0x07, 0x1c, 0x60, 0x20, 0x83, 0x01, 0x87, 0x61, 0x06, 0x5f, 0x56, 0x5b, 0x61, 0x07, 0x29,
     0x60, 0x40, 0x83, 0x01, 0x86, 0x61, 0x06, 0x6e, 0x56, 0x5b, 0x61, 0x07, 0x36, 0x60, 0x60, 0x83,
     0x01, 0x85, 0x61, 0x06, 0x7d, 0x56, 0x5b, 0x81, 0x81, 0x03, 0x60, 0x80, 0x83, 0x01, 0x52, 0x61,
     0x07, 0x48, 0x81, 0x84, 0x61, 0x06, 0xc4, 0x56, 0x5b, 0x90, 0x50, 0x96, 0x95, 0x50, 0x50, 0x50,
     0x50, 0x50, 0x50, 0x56, 0x5b, 0x5f, 0x81, 0x51, 0x90, 0x50, 0x61, 0x07, 0x62, 0x81, 0x61, 0x03,
     0xf0, 0x56, 0x5b, 0x92, 0x91, 0x50, 0x50, 0x56, 0x5b, 0x5f, 0x5f, 0x60, 0x40, 0x83, 0x85, 0x03,
     0x12, 0x15, 0x61, 0x07, 0x7e, 0x57, 0x61, 0x07, 0x7d, 0x61, 0x03, 0x50, 0x56, 0x5b, 0x5b, 0x5f]"

definition router_code_7 :: bytes where
  "router_code_7 =
    [0x61, 0x07, 0x8b, 0x85, 0x82, 0x86, 0x01, 0x61, 0x07, 0x54, 0x56, 0x5b, 0x92, 0x50, 0x50, 0x60,
     0x20, 0x61, 0x07, 0x9c, 0x85, 0x82, 0x86, 0x01, 0x61, 0x07, 0x54, 0x56, 0x5b, 0x91, 0x50, 0x50,
     0x92, 0x50, 0x92, 0x90, 0x50, 0x56, 0x5b, 0x61, 0x07, 0xaf, 0x81, 0x61, 0x04, 0xbb, 0x56, 0x5b,
     0x82, 0x52, 0x50, 0x50, 0x56, 0x5b, 0x5f, 0x60, 0x40, 0x82, 0x01, 0x90, 0x50, 0x61, 0x07, 0xc8,
     0x5f, 0x83, 0x01, 0x85, 0x61, 0x06, 0x37, 0x56, 0x5b, 0x61, 0x07, 0xd5, 0x60, 0x20, 0x83, 0x01,
     0x84, 0x61, 0x07, 0xa6, 0x56, 0x5b, 0x93, 0x92, 0x50, 0x50, 0x50, 0x56, 0x5b, 0x5f, 0x81, 0x51,
     0x90, 0x50, 0x61, 0x07, 0xea, 0x81, 0x61, 0x03, 0xbd, 0x56, 0x5b, 0x92, 0x91, 0x50, 0x50, 0x56,
     0x5b, 0x5f, 0x60, 0x20, 0x82, 0x84, 0x03, 0x12, 0x15, 0x61, 0x08, 0x05, 0x57, 0x61, 0x08, 0x04,
     0x61, 0x03, 0x50, 0x56, 0x5b, 0x5b, 0x5f, 0x61, 0x08, 0x12, 0x84, 0x82, 0x85, 0x01, 0x61, 0x07,
     0xdc, 0x56, 0x5b, 0x91, 0x50, 0x50, 0x92, 0x91, 0x50, 0x50, 0x56, 0x5b, 0x5f, 0x82, 0x82, 0x52,
     0x60, 0x20, 0x82, 0x01, 0x90, 0x50, 0x92, 0x91, 0x50, 0x50, 0x56, 0x5b, 0x7f, 0x76, 0x32, 0x20,
     0x70, 0x72, 0x65, 0x66, 0x75, 0x6e, 0x64, 0x20, 0x66, 0x61, 0x69, 0x6c, 0x65, 0x64, 0x00, 0x00,
     0x00, 0x00, 0x00, 0x00, 0x00, 0x00, 0x00, 0x00, 0x00, 0x00, 0x00, 0x00, 0x00, 0x5f, 0x82, 0x01,
     0x52, 0x50, 0x56, 0x5b, 0x5f, 0x61, 0x08, 0x5f, 0x60, 0x11, 0x83, 0x61, 0x08, 0x1b, 0x56, 0x5b,
     0x91, 0x50, 0x61, 0x08, 0x6a, 0x82, 0x61, 0x08, 0x2b, 0x56, 0x5b, 0x60, 0x20, 0x82, 0x01, 0x90,
     0x50, 0x91, 0x90, 0x50, 0x56, 0x5b, 0x5f, 0x60, 0x20, 0x82, 0x01, 0x90, 0x50, 0x81, 0x81, 0x03,
     0x5f, 0x83, 0x01, 0x52, 0x61, 0x08, 0x8c, 0x81, 0x61, 0x08, 0x53, 0x56, 0x5b, 0x90, 0x50, 0x91,
     0x90, 0x50, 0x56, 0x5b, 0x50, 0x56, 0x5b, 0x5f, 0x61, 0x08, 0xa1, 0x5f, 0x83, 0x61, 0x06, 0x96,
     0x56, 0x5b, 0x91, 0x50, 0x61, 0x08, 0xac, 0x82, 0x61, 0x08, 0x93, 0x56, 0x5b, 0x5f, 0x82, 0x01,
     0x90, 0x50, 0x91, 0x90, 0x50, 0x56, 0x5b, 0x5f, 0x60, 0x80, 0x82, 0x01, 0x90, 0x50, 0x61, 0x08]"

definition router_code_8 :: bytes where
  "router_code_8 =
    [0xc9, 0x5f, 0x83, 0x01, 0x86, 0x61, 0x07, 0xa6, 0x56, 0x5b, 0x61, 0x08, 0xd6, 0x60, 0x20, 0x83,
     0x01, 0x85, 0x61, 0x07, 0xa6, 0x56, 0x5b, 0x61, 0x08, 0xe3, 0x60, 0x40, 0x83, 0x01, 0x84, 0x61,
     0x06, 0x37, 0x56, 0x5b, 0x81, 0x81, 0x03, 0x60, 0x60, 0x83, 0x01, 0x52, 0x61, 0x08, 0xf4, 0x81,
     0x61, 0x08, 0x96, 0x56, 0x5b, 0x90, 0x50, 0x94, 0x93, 0x50, 0x50, 0x50, 0x50, 0x56, 0x5b, 0x5f,
     0x61, 0x09, 0x08, 0x82, 0x61, 0x03, 0x58, 0x56, 0x5b, 0x90, 0x50, 0x91, 0x90, 0x50, 0x56, 0x5b,
     0x61, 0x09, 0x18, 0x81, 0x61, 0x08, 0xfe, 0x56, 0x5b, 0x81, 0x14, 0x61, 0x09, 0x22, 0x57, 0x5f,
     0x5f, 0xfd, 0x5b, 0x50, 0x56, 0x5b, 0x5f, 0x81, 0x35, 0x90, 0x50, 0x61, 0x09, 0x33, 0x81, 0x61,
     0x09, 0x0f, 0x56, 0x5b, 0x92, 0x91, 0x50, 0x50, 0x56, 0x5b, 0x5f, 0x60, 0x20, 0x82, 0x84, 0x03,
     0x12, 0x15, 0x61, 0x09, 0x4e, 0x57, 0x61, 0x09, 0x4d, 0x61, 0x03, 0x50, 0x56, 0x5b, 0x5b, 0x5f,
     0x61, 0x09, 0x5b, 0x84, 0x82, 0x85, 0x01, 0x61, 0x09, 0x25, 0x56, 0x5b, 0x91, 0x50, 0x50, 0x92,
     0x91, 0x50, 0x50, 0x56, 0x5b, 0x7f, 0x63, 0x61, 0x6c, 0x6c, 0x62, 0x61, 0x63, 0x6b, 0x20, 0x74,
     0x72, 0x61, 0x6e, 0x73, 0x66, 0x65, 0x72, 0x20, 0x66, 0x61, 0x69, 0x6c, 0x65, 0x64, 0x00, 0x00,
     0x00, 0x00, 0x00, 0x00, 0x00, 0x00, 0x5f, 0x82, 0x01, 0x52, 0x50, 0x56, 0x5b, 0x5f, 0x61, 0x09,
     0x98, 0x60, 0x18, 0x83, 0x61, 0x08, 0x1b, 0x56, 0x5b, 0x91, 0x50, 0x61, 0x09, 0xa3, 0x82, 0x61,
     0x09, 0x64, 0x56, 0x5b, 0x60, 0x20, 0x82, 0x01, 0x90, 0x50, 0x91, 0x90, 0x50, 0x56, 0x5b, 0x5f,
     0x60, 0x20, 0x82, 0x01, 0x90, 0x50, 0x81, 0x81, 0x03, 0x5f, 0x83, 0x01, 0x52, 0x61, 0x09, 0xc5,
     0x81, 0x61, 0x09, 0x8c, 0x56, 0x5b, 0x90, 0x50, 0x91, 0x90, 0x50, 0x56, 0xfe, 0xa2, 0x64, 0x69,
     0x70, 0x66, 0x73, 0x58, 0x22, 0x12, 0x20, 0xae, 0x21, 0x86, 0x33, 0xdf, 0xa6, 0x35, 0xdc, 0x9c,
     0x59, 0x64, 0xad, 0x53, 0x64, 0xbe, 0xc7, 0x3f, 0xed, 0x2e, 0x6c, 0x76, 0x66, 0xde, 0xda, 0x4e,
     0xc0, 0x02, 0xc6, 0xe7, 0x5f, 0x20, 0xad, 0x64, 0x73, 0x6f, 0x6c, 0x63, 0x43, 0x00, 0x08, 0x22]"

definition router_code_9 :: bytes where
  "router_code_9 =
    [0x00, 0x33]"

definition MOCK_ROUTER_RUNTIME :: bytes where
  "MOCK_ROUTER_RUNTIME = router_code_1 @ router_code_2 @ router_code_3 @ router_code_4 @ router_code_5 @ router_code_6 @ router_code_7 @ router_code_8 @ router_code_9"

section \<open>What the source states of it\<close>

definition occurs_at :: "bytes \<Rightarrow> nat \<Rightarrow> bytes \<Rightarrow> bool" where
  "occurs_at pat i bs \<longleftrightarrow> take (length pat) (drop i bs) = pat"

lemma occurs_at_append:
  "i + length pat \<le> length a \<Longrightarrow> occurs_at pat i (a @ b) = occurs_at pat i a"
  "length a \<le> i \<Longrightarrow> occurs_at pat i (a @ b) = occurs_at pat (i - length a) b"
  by (simp_all add: occurs_at_def)

lemma router_code_lengths:
  "length router_code_1 = 320" "length router_code_2 = 320" "length router_code_3 = 320" "length router_code_4 = 320"
  "length router_code_5 = 320" "length router_code_6 = 320" "length router_code_7 = 320" "length router_code_8 = 320"
  "length router_code_9 = 2"
  by (simp_all add: router_code_1_def router_code_2_def router_code_3_def router_code_4_def router_code_5_def
      router_code_6_def router_code_7_def router_code_8_def router_code_9_def)

lemma router_runtime_length: "length MOCK_ROUTER_RUNTIME = 2562"
  by (simp add: MOCK_ROUTER_RUNTIME_def router_code_lengths)

lemmas router_parts = MOCK_ROUTER_RUNTIME_def occurs_at_append router_code_lengths

text \<open>The dispatcher compares the selector of the call with each of the three entry points
  (\<open>DUP1, PUSH4 selector, EQ, PUSH2 target, JUMPI\<close>), and each target is a \<open>JUMPDEST\<close>.\<close>

lemma router_runtime_dispatches:
  "occurs_at ([0x80, 0x63] @ SELECTOR_EXEC_V3_SWAP @ [0x14, 0x61, 0x00, 0x43, 0x57]) 30 MOCK_ROUTER_RUNTIME"
  "occurs_at ([0x80, 0x63] @ SELECTOR_EXEC_V2_SWAP @ [0x14, 0x61, 0x00, 0x5f, 0x57]) 41 MOCK_ROUTER_RUNTIME"
  "occurs_at ([0x80, 0x63] @ SELECTOR_V3_CALLBACK @ [0x14, 0x61, 0x00, 0x7b, 0x57]) 52 MOCK_ROUTER_RUNTIME"
  "occurs_at [0x5b] 0x43 MOCK_ROUTER_RUNTIME" "occurs_at [0x5b] 0x5f MOCK_ROUTER_RUNTIME" "occurs_at [0x5b] 0x7b MOCK_ROUTER_RUNTIME"
  by (simp_all add: router_parts SELECTOR_EXEC_V3_SWAP_def SELECTOR_EXEC_V2_SWAP_def SELECTOR_V3_CALLBACK_def)
    (simp_all add: occurs_at_def router_code_1_def)

text \<open>It calls the swaps of the two kinds of pool and \<open>transfer\<close> of a token.\<close>

lemma router_runtime_calls:
  "occurs_at (0x63 # SELECTOR_V3_SWAP) 175 MOCK_ROUTER_RUNTIME" "occurs_at (0x63 # SELECTOR_V2_SWAP) 529 MOCK_ROUTER_RUNTIME"
  "occurs_at [0x63, 0xa9, 0x05, 0x9c, 0xbb] 343 MOCK_ROUTER_RUNTIME" "occurs_at [0x63, 0xa9, 0x05, 0x9c, 0xbb] 678 MOCK_ROUTER_RUNTIME"
  by (simp_all add: router_parts SELECTOR_V3_SWAP_def SELECTOR_V2_SWAP_def)
    (simp_all add: occurs_at_def router_code_1_def router_code_2_def router_code_3_def)

end
