(* ===== verification/Simulator.thy ===== *)
theory Simulator
  imports Sim_Fixtures Risk Mock_Router
begin

text \<open>
  The two-hop simulation (\<open>crates/simulator/src/lib.rs\<close>).  revm is a parameter: a transaction is a
  script that reads the database through the trait and ends with an error, or with a result and the
  changes to commit; \<open>'m\<close> is whatever the machine keeps between two transactions.  Code generic in
  the database is thus one script, run on the strict database by \<open>simulate\<close> and on the recording one by
  \<open>simulate_with_fingerprint\<close>.  The two functions repeat the same body in the source; here the body is
  \<open>sim_prepare\<close> followed by \<open>sim_hops\<close>.  A result \<open>None\<close> is a panic.
\<close>

section \<open>The virtual machine\<close>

datatype halt_reason = HaltOutOfGas | HaltReason string

datatype execution_result =
    ExecSuccess u64
  | ExecRevert u64 bytes
  | ExecHalt halt_reason u64

datatype 'e evm_error = EvmDatabase 'e | EvmOther string

datatype ('e, 'm) script =
    Finish "'e evm_error + execution_result \<times> changes" 'm
  | ReadBasic address "'e + account_info option \<Rightarrow> ('e, 'm) script"
  | ReadCode b256 "'e + bytes \<Rightarrow> ('e, 'm) script"
  | ReadStorage address u256 "'e + u256 \<Rightarrow> ('e, 'm) script"
  | ReadBlockHash u64 "'e + b256 \<Rightarrow> ('e, 'm) script"

primrec run_script ::
  "('d, 'e) database \<Rightarrow> ('e, 'm) script \<Rightarrow> 'd
   \<Rightarrow> ('e evm_error + execution_result \<times> changes) \<times> 'm \<times> 'd" where
  "run_script db (Finish r m) d = (r, m, d)"
| "run_script db (ReadBasic a k) d = (case db_basic db a d of (r, d) \<Rightarrow> run_script db (k r) d)"
| "run_script db (ReadCode h k) d = (case db_code_by_hash db h d of (r, d) \<Rightarrow> run_script db (k r) d)"
| "run_script db (ReadStorage a i k) d = (case db_storage db a i d of (r, d) \<Rightarrow> run_script db (k r) d)"
| "run_script db (ReadBlockHash n k) d = (case db_block_hash db n d of (r, d) \<Rightarrow> run_script db (k r) d)"

record evm_env =
  ee_cfg_chain_id :: u64
  ee_basefee :: u256
  ee_block_gas_limit :: u256
  ee_block_number :: u256
  ee_timestamp :: u256
  ee_caller :: address
  ee_transact_to :: address
  ee_gas_limit :: u64
  ee_gas_price :: u256
  ee_value :: u256
  ee_chain_id :: "u64 option"
  ee_nonce :: "u64 option"
  ee_data :: bytes

record ('e, 'm) machine =
  vm_new :: 'm
  vm_transact :: "'m \<Rightarrow> evm_env \<Rightarrow> ('e, 'm) script"

record ('d, 'm) evm =
  ev_db :: 'd
  ev_env :: evm_env
  ev_mem :: 'm

definition transact_commit ::
  "('e, 'm) machine \<Rightarrow> ('d, 'e) database \<Rightarrow> ('d, 'm) evm \<Rightarrow> ('e evm_error + execution_result) \<times> ('d, 'm) evm" where
  "transact_commit vm db ev =
     (case run_script db (vm_transact vm (ev_mem ev) (ev_env ev)) (ev_db ev) of
        (Inl e, m, d) \<Rightarrow> (Inl e, ev\<lparr>ev_db := d, ev_mem := m\<rparr>)
      | (Inr (r, ch), m, d) \<Rightarrow> (Inr r, ev\<lparr>ev_db := db_commit db ch d, ev_mem := m\<rparr>))"

section \<open>One router call\<close>

definition classify_halt :: "halt_reason \<Rightarrow> sim_status" where
  "classify_halt reason = (case reason of HaltOutOfGas \<Rightarrow> OutOfGas | HaltReason s \<Rightarrow> HaltedOther s)"

definition hex_lower :: "bytes \<Rightarrow> string" where "hex_lower bs = ''0x'' @ hex_bytes bs"

definition code_less_account :: "(bytes \<Rightarrow> bytes) \<Rightarrow> u256 \<Rightarrow> account_info" where
  "code_less_account keccak balance =
     \<lparr>ai_balance = balance, ai_nonce = 0, ai_code_hash = KECCAK_EMPTY keccak, ai_code = None\<rparr>"

definition build_evm ::
  "('e, 'm) machine \<Rightarrow> 'd \<Rightarrow> sim_config \<Rightarrow> u64 \<Rightarrow> u32 option \<Rightarrow> ('d, 'm) evm" where
  "build_evm vm d cfg block block_timestamp =
     \<lparr>ev_db = d,
      ev_env = \<lparr>ee_cfg_chain_id = sc_chain_id cfg, ee_basefee = base_fee_wei cfg,
        ee_block_gas_limit = ucast (gas_limit_per_sim cfg), ee_block_number = ucast block,
        ee_timestamp = (case block_timestamp of Some t \<Rightarrow> ucast t | None \<Rightarrow> ucast block),
        ee_caller = TEST_EOA_CALLER, ee_transact_to = MOCK_ROUTER_ADDRESS, ee_gas_limit = gas_limit_per_sim cfg,
        ee_gas_price = base_fee_wei cfg, ee_value = 0, ee_chain_id = Some (sc_chain_id cfg), ee_nonce = Some 0,
        ee_data = []\<rparr>,
      ev_mem = vm_new vm\<rparr>"

fun str_contains :: "string \<Rightarrow> string \<Rightarrow> bool" where
  "str_contains pat [] = (pat = [])"
| "str_contains pat (c # cs) = (take (length pat) (c # cs) = pat \<or> str_contains pat cs)"

text \<open>The derived \<open>Debug\<close> of the two error types; \<open>show\<close> renders addresses and numbers.\<close>

definition debug_missing :: "(nat \<Rightarrow> string) \<Rightarrow> strict_missing_error \<Rightarrow> string" where
  "debug_missing show e =
     (case e of
        MissingAccount a \<Rightarrow> ''MissingAccount('' @ show (unat a) @ '')''
      | MissingStorage a i \<Rightarrow> ''MissingStorage { addr: '' @ show (unat a) @ '', slot: '' @ show (unat i) @ '' }''
      | MissingCodeHash h \<Rightarrow> ''MissingCodeHash('' @ show (unat h) @ '')''
      | MissingBlockHash n \<Rightarrow> ''MissingBlockHash { number: '' @ show (unat n) @ '' }'')"

definition debug_evm :: "('e \<Rightarrow> string) \<Rightarrow> 'e evm_error \<Rightarrow> string" where
  "debug_evm debug e = (case e of EvmDatabase x \<Rightarrow> ''Database('' @ debug x @ '')'' | EvmOther s \<Rightarrow> s)"

definition exec_router_call ::
  "('e, 'm) machine \<Rightarrow> ('d, 'e) database \<Rightarrow> ('e \<Rightarrow> string) \<Rightarrow> bytes \<Rightarrow> u64 \<Rightarrow> ('d, 'm) evm
   \<Rightarrow> (simulation_error + sim_status \<times> u64) \<times> ('d, 'm) evm" where
  "exec_router_call vm db debug calldata nonce ev =
     (case transact_commit vm db (ev\<lparr>ev_env := (ev_env ev)\<lparr>ee_data := calldata, ee_nonce := Some nonce\<rparr>\<rparr>) of
        (Inl e, ev) \<Rightarrow>
          (let detail = debug_evm debug e in
           if str_contains ''MissingStorage'' detail \<or> str_contains ''MissingAccount'' detail
           then (Inr (Reverted (''missing fixture state: '' @ detail), 0), ev)
           else (Inl (SimExecution detail), ev))
      | (Inr (ExecSuccess gas_used), ev) \<Rightarrow> (Inr (Success, gas_used), ev)
      | (Inr (ExecRevert gas_used out), ev) \<Rightarrow> (Inr (Reverted (hex_lower out), gas_used), ev)
      | (Inr (ExecHalt reason gas_used), ev) \<Rightarrow> (Inr (classify_halt reason, gas_used), ev))"

section \<open>The simulation\<close>

record ('d, 'm) sim_env =
  se_cache_db :: "'d cache_db_ops"
  se_keccak :: "bytes \<Rightarrow> bytes"
  se_vm :: "(strict_missing_error, 'm) machine"
  se_show :: "nat \<Rightarrow> string"

definition select_fixture :: "fixture_set option \<Rightarrow> opportunity_event \<Rightarrow> simulation_error + fixture_set" where
  "select_fixture active opp =
     (case active of
        None \<Rightarrow> Inl (SimSetup NoFixturesLoaded)
      | Some fx \<Rightarrow>
          (if fx_block_hash fx \<noteq> oo_block_hash opp
           then Inl (SimSetup (FixtureBlockHash (fx_block_hash fx) (oo_block_hash opp)))
           else if fp_pool (fx_source fx) \<noteq> source_pool opp
           then Inl (SimSetup (LoadedSource (fp_pool (fx_source fx)) (source_pool opp)))
           else if fp_pool (fx_sink fx) \<noteq> sink_pool opp
           then Inl (SimSetup (LoadedSink (fp_pool (fx_sink fx)) (sink_pool opp)))
           else Inr fx))"

text \<open>Overwrite the first entry of a slot, or append one.\<close>

fun set_slot :: "u256 \<Rightarrow> b256 \<Rightarrow> (u256 \<times> b256) list \<Rightarrow> (u256 \<times> b256) list" where
  "set_slot i v [] = [(i, v)]"
| "set_slot i v ((j, w) # xs) = (if j = i then (j, v) # xs else (j, w) # set_slot i v xs)"

definition router_slot :: "(bytes \<Rightarrow> bytes) \<Rightarrow> u256 \<Rightarrow> u256" where
  "router_slot keccak balances = mapping_slot_u256 keccak balances (address_key MOCK_ROUTER_ADDRESS)"

definition sim_accounts :: "(bytes \<Rightarrow> bytes) \<Rightarrow> u256 \<Rightarrow> fixture_set \<Rightarrow> fetched_account list" where
  "sim_accounts keccak amount fx =
     [(fx_weth fx)\<lparr>fa_storage := set_slot (router_slot keccak WETH9_BALANCES_SLOT) amount (fa_storage (fx_weth fx))\<rparr>,
      fx_usdc_proxy fx, fx_usdc_impl fx, fx_v2_factory fx]"

definition sim_prepare ::
  "('d, 'm) sim_env \<Rightarrow> sim_config \<Rightarrow> fixture_set \<Rightarrow> opportunity_event \<Rightarrow> simulation_error + 'd prepared_simulation" where
  "sim_prepare se cfg fx opp =
     (let cd = se_cache_db se; keccak = se_keccak se in
      bind_res (build_prepared cd keccak (fx_source fx) (fx_sink fx)
          (sim_accounts keccak (optimal_amount_in_wei opp) fx)
          \<lparr>mock_router_address = MOCK_ROUTER_ADDRESS, mock_router_bytecode = MOCK_ROUTER_RUNTIME,
           mock_router_eth_balance_wei = eoa_initial_balance_wei cfg,
           mock_router_weth_balance_wei = optimal_amount_in_wei opp\<rparr>
          (fa_address (fx_weth fx)) (router_slot keccak WETH9_BALANCES_SLOT))
        (\<lambda>ps. Inr (ps\<lparr>ps_db :=
           strict_insert_account cd TEST_EOA_CALLER (code_less_account keccak (eoa_initial_balance_wei cfg))
             (strict_insert_account cd 0 (code_less_account keccak 0) (ps_db ps))\<rparr>)))"

definition sim_outcome :: "opportunity_event \<Rightarrow> u64 \<Rightarrow> sim_status \<Rightarrow> u256 \<Rightarrow> simulation_outcome" where
  "sim_outcome opp gas status profit =
     \<lparr>so_opportunity_block_number = oo_block_number opp, so_gas_used = gas, so_status = status,
      so_simulated_profit_wei = profit, so_profit_source = RevmComputed\<rparr>"

text \<open>The second hop and the measurement, after the intermediate balance has been read.\<close>

definition second_hop ::
  "('d, 'm) sim_env \<Rightarrow> ('x, strict_missing_error) database \<Rightarrow> fixture_set \<Rightarrow> opportunity_event \<Rightarrow> u256
   \<Rightarrow> u64 \<Rightarrow> u256 \<Rightarrow> ('x, 'm) evm \<Rightarrow> (simulation_error + simulation_outcome) option \<times> 'x" where
  "second_hop se db fx opp pre swap1_gas usdc_in ev =
     (case build_router_calldata_buy_weth (fx_source fx) usdc_in (fa_address (fx_usdc_proxy fx)) of
        None \<Rightarrow> (None, ev_db ev)
      | Some (Inl e) \<Rightarrow> (Some (Inl e), ev_db ev)
      | Some (Inr calldata) \<Rightarrow>
          (case exec_router_call (se_vm se) db (debug_missing (se_show se)) calldata 1 ev of
             (Inl e, ev) \<Rightarrow> (Some (Inl e), ev_db ev)
           | (Inr (status, swap2_gas), ev) \<Rightarrow>
               (let gas = saturating_add swap1_gas swap2_gas in
                if status \<noteq> Success then (Some (Inr (sim_outcome opp gas status 0)), ev_db ev)
                else case db_storage db (fa_address (fx_weth fx)) (router_slot (se_keccak se) WETH9_BALANCES_SLOT) (ev_db ev) of
                  (Inl e, d) \<Rightarrow> (Some (Inr (sim_outcome opp gas
                     (Reverted (''read post WETH balance: '' @ debug_missing (se_show se) e)) 0)), d)
                | (Inr post, d) \<Rightarrow> (Some (Inr (sim_outcome opp gas Success (saturating_sub post pre))), d))))"

definition sim_hops ::
  "('d, 'm) sim_env \<Rightarrow> ('x, strict_missing_error) database \<Rightarrow> sim_config \<Rightarrow> fixture_set \<Rightarrow> opportunity_event
   \<Rightarrow> u256 \<Rightarrow> 'x \<Rightarrow> (simulation_error + simulation_outcome) option \<times> 'x" where
  "sim_hops se db cfg fx opp pre d =
     (case build_router_calldata_sell_weth (fx_sink fx) (optimal_amount_in_wei opp) (fa_address (fx_weth fx)) of
        None \<Rightarrow> (None, d)
      | Some (Inl e) \<Rightarrow> (Some (Inl e), d)
      | Some (Inr calldata) \<Rightarrow>
          (let block_timestamp = (case v2_block_timestamp_last (fx_source fx) of
                 Some t \<Rightarrow> Some t | None \<Rightarrow> v2_block_timestamp_last (fx_sink fx));
               ev = build_evm (se_vm se) d cfg (oo_block_number opp) block_timestamp in
           case exec_router_call (se_vm se) db (debug_missing (se_show se)) calldata 0 ev of
             (Inl e, ev) \<Rightarrow> (Some (Inl e), ev_db ev)
           | (Inr (status, swap1_gas), ev) \<Rightarrow>
               (if status \<noteq> Success then (Some (Inr (sim_outcome opp swap1_gas status 0)), ev_db ev)
                else case db_storage db (fa_address (fx_usdc_proxy fx)) (router_slot (se_keccak se) USDC_BALANCES_SLOT) (ev_db ev) of
                  (Inl e, d) \<Rightarrow> (Some (Inr (sim_outcome opp swap1_gas
                     (Reverted (''read USDC balance after swap-1: '' @ debug_missing (se_show se) e)) 0)), d)
                | (Inr usdc_in, d) \<Rightarrow> second_hop se db fx opp pre swap1_gas usdc_in (ev\<lparr>ev_db := d\<rparr>))))"

definition simulate ::
  "('d, 'm) sim_env \<Rightarrow> sim_config \<Rightarrow> fixture_set option \<Rightarrow> risk_checked_opportunity
   \<Rightarrow> (simulation_error + simulation_outcome) option" where
  "simulate se cfg active rc =
     (let opp = rc_opportunity rc in
      case select_fixture active opp of
        Inl e \<Rightarrow> Some (Inl e)
      | Inr fx \<Rightarrow>
          (case sim_prepare se cfg fx opp of
             Inl e \<Rightarrow> Some (Inl e)
           | Inr ps \<Rightarrow>
               fst (sim_hops se (strict_database (se_cache_db se) (se_keccak se)) cfg fx opp
                 (pre_router_weth_wei ps) (ps_db ps))))"

definition simulate_with_fingerprint ::
  "('d, 'm) sim_env \<Rightarrow> sim_config \<Rightarrow> fixture_set option \<Rightarrow> risk_checked_opportunity
   \<Rightarrow> (simulation_error + simulation_outcome \<times> local_state_fingerprint) option" where
  "simulate_with_fingerprint se cfg active rc =
     (let opp = rc_opportunity rc in
      case select_fixture active opp of
        Inl e \<Rightarrow> Some (Inl e)
      | Inr fx \<Rightarrow>
          (case sim_prepare se cfg fx opp of
             Inl e \<Rightarrow> Some (Inl e)
           | Inr ps \<Rightarrow>
               (case sim_hops se (recording_database (strict_database (se_cache_db se) (se_keccak se))) cfg fx opp
                   (pre_router_weth_wei ps) (recording_new (ps_db ps)) of
                  (None, d) \<Rightarrow> None
                | (Some (Inl e), d) \<Rightarrow> Some (Inl e)
                | (Some (Inr outcome), d) \<Rightarrow>
                    Some (Inr (outcome, \<lparr>fp_block_hash = fx_block_hash fx, fp_observations = rd_reads d\<rparr>)))))"

end
