(* ===== verification/Sim_Properties.thy ===== *)
theory Sim_Properties
  imports Simulator Reconcile
begin

text \<open>
  What the simulation guarantees: recording its reads does not change it, its profit is what the final
  database says, state nobody provided makes it revert, and two things the code does not do: simulate
  the size the risk gate approved, and prefetch all a V2 pair reads.
\<close>

section \<open>Recording is transparent\<close>

text \<open>A script run on the recording database does what it does on the inner one, and appends reads.\<close>

lemma recording_script:
  "\<exists>s' new. run_script (recording_database db) sc s
      = (fst (run_script db sc (rd_inner s)), fst (snd (run_script db sc (rd_inner s))), s') \<and>
    rd_inner s' = snd (snd (run_script db sc (rd_inner s))) \<and> rd_reads s' = rd_reads s @ new"
proof (induction sc arbitrary: s)
  case (ReadStorage a i k)
  obtain r d where g: "db_storage db a i (rd_inner s) = (r, d)" by (meson surj_pair)
  obtain obs where "recording_storage db a i s = (r, \<lparr>rd_inner = d, rd_reads = rd_reads s @ obs\<rparr>)"
    using recording_storage_inner[of db a i s] by (auto simp: g)
  then show ?case using ReadStorage[OF rangeI, of r "\<lparr>rd_inner = d, rd_reads = rd_reads s @ obs\<rparr>"]
    by (auto simp: recording_database_def g)
next
  case (ReadBasic a k)
  then show ?case
    using ReadBasic[OF rangeI, of "fst (db_basic db a (rd_inner s))" "s\<lparr>rd_inner := snd (db_basic db a (rd_inner s))\<rparr>"]
    by (simp add: recording_database_def through_inner split_beta)
next
  case (ReadCode h k)
  then show ?case
    using ReadCode[OF rangeI, of "fst (db_code_by_hash db h (rd_inner s))" "s\<lparr>rd_inner := snd (db_code_by_hash db h (rd_inner s))\<rparr>"]
    by (simp add: recording_database_def through_inner split_beta)
next
  case (ReadBlockHash n k)
  then show ?case
    using ReadBlockHash[OF rangeI, of "fst (db_block_hash db n (rd_inner s))" "s\<lparr>rd_inner := snd (db_block_hash db n (rd_inner s))\<rparr>"]
    by (simp add: recording_database_def through_inner split_beta)
qed simp

text \<open>Two machines in step: same environment and memory, the first database recording the second.\<close>

definition in_step :: "('d recording_db, 'm) evm \<Rightarrow> ('d, 'm) evm \<Rightarrow> bool" where
  "in_step ev ev' \<longleftrightarrow> rd_inner (ev_db ev) = ev_db ev' \<and> ev_env ev = ev_env ev' \<and> ev_mem ev = ev_mem ev'"

lemma transact_in_step:
  assumes "in_step ev ev'"
  shows "fst (transact_commit vm (recording_database db) ev) = fst (transact_commit vm db ev') \<and>
    in_step (snd (transact_commit vm (recording_database db) ev)) (snd (transact_commit vm db ev'))"
proof -
  let ?sc = "vm_transact vm (ev_mem ev) (ev_env ev)"
  obtain r m d where r: "run_script db ?sc (ev_db ev') = (r, m, d)" by (metis prod_cases3)
  obtain s' where s: "run_script (recording_database db) ?sc (ev_db ev) = (r, m, s')" "rd_inner s' = d"
    using recording_script[of db ?sc "ev_db ev"] assms unfolding in_step_def by (metis r fst_conv snd_conv)
  have same: "vm_transact vm (ev_mem ev') (ev_env ev') = ?sc" using assms by (simp add: in_step_def)
  show ?thesis
    unfolding transact_commit_def same r s(1)
    using assms s(2) by (cases r) (auto simp: in_step_def recording_database_def split: prod.split)
qed

lemma exec_in_step:
  assumes "in_step ev ev'"
  shows "fst (exec_router_call vm (recording_database db) debug cd n ev) = fst (exec_router_call vm db debug cd n ev') \<and>
    in_step (snd (exec_router_call vm (recording_database db) debug cd n ev)) (snd (exec_router_call vm db debug cd n ev'))"
proof -
  let ?a = "ev\<lparr>ev_env := (ev_env ev)\<lparr>ee_data := cd, ee_nonce := Some n\<rparr>\<rparr>"
  let ?b = "ev'\<lparr>ev_env := (ev_env ev')\<lparr>ee_data := cd, ee_nonce := Some n\<rparr>\<rparr>"
  have "in_step ?a ?b" using assms by (simp add: in_step_def)
  from transact_in_step[OF this, of vm db] show ?thesis
    unfolding exec_router_call_def
    by (cases "transact_commit vm (recording_database db) ?a"; cases "transact_commit vm db ?b")
      (auto simp: Let_def split: sum.split execution_result.split)
qed

lemma storage_in_step:
  "fst (db_storage (recording_database db) a i s) = fst (db_storage db a i (rd_inner s)) \<and>
   rd_inner (snd (db_storage (recording_database db) a i s)) = snd (db_storage db a i (rd_inner s))"
  using recording_storage_inner[of db a i s] by (auto simp: recording_database_def)

lemma second_hop_in_step:
  assumes "in_step ev ev'"
  shows "fst (second_hop se (recording_database db) fx opp pre g u ev) = fst (second_hop se db fx opp pre g u ev')"
proof (cases "build_router_calldata_buy_weth (fx_source fx) u (fa_address (fx_usdc_proxy fx))")
  case (Some r)
  show ?thesis
  proof (cases r)
    case (Inr cd)
    obtain q e where q: "exec_router_call (se_vm se) (recording_database db) (debug_missing (se_show se)) cd 1 ev = (q, e)"
      by (meson surj_pair)
    obtain e' where q': "exec_router_call (se_vm se) db (debug_missing (se_show se)) cd 1 ev' = (q, e')" "in_step e e'"
      using exec_in_step[OF assms, of "se_vm se" db "debug_missing (se_show se)" cd 1] by (metis q fst_conv snd_conv surj_pair)
    have inner: "rd_inner (ev_db e) = ev_db e'" using q'(2) by (simp add: in_step_def)
    show ?thesis
      unfolding second_hop_def Some Inr q q'(1) option.case sum.case prod.case
      using storage_in_step[of db "fa_address (fx_weth fx)" "router_slot (se_keccak se) WETH9_BALANCES_SLOT" "ev_db e"]
      by (auto simp: inner Let_def split: sum.split prod.split)
  qed (simp add: second_hop_def Some)
qed (simp add: second_hop_def)

lemma sim_hops_in_step:
  assumes "rd_inner s = d"
  shows "fst (sim_hops se (recording_database db) cfg fx opp pre s) = fst (sim_hops se db cfg fx opp pre d)"
proof (cases "build_router_calldata_sell_weth (fx_sink fx) (optimal_amount_in_wei opp) (fa_address (fx_weth fx))")
  case (Some r)
  show ?thesis
  proof (cases r)
    case (Inr cd)
    define ts where "ts = (case v2_block_timestamp_last (fx_source fx) of
        Some t \<Rightarrow> Some t | None \<Rightarrow> v2_block_timestamp_last (fx_sink fx))"
    let ?a = "build_evm (se_vm se) s cfg (oo_block_number opp) ts"
    let ?b = "build_evm (se_vm se) d cfg (oo_block_number opp) ts"
    have "in_step ?a ?b" using assms by (simp add: in_step_def build_evm_def)
    note step = exec_in_step[OF this, of "se_vm se" db "debug_missing (se_show se)" cd 0]
    obtain q e where q: "exec_router_call (se_vm se) (recording_database db) (debug_missing (se_show se)) cd 0 ?a = (q, e)"
      by (meson surj_pair)
    obtain e' where q': "exec_router_call (se_vm se) db (debug_missing (se_show se)) cd 0 ?b = (q, e')" "in_step e e'"
      using step by (metis q fst_conv snd_conv surj_pair)
    obtain v s1 where v: "db_storage (recording_database db) (fa_address (fx_usdc_proxy fx))
        (router_slot (se_keccak se) USDC_BALANCES_SLOT) (ev_db e) = (v, s1)" by (meson surj_pair)
    have inner: "rd_inner (ev_db e) = ev_db e'" using q'(2) by (simp add: in_step_def)
    obtain d1 where v': "db_storage db (fa_address (fx_usdc_proxy fx))
        (router_slot (se_keccak se) USDC_BALANCES_SLOT) (ev_db e') = (v, d1)" "rd_inner s1 = d1"
      using storage_in_step[of db "fa_address (fx_usdc_proxy fx)" "router_slot (se_keccak se) USDC_BALANCES_SLOT" "ev_db e"]
      by (metis inner v fst_conv snd_conv surj_pair)
    have "in_step (e\<lparr>ev_db := s1\<rparr>) (e'\<lparr>ev_db := d1\<rparr>)" using q'(2) v'(2) by (simp add: in_step_def)
    note second = second_hop_in_step[OF this, of se db fx opp pre]
    show ?thesis
      unfolding sim_hops_def Some Inr option.case sum.case Let_def ts_def[symmetric] q q'(1) prod.case v v'(1)
      by (cases q) (auto simp: second split: sum.split)
  qed (simp add: sim_hops_def Some)
qed (simp add: sim_hops_def)

text \<open>The simulation that records the state it read ends exactly as the one that does not: same panics,
  same errors, same outcome; and its fingerprint is pinned to the opportunity's block.\<close>

theorem fingerprint_parity:
  "case simulate_with_fingerprint se cfg active rc of
     None \<Rightarrow> simulate se cfg active rc = None
   | Some (Inl e) \<Rightarrow> simulate se cfg active rc = Some (Inl e)
   | Some (Inr (out, fp)) \<Rightarrow> simulate se cfg active rc = Some (Inr out) \<and>
       fp_block_hash fp = oo_block_hash (rc_opportunity rc)"
proof (cases "select_fixture active (rc_opportunity rc)")
  case (Inr fx)
  have hash: "fx_block_hash fx = oo_block_hash (rc_opportunity rc)"
    using Inr by (auto simp: select_fixture_def split: option.splits if_splits)
  show ?thesis
  proof (cases "sim_prepare se cfg fx (rc_opportunity rc)")
    case prep: (Inr ps)
    let ?db = "strict_database (se_cache_db se) (se_keccak se)"
    obtain r s where r: "sim_hops se (recording_database ?db) cfg fx (rc_opportunity rc) (pre_router_weth_wei ps)
        (recording_new (ps_db ps)) = (r, s)" by (meson surj_pair)
    have "fst (sim_hops se ?db cfg fx (rc_opportunity rc) (pre_router_weth_wei ps) (ps_db ps)) = r"
      using sim_hops_in_step[of "recording_new (ps_db ps)" "ps_db ps" se ?db cfg fx "rc_opportunity rc" "pre_router_weth_wei ps"]
      unfolding r by (simp add: recording_new_def)
    then show ?thesis
      by (cases r; cases "the r") (auto simp: simulate_with_fingerprint_def simulate_def Let_def Inr prep r hash)
  qed (simp add: simulate_with_fingerprint_def simulate_def Let_def Inr)
qed (simp add: simulate_with_fingerprint_def simulate_def Let_def)

section \<open>The measured profit\<close>

lemma strict_db_storage: "db_storage (strict_database cd keccak) = strict_storage cd"
  by (simp add: strict_database_def)

lemma hops_outcome:
  assumes "sim_hops se db cfg fx opp pre d0 = (Some (Inr out), d)"
  shows "so_opportunity_block_number out = oo_block_number opp \<and> so_profit_source out = RevmComputed \<and>
    (so_status out \<noteq> Success \<longrightarrow> so_simulated_profit_wei out = 0) \<and>
    (so_status out = Success \<longrightarrow> (\<exists>post d1.
       db_storage db (fa_address (fx_weth fx)) (router_slot (se_keccak se) WETH9_BALANCES_SLOT) d1 = (Inr post, d) \<and>
       so_simulated_profit_wei out = saturating_sub post pre))"
  using assms unfolding sim_hops_def second_hop_def
  by (auto simp: Let_def sim_outcome_def split: option.splits sum.splits prod.splits if_splits)

text \<open>C32: A simulation that succeeds reports the growth of the router's token balance between the amount it
  was given and what the database holds after both swaps, never less than zero; any other outcome
  reports no profit.  The outcome carries the opportunity's block.\<close>

theorem simulated_profit_measured:
  assumes "cache_db (se_cache_db se) slot" "sim_prepare se cfg fx opp = Inr ps"
    and "sim_hops se (strict_database (se_cache_db se) (se_keccak se)) cfg fx opp (pre_router_weth_wei ps) (ps_db ps)
      = (Some (Inr out), d)"
  shows "so_opportunity_block_number out = oo_block_number opp \<and>
    (if so_status out = Success
     then \<exists>post. fst (strict_storage (se_cache_db se) (fa_address (fx_weth fx))
         (router_slot (se_keccak se) WETH9_BALANCES_SLOT) d) = Inr post \<and>
       unat (so_simulated_profit_wei out) = unat post - unat (optimal_amount_in_wei opp)
     else so_simulated_profit_wei out = 0)"
proof -
  have pre: "pre_router_weth_wei ps = optimal_amount_in_wei opp"
    using assms(2) cache_db.build_prepared_exact(2)[OF assms(1)]
    by (auto simp: sim_prepare_def Let_def bind_res_Inr_iff)
  show ?thesis
  proof (cases "so_status out = Success")
    case True
    with hops_outcome[OF assms(3)] obtain post d1 where p:
        "strict_storage (se_cache_db se) (fa_address (fx_weth fx)) (router_slot (se_keccak se) WETH9_BALANCES_SLOT) d1
          = (Inr post, d)" "so_simulated_profit_wei out = saturating_sub post (optimal_amount_in_wei opp)"
      by (auto simp: pre strict_db_storage)
    have "fst (strict_storage (se_cache_db se) (fa_address (fx_weth fx)) (router_slot (se_keccak se) WETH9_BALANCES_SLOT) d)
        = Inr post"
      using cache_db.strict_read[OF assms(1), of "fa_address (fx_weth fx)" "router_slot (se_keccak se) WETH9_BALANCES_SLOT"]
      by (metis p(1) fst_conv snd_conv)
    with p(2) True hops_outcome[OF assms(3)] show ?thesis by (simp add: unat_saturating_sub)
  qed (use hops_outcome[OF assms(3)] in simp)
qed

text \<open>C40: The size the risk gate approved is not what is simulated.  When the gate clamps an opportunity to its
  cap, the router is nevertheless funded with the opportunity's full amount, and the approved size has
  no influence on the simulation at all.\<close>

theorem simulation_ignores_clamp:
  assumes "cache_db (se_cache_db se) slot" "evaluate g opp = Inr rc"
    and "clamped_size (rg_config g) opp < optimal_amount_in_wei opp"
    and "sim_prepare se cfg fx (rc_opportunity rc) = Inr ps"
  shows "rc_size_wei rc < pre_router_weth_wei ps \<and>
    simulate_with_fingerprint se cfg active (rc\<lparr>rc_size_wei := n\<rparr>) = simulate_with_fingerprint se cfg active rc"
proof -
  have "pre_router_weth_wei ps = optimal_amount_in_wei (rc_opportunity rc)"
    using assms(4) cache_db.build_prepared_exact(2)[OF assms(1)]
    by (auto simp: sim_prepare_def Let_def bind_res_Inr_iff)
  with assms(2,3) show ?thesis by (simp add: evaluate_Inr simulate_with_fingerprint_def)
qed

section \<open>State nobody provided\<close>

lemma str_contains_prefix: "str_contains pat (pat @ ys)"
  by (cases "pat @ ys") (auto, metis append_eq_conv_conj)

lemma str_contains_skip: "str_contains pat cs \<Longrightarrow> str_contains pat (xs @ cs)"
  by (induction xs) simp_all

lemma str_contains_within: "str_contains pat (xs @ pat @ ys)"
  by (intro str_contains_skip str_contains_prefix)

lemma debug_missing_storage: "str_contains ''MissingStorage'' (debug_evm (debug_missing sh) (EvmDatabase (MissingStorage a i)))"
  using str_contains_within[of "''MissingStorage''" "''Database(''"
    "'' { addr: '' @ sh (unat a) @ '', slot: '' @ sh (unat i) @ '' })''"]
  by (simp add: debug_evm_def debug_missing_def)

lemma missing_read_reverts:
  assumes "run_script db (vm_transact vm (ev_mem ev) ((ev_env ev)\<lparr>ee_data := cd, ee_nonce := Some n\<rparr>)) (ev_db ev)
      = (Inl (EvmDatabase (MissingStorage a i)), m, d)"
  shows "fst (exec_router_call vm db (debug_missing sh) cd n ev)
    = Inr (Reverted (''missing fixture state: '' @ debug_evm (debug_missing sh) (EvmDatabase (MissingStorage a i))), 0)"
  using debug_missing_storage[of sh a i]
  by (simp add: exec_router_call_def transact_commit_def assms Let_def)

section \<open>A concrete simulation\<close>

text \<open>A concrete run: a machine that always succeeds, the first time paying the router 190 of the
  intermediate token, the second time leaving it 150 of the token it was funded with 100 of.\<close>

definition demo_fixtures :: fixture_set where
  "demo_fixtures = \<lparr>fx_block_hash = 1, fx_source = demo_v3_pool, fx_sink = demo_v2_pool,
     fx_weth = demo_weth\<lparr>fa_storage := []\<rparr>, fx_usdc_proxy = demo_weth\<lparr>fa_address := 8, fa_storage := []\<rparr>,
     fx_usdc_impl = demo_weth\<lparr>fa_address := 10, fa_storage := []\<rparr>,
     fx_v2_factory = demo_weth\<lparr>fa_address := V2_FACTORY_ADDRESS, fa_storage := []\<rparr>\<rparr>"

definition demo_machine :: "(strict_missing_error, unit) machine" where
  "demo_machine = \<lparr>vm_new = (),
     vm_transact = (\<lambda>m env. Finish (Inr (ExecSuccess 21000,
       if ee_nonce env = Some 0
       then [(8, \<lparr>ac_info = code_less_account (\<lambda>x. x) 0,
                  ac_storage = [(router_slot (\<lambda>x. x) USDC_BALANCES_SLOT, 190)]\<rparr>)]
       else [(9, \<lparr>ac_info = code_less_account (\<lambda>x. x) 0,
                  ac_storage = [(router_slot (\<lambda>x. x) WETH9_BALANCES_SLOT, 150)]\<rparr>)])) m)\<rparr>"

definition demo_sim_env :: "(flat_db, unit) sim_env" where
  "demo_sim_env = \<lparr>se_cache_db = flat_db_ops, se_keccak = (\<lambda>x. x), se_vm = demo_machine,
     se_show = (\<lambda>_. [])\<rparr>"

lemma demo_call:
  "exec_router_call demo_machine (strict_database flat_db_ops kc) debug cd n ev =
     (Inr (Success, 21000), ev\<lparr>ev_env := (ev_env ev)\<lparr>ee_data := cd, ee_nonce := Some n\<rparr>, ev_mem := (),
        ev_db := strict_commit flat_db_ops
          (if n = 0 then [(8, \<lparr>ac_info = code_less_account (\<lambda>x. x) 0,
                  ac_storage = [(router_slot (\<lambda>x. x) USDC_BALANCES_SLOT, 190)]\<rparr>)]
           else [(9, \<lparr>ac_info = code_less_account (\<lambda>x. x) 0,
                  ac_storage = [(router_slot (\<lambda>x. x) WETH9_BALANCES_SLOT, 150)]\<rparr>)]) (ev_db ev)\<rparr>)"
  by (simp add: exec_router_call_def transact_commit_def demo_machine_def strict_database_def)

lemma demo_committed_read:
  "strict_storage flat_db_ops a i (strict_commit flat_db_ops [(a, \<lparr>ac_info = info, ac_storage = [(i, v)]\<rparr>)] d)
     = (Inr v, strict_commit flat_db_ops [(a, \<lparr>ac_info = info, ac_storage = [(i, v)]\<rparr>)] d)"
  by (cases "sb_inner d") (simp add: strict_storage_def strict_commit_def touched_def flat_db_ops_def)

lemma demo_prepared: "\<exists>ps. sim_prepare demo_sim_env sim_defaults demo_fixtures demo_opp = Inr ps \<and> pre_router_weth_wei ps = 100"
proof -
  let ?extra = "sim_accounts (\<lambda>x. x) 100 demo_fixtures"
  let ?aux = "\<lparr>mock_router_address = MOCK_ROUTER_ADDRESS, mock_router_bytecode = MOCK_ROUTER_RUNTIME,
      mock_router_eth_balance_wei = eoa_initial_balance_wei sim_defaults, mock_router_weth_balance_wei = 100\<rparr>"
  have l: "loaded (fixture_blocks demo_v3_pool demo_v2_pool ?extra) (\<lambda>_ _. None) 9
      (router_slot (\<lambda>x. x) WETH9_BALANCES_SLOT) = Some 100"
    by (simp add: fixture_blocks_def sim_accounts_def demo_fixtures_def demo_v2_pool_def demo_v3_pool_def
      demo_weth_def V2_FACTORY_ADDRESS_def address_from_be_def)
  have "is_ok (build_prepared flat_db_ops (\<lambda>x. x) demo_v3_pool demo_v2_pool ?extra ?aux 9 (router_slot (\<lambda>x. x) WETH9_BALANCES_SLOT))"
    unfolding flat.build_prepared_exact(1) l
    by (simp add: sim_accounts_def demo_fixtures_def demo_v2_pool_def demo_v3_pool_def demo_weth_def)
  then obtain ps where ps: "build_prepared flat_db_ops (\<lambda>x. x) demo_v3_pool demo_v2_pool ?extra ?aux 9
      (router_slot (\<lambda>x. x) WETH9_BALANCES_SLOT) = Inr ps" by (cases "build_prepared flat_db_ops (\<lambda>x. x) demo_v3_pool demo_v2_pool ?extra ?aux 9
      (router_slot (\<lambda>x. x) WETH9_BALANCES_SLOT)") auto
  from flat.build_prepared_exact(2)[OF ps] ps show ?thesis
    by (simp add: sim_prepare_def Let_def demo_sim_env_def demo_opp_def demo_fixtures_def demo_weth_def)
qed

lemma demo_sell: "\<exists>cd. build_router_calldata_sell_weth demo_v2_pool 100 9 = Some (Inr cd)"
proof -
  have v2: "is_v2 (pid_kind (fp_pool demo_v2_pool))" by (simp add: demo_v2_pool_def)
  obtain u where "uniswap_v2_get_amount_out 100 2000 4000 = Some u"
    by (rule amount_out_Some[of 100 2000 4000]) (simp add: amount_out_panics_def)
  then show ?thesis by (simp add: build_router_calldata_sell_weth_def v2 demo_v2_reserves)
qed

lemma demo_buy: "\<exists>cd. build_router_calldata_buy_weth demo_v3_pool 190 8 = Some (Inr cd)"
proof -
  have "i256_try_from 190 = Some 190" by (simp add: i256_try_from_def)
  then show ?thesis by (simp add: build_router_calldata_buy_weth_def demo_v3_pool_def)
qed

lemma demo_hops:
  "\<exists>out d'. sim_hops demo_sim_env (strict_database flat_db_ops (\<lambda>x. x)) sim_defaults demo_fixtures demo_opp 100 d
     = (Some (Inr out), d') \<and> so_status out = Success"
proof -
  obtain sell where sell: "build_router_calldata_sell_weth demo_v2_pool 100 9 = Some (Inr sell)" using demo_sell by blast
  obtain buy where buy: "build_router_calldata_buy_weth demo_v3_pool 190 8 = Some (Inr buy)" using demo_buy by blast
  have f: "fx_sink demo_fixtures = demo_v2_pool" "fx_source demo_fixtures = demo_v3_pool"
      "fa_address (fx_weth demo_fixtures) = 9" "fa_address (fx_usdc_proxy demo_fixtures) = 8"
      "optimal_amount_in_wei demo_opp = 100"
      "se_vm demo_sim_env = demo_machine" "se_keccak demo_sim_env = (\<lambda>x. x)"
    by (simp_all add: demo_fixtures_def demo_weth_def demo_opp_def demo_sim_env_def)
  show ?thesis
    unfolding sim_hops_def f sell option.case sum.case Let_def demo_call prod.case
    by (simp add: strict_db_storage demo_committed_read second_hop_def f buy demo_call sim_outcome_def)
qed

theorem simulated_profit_measured_witness:
  "\<exists>ps out d. sim_prepare demo_sim_env sim_defaults demo_fixtures demo_opp = Inr ps \<and>
     sim_hops demo_sim_env (strict_database flat_db_ops (\<lambda>x. x)) sim_defaults demo_fixtures demo_opp
       (pre_router_weth_wei ps) (ps_db ps) = (Some (Inr out), d) \<and>
     so_opportunity_block_number out = 5 \<and> so_status out = Success \<and>
     (\<exists>post. fst (strict_storage flat_db_ops 9 (router_slot (\<lambda>x. x) WETH9_BALANCES_SLOT) d) = Inr post \<and>
       unat (so_simulated_profit_wei out) = unat post - 100)"
proof -
  obtain ps where ps: "sim_prepare demo_sim_env sim_defaults demo_fixtures demo_opp = Inr ps" "pre_router_weth_wei ps = 100"
    using demo_prepared by blast
  obtain out d where out: "sim_hops demo_sim_env (strict_database flat_db_ops (\<lambda>x. x)) sim_defaults demo_fixtures demo_opp
      100 (ps_db ps) = (Some (Inr out), d)" "so_status out = Success" using demo_hops by blast
  have e: "se_cache_db demo_sim_env = flat_db_ops" "se_keccak demo_sim_env = (\<lambda>x. x)" "oo_block_number demo_opp = 5"
    "optimal_amount_in_wei demo_opp = 100" "fa_address (fx_weth demo_fixtures) = 9"
    by (simp_all add: demo_sim_env_def demo_opp_def demo_fixtures_def demo_weth_def)
  have "cache_db (se_cache_db demo_sim_env) snd" unfolding e(1) by (rule flat.cache_db_axioms)
  from simulated_profit_measured[OF this ps(1), of out d] show ?thesis
    using ps out by (simp add: e)
qed

text \<open>A gate whose cap is 40 approves the demonstration's opportunity of 100.\<close>

definition demo_clamping_gate :: risk_gate where
  "demo_clamping_gate = risk_gate_new (risk_defaults\<lparr>per_bundle_max_notional_wei := 40\<rparr>)"

lemma demo_clamped: "evaluate demo_clamping_gate demo_opp = Inr \<lparr>rc_opportunity = demo_opp, rc_size_wei = 40\<rparr>"
  "clamped_size (rg_config demo_clamping_gate) demo_opp < optimal_amount_in_wei demo_opp"
  by (simp_all add: demo_clamping_gate_def demo_opp_def risk_demo_simps)

theorem simulation_ignores_clamp_witness:
  "\<exists>rc ps. evaluate demo_clamping_gate demo_opp = Inr rc \<and> rc_size_wei rc = 40 \<and>
     sim_prepare demo_sim_env sim_defaults demo_fixtures (rc_opportunity rc) = Inr ps \<and> rc_size_wei rc < pre_router_weth_wei ps"
proof -
  let ?rc = "\<lparr>rc_opportunity = demo_opp, rc_size_wei = 40\<rparr>"
  obtain ps where ps: "sim_prepare demo_sim_env sim_defaults demo_fixtures demo_opp = Inr ps" using demo_prepared by blast
  have "se_cache_db demo_sim_env = flat_db_ops" by (simp add: demo_sim_env_def)
  then have "cache_db (se_cache_db demo_sim_env) snd" using flat.cache_db_axioms by simp
  from simulation_ignores_clamp[OF this demo_clamped, of sim_defaults demo_fixtures ps None] ps
  show ?thesis using demo_clamped(1) by auto
qed

end
