(* ===== verification/Sim_Pair_Lock.thy ===== *)
theory Sim_Pair_Lock
  imports Sim_Properties
begin

text \<open>
  Simulator and fetcher composed on Uniswap V2 pools.  The fetcher's V2 layout names the slots 0, 6, 7
  and 8; the pair's \<open>swap\<close> also reads its reentrancy lock, slot 12 (the recorded fixtures of
  \<open>fixtures.rs\<close> hold the slots 9 to 12 for that reason).  On a strict database built from a prefetched
  fixture that read fails.
\<close>

section \<open>What a layout fetches\<close>

text \<open>With a layout that derives nothing, exactly its base slots are fetched.\<close>

locale layout_fetcher = faithful_fetcher +
  assumes base_only: "(\<And>already. derived_slots layout pool already = []) \<Longrightarrow>
    tf_fetch_pool tf pool h layout f = (Inr st, f') \<Longrightarrow> fst ` set (fp_pool_storage st) = set (base_slots layout pool)"

lemma plain_rounds:
  assumes "\<And>al. derived_slots layout pool al = []" "fetch_rounds fe layout pool h 0 tf [] s = (Inr all, s')"
  shows "fst ` set all = set tf"
proof (cases "fresh_slots tf [] = []")
  case True
  with assms set_fresh[of tf "[]"] show ?thesis by (simp add: fetch_rounds.simps[of fe])
next
  case False
  obtain g s1 where g: "fetch_slots fe (pid_address pool) h (fresh_slots tf []) [] s = (g, s1)" by (meson surj_pair)
  with assms False have "g = Inr all" by (cases g) (auto simp: fetch_rounds.simps[of fe])
  with slots_shape[of fe _ h _ "[]" s all s1] g obtain vs where
    vs: "length vs = length (fresh_slots tf [])" "all = zip (fresh_slots tf []) vs" by auto
  then have "map fst all = fresh_slots tf []" by simp
  then have "fst ` set all = set (fresh_slots tf [])" by (metis list.set_map)
  then show ?thesis by (simp add: set_fresh)
qed

lemma plain_fetch:
  assumes "\<And>al. derived_slots layout pool al = []" "fetch_pool fe pool h layout f = (Inr st, f')"
  shows "fst ` set (fp_pool_storage st) = set (base_slots layout pool)"
proof -
  obtain g s1 where g: "get_code_cached fe (pid_address pool) h f = (g, s1)" by (meson surj_pair)
  obtain q s2 where q: "fetch_rounds fe layout pool h 0 (base_slots layout pool) [] s1 = (q, s2)" by (meson surj_pair)
  from assms(2) g q obtain al where "q = Inr al" "fp_pool_storage st = sort_key fst al"
    by (cases g; cases q) (auto simp: fetch_pool_def split: if_splits)
  with plain_rounds[of layout pool fe h _ s1 al s2] assms(1) q show ?thesis by simp
qed

interpretation archive: layout_fetcher "archive_fetcher fe" for fe
  by unfold_locales (auto simp: archive_fetcher_def dest: plain_fetch[rotated])

interpretation demo_tf: layout_fetcher demo_tf
  by unfold_locales (auto simp: demo_tf_def image_image)

context layout_fetcher
begin

lemma v2_dispatch_slots:
  assumes "is_v2 (pid_kind pool)" "layout_dispatch keccak tf pool h f = (Inr st, f')"
  shows "fst ` set (fp_pool_storage st) = {0, 6, 7, 8}"
proof -
  have "tf_fetch_pool tf pool h uniswap_v2_layout f = (Inr st, f')"
    using assms by (simp add: layout_dispatch_def lift_fetch_Inr)
  then have "fst ` set (fp_pool_storage st) = set (base_slots uniswap_v2_layout pool)"
    by (rule base_only[rotated]) (simp add: uniswap_v2_layout_def)
  then show ?thesis
    by (simp add: uniswap_v2_layout_def UNIV2_FACTORY_SLOT_def UNIV2_TOKEN0_SLOT_def UNIV2_TOKEN1_SLOT_def
      UNIV2_RESERVES_SLOT_def)
qed

lemma prefetched_sink_slots:
  assumes "prefetch_fetch keccak tf opp wa ua f = (Inr fx, f')" "is_v2 (pid_kind (sink_pool opp))"
  shows "fst ` set (fp_pool_storage (fx_sink fx)) = {0, 6, 7, 8}"
proof -
  obtain f1 f2 where "layout_dispatch keccak tf (sink_pool opp) (oo_block_hash opp) f1 = (Inr (fx_sink fx), f2)"
    using assms(1) unfolding prefetch_fetch_def Let_def and_then_Inr
    by (auto simp: and_then_Inr lift_fetch_Inr split: option.splits)
  with assms(2) show ?thesis by (rule v2_dispatch_slots)
qed

lemma prefetched_factory:
  assumes "prefetch_fetch keccak tf opp wa ua f = (Inr fx, f')"
  shows "fa_address (fx_v2_factory fx) = V2_FACTORY_ADDRESS"
proof -
  obtain h f1 f2 where "tf_fetch_account tf V2_FACTORY_ADDRESS [0] h f1 = (Inr (fx_v2_factory fx), f2)"
    using assms unfolding prefetch_fetch_def Let_def and_then_Inr
    by (auto simp: and_then_Inr lift_fetch_Inr split: option.splits)
  then show ?thesis using account_asked by blast
qed

end

section \<open>A transaction that demands a slot\<close>

text \<open>A script demands a slot when, as long as its reads are answered, it reads on until it has read the
  slot; a read that fails ends the transaction with the database's error.\<close>

inductive demands :: "address \<Rightarrow> u256 \<Rightarrow> ('e, 'm) script \<Rightarrow> bool" for a :: address and i :: u256 where
  here: "(\<And>e. \<exists>m. k (Inl e) = Finish (Inl (EvmDatabase e)) m) \<Longrightarrow> demands a i (ReadStorage a i k)"
| storage: "(\<And>e. \<exists>m. k (Inl e) = Finish (Inl (EvmDatabase e)) m) \<Longrightarrow> (\<And>v. demands a i (k (Inr v))) \<Longrightarrow>
    demands a i (ReadStorage b j k)"
| basic: "(\<And>e. \<exists>m. k (Inl e) = Finish (Inl (EvmDatabase e)) m) \<Longrightarrow> (\<And>v. demands a i (k (Inr v))) \<Longrightarrow>
    demands a i (ReadBasic b k)"
| code: "(\<And>e. \<exists>m. k (Inl e) = Finish (Inl (EvmDatabase e)) m) \<Longrightarrow> (\<And>v. demands a i (k (Inr v))) \<Longrightarrow>
    demands a i (ReadCode h k)"
| block: "(\<And>e. \<exists>m. k (Inl e) = Finish (Inl (EvmDatabase e)) m) \<Longrightarrow> (\<And>v. demands a i (k (Inr v))) \<Longrightarrow>
    demands a i (ReadBlockHash n k)"

lemma reads_keep_populated:
  "populated_storage (snd (strict_storage cd b j d)) = populated_storage d"
  "populated_storage (snd (strict_basic cd b d)) = populated_storage d"
  "populated_storage (snd (strict_code_by_hash cd keccak h d)) = populated_storage d"
  by (auto simp: strict_storage_def strict_basic_def strict_code_by_hash_def split: prod.split sum.split)

lemma demanded_slot_missing:
  assumes "demands a i sc" "(a, i) \<notin> populated_storage d"
  shows "\<exists>e m d'. run_script (strict_database cd keccak) sc d = (Inl (EvmDatabase e), m, d')"
  using assms
proof (induction arbitrary: d rule: demands.induct)
  case (here k)
  then show ?case by (auto simp: strict_database_def strict_storage_def) (metis run_script.simps(1))
next
  case (storage k b j)
  obtain r d1 where r: "strict_storage cd b j d = (r, d1)" by (meson surj_pair)
  then have "(a, i) \<notin> populated_storage d1" using storage.prems reads_keep_populated(1)[of cd b j d] by simp
  with storage.hyps storage.IH show ?case
    by (cases r) (auto simp: strict_database_def r, metis run_script.simps(1))
next
  case (basic k b)
  obtain r d1 where r: "strict_basic cd b d = (r, d1)" by (meson surj_pair)
  then have "(a, i) \<notin> populated_storage d1" using basic.prems reads_keep_populated(2)[of cd b d] by simp
  with basic.hyps basic.IH show ?case
    by (cases r) (auto simp: strict_database_def r, metis run_script.simps(1))
next
  case (code k h)
  obtain r d1 where r: "strict_code_by_hash cd keccak h d = (r, d1)" by (meson surj_pair)
  then have "(a, i) \<notin> populated_storage d1" using code.prems reads_keep_populated(3)[of cd keccak h d] by simp
  with code.hyps code.IH show ?case
    by (cases r) (auto simp: strict_database_def r, metis run_script.simps(1))
next
  case (block k n)
  then show ?case by (auto simp: strict_database_def strict_block_hash_def) (metis run_script.simps(1))
qed

section \<open>The prefetched V2 sink cannot be swapped through\<close>

lemma loaded_own:
  assumes "\<forall>b \<in> set bs. fst b = a \<longrightarrow> i \<notin> fst ` set (snd b)"
  shows "loaded bs m a i = m a i"
  using assms
proof (induction bs m rule: loaded.induct)
  case (2 b slots bs m)
  then have "map_of (rev slots) i = None" if "b = a" using that by (auto simp: map_of_eq_None_iff)
  then have "(m(b := m b ++ map_of (rev slots))) a i = m a i" by (auto simp: map_add_def)
  moreover have "loaded bs (m(b := m b ++ map_of (rev slots))) a i = (m(b := m b ++ map_of (rev slots))) a i"
    by (rule 2(1)) (use 2(2) in simp)
  ultimately show ?case by (simp only: loaded.simps)
qed simp

lemma demanding_call:
  assumes "demands a i (vm_transact (se_vm se) (ev_mem ev) ((ev_env ev)\<lparr>ee_data := cd, ee_nonce := Some n\<rparr>))"
    and "(a, i) \<notin> populated_storage (ev_db ev)"
    and "exec_router_call (se_vm se) (strict_database cdb keccak) (debug_missing sh) cd n ev = (Inr (status, gas), ev')"
  shows "\<exists>detail. status = Reverted (''missing fixture state: '' @ detail)"
proof -
  obtain e m d where "run_script (strict_database cdb keccak)
      (vm_transact (se_vm se) (ev_mem ev) ((ev_env ev)\<lparr>ee_data := cd, ee_nonce := Some n\<rparr>)) (ev_db ev)
      = (Inl (EvmDatabase e), m, d)" using demanded_slot_missing[OF assms(1,2)] by blast
  with assms(3) show ?thesis by (auto simp: exec_router_call_def transact_commit_def Let_def split: if_splits)
qed

lemma select_fixture_same: "select_fixture (Some fx) opp = Inr fy \<Longrightarrow> fy = fx"
  by (simp add: select_fixture_def split: if_splits)

text \<open>The sink's call, for a V2 pool.\<close>

lemma sell_v2_call:
  assumes "is_v2 (pid_kind (fp_pool pool))" "build_router_calldata_sell_weth pool n w = Some (Inr cd)"
  shows "take 4 cd = SELECTOR_EXEC_V2_SWAP \<and> call_word 0 cd = ucast (pid_address (fp_pool pool))"
  using assms by (auto simp: build_router_calldata_sell_weth_def build_exec_v2_swap_calldata_def split: option.splits)

lemma lock_slot_missing:
  assumes "cache_db (se_cache_db se) slot" "layout_fetcher tf"
    and "prefetch_fetch (se_keccak se) tf opp wa ua f = (Inr fx, f')" "is_v2 (pid_kind (sink_pool opp))"
    and "pid_address (sink_pool opp) \<notin>
      {pid_address (source_pool opp), wa, ua, fa_address (fx_usdc_impl fx), V2_FACTORY_ADDRESS}"
    and "sim_prepare se cfg fx opp = Inr ps"
  shows "(pid_address (sink_pool opp), 12) \<notin> populated_storage (ps_db ps)"
proof -
  have asked: "fp_pool (fx_source fx) = source_pool opp" "fp_pool (fx_sink fx) = sink_pool opp"
      "fa_address (fx_weth fx) = wa" "fa_address (fx_usdc_proxy fx) = ua"
    using faithful_fetcher.prefetch_fetch_asked[OF _ assms(3)] assms(2) by (auto simp: layout_fetcher_def)
  note fac = layout_fetcher.prefetched_factory[OF assms(2,3)]
  note slots = layout_fetcher.prefetched_sink_slots[OF assms(2,3,4)]
  let ?bs = "fixture_blocks (fx_source fx) (fx_sink fx) (sim_accounts (se_keccak se) (optimal_amount_in_wei opp) fx)"
  obtain ps0 where b: "build_prepared (se_cache_db se) (se_keccak se) (fx_source fx) (fx_sink fx)
        (sim_accounts (se_keccak se) (optimal_amount_in_wei opp) fx)
        \<lparr>mock_router_address = MOCK_ROUTER_ADDRESS, mock_router_bytecode = MOCK_ROUTER_RUNTIME,
         mock_router_eth_balance_wei = eoa_initial_balance_wei cfg,
         mock_router_weth_balance_wei = optimal_amount_in_wei opp\<rparr>
        (fa_address (fx_weth fx)) (router_slot (se_keccak se) WETH9_BALANCES_SLOT) = Inr ps0"
    and pop: "populated_storage (ps_db ps) = populated_storage (ps_db ps0)"
    using assms(6) by (auto simp: sim_prepare_def Let_def bind_res_Inr_iff strict_insert_account_def)
  have "loaded ?bs (\<lambda>_ _. None) (pid_address (sink_pool opp)) 12 = None"
    using assms(5) asked fac slots
    by (subst loaded_own) (auto simp: fixture_blocks_def sim_accounts_def split: if_splits)
  then have "cache_db.holds slot (ps_db ps0) (pid_address (sink_pool opp)) 12 = None"
    using cache_db.build_prepared_exact(2)[OF assms(1) b] by simp
  then show ?thesis using cache_db.holds_def[OF assms(1)] pop by (simp split: if_splits)
qed

text \<open>The first hop sells into the sink; when that call reads a slot nobody provided, it reverts and the
  second hop is not tried.\<close>

lemma missing_lock_reverts:
  assumes v2: "is_v2 (pid_kind (fp_pool (fx_sink fx)))"
    and missing: "(pid_address (fp_pool (fx_sink fx)), 12) \<notin> populated_storage db"
    and demands: "\<And>m env. take 4 (ee_data env) = SELECTOR_EXEC_V2_SWAP \<Longrightarrow>
      call_word 0 (ee_data env) = ucast (pid_address (fp_pool (fx_sink fx))) \<Longrightarrow>
      demands (pid_address (fp_pool (fx_sink fx))) 12 (vm_transact (se_vm se) m env)"
    and hops: "fst (sim_hops se (strict_database (se_cache_db se) (se_keccak se)) cfg fx opp pre db) = Some (Inr out)"
  shows "so_simulated_profit_wei out = 0 \<and> (\<exists>detail. so_status out = Reverted (''missing fixture state: '' @ detail))"
proof (cases "build_router_calldata_sell_weth (fx_sink fx) (optimal_amount_in_wei opp) (fa_address (fx_weth fx))")
  case (Some r)
  with hops obtain cd where cd: "r = Inr cd" by (cases r) (auto simp: sim_hops_def)
  define ts where "ts = (case v2_block_timestamp_last (fx_source fx) of
      Some t \<Rightarrow> Some t | None \<Rightarrow> v2_block_timestamp_last (fx_sink fx))"
  let ?ev = "build_evm (se_vm se) db cfg (oo_block_number opp) ts"
  have call: "take 4 cd = SELECTOR_EXEC_V2_SWAP" "call_word 0 cd = ucast (pid_address (fp_pool (fx_sink fx)))"
    using sell_v2_call[of "fx_sink fx"] v2 Some cd by simp_all
  have dem: "demands (pid_address (fp_pool (fx_sink fx))) 12
      (vm_transact (se_vm se) (ev_mem ?ev) ((ev_env ?ev)\<lparr>ee_data := cd, ee_nonce := Some 0\<rparr>))"
    by (rule demands) (simp_all add: call)
  obtain q ev' where q: "exec_router_call (se_vm se) (strict_database (se_cache_db se) (se_keccak se))
      (debug_missing (se_show se)) cd 0 ?ev = (q, ev')" by (meson surj_pair)
  have h: "fst (case q of Inl e \<Rightarrow> (Some (Inl e), ev_db ev')
      | Inr (status, gas) \<Rightarrow> if status \<noteq> Success then (Some (Inr (sim_outcome opp gas status 0)), ev_db ev')
          else undefined) = Some (Inr out)" if "\<forall>status gas. q = Inr (status, gas) \<longrightarrow> status \<noteq> Success"
    using hops that
    unfolding sim_hops_def Some cd option.case sum.case Let_def ts_def[symmetric] q prod.case
    by (cases q) (auto split: prod.splits)
  have rev: "\<exists>detail. status = Reverted (''missing fixture state: '' @ detail)" if "q = Inr (status, gas)" for status gas
    using demanding_call[OF dem _ q[unfolded that]] missing by (simp add: build_evm_def)
  then have "\<forall>status gas. q = Inr (status, gas) \<longrightarrow> status \<noteq> Success" by blast
  from h[OF this] rev show ?thesis by (cases q) (auto simp: sim_outcome_def split: if_splits)
qed (use hops in \<open>simp add: sim_hops_def\<close>)

text \<open>C39: When the sink is a V2 pool fetched with the fetcher's layout and the pair's \<open>swap\<close> reads its lock
  (slot 12), the simulation can only end as a revert for missing state, with no profit; it never
  succeeds, whatever the opportunity is worth.\<close>

theorem prefetched_v2_sink_reverts:
  assumes "cache_db (se_cache_db se) slot" "layout_fetcher tf"
    and "prefetch_fetch (se_keccak se) tf (rc_opportunity rc) wa ua f = (Inr fx, f')"
    and "is_v2 (pid_kind (sink_pool (rc_opportunity rc)))"
    and "pid_address (sink_pool (rc_opportunity rc)) \<notin>
      {pid_address (source_pool (rc_opportunity rc)), wa, ua, fa_address (fx_usdc_impl fx), V2_FACTORY_ADDRESS}"
    and "\<And>m env. take 4 (ee_data env) = SELECTOR_EXEC_V2_SWAP \<Longrightarrow>
      call_word 0 (ee_data env) = ucast (pid_address (sink_pool (rc_opportunity rc))) \<Longrightarrow>
      demands (pid_address (sink_pool (rc_opportunity rc))) 12 (vm_transact (se_vm se) m env)"
    and "simulate se cfg (Some fx) rc = Some (Inr out)"
  shows "so_simulated_profit_wei out = 0 \<and> (\<exists>detail. so_status out = Reverted (''missing fixture state: '' @ detail))"
proof -
  let ?opp = "rc_opportunity rc"
  have sink: "fp_pool (fx_sink fx) = sink_pool ?opp"
    using faithful_fetcher.prefetch_fetch_asked[OF _ assms(3)] assms(2) by (auto simp: layout_fetcher_def)
  obtain ps where ps: "sim_prepare se cfg fx ?opp = Inr ps"
    and hops: "fst (sim_hops se (strict_database (se_cache_db se) (se_keccak se)) cfg fx ?opp
      (pre_router_weth_wei ps) (ps_db ps)) = Some (Inr out)"
    using assms(7) by (auto simp: simulate_def Let_def split: sum.splits dest!: select_fixture_same)
  show ?thesis
    by (rule missing_lock_reverts[OF _ _ _ hops])
      (use assms(4,6) lock_slot_missing[OF assms(1-5) ps] in \<open>simp_all add: sink\<close>)
qed

text \<open>A pair whose swap reads the lock, and a fixture of the demonstration fetcher.\<close>

definition demo_lock_machine :: "(strict_missing_error, unit) machine" where
  "demo_lock_machine = \<lparr>vm_new = (),
     vm_transact = (\<lambda>m env. ReadStorage 7 12 (\<lambda>r. case r of
        Inl e \<Rightarrow> Finish (Inl (EvmDatabase e)) m
      | Inr v \<Rightarrow> Finish (Inr (ExecRevert 1 [], [])) m))\<rparr>"

definition demo_lock_env :: "(flat_db, unit) sim_env" where
  "demo_lock_env = demo_sim_env\<lparr>se_keccak := take 32, se_vm := demo_lock_machine\<rparr>"

definition demo_prefetched :: fixture_set where
  "demo_prefetched = \<lparr>fx_block_hash = 1,
     fx_source = \<lparr>fp_pool = source_pool demo_opp, fp_hash = 1, fp_pool_code = [],
        fp_pool_storage = map (\<lambda>i. (i, 1)) (base_slots (uniswap_v3_layout (take 32)) (source_pool demo_opp)),
        fp_auxiliary = []\<rparr>,
     fx_sink = \<lparr>fp_pool = sink_pool demo_opp, fp_hash = 1, fp_pool_code = [],
        fp_pool_storage = [(0, 1), (6, 1), (7, 1), (8, 1)], fp_auxiliary = []\<rparr>,
     fx_weth = \<lparr>fa_address = 9, fa_block_hash = 1, fa_code = [],
        fa_storage = [(address_key MOCK_ROUTER_ADDRESS, 1), (address_key 6, 1), (address_key 7, 1)]\<rparr>,
     fx_usdc_proxy = \<lparr>fa_address = 8, fa_block_hash = 1, fa_code = [],
        fa_storage = map (\<lambda>i. (i, 1)) (build_usdc_proxy_slots (take 32) 6 7)\<rparr>,
     fx_usdc_impl = \<lparr>fa_address = 1, fa_block_hash = 1, fa_code = [], fa_storage = []\<rparr>,
     fx_v2_factory = \<lparr>fa_address = V2_FACTORY_ADDRESS, fa_block_hash = 1, fa_code = [], fa_storage = [(0, 1)]\<rparr>\<rparr>"

lemma demo_impl_one: "address_from_be (drop 12 (u256_to_be 1)) = 1"
  by code_simp

lemma address_key_inj: "address_key a = address_key b \<longleftrightarrow> a = b"
proof -
  have "address_key c = ucast c" for c using padded_address[of c] by (simp add: address_key_def write_address_padded_def)
  then have "(ucast (address_key c) :: address) = c" for c by (simp add: unsigned_ucast_eq take_bit_word_eq_self)
  then show ?thesis by metis
qed

lemma replicate_twenty: "replicate 20 x = [x, x, x, x, x, x, x, x, x, x, x, x, x, x, x, x, x, x, x, x]"
  by (simp add: eval_nat_numeral)

lemma demo_keys: "address_key MOCK_ROUTER_ADDRESS \<noteq> address_key 6" "address_key MOCK_ROUTER_ADDRESS \<noteq> address_key 7"
proof -
  have router: "MOCK_ROUTER_ADDRESS = 0x3333333333333333333333333333333333333333"
    unfolding MOCK_ROUTER_ADDRESS_def replicate_twenty by (simp add: address_from_be_def be_to_nat_def)
  show "address_key MOCK_ROUTER_ADDRESS \<noteq> address_key 6" "address_key MOCK_ROUTER_ADDRESS \<noteq> address_key 7"
    unfolding address_key_inj router by simp_all
qed

lemma demo_factory: "V2_FACTORY_ADDRESS \<notin> {1, 6, 7, 8, 9}"
  by (simp add: V2_FACTORY_ADDRESS_def address_from_be_def be_to_nat_def)

lemma demo_prefetch: "prefetch_fetch (take 32) demo_tf demo_opp 9 8 f = (Inr demo_prefetched, f)"
proof -
  have v3: "layout_dispatch (take 32) demo_tf (source_pool demo_opp) h f = (Inr \<lparr>fp_pool = source_pool demo_opp, fp_hash = h, fp_pool_code = [],
        fp_pool_storage = map (\<lambda>i. (i, 1)) (base_slots (uniswap_v3_layout (take 32)) (source_pool demo_opp)),
        fp_auxiliary = []\<rparr>, f)" for h f
    by (simp add: layout_dispatch_def lift_fetch_def demo_tf_def demo_opp_def)
  have v2: "layout_dispatch (take 32) demo_tf (sink_pool demo_opp) h f = (Inr \<lparr>fp_pool = sink_pool demo_opp, fp_hash = h, fp_pool_code = [],
        fp_pool_storage = [(0, 1), (6, 1), (7, 1), (8, 1)], fp_auxiliary = []\<rparr>, f)" for h f
    by (simp add: layout_dispatch_def lift_fetch_def demo_tf_def demo_opp_def uniswap_v2_layout_def
      UNIV2_FACTORY_SLOT_def UNIV2_TOKEN0_SLOT_def UNIV2_TOKEN1_SLOT_def UNIV2_RESERVES_SLOT_def)
  have o: "oo_block_hash demo_opp = 1" "pid_address (source_pool demo_opp) = 6" "pid_address (sink_pool demo_opp) = 7"
    by (simp_all add: demo_opp_def)
  show ?thesis
    by (simp add: prefetch_fetch_def Let_def and_then_def v3 v2 o demo_impl demo_impl_one mapping_slot_take
      demo_prefetched_def)
qed

lemma demo_lock_prepared: "\<exists>ps. sim_prepare demo_lock_env sim_defaults demo_prefetched demo_opp = Inr ps"
proof -
  let ?extra = "sim_accounts (take 32) 100 demo_prefetched"
  let ?aux = "\<lparr>mock_router_address = MOCK_ROUTER_ADDRESS, mock_router_bytecode = MOCK_ROUTER_RUNTIME,
      mock_router_eth_balance_wei = eoa_initial_balance_wei sim_defaults, mock_router_weth_balance_wei = 100\<rparr>"
  have r: "router_slot (take 32) WETH9_BALANCES_SLOT = address_key MOCK_ROUTER_ADDRESS"
    by (simp add: router_slot_def mapping_slot_take)
  have l: "loaded (fixture_blocks (fx_source demo_prefetched) (fx_sink demo_prefetched) ?extra) (\<lambda>_ _. None) 9
      (router_slot (take 32) WETH9_BALANCES_SLOT) = Some 100"
    using demo_factory demo_keys
    by (simp add: r fixture_blocks_def sim_accounts_def demo_prefetched_def demo_opp_def)
  have "is_ok (build_prepared flat_db_ops (take 32) (fx_source demo_prefetched) (fx_sink demo_prefetched) ?extra ?aux 9
      (router_slot (take 32) WETH9_BALANCES_SLOT))"
    unfolding flat.build_prepared_exact(1) l by (simp add: sim_accounts_def demo_prefetched_def)
  then obtain ps where "build_prepared flat_db_ops (take 32) (fx_source demo_prefetched) (fx_sink demo_prefetched)
      ?extra ?aux 9 (router_slot (take 32) WETH9_BALANCES_SLOT) = Inr ps"
    unfolding is_ok_iff by blast
  moreover have "fa_address (fx_weth demo_prefetched) = 9" "optimal_amount_in_wei demo_opp = 100"
    by (simp_all add: demo_prefetched_def demo_opp_def)
  ultimately show ?thesis by (simp add: sim_prepare_def Let_def demo_lock_env_def demo_sim_env_def)
qed

lemma demo_lock_sell: "\<exists>cd. build_router_calldata_sell_weth (fx_sink demo_prefetched) 100 9 = Some (Inr cd)"
proof -
  have "decode_v2_reserves (fx_sink demo_prefetched) = Some (1, 0)"
  proof -
    have "is_v2 (pid_kind (fp_pool (fx_sink demo_prefetched))) \<and> unat (1::u256) < 2 ^ 112 \<and> unat (0::u256) < 2 ^ 112 \<and>
      (\<exists>v. slot_value V2_RESERVES_SLOT (fp_pool_storage (fx_sink demo_prefetched)) = Some v \<and>
        unat v = unat (0::u32) * 2 ^ 224 + unat (0::u256) * 2 ^ 112 + unat (1::u256))"
      by (simp add: demo_prefetched_def demo_opp_def slot_value_def V2_RESERVES_SLOT_def)
    then show ?thesis using v2_reserves_exact by blast
  qed
  moreover obtain u where "uniswap_v2_get_amount_out 100 0 1 = Some u"
    by (rule amount_out_Some[of 100 0 1]) (simp add: amount_out_panics_def)
  moreover have "is_v2 (pid_kind (fp_pool (fx_sink demo_prefetched)))" by (simp add: demo_prefetched_def demo_opp_def)
  ultimately show ?thesis by (simp add: build_router_calldata_sell_weth_def)
qed

lemma demo_lock_call:
  "\<exists>status gas ev'. status \<noteq> Success \<and>
     exec_router_call demo_lock_machine (strict_database flat_db_ops kc) (debug_missing sh) cd n ev = (Inr (status, gas), ev')"
proof -
  have "str_contains ''MissingStorage'' (debug_evm (debug_missing sh) (EvmDatabase (MissingStorage 7 12)))"
    by (rule debug_missing_storage)
  then show ?thesis
    by (simp add: exec_router_call_def transact_commit_def demo_lock_machine_def strict_database_def strict_storage_def
      flat_db_ops_def Let_def split: prod.split sum.split)
qed

lemma demo_lock_simulated:
  "\<exists>out. simulate demo_lock_env sim_defaults (Some demo_prefetched) \<lparr>rc_opportunity = demo_opp, rc_size_wei = 1\<rparr>
     = Some (Inr out)"
proof -
  obtain ps where ps: "sim_prepare demo_lock_env sim_defaults demo_prefetched demo_opp = Inr ps"
    using demo_lock_prepared by blast
  obtain cd where cd: "build_router_calldata_sell_weth (fx_sink demo_prefetched) 100 9 = Some (Inr cd)"
    using demo_lock_sell by blast
  have e: "se_cache_db demo_lock_env = flat_db_ops" "se_vm demo_lock_env = demo_lock_machine"
      "select_fixture (Some demo_prefetched) demo_opp = Inr demo_prefetched"
      "optimal_amount_in_wei demo_opp = 100" "fa_address (fx_weth demo_prefetched) = 9"
    by (simp_all add: demo_lock_env_def demo_sim_env_def select_fixture_def demo_prefetched_def demo_opp_def)
  define ts where "ts = (case v2_block_timestamp_last (fx_source demo_prefetched) of
        Some t \<Rightarrow> Some t | None \<Rightarrow> v2_block_timestamp_last (fx_sink demo_prefetched))"
  obtain status gas ev' where "status \<noteq> Success"
    "exec_router_call demo_lock_machine (strict_database flat_db_ops (se_keccak demo_lock_env))
      (debug_missing (se_show demo_lock_env)) cd 0
      (build_evm demo_lock_machine (ps_db ps) sim_defaults (oo_block_number demo_opp) ts) = (Inr (status, gas), ev')"
    using demo_lock_call by blast
  then show ?thesis
    by (simp add: simulate_def Let_def e ps sim_hops_def cd ts_def[symmetric])
qed

theorem prefetched_v2_sink_reverts_witness:
  "\<exists>out detail. simulate demo_lock_env sim_defaults (Some demo_prefetched) \<lparr>rc_opportunity = demo_opp, rc_size_wei = 1\<rparr>
      = Some (Inr out) \<and> so_simulated_profit_wei out = 0 \<and>
     so_status out = Reverted (''missing fixture state: '' @ detail)"
proof -
  let ?rc = "\<lparr>rc_opportunity = demo_opp, rc_size_wei = 1\<rparr>"
  obtain out where out: "simulate demo_lock_env sim_defaults (Some demo_prefetched) ?rc = Some (Inr out)"
    using demo_lock_simulated by blast
  have db: "cache_db (se_cache_db demo_lock_env) snd"
    using flat.cache_db_axioms by (simp add: demo_lock_env_def demo_sim_env_def)
  have pre: "prefetch_fetch (se_keccak demo_lock_env) demo_tf (rc_opportunity ?rc) 9 8 () = (Inr demo_prefetched, ())"
    by (simp add: demo_lock_env_def demo_prefetch)
  have v2: "is_v2 (pid_kind (sink_pool (rc_opportunity ?rc)))" by (simp add: demo_opp_def)
  have a: "pid_address (sink_pool (rc_opportunity ?rc)) \<notin>
      {pid_address (source_pool (rc_opportunity ?rc)), 9, 8, fa_address (fx_usdc_impl demo_prefetched), V2_FACTORY_ADDRESS}"
    using demo_factory by (simp add: demo_opp_def demo_prefetched_def)
  have d: "demands (pid_address (sink_pool (rc_opportunity ?rc))) 12 (vm_transact (se_vm demo_lock_env) m env)" for m env
    by (auto simp: demo_opp_def demo_lock_env_def demo_lock_machine_def intro!: demands.here)
  from prefetched_v2_sink_reverts[OF db demo_tf.layout_fetcher_axioms pre v2 a d out] out show ?thesis by blast
qed

end
