(* ===== verification/App_Simulation.thy ===== *)
theory App_Simulation
  imports App_Pipeline Sim_Properties
begin

text \<open>
  The simulator stage of \<open>crates/app/src/lib.rs\<close> with the real simulator in it: the local simulator of
  \<open>crates/simulator/src/lib.rs\<close>, without fixtures at the start, and with the archive fetcher when
  prefetching is configured.
\<close>

section \<open>The simulator behind the driver\<close>

text \<open>The state shared with the driver: the simulator's, the fetcher's, and whether a panic has ended the
  task; an ended task answers nothing.\<close>

record ('c, 'f) wired_sim =
  ws_dead :: bool
  ws_state :: "'c simulator_state"
  ws_fetcher :: 'f

definition wired_prefetch ::
  "(fixture_key, fixture_set, 'c) lru_ops \<Rightarrow> (bytes \<Rightarrow> bytes) \<Rightarrow> 'f state_fetcher \<Rightarrow> opportunity_event
   \<Rightarrow> address \<Rightarrow> address \<Rightarrow> ('c, 'f) wired_sim \<Rightarrow> bool \<times> ('c, 'f) wired_sim" where
  "wired_prefetch lru keccak tf opp weth_address usdc_proxy_address m =
     (case prefetch_for lru keccak tf (\<lambda>s. s) opp weth_address usdc_proxy_address (ws_state m) (ws_fetcher m) of
        (r, s, f) \<Rightarrow> (\<not> ws_dead m \<and> is_ok r, m\<lparr>ws_state := s, ws_fetcher := f\<rparr>))"

definition wired_simulate ::
  "('d, 'v) sim_env \<Rightarrow> sim_config \<Rightarrow> risk_checked_opportunity \<Rightarrow> ('c, 'f) wired_sim
   \<Rightarrow> (simulation_outcome \<times> local_state_fingerprint) option \<times> ('c, 'f) wired_sim" where
  "wired_simulate se cfg rc m =
     (if ws_dead m then (None, m)
      else case simulate_with_fingerprint se cfg (ls_active (ws_state m)) rc of
        None \<Rightarrow> (None, m\<lparr>ws_dead := True\<rparr>)
      | Some (Inl e) \<Rightarrow> (None, m)
      | Some (Inr r) \<Rightarrow> (Some r, m))"

definition wired_simulator ::
  "(fixture_key, fixture_set, 'c) lru_ops \<Rightarrow> ('d, 'v) sim_env \<Rightarrow> sim_config \<Rightarrow> 'f state_fetcher option
   \<Rightarrow> ('c, 'f) wired_sim local_simulator" where
  "wired_simulator lru se cfg fetcher =
     \<lparr>ls_prefetch = map_option (wired_prefetch lru (se_keccak se)) fetcher, ls_simulate = wired_simulate se cfg\<rparr>"

section \<open>Stages that hold an invariant\<close>

lemma run_driver_invariant:
  assumes "I s" "\<And>e s. Received e \<in> set rs \<Longrightarrow> I s \<Longrightarrow> I (step e s)"
  shows "I (run_driver step rs s)"
  using assms by (induction step rs s rule: run_driver.induct) auto

text \<open>The risk stage hands on the opportunities it received.\<close>

lemma risk_stage_opportunities:
  assumes "\<forall>env. Received env \<in> set rs \<longrightarrow> P (env_payload env)"
    and "env \<in> set (sg_out (run_driver (risk_step g clk) rs stage_init))"
  shows "P (rc_opportunity (env_payload env))"
proof -
  let ?I = "\<lambda>s :: risk_checked_opportunity stage. \<forall>env \<in> set (sg_out s). P (rc_opportunity (env_payload env))"
  have "?I (run_driver (risk_step g clk) rs stage_init)"
  proof (rule run_driver_invariant[where I = ?I])
    fix e s assume e: "Received e \<in> set rs" and I: "?I s"
    show "?I (risk_step g clk e s)"
    proof (cases "evaluate g (env_payload e)")
      case (Inr rc)
      then have "P (rc_opportunity rc)" using assms(1) e by (simp add: evaluate_Inr)
      then show ?thesis
        by (cases rule: emit_cases[of clk RiskEngine rc s]) (use I Inr in \<open>auto simp: risk_step_def\<close>)
    qed (use I in \<open>simp add: risk_step_def\<close>)
  qed (simp add: stage_init_def)
  with assms(2) show ?thesis by blast
qed

section \<open>The pipeline as wired never simulates\<close>

definition idle_sim :: "('c \<Rightarrow> fixture_key \<Rightarrow> fixture_set option) \<Rightarrow> ('c, 'f) wired_sim simulator_driver \<Rightarrow> bool" where
  "idle_sim ent s \<longleftrightarrow> sg_out (md_stage s) = [] \<and> ls_active (ws_state (md_sim s)) = None \<and>
     (\<forall>k f. ent (ls_cache (ws_state (md_sim s))) k = Some f \<longrightarrow> fst k \<noteq> 0)"

lemma idle_without_prefetch:
  assumes "idle_sim ent s"
  shows "idle_sim ent (simulator_step (wired_simulator lru se cfg None) wa ua bd clk env s)"
  using assms
  by (simp add: simulator_step_def wired_simulator_def simulator_simulate_def wired_simulate_def idle_sim_def
    simulate_with_fingerprint_def select_fixture_def Let_def del: split_paired_All)

lemma idle_with_prefetch:
  assumes "fixture_cache lru ent" "oo_block_hash (rc_opportunity (env_payload env)) = 0" "idle_sim ent s"
  shows "idle_sim ent (simulator_step (wired_simulator lru se cfg (Some (archive_fetcher fe))) wa ua bd clk env s)"
proof -
  let ?m = "md_sim s"
  obtain r s' f' where p: "prefetch_for lru (se_keccak se) (archive_fetcher fe) (\<lambda>s. s)
      (rc_opportunity (env_payload env)) wa ua (ws_state ?m) (ws_fetcher ?m) = (r, s', f')" by (metis prod_cases3)
  have "\<forall>k f. ent (ls_cache (ws_state ?m)) k = Some f \<longrightarrow> fst k \<noteq> 0" using assms(3) by (simp add: idle_sim_def)
  from prefetch_refuses_zero_hash[OF assms(1,2) this p]
  have "r = Inl (SimFetch InvalidBlockHash)" "ls_active s' = ls_active (ws_state ?m)"
    "\<forall>k f. ent (ls_cache s') k = Some f \<longrightarrow> fst k \<noteq> 0" by simp_all
  with assms(3) show ?thesis
    by (simp add: simulator_step_def wired_simulator_def wired_prefetch_def p idle_sim_def del: split_paired_All)
qed

text \<open>The wired pipeline never simulates anything.  The simulator starts without fixtures and nothing but
  the prefetch loads any; the opportunities carry a zero block hash, which the fetcher refuses.  So,
  whatever the node answers and whatever the state, opportunity and risk stages publish, the
  simulator stage publishes nothing, with prefetching configured or not.\<close>

theorem wired_simulator_never_emits:
  assumes "fixture_cache lru ent" "with_cache lru sim_defaults capacity window = Inr (cfg, sim)"
    and "fetcher = None \<or> fetcher = Some (archive_fetcher fe)" "sd_stage s = stage_init"
    and "\<forall>u. Received u \<in> set updates \<longrightarrow>
      u \<in> set (sg_out (sd_stage (run_driver (state_engine_step kv vc en clk1) blocks s)))"
    and "\<forall>u. Received u \<in> set opps \<longrightarrow>
      u \<in> set (sg_out (od_stage (run_driver (opportunity_step clk2) updates od_init)))"
    and "\<forall>u. Received u \<in> set checked \<longrightarrow> u \<in> set (sg_out (run_driver (risk_step g clk3) opps stage_init))"
  shows "sg_out (md_stage (run_driver (simulator_step (wired_simulator lru se cfg fetcher) wa ua bd clk4) checked
    \<lparr>md_stage = stage_init, md_sim = \<lparr>ws_dead = False, ws_state = sim, ws_fetcher = f0\<rparr>\<rparr>)) = []"
proof -
  let ?s0 = "\<lparr>md_stage = stage_init, md_sim = \<lparr>ws_dead = False, ws_state = sim, ws_fetcher = f0\<rparr>\<rparr>"
  have zero: "oo_block_hash (rc_opportunity (env_payload env)) = 0" if "Received env \<in> set checked" for env
    using risk_stage_opportunities[of opps "\<lambda>x. oo_block_hash x = 0" env g clk3]
      opportunity_without_block[OF assms(4,5)] assms(6,7) that by blast
  have bc: "bounded_cache (lru_base lru) ent"
    using assms(1) by (simp add: fixture_cache_def clearable_cache_def)
  have "sim = \<lparr>ls_active = None, ls_cache = ca_new (lru_base lru) capacity, ls_freshness_window_blocks = window,
      ls_last_block_seen = None\<rparr>" using assms(2) by (auto simp: with_cache_def bind_res_Inr_iff)
  then have idle: "idle_sim ent ?s0"
    by (simp add: idle_sim_def stage_init_def bounded_cache.new_empty[OF bc] del: split_paired_All)
  have step: "idle_sim ent (simulator_step (wired_simulator lru se cfg fetcher) wa ua bd clk4 e m)"
    if "Received e \<in> set checked" "idle_sim ent m" for e m
    using assms(3) idle_without_prefetch[OF that(2)] idle_with_prefetch[OF assms(1) zero[OF that(1)] that(2)] by auto
  have "idle_sim ent (run_driver (simulator_step (wired_simulator lru se cfg fetcher) wa ua bd clk4) checked ?s0)"
    by (rule run_driver_invariant[where I = "idle_sim ent", OF idle step])
  then show ?thesis by (simp add: idle_sim_def)
qed

text \<open>The pipeline on two pools whose prices differ: the opportunity is found, approved and dropped.\<close>

definition demo_fetcher_env :: "(unit, nat \<times> (code_key \<times> bytes) list, nat \<times> (storage_key \<times> b256) list) fetcher_env" where
  "demo_fetcher_env = \<lparr>fe_backend = \<lparr>ab_get_storage_at = (\<lambda>a i h w. (Inr 1, w)), ab_get_code = (\<lambda>a h w. (Inr [], w))\<rparr>,
     fe_code = list_cache, fe_storage = list_cache\<rparr>"

lemma two_pools_approved:
  obtains blocks updates opps c where "env_payload blocks = Block demo_block"
    "\<forall>u. Received u \<in> set (map Received updates) \<longrightarrow>
      u \<in> set (sg_out (sd_stage (run_driver (state_engine_step map_kv reserve_codec two_pools demo_clock) [Received blocks] demo_state)))"
    "\<forall>u. Received u \<in> set (map Received opps) \<longrightarrow>
      u \<in> set (sg_out (od_stage (run_driver (opportunity_step demo_clock) (map Received updates) od_init)))"
    "c \<in> set (sg_out (run_driver (risk_step (risk_gate_new risk_defaults) demo_clock) (map Received opps) stage_init))"
proof -
  obtain blocks u v where uv: "env_payload blocks = Block demo_block"
    "sg_out (sd_stage (run_driver (state_engine_step map_kv reserve_codec two_pools demo_clock) [Received blocks] demo_state)) = [u, v]"
    "env_payload u = event_for 7 9 (demo_v2 1) (UniV2 1000 500 0)"
    "env_payload v = event_for 7 9 (demo_v2 2) (UniV2 1000 510 0)" by (rule two_pools_updates)
  obtain ev where ev: "check_envelopes (u, v) = Some ev" "gas_estimate ev = GAS_ESTIMATE_TWO_HOP_ARB"
    "optimal_amount_in_wei ev = OPTIMAL_AMOUNT_IN_WEI"
    by (auto simp: check_envelopes_def uv(3,4) event_for_def demo_v2_def check_pair_Some_iff event_of_def
        price_nat_def spread_pays_def)
  have same: "\<forall>e \<in> set [u, v]. su_block_number (env_payload e) = 7" by (simp add: uv(3,4) event_for_def)
  have "map env_payload (sg_out (od_stage (run_driver (opportunity_step demo_clock) (map Received [u, v]) od_init))) = [ev]"
    using opportunity_driver_one_block[OF same, of demo_clock]
    by (simp add: emit_all_payloads_exact[OF demo_clock_runs] found_in_def map_filter_simps ev)
  then obtain env where env: "env \<in> set (sg_out (od_stage (run_driver (opportunity_step demo_clock) (map Received [u, v]) od_init)))"
      "env_payload env = ev" by (auto simp: map_eq_Cons_conv)
  have "\<exists>rc. evaluate (risk_gate_new risk_defaults) ev = Inr rc"
    by (simp add: risk_demo_simps ev(2,3) GAS_ESTIMATE_TWO_HOP_ARB_def OPTIMAL_AMOUNT_IN_WEI_def)
  then obtain rc where "evaluate (risk_gate_new risk_defaults) ev = Inr rc" by blast
  then have "map env_payload (sg_out (run_driver (risk_step (risk_gate_new risk_defaults) demo_clock) (map Received [env]) stage_init)) = [rc]"
    by (simp add: risk_step_def env(2) emit_as_all emit_all_payloads_exact[OF demo_clock_runs])
  then obtain c where "c \<in> set (sg_out (run_driver (risk_step (risk_gate_new risk_defaults) demo_clock) (map Received [env]) stage_init))"
    by (auto simp: map_eq_Cons_conv)
  then show thesis by (intro that[of blocks "[u, v]" "[env]" c]) (use uv env in auto)
qed

theorem wired_simulator_never_emits_witness:
  "\<exists>opps (c :: risk_checked_opportunity envelope).
     c \<in> set (sg_out (run_driver (risk_step (risk_gate_new risk_defaults) demo_clock) (map Received opps) stage_init)) \<and>
     (\<forall>bd f0. sg_out (md_stage (run_driver (simulator_step (wired_simulator list_lru_ops demo_sim_env sim_defaults
         (Some (archive_fetcher demo_fetcher_env))) 9 8 bd demo_clock) [Received c]
       \<lparr>md_stage = stage_init, md_sim = \<lparr>ws_dead = False, ws_state = demo_sim_state, ws_fetcher = f0\<rparr>\<rparr>)) = [])"
proof -
  obtain blocks updates opps c where p: "env_payload blocks = Block demo_block"
    "\<forall>u. Received u \<in> set (map Received updates) \<longrightarrow>
      u \<in> set (sg_out (sd_stage (run_driver (state_engine_step map_kv reserve_codec two_pools demo_clock) [Received blocks] demo_state)))"
    "\<forall>u. Received u \<in> set (map Received opps) \<longrightarrow>
      u \<in> set (sg_out (od_stage (run_driver (opportunity_step demo_clock) (map Received updates) od_init)))"
    "c \<in> set (sg_out (run_driver (risk_step (risk_gate_new risk_defaults) demo_clock) (map Received opps) stage_init))"
    by (rule two_pools_approved)
  have st: "sd_stage demo_state = stage_init" by (simp add: demo_state_def)
  have "\<forall>u. Received u \<in> set [Received c] \<longrightarrow>
      u \<in> set (sg_out (run_driver (risk_step (risk_gate_new risk_defaults) demo_clock) (map Received opps) stage_init))"
    using p(4) by simp
  from wired_simulator_never_emits[OF fixture_lru.fixture_cache_axioms demo_sim_state_new disjI2[OF refl] st p(2,3) this]
  show ?thesis using p(4) by blast
qed

end
