(* ===== verification/App_Shutdown.thy ===== *)
theory App_Shutdown
  imports Main
begin

text \<open>
  Shutting the application down (\<open>AppHandle::shutdown\<close>, \<open>AppHandle3::shutdown\<close> and
  \<open>AppHandle4::shutdown\<close> of \<open>crates/app/src/lib.rs\<close>).  The handle performs a fixed list of actions while
  the tasks go on running, so a shutdown is a step relation: tasks publish, take what they received,
  see their channel closed, panic, or are cut off by an abort, and the handle acts when it can.  What
  a task does with an event is not repeated here; an event counts as handled once the task took it.
\<close>

section \<open>Tasks, channels and actions\<close>

datatype life = Running | Drained | GaveUp | Cut | Panicked

text \<open>An abort and the await of an aborted task, the join of a thread (whose panic is an error with the
  given text), and the drop of the handle's sender of a channel.\<close>

datatype ('t, 'c) action =
    Abort 't
  | AwaitTask 't
  | JoinThread 't string
  | DropSender 'c

text \<open>A reader of a broadcast channel that falls behind loses what was overwritten: most tasks stop then,
  the submission driver, when it has a relay, goes on with what is left.  A queue keeps everything.\<close>

datatype lag = NeverLags | StopsOnLag | SkipsOnLag

text \<open>Which channel a task reads, which senders it owns, and what it does when it lags.  A task that may
  stop on a lag may also stop at once, as the comparator does without a relay.\<close>

record ('t, 'c) topology =
  tp_reads :: "'t \<Rightarrow> 'c option"
  tp_sends :: "'t \<Rightarrow> 'c list"
  tp_lag :: "'t \<Rightarrow> lag"

record ('t, 'c, 'e) system =
  sy_life :: "'t \<Rightarrow> life"
  sy_aborted :: "'t \<Rightarrow> bool"
  sy_handle :: "'c \<Rightarrow> bool"
  sy_sent :: "'t \<Rightarrow> 'e list"
  sy_taken :: "'t \<Rightarrow> 'e list"
  sy_pending :: "'t \<Rightarrow> 'e list"
  sy_todo :: "('t, 'c) action list"
  sy_failed :: "string option"

definition system_init :: "('t, 'c) action list \<Rightarrow> ('t, 'c, 'e) system" where
  "system_init todo =
     \<lparr>sy_life = (\<lambda>_. Running), sy_aborted = (\<lambda>_. False), sy_handle = (\<lambda>_. True), sy_sent = (\<lambda>_. []),
      sy_taken = (\<lambda>_. []), sy_pending = (\<lambda>_. []), sy_todo = todo, sy_failed = None\<rparr>"

text \<open>A channel is closed when nobody owns a sender of it any more.\<close>

definition closed :: "('t, 'c) topology \<Rightarrow> ('t, 'c, 'e) system \<Rightarrow> 'c \<Rightarrow> bool" where
  "closed tp s c \<longleftrightarrow> \<not> sy_handle s c \<and> (\<forall>t. sy_life s t = Running \<longrightarrow> c \<notin> set (tp_sends tp t))"

text \<open>A send reaches every running reader of the channel.\<close>

definition deliver :: "('t, 'c) topology \<Rightarrow> 'c \<Rightarrow> 'e \<Rightarrow> ('t, 'c, 'e) system \<Rightarrow> ('t, 'c, 'e) system" where
  "deliver tp c e s =
     (let put = (\<lambda>f t. if tp_reads tp t = Some c \<and> sy_life s t = Running then f t @ [e] else f t)
      in s\<lparr>sy_sent := put (sy_sent s), sy_pending := put (sy_pending s)\<rparr>)"

definition end_task :: "'t \<Rightarrow> life \<Rightarrow> ('t, 'c, 'e) system \<Rightarrow> ('t, 'c, 'e) system" where
  "end_task t l s = s\<lparr>sy_life := (sy_life s)(t := l)\<rparr>"

text \<open>The next action of the handle, when it does not block: an await or a join waits for the task to
  end.  A joined panic ends the shutdown with an error.\<close>

definition act :: "('t, 'c, 'e) system \<Rightarrow> ('t, 'c, 'e) system option" where
  "act s =
     (case sy_todo s of
        [] \<Rightarrow> None
      | Abort t # todo \<Rightarrow> Some (s\<lparr>sy_aborted := (sy_aborted s)(t := True), sy_todo := todo\<rparr>)
      | DropSender c # todo \<Rightarrow> Some (s\<lparr>sy_handle := (sy_handle s)(c := False), sy_todo := todo\<rparr>)
      | AwaitTask t # todo \<Rightarrow> (if sy_life s t = Running then None else Some (s\<lparr>sy_todo := todo\<rparr>))
      | JoinThread t msg # todo \<Rightarrow>
          (case sy_life s t of
             Running \<Rightarrow> None
           | Panicked \<Rightarrow> Some (s\<lparr>sy_todo := [], sy_failed := Some msg\<rparr>)
           | _ \<Rightarrow> Some (s\<lparr>sy_todo := todo\<rparr>)))"

inductive sys_step :: "('t, 'c) topology \<Rightarrow> ('t, 'c, 'e) system \<Rightarrow> ('t, 'c, 'e) system \<Rightarrow> bool" for tp where
  publish: "sy_life s t = Running \<Longrightarrow> c \<in> set (tp_sends tp t) \<Longrightarrow> sys_step tp s (deliver tp c e s)"
| inject: "sy_handle s c \<Longrightarrow> sys_step tp s (deliver tp c e s)"
| take_one: "sy_life s t = Running \<Longrightarrow> sy_pending s t = e # es \<Longrightarrow>
    sys_step tp s (s\<lparr>sy_pending := (sy_pending s)(t := es), sy_taken := (sy_taken s)(t := sy_taken s t @ [e])\<rparr>)"
| see_closed: "sy_life s t = Running \<Longrightarrow> tp_reads tp t = Some c \<Longrightarrow> sy_pending s t = [] \<Longrightarrow> closed tp s c \<Longrightarrow>
    sys_step tp s (end_task t Drained s)"
| exhausted: "sy_life s t = Running \<Longrightarrow> tp_reads tp t = None \<Longrightarrow> sys_step tp s (end_task t Drained s)"
| gives_up: "sy_life s t = Running \<Longrightarrow> tp_lag tp t \<noteq> NeverLags \<Longrightarrow> sys_step tp s (end_task t GaveUp s)"
| skips: "sy_life s t = Running \<Longrightarrow> tp_lag tp t = SkipsOnLag \<Longrightarrow> sy_pending s t = lost @ left \<Longrightarrow>
    sys_step tp s (s\<lparr>sy_pending := (sy_pending s)(t := left)\<rparr>)"
| cut_off: "sy_life s t = Running \<Longrightarrow> sy_aborted s t \<Longrightarrow> sys_step tp s (end_task t Cut s)"
| panics: "sy_life s t = Running \<Longrightarrow> sys_step tp s (end_task t Panicked s)"
| acts: "act s = Some s' \<Longrightarrow> sys_step tp s s'"

abbreviation sys_steps :: "('t, 'c) topology \<Rightarrow> ('t, 'c, 'e) system \<Rightarrow> ('t, 'c, 'e) system \<Rightarrow> bool" where
  "sys_steps tp \<equiv> (sys_step tp)\<^sup>*\<^sup>*"

text \<open>Steps that need no luck and no failure: what the handle, an aborted task, a task with events left
  and a task whose channel is closed do by themselves.  A calm run adds new events and the end of a stream, but
  no task panics, gives up or loses events to a lag.\<close>

inductive quiet_step :: "('t, 'c) topology \<Rightarrow> ('t, 'c, 'e) system \<Rightarrow> ('t, 'c, 'e) system \<Rightarrow> bool" for tp where
  quiet_take: "sy_life s t = Running \<Longrightarrow> sy_pending s t = e # es \<Longrightarrow>
    quiet_step tp s (s\<lparr>sy_pending := (sy_pending s)(t := es), sy_taken := (sy_taken s)(t := sy_taken s t @ [e])\<rparr>)"
| quiet_closed: "sy_life s t = Running \<Longrightarrow> tp_reads tp t = Some c \<Longrightarrow> sy_pending s t = [] \<Longrightarrow> closed tp s c \<Longrightarrow>
    quiet_step tp s (end_task t Drained s)"
| quiet_cut: "sy_life s t = Running \<Longrightarrow> sy_aborted s t \<Longrightarrow> quiet_step tp s (end_task t Cut s)"
| quiet_act: "act s = Some s' \<Longrightarrow> quiet_step tp s s'"

inductive calm_step :: "('t, 'c) topology \<Rightarrow> ('t, 'c, 'e) system \<Rightarrow> ('t, 'c, 'e) system \<Rightarrow> bool" for tp where
  calm_quiet: "quiet_step tp s s' \<Longrightarrow> calm_step tp s s'"
| calm_publish: "sy_life s t = Running \<Longrightarrow> c \<in> set (tp_sends tp t) \<Longrightarrow> calm_step tp s (deliver tp c e s)"
| calm_inject: "sy_handle s c \<Longrightarrow> calm_step tp s (deliver tp c e s)"
| calm_exhausted: "sy_life s t = Running \<Longrightarrow> tp_reads tp t = None \<Longrightarrow> calm_step tp s (end_task t Drained s)"

abbreviation quiet_steps :: "('t, 'c) topology \<Rightarrow> ('t, 'c, 'e) system \<Rightarrow> ('t, 'c, 'e) system \<Rightarrow> bool" where
  "quiet_steps tp \<equiv> (quiet_step tp)\<^sup>*\<^sup>*"

abbreviation calm_steps :: "('t, 'c) topology \<Rightarrow> ('t, 'c, 'e) system \<Rightarrow> ('t, 'c, 'e) system \<Rightarrow> bool" where
  "calm_steps tp \<equiv> (calm_step tp)\<^sup>*\<^sup>*"

lemma calm_sys: "calm_step tp s s' \<Longrightarrow> sys_step tp s s'"
  by (erule calm_step.cases) (auto elim!: quiet_step.cases intro: sys_step.intros)

lemma calm_steps_sys: "calm_steps tp s z \<Longrightarrow> sys_steps tp s z"
  using rtranclp_mono[of "calm_step tp" "sys_step tp"] calm_sys by blast

lemma quiet_steps_calm: "quiet_steps tp s z \<Longrightarrow> calm_steps tp s z"
  using rtranclp_mono[of "quiet_step tp" "calm_step tp"] calm_quiet by blast

lemma quiet_steps_sys: "quiet_steps tp s z \<Longrightarrow> sys_steps tp s z"
  by (rule calm_steps_sys[OF quiet_steps_calm])

text \<open>What is left to do: the actions of the handle, the events to take and the tasks to end.\<close>

definition work_left :: "'t list \<Rightarrow> ('t, 'c, 'e) system \<Rightarrow> nat" where
  "work_left ts s =
     length (sy_todo s) + (\<Sum>t\<leftarrow>ts. length (sy_pending s t) + (if sy_life s t = Running then 1 else 0))"

text \<open>A shutdown that cannot block: the steps of the handle and of the tasks themselves bring it to its
  end, whichever of them are taken and in whatever order, after at most \<open>work_left\<close> of them.\<close>

definition bound_to_end :: "('t, 'c) topology \<Rightarrow> 't list \<Rightarrow> ('t, 'c, 'e) system \<Rightarrow> bool" where
  "bound_to_end tp ts s \<longleftrightarrow>
     (\<exists>z. quiet_steps tp s z \<and> sy_todo z = []) \<and>
     (\<forall>z. quiet_steps tp s z \<longrightarrow> (\<exists>z'. quiet_step tp z z') \<or> sy_todo z = []) \<and>
     (\<forall>n z. (quiet_step tp ^^ n) s z \<longrightarrow> n \<le> work_left ts s)"

section \<open>The three handles\<close>

datatype task1 = Consumer
datatype chan1 = Bus

definition topology1 :: "(task1, chan1) topology" where
  "topology1 = \<lparr>tp_reads = (\<lambda>_. Some Bus), tp_sends = (\<lambda>_. []), tp_lag = (\<lambda>_. NeverLags)\<rparr>"

definition shutdown1 :: "(task1, chan1) action list" where
  "shutdown1 = [DropSender Bus, JoinThread Consumer ''consumer thread panicked'']"

datatype task3 = Producer3 | IngressConsumer | StateConsumer
datatype chan3 = IngressBus | StateBus

definition topology3 :: "(task3, chan3) topology" where
  "topology3 =
     \<lparr>tp_reads = (\<lambda>t. case t of Producer3 \<Rightarrow> None | IngressConsumer \<Rightarrow> Some IngressBus | StateConsumer \<Rightarrow> Some StateBus),
      tp_sends = (\<lambda>t. if t = Producer3 then [IngressBus] else []), tp_lag = (\<lambda>_. NeverLags)\<rparr>"

definition shutdown3 :: "(task3, chan3) action list" where
  "shutdown3 =
     [Abort Producer3, AwaitTask Producer3,
      DropSender IngressBus, JoinThread IngressConsumer ''ingress consumer thread panicked'',
      DropSender StateBus, JoinThread StateConsumer ''state consumer thread panicked'']"

datatype task4 =
    Producer | IngressJournal | StateDriver | StateJournal | OpportunityDriver | RiskDriver
  | SimulatorDriver | ExecutionDriver | ComparatorDriver | SubmissionDriver

datatype chan4 =
    IngressTx | StateTx | OppTx | RiskTx | SimTx | ExecTx | ComparatorTx | MismatchTx | SubmissionTx

definition topology4 :: "(task4, chan4) topology" where
  "topology4 =
     \<lparr>tp_reads = (\<lambda>t. case t of
        Producer \<Rightarrow> None
      | IngressJournal \<Rightarrow> Some IngressTx
      | StateDriver \<Rightarrow> Some IngressTx
      | StateJournal \<Rightarrow> Some StateTx
      | OpportunityDriver \<Rightarrow> Some StateTx
      | RiskDriver \<Rightarrow> Some OppTx
      | SimulatorDriver \<Rightarrow> Some RiskTx
      | ExecutionDriver \<Rightarrow> Some SimTx
      | ComparatorDriver \<Rightarrow> Some SimTx
      | SubmissionDriver \<Rightarrow> Some SubmissionTx),
      tp_sends = (\<lambda>t. case t of
        Producer \<Rightarrow> [IngressTx]
      | IngressJournal \<Rightarrow> []
      | StateDriver \<Rightarrow> [StateTx]
      | StateJournal \<Rightarrow> []
      | OpportunityDriver \<Rightarrow> [OppTx]
      | RiskDriver \<Rightarrow> [RiskTx]
      | SimulatorDriver \<Rightarrow> [SimTx]
      | ExecutionDriver \<Rightarrow> [ExecTx]
      | ComparatorDriver \<Rightarrow> [ComparatorTx, MismatchTx, SubmissionTx]
      | SubmissionDriver \<Rightarrow> []),
      tp_lag = (\<lambda>t. case t of Producer \<Rightarrow> NeverLags | SubmissionDriver \<Rightarrow> SkipsOnLag | _ \<Rightarrow> StopsOnLag)\<rparr>"

definition shutdown4 :: "(task4, chan4) action list" where
  "shutdown4 =
     [Abort Producer, AwaitTask Producer,
      DropSender SubmissionTx, Abort SubmissionDriver, AwaitTask SubmissionDriver,
      DropSender ComparatorTx, DropSender MismatchTx, Abort ComparatorDriver, AwaitTask ComparatorDriver,
      DropSender ExecTx, Abort ExecutionDriver, AwaitTask ExecutionDriver,
      DropSender SimTx, Abort SimulatorDriver, AwaitTask SimulatorDriver,
      DropSender RiskTx, Abort RiskDriver, AwaitTask RiskDriver,
      DropSender OppTx, Abort OpportunityDriver, AwaitTask OpportunityDriver,
      DropSender StateTx, Abort StateDriver, AwaitTask StateDriver, Abort StateJournal, AwaitTask StateJournal,
      DropSender IngressTx, Abort IngressJournal, AwaitTask IngressJournal]"

section \<open>What holds on the way\<close>

text \<open>What an action the handle has performed has brought about, for good.\<close>

fun effect :: "('t, 'c, 'e) system \<Rightarrow> ('t, 'c) action \<Rightarrow> bool" where
  "effect s (Abort t) = sy_aborted s t"
| "effect s (AwaitTask t) = (sy_life s t \<noteq> Running)"
| "effect s (JoinThread t msg) = (sy_life s t \<noteq> Running \<and> sy_life s t \<noteq> Panicked)"
| "effect s (DropSender c) = (\<not> sy_handle s c)"

definition kept :: "('t, 'c) topology \<Rightarrow> ('t, 'c, 'e) system \<Rightarrow> 't \<Rightarrow> bool" where
  "kept tp s t \<longleftrightarrow> (tp_lag tp t \<noteq> SkipsOnLag \<longrightarrow> sy_taken s t @ sy_pending s t = sy_sent s t) \<and>
     (tp_reads tp t = None \<or> sy_life s t = Drained \<longrightarrow> sy_pending s t = []) \<and>
     (sy_life s t = Cut \<longrightarrow> sy_aborted s t) \<and> (sy_life s t = GaveUp \<longrightarrow> tp_lag tp t \<noteq> NeverLags)"

definition under_way :: "('t, 'c) action list \<Rightarrow> ('t, 'c, 'e) system \<Rightarrow> bool" where
  "under_way full s \<longleftrightarrow> (\<forall>t. sy_aborted s t \<longrightarrow> Abort t \<in> set full) \<and>
     (case sy_failed s of
        None \<Rightarrow> (\<exists>before. full = before @ sy_todo s \<and> (\<forall>a \<in> set before. effect s a))
      | Some msg \<Rightarrow> sy_todo s = [] \<and> (\<exists>t. JoinThread t msg \<in> set full \<and> sy_life s t = Panicked))"

inductive_cases sys_stepE: "sys_step tp s s'"

lemma deliver_simps [simp]:
  "sy_life (deliver tp c e s) = sy_life s" "sy_aborted (deliver tp c e s) = sy_aborted s"
  "sy_handle (deliver tp c e s) = sy_handle s" "sy_taken (deliver tp c e s) = sy_taken s"
  "sy_todo (deliver tp c e s) = sy_todo s" "sy_failed (deliver tp c e s) = sy_failed s"
  by (simp_all add: deliver_def Let_def)

lemma end_task_simps [simp]:
  "sy_life (end_task t l s) = (sy_life s)(t := l)" "sy_aborted (end_task t l s) = sy_aborted s"
  "sy_handle (end_task t l s) = sy_handle s" "sy_taken (end_task t l s) = sy_taken s"
  "sy_pending (end_task t l s) = sy_pending s" "sy_sent (end_task t l s) = sy_sent s"
  "sy_todo (end_task t l s) = sy_todo s" "sy_failed (end_task t l s) = sy_failed s"
  by (simp_all add: end_task_def)

lemma act_keeps:
  assumes "act s = Some s'"
  shows "sy_life s' = sy_life s" "sy_taken s' = sy_taken s" "sy_pending s' = sy_pending s" "sy_sent s' = sy_sent s"
    "sy_aborted s t \<Longrightarrow> sy_aborted s' t" "\<not> sy_handle s c \<Longrightarrow> \<not> sy_handle s' c"
  using assms by (auto simp: act_def split: list.splits action.splits if_splits life.splits)

lemma effect_stable: "sys_step tp s s' \<Longrightarrow> effect s a \<Longrightarrow> effect s' a"
  by (erule sys_stepE; cases a) (auto simp: act_keeps)

lemma kept_step:
  assumes "sys_step tp s s'" "kept tp s t"
  shows "kept tp s' t"
  using assms(1)
proof cases
  case (take_one u e es)
  then show ?thesis using assms(2) by (cases "u = t") (auto simp: kept_def)
next
  case (skips u lost left)
  then show ?thesis using assms(2) by (cases "u = t") (auto simp: kept_def)
qed (use assms(2) in \<open>auto simp: kept_def deliver_def Let_def act_keeps\<close>)

lemma under_way_step:
  assumes "sys_step tp s s'" "under_way full s"
  shows "under_way full s'"
proof (cases "\<exists>t. act s = Some s' \<and> sy_failed s = None")
  case False
  then have same: "sy_todo s' = sy_todo s" "sy_failed s' = sy_failed s" "sy_aborted s' = sy_aborted s"
    using assms by (auto elim!: sys_stepE simp: under_way_def act_def split: option.splits)
  have panicked: "sy_life s' t = Panicked" if "sy_life s t = Panicked" for t
    using assms(1) that by (auto elim!: sys_stepE simp: act_keeps)
  show ?thesis
    using assms(2) panicked effect_stable[OF assms(1)] unfolding under_way_def same by (cases "sy_failed s") fastforce+
next
  case True
  then obtain before where b: "full = before @ sy_todo s" "\<forall>a \<in> set before. effect s a"
    using assms(2) by (auto simp: under_way_def)
  have eff: "\<forall>a \<in> set before. effect s' a" using b(2) effect_stable[OF assms(1)] by blast
  obtain a todo where todo: "sy_todo s = a # todo" using True by (cases "sy_todo s") (auto simp: act_def)
  have ab: "\<forall>t. sy_aborted s t \<longrightarrow> Abort t \<in> set full" using assms(2) by (simp add: under_way_def)
  have ok: "under_way full s'" if "sy_todo s' = todo" "sy_failed s' = None" "effect s' a"
      "\<forall>t. sy_aborted s' t \<longrightarrow> Abort t \<in> set full"
    using that b(1) eff todo unfolding under_way_def by (auto intro!: exI[of _ "before @ [a]"])
  show ?thesis
  proof (cases a)
    case (JoinThread t msg)
    show ?thesis
    proof (cases "sy_life s t = Panicked")
      case True
      with \<open>\<exists>t. act s = Some s' \<and> sy_failed s = None\<close> have "s' = s\<lparr>sy_todo := [], sy_failed := Some msg\<rparr>"
        by (auto simp: act_def todo JoinThread)
      then show ?thesis using True ab b(1) todo JoinThread by (auto simp: under_way_def)
    next
      case False
      with \<open>\<exists>t. act s = Some s' \<and> sy_failed s = None\<close> show ?thesis
        by (intro ok) (use ab in \<open>auto simp: act_def todo JoinThread split: life.splits\<close>)
    qed
  next
    case (Abort t)
    have "s' = s\<lparr>sy_aborted := (sy_aborted s)(t := True), sy_todo := todo\<rparr>" "sy_failed s = None"
      using True by (simp_all add: act_def todo Abort)
    then show ?thesis by (intro ok) (use ab b(1) todo Abort in auto)
  next
    case (AwaitTask t)
    have "s' = s\<lparr>sy_todo := todo\<rparr>" "sy_failed s = None" "sy_life s t \<noteq> Running"
      using True by (auto simp: act_def todo AwaitTask split: if_splits)
    then show ?thesis by (intro ok) (use ab AwaitTask in auto)
  next
    case (DropSender c)
    have "s' = s\<lparr>sy_handle := (sy_handle s)(c := False), sy_todo := todo\<rparr>" "sy_failed s = None"
      using True by (simp_all add: act_def todo DropSender)
    then show ?thesis by (intro ok) (use ab DropSender in auto)
  qed
qed

lemma reachable_facts:
  assumes "sys_steps tp (system_init full) s"
  shows "under_way full s \<and> (\<forall>t. kept tp s t)"
  using assms
proof (induction rule: rtranclp_induct)
  case base
  show ?case by (simp add: under_way_def kept_def system_init_def)
next
  case (step s s')
  then show ?case using under_way_step[OF step.hyps(2)] kept_step[OF step.hyps(2)] by simp
qed

text \<open>Quiet steps send nothing and let no task panic.\<close>

lemma quiet_keeps:
  assumes "quiet_steps tp s z" "\<forall>t. sy_life s t \<noteq> Panicked" "sy_failed s = None"
  shows "sy_sent z = sy_sent s \<and> (\<forall>t. sy_life z t \<noteq> Panicked) \<and> sy_failed z = None"
  using assms
proof (induction rule: rtranclp_induct)
  case (step y z)
  then have y: "sy_sent y = sy_sent s" "\<forall>t. sy_life y t \<noteq> Panicked" "sy_failed y = None" by blast+
  from step.hyps(2) have "sy_sent z = sy_sent y \<and> (\<forall>t. sy_life z t \<noteq> Panicked)"
  proof cases
    case quiet_act
    then show ?thesis by (simp add: act_keeps y(2))
  qed (use y in auto)
  moreover from step.hyps(2) have "sy_failed z = None"
  proof cases
    case quiet_act
    with y(2,3) show ?thesis by (auto simp: act_def split: list.splits action.splits if_splits life.splits)
  qed (use y in auto)
  ultimately show ?case using y(1) by simp
qed simp






section \<open>A shutdown in good order\<close>

text \<open>The channel of a task closes once the handle has dropped its sender and everybody else who owns one
  has been seen to end.\<close>

definition lets_close :: "('t, 'c) topology \<Rightarrow> 't list \<Rightarrow> ('t, 'c) action list \<Rightarrow> 't \<Rightarrow> bool" where
  "lets_close tp ts before t \<longleftrightarrow>
     (case tp_reads tp t of
        None \<Rightarrow> False
      | Some c \<Rightarrow> DropSender c \<in> set before \<and>
          (\<forall>u \<in> set ts. c \<in> set (tp_sends tp u) \<longrightarrow> AwaitTask u \<in> set before))"

text \<open>An await comes after the abort of its task or after what closes its channel; a join comes after what
  closes the thread's channel.\<close>

fun in_order :: "('t, 'c) topology \<Rightarrow> 't list \<Rightarrow> ('t, 'c) action list \<Rightarrow> ('t, 'c) action list \<Rightarrow> bool" where
  "in_order tp ts before [] = True"
| "in_order tp ts before (a # todo) =
     ((case a of
         AwaitTask t \<Rightarrow> Abort t \<in> set before \<or> lets_close tp ts before t
       | JoinThread t msg \<Rightarrow> lets_close tp ts before t
       | _ \<Rightarrow> True) \<and> in_order tp ts (before @ [a]) todo)"

lemma in_order_suffix: "in_order tp ts before (xs @ todo) \<Longrightarrow> in_order tp ts (before @ xs) todo"
proof (induction xs arbitrary: before)
  case (Cons a xs)
  then have "in_order tp ts ((before @ [a]) @ xs) todo" by (intro Cons.IH) simp
  then show ?case by simp
qed simp

locale orderly_shutdown =
  fixes tp :: "('t, 'c) topology" and ts :: "'t list" and full :: "('t, 'c) action list"
  assumes every_task: "t \<in> set ts" and once: "distinct ts" and ordered: "in_order tp ts [] full"
begin

definition share :: "('t, 'c, 'e) system \<Rightarrow> 't \<Rightarrow> nat" where
  "share s t = length (sy_pending s t) + (if sy_life s t = Running then 1 else 0)"

lemma work_sum: "work_left ts s = length (sy_todo s) + sum (share s) (set ts)"
  by (simp add: work_left_def share_def sum_list_distinct_conv_sum_set once)

lemma work_drop:
  assumes "sy_todo s' = sy_todo s" "share s' t < share s t" and "\<And>u. u \<noteq> t \<Longrightarrow> share s' u = share s u"
  shows "work_left ts s' < work_left ts s"
proof -
  have "sum (share s') (set ts) < sum (share s) (set ts)"
  proof (rule sum_strict_mono_ex1)
    show "\<forall>u \<in> set ts. share s' u \<le> share s u" using assms(2,3) by (metis less_imp_le order_refl)
    show "\<exists>u \<in> set ts. share s' u < share s u" using assms(2) every_task by blast
  qed simp
  then show ?thesis by (simp add: work_sum assms(1))
qed

lemma quiet_work:
  assumes "quiet_step tp s s'"
  shows "work_left ts s' < work_left ts s"
  using assms
proof cases
  case (quiet_take t e es)
  then show ?thesis by (intro work_drop[of _ _ t]) (auto simp: share_def)
next
  case (quiet_closed t c)
  then show ?thesis by (intro work_drop[of _ _ t]) (auto simp: share_def)
next
  case (quiet_cut t)
  then show ?thesis by (intro work_drop[of _ _ t]) (auto simp: share_def)
next
  case quiet_act
  then have "length (sy_todo s') < length (sy_todo s)"
    by (auto simp: act_def split: list.splits action.splits if_splits life.splits)
  then show ?thesis by (simp add: work_left_def act_keeps[OF quiet_act])
qed

lemma quiet_bound: "(quiet_step tp ^^ n) s z \<Longrightarrow> n + work_left ts z \<le> work_left ts s"
proof (induction n arbitrary: z)
  case (Suc n)
  then obtain y where "(quiet_step tp ^^ n) s y" "quiet_step tp y z" by auto
  with Suc.IH[of y] quiet_work[of y z] show ?case by simp
qed simp

text \<open>A task that the handle waits for and whose channel has been closed can go on.\<close>

lemma drains:
  assumes "lets_close tp ts before t" "\<forall>a \<in> set before. effect s a" "sy_life s t = Running"
  shows "\<exists>s'. quiet_step tp s s'"
proof -
  obtain c where c: "tp_reads tp t = Some c" "DropSender c \<in> set before"
    "\<forall>u \<in> set ts. c \<in> set (tp_sends tp u) \<longrightarrow> AwaitTask u \<in> set before"
    using assms(1) by (auto simp: lets_close_def split: option.splits)
  have "closed tp s c" using c assms(2) every_task by (fastforce simp: closed_def)
  with c(1) assms(3) show ?thesis by (cases "sy_pending s t") (blast intro: quiet_closed quiet_take)+
qed

lemma progress:
  assumes "sys_steps tp (system_init full) s" "sy_todo s \<noteq> []"
  shows "\<exists>s'. quiet_step tp s s'"
proof (cases "act s")
  case (Some s')
  then show ?thesis by (blast intro: quiet_act)
next
  case None
  obtain before where b: "full = before @ sy_todo s" "\<forall>a \<in> set before. effect s a"
    using reachable_facts[OF assms(1)] assms(2) by (auto simp: under_way_def split: option.splits)
  have o: "in_order tp ts before (sy_todo s)" using in_order_suffix[of tp ts "[]" before "sy_todo s"] ordered b(1) by simp
  obtain a todo where todo: "sy_todo s = a # todo" using assms(2) by (cases "sy_todo s") auto
  show ?thesis
  proof (cases a)
    case (AwaitTask t)
    have run: "sy_life s t = Running" using None by (auto simp: act_def todo AwaitTask split: if_splits)
    have "sy_aborted s t \<or> lets_close tp ts before t" using o b(2) by (fastforce simp: todo AwaitTask)
    then show ?thesis using drains[OF _ b(2) run] quiet_cut[OF run] by blast
  next
    case (JoinThread t msg)
    have run: "sy_life s t = Running" using None by (auto simp: act_def todo JoinThread split: life.splits)
    have "lets_close tp ts before t" using o by (simp add: todo JoinThread)
    then show ?thesis by (rule drains[OF _ b(2) run])
  qed (use None in \<open>simp_all add: act_def todo\<close>)
qed

lemma ends:
  assumes "sys_steps tp (system_init full) s"
  shows "bound_to_end tp ts s"
proof -
  have on: "(\<exists>z'. quiet_step tp z z') \<or> sy_todo z = []" if "quiet_steps tp s z" for z
    using progress[OF rtranclp_trans[OF assms quiet_steps_sys[OF that]]] by blast
  have "\<exists>z'. quiet_steps tp z z' \<and> sy_todo z' = []" if "quiet_steps tp s z" for z
    using that
  proof (induction "work_left ts z" arbitrary: z rule: less_induct)
    case less
    show ?case
    proof (cases "sy_todo z = []")
      case False
      with on[OF less.prems] obtain y where y: "quiet_step tp z y" by blast
      with less.hyps[OF quiet_work[OF y]] less.prems obtain z' where "quiet_steps tp y z'" "sy_todo z' = []"
        by (meson rtranclp.rtrancl_into_rtrancl)
      with y show ?thesis by (meson converse_rtranclp_into_rtranclp)
    qed blast
  qed
  then show ?thesis using on quiet_bound unfolding bound_to_end_def by (meson add_leE rtranclp.rtrancl_refl)
qed

lemma completes:
  assumes "sys_steps tp (system_init full) s"
  shows "\<exists>z. quiet_steps tp s z \<and> sy_todo z = []"
  using ends[OF assms] by (simp add: bound_to_end_def)

end

definition tasks3 :: "task3 list" where "tasks3 = [Producer3, IngressConsumer, StateConsumer]"

definition tasks4 :: "task4 list" where
  "tasks4 = [Producer, IngressJournal, StateDriver, StateJournal, OpportunityDriver, RiskDriver,
     SimulatorDriver, ExecutionDriver, ComparatorDriver, SubmissionDriver]"

interpretation handle1: orderly_shutdown topology1 "[Consumer]" shutdown1
proof unfold_locales
  show "t \<in> set [Consumer]" for t by (cases t) simp
qed (simp_all add: topology1_def shutdown1_def lets_close_def)

interpretation handle3: orderly_shutdown topology3 tasks3 shutdown3
proof unfold_locales
  show "t \<in> set tasks3" for t by (cases t) (simp_all add: tasks3_def)
qed (simp_all add: tasks3_def topology3_def shutdown3_def lets_close_def)

interpretation handle4: orderly_shutdown topology4 tasks4 shutdown4
proof unfold_locales
  show "t \<in> set tasks4" for t by (cases t) (simp_all add: tasks4_def)
qed (simp_all add: tasks4_def topology4_def shutdown4_def lets_close_def)

section \<open>What the shutdowns promise\<close>

text \<open>A thread that was joined, is never aborted and reads no broadcast has handled all it was sent.\<close>

lemma joined_keeps:
  assumes "sys_steps tp (system_init full) s" "sy_todo s = []" "sy_failed s = None"
    and "JoinThread t msg \<in> set full" "Abort t \<notin> set full" "tp_lag tp t = NeverLags"
  shows "sy_life s t = Drained \<and> sy_taken s t = sy_sent s t"
proof -
  note r = reachable_facts[OF assms(1)]
  have "effect s (JoinThread t msg)" using r assms(2,3,4) by (auto simp: under_way_def)
  moreover have "\<not> sy_aborted s t" using r assms(5) by (auto simp: under_way_def)
  moreover have k: "kept tp s t" using r by blast
  ultimately have "sy_life s t = Drained" using assms(6) by (cases "sy_life s t") (auto simp: kept_def)
  with k show ?thesis using assms(6) by (auto simp: kept_def)
qed

lemma drained1:
  assumes "sys_steps topology1 (system_init shutdown1) s" 
  shows "sy_todo s = [] \<longrightarrow> (case sy_failed s of
        None \<Rightarrow> sy_life s Consumer = Drained \<and> sy_taken s Consumer = sy_sent s Consumer
      | Some msg \<Rightarrow> msg = ''consumer thread panicked'' \<and> sy_life s Consumer = Panicked)"
proof (cases "sy_failed s")
  case None
  with joined_keeps[OF assms _ None, of Consumer "''consumer thread panicked''"] show ?thesis
    by (simp add: shutdown1_def topology1_def)
next
  case (Some msg)
  with reachable_facts[OF assms] show ?thesis by (auto simp: under_way_def shutdown1_def)
qed

lemma drained3:
  assumes "sys_steps topology3 (system_init shutdown3) s"
  shows "sy_todo s = [] \<longrightarrow> (case sy_failed s of
        None \<Rightarrow> (\<forall>t. t \<noteq> Producer3 \<longrightarrow> sy_life s t = Drained \<and> sy_taken s t = sy_sent s t)
      | Some msg \<Rightarrow> \<exists>t. JoinThread t msg \<in> set shutdown3 \<and> sy_life s t = Panicked)"
proof (cases "sy_failed s")
  case None
  have "sy_life s t = Drained \<and> sy_taken s t = sy_sent s t" if "t \<noteq> Producer3" "sy_todo s = []" for t
    using that joined_keeps[OF assms that(2) None, of IngressConsumer "''ingress consumer thread panicked''"]
      joined_keeps[OF assms that(2) None, of StateConsumer "''state consumer thread panicked''"]
    by (cases t) (simp_all add: shutdown3_def topology3_def)
  with None show ?thesis by simp
next
  case (Some msg)
  with reachable_facts[OF assms] show ?thesis by (simp add: under_way_def)
qed

lemma ended4:
  assumes "sys_steps topology4 (system_init shutdown4) s"
  shows "sy_todo s = [] \<longrightarrow> sy_failed s = None \<and> (\<forall>t. sy_life s t \<noteq> Running)"
proof
  assume d: "sy_todo s = []"
  have nj: "JoinThread t msg \<notin> set shutdown4" for t msg by (simp add: shutdown4_def)
  note f = reachable_facts[OF assms]
  then have none: "sy_failed s = None" using nj by (auto simp: under_way_def split: option.splits)
  have "AwaitTask t \<in> set shutdown4" for t by (cases t) (simp_all add: shutdown4_def)
  with f d none have "\<forall>t. sy_life s t \<noteq> Running" by (fastforce simp: under_way_def)
  with none show "sy_failed s = None \<and> (\<forall>t. sy_life s t \<noteq> Running)" ..
qed

text \<open>C12: No shutdown can block, and those that join threads lose nothing.  From every state of a
  shutdown, whatever the tasks have done in the meantime, it is brought to its end by steps of the handle and of
  the tasks alone: a task takes an event it was sent, sees its channel closed, or stops because it was aborted;
  no panic and no lag is needed for it.  As long as the shutdown is not through such a step can be taken, and
  any sequence of them, in whatever order, is no longer than the actions left, the events left and the running
  tasks together.  When the first or the third handle's shutdown completes, either a consumer thread panicked
  and the error names it, or every consumer has seen its channel closed after handling all events it was sent;
  the fourth's completes without an error and with every task ended.\<close>

theorem shutdowns_complete:
  assumes "sys_steps topology1 (system_init shutdown1) s1" "sys_steps topology3 (system_init shutdown3) s3"
    and "sys_steps topology4 (system_init shutdown4) s4"
  shows "bound_to_end topology1 [Consumer] s1 \<and> bound_to_end topology3 tasks3 s3 \<and> bound_to_end topology4 tasks4 s4 \<and>
    (sy_todo s1 = [] \<longrightarrow> (case sy_failed s1 of
        None \<Rightarrow> sy_life s1 Consumer = Drained \<and> sy_taken s1 Consumer = sy_sent s1 Consumer
      | Some msg \<Rightarrow> msg = ''consumer thread panicked'' \<and> sy_life s1 Consumer = Panicked)) \<and>
    (sy_todo s3 = [] \<longrightarrow> (case sy_failed s3 of
        None \<Rightarrow> (\<forall>t. t \<noteq> Producer3 \<longrightarrow> sy_life s3 t = Drained \<and> sy_taken s3 t = sy_sent s3 t)
      | Some msg \<Rightarrow> \<exists>t. JoinThread t msg \<in> set shutdown3 \<and> sy_life s3 t = Panicked)) \<and>
    (sy_todo s4 = [] \<longrightarrow> sy_failed s4 = None \<and> (\<forall>t. sy_life s4 t \<noteq> Running))"
  by (intro conjI handle1.ends[OF assms(1)] handle3.ends[OF assms(2)] handle4.ends[OF assms(3)]
      drained1[OF assms(1)] drained3[OF assms(2)] ended4[OF assms(3)])











text \<open>One event for the first handle's consumer, and one for the third's.\<close>

lemma one_event:
  assumes "tp_reads tp t = Some c"
  shows "sys_steps tp (system_init full) (deliver tp c e (system_init full)) \<and>
     sy_sent (deliver tp c e (system_init full)) t = [e]"
  using assms inject[of "system_init full" c tp e] by (auto simp: deliver_def system_init_def)

theorem shutdowns_complete_witness:
  "\<exists>(s1 :: (task1, chan1, nat) system) (s3 :: (task3, chan3, nat) system) (s4 :: (task4, chan4, nat) system).
     sys_steps topology1 (system_init shutdown1) s1 \<and> sys_steps topology3 (system_init shutdown3) s3 \<and>
     sys_steps topology4 (system_init shutdown4) s4 \<and> sy_todo s1 = [] \<and> sy_todo s3 = [] \<and> sy_todo s4 = [] \<and>
     sy_taken s1 Consumer = [7] \<and> sy_taken s3 IngressConsumer = [8] \<and> (\<forall>t. sy_life s4 t \<noteq> Running)"
proof -
  define a1 where "a1 = deliver topology1 Bus (7 :: nat) (system_init shutdown1)"
  define a3 where "a3 = deliver topology3 IngressBus (8 :: nat) (system_init shutdown3)"
  define a4 where "a4 = (system_init shutdown4 :: (task4, chan4, nat) system)"
  have reads: "tp_reads topology1 Consumer = Some Bus" "tp_reads topology3 IngressConsumer = Some IngressBus"
    by (simp_all add: topology1_def topology3_def)
  have r: "sys_steps topology1 (system_init shutdown1) a1" "sys_steps topology3 (system_init shutdown3) a3"
    "sys_steps topology4 (system_init shutdown4) a4" "sy_sent a1 Consumer = [7]" "sy_sent a3 IngressConsumer = [8]"
    using one_event[of topology1 Consumer Bus shutdown1 "7 :: nat"]
      one_event[of topology3 IngressConsumer IngressBus shutdown3 "8 :: nat"]
    unfolding a1_def a3_def a4_def by (simp_all add: reads)
  note sc = shutdowns_complete[OF r(1,2,3)]
  obtain s1 s3 s4 where q: "quiet_steps topology1 a1 s1" "sy_todo s1 = []" "quiet_steps topology3 a3 s3" "sy_todo s3 = []"
    "quiet_steps topology4 a4 s4" "sy_todo s4 = []"
    using sc unfolding bound_to_end_def by blast
  have s: "sys_steps topology1 (system_init shutdown1) s1" "sys_steps topology3 (system_init shutdown3) s3"
    "sys_steps topology4 (system_init shutdown4) s4"
    using rtranclp_trans[OF r(1) quiet_steps_sys[OF q(1)]] rtranclp_trans[OF r(2) quiet_steps_sys[OF q(3)]]
      rtranclp_trans[OF r(3) quiet_steps_sys[OF q(5)]] by blast+
  have k: "sy_sent s1 Consumer = [7]" "sy_failed s1 = None" "sy_sent s3 IngressConsumer = [8]" "sy_failed s3 = None"
    using quiet_keeps[OF q(1)] quiet_keeps[OF q(3)] r(4,5) by (simp_all add: a1_def a3_def system_init_def)
  from shutdowns_complete[OF s] q(2,4,6) k have "sy_taken s1 Consumer = [7]" "sy_taken s3 IngressConsumer = [8]"
    "\<forall>t. sy_life s4 t \<noteq> Running" by simp_all
  with s q(2,4,6) show ?thesis by blast
qed

end
