(* ===== verification/Kms_Aws.thy ===== *)
theory Kms_Aws
  imports Signer
begin

text \<open>
  The key service client of \<open>crates/signer/src/kms_aws.rs\<close> and the boot of the production signer on it
  (\<open>from_aws_kms\<close> of \<open>production.rs\<close>).  The AWS SDK is an argument: what it answers to the two requests.
\<close>

text \<open>A sign request as the SDK's builder sends it.\<close>

record aws_sign_request =
  aws_key_id :: string
  aws_message_type :: string
  aws_signing_algorithm :: string
  aws_message :: bytes

text \<open>The answers: an SDK error, or a response whose blob may be absent.\<close>

record aws_kms =
  aws_get_public_key :: "string \<Rightarrow> nat + bytes option"
  aws_sign :: "aws_sign_request \<Rightarrow> nat + bytes option"

definition aws_public_key_der :: "aws_kms \<Rightarrow> string \<Rightarrow> kms_client_error + bytes" where
  "aws_public_key_der sdk key_id =
     (case aws_get_public_key sdk key_id of
        Inl _ \<Rightarrow> Inl GetPublicKeyFailed
      | Inr resp \<Rightarrow> (case resp of None \<Rightarrow> Inl GetPublicKeyFailed | Some blob \<Rightarrow> Inr blob))"

definition aws_sign_digest :: "aws_kms \<Rightarrow> string \<Rightarrow> bytes \<Rightarrow> kms_client_error + bytes" where
  "aws_sign_digest sdk key_id digest =
     (case aws_sign sdk \<lparr>aws_key_id = key_id, aws_message_type = ''DIGEST'',
                         aws_signing_algorithm = ''ECDSA_SHA_256'', aws_message = digest\<rparr> of
        Inl _ \<Rightarrow> Inl SignFailed
      | Inr resp \<Rightarrow> (case resp of None \<Rightarrow> Inl SignFailed | Some blob \<Rightarrow> Inr blob))"

definition aws_kms_client :: "aws_kms \<Rightarrow> kms_client" where
  "aws_kms_client sdk = \<lparr>kc_get_public_key_der = aws_public_key_der sdk, kc_sign_digest = aws_sign_digest sdk\<rparr>"

definition from_aws_kms ::
  "(bytes \<Rightarrow> bytes) \<Rightarrow> aws_kms \<Rightarrow> string \<Rightarrow> signing_audit_thresholds \<Rightarrow> signer_error + production_signer" where
  "from_aws_kms keccak sdk key_id thresholds = from_aws_kms_with_client keccak key_id thresholds (aws_kms_client sdk)"

lemma aws_client_answers:
  "kc_get_public_key_der (aws_kms_client sdk) key_id = Inr der \<longleftrightarrow> aws_get_public_key sdk key_id = Inr (Some der)"
  "kc_sign_digest (aws_kms_client sdk) key_id digest = Inr sig \<longleftrightarrow>
     aws_sign sdk \<lparr>aws_key_id = key_id, aws_message_type = ''DIGEST'', aws_signing_algorithm = ''ECDSA_SHA_256'',
       aws_message = digest\<rparr> = Inr (Some sig)"
  by (auto simp: aws_kms_client_def aws_public_key_der_def aws_sign_digest_def split: sum.splits option.splits)

text \<open>C26: When a signer booted on AWS signs.  It returns bytes exactly when AWS knows the key and describes it in
  the expected DER form with a point whose keccak address is the sender, the fees are ordered, AWS signs
  the keccak digest of the unsigned preimage, asked for as a digest and not as a message to be hashed
  again, the signature parses, and one of the two parities recovers to that very point; the bytes then
  carry that parity and the normalised signature.  Any error or missing field of an answer yields none.\<close>

theorem production_signing_exact:
  "(\<exists>sg. from_aws_kms keccak sdk key_id th = Inr sg \<and> fst (sign_tx ro keccak ec sg tx log) = Inr out) =
     (\<exists>point der r s v. length point = 64 \<and>
        aws_get_public_key sdk key_id = Inr (Some (EXPECTED_PREFIX_TO_MARKER @ point)) \<and>
        tx_from tx = address_from_be (drop 12 (keccak point)) \<and>
        tx_max_priority_fee_per_gas tx \<le> tx_max_fee_per_gas tx \<and>
        aws_sign sdk \<lparr>aws_key_id = key_id, aws_message_type = ''DIGEST'', aws_signing_algorithm = ''ECDSA_SHA_256'',
          aws_message = keccak (encode_eip1559_unsigned ro tx)\<rparr> = Inr (Some der) \<and>
        parse_der_to_rs ec der = Inr (r, s) \<and>
        recover_y_parity ec (keccak (encode_eip1559_unsigned ro tx)) r s (0x04 # point) = Inr v \<and>
        out = SignedTxBytes (encode_eip1559_signed ro tx v r s))"
  unfolding from_aws_kms_def kms_boot_exact sign_tx_ok_exactly_when aws_client_answers
  by (auto simp: aws_client_answers)

end
