(* ===== verification/App_Wire.thy ===== *)
theory App_Wire
  imports App_Submission App_Simulation App_Shutdown Kms_Aws
begin

text \<open>
  The wiring of \<open>crates/app/src/lib.rs\<close>: \<open>wire\<close>, \<open>wire_phase2\<close>, \<open>wire_phase3\<close>, \<open>wire_phase4\<close> and
  \<open>run\<close>, and the binary of \<open>crates/app/src/main.rs\<close>.  A wiring is a sequence of steps that may fail; it
  opens files, builds the components of the other theories, and starts tasks.  What it hands to the
  tasks is the handle it returns.  The operating system, the clients' libraries and the caches are
  the environment.
\<close>

section \<open>Wirings\<close>

text \<open>\<open>we_locate\<close> says which file of the disk a path leads to, as a number, when it can be opened; two paths
  may lead to one file.  Each \<open>open\<close> makes an open file of its own, with its own position and buffer: these are
  in the journal it is opened for.  \<open>we_ring_fits\<close> and \<open>we_table_fits\<close> say which capacities the allocator
  provides for the ring of a broadcast channel and for the table of the fixture cache.\<close>

record ('o, 'u, 'w, 'pf, 'd, 'lc, 'cc, 'sc) wire_env =
  we_obs :: "'o obs_env"
  we_http_url :: "string \<Rightarrow> string + 'u"
  we_on_http :: "'u \<Rightarrow> ('w, pending_tx, 'pf) root_provider"
  we_open_db :: "string \<Rightarrow> nat + 'd"
  we_locate :: "string \<Rightarrow> io_error + nat"
  we_spawn_thread :: "string \<Rightarrow> io_error + unit"
  we_ring_fits :: "nat \<Rightarrow> bool"
  we_table_fits :: "nat \<Rightarrow> bool"
  we_relay_url :: url_parse
  we_header_ok :: "string \<Rightarrow> bool"
  we_client_ok :: bool
  we_fixture_cache :: "(fixture_key, fixture_set, 'lc) lru_ops"
  we_code_cache :: "(code_key, bytes, 'cc) cache_ops"
  we_storage_cache :: "(storage_key, b256, 'sc) cache_ops"

text \<open>The process while it is wired: the guard of the observability start, the files, and the tasks
  started so far.\<close>

record ('o, 't) boot =
  bt_process :: "'o process"
  bt_files :: "nat \<Rightarrow> os_file"
  bt_tasks :: "'t list"

text \<open>A step ends in a value, in an error, or in a panic (\<open>None\<close>).\<close>

type_synonym ('s, 'a) wiring = "'s \<Rightarrow> (app_error + 'a) option \<times> 's"

definition done_with :: "'a \<Rightarrow> ('s, 'a) wiring" where
  "done_with x s = (Some (Inr x), s)"

definition then_do :: "('s, 'a) wiring \<Rightarrow> ('a \<Rightarrow> ('s, 'b) wiring) \<Rightarrow> ('s, 'b) wiring" where
  "then_do m k s =
     (case m s of
        (Some (Inr a), s') \<Rightarrow> k a s'
      | (Some (Inl e), s') \<Rightarrow> (Some (Inl e), s')
      | (None, s') \<Rightarrow> (None, s'))"

definition try_as :: "('e \<Rightarrow> app_error) \<Rightarrow> 'e + 'a \<Rightarrow> ('s, 'a) wiring" where
  "try_as f r s = (Some (map_sum f id r), s)"

definition start_observability ::
  "('o, 'u, 'w, 'pf, 'd, 'lc, 'cc, 'sc) wire_env \<Rightarrow> config \<Rightarrow> bool \<Rightarrow> (('o, 't) boot, unit) wiring" where
  "start_observability we cfg init_observability s =
     (if init_observability then
        (case obs_init (we_obs we) (observability cfg) (bt_process s) of
           (r, p) \<Rightarrow> (Some (map_sum AppObservability id r), s\<lparr>bt_process := p\<rparr>))
      else (Some (Inr ()), s))"

definition open_journal ::
  "('o, 'u, 'w, 'pf, 'd, 'lc, 'cc, 'sc) wire_env \<Rightarrow> string \<Rightarrow> (('o, 't) boot, nat \<times> journal) wiring" where
  "open_journal we path s =
     (case we_locate we path of
        Inl e \<Rightarrow> (Some (Inl (AppJournal (Io e))), s)
      | Inr i \<Rightarrow>
          (case journal_open (Inr (bt_files s i)) of
             (r, left) \<Rightarrow>
               (Some (map_sum AppJournal (Pair i) r),
                case left of None \<Rightarrow> s | Some f \<Rightarrow> s\<lparr>bt_files := (bt_files s)(i := f)\<rparr>)))"

definition spawn_task :: "'t \<Rightarrow> (('o, 't) boot, unit) wiring" where
  "spawn_task t s = (Some (Inr ()), s\<lparr>bt_tasks := bt_tasks s @ [t]\<rparr>)"

definition spawn_thread ::
  "('o, 'u, 'w, 'pf, 'd, 'lc, 'cc, 'sc) wire_env \<Rightarrow> string \<Rightarrow> 't \<Rightarrow> (('o, 't) boot, unit) wiring" where
  "spawn_thread we name t =
     then_do (try_as (AppIo \<circ> OsIo) (we_spawn_thread we name)) (\<lambda>_. spawn_task t)"

fun spawn_tasks :: "'t list \<Rightarrow> (('o, 't) boot, unit) wiring" where
  "spawn_tasks [] = done_with ()"
| "spawn_tasks (t # ts) = then_do (spawn_task t) (\<lambda>_. spawn_tasks ts)"

section \<open>The first three wirings\<close>

record ('c, 'p) app_handle =
  ah_bus :: "('c, 'p) bus"
  ah_journal :: "nat \<times> journal"

definition wire ::
  "('o, 'u, 'w, 'pf, 'd, 'lc, 'cc, 'sc) wire_env \<Rightarrow> ('c, 'p envelope) channel_ops \<Rightarrow> config \<Rightarrow> bool
   \<Rightarrow> (('o, task1) boot, ('c, 'p) app_handle) wiring" where
  "wire we chan cfg init_observability =
     then_do (start_observability we cfg init_observability) (\<lambda>_.
     then_do (open_journal we (file_journal_path (journal_cfg cfg))) (\<lambda>journal.
     then_do (try_as AppJournal (snapshot_open (we_open_db we (rocksdb_snapshot_path (journal_cfg cfg))))) (\<lambda>_.
     then_do (try_as AppBus (bus_new chan (bus_capacity (bus_cfg cfg)))) (\<lambda>bus.
     then_do (spawn_thread we ''rust-lmax-mev-consumer'' Consumer) (\<lambda>_.
     done_with \<lparr>ah_bus = bus, ah_journal = journal\<rparr>)))))"

text \<open>Provider, store and engine, the same lines in the three later wirings.\<close>

definition node_store_engine ::
  "('o, 'u, 'w, 'pf, 'd, 'lc, 'cc, 'sc) wire_env \<Rightarrow> config
   \<Rightarrow> ('s, ('w, pending_tx, 'pf) node_provider \<times> 'd snapshot \<times> 'w state_engine) wiring" where
  "node_store_engine we cfg =
     then_do (try_as AppNode (connect (we_http_url we) (we_on_http we) (node cfg))) (\<lambda>provider.
     then_do (try_as AppJournal (snapshot_open (we_open_db we (rocksdb_snapshot_path (journal_cfg cfg))))) (\<lambda>snap.
     done_with (provider, snap, state_engine_new provider (map pool_id_from (pools (state_cfg cfg))))))"

record ('c, 'w, 'pf, 'd) app_handle2 =
  w2_bus :: "('c, ingress_event) bus"
  w2_provider :: "('w, pending_tx, 'pf) node_provider"
  w2_snapshot :: "'d snapshot"
  w2_engine :: "'w state_engine"

definition wire_phase2 ::
  "('o, 'u, 'w, 'pf, 'd, 'lc, 'cc, 'sc) wire_env \<Rightarrow> ('c, ingress_event envelope) channel_ops \<Rightarrow> config \<Rightarrow> bool
   \<Rightarrow> (('o, 't) boot, ('c, 'w, 'pf, 'd) app_handle2) wiring" where
  "wire_phase2 we chan cfg init_observability =
     then_do (start_observability we cfg init_observability) (\<lambda>_.
     then_do (node_store_engine we cfg) (\<lambda>(provider, snap, engine).
     then_do (try_as AppBus (bus_new chan (bus_capacity (bus_cfg cfg)))) (\<lambda>bus.
     done_with \<lparr>w2_bus = bus, w2_provider = provider, w2_snapshot = snap, w2_engine = engine\<rparr>)))"

record ('c, 'b, 'w, 'pf, 'd) app_handle3 =
  w3_ingress_bus :: "('c, ingress_event) bus"
  w3_state_bus :: "('b, state_update_event) bus"
  w3_provider :: "('w, pending_tx, 'pf) node_provider"
  w3_snapshot :: "'d snapshot"
  w3_engine :: "'w state_engine"
  w3_ingress_journal :: "nat \<times> journal"
  w3_state_journal :: "nat \<times> journal"
  w3_watched :: "address list"

definition wire_phase3 ::
  "('o, 'u, 'w, 'pf, 'd, 'lc, 'cc, 'sc) wire_env \<Rightarrow> ('c, ingress_event envelope) channel_ops
   \<Rightarrow> ('b, state_update_event envelope) channel_ops \<Rightarrow> config \<Rightarrow> bool
   \<Rightarrow> (('o, task3) boot, ('c, 'b, 'w, 'pf, 'd) app_handle3) wiring" where
  "wire_phase3 we chan1 chan2 cfg init_observability =
     then_do (start_observability we cfg init_observability) (\<lambda>_.
     then_do (node_store_engine we cfg) (\<lambda>(provider, snap, engine).
     then_do (open_journal we (ingress_journal_path (journal_cfg cfg))) (\<lambda>ingress_journal.
     then_do (open_journal we (state_journal_path (journal_cfg cfg))) (\<lambda>state_journal.
     then_do (try_as AppBus (bus_new chan1 (bus_capacity (bus_cfg cfg)))) (\<lambda>ingress_bus.
     then_do (try_as AppBus (bus_new chan2 (bus_capacity (bus_cfg cfg)))) (\<lambda>state_bus.
     then_do (spawn_thread we ''rust-lmax-mev-ingress-consumer'' IngressConsumer) (\<lambda>_.
     then_do (spawn_thread we ''rust-lmax-mev-state-consumer'' StateConsumer) (\<lambda>_.
     then_do (spawn_task Producer3) (\<lambda>_.
     done_with \<lparr>w3_ingress_bus = ingress_bus, w3_state_bus = state_bus, w3_provider = provider,
       w3_snapshot = snap, w3_engine = engine, w3_ingress_journal = ingress_journal,
       w3_state_journal = state_journal, w3_watched = watched_addresses (ingress cfg)\<rparr>)))))))))"

section \<open>The full pipeline\<close>

datatype ('w, 'pf) mempool_source_object =
    GethWsMempool "('w, pending_tx, 'pf) node_provider" "address list"
  | ExternalMempool external_mempool_source

definition build_mempool_source_from_config ::
  "config \<Rightarrow> ('w, pending_tx, 'pf) node_provider \<Rightarrow> ('w, 'pf) mempool_source_object" where
  "build_mempool_source_from_config cfg provider =
     (case mempool_source (ingress cfg) of
        GethWs \<Rightarrow> GethWsMempool provider (watched_addresses (ingress cfg))
      | External \<Rightarrow> ExternalMempool (external_new (external_mempool_endpoint (ingress cfg))
                                              (external_mempool_api_key (ingress cfg))))"

text \<open>What the tasks of the pipeline are given.\<close>

record ('w, 'pf, 'd, 'lc, 'cc, 'sc) app_handle4 =
  w4_provider :: "('w, pending_tx, 'pf) node_provider"
  w4_snapshot :: "'d snapshot"
  w4_engine :: "'w state_engine"
  w4_opportunity :: opportunity_engine
  w4_risk :: risk_gate
  w4_simulator :: "sim_config \<times> 'lc simulator_state"
  w4_prefetch :: "(('w, 'cc, 'sc) fetcher_env \<times> state_fetcher_config) option"
  w4_tokens :: ingress_tokens
  w4_constructor :: bundle_constructor
  w4_capacity :: nat
  w4_ingress_journal :: "nat \<times> journal"
  w4_state_journal :: "nat \<times> journal"
  w4_mismatch_journal :: "nat \<times> journal"
  w4_submission_journal :: "nat \<times> journal"
  w4_kill_switch :: kill_switch
  w4_relay_sim :: "relay_object option"
  w4_bundle_relay :: "relay_object option"
  w4_gate :: submission_gate
  w4_mempool :: "('w, 'pf) mempool_source_object"

definition non_zero :: "nat \<Rightarrow> ('s, nat) wiring" where
  "non_zero n s = (if n = 0 then (None, s) else (Some (Inr n), s))"

definition allocated :: "bool \<Rightarrow> ('s, unit) wiring" where
  "allocated ok s = (if ok then Some (Inr ()) else None, s)"

definition prefetch_fetcher ::
  "('o, 'u, 'w, 'pf, 'd, 'lc, 'cc, 'sc) wire_env \<Rightarrow> config \<Rightarrow> ('w, pending_tx, 'pf) node_provider
   \<Rightarrow> (('w, 'cc, 'sc) fetcher_env \<times> state_fetcher_config) option" where
  "prefetch_fetcher we cfg provider =
     (if prefetch_enabled (simulator cfg)
      then Some (\<lparr>fe_backend = node_backend provider, fe_code = we_code_cache we,
                  fe_storage = we_storage_cache we\<rparr>, fetcher_defaults)
      else None)"

definition build_simulator ::
  "('o, 'u, 'w, 'pf, 'd, 'lc, 'cc, 'sc) wire_env \<Rightarrow> config \<Rightarrow> ('s, sim_config \<times> 'lc simulator_state) wiring" where
  "build_simulator we cfg =
     then_do (non_zero (prefetch_cache_capacity (simulator cfg))) (\<lambda>cache_capacity.
     then_do (try_as (AppIo \<circ> SimulatorIo) (with_cache (we_fixture_cache we) sim_defaults cache_capacity
       (freshness_window_blocks (simulator cfg)))) (\<lambda>sim.
     then_do (allocated (we_table_fits we cache_capacity)) (\<lambda>_. done_with sim)))"

definition build_constructor ::
  "(bundle_tx \<Rightarrow> signer_error + signed_tx_bytes) \<Rightarrow> ('s, bundle_constructor) wiring" where
  "build_constructor signer =
     then_do (try_as (AppIo \<circ> BundleIo) (fixed_fraction_new (fixed_bid_fraction_bps bundle_config_defaults))) (\<lambda>strategy.
     try_as (AppIo \<circ> BundleIo) (constructor_with_signer bundle_config_defaults strategy signer))"

definition build_relay ::
  "('o, 'u, 'w, 'pf, 'd, 'lc, 'cc, 'sc) wire_env
   \<Rightarrow> (url_parse \<Rightarrow> (string \<Rightarrow> bool) \<Rightarrow> bool \<Rightarrow> relay_config \<Rightarrow> app_error + relay_object option)
   \<Rightarrow> config \<Rightarrow> ('s, relay_object option) wiring" where
  "build_relay we build cfg = try_as id (build (we_relay_url we) (we_header_ok we) (we_client_ok we) (relay cfg))"

text \<open>\<open>tokio::sync::broadcast::channel\<close> panics, by its documentation, for a capacity of 0 and for one above
  \<open>usize::MAX / 2\<close>; it allocates its ring at once.  What the channels carry is not part of the wiring.\<close>

definition BROADCAST_MAX :: nat where "BROADCAST_MAX = (2 ^ 64 - 1) div 2"

definition broadcast_channel ::
  "('o, 'u, 'w, 'pf, 'd, 'lc, 'cc, 'sc) wire_env \<Rightarrow> nat \<Rightarrow> ('s, unit) wiring" where
  "broadcast_channel we capacity =
     allocated (0 < capacity \<and> capacity \<le> BROADCAST_MAX \<and> we_ring_fits we capacity)"

fun broadcast_channels ::
  "('o, 'u, 'w, 'pf, 'd, 'lc, 'cc, 'sc) wire_env \<Rightarrow> nat \<Rightarrow> nat \<Rightarrow> ('s, unit) wiring" where
  "broadcast_channels we capacity 0 = done_with ()"
| "broadcast_channels we capacity (Suc n) =
     then_do (broadcast_channel we capacity) (\<lambda>_. broadcast_channels we capacity n)"

text \<open>Everything before the first task is started.\<close>

definition prepare4 ::
  "('o, 'u, 'w, 'pf, 'd, 'lc, 'cc, 'sc) wire_env \<Rightarrow> config \<Rightarrow> bool
   \<Rightarrow> (bundle_tx \<Rightarrow> signer_error + signed_tx_bytes)
   \<Rightarrow> (('o, task4) boot, ('w, 'pf, 'd, 'lc, 'cc, 'sc) app_handle4) wiring" where
  "prepare4 we cfg init_observability signer =
     then_do (start_observability we cfg init_observability) (\<lambda>_.
     then_do (node_store_engine we cfg) (\<lambda>(provider, snap, engine).
     then_do (build_simulator we cfg) (\<lambda>sim.
     then_do (build_constructor signer) (\<lambda>constructor.
     then_do (open_journal we (ingress_journal_path (journal_cfg cfg))) (\<lambda>ingress_journal.
     then_do (open_journal we (state_journal_path (journal_cfg cfg))) (\<lambda>state_journal.
     then_do (broadcast_channels we (max (bus_capacity (bus_cfg cfg)) 8) 9) (\<lambda>_.
     then_do (open_journal we (mismatch_journal_path (journal_cfg cfg))) (\<lambda>mismatch_journal.
     then_do (open_journal we (submission_journal_path (journal_cfg cfg))) (\<lambda>submission_journal.
     then_do (build_relay we build_relay_sim_from_config cfg) (\<lambda>relay_sim.
     then_do (build_relay we build_bundle_relay_from_config cfg) (\<lambda>bundle_relay.
     done_with \<lparr>w4_provider = provider, w4_snapshot = snap, w4_engine = engine,
       w4_opportunity = opportunity_engine_new (tokens (ingress cfg)),
       w4_risk = risk_gate_new risk_defaults, w4_simulator = sim,
       w4_prefetch = prefetch_fetcher we cfg provider, w4_tokens = tokens (ingress cfg),
       w4_constructor = constructor, w4_capacity = max (bus_capacity (bus_cfg cfg)) 8,
       w4_ingress_journal = ingress_journal, w4_state_journal = state_journal,
       w4_mismatch_journal = mismatch_journal, w4_submission_journal = submission_journal,
       w4_kill_switch = kill_switch_new (execution_disabled (relay cfg)),
       w4_relay_sim = relay_sim, w4_bundle_relay = bundle_relay, w4_gate = gate_from_config cfg,
       w4_mempool = build_mempool_source_from_config cfg provider\<rparr>)))))))))))"

definition spawn_order4 :: "task4 list" where
  "spawn_order4 = [IngressJournal, StateDriver, StateJournal, OpportunityDriver, RiskDriver,
     SimulatorDriver, ExecutionDriver, ComparatorDriver, SubmissionDriver, Producer]"

definition wire_phase4 ::
  "('o, 'u, 'w, 'pf, 'd, 'lc, 'cc, 'sc) wire_env \<Rightarrow> config \<Rightarrow> bool
   \<Rightarrow> (bundle_tx \<Rightarrow> signer_error + signed_tx_bytes)
   \<Rightarrow> (('o, task4) boot, ('w, 'pf, 'd, 'lc, 'cc, 'sc) app_handle4) wiring" where
  "wire_phase4 we cfg init_observability signer =
     then_do (prepare4 we cfg init_observability signer) (\<lambda>h.
     then_do (spawn_tasks spawn_order4) (\<lambda>_. done_with h))"

section \<open>The binary\<close>

text \<open>The rest of what \<open>run\<close> uses: the file behind the path, parsed; the tokio runtime; the key service
  with the libraries of the signer; waiting for the signal; and how the shutdown went.\<close>

record ('sig, 'pk) run_env =
  re_url :: url_parser
  re_parsed :: "string \<Rightarrow> config_error + config"
  re_runtime :: "io_error + unit"
  re_kms :: aws_kms
  re_keccak :: "bytes \<Rightarrow> bytes"
  re_rlp :: rlp_ops
  re_curve :: "('sig, 'pk) ec_ops"
  re_ctrl_c :: "io_error + unit"

definition shutdown_result :: "('t, 'c, 'e) system \<Rightarrow> app_error + unit" where
  "shutdown_result s = (case sy_failed s of None \<Rightarrow> Inr () | Some msg \<Rightarrow> Inl (AppConsumerJoin msg))"

text \<open>The signer of the configuration; its audit records are not threaded through the pipeline.\<close>

definition signer_for ::
  "('sig, 'pk) run_env \<Rightarrow> relay_config \<Rightarrow> signer_error + (bundle_tx \<Rightarrow> signer_error + signed_tx_bytes)" where
  "signer_for re r =
     (case rc_key_backend r of
        Disabled \<Rightarrow> Inr disabled_sign_tx
      | HsmKms \<Rightarrow>
          bind_res (from_aws_kms (re_keccak re) (re_kms re) (audit_key_id r)
              \<lparr>sat_max_attempts_per_minute = max_attempts_per_minute (signing_audit_alert r),
               sat_max_failed_per_minute = max_failed_per_minute (signing_audit_alert r)\<rparr>) (\<lambda>sg.
            Inr (\<lambda>tx. fst (sign_tx (re_rlp re) (re_keccak re) (re_curve re) sg tx \<lparr>sl_audits = [], sl_counters = []\<rparr>))))"

definition run ::
  "('o, 'u, 'w, 'pf, 'd, 'lc, 'cc, 'sc) wire_env \<Rightarrow> ('sig, 'pk) run_env \<Rightarrow> (task4, chan4, 'e) system \<Rightarrow> string
   \<Rightarrow> (('o, task4) boot, unit) wiring" where
  "run we re final config_path =
     then_do (try_as AppConfig (load_config (re_url re) (re_parsed re config_path))) (\<lambda>cfg.
     then_do (try_as (AppIo \<circ> OsIo) (re_runtime re)) (\<lambda>_.
     then_do (try_as AppProductionSignerInit (signer_for re (relay cfg))) (\<lambda>signer.
     then_do (wire_phase4 we cfg True signer) (\<lambda>_.
     then_do (try_as (AppIo \<circ> OsIo) (re_ctrl_c re)) (\<lambda>_.
     try_as id (shutdown_result final))))))"

text \<open>The exit code; a panic ends the process with 101.\<close>

definition main_exit :: "string list \<Rightarrow> (string \<Rightarrow> (app_error + unit) option) \<Rightarrow> nat" where
  "main_exit args runs =
     (case tl args of
        [config_path] \<Rightarrow>
          (case runs config_path of
             Some (Inr _) \<Rightarrow> 0
           | Some (Inl _) \<Rightarrow> 1
           | None \<Rightarrow> 101)
      | _ \<Rightarrow> 2)"

section \<open>Steps that start nothing\<close>

text \<open>The faults that come from outside the program.\<close>

fun outside :: "app_error \<Rightarrow> bool" where
  "outside (AppObservability _) = True"
| "outside (AppNode _) = True"
| "outside (AppJournal _) = True"
| "outside (AppIo (RelayIo _)) = True"
| "outside _ = False"

text \<open>A quiet step starts no task, panics only for want of what it needs, and fails only from outside.\<close>

definition quiet :: "bool \<Rightarrow> (('o, 't) boot, 'a) wiring \<Rightarrow> bool" where
  "quiet fits m \<longleftrightarrow> (\<forall>s. bt_tasks (snd (m s)) = bt_tasks s \<and>
     (case fst (m s) of None \<Rightarrow> \<not> fits | Some (Inl e) \<Rightarrow> outside e | Some (Inr x) \<Rightarrow> True))"

lemma quiet_then_do:
  assumes "quiet fits m" "\<And>a. quiet fits (k a)"
  shows "quiet fits (then_do m k)"
  unfolding quiet_def
proof
  fix s
  obtain r s1 where m: "m s = (r, s1)" by (rule prod.exhaust)
  have t: "bt_tasks s1 = bt_tasks s" "case r of None \<Rightarrow> \<not> fits | Some (Inl e) \<Rightarrow> outside e | Some (Inr x) \<Rightarrow> True"
    using assms(1) m unfolding quiet_def by (metis snd_conv, metis fst_conv)
  show "bt_tasks (snd (then_do m k s)) = bt_tasks s \<and>
      (case fst (then_do m k s) of None \<Rightarrow> \<not> fits | Some (Inl e) \<Rightarrow> outside e | Some (Inr x) \<Rightarrow> True)"
  proof (cases "\<exists>a. r = Some (Inr a)")
    case True
    then obtain a where "r = Some (Inr a)" ..
    with assms(2)[of a] m t show ?thesis by (simp add: quiet_def then_do_def)
  qed (use m t in \<open>auto simp: then_do_def split: option.splits sum.splits\<close>)
qed

lemma quiet_done: "quiet fits (done_with x)"
  by (simp add: quiet_def done_with_def)

lemma quiet_try: "(\<And>e. r = Inl e \<Longrightarrow> outside (f e)) \<Longrightarrow> quiet fits (try_as f r)"
  by (cases r) (auto simp: quiet_def try_as_def)

lemma quiet_observability: "quiet fits (start_observability we cfg io)"
proof -
  have "case map_sum AppObservability id r of Inl e \<Rightarrow> outside e | Inr x \<Rightarrow> True" for r :: "observability_error + unit"
    by (cases r) auto
  then show ?thesis by (auto simp: quiet_def start_observability_def split: prod.split)
qed

lemma quiet_open_journal: "quiet fits (open_journal we path)"
proof -
  have "case map_sum AppJournal (Pair i) r of Inl e \<Rightarrow> outside e | Inr x \<Rightarrow> True" for r :: "journal_error + journal" and i :: nat
    by (cases r) auto
  then show ?thesis by (auto simp: quiet_def open_journal_def split: sum.split prod.split option.split)
qed

lemma quiet_relay: "build = build_relay_sim_from_config \<or> build = build_bundle_relay_from_config \<Longrightarrow> quiet fits (build_relay we build cfg)"
  unfolding build_relay_def
  by (rule quiet_try)
    (auto simp: build_relay_sim_from_config_def build_bundle_relay_from_config_def build_adapter_def Let_def lift_app_def
      bind_res_def split: list.splits relay_kind.splits sum.splits)

lemma quiet_node_store_engine: "quiet fits (node_store_engine we cfg)"
  unfolding node_store_engine_def by (intro quiet_then_do quiet_done quiet_try) auto

lemma quiet_constructor: "quiet fits (build_constructor signer)"
  by (simp add: build_constructor_def fixed_fraction_new_def constructor_with_signer_def bundle_config_defaults_def
    DEFAULT_FIXED_BID_FRACTION_BPS_def DEFAULT_VALIDITY_BLOCK_WINDOW_def quiet_def then_do_def try_as_def)

lemma sim_defaults_valid: "validate_cfg sim_defaults = Inr ()"
  by (simp add: validate_cfg_def sim_defaults_def DEFAULT_GAS_LIMIT_PER_SIM_def DEFAULT_EOA_INITIAL_BALANCE_WEI_def)

text \<open>What the wiring needs of the allocator and of tokio: the table of the fixture cache, and nine channels of
  the configured capacity.\<close>

definition room_for :: "('o, 'u, 'w, 'pf, 'd, 'lc, 'cc, 'sc) wire_env \<Rightarrow> config \<Rightarrow> bool" where
  "room_for we cfg \<longleftrightarrow> we_table_fits we (prefetch_cache_capacity (simulator cfg)) \<and>
     max (bus_capacity (bus_cfg cfg)) 8 \<le> BROADCAST_MAX \<and> we_ring_fits we (max (bus_capacity (bus_cfg cfg)) 8)"

lemma quiet_allocated: "(fits \<Longrightarrow> ok) \<Longrightarrow> quiet fits (allocated ok)"
  by (auto simp: quiet_def allocated_def)

lemma quiet_simulator:
  "prefetch_cache_capacity (simulator cfg) \<noteq> 0 \<Longrightarrow> quiet (room_for we cfg) (build_simulator we cfg)"
  by (simp add: build_simulator_def non_zero_def with_cache_def sim_defaults_valid quiet_def then_do_def try_as_def
      allocated_def done_with_def room_for_def)

lemma broadcast_channels_run:
  "broadcast_channels we cap n s =
     (if n = 0 \<or> 0 < cap \<and> cap \<le> BROADCAST_MAX \<and> we_ring_fits we cap then Some (Inr ()) else None, s)"
  by (induction n) (simp_all add: done_with_def then_do_def broadcast_channel_def allocated_def)

lemma quiet_channels: "quiet (room_for we cfg) (broadcast_channels we (max (bus_capacity (bus_cfg cfg)) 8) n)"
  by (auto simp: quiet_def broadcast_channels_run room_for_def)

lemma quiet_prepare4:
  assumes "prefetch_cache_capacity (simulator cfg) \<noteq> 0"
  shows "quiet (room_for we cfg) (prepare4 we cfg io signer)"
  unfolding prepare4_def
  by (intro quiet_then_do) (auto intro!: quiet_then_do quiet_done quiet_observability quiet_node_store_engine
    quiet_simulator[OF assms] quiet_constructor quiet_open_journal quiet_channels quiet_relay split: prod.split)

lemma spawn_tasks_run: "spawn_tasks ts s = (Some (Inr ()), s\<lparr>bt_tasks := bt_tasks s @ ts\<rparr>)"
  by (induction ts arbitrary: s) (simp_all add: done_with_def then_do_def spawn_task_def)

lemma loaded_config:
  assumes "load_config url parsed = Inr cfg"
  shows "config_ok url cfg" "prefetch_cache_capacity (simulator cfg) \<noteq> 0"
  using assms by (auto simp: load_config_def bind_res_Inr_iff validate_config_ok config_ok_def)

lemma then_do_Inr:
  "then_do m k s = (Some (Inr b), s') \<longleftrightarrow> (\<exists>a s1. m s = (Some (Inr a), s1) \<and> k a s1 = (Some (Inr b), s'))"
  by (auto simp: then_do_def split: prod.splits option.splits sum.splits)

lemma try_as_Inr: "try_as f r s = (Some (Inr x), s') \<longleftrightarrow> r = Inr x \<and> s' = s"
  by (cases r) (auto simp: try_as_def)

lemma done_with_Inr: "done_with x s = (Some (Inr y), s') \<longleftrightarrow> y = x \<and> s' = s"
  by (auto simp: done_with_def)

lemmas wiring_Inr = then_do_Inr try_as_Inr done_with_Inr

lemma load_any_capacity:
  assumes "load_config url parsed = Inr cfg" "0 < n"
  shows "load_config url (Inr (cfg\<lparr>bus_cfg := (bus_cfg cfg)\<lparr>bus_capacity := n\<rparr>\<rparr>)) =
    Inr (cfg\<lparr>bus_cfg := (bus_cfg cfg)\<lparr>bus_capacity := n\<rparr>\<rparr>)"
proof -
  have "config_ok url (cfg\<lparr>bus_cfg := (bus_cfg cfg)\<lparr>bus_capacity := n\<rparr>\<rparr>)"
    using loaded_config(1)[OF assms(1)] assms(2)
    by (simp add: config_ok_def live_send_safe_def signer_pairing_def checked_journal_paths_def Let_def)
  then show ?thesis by (simp add: load_config_def bind_res_def validate_config_ok[THEN iffD2])
qed

lemma allocated_Inr: "allocated ok s = (Some (Inr x), s') \<longleftrightarrow> ok \<and> s' = s"
  by (auto simp: allocated_def)

lemma prepared_room:
  assumes "prepare4 we cfg io signer s = (Some (Inr h), s')"
  shows "room_for we cfg"
  using assms
  by (auto simp: prepare4_def wiring_Inr build_simulator_def non_zero_def allocated_Inr broadcast_channels_run room_for_def
      split: if_splits)

lemma wire_phase4_cases:
  assumes "prefetch_cache_capacity (simulator cfg) \<noteq> 0"
  obtains s' where "wire_phase4 we cfg io signer s = (None, s')" "\<not> room_for we cfg" "bt_tasks s' = bt_tasks s"
  | e s' where "wire_phase4 we cfg io signer s = (Some (Inl e), s')" "outside e" "bt_tasks s' = bt_tasks s"
  | h s1 where "prepare4 we cfg io signer s = (Some (Inr h), s1)" "bt_tasks s1 = bt_tasks s" "room_for we cfg"
      "wire_phase4 we cfg io signer s = (Some (Inr h), s1\<lparr>bt_tasks := bt_tasks s1 @ spawn_order4\<rparr>)"
proof -
  obtain r s1 where p: "prepare4 we cfg io signer s = (r, s1)" by (rule prod.exhaust)
  then have q: "bt_tasks s1 = bt_tasks s"
      "case r of None \<Rightarrow> \<not> room_for we cfg | Some (Inl e) \<Rightarrow> outside e | Some (Inr x) \<Rightarrow> True"
    using quiet_prepare4[OF assms, of we io signer] unfolding quiet_def by (metis snd_conv, metis fst_conv)
  consider "r = None" | e where "r = Some (Inl e)" | h where "r = Some (Inr h)"
    by (metis option.exhaust sum.exhaust)
  then show thesis
  proof cases
    case (3 h)
    with p q prepared_room[OF p[unfolded 3]] show thesis
      by (intro that(3)[of h s1]) (simp_all add: wire_phase4_def then_do_def spawn_tasks_run done_with_def)
  qed (use p q in \<open>auto simp: wire_phase4_def then_do_def intro: that(1,2)\<close>)
qed

section \<open>What the wirings promise\<close>

text \<open>C13: The full wiring of a configuration that loaded can fail only for want of memory or for a reason from
  outside the program, with one exception.  It panics only when the allocator cannot provide the fixture cache
  or the channels of the configured capacities, or when the bus capacity is above \<open>usize::MAX / 2\<close>, for which
  the channel constructor panics; it returns an error only for a reason from outside (the logging start, the
  node's addresses, the files and the store, a relay's address or client).  In both cases no task has been
  started.  When it succeeds it has started exactly the ten tasks, once each, that the shutdown aborts and waits
  for.  The exception: validation bounds the bus capacity from below only, so the same configuration with any
  capacity above \<open>usize::MAX / 2\<close> loads as well, and its wiring never succeeds.\<close>

theorem wiring_fails_only_from_outside:
  assumes "load_config url parsed = Inr cfg"
  shows "(case wire_phase4 we cfg io signer s of (r, s') \<Rightarrow>
      (case r of
         None \<Rightarrow> \<not> room_for we cfg \<and> bt_tasks s' = bt_tasks s
       | Some (Inl e) \<Rightarrow> outside e \<and> bt_tasks s' = bt_tasks s
       | Some (Inr h) \<Rightarrow> room_for we cfg \<and> (\<exists>ts. bt_tasks s' = bt_tasks s @ ts \<and> distinct ts \<and>
           set ts = {t. Abort t \<in> set shutdown4} \<and> set ts = {t. AwaitTask t \<in> set shutdown4}))) \<and>
    (\<forall>n > BROADCAST_MAX. let big = cfg\<lparr>bus_cfg := (bus_cfg cfg)\<lparr>bus_capacity := n\<rparr>\<rparr> in
       load_config url (Inr big) = Inr big \<and> (\<forall>h s'. wire_phase4 we big io signer s \<noteq> (Some (Inr h), s')))"
proof (intro conjI allI impI)
  have sets: "distinct spawn_order4" "set spawn_order4 = {t. Abort t \<in> set shutdown4}"
    "set spawn_order4 = {t. AwaitTask t \<in> set shutdown4}"
    by (auto simp: spawn_order4_def shutdown4_def)
  show "case wire_phase4 we cfg io signer s of (r, s') \<Rightarrow>
      (case r of
         None \<Rightarrow> \<not> room_for we cfg \<and> bt_tasks s' = bt_tasks s
       | Some (Inl e) \<Rightarrow> outside e \<and> bt_tasks s' = bt_tasks s
       | Some (Inr h) \<Rightarrow> room_for we cfg \<and> (\<exists>ts. bt_tasks s' = bt_tasks s @ ts \<and> distinct ts \<and>
           set ts = {t. Abort t \<in> set shutdown4} \<and> set ts = {t. AwaitTask t \<in> set shutdown4}))"
  proof (cases rule: wire_phase4_cases[OF loaded_config(2)[OF assms], of we io signer s])
    case (3 h s1)
    with sets show ?thesis by (simp add: exI[of _ spawn_order4])
  qed simp_all
  fix n :: nat
  assume n: "BROADCAST_MAX < n"
  define big where "big = cfg\<lparr>bus_cfg := (bus_cfg cfg)\<lparr>bus_capacity := n\<rparr>\<rparr>"
  have "load_config url (Inr big) = Inr big" unfolding big_def by (rule load_any_capacity[OF assms]) (use n in simp)
  moreover have full: "\<not> room_for we big" using n by (simp add: room_for_def big_def)
  have "wire_phase4 we big io signer s \<noteq> (Some (Inr h), s')" for h s'
    by (cases rule: wire_phase4_cases[OF loaded_config(2)[OF calculation], of we io signer s]) (simp_all add: full)
  ultimately show "let big = cfg\<lparr>bus_cfg := (bus_cfg cfg)\<lparr>bus_capacity := n\<rparr>\<rparr> in
       load_config url (Inr big) = Inr big \<and> (\<forall>h s'. wire_phase4 we big io signer s \<noteq> (Some (Inr h), s'))"
    by (simp add: big_def[symmetric])
qed

lemma prepared:
  assumes "prepare4 we cfg io signer s = (Some (Inr h), s')"
  shows "connect (we_http_url we) (we_on_http we) (node cfg) = Inr (w4_provider h)"
    "w4_engine h = state_engine_new (w4_provider h) (map pool_id_from (pools (state_cfg cfg)))"
    "with_cache (we_fixture_cache we) sim_defaults (prefetch_cache_capacity (simulator cfg))
       (freshness_window_blocks (simulator cfg)) = Inr (w4_simulator h)"
    "w4_prefetch h = prefetch_fetcher we cfg (w4_provider h)"
    "bd_signer (w4_constructor h) = signer"
    "w4_capacity h = max (bus_capacity (bus_cfg cfg)) 8"
    "w4_opportunity h = opportunity_engine_new (tokens (ingress cfg))"
    "w4_kill_switch h = kill_switch_new (execution_disabled (relay cfg))"
    "build_adapter (we_relay_url we) (we_header_ok we) (we_client_ok we) (relay cfg) = Inr (w4_relay_sim h)"
    "w4_bundle_relay h = w4_relay_sim h" "w4_gate h = gate_from_config cfg"
  using assms
  by (auto simp: prepare4_def wiring_Inr node_store_engine_def build_simulator_def non_zero_def allocated_Inr build_constructor_def
    constructor_with_signer_def build_relay_def build_relay_sim_from_config_def build_bundle_relay_from_config_def
    split: if_splits)

lemma build_relay_state: "build_relay we build cfg s = (Some (Inr x), s') \<Longrightarrow> s' = s"
  by (simp add: build_relay_def try_as_Inr)

lemma prepared_journals:
  fixes s s' :: "('o, task4) boot"
  assumes "prepare4 we cfg io signer s = (Some (Inr h), s')"
  obtains b0 b1 b2 b3 :: "('o, task4) boot" where
    "open_journal we (ingress_journal_path (journal_cfg cfg)) b0 = (Some (Inr (w4_ingress_journal h)), b1)"
    "open_journal we (state_journal_path (journal_cfg cfg)) b1 = (Some (Inr (w4_state_journal h)), b2)"
    "open_journal we (mismatch_journal_path (journal_cfg cfg)) b2 = (Some (Inr (w4_mismatch_journal h)), b3)"
    "open_journal we (submission_journal_path (journal_cfg cfg)) b3 = (Some (Inr (w4_submission_journal h)), s')"
  using assms
  by (auto simp: prepare4_def wiring_Inr node_store_engine_def build_simulator_def allocated_Inr build_constructor_def
    broadcast_channels_run split: if_splits dest!: build_relay_state)

definition fresh_journal :: "os_file \<Rightarrow> journal" where
  "fresh_journal f = \<lparr>jn_writer = (f, []), jn_byte_offset = word_of_nat (length (f_data f)), jn_appended_total = 0,
     jn_bytes_written_total = 0, jn_read_total = 0, jn_corrupt_frames_total = 0\<rparr>"

lemma journal_open_fresh:
  assumes "journal_open (Inr f) = (Inr j, left)"
  shows "\<exists>f'. left = Some f' \<and> j = fresh_journal f' \<and> f_data f' \<noteq> [] \<and> (f_data f \<noteq> [] \<longrightarrow> f' = f)"
proof (cases "f_data f = []")
  case True
  have nonempty: "file_header \<noteq> []" by (metis length_file_header list.size(3) zero_neq_numeral)
  have "8 \<le> f_room f" using assms True
    by (auto simp: journal_open_def Let_def dest!: write_file_header_ok[THEN iffD1] split: prod.splits sum.splits)
  from open_fresh[OF True this] assms show ?thesis
    by (auto simp: fresh_journal_def True nonempty)
next
  case False
  with assms show ?thesis
    by (auto simp: journal_open_def Let_def fresh_journal_def split: sum.splits if_splits)
qed

lemma open_journal_fresh:
  assumes "open_journal we path s = (Some (Inr j), s')"
  obtains i where "we_locate we path = Inr i" "j = (i, fresh_journal (bt_files s' i))" "f_data (bt_files s' i) \<noteq> []"
    "\<And>k. f_data (bt_files s k) \<noteq> [] \<Longrightarrow> bt_files s' k = bt_files s k"
proof (cases "we_locate we path")
  case (Inr i)
  obtain r left where r: "journal_open (Inr (bt_files s i)) = (r, left)" by (rule prod.exhaust)
  then obtain j' where j: "r = Inr j'" "j = (i, j')" using assms Inr by (cases r) (auto simp: open_journal_def)
  from journal_open_fresh[OF r[unfolded j(1)]] show thesis
    using assms Inr r j by (intro that[of i]) (auto simp: open_journal_def split: if_splits)
qed (use assms in \<open>simp add: open_journal_def\<close>)

text \<open>Two open files on one file.  The journals open their files without the append mode, so bytes written
  through an open file go to its own position and replace what another one has put there.  \<open>flushed\<close> is
  what a journal has written since it was opened, and \<open>written_through\<close> what the file holds after that.\<close>

definition write_at :: "nat \<Rightarrow> bytes \<Rightarrow> bytes \<Rightarrow> bytes" where
  "write_at off d content = take off content @ d @ drop (off + length d) content"

definition flushed :: "journal \<Rightarrow> journal \<Rightarrow> bytes" where
  "flushed j j' = drop (length (f_data (fst (jn_writer j)))) (f_data (fst (jn_writer j')))"

definition written_through :: "journal \<Rightarrow> journal \<Rightarrow> bytes \<Rightarrow> bytes" where
  "written_through j j' content = write_at (length (f_data (fst (jn_writer j)))) (flushed j j') content"

text \<open>The same configuration with the submission journal put into the file of the mismatch journal.\<close>

definition sharing :: "config \<Rightarrow> config" where
  "sharing cfg = cfg\<lparr>journal_cfg :=
     (journal_cfg cfg)\<lparr>submission_journal_path := mismatch_journal_path (journal_cfg cfg)\<rparr>\<rparr>"

lemma sharing_loads:
  assumes "load_config url parsed = Inr cfg"
  shows "load_config url (Inr (sharing cfg)) = Inr (sharing cfg)"
proof -
  have "config_ok url (sharing cfg)"
    using loaded_config(1)[OF assms]
    by (simp add: sharing_def config_ok_def live_send_safe_def signer_pairing_def checked_journal_paths_def Let_def)
  then show ?thesis by (simp add: load_config_def bind_res_def validate_config_ok[THEN iffD2])
qed

lemma prepared_shared:
  assumes "prepare4 we (sharing cfg) io signer s = (Some (Inr h), s')"
  obtains i where "we_locate we (mismatch_journal_path (journal_cfg cfg)) = Inr i"
    "w4_mismatch_journal h = (i, fresh_journal (bt_files s' i))"
    "w4_submission_journal h = (i, fresh_journal (bt_files s' i))"
proof -
  have paths: "submission_journal_path (journal_cfg (sharing cfg)) = mismatch_journal_path (journal_cfg cfg)"
    "mismatch_journal_path (journal_cfg (sharing cfg)) = mismatch_journal_path (journal_cfg cfg)"
    by (simp_all add: sharing_def)
  obtain b2 b3 where o:
    "open_journal we (mismatch_journal_path (journal_cfg cfg)) b2 = (Some (Inr (w4_mismatch_journal h)), b3)"
    "open_journal we (mismatch_journal_path (journal_cfg cfg)) b3 = (Some (Inr (w4_submission_journal h)), s')"
    using assms by (rule prepared_journals) (simp add: paths)
  obtain i where i: "we_locate we (mismatch_journal_path (journal_cfg cfg)) = Inr i"
      "w4_mismatch_journal h = (i, fresh_journal (bt_files b3 i))" "f_data (bt_files b3 i) \<noteq> []"
    using o(1) by (rule open_journal_fresh)
  obtain k where k: "we_locate we (mismatch_journal_path (journal_cfg cfg)) = Inr k"
      "w4_submission_journal h = (k, fresh_journal (bt_files s' k))"
      "\<And>n. f_data (bt_files b3 n) \<noteq> [] \<Longrightarrow> bt_files s' n = bt_files b3 n"
    using o(2) by (rule open_journal_fresh) blast
  from i k show thesis by (intro that[of i]) auto
qed

text \<open>One record through a journal that has just been opened.\<close>

lemma flushed_record:
  assumes "append cd env (fresh_journal f) = (Inr pos, j1)" "journal_flush j1 = (Inr (), j2)"
  obtains p where "cd_to_bytes cd env = Inr p" "flushed (fresh_journal f) j2 = frame_of cd p"
    "jp_byte_offset pos = word_of_nat (length (f_data f))"
  using assms(1)
proof (rule append_ok)
  fix p
  assume p: "cd_to_bytes cd env = Inr p"
    "stream_of (jn_writer j1) = stream_of (jn_writer (fresh_journal f)) @ frame_of cd p"
    "pos = \<lparr>jp_sequence = env_sequence env, jp_byte_offset = jn_byte_offset (fresh_journal f)\<rparr>"
  show thesis
    by (rule that[OF p(1)]) (use flush_ok[OF assms(2)] p(2,3) in \<open>simp_all add: flushed_def fresh_journal_def stream_of_def\<close>)
qed

text \<open>C14: Two journals in one file.  Of any configuration that loads, the one that puts the submission journal into
  the file of the mismatch journal loads as well: validation does not compare the submission path.  When its
  wiring succeeds, the two drivers hold two open files on one and the same file, at the same position.  The
  first record either of them appends is reported at the same offset, and when the comparator's
  is flushed and then the submission driver's, what the file holds behind its previous content is the receipt,
  followed only by those bytes of the mismatch record that are longer than it: the mismatch record is lost.\<close>

theorem submission_journal_overwrites:
  assumes "load_config url parsed = Inr cfg"
    and "wire_phase4 we (sharing cfg) io signer s = (Some (Inr h), s')"
    and "w4_mismatch_journal h = (i, m)" "w4_submission_journal h = (k, r)"
    and "append cd mismatch m = (Inr at_m, m1)" "journal_flush m1 = (Inr (), m2)"
    and "append cd' receipt r = (Inr at_r, r1)" "journal_flush r1 = (Inr (), r2)"
  shows "load_config url (Inr (sharing cfg)) = Inr (sharing cfg) \<and> i = k \<and> jp_byte_offset at_r = jp_byte_offset at_m \<and>
    (\<exists>x y. cd_to_bytes cd mismatch = Inr x \<and> cd_to_bytes cd' receipt = Inr y \<and>
       written_through r r2 (written_through m m2 (f_data (bt_files s' i)))
         = f_data (bt_files s' i) @ frame_of cd' y @ drop (length (frame_of cd' y)) (frame_of cd x))"
proof -
  obtain s1 where "prepare4 we (sharing cfg) io signer s = (Some (Inr h), s1)" "bt_files s' = bt_files s1"
    using assms(2) by (auto simp: wire_phase4_def wiring_Inr spawn_tasks_run)
  then obtain n where n: "w4_mismatch_journal h = (n, fresh_journal (bt_files s' n))"
      "w4_submission_journal h = (n, fresh_journal (bt_files s' n))"
    by (metis prepared_shared)
  then have j: "i = n" "k = n" "m = fresh_journal (bt_files s' n)" "r = fresh_journal (bt_files s' n)"
    using assms(3,4) by simp_all
  obtain x where x: "cd_to_bytes cd mismatch = Inr x" "flushed m m2 = frame_of cd x"
      "jp_byte_offset at_m = word_of_nat (length (f_data (bt_files s' n)))"
    using assms(5)[unfolded j] assms(6) by (rule flushed_record) (simp add: j)
  obtain y where y: "cd_to_bytes cd' receipt = Inr y" "flushed r r2 = frame_of cd' y"
      "jp_byte_offset at_r = word_of_nat (length (f_data (bt_files s' n)))"
    using assms(7)[unfolded j] assms(8) by (rule flushed_record) (simp add: j)
  have open_at: "f_data (fst (jn_writer m)) = f_data (bt_files s' n)" "f_data (fst (jn_writer r)) = f_data (bt_files s' n)"
    by (simp_all add: j fresh_journal_def)
  have "written_through r r2 (written_through m m2 (f_data (bt_files s' n)))
         = f_data (bt_files s' n) @ frame_of cd' y @ drop (length (frame_of cd' y)) (frame_of cd x)"
    by (simp add: written_through_def write_at_def open_at x(2) y(2))
  with x y sharing_loads[OF assms(1)] j(1,2) show ?thesis by auto
qed

lemma classified: "map_sum classify id r \<noteq> Inl ArchiveNotConfigured"
proof (cases r)
  case (Inl e)
  then show ?thesis by (cases e) simp_all
qed simp

text \<open>A step that may fail in any way, but starts nothing.\<close>

definition idle :: "(('o, 't) boot, 'a) wiring \<Rightarrow> bool" where
  "idle m \<longleftrightarrow> (\<forall>s. bt_tasks (snd (m s)) = bt_tasks s \<and> fst (m s) \<noteq> None)"

lemma quiet_idle: "quiet True m \<Longrightarrow> idle m"
  unfolding quiet_def idle_def by (metis (no_types, lifting) option.simps(4))

lemma idle_steps:
  "quiet True m \<Longrightarrow> idle m" "idle (try_as f r)"
  using quiet_idle by (auto simp: idle_def try_as_def)

lemma after_idle:
  assumes "idle m" "bt_tasks s = ts" "\<And>e s'. bt_tasks s' = ts \<Longrightarrow> P (Some (Inl e)) s'"
    and "\<And>a s'. bt_tasks s' = ts \<Longrightarrow> case k a s' of (r, s') \<Rightarrow> P r s'"
  shows "case then_do m k s of (r, s') \<Rightarrow> P r s'"
proof -
  obtain r s' where m: "m s = (Some r, s')" "bt_tasks s' = ts" using assms(1,2) unfolding idle_def by (metis not_Some_eq prod.collapse)
  then show ?thesis using assms(3,4) by (cases r) (auto simp: then_do_def)
qed

lemmas idle_facts = idle_steps(2) idle_steps(1)[OF quiet_observability] idle_steps(1)[OF quiet_open_journal]
  idle_steps(1)[OF quiet_node_store_engine]

lemma spawn_thread_run:
  "spawn_thread we name t s = (case we_spawn_thread we name of
     Inl e \<Rightarrow> (Some (Inl (AppIo (OsIo e))), s) | Inr _ \<Rightarrow> (Some (Inr ()), s\<lparr>bt_tasks := bt_tasks s @ [t]\<rparr>))"
  by (auto simp: spawn_thread_def then_do_def try_as_def spawn_task_def split: sum.split)

text \<open>The three earlier wirings do not panic, memory for their channels taken for granted, and start their tasks last: the first its consumer
  thread, the second nothing, the third its two consumers and then the producer.  A failed wiring leaves
  nothing running, except that the third leaves the ingress consumer when the thread of the state
  consumer cannot be started.\<close>

theorem early_wirings_start_in_order:
  "(case wire we chan cfg io s1 of (r, s') \<Rightarrow>
      (\<exists>h. r = Some (Inr h)) \<and> bt_tasks s' = bt_tasks s1 @ [Consumer] \<or>
      (\<exists>e. r = Some (Inl e)) \<and> bt_tasks s' = bt_tasks s1) \<and>
   (case wire_phase2 we chan2 cfg io s2 of (r, s') \<Rightarrow> r \<noteq> None \<and> bt_tasks s' = bt_tasks s2) \<and>
   (case wire_phase3 we chan2 chan3 cfg io s3 of (r, s') \<Rightarrow>
      (\<exists>h. r = Some (Inr h)) \<and> bt_tasks s' = bt_tasks s3 @ [IngressConsumer, StateConsumer, Producer3] \<or>
      (\<exists>e. r = Some (Inl e)) \<and> (bt_tasks s' = bt_tasks s3 \<or>
        bt_tasks s' = bt_tasks s3 @ [IngressConsumer] \<and>
        (\<exists>e. we_spawn_thread we ''rust-lmax-mev-state-consumer'' = Inl e)))"
  (is "?one \<and> ?two \<and> ?three")
proof (intro conjI)
  show ?one
    unfolding wire_def
    by (rule after_idle, rule idle_facts, rule refl, simp, (rule after_idle, rule idle_facts, assumption, simp)+)
      (auto simp: then_do_def spawn_thread_run done_with_def split: sum.split)
  show ?two
    unfolding wire_phase2_def
    by (rule after_idle, rule idle_facts, rule refl, simp, rule after_idle, rule idle_facts, assumption, simp,
        simp only: split_paired_all prod.case, rule after_idle, rule idle_facts, assumption, simp)
      (simp add: done_with_def)
  show ?three
    unfolding wire_phase3_def
    by (rule after_idle, rule idle_facts, rule refl, simp, rule after_idle, rule idle_facts, assumption, simp,
        simp only: split_paired_all prod.case, (rule after_idle, rule idle_facts, assumption, simp)+)
      (auto simp: then_do_def spawn_thread_run done_with_def spawn_task_def split: sum.split)
qed

text \<open>What the tasks of a wired pipeline are given, for a configuration that loaded.  The comparator and the
  submission driver have the same adapter, and none exactly when no relay is configured; the gate is
  open exactly under \<open>live_send\<close>; the kill switch starts as configured; the fetcher is there exactly
  when prefetching is on, and then never answers that the archive is not configured; the channels hold
  at least eight events and as many as configured; pools and tokens are distinct; the candidates are
  signed by the given signer; and the simulator starts without a fixture.\<close>

theorem handle_as_configured:
  assumes "load_config url parsed = Inr cfg" "wire_phase4 we cfg io signer s = (Some (Inr h), s')"
  shows "w4_bundle_relay h = w4_relay_sim h \<and> (w4_relay_sim h = None) = (enabled_relays (relay cfg) = []) \<and>
    permits_submission (w4_gate h) = live_send (relay cfg) \<and>
    is_active (w4_kill_switch h) = execution_disabled (relay cfg) \<and>
    (case w4_prefetch h of
       None \<Rightarrow> \<not> prefetch_enabled (simulator cfg)
     | Some (fe, fc) \<Rightarrow> prefetch_enabled (simulator cfg) \<and>
         (\<forall>a bh i w. fst (ab_get_code (fe_backend fe) a bh w) \<noteq> Inl ArchiveNotConfigured \<and>
            fst (ab_get_storage_at (fe_backend fe) a i bh w) \<noteq> Inl ArchiveNotConfigured)) \<and>
    8 \<le> w4_capacity h \<and> bus_capacity (bus_cfg cfg) \<le> w4_capacity h \<and>
    se_pools (w4_engine h) \<noteq> [] \<and> distinct (map pid_address (se_pools (w4_engine h))) \<and>
    oe_weth (w4_opportunity h) \<noteq> oe_usdc (w4_opportunity h) \<and>
    bd_signer (w4_constructor h) = signer \<and> ls_active (snd (w4_simulator h)) = None"
proof -
  obtain s1 where p: "prepare4 we cfg io signer s = (Some (Inr h), s1)"
    using assms(2) by (auto simp: wire_phase4_def wiring_Inr spawn_tasks_run)
  note c = loaded_config(1)[OF assms(1), unfolded config_ok_def] and h = prepared[OF p]
  have relays: "(w4_relay_sim h = None) = (enabled_relays (relay cfg) = [])"
    using h(9) by (cases "w4_relay_sim h") (auto simp: build_adapter_def Let_def bind_res_Inr_iff split: list.splits relay_kind.splits)
  have gate: "permits_submission (w4_gate h) = live_send (relay cfg)"
    using c by (auto simp: h(11) gate_from_config_def permits_submission_def live_send_safe_def)
  have archive: "prefetch_enabled (simulator cfg) \<Longrightarrow> \<exists>q. archive_http (w4_provider h) = Some (alloy_http q)"
    using c h(1) by (cases "w4_provider h") (auto simp: connect_def bind_res_Inr_iff split: option.splits)
  have prefetch: "case w4_prefetch h of
       None \<Rightarrow> \<not> prefetch_enabled (simulator cfg)
     | Some (fe, fc) \<Rightarrow> prefetch_enabled (simulator cfg) \<and>
         (\<forall>a bh i w. fst (ab_get_code (fe_backend fe) a bh w) \<noteq> Inl ArchiveNotConfigured \<and>
            fst (ab_get_storage_at (fe_backend fe) a i bh w) \<noteq> Inl ArchiveNotConfigured)"
    using archive by (auto simp: h(4) prefetch_fetcher_def node_backend_def eth_get_code_def eth_get_storage_at_def
      alloy_http_def map_err_classify_def classified)
  have pools: "map pid_address (se_pools (w4_engine h)) = map pc_address (pools (state_cfg cfg))"
    by (simp add: h(2) state_engine_new_def state_engine_with_caller_def pool_id_from_def o_def)
  moreover have "se_pools (w4_engine h) \<noteq> []" using c pools by auto
  moreover have "ls_active (snd (w4_simulator h)) = None"
    using h(3) by (cases "w4_simulator h") (auto simp: with_cache_def bind_res_Inr_iff)
  moreover have "oe_weth (w4_opportunity h) \<noteq> oe_usdc (w4_opportunity h)" "is_active (w4_kill_switch h) = execution_disabled (relay cfg)"
    using c by (simp_all add: h(7,8) opportunity_engine_new_def is_active_def kill_switch_new_def)
  ultimately show ?thesis
    using relays gate prefetch c by (simp add: h(5,6,10))
qed

lemma key_service_only_in_production:
  assumes "load_config url parsed = Inr cfg" "active_profile cfg \<noteq> Production"
  shows "signer_for re (relay cfg) = Inr disabled_sign_tx"
proof -
  have "rc_key_backend (relay cfg) = Disabled"
    using loaded_config(1)[OF assms(1)] assms(2) by (cases "rc_key_backend (relay cfg)") (auto simp: config_ok_def signer_pairing_def)
  then show ?thesis by (simp add: signer_for_def)
qed

lemma then_do_simps:
  "m s = (Some (Inr a), s') \<Longrightarrow> then_do m k s = k a s'"
  "m s = (Some (Inl e), s') \<Longrightarrow> then_do m k s = (Some (Inl e), s')"
  by (simp_all add: then_do_def)

lemma try_as_simps [simp]: "try_as f (Inl e) s = (Some (Inl (f e)), s)" "try_as f (Inr x) s = (Some (Inr x), s)"
  by (simp_all add: try_as_def)

text \<open>The exit code of the binary tells what happened.  It is 2 exactly without a single argument.  With one,
  it is 0 when the ten tasks were started, the signal was awaited and the shutdown, which cannot fail,
  is through; it is 101, the code of a panic, only when the configuration loaded and there was no room for its
  caches and channels; it is 1 otherwise; and in the last two cases no task has been started unless waiting
  for the signal failed.  Outside the Production profile the key service is never asked.\<close>

theorem exit_code_exact:
  assumes "sys_steps topology4 (system_init shutdown4) final" "sy_todo final = []"
  shows "(main_exit (program # args) runs = 2) = (length args \<noteq> 1) \<and>
    (case run we re final path s of (r, s') \<Rightarrow>
       main_exit [program, path] (\<lambda>_. r) = (if r = Some (Inr ()) then 0 else if r = None then 101 else 1) \<and>
       (r = None \<longrightarrow> (\<exists>cfg. load_config (re_url re) (re_parsed re path) = Inr cfg \<and> \<not> room_for we cfg)) \<and>
       (r = Some (Inr ()) \<longrightarrow> bt_tasks s' = bt_tasks s @ spawn_order4 \<and> re_ctrl_c re = Inr ()) \<and>
       (r \<noteq> Some (Inr ()) \<longrightarrow> bt_tasks s' = bt_tasks s \<or> (\<exists>e. re_ctrl_c re = Inl e))) \<and>
    (\<forall>cfg client. load_config (re_url re) (re_parsed re path) = Inr cfg \<and> active_profile cfg \<noteq> Production \<longrightarrow>
       run we (re\<lparr>re_kms := client\<rparr>) final path s = run we re final path s)"
proof (intro conjI allI impI)
  have main: "main_exit (program # as) q = (case as of [x] \<Rightarrow> (case q x of Some (Inr _) \<Rightarrow> 0 | Some (Inl _) \<Rightarrow> 1 | None \<Rightarrow> 101) | _ \<Rightarrow> 2)" for as q
    by (simp add: main_exit_def)
  show "(main_exit (program # args) runs = 2) = (length args \<noteq> 1)"
    by (auto simp: main length_Suc_conv split: list.split option.split sum.split)
  have fine: "shutdown_result final = Inr ()" using ended4[OF assms(1)] assms(2) by (simp add: shutdown_result_def)
  show "case run we re final path s of (r, s') \<Rightarrow>
       main_exit [program, path] (\<lambda>_. r) = (if r = Some (Inr ()) then 0 else if r = None then 101 else 1) \<and>
       (r = None \<longrightarrow> (\<exists>cfg. load_config (re_url re) (re_parsed re path) = Inr cfg \<and> \<not> room_for we cfg)) \<and>
       (r = Some (Inr ()) \<longrightarrow> bt_tasks s' = bt_tasks s @ spawn_order4 \<and> re_ctrl_c re = Inr ()) \<and>
       (r \<noteq> Some (Inr ()) \<longrightarrow> bt_tasks s' = bt_tasks s \<or> (\<exists>e. re_ctrl_c re = Inl e))"
  proof (cases "load_config (re_url re) (re_parsed re path)")
    case (Inr cfg)
    show ?thesis
    proof (cases "re_runtime re")
      case rt: (Inr u)
      show ?thesis
      proof (cases "signer_for re (relay cfg)")
        case sg: (Inr signer)
        have run: "run we re final path s = then_do (wire_phase4 we cfg True signer) (\<lambda>_.
            then_do (try_as (AppIo \<circ> OsIo) (re_ctrl_c re)) (\<lambda>_. try_as id (Inr ()))) s"
          by (simp add: run_def Inr rt sg fine then_do_def)
        show ?thesis
          by (cases rule: wire_phase4_cases[OF loaded_config(2)[OF Inr], of we True signer s]; cases "re_ctrl_c re")
            (simp_all add: run then_do_def main Inr)
      qed (simp add: run_def Inr rt then_do_def main)
    qed (simp add: run_def Inr then_do_def main)
  qed (simp add: run_def then_do_def main)
  fix cfg client
  assume c: "load_config (re_url re) (re_parsed re path) = Inr cfg \<and> active_profile cfg \<noteq> Production"
  have "signer_for (re\<lparr>re_kms := client\<rparr>) (relay cfg) = signer_for re (relay cfg)"
    using c key_service_only_in_production by metis
  with c show "run we (re\<lparr>re_kms := client\<rparr>) final path s = run we re final path s"
    by (simp add: run_def then_do_def)
qed

section \<open>A pipeline that is wired\<close>

definition demo_wire_env :: "(unit, unit, unit, unit, unit, nat \<times> (fixture_key \<times> fixture_set) list,
    nat \<times> (code_key \<times> bytes) list, nat \<times> (storage_key \<times> b256) list) wire_env" where
  "demo_wire_env =
     \<lparr>we_obs = \<lparr>env_filter = (\<lambda>_. None), tracing_try_init = (\<lambda>_ w. (Inr (), w)), install_recorder = (\<lambda>_ w. (Inr (), w))\<rparr>,
      we_http_url = (\<lambda>_. Inr ()), we_on_http = (\<lambda>_.
        \<lparr>rp_call = (\<lambda>_ _ w. (Inl NullResp, w)), rp_get_transaction_by_hash = (\<lambda>_ w. (Inl NullResp, w)),
         rp_get_proof = (\<lambda>_ _ _ w. (Inl NullResp, w)), rp_get_storage_at = (\<lambda>_ _ _ w. (Inl NullResp, w)),
         rp_get_code_at = (\<lambda>_ _ w. (Inl NullResp, w))\<rparr>), we_open_db = (\<lambda>_. Inr ()),
      we_locate = (\<lambda>p. Inr (if p = ''d/b'' then 1 else if p = ''d/c'' then 2 else 3)),
      we_spawn_thread = (\<lambda>_. Inr ()), we_ring_fits = (\<lambda>n. n \<le> 1024),
      we_table_fits = (\<lambda>n. n \<le> 1024), we_relay_url = (\<lambda>s. Some \<lparr>url_text = s, url_host = Some ''localhost''\<rparr>),
      we_header_ok = (\<lambda>_. True), we_client_ok = True, we_fixture_cache = list_lru_ops,
      we_code_cache = list_cache, we_storage_cache = list_cache\<rparr>"

definition demo_boot :: "(unit, 't) boot" where
  "demo_boot = \<lparr>bt_process = \<lparr>init_guard = False, proc_world = ()\<rparr>, bt_files = (\<lambda>_. \<lparr>f_data = [], f_room = 1000\<rparr>), bt_tasks = []\<rparr>"

text \<open>The mismatch journal and the submission journal in one file: the configuration is accepted.\<close>

definition demo_shared_config :: config where
  "demo_shared_config = demo_config\<lparr>journal_cfg := (journal_cfg demo_config)\<lparr>mismatch_journal_path := ''d/f''\<rparr>\<rparr>"

lemma demo_shared_loads: "load_config demo_url (Inr demo_shared_config) = Inr demo_shared_config"
  by (simp add: load_config_def demo_shared_config_def validate_config_def demo_config_def trim_def is_ws_def Let_def validate_live_send_def
      default_relay_config_def is_localhost_endpoint_def demo_url_def default_simulator_config_def
      validate_journal_paths_def checked_journal_paths_def path_eq_def path_components_def)

lemma open_journal_ok:
  assumes "we_locate we path = Inr i" "f_data (bt_files s i) = []" "8 \<le> f_room (bt_files s i)"
  shows "\<exists>j s'. open_journal we path s = (Some (Inr j), s') \<and> f_data (bt_files s' i) = file_header \<and>
    f_room (bt_files s' i) = f_room (bt_files s i) - 8 \<and> (\<forall>k. k \<noteq> i \<longrightarrow> bt_files s' k = bt_files s k)"
  using open_fresh[OF assms(2,3)] assms(1) by (fastforce simp: open_journal_def)

lemma open_journal_again:
  assumes "we_locate we path = Inr i" "f_data (bt_files s i) = file_header"
  shows "\<exists>j. open_journal we path s = (Some (Inr j), s)"
proof -
  have "read_and_validate_file_header (file_header @ []) = Inr ()" using header_valid_iff by blast
  with assms show ?thesis by (auto simp: open_journal_def journal_open_def Let_def FILE_HEADER_LEN_def)
qed

lemma demo_wired:
  obtains h s' where "wire_phase4 demo_wire_env demo_shared_config True disabled_sign_tx demo_boot = (Some (Inr h), s')"
    "f_room (bt_files s' 3) = 992" "f_data (bt_files s' 3) = file_header"
proof -
  let ?we = demo_wire_env and ?c = demo_shared_config and ?f = "\<lparr>f_data = [], f_room = 1000\<rparr>"
  have "\<exists>b. start_observability ?we ?c True (demo_boot :: (unit, task4) boot) = (Some (Inr ()), b) \<and> bt_files b = (\<lambda>_. ?f)"
    by (simp add: start_observability_def obs_init_def demo_wire_env_def demo_boot_def)
  then obtain b :: "(unit, task4) boot" where b: "start_observability ?we ?c True demo_boot = (Some (Inr ()), b)"
    "\<And>k. bt_files b k = ?f" by auto
  obtain p sn en where nse: "\<And>t. node_store_engine ?we ?c t = (Some (Inr (p, sn, en)), t :: (unit, task4) boot)"
    by (simp add: node_store_engine_def then_do_def connect_def parse_http_url_def demo_wire_env_def demo_shared_config_def
      demo_config_def snapshot_open_def done_with_def)
  obtain sm where sim: "\<And>t. build_simulator ?we ?c t = (Some (Inr sm), t :: (unit, task4) boot)"
    by (simp add: build_simulator_def then_do_def non_zero_def with_cache_def sim_defaults_valid allocated_def done_with_def demo_wire_env_def
      demo_shared_config_def demo_config_def default_simulator_config_def)
  obtain bd where bd: "\<And>t. build_constructor disabled_sign_tx t = (Some (Inr bd), t :: (unit, task4) boot)"
    by (simp add: build_constructor_def fixed_fraction_new_def constructor_with_signer_def bundle_config_defaults_def
      DEFAULT_FIXED_BID_FRACTION_BPS_def DEFAULT_VALIDITY_BLOCK_WINDOW_def then_do_def)
  have at: "we_locate ?we ''d/b'' = Inr 1" "we_locate ?we ''d/c'' = Inr 2" "we_locate ?we ''d/f'' = Inr 3"
    by (simp_all add: demo_wire_env_def)
  obtain j1 b1 where j1: "open_journal ?we ''d/b'' b = (Some (Inr j1), b1)" "\<And>k. k \<noteq> 1 \<Longrightarrow> bt_files b1 k = ?f"
    using open_journal_ok[OF at(1), of b] by (auto simp: b(2))
  obtain j2 b2 where j2: "open_journal ?we ''d/c'' b1 = (Some (Inr j2), b2)" "\<And>k. k \<noteq> 1 \<Longrightarrow> k \<noteq> 2 \<Longrightarrow> bt_files b2 k = ?f"
    using open_journal_ok[OF at(2), of b1] by (auto simp: j1(2))
  obtain j3 b3 where j3: "open_journal ?we ''d/f'' b2 = (Some (Inr j3), b3)" "f_data (bt_files b3 3) = file_header"
      "f_room (bt_files b3 3) = 992"
    using open_journal_ok[OF at(3), of b2] by (auto simp: j2(2))
  obtain j4 where j4: "open_journal ?we ''d/f'' b3 = (Some (Inr j4), b3)"
    using open_journal_again[OF at(3) j3(2)] by blast
  have "\<exists>ro. build_adapter (we_relay_url ?we) (we_header_ok ?we) (we_client_ok ?we) (relay ?c) = Inr (Some ro)"
    by (simp add: build_adapter_def demo_wire_env_def demo_shared_config_def demo_config_def default_relay_config_def Let_def
      lift_app_def flashbots_new_def trim_def is_ws_def)
  then obtain ro where "build_adapter (we_relay_url ?we) (we_header_ok ?we) (we_client_ok ?we) (relay ?c) = Inr (Some ro)" ..
  then have ro: "build_relay ?we build_relay_sim_from_config ?c t = (Some (Inr (Some ro)), t)"
      "build_relay ?we build_bundle_relay_from_config ?c t = (Some (Inr (Some ro)), t)" for t :: "(unit, task4) boot"
    by (simp_all add: build_relay_def build_relay_sim_from_config_def build_bundle_relay_from_config_def)
  have paths: "ingress_journal_path (journal_cfg ?c) = ''d/b''" "state_journal_path (journal_cfg ?c) = ''d/c''"
    "mismatch_journal_path (journal_cfg ?c) = ''d/f''" "submission_journal_path (journal_cfg ?c) = ''d/f''"
    by (simp_all add: demo_shared_config_def demo_config_def)
  have ch: "broadcast_channels ?we (max (bus_capacity (bus_cfg ?c)) 8) 9 t = (Some (Inr ()), t)" for t :: "(unit, task4) boot"
    by (simp add: broadcast_channels_run demo_wire_env_def demo_shared_config_def demo_config_def BROADCAST_MAX_def)
  have "\<exists>h. prepare4 ?we ?c True disabled_sign_tx demo_boot = (Some (Inr h), b3)"
    by (cases j1; cases j2; cases j3; cases j4) (simp add: prepare4_def ch wiring_Inr paths b(1) nse sim bd j1(1) j2(1) j3(1) j4 ro)
  then obtain h where "prepare4 ?we ?c True disabled_sign_tx demo_boot = (Some (Inr h), b3)" ..
  then have "wire_phase4 ?we ?c True disabled_sign_tx demo_boot = (Some (Inr h), b3\<lparr>bt_tasks := bt_tasks b3 @ spawn_order4\<rparr>)"
    by (simp add: wire_phase4_def then_do_def spawn_tasks_run done_with_def)
  then show thesis by (rule that) (simp_all add: j3(2,3))
qed

lemma sharing_demo: "sharing demo_shared_config = demo_shared_config"
  by (simp add: sharing_def demo_shared_config_def demo_config_def)

lemma demo_receipt_record:
  assumes "f_room f = 992" "f_data f = file_header"
  obtains pos j1 j2 where "append smoke_codec demo_envelope (fresh_journal f) = (Inr pos, j1)" "journal_flush j1 = (Inr (), j2)"
proof -
  obtain p where p: "cd_to_bytes smoke_codec demo_envelope = Inr p" "length p = 121" "payload_fits p" by (rule demo_frame)
  have room: "length (stream_of (jn_writer (fresh_journal f))) = 8" "disk_size (jn_writer (fresh_journal f)) = 1000"
    using assms by (simp_all add: fresh_journal_def stream_of_def disk_size_def)
  have fits: "length (stream_of (jn_writer (fresh_journal f))) + length (frame_of smoke_codec p)
      \<le> disk_size (jn_writer (fresh_journal f))"
    unfolding room length_frame_of p(2) by simp
  from append_succeeds[OF p(1,3) this] obtain pos j1
    where a: "append smoke_codec demo_envelope (fresh_journal f) = (Inr pos, j1)" by blast
  then obtain q where q: "cd_to_bytes smoke_codec demo_envelope = Inr q"
    "stream_of (jn_writer j1) = stream_of (jn_writer (fresh_journal f)) @ frame_of smoke_codec q"
    "disk_size (jn_writer j1) = disk_size (jn_writer (fresh_journal f))" by (rule append_ok)
  have "q = p" using q(1) p(1) by simp
  with fits q(2,3) have "length (stream_of (jn_writer j1)) \<le> disk_size (jn_writer j1)" by simp
  then obtain j2 where "journal_flush j1 = (Inr (), j2)" using flush_succeeds by blast
  with a show thesis by (rule that)
qed

text \<open>Two records of equal length: behind the header the file holds the second alone.\<close>

theorem submission_journal_overwrites_witness:
  "\<exists>h s' m2 r2 y. load_config demo_url (Inr demo_shared_config) = Inr demo_shared_config \<and>
     wire_phase4 demo_wire_env demo_shared_config True disabled_sign_tx demo_boot = (Some (Inr h), s') \<and>
     fst (w4_mismatch_journal h) = fst (w4_submission_journal h) \<and>
     written_through (snd (w4_submission_journal h)) r2 (written_through (snd (w4_mismatch_journal h)) m2 file_header)
       = file_header @ frame_of smoke_codec y"
proof -
  obtain h s' where h: "wire_phase4 demo_wire_env demo_shared_config True disabled_sign_tx demo_boot = (Some (Inr h), s')"
    "f_room (bt_files s' 3) = 992" "f_data (bt_files s' 3) = file_header"
    by (rule demo_wired)
  obtain s1 where p: "prepare4 demo_wire_env (sharing demo_shared_config) True disabled_sign_tx demo_boot = (Some (Inr h), s1)"
    "bt_files s' = bt_files s1"
    using h(1) by (auto simp: sharing_demo wire_phase4_def wiring_Inr spawn_tasks_run)
  have j: "w4_mismatch_journal h = (3, fresh_journal (bt_files s' 3))" "w4_submission_journal h = (3, fresh_journal (bt_files s' 3))"
    using p(1) by (rule prepared_shared, simp add: p(2) demo_wire_env_def demo_shared_config_def)+
  obtain pos j1 j2 where r: "append smoke_codec demo_envelope (fresh_journal (bt_files s' 3)) = (Inr pos, j1)"
    "journal_flush j1 = (Inr (), j2)" using demo_receipt_record[OF h(2,3)] .
  have wired: "wire_phase4 demo_wire_env (sharing demo_shared_config) True disabled_sign_tx demo_boot = (Some (Inr h), s')"
    unfolding sharing_demo by (rule h(1))
  from submission_journal_overwrites[OF demo_shared_loads wired j r r] obtain x y where
    xy: "cd_to_bytes smoke_codec demo_envelope = Inr x" "cd_to_bytes smoke_codec demo_envelope = Inr y"
    "written_through (fresh_journal (bt_files s' 3)) j2 (written_through (fresh_journal (bt_files s' 3)) j2 (f_data (bt_files s' 3)))
       = f_data (bt_files s' 3) @ frame_of smoke_codec y @ drop (length (frame_of smoke_codec y)) (frame_of smoke_codec x)"
    by blast
  have "x = y" using xy(1,2) by simp
  with xy(3) have "written_through (snd (w4_submission_journal h)) j2 (written_through (snd (w4_mismatch_journal h)) j2 file_header)
       = file_header @ frame_of smoke_codec y"
    unfolding j snd_conv h(3) by simp
  moreover have "fst (w4_mismatch_journal h) = fst (w4_submission_journal h)" by (simp only: j fst_conv)
  ultimately show ?thesis using h(1) demo_shared_loads by blast
qed

theorem handle_as_configured_witness:
  "\<exists>h s'. wire_phase4 demo_wire_env demo_shared_config True disabled_sign_tx demo_boot = (Some (Inr h), s') \<and>
     permits_submission (w4_gate h) \<and> w4_relay_sim h \<noteq> None \<and> w4_prefetch h = None \<and> 8 \<le> w4_capacity h"
proof -
  obtain h s' where h: "wire_phase4 demo_wire_env demo_shared_config True disabled_sign_tx demo_boot = (Some (Inr h), s')"
    by (rule demo_wired)
  have "live_send (relay demo_shared_config)" "enabled_relays (relay demo_shared_config) \<noteq> []"
    "\<not> prefetch_enabled (simulator demo_shared_config)"
    by (simp_all add: demo_shared_config_def demo_config_def default_simulator_config_def)
  with handle_as_configured[OF demo_shared_loads h] h show ?thesis by (auto split: option.splits)
qed

theorem wiring_fails_only_from_outside_witness:
  "\<exists>h s'. wire_phase4 demo_wire_env demo_shared_config True disabled_sign_tx demo_boot = (Some (Inr h), s') \<and>
     distinct (bt_tasks s') \<and> set (bt_tasks s') = {t. AwaitTask t \<in> set shutdown4} \<and>
     (let big = demo_shared_config\<lparr>bus_cfg := (bus_cfg demo_shared_config)\<lparr>bus_capacity := 2 ^ 63\<rparr>\<rparr> in
        load_config demo_url (Inr big) = Inr big \<and>
        (\<forall>h s'. wire_phase4 demo_wire_env big True disabled_sign_tx demo_boot \<noteq> (Some (Inr h), s')))"
proof -
  obtain h s' where h: "wire_phase4 demo_wire_env demo_shared_config True disabled_sign_tx demo_boot = (Some (Inr h), s')"
    by (rule demo_wired)
  note w = wiring_fails_only_from_outside[OF demo_shared_loads, where we = demo_wire_env and io = True and signer = disabled_sign_tx and s = demo_boot]
  have "distinct (bt_tasks s') \<and> set (bt_tasks s') = {t. AwaitTask t \<in> set shutdown4}"
    using w[THEN conjunct1] h by (auto simp: demo_boot_def)
  moreover have "BROADCAST_MAX < 2 ^ 63" by (simp add: BROADCAST_MAX_def)
  ultimately show ?thesis using w[THEN conjunct2, rule_format, of "2 ^ 63"] h by blast
qed

theorem exit_code_exact_witness:
  "\<exists>final :: (task4, chan4, nat) system. \<forall>runs. sy_todo final = [] \<and> main_exit [''app''] runs = 2 \<and>
     (\<forall>we re path. main_exit [''app'', path] (\<lambda>_. fst (run we re final path (demo_boot :: (unit, task4) boot))) \<in> {0, 1, 101})"
proof -
  obtain final :: "(task4, chan4, nat) system" where f: "sys_steps topology4 (system_init shutdown4) final" "sy_todo final = []"
    using handle4.completes[OF rtranclp.rtrancl_refl] quiet_steps_sys by blast
  have "main_exit [''app'', path] (\<lambda>_. fst (run we re final path (demo_boot :: (unit, task4) boot))) \<in> {0, 1, 101}" for we re path
    using exit_code_exact[OF f, where program = "''app''" and args = "[]" and runs = "\<lambda>_. None" and we = we and re = re and path = path and s = demo_boot] by (auto split: prod.splits if_splits)
  moreover have "main_exit [''app''] runs = 2" for runs
    using exit_code_exact[OF f, where program = "''app''" and args = "[]" and runs = runs, THEN conjunct1] by simp
  ultimately show ?thesis using f(2) by blast
qed

end
