(* ===== verification/Archive.thy ===== *)
theory Archive
  imports App_Pipeline
begin

text \<open>
  What is written into the event journals (\<open>rkyv_compat.rs\<close> of the crates \<open>ingress\<close>, \<open>state\<close> and others,
  and the \<open>rkyv\<close> attributes of the event types): the fields whose types rkyv does not know are archived
  through adapters, hashes, addresses and 256-bit numbers as byte arrays.  rkyv itself serializes the
  archived form and stays a parameter.
\<close>

section \<open>Adapters\<close>

text \<open>\<open>serialize_with\<close> and \<open>deserialize_with\<close> of an adapter: a field comes back as it was; of the archived
  values exactly those of the right shape arise.\<close>

locale field_adapter =
  fixes ser :: "'a \<Rightarrow> 'b" and de :: "'b \<Rightarrow> 'a"
  assumes restores: "de (ser x) = x"
begin

lemma ser_inj: "inj ser"
  by (rule inj_on_inverseI) (rule restores)

end

locale canonical_adapter = field_adapter ser de for ser :: "'a \<Rightarrow> 'b" and de +
  fixes archived :: "'b \<Rightarrow> bool"
  assumes shape: "archived (ser x)" and canonical: "archived b \<Longrightarrow> ser (de b) = b"
begin

lemma archived_iff: "archived b \<longleftrightarrow> (\<exists>x. b = ser x)"
  using shape canonical by metis

lemma archived_iff1: "archived b \<longleftrightarrow> (\<exists>!x. ser x = b)"
  using archived_iff[of b] ser_inj by (auto simp: inj_def)

lemma list_adapter: "canonical_adapter (map ser) (map de) (list_all archived)"
proof
  show "map de (map ser xs) = xs" for xs by (induction xs) (simp_all add: restores)
  show "list_all archived (map ser xs)" for xs by (induction xs) (simp_all add: shape)
  show "map ser (map de bs) = bs" if "list_all archived bs" for bs using that by (induction bs) (simp_all add: canonical)
qed

lemma option_adapter: "canonical_adapter (map_option ser) (map_option de) (pred_option archived)"
proof
  show "map_option de (map_option ser x) = x" for x by (cases x) (simp_all add: restores)
  show "pred_option archived (map_option ser x)" for x by (cases x) (simp_all add: shape)
  show "map_option ser (map_option de b) = b" if "pred_option archived b" for b using that by (cases b) (simp_all add: canonical)
qed

end

definition b256_ser :: "b256 \<Rightarrow> bytes" where "b256_ser h = u256_to_be h"
definition b256_de :: "bytes \<Rightarrow> b256" where "b256_de b = u256_from_be b"
definition address_ser :: "address \<Rightarrow> bytes" where "address_ser a = address_to_be a"
definition address_de :: "bytes \<Rightarrow> address" where "address_de b = address_from_be b"
definition u256_ser :: "u256 \<Rightarrow> bytes" where "u256_ser v = u256_to_be v"
definition u256_de :: "bytes \<Rightarrow> u256" where "u256_de b = u256_from_be b"
definition bytes_ser :: "bytes \<Rightarrow> bytes" where "bytes_ser b = b"
definition bytes_de :: "bytes \<Rightarrow> bytes" where "bytes_de b = b"

text \<open>\<open>rkyv::with::Map\<close> on an option.\<close>

definition map_ser :: "('a \<Rightarrow> 'b) \<Rightarrow> 'a option \<Rightarrow> 'b option" where "map_ser f x = map_option f x"
definition map_de :: "('b \<Rightarrow> 'a) \<Rightarrow> 'b option \<Rightarrow> 'a option" where "map_de f x = map_option f x"

lemma be_to_be_length:
  "length b = 32 \<Longrightarrow> u256_to_be (u256_from_be b) = b" "length b = 20 \<Longrightarrow> address_to_be (address_from_be b) = b"
  using nat_to_be_be_to_nat[of b] be_to_nat_bound[of b]
  by (simp_all add: u256_to_be_def u256_from_be_def address_to_be_def address_from_be_def unsigned_of_nat take_bit_nat_eq_self)

interpretation b256_field: canonical_adapter b256_ser b256_de "\<lambda>b. length b = 32"
  by unfold_locales (simp_all add: b256_ser_def b256_de_def be_to_be_length)

interpretation address_field: canonical_adapter address_ser address_de "\<lambda>b. length b = 20"
  by unfold_locales (simp_all add: address_ser_def address_de_def be_to_be_length)

interpretation u256_field: canonical_adapter u256_ser u256_de "\<lambda>b. length b = 32"
  by unfold_locales (simp_all add: u256_ser_def u256_de_def be_to_be_length)

interpretation bytes_field: canonical_adapter bytes_ser bytes_de "\<lambda>b. True"
  by unfold_locales (simp_all add: bytes_ser_def bytes_de_def)

interpretation to_field: canonical_adapter "map_ser address_ser" "map_de address_de"
  "\<lambda>b. case b of None \<Rightarrow> True | Some a \<Rightarrow> length a = 20"
  by unfold_locales
    (auto simp: map_ser_def map_de_def option.map_comp o_def option.map_ident address_field.restores address_field.shape address_field.canonical
      split: option.splits)

lemmas fields_restore = b256_field.restores address_field.restores u256_field.restores bytes_field.restores to_field.restores
lemmas fields_shape = b256_field.shape address_field.shape u256_field.shape to_field.shape
lemmas fields_canonical = b256_field.canonical address_field.canonical u256_field.canonical bytes_field.canonical to_field.canonical

section \<open>The archived events\<close>

record archived_mempool_event =
  am_tx_hash :: bytes
  am_from :: bytes
  am_to :: "bytes option"
  am_value :: bytes
  am_input :: bytes
  am_gas_limit :: u64
  am_max_fee :: u128
  am_observed_at_ns :: u64

definition mempool_ser :: "mempool_event \<Rightarrow> archived_mempool_event" where
  "mempool_ser e =
     \<lparr>am_tx_hash = b256_ser (me_tx_hash e), am_from = address_ser (me_from e), am_to = map_ser address_ser (me_to e),
      am_value = u256_ser (me_value e), am_input = bytes_ser (me_input e), am_gas_limit = me_gas_limit e,
      am_max_fee = me_max_fee e, am_observed_at_ns = me_observed_at_ns e\<rparr>"

definition mempool_de :: "archived_mempool_event \<Rightarrow> mempool_event" where
  "mempool_de a =
     \<lparr>me_tx_hash = b256_de (am_tx_hash a), me_from = address_de (am_from a), me_to = map_de address_de (am_to a),
      me_value = u256_de (am_value a), me_input = bytes_de (am_input a), me_gas_limit = am_gas_limit a,
      me_max_fee = am_max_fee a, me_observed_at_ns = am_observed_at_ns a\<rparr>"

record archived_block_event =
  ab_block_number :: u64
  ab_block_hash :: bytes
  ab_parent_hash :: bytes
  ab_timestamp_ns :: u64

definition block_ser :: "block_event \<Rightarrow> archived_block_event" where
  "block_ser e =
     \<lparr>ab_block_number = be_block_number e, ab_block_hash = b256_ser (be_block_hash e),
      ab_parent_hash = b256_ser (be_parent_hash e), ab_timestamp_ns = be_timestamp_ns e\<rparr>"

definition block_de :: "archived_block_event \<Rightarrow> block_event" where
  "block_de a =
     \<lparr>be_block_number = ab_block_number a, be_block_hash = b256_de (ab_block_hash a),
      be_parent_hash = b256_de (ab_parent_hash a), be_timestamp_ns = ab_timestamp_ns a\<rparr>"

datatype archived_ingress_event = AMempool archived_mempool_event | ABlock archived_block_event

fun ingress_ser :: "ingress_event \<Rightarrow> archived_ingress_event" where
  "ingress_ser (Mempool e) = AMempool (mempool_ser e)"
| "ingress_ser (Block e) = ABlock (block_ser e)"

fun ingress_de :: "archived_ingress_event \<Rightarrow> ingress_event" where
  "ingress_de (AMempool a) = Mempool (mempool_de a)"
| "ingress_de (ABlock a) = Block (block_de a)"

fun ingress_archived :: "archived_ingress_event \<Rightarrow> bool" where
  "ingress_archived (AMempool a) \<longleftrightarrow> length (am_tx_hash a) = 32 \<and> length (am_from a) = 20 \<and>
     (case am_to a of None \<Rightarrow> True | Some t \<Rightarrow> length t = 20) \<and> length (am_value a) = 32"
| "ingress_archived (ABlock a) \<longleftrightarrow> length (ab_block_hash a) = 32 \<and> length (ab_parent_hash a) = 32"

record archived_pool_id =
  ap_kind :: pool_kind
  ap_address :: bytes

definition pool_id_ser :: "pool_id \<Rightarrow> archived_pool_id" where
  "pool_id_ser p = \<lparr>ap_kind = pid_kind p, ap_address = address_ser (pid_address p)\<rparr>"

definition pool_id_de :: "archived_pool_id \<Rightarrow> pool_id" where
  "pool_id_de a = \<lparr>pid_kind = ap_kind a, pid_address = address_de (ap_address a)\<rparr>"

datatype archived_pool_state = AUniV2 bytes bytes u32 | AUniV3 bytes u32 u128

fun pool_state_ser :: "pool_state \<Rightarrow> archived_pool_state" where
  "pool_state_ser (UniV2 r0 r1 ts) = AUniV2 (u256_ser r0) (u256_ser r1) ts"
| "pool_state_ser (UniV3 sp tk liq) = AUniV3 (u256_ser sp) tk liq"

fun pool_state_de :: "archived_pool_state \<Rightarrow> pool_state" where
  "pool_state_de (AUniV2 r0 r1 ts) = UniV2 (u256_de r0) (u256_de r1) ts"
| "pool_state_de (AUniV3 sp tk liq) = UniV3 (u256_de sp) tk liq"

record archived_state_update =
  as_block_number :: u64
  as_block_hash :: bytes
  as_pool :: archived_pool_id
  as_state :: archived_pool_state

definition state_update_ser :: "state_update_event \<Rightarrow> archived_state_update" where
  "state_update_ser e =
     \<lparr>as_block_number = su_block_number e, as_block_hash = b256_ser (su_block_hash e),
      as_pool = pool_id_ser (su_pool e), as_state = pool_state_ser (su_state e)\<rparr>"

definition state_update_de :: "archived_state_update \<Rightarrow> state_update_event" where
  "state_update_de a =
     \<lparr>su_block_number = as_block_number a, su_block_hash = b256_de (as_block_hash a),
      su_pool = pool_id_de (as_pool a), su_state = pool_state_de (as_state a)\<rparr>"

definition state_update_archived :: "archived_state_update \<Rightarrow> bool" where
  "state_update_archived a \<longleftrightarrow> length (as_block_hash a) = 32 \<and> length (ap_address (as_pool a)) = 20 \<and>
     (case as_state a of AUniV2 r0 r1 ts \<Rightarrow> length r0 = 32 \<and> length r1 = 32 | AUniV3 sp tk liq \<Rightarrow> length sp = 32)"

interpretation ingress_event: canonical_adapter ingress_ser ingress_de ingress_archived
proof
  show "ingress_de (ingress_ser x) = x" for x
    by (cases x) (simp_all add: mempool_ser_def mempool_de_def block_ser_def block_de_def fields_restore)
  show "ingress_archived (ingress_ser x)" for x
    by (cases x) (simp_all add: mempool_ser_def block_ser_def fields_shape)
  show "ingress_ser (ingress_de b) = b" if "ingress_archived b" for b
    using that by (cases b) (simp_all add: mempool_ser_def mempool_de_def block_ser_def block_de_def fields_canonical)
qed

interpretation state_update: canonical_adapter state_update_ser state_update_de state_update_archived
proof
  show "state_update_de (state_update_ser x) = x" for x
    by (cases "su_state x") (simp_all add: state_update_ser_def state_update_de_def pool_id_ser_def pool_id_de_def fields_restore)
  show "state_update_archived (state_update_ser x)" for x
    by (cases "su_state x") (simp_all add: state_update_ser_def state_update_archived_def pool_id_ser_def fields_shape)
  show "state_update_ser (state_update_de b) = b" if "state_update_archived b" for b
    using that by (cases "as_state b")
      (simp_all add: state_update_ser_def state_update_de_def state_update_archived_def pool_id_ser_def pool_id_de_def
        fields_canonical)
qed

section \<open>The codec of a journal\<close>

definition map_payload :: "('a \<Rightarrow> 'b) \<Rightarrow> 'a envelope \<Rightarrow> 'b envelope" where
  "map_payload f e =
     \<lparr>env_sequence = env_sequence e, env_timestamp_ns = env_timestamp_ns e, env_source = env_source e,
      env_chain_context = env_chain_context e, env_event_version = env_event_version e,
      env_correlation_id = env_correlation_id e, env_payload = f (env_payload e)\<rparr>"

text \<open>rkyv's codec of the archived form, between the adapters.\<close>

definition adapted_codec :: "('a \<Rightarrow> 'b) \<Rightarrow> ('b \<Rightarrow> 'a) \<Rightarrow> 'b codec \<Rightarrow> 'a codec" where
  "adapted_codec ser de cd =
     \<lparr>cd_to_bytes = (\<lambda>e. cd_to_bytes cd (map_payload ser e)),
      cd_from_bytes = (\<lambda>b. map_sum id (map_payload de) (cd_from_bytes cd b)), cd_crc = cd_crc cd\<rparr>"

lemma map_payload_restores: "(\<And>x. de (ser x) = x) \<Longrightarrow> map_payload de (map_payload ser e) = e"
  by (simp add: map_payload_def)

lemma adapted_frame_codec:
  assumes "frame_codec cd" "\<And>x. de (ser x) = x"
  shows "frame_codec (adapted_codec ser de cd)"
proof
  show "cd_from_bytes (adapted_codec ser de cd) p = Inr e" if "cd_to_bytes (adapted_codec ser de cd) e = Inr p" for e p
    using frame_codec.decode_encode[OF assms(1), of "map_payload ser e" p] that
    by (simp add: adapted_codec_def map_payload_restores assms(2))
  show "length p < 2 ^ 63" if "cd_to_bytes (adapted_codec ser de cd) e = Inr p" for e p
    using frame_codec.encode_length[OF assms(1)] that by (simp add: adapted_codec_def)
qed

section \<open>The event journals\<close>

lemma adapted_journal_reads_back:
  assumes "frame_codec cd" "\<And>x. de (ser x) = x" "f_data f = []" "\<forall>e \<in> set envs. envelope_ok e"
    and "list_all2 (\<lambda>e p. cd_to_bytes cd (map_payload ser e) = Inr p \<and> payload_fits p) envs ps"
    and "8 + length (frames_of cd ps) \<le> f_room f" "journal_open (Inr f) = (Inr j, g)" "stop = RxClosed \<or> stop = RxLagged n"
  shows "(let j2 = journal_drain_loop (adapted_codec ser de cd) (map Received envs @ stop # rs) j in
     fst (journal_drain (adapted_codec ser de cd) chunk
       (iter_all (Inr \<lparr>rd_rest = f_data (fst (jn_writer j2)), rd_fault = None\<rparr>) j2)) = map Inr envs)"
proof (rule drained_reads_back[OF adapted_frame_codec[OF assms(1,2)] assms(3,4) _ _ assms(7,8)])
  show "list_all2 (\<lambda>e p. cd_to_bytes (adapted_codec ser de cd) e = Inr p \<and> payload_fits p) envs ps"
    using assms(5) by (simp add: adapted_codec_def)
  have "frame_of (adapted_codec ser de cd) = frame_of cd" by (rule ext) (simp add: frame_of_def adapted_codec_def)
  then have "frames_of (adapted_codec ser de cd) = frames_of cd" by (intro ext) (simp add: frames_of_def)
  then show "8 + length (frames_of (adapted_codec ser de cd) ps) \<le> f_room f" using assms(6) by simp
qed

end
