(* ===== verification/App_Bus.thy ===== *)
theory App_Bus
  imports Archive
begin

text \<open>
  The ingress of the third wiring (\<open>producer_loop\<close> and \<open>consume_loop\<close> of \<open>crates/app/src/lib.rs\<close>): a task that
  publishes what the mempool stream yields on the bounded bus, and a thread that drains the bus into a
  journal.  The two run concurrently, and the shutdown of the handle ends them in order; a run is a
  sequence of steps of either, in any interleaving.  The stream and the clock are arguments: what the
  stream will yield, and what each reading returns.
\<close>

section \<open>A channel that closes\<close>

text \<open>What crossbeam documents of a channel whose receiver lives: a send fails only when the channel is
  full; a receive takes the first item if there is one, and otherwise blocks, or reports the
  disconnection once every sender is gone.\<close>

locale closing_channel = envelope_channel ops contents room
  for ops :: "('c, 'p envelope) channel_ops" and contents room +
  fixes hang_up :: "'c \<Rightarrow> 'c" and hung_up :: "'c \<Rightarrow> bool"
  assumes new_open: "\<not> hung_up (ch_bounded ops n)"
    and hang_up_closes: "hung_up (hang_up c) \<and> contents (hang_up c) = contents c \<and> room (hang_up c) = room c"
    and send_open: "\<not> hung_up c \<Longrightarrow> fst (ch_try_send ops c e) = (if length (contents c) < room c then SendOk else SendFull)"
    and send_keeps: "hung_up (snd (ch_try_send ops c e)) = hung_up c"
    and recv_first: "contents c = e # es \<Longrightarrow> fst (ch_try_recv ops c) = RecvItem e"
    and recv_none: "contents c = [] \<Longrightarrow> fst (ch_try_recv ops c) = (if hung_up c then RecvDisconnected else RecvEmpty)"
    and recv_keeps: "hung_up (snd (ch_try_recv ops c)) = hung_up c"

interpretation qcl: closing_channel queue_channel_ops qc_items qc_cap "\<lambda>c. c\<lparr>qc_gone := True\<rparr>" qc_gone
  by unfold_locales (auto simp: queue_channel_ops_def split: list.splits)

section \<open>The task, the thread and the handle\<close>

record 'c bus_pipeline =
  bp_items :: "(ingress_error + mempool_event) list"
  bp_tick :: nat
  bp_task :: bool
  bp_handle :: bool
  bp_sys :: "('c, ingress_event) bus_sys"
  bp_journal :: journal
  bp_consumer :: bool

definition ingress_meta :: publish_meta where
  "ingress_meta = \<lparr>source = Ingress, chain_ctx = no_block, event_version = 1, correlation_id = 0\<rparr>"

text \<open>One iteration of the producer: errors of the stream and of the bus are logged.\<close>

definition bus_producer_item ::
  "('c, ingress_event envelope) channel_ops \<Rightarrow> nat option \<Rightarrow> ingress_error + mempool_event
   \<Rightarrow> ('c, ingress_event) bus_sys \<Rightarrow> ('c, ingress_event) bus_sys" where
  "bus_producer_item ops clock item s =
     (case item of
        Inr ev \<Rightarrow> note_publish (publish ops clock (Mempool ev) ingress_meta (sys_bus s)) s
      | Inl e \<Rightarrow> s)"

text \<open>One iteration of the consumer: an envelope is appended, an append that fails is logged; a closed bus
  ends the thread after a flush; on an empty bus it waits.\<close>

definition consumer_turn ::
  "('c, ingress_event envelope) channel_ops \<Rightarrow> ingress_event codec \<Rightarrow> 'c bus_pipeline \<Rightarrow> 'c bus_pipeline" where
  "consumer_turn ops cd s =
     (case bus_recv ops (sys_bus (bp_sys s)) of
        (Some (Inr env), b) \<Rightarrow>
          s\<lparr>bp_sys := (bp_sys s)\<lparr>sys_bus := b, sys_received := sys_received (bp_sys s) @ [env]\<rparr>,
            bp_journal := drain_step cd env (bp_journal s)\<rparr>
      | (Some (Inl e), b) \<Rightarrow>
          s\<lparr>bp_sys := (bp_sys s)\<lparr>sys_bus := b\<rparr>, bp_journal := snd (journal_flush (bp_journal s)), bp_consumer := False\<rparr>
      | (None, b) \<Rightarrow> s\<lparr>bp_sys := (bp_sys s)\<lparr>sys_bus := b\<rparr>\<rparr>)"

text \<open>The steps.  The task publishes, wakes up inside a blocking send, or ends, because the stream is
  exhausted or because it was aborted where it awaits, so never inside the send.  The handle gives up
  its sender only after it has awaited the task.\<close>

inductive pipeline_step ::
  "('c, ingress_event envelope) channel_ops \<Rightarrow> ('c \<Rightarrow> 'c) \<Rightarrow> ingress_event codec \<Rightarrow> clock
   \<Rightarrow> 'c bus_pipeline \<Rightarrow> 'c bus_pipeline \<Rightarrow> bool"
  for ops hang_up cd clk where
  produce: "bp_task s \<Longrightarrow> bb_blocked (sys_bus (bp_sys s)) = None \<Longrightarrow> bp_items s = item # rest \<Longrightarrow>
    pipeline_step ops hang_up cd clk s
      (s\<lparr>bp_items := rest, bp_tick := Suc (bp_tick s),
         bp_sys := bus_producer_item ops (clk (bp_tick s)) item (bp_sys s)\<rparr>)"
| resume: "bb_blocked (sys_bus (bp_sys s)) \<noteq> None \<Longrightarrow>
    pipeline_step ops hang_up cd clk s
      (s\<lparr>bp_sys := note_publish (publish_resume ops (sys_bus (bp_sys s))) (bp_sys s)\<rparr>)"
| task_ends: "bp_task s \<Longrightarrow> bb_blocked (sys_bus (bp_sys s)) = None \<Longrightarrow>
    pipeline_step ops hang_up cd clk s (s\<lparr>bp_task := False\<rparr>)"
| handle_drops: "\<not> bp_task s \<Longrightarrow> bp_handle s \<Longrightarrow>
    pipeline_step ops hang_up cd clk s
      (s\<lparr>bp_handle := False,
         bp_sys := (bp_sys s)\<lparr>sys_bus := (sys_bus (bp_sys s))\<lparr>bb_chan := hang_up (bb_chan (sys_bus (bp_sys s)))\<rparr>\<rparr>\<rparr>)"
| consume: "bp_consumer s \<Longrightarrow> pipeline_step ops hang_up cd clk s (consumer_turn ops cd s)"

definition pipeline_init ::
  "(ingress_error + mempool_event) list \<Rightarrow> ('c, ingress_event) bus \<Rightarrow> journal \<Rightarrow> 'c bus_pipeline" where
  "pipeline_init items b j =
     \<lparr>bp_items = items, bp_tick = 0, bp_task = True, bp_handle = True, bp_sys = bus_init b, bp_journal = j,
      bp_consumer = True\<rparr>"

section \<open>What the stream said and what is on the way\<close>

definition good_events :: "('e + 'a) list \<Rightarrow> 'a list" where
  "good_events items = concat (map (case_sum (\<lambda>_. []) (\<lambda>ev. [ev])) items)"

lemma good_events_simps [simp]:
  "good_events [] = []" "good_events (xs @ ys) = good_events xs @ good_events ys"
  "good_events [Inl e] = []" "good_events [Inr ev] = [ev]"
  by (simp_all add: good_events_def)

lemma good_events_length: "length (good_events items) \<le> length items"
  by (induction items) (auto simp: good_events_def split: sum.splits)

definition announces :: "mempool_event \<Rightarrow> ingress_event envelope \<Rightarrow> bool" where
  "announces ev env \<longleftrightarrow> env_payload env = Mempool ev \<and> env_source env = Ingress \<and> env_chain_context env = no_block
     \<and> env_event_version env = 1 \<and> env_correlation_id env = 0"

text \<open>Received, queued, and held by a blocked publisher.\<close>

definition pending :: "('c \<Rightarrow> 'p envelope list) \<Rightarrow> ('c, 'p) bus_sys \<Rightarrow> 'p envelope list" where
  "pending contents s = bus_history contents s @ (case bb_blocked (sys_bus s) of None \<Rightarrow> [] | Some e \<Rightarrow> [e])"

lemma ingress_meta_seals:
  "ts \<noteq> 0 \<Longrightarrow> \<exists>env. seal ingress_meta (Mempool ev) sq ts = Inr env \<and> announces ev env"
  by (simp add: seal_def check_envelope_invariants_def ingress_meta_def no_block_def announces_def)

context closing_channel
begin

lemma publish_pending:
  assumes "\<not> hung_up (bb_chan (sys_bus s))" "bb_blocked (sys_bus s) = None" "now_ns clock = Inr ts"
    and "bb_next_sequence (sys_bus s) \<noteq> u64_max" "seal meta p (bb_next_sequence (sys_bus s)) ts = Inr env"
  shows "pending contents (note_publish (publish ops clock p meta (sys_bus s)) s) = pending contents s @ [env]"
proof (cases "ch_try_send ops (bb_chan (sys_bus s)) env")
  case (Pair r c)
  with send_open[OF assms(1), of env] have "r = SendOk \<or> r = SendFull" by (auto split: if_splits)
  then show ?thesis
    using try_send_ok[of "bb_chan (sys_bus s)" env c] try_send_fail[OF Pair] Pair assms
    by (auto simp: publish_def publish_commit_def note_publish_def pending_def bus_history_def Let_def)
qed

lemma publish_hung_up:
  "hung_up (bb_chan (sys_bus (note_publish (publish ops clock p meta (sys_bus s)) s))) = hung_up (bb_chan (sys_bus s))"
  "hung_up (bb_chan (sys_bus (note_publish (publish_resume ops (sys_bus s)) s))) = hung_up (bb_chan (sys_bus s))"
  using send_keeps[of "bb_chan (sys_bus s)"]
  by (auto simp: publish_def publish_resume_def publish_commit_def note_publish_def Let_def
      split: sum.splits if_splits prod.splits send_reply.splits option.splits) (metis snd_conv)+

lemma resume_pending:
  assumes "\<not> hung_up (bb_chan (sys_bus s))"
  shows "pending contents (note_publish (publish_resume ops (sys_bus s)) s) = pending contents s"
proof (cases "bb_blocked (sys_bus s)")
  case (Some env)
  obtain r c where send: "ch_try_send ops (bb_chan (sys_bus s)) env = (r, c)" by fastforce
  with send_open[OF assms, of env] have "r = SendOk \<or> r = SendFull" by (auto split: if_splits)
  then show ?thesis
    using try_send_ok[of "bb_chan (sys_bus s)" env c] try_send_fail[OF send] send Some
    by (auto simp: publish_resume_def publish_commit_def note_publish_def pending_def bus_history_def)
qed (simp add: publish_resume_def note_publish_def pending_def)

lemma resume_goes_through:
  assumes "\<not> hung_up (bb_chan (sys_bus s))" "length (contents (bb_chan (sys_bus s))) < room (bb_chan (sys_bus s))"
  shows "bb_blocked (sys_bus (note_publish (publish_resume ops (sys_bus s)) s)) = None"
proof (cases "bb_blocked (sys_bus s)")
  case (Some env)
  with send_open[OF assms(1), of env] assms(2) show ?thesis
    by (cases "ch_try_send ops (bb_chan (sys_bus s)) env") (simp add: publish_resume_def publish_commit_def note_publish_def)
qed (simp add: publish_resume_def note_publish_def)

lemma recv_pending:
  "pending contents (bus_step ops Recv s) = pending contents s"
  "hung_up (bb_chan (sys_bus (bus_step ops Recv s))) = hung_up (bb_chan (sys_bus s))"
  "bb_blocked (sys_bus (bus_step ops Recv s)) = bb_blocked (sys_bus s)"
proof -
  obtain r c where recv: "ch_try_recv ops (bb_chan (sys_bus s)) = (r, c)" by fastforce
  note laws = try_recv_item[of "bb_chan (sys_bus s)"] try_recv_none[of "bb_chan (sys_bus s)"]
  show "pending contents (bus_step ops Recv s) = pending contents s"
    using recv laws by (cases r) (auto simp: bus_recv_def pending_def bus_history_def)
  show "hung_up (bb_chan (sys_bus (bus_step ops Recv s))) = hung_up (bb_chan (sys_bus s))"
    "bb_blocked (sys_bus (bus_step ops Recv s)) = bb_blocked (sys_bus s)"
    using recv recv_keeps[of "bb_chan (sys_bus s)"] by (cases r; simp add: bus_recv_def)+
qed

end

lemma consumer_turn_sys: "bp_sys (consumer_turn ops cd s) = bus_step ops Recv (bp_sys s)"
  by (auto simp: consumer_turn_def split: option.splits sum.splits prod.splits)

lemma consumer_turn_keeps:
  "bp_items (consumer_turn ops cd s) = bp_items s" "bp_task (consumer_turn ops cd s) = bp_task s"
  "bp_handle (consumer_turn ops cd s) = bp_handle s"
  by (auto simp: consumer_turn_def split: option.splits sum.splits prod.splits)

lemma consume_loop_received:
  "consume_loop cd (map Inr xs @ rs) j = consume_loop cd rs (fold (drain_step cd) xs j)"
  by (induction xs arbitrary: j) (simp_all add: drain_step_def)

definition pipe_inv ::
  "('c \<Rightarrow> ingress_event envelope list) \<Rightarrow> ('c \<Rightarrow> nat) \<Rightarrow> ('c \<Rightarrow> bool) \<Rightarrow> ingress_event codec
   \<Rightarrow> (ingress_error + mempool_event) list \<Rightarrow> journal \<Rightarrow> 'c bus_pipeline \<Rightarrow> bool" where
  "pipe_inv contents room hung_up cd items j0 s \<longleftrightarrow>
     (let sys = bp_sys s; b = sys_bus sys in
        bus_inv contents room sys \<and> 0 < bb_capacity b
        \<and> hung_up (bb_chan b) = (\<not> bp_handle s) \<and> (bp_task s \<longrightarrow> bp_handle s) \<and> (\<not> bp_task s \<longrightarrow> bb_blocked b = None)
        \<and> (\<not> bp_consumer s \<longrightarrow> \<not> bp_handle s \<and> contents (bb_chan b) = [])
        \<and> bp_journal s = consume_loop cd (map Inr (sys_received sys) @ (if bp_consumer s then [] else [Inl Closed])) j0
        \<and> (\<exists>pre. items = pre @ bp_items s \<and> list_all2 announces (good_events pre) (pending contents sys)))"

lemma pipe_invD:
  assumes "pipe_inv contents room hung_up cd items j0 s"
  shows "bus_inv contents room (bp_sys s)" "0 < bb_capacity (sys_bus (bp_sys s))"
    "hung_up (bb_chan (sys_bus (bp_sys s))) = (\<not> bp_handle s)" "bp_task s \<Longrightarrow> bp_handle s"
    "\<not> bp_task s \<Longrightarrow> bb_blocked (sys_bus (bp_sys s)) = None"
    "\<not> bp_consumer s \<Longrightarrow> \<not> bp_handle s \<and> contents (bb_chan (sys_bus (bp_sys s))) = []"
    "bp_journal s = consume_loop cd (map Inr (sys_received (bp_sys s)) @ (if bp_consumer s then [] else [Inl Closed])) j0"
    "\<exists>pre. items = pre @ bp_items s \<and> list_all2 announces (good_events pre) (pending contents (bp_sys s))"
  using assms by (simp_all add: pipe_inv_def Let_def)

text \<open>The channel of the ingress bus.\<close>

locale ingress_channel = closing_channel ops contents room hang_up hung_up
  for ops :: "('c, ingress_event envelope) channel_ops" and contents room hang_up hung_up
begin

lemma init_pipe:
  assumes "bus_new ops cap = Inr b"
  shows "pipe_inv contents room hung_up cd items j0 (pipeline_init items b j0)"
  using assms init_inv[OF assms] bounded_new[of cap] new_open[of cap]
  by (auto simp: pipe_inv_def pipeline_init_def bus_init_def pending_def bus_history_def bus_new_def split: if_splits)

lemma step_capacity: "bb_capacity (sys_bus (bus_step ops a s)) = bb_capacity (sys_bus s)"
  using run_capacity[of "[a]" s] by (simp add: bus_run_def)

lemma next_in_range:
  assumes "pipe_inv contents room hung_up cd items j0 s" "length items < 2 ^ 64" "bp_items s \<noteq> []"
  shows "bb_next_sequence (sys_bus (bp_sys s)) \<noteq> u64_max"
proof -
  let ?n = "length (bus_history contents (bp_sys s))"
  obtain pre where pre: "items = pre @ bp_items s" "list_all2 announces (good_events pre) (pending contents (bp_sys s))"
    using pipe_invD(8)[OF assms(1)] by blast
  have "?n \<le> length pre"
    using list_all2_lengthD[OF pre(2)] good_events_length[of pre] by (simp add: pending_def split: option.splits)
  then have lt: "?n < 2 ^ 64 - 1" using assms(2,3) pre(1) by (cases "bp_items s") auto
  show ?thesis
  proof
    assume "bb_next_sequence (sys_bus (bp_sys s)) = u64_max"
    then have "unat (word_of_nat ?n :: u64) = unat u64_max" using bus_invD(2)[OF pipe_invD(1)[OF assms(1)]] by simp
    then show False using lt by (simp add: unsigned_of_nat take_bit_nat_eq_self unat_max_word)
  qed
qed

lemma produced_pipe:
  assumes inv: "pipe_inv contents room hung_up cd items j0 s" and small: "length items < 2 ^ 64"
    and clock: "now_ns (clk (bp_tick s)) = Inr ts"
    and step: "bp_task s" "bb_blocked (sys_bus (bp_sys s)) = None" "bp_items s = item # rest"
  shows "pipe_inv contents room hung_up cd items j0
    (s\<lparr>bp_items := rest, bp_tick := Suc (bp_tick s), bp_sys := bus_producer_item ops (clk (bp_tick s)) item (bp_sys s)\<rparr>)"
proof -
  note i = pipe_invD[OF inv]
  obtain pre where pre: "items = pre @ bp_items s" "list_all2 announces (good_events pre) (pending contents (bp_sys s))"
    using i(8) by blast
  show ?thesis
  proof (cases item)
    case (Inl e)
    have "items = (pre @ [Inl e]) @ rest \<and> list_all2 announces (good_events (pre @ [Inl e])) (pending contents (bp_sys s))"
      using pre step(3) Inl by simp
    then show ?thesis using i(1-7) step unfolding pipe_inv_def Let_def Inl bus_producer_item_def by simp blast
  next
    case (Inr ev)
    let ?s = "note_publish (publish ops (clk (bp_tick s)) (Mempool ev) ingress_meta (sys_bus (bp_sys s))) (bp_sys s)"
    have st: "bus_step ops (Publish (clk (bp_tick s)) (Mempool ev) ingress_meta) (bp_sys s) = ?s" using step(2) by simp
    obtain env where env: "seal ingress_meta (Mempool ev) (bb_next_sequence (sys_bus (bp_sys s))) ts = Inr env" "announces ev env"
      using ingress_meta_seals now_ns_Inr[OF clock] by blast
    have pend: "pending contents ?s = pending contents (bp_sys s) @ [env]"
      by (rule publish_pending) (use i(3,4) step clock env next_in_range[OF inv small] in auto)
    have "items = (pre @ [Inr ev]) @ rest \<and> list_all2 announces (good_events (pre @ [Inr ev])) (pending contents ?s)"
      unfolding pend using pre step(3) Inr env(2) by (simp add: list_all2_appendI)
    moreover have "sys_received ?s = sys_received (bp_sys s)"
      by (auto simp: note_publish_def split: prod.splits publish_outcome.splits sum.splits)
    moreover have "bp_consumer s" using i(4,6) step(1) by blast
    ultimately show ?thesis
      using i(1-7) step step_inv[OF i(1), of "Publish (clk (bp_tick s)) (Mempool ev) ingress_meta"]
        step_capacity[of "Publish (clk (bp_tick s)) (Mempool ev) ingress_meta" "bp_sys s"]
      unfolding pipe_inv_def Let_def Inr bus_producer_item_def st by (simp add: publish_hung_up)
  qed
qed

lemma resumed_pipe:
  assumes inv: "pipe_inv contents room hung_up cd items j0 s" and blocked: "bb_blocked (sys_bus (bp_sys s)) \<noteq> None"
  shows "pipe_inv contents room hung_up cd items j0
    (s\<lparr>bp_sys := note_publish (publish_resume ops (sys_bus (bp_sys s))) (bp_sys s)\<rparr>)"
proof -
  note i = pipe_invD[OF inv]
  have on: "bp_task s" "bp_handle s" "bp_consumer s" using i(4,5,6) blocked by blast+
  have st: "bus_step ops Resume (bp_sys s) = note_publish (publish_resume ops (sys_bus (bp_sys s))) (bp_sys s)" by simp
  have "sys_received (note_publish (publish_resume ops (sys_bus (bp_sys s))) (bp_sys s)) = sys_received (bp_sys s)"
    by (auto simp: note_publish_def split: prod.splits publish_outcome.splits sum.splits)
  then show ?thesis
    using i on step_inv[OF i(1), of Resume] step_capacity[of Resume "bp_sys s"]
    unfolding pipe_inv_def Let_def st by (simp add: publish_hung_up resume_pending)
qed

lemma turn_cases:
  assumes "bp_consumer s"
  shows "contents (bb_chan (sys_bus (bp_sys s))) = e # es \<Longrightarrow>
      consumer_turn ops cd s = s\<lparr>bp_sys := bus_step ops Recv (bp_sys s), bp_journal := drain_step cd e (bp_journal s)\<rparr> \<and>
      sys_received (bus_step ops Recv (bp_sys s)) = sys_received (bp_sys s) @ [e] \<and>
      contents (bb_chan (sys_bus (bus_step ops Recv (bp_sys s)))) = es"
    "contents (bb_chan (sys_bus (bp_sys s))) = [] \<Longrightarrow>
      consumer_turn ops cd s = (if hung_up (bb_chan (sys_bus (bp_sys s)))
        then s\<lparr>bp_sys := bus_step ops Recv (bp_sys s), bp_journal := snd (journal_flush (bp_journal s)), bp_consumer := False\<rparr>
        else s\<lparr>bp_sys := bus_step ops Recv (bp_sys s)\<rparr>) \<and>
      sys_received (bus_step ops Recv (bp_sys s)) = sys_received (bp_sys s) \<and>
      contents (bb_chan (sys_bus (bus_step ops Recv (bp_sys s)))) = []"
proof -
  obtain r c where recv: "ch_try_recv ops (bb_chan (sys_bus (bp_sys s))) = (r, c)" by fastforce
  {
    assume "contents (bb_chan (sys_bus (bp_sys s))) = e # es"
    moreover with recv_first[of "bb_chan (sys_bus (bp_sys s))" e es] recv have "r = RecvItem e" by simp
    ultimately show "consumer_turn ops cd s =
        s\<lparr>bp_sys := bus_step ops Recv (bp_sys s), bp_journal := drain_step cd e (bp_journal s)\<rparr> \<and>
      sys_received (bus_step ops Recv (bp_sys s)) = sys_received (bp_sys s) @ [e] \<and>
      contents (bb_chan (sys_bus (bus_step ops Recv (bp_sys s)))) = es"
      using recv try_recv_item[of "bb_chan (sys_bus (bp_sys s))" e c] by (simp add: consumer_turn_def bus_recv_def)
  next
    assume "contents (bb_chan (sys_bus (bp_sys s))) = []"
    moreover with recv_none[of "bb_chan (sys_bus (bp_sys s))"] recv
    have "r = (if hung_up (bb_chan (sys_bus (bp_sys s))) then RecvDisconnected else RecvEmpty)" by simp
    ultimately show "consumer_turn ops cd s = (if hung_up (bb_chan (sys_bus (bp_sys s)))
        then s\<lparr>bp_sys := bus_step ops Recv (bp_sys s), bp_journal := snd (journal_flush (bp_journal s)), bp_consumer := False\<rparr>
        else s\<lparr>bp_sys := bus_step ops Recv (bp_sys s)\<rparr>) \<and>
      sys_received (bus_step ops Recv (bp_sys s)) = sys_received (bp_sys s) \<and>
      contents (bb_chan (sys_bus (bus_step ops Recv (bp_sys s)))) = []"
      using recv try_recv_none[of "bb_chan (sys_bus (bp_sys s))" c] by (simp add: consumer_turn_def bus_recv_def)
  }
qed

lemma turned_pipe:
  assumes inv: "pipe_inv contents room hung_up cd items j0 s" and run: "bp_consumer s"
  shows "pipe_inv contents room hung_up cd items j0 (consumer_turn ops cd s)"
proof -
  note i = pipe_invD[OF inv]
  note kept = step_inv[OF i(1), of Recv] step_capacity[of Recv "bp_sys s"] recv_pending[of "bp_sys s"]
  have j: "bp_journal s = fold (drain_step cd) (sys_received (bp_sys s)) j0"
    using i(7) run consume_loop_received[of cd "sys_received (bp_sys s)" "[]"] by simp
  show ?thesis
  proof (cases "contents (bb_chan (sys_bus (bp_sys s)))")
    case Nil
    note t = turn_cases(2)[OF run Nil, of cd]
    show ?thesis
      using t i(2-6,8) run kept consume_loop_received[of cd "sys_received (bp_sys s)" "[Inl Closed]" j0]
        consume_loop_received[of cd "sys_received (bp_sys s)" "[]" j0] j
      unfolding pipe_inv_def Let_def by (auto simp del: bus_step.simps)
  next
    case (Cons e es)
    note t = turn_cases(1)[OF run Cons, of cd]
    have "consume_loop cd (map Inr (sys_received (bp_sys s) @ [e])) j0 = drain_step cd e (bp_journal s)"
      using consume_loop_received[of cd "sys_received (bp_sys s) @ [e]" "[]"] j by simp
    then show ?thesis
      using t i(2-6,8) run kept unfolding pipe_inv_def Let_def by (auto simp del: bus_step.simps)
  qed
qed

lemma pipe_ends:
  assumes inv: "pipe_inv contents room hung_up cd items j0 s"
  shows "bb_blocked (sys_bus (bp_sys s)) = None \<Longrightarrow> pipe_inv contents room hung_up cd items j0 (s\<lparr>bp_task := False\<rparr>)"
    and "\<not> bp_task s \<Longrightarrow> pipe_inv contents room hung_up cd items j0 (s\<lparr>bp_handle := False,
      bp_sys := (bp_sys s)\<lparr>sys_bus := (sys_bus (bp_sys s))\<lparr>bb_chan := hang_up (bb_chan (sys_bus (bp_sys s)))\<rparr>\<rparr>\<rparr>)"
proof -
  note i = pipe_invD[OF inv]
  show "pipe_inv contents room hung_up cd items j0 (s\<lparr>bp_task := False\<rparr>)" if "bb_blocked (sys_bus (bp_sys s)) = None"
    using i that unfolding pipe_inv_def Let_def by simp
  assume off: "\<not> bp_task s"
  let ?c = "hang_up (bb_chan (sys_bus (bp_sys s)))"
  have "bus_inv contents room ((bp_sys s)\<lparr>sys_bus := (sys_bus (bp_sys s))\<lparr>bb_chan := ?c\<rparr>\<rparr>)"
    using i(5) off hang_up_closes by (intro bus_inv_cong[OF i(1)]) auto
  then show "pipe_inv contents room hung_up cd items j0 (s\<lparr>bp_handle := False,
      bp_sys := (bp_sys s)\<lparr>sys_bus := (sys_bus (bp_sys s))\<lparr>bb_chan := ?c\<rparr>\<rparr>\<rparr>)"
    using i off hang_up_closes[of "bb_chan (sys_bus (bp_sys s))"]
    unfolding pipe_inv_def Let_def by (simp add: pending_def bus_history_def)
qed

lemma step_pipe:
  assumes "pipeline_step ops hang_up cd clk s s'" "pipe_inv contents room hung_up cd items j0 s"
    and "length items < 2 ^ 64" "\<And>t. \<exists>ts. now_ns (clk t) = Inr ts"
  shows "pipe_inv contents room hung_up cd items j0 s'"
  using assms(1)
proof cases
  case (produce item rest)
  obtain ts where "now_ns (clk (bp_tick s)) = Inr ts" using assms(4) by blast
  from produced_pipe[where clk = clk, OF assms(2,3) this produce(2-4)] show ?thesis by (simp only: produce(1))
next
  case resume
  from resumed_pipe[OF assms(2) resume(2)] show ?thesis by (simp only: resume(1))
next
  case task_ends
  from pipe_ends(1)[OF assms(2) task_ends(3)] show ?thesis by (simp only: task_ends(1))
next
  case handle_drops
  from pipe_ends(2)[OF assms(2) handle_drops(2)] show ?thesis by (simp only: handle_drops(1))
next
  case consume
  from turned_pipe[OF assms(2) consume(2)] show ?thesis by (simp only: consume(1))
qed

lemma steps_pipe:
  assumes "(pipeline_step ops hang_up cd clk)\<^sup>*\<^sup>* s s'" "pipe_inv contents room hung_up cd items j0 s"
    and "length items < 2 ^ 64" "\<And>t. \<exists>ts. now_ns (clk t) = Inr ts"
  shows "pipe_inv contents room hung_up cd items j0 s'"
  using assms(1,2) by (induction rule: rtranclp_induct) (auto intro: step_pipe[OF _ _ assms(3,4)])

lemma unblocks:
  assumes "pipe_inv contents room hung_up cd items j0 s"
  shows "\<exists>s'. (pipeline_step ops hang_up cd clk)\<^sup>*\<^sup>* s s' \<and> pipe_inv contents room hung_up cd items j0 s' \<and>
    bb_blocked (sys_bus (bp_sys s')) = None \<and> bp_items s' = bp_items s \<and> bp_consumer s' = bp_consumer s"
proof (cases "bb_blocked (sys_bus (bp_sys s))")
  case None
  then show ?thesis using assms by blast
next
  case (Some env)
  have woken: "\<exists>s'. pipeline_step ops hang_up cd clk t s' \<and> pipe_inv contents room hung_up cd items j0 s' \<and>
      bb_blocked (sys_bus (bp_sys s')) = None \<and> bp_items s' = bp_items t \<and> bp_consumer s' = bp_consumer t"
    if t: "pipe_inv contents room hung_up cd items j0 t" "bb_blocked (sys_bus (bp_sys t)) \<noteq> None"
      "length (contents (bb_chan (sys_bus (bp_sys t)))) < room (bb_chan (sys_bus (bp_sys t)))" for t
  proof -
    have "\<not> hung_up (bb_chan (sys_bus (bp_sys t)))" using pipe_invD(3,4,5)[OF t(1)] t(2) by blast
    from resume_goes_through[OF this t(3)] resumed_pipe[OF t(1,2)] pipeline_step.resume[OF t(2)]
    show ?thesis by fastforce
  qed
  note i = pipe_invD[OF assms]
  show ?thesis
  proof (cases "contents (bb_chan (sys_bus (bp_sys s)))")
    case Nil
    then have "length (contents (bb_chan (sys_bus (bp_sys s)))) < room (bb_chan (sys_bus (bp_sys s)))"
      using i(2) bus_invD(9)[OF i(1)] by simp
    with woken[OF assms] Some show ?thesis by blast
  next
    case (Cons e es)
    have run: "bp_consumer s" using i(4,5,6) Some by (metis option.distinct(1))
    let ?t = "consumer_turn ops cd s"
    note c = turn_cases(1)[OF run Cons, of cd]
    have t: "pipe_inv contents room hung_up cd items j0 ?t" by (rule turned_pipe[OF assms run])
    have blk: "bb_blocked (sys_bus (bp_sys ?t)) \<noteq> None" using c Some recv_pending(3) by (simp del: bus_step.simps)
    have "length (contents (bb_chan (sys_bus (bp_sys ?t)))) < room (bb_chan (sys_bus (bp_sys ?t)))"
      using c Cons bus_invD(8,9)[OF i(1)] bus_invD(9)[OF pipe_invD(1)[OF t]] step_capacity[of Recv "bp_sys s"]
      by (simp add: consumer_turn_sys del: bus_step.simps)
    from woken[OF t blk this] obtain s' where s': "pipeline_step ops hang_up cd clk ?t s'"
      "pipe_inv contents room hung_up cd items j0 s'" "bb_blocked (sys_bus (bp_sys s')) = None"
      "bp_items s' = bp_items ?t" "bp_consumer s' = bp_consumer ?t" by blast
    have "bp_consumer ?t" using c run by simp
    moreover have "(pipeline_step ops hang_up cd clk)\<^sup>*\<^sup>* s s'"
      using pipeline_step.consume[of s ops hang_up cd clk, OF run] s'(1) by (meson converse_rtranclp_into_rtranclp r_into_rtranclp)
    ultimately show ?thesis using s'(2-5) run consumer_turn_keeps(1)[of ops cd s] by auto
  qed
qed

lemma drains:
  assumes "pipe_inv contents room hung_up cd items j0 s" "bp_consumer s" "\<not> bp_handle s"
  shows "\<exists>s'. (pipeline_step ops hang_up cd clk)\<^sup>*\<^sup>* s s' \<and> \<not> bp_consumer s' \<and> bp_items s' = bp_items s"
  using assms
proof (induction "contents (bb_chan (sys_bus (bp_sys s)))" arbitrary: s)
  case Nil
  have "hung_up (bb_chan (sys_bus (bp_sys s)))" using pipe_invD(3)[OF Nil.prems(1)] Nil.prems(3) by simp
  then have "\<not> bp_consumer (consumer_turn ops cd s)" using turn_cases(2)[OF Nil.prems(2), of cd] Nil.hyps by simp
  then show ?case
    using pipeline_step.consume[of s ops hang_up cd clk] Nil.prems(2)
    by (intro exI[of _ "consumer_turn ops cd s"]) (auto simp: consumer_turn_keeps)
next
  case (Cons e es)
  let ?t = "consumer_turn ops cd s"
  note t = turn_cases(1)[OF Cons.prems(2) Cons.hyps(2)[symmetric], of cd]
  have "es = contents (bb_chan (sys_bus (bp_sys ?t)))" "bp_consumer ?t" "\<not> bp_handle ?t"
    using t Cons.prems by (simp_all add: consumer_turn_keeps del: bus_step.simps)
  from Cons.hyps(1)[OF this(1) turned_pipe[OF Cons.prems(1,2)] this(2,3)] show ?case
    using pipeline_step.consume[of s ops hang_up cd clk] Cons.prems(2) consumer_turn_keeps(1)
    by (metis converse_rtranclp_into_rtranclp)
qed

text \<open>From wherever it is, the shutdown can be completed without a further event.\<close>

lemma completes:
  assumes "pipe_inv contents room hung_up cd items j0 s"
  shows "\<exists>s'. (pipeline_step ops hang_up cd clk)\<^sup>*\<^sup>* s s' \<and> \<not> bp_consumer s' \<and> bp_items s' = bp_items s"
proof (cases "bp_consumer s")
  case True
  obtain t where t: "(pipeline_step ops hang_up cd clk)\<^sup>*\<^sup>* s t" "pipe_inv contents room hung_up cd items j0 t"
    "bb_blocked (sys_bus (bp_sys t)) = None" "bp_items t = bp_items s" "bp_consumer t"
    using unblocks[OF assms] True by metis
  let ?u = "t\<lparr>bp_task := False\<rparr>"
  let ?v = "?u\<lparr>bp_handle := False,
      bp_sys := (bp_sys ?u)\<lparr>sys_bus := (sys_bus (bp_sys ?u))\<lparr>bb_chan := hang_up (bb_chan (sys_bus (bp_sys ?u)))\<rparr>\<rparr>\<rparr>"
  have same: "?u = t" if "\<not> bp_task t" using that by (cases t) simp
  have u: "(pipeline_step ops hang_up cd clk)\<^sup>*\<^sup>* t ?u"
  proof (cases "bp_task t")
    case True
    show ?thesis by (rule r_into_rtranclp, rule pipeline_step.task_ends[OF True t(3)])
  next
    case False
    show ?thesis unfolding same[OF False] by (rule rtranclp.rtrancl_refl)
  qed
  have u2: "pipe_inv contents room hung_up cd items j0 ?u" by (rule pipe_ends(1)[OF t(2,3)])
  have v: "pipe_inv contents room hung_up cd items j0 ?v" by (rule pipe_ends(2)[OF u2]) simp
  have "\<exists>w. (pipeline_step ops hang_up cd clk)\<^sup>*\<^sup>* ?u w \<and> pipe_inv contents room hung_up cd items j0 w \<and>
      bp_consumer w \<and> \<not> bp_handle w \<and> bp_items w = bp_items s"
  proof (cases "bp_handle t")
    case True
    then have "pipeline_step ops hang_up cd clk ?u ?v" by (intro pipeline_step.handle_drops) simp_all
    then show ?thesis using v t(4,5) by (intro exI[of _ ?v]) auto
  next
    case False
    then show ?thesis using u2 t(4,5) by (intro exI[of _ ?u]) auto
  qed
  then obtain w where w: "(pipeline_step ops hang_up cd clk)\<^sup>*\<^sup>* ?u w" "pipe_inv contents room hung_up cd items j0 w"
      "bp_consumer w" "\<not> bp_handle w" "bp_items w = bp_items s" by blast
  from drains[OF w(2,3,4)] w(5) t(1) u w(1) show ?thesis by (metis (no_types, lifting) rtranclp_trans)
qed blast

end

interpretation qip: ingress_channel queue_channel_ops qc_items qc_cap "\<lambda>c. c\<lparr>qc_gone := True\<rparr>" qc_gone
  by unfold_locales

section \<open>Property\<close>

lemma consumer_thread_drains:
  "consume_loop cd (map Inr envs @ [Inl Closed]) j = journal_drain_loop cd (map Received envs @ [RxClosed]) j"
  by (simp add: consume_loop_received journal_drain_loop_def run_driver_received)

lemma finished_journal:
  assumes "ingress_channel ops contents room hang_up hung_up" "frame_codec cd" "f_data f = []" "journal_open (Inr f) = (Inr j, g)"
    and "pipe_inv contents room hung_up cd items j s" "\<not> bp_consumer s"
  shows "bp_journal s = consume_loop cd (map Inr (sys_received (bp_sys s)) @ [Inl Closed]) j"
    and "\<exists>pre. items = pre @ bp_items s \<and> list_all2 announces (good_events pre) (sys_received (bp_sys s))"
    and "map env_sequence (sys_received (bp_sys s)) = map word_of_nat [0..<length (sys_received (bp_sys s))]"
    and "list_all2 (\<lambda>e p. cd_to_bytes cd e = Inr p \<and> payload_fits p) (sys_received (bp_sys s)) ps \<Longrightarrow>
      8 + length (frames_of cd ps) \<le> f_room f \<Longrightarrow>
      fst (journal_drain cd chunk (iter_all (Inr \<lparr>rd_rest = f_data (fst (jn_writer (bp_journal s))), rd_fault = None\<rparr>)
        (bp_journal s))) = map Inr (sys_received (bp_sys s))"
proof -
  note i = pipe_invD[OF assms(5)]
  have "contents (bb_chan (sys_bus (bp_sys s))) = []" "bb_blocked (sys_bus (bp_sys s)) = None" using i(4,5,6) assms(6) by blast+
  then have p: "pending contents (bp_sys s) = sys_received (bp_sys s)" "bus_history contents (bp_sys s) = sys_received (bp_sys s)"
    by (simp_all add: pending_def bus_history_def)
  show j: "bp_journal s = consume_loop cd (map Inr (sys_received (bp_sys s)) @ [Inl Closed]) j" using i(7) assms(6) by simp
  show "\<exists>pre. items = pre @ bp_items s \<and> list_all2 announces (good_events pre) (sys_received (bp_sys s))" using i(8) p by simp
  show "map env_sequence (sys_received (bp_sys s)) = map word_of_nat [0..<length (sys_received (bp_sys s))]"
    using bus_invD(3)[OF i(1)] p by simp
  assume enc: "list_all2 (\<lambda>e p. cd_to_bytes cd e = Inr p \<and> payload_fits p) (sys_received (bp_sys s)) ps"
    "8 + length (frames_of cd ps) \<le> f_room f"
  have "\<forall>e \<in> set (sys_received (bp_sys s)). envelope_ok e" using bus_invD(5)[OF i(1)] p by simp
  from drained_reads_back[OF assms(2,3) this enc assms(4), of RxClosed 0 "[]" chunk]
  show "fst (journal_drain cd chunk (iter_all (Inr \<lparr>rd_rest = f_data (fst (jn_writer (bp_journal s))), rd_fault = None\<rparr>)
      (bp_journal s))) = map Inr (sys_received (bp_sys s))"
    unfolding j consumer_thread_drains by (simp add: Let_def)
qed

text \<open>C34: The ingress of the third wiring, from the stream to the file.  Let the clock work and the stream
  yield fewer than \<open>2 ^ 64\<close> items; take any interleaving of the producer, the consumer and the shutdown,
  full queues and blocked publishers included.  First, from wherever they are, the shutdown can be
  completed without consuming another item.  Second, once the consumer thread has ended, its journal is
  what \<open>consume_loop\<close> makes of what it received and a final \<open>Closed\<close>; what it received are exactly the
  events of the items the producer took from the stream, in order, errors left out, none lost when the
  task was aborted, each stamped as the code stamps it and numbered 0, 1, 2, ...; and, if they can be
  encoded and the disk has room, the file reads back as exactly these.\<close>

theorem ingress_journal_complete:
  assumes "ingress_channel ops contents room hang_up hung_up" "bus_new ops cap = Inr b"
    and "frame_codec cd" "f_data f = []" "journal_open (Inr f) = (Inr j, g)"
    and "length items < 2 ^ 64" "\<And>t. \<exists>ts. now_ns (clk t) = Inr ts"
    and "(pipeline_step ops hang_up cd clk)\<^sup>*\<^sup>* (pipeline_init items b j) s"
  shows "(\<exists>s'. (pipeline_step ops hang_up cd clk)\<^sup>*\<^sup>* s s' \<and> \<not> bp_consumer s' \<and> bp_items s' = bp_items s) \<and>
    (\<not> bp_consumer s \<longrightarrow> (let envs = sys_received (bp_sys s) in
       bp_journal s = consume_loop cd (map Inr envs @ [Inl Closed]) j \<and>
       (\<exists>pre. items = pre @ bp_items s \<and> list_all2 announces (good_events pre) envs) \<and>
       map env_sequence envs = map word_of_nat [0..<length envs] \<and>
       (\<forall>ps. list_all2 (\<lambda>e p. cd_to_bytes cd e = Inr p \<and> payload_fits p) envs ps \<longrightarrow>
          8 + length (frames_of cd ps) \<le> f_room f \<longrightarrow>
          fst (journal_drain cd chunk (iter_all (Inr \<lparr>rd_rest = f_data (fst (jn_writer (bp_journal s))), rd_fault = None\<rparr>)
            (bp_journal s))) = map Inr envs)))"
proof -
  have inv: "pipe_inv contents room hung_up cd items j s"
    by (rule ingress_channel.steps_pipe[OF assms(1,8) ingress_channel.init_pipe[OF assms(1,2)] assms(6,7)])
  note ended = finished_journal[OF assms(1,3,4,5) inv]
  show ?thesis
    unfolding Let_def using ingress_channel.completes[OF assms(1) inv] ended(1,2,3) ended(4)[of _ chunk] by blast
qed

text \<open>A codec that encodes the envelopes of one event.\<close>

definition demo_pipe_codec :: "ingress_event codec" where
  "demo_pipe_codec =
     \<lparr>cd_to_bytes = (\<lambda>e. if env_payload e = Mempool demo_mempool
        then smoke_to_bytes (map_payload (\<lambda>_. \<lparr>stp_nonce = 0, stp_data = 0\<rparr>) e) else Inl 0),
      cd_from_bytes = (\<lambda>p. map_sum id (map_payload (\<lambda>_. Mempool demo_mempool)) (smoke_from_bytes p)), cd_crc = crc32\<rparr>"

interpretation demo_pipe: frame_codec demo_pipe_codec
proof
  show "cd_from_bytes demo_pipe_codec p = Inr e" if "cd_to_bytes demo_pipe_codec e = Inr p" for e p
    using that smoke_round_trip[of "map_payload (\<lambda>_. \<lparr>stp_nonce = 0, stp_data = 0\<rparr>) e" p]
    by (auto simp: demo_pipe_codec_def map_payload_def split: if_splits)
  show "length p < 2 ^ 63" if "cd_to_bytes demo_pipe_codec e = Inr p" for e p
    using that by (auto simp: demo_pipe_codec_def smoke_to_bytes_def split: if_splits)
qed

lemma demo_pipe_encodes:
  assumes "announces demo_mempool env"
  obtains p where "cd_to_bytes demo_pipe_codec env = Inr p" "payload_fits p" "length p = 121"
proof -
  obtain p where p: "cd_to_bytes demo_pipe_codec env = Inr p" "length p = 121"
    using assms by (simp add: demo_pipe_codec_def smoke_to_bytes_def announces_def)
  then have "payload_fits p" unfolding payload_fits_def p(2) by simp
  with p show ?thesis using that by blast
qed

definition queue_hang_up :: "'e queue_channel \<Rightarrow> 'e queue_channel" where
  "queue_hang_up c = c\<lparr>qc_gone := True\<rparr>"

theorem ingress_journal_complete_witness:
  "\<exists>b j s env. bus_new queue_channel_ops 1 = Inr b \<and>
     (pipeline_step queue_channel_ops queue_hang_up demo_pipe_codec (\<lambda>t. Some 5))\<^sup>*\<^sup>*
       (pipeline_init [Inl IngressClosed, Inr demo_mempool] b j) s \<and> \<not> bp_consumer s \<and>
     announces demo_mempool env \<and> env_sequence env = 0 \<and>
     fst (journal_drain demo_pipe_codec id (iter_all (Inr \<lparr>rd_rest = f_data (fst (jn_writer (bp_journal s))), rd_fault = None\<rparr>)
       (bp_journal s))) = [Inr env]"
proof -
  let ?f = "\<lparr>f_data = [], f_room = 1000\<rparr>" and ?items = "[Inl IngressClosed, Inr demo_mempool]"
  have chan: "ingress_channel queue_channel_ops qc_items qc_cap queue_hang_up qc_gone"
    using qip.ingress_channel_axioms by (simp add: queue_hang_up_def[abs_def])
  obtain b :: "(ingress_event envelope queue_channel, ingress_event) bus" where b: "bus_new queue_channel_ops 1 = Inr b"
    by (simp add: bus_new_def)
  obtain j g where j: "journal_open (Inr ?f) = (Inr j, g)" using open_fresh[of ?f] by auto
  let ?step = "pipeline_step queue_channel_ops queue_hang_up demo_pipe_codec (\<lambda>t. Some 5)"
  have clk: "\<exists>ts. now_ns (Some 5) = Inr ts" by (simp add: now_ns_def)
  have "bb_blocked (sys_bus (bp_sys (pipeline_init ?items b j))) = None" using b
    by (auto simp: pipeline_init_def bus_init_def bus_new_def)
  then obtain t where t: "?step (pipeline_init ?items b j) t" "bp_items t = [Inr demo_mempool]" "bp_task t"
      "bb_blocked (sys_bus (bp_sys t)) = None"
    using pipeline_step.produce[of "pipeline_init ?items b j" "Inl IngressClosed" "[Inr demo_mempool]"]
    by (fastforce simp: pipeline_init_def bus_producer_item_def)
  let ?u = "t\<lparr>bp_items := [], bp_tick := Suc (bp_tick t),
    bp_sys := bus_producer_item queue_channel_ops (Some 5) (Inr demo_mempool) (bp_sys t)\<rparr>"
  have "?step t ?u" using pipeline_step.produce[OF t(3,4,2)] .
  with t(1) have "?step\<^sup>*\<^sup>* (pipeline_init ?items b j) ?u" by (meson converse_rtranclp_into_rtranclp r_into_rtranclp)
  then have "\<exists>s1. ?step\<^sup>*\<^sup>* (pipeline_init ?items b j) s1 \<and> bp_items s1 = []" by (intro exI[of _ ?u]) simp
  then obtain s1 where s1: "?step\<^sup>*\<^sup>* (pipeline_init ?items b j) s1" "bp_items s1 = []" by blast
  note whole = ingress_journal_complete[OF chan b demo_pipe.frame_codec_axioms _ j _ clk]
  from whole[of ?items s1 id] s1 obtain s2 where s2: "?step\<^sup>*\<^sup>* s1 s2" "\<not> bp_consumer s2" "bp_items s2 = []" by auto
  have r: "?step\<^sup>*\<^sup>* (pipeline_init ?items b j) s2" using s1(1) s2(1) by (rule rtranclp_trans)
  note fin = whole[of ?items s2 id, simplified, OF r, THEN conjunct2, rule_format, OF s2(2), unfolded s2(3) Let_def]
  from fin obtain env where env: "sys_received (bp_sys s2) = [env]" "announces demo_mempool env"
    by (auto simp: good_events_def list_all2_Cons1)
  obtain p where p: "cd_to_bytes demo_pipe_codec env = Inr p" "payload_fits p" "length p = 121"
    by (rule demo_pipe_encodes[OF env(2)])
  show ?thesis using fin b r s2(2) env p by (intro exI[of _ b] exI[of _ j] exI[of _ s2] exI[of _ env]) auto
qed

end
