(* ===== verification/Node_Subscriptions.thy ===== *)
theory Node_Subscriptions
  imports Node
begin

text \<open>
  The WebSocket subscriptions of \<open>crates/node/src/lib.rs\<close>: the helpers that open one, as the factories of
  the reconnecting stream of \<open>reconnect.rs\<close>.  alloy's WebSocket client is an argument: what connecting and
  subscribing answer, and what a subscription yields next, all depending on the world.  A node can only
  make the events of the stream's background task that these helpers let through.
\<close>

section \<open>Opening a subscription\<close>

record ('w, 'c, 'f, 's, 't) ws_client =
  ws_on_ws :: "string \<Rightarrow> 'w \<Rightarrow> (string + 'c) \<times> 'w"
  ws_blocks :: "'c \<Rightarrow> 'w \<Rightarrow> (rpc_error + 's) \<times> 'w"
  ws_pending_transactions :: "'c \<Rightarrow> 'w \<Rightarrow> (rpc_error + 's) \<times> 'w"
  ws_logs :: "'c \<Rightarrow> 'f \<Rightarrow> 'w \<Rightarrow> (rpc_error + 's) \<times> 'w"
  ws_next :: "'s \<Rightarrow> 'w \<Rightarrow> ('t option \<times> 's) \<times> 'w"

text \<open>The body the three helpers share: connect, subscribe.\<close>

definition ws_subscribe ::
  "('w, 'c, 'f, 's, 't) ws_client \<Rightarrow> ('c \<Rightarrow> 'w \<Rightarrow> (rpc_error + 's) \<times> 'w) \<Rightarrow> string \<Rightarrow> 'w \<Rightarrow> (node_error + 's) \<times> 'w" where
  "ws_subscribe ws sub url w =
     (case ws_on_ws ws url w of
        (Inl e, w) \<Rightarrow> (Inl (WsConnect e), w)
      | (Inr provider, w) \<Rightarrow> map_err_classify (sub provider w))"

definition ws_subscribe_new_heads :: "('w, 'c, 'f, 's, 't) ws_client \<Rightarrow> string \<Rightarrow> 'w \<Rightarrow> (node_error + 's) \<times> 'w" where
  "ws_subscribe_new_heads ws url = ws_subscribe ws (ws_blocks ws) url"

definition ws_subscribe_pending_txs :: "('w, 'c, 'f, 's, 't) ws_client \<Rightarrow> string \<Rightarrow> 'w \<Rightarrow> (node_error + 's) \<times> 'w" where
  "ws_subscribe_pending_txs ws url = ws_subscribe ws (ws_pending_transactions ws) url"

definition ws_subscribe_logs :: "('w, 'c, 'f, 's, 't) ws_client \<Rightarrow> string \<Rightarrow> 'f \<Rightarrow> 'w \<Rightarrow> (node_error + 's) \<times> 'w" where
  "ws_subscribe_logs ws url flt = ws_subscribe ws (\<lambda>c. ws_logs ws c flt) url"

text \<open>The factories that the provider hands to its reconnecting streams.\<close>

definition subscribe_new_heads ::
  "('w, 'c, 'f, 's, 't) ws_client \<Rightarrow> ('v, 'tx, 'pf) node_provider \<Rightarrow> 'w \<Rightarrow> (node_error + 's) \<times> 'w" where
  "subscribe_new_heads ws p = ws_subscribe_new_heads ws (ws_url p)"

definition subscribe_pending_txs ::
  "('w, 'c, 'f, 's, 't) ws_client \<Rightarrow> ('v, 'tx, 'pf) node_provider \<Rightarrow> 'w \<Rightarrow> (node_error + 's) \<times> 'w" where
  "subscribe_pending_txs ws p = ws_subscribe_pending_txs ws (ws_url p)"

definition subscribe_logs ::
  "('w, 'c, 'f, 's, 't) ws_client \<Rightarrow> ('v, 'tx, 'pf) node_provider \<Rightarrow> 'f \<Rightarrow> 'w \<Rightarrow> (node_error + 's) \<times> 'w" where
  "subscribe_logs ws p flt = ws_subscribe_logs ws (ws_url p) flt"

section \<open>The background task of a subscription\<close>

text \<open>The task with the stream it reads and the world: the event of each step of \<^term>\<open>rc_step\<close> is what the
  factory or the stream answers; the helpers wrap every item in \<open>Ok\<close>.  Only whether the consumer still
  listens is left open.\<close>

record ('w, 's, 't) sub_state =
  sb_rc :: "'t reconnect"
  sb_inner :: "'s option"
  sb_world :: 'w

definition sub_init :: "'w \<Rightarrow> ('w, 's, 't) sub_state" where
  "sub_init w = \<lparr>sb_rc = rc_init, sb_inner = None, sb_world = w\<rparr>"

inductive sub_step ::
  "('w \<Rightarrow> (node_error + 's) \<times> 'w) \<Rightarrow> ('s \<Rightarrow> 'w \<Rightarrow> ('t option \<times> 's) \<times> 'w) \<Rightarrow> ('w, 's, 't) sub_state
   \<Rightarrow> 't rc_event \<Rightarrow> ('w, 's, 't) sub_state \<Rightarrow> bool"
  for factory nxt where
  not_opened: "sb_inner s = None \<Longrightarrow> factory (sb_world s) = (Inl e, w) \<Longrightarrow> rc_step (sb_rc s) (FactoryFails e alive) r \<Longrightarrow>
    sub_step factory nxt s (FactoryFails e alive) \<lparr>sb_rc = r, sb_inner = None, sb_world = w\<rparr>"
| opened: "sb_inner s = None \<Longrightarrow> factory (sb_world s) = (Inr inner, w) \<Longrightarrow> rc_step (sb_rc s) FactoryOpens r \<Longrightarrow>
    sub_step factory nxt s FactoryOpens \<lparr>sb_rc = r, sb_inner = Some inner, sb_world = w\<rparr>"
| yields: "sb_inner s = Some inner \<Longrightarrow> nxt inner (sb_world s) = ((Some x, inner'), w) \<Longrightarrow>
    rc_step (sb_rc s) (InnerItem (Inr x) alive) r \<Longrightarrow>
    sub_step factory nxt s (InnerItem (Inr x) alive) \<lparr>sb_rc = r, sb_inner = Some inner', sb_world = w\<rparr>"
| ends: "sb_inner s = Some inner \<Longrightarrow> nxt inner (sb_world s) = ((None, inner'), w) \<Longrightarrow> rc_step (sb_rc s) InnerEnds r \<Longrightarrow>
    sub_step factory nxt s InnerEnds \<lparr>sb_rc = r, sb_inner = None, sb_world = w\<rparr>"

inductive sub_run ::
  "('w \<Rightarrow> (node_error + 's) \<times> 'w) \<Rightarrow> ('s \<Rightarrow> 'w \<Rightarrow> ('t option \<times> 's) \<times> 'w) \<Rightarrow> ('w, 's, 't) sub_state
   \<Rightarrow> 't rc_event list \<Rightarrow> ('w, 's, 't) sub_state \<Rightarrow> bool"
  for factory nxt s where
  sub_done: "sub_run factory nxt s [] s"
| sub_more: "sub_run factory nxt s es t \<Longrightarrow> sub_step factory nxt t e u \<Longrightarrow> sub_run factory nxt s (es @ [e]) u"

text \<open>The consumer has dropped its receiver.\<close>

fun consumer_gone :: "'t rc_event \<Rightarrow> bool" where
  "consumer_gone (FactoryFails e alive) \<longleftrightarrow> \<not> alive"
| "consumer_gone (InnerItem i alive) \<longleftrightarrow> \<not> alive"
| "consumer_gone e \<longleftrightarrow> False"

section \<open>What a node can make of the stream\<close>

text \<open>The errors that opening a subscription can answer.\<close>

definition subscription_error :: "node_error \<Rightarrow> bool" where
  "subscription_error e \<longleftrightarrow> (\<exists>m. e = WsConnect m) \<or> (\<exists>err. e = classify err)"

lemma subscription_error_not_closed: "subscription_error e \<Longrightarrow> e \<noteq> NodeClosed \<and> e \<noteq> ArchiveNotConfigured"
  unfolding subscription_error_def by (auto dest: sym elim: classify.elims)

lemma ws_subscribe_error:
  assumes "ws_subscribe ws sub url w = (Inl e, w')"
  shows "subscription_error e"
proof (cases "ws_on_ws ws url w")
  case (Pair r w1)
  show ?thesis
  proof (cases r)
    case (Inl m)
    with Pair assms show ?thesis by (auto simp: ws_subscribe_def subscription_error_def)
  next
    case (Inr c)
    obtain q w2 where "sub c w1 = (q, w2)" by fastforce
    with Pair Inr assms show ?thesis
      by (cases q) (auto simp: ws_subscribe_def subscription_error_def map_err_classify_def)
  qed
qed

text \<open>An event that such a factory lets through.\<close>

fun node_event :: "'t rc_event \<Rightarrow> bool" where
  "node_event (FactoryFails e alive) \<longleftrightarrow> subscription_error e"
| "node_event (InnerItem i alive) \<longleftrightarrow> (\<exists>x. i = Inr x)"
| "node_event e \<longleftrightarrow> True"

lemma node_event_ends: "node_event e \<Longrightarrow> ends_stream e = consumer_gone e"
  by (cases e) (auto dest: subscription_error_not_closed)

lemma node_event_forwards: "node_event x \<Longrightarrow> Inl e \<in> set (forwarded x) \<Longrightarrow> subscription_error e"
  by (cases x) (auto split: if_splits)

lemma sub_run_events:
  assumes "sub_run factory nxt s es t" "\<And>w e w'. factory w = (Inl e, w') \<Longrightarrow> subscription_error e"
  shows "rc_run (sb_rc s) es (sb_rc t) \<and> (\<forall>e \<in> set es. node_event e)"
  using assms(1)
proof (induction rule: sub_run.induct)
  case (sub_more es t e u)
  have "rc_step (sb_rc t) e (sb_rc u) \<and> node_event e" using sub_more.hyps(2) by cases (auto dest: assms(2))
  with sub_more.IH show ?case by (auto intro: rc_more)
qed (simp add: rc_done)

text \<open>The task reads a stream exactly while it is streaming.\<close>

lemma sub_run_phase:
  assumes "sub_run factory nxt (sub_init w) es t" "rc_phase (sb_rc t) \<noteq> Stopped"
  shows "(rc_phase (sb_rc t) = Streaming) = (sb_inner t \<noteq> None)"
  using assms
proof (induction rule: sub_run.induct)
  case (sub_more es t e u)
  from sub_more.hyps(2) show ?case
    by cases (use sub_more.prems in \<open>auto simp: rc_step_iffs rc_backoff_def\<close>)
qed (simp add: sub_init_def rc_init_def)

lemma sub_never_stuck:
  assumes "sub_run factory nxt (sub_init w) es t" "rc_phase (sb_rc t) \<noteq> Stopped"
  shows "\<exists>e u. sub_step factory nxt t e u \<and> \<not> consumer_gone e"
proof (cases "sb_inner t")
  case None
  then have ph: "rc_phase (sb_rc t) = Connecting" using sub_run_phase[OF assms] assms(2) by (cases "rc_phase (sb_rc t)") auto
  obtain a w' where f: "factory (sb_world t) = (a, w')" by fastforce
  show ?thesis
  proof (cases a)
    case (Inl e)
    obtain r where "rc_step (sb_rc t) (FactoryFails e True) r" using rc_live[of "sb_rc t"] ph by auto
    from sub_step.not_opened[OF None _ this] f Inl show ?thesis by fastforce
  next
    case (Inr inner)
    obtain r where "rc_step (sb_rc t) FactoryOpens r" using rc_live[of "sb_rc t"] ph by auto
    from sub_step.opened[OF None _ this] f Inr show ?thesis by fastforce
  qed
next
  case (Some inner)
  then have ph: "rc_phase (sb_rc t) = Streaming" using sub_run_phase[OF assms] by simp
  obtain a inner' w' where n: "nxt inner (sb_world t) = ((a, inner'), w')" by (metis prod.exhaust)
  show ?thesis
  proof (cases a)
    case None
    obtain r where "rc_step (sb_rc t) InnerEnds r" using rc_live[of "sb_rc t"] ph by auto
    from sub_step.ends[OF Some _ this] n None show ?thesis by fastforce
  next
    case (Some x)
    obtain r where "rc_step (sb_rc t) (InnerItem (Inr x) True) r" using rc_live[of "sb_rc t"] ph by auto
    from sub_step.yields[OF \<open>sb_inner t = Some inner\<close> _ this] n Some show ?thesis by fastforce
  qed
qed

section \<open>Property\<close>

text \<open>C31: A subscription of the node never gives up.  Whatever the node answers to connecting, subscribing
  and reading: what the consumer has been sent are the errors and items in order, each error a failed
  connection or a classified answer, so neither \<open>Closed\<close> nor a missing archive; the task has slept the
  back-off of every failed attempt and ended stream; it has stopped exactly when the consumer was found
  gone, never of itself; and otherwise it goes on with whatever the node answers next.\<close>

theorem subscription_never_gives_up:
  assumes "factory = subscribe_new_heads ws p \<or> factory = subscribe_pending_txs ws p \<or> factory = subscribe_logs ws p flt"
    and "sub_run factory (ws_next ws) (sub_init w) es t"
  shows "rc_sent (sb_rc t) = concat (map forwarded es) \<and> rc_slept (sb_rc t) = delays_from 0 es \<and>
    (\<forall>e. Inl e \<in> set (rc_sent (sb_rc t)) \<longrightarrow> subscription_error e \<and> e \<noteq> NodeClosed \<and> e \<noteq> ArchiveNotConfigured) \<and>
    (rc_phase (sb_rc t) = Stopped \<longleftrightarrow> (\<exists>e \<in> set es. consumer_gone e)) \<and>
    (rc_phase (sb_rc t) \<noteq> Stopped \<longrightarrow> (\<exists>e u. sub_step factory (ws_next ws) t e u \<and> \<not> consumer_gone e))"
proof -
  have err: "factory w = (Inl e, w') \<Longrightarrow> subscription_error e" for w e w'
    using assms(1) ws_subscribe_error
    by (auto simp: subscribe_new_heads_def subscribe_pending_txs_def subscribe_logs_def ws_subscribe_new_heads_def
        ws_subscribe_pending_txs_def ws_subscribe_logs_def)
  have run: "rc_run rc_init es (sb_rc t)" and ev: "\<forall>e \<in> set es. node_event e"
    using sub_run_events[OF assms(2) err] by (auto simp: sub_init_def)
  note eff = rc_run_effect[OF run, unfolded rc_init_def, simplified]
  have "subscription_error e" if "Inl e \<in> set (rc_sent (sb_rc t))" for e
  proof -
    obtain x where "x \<in> set es" "Inl e \<in> set (forwarded x)" using eff \<open>Inl e \<in> set (rc_sent (sb_rc t))\<close> by auto
    then show ?thesis using ev node_event_forwards by blast
  qed
  moreover have "(\<exists>e \<in> set es. ends_stream e) \<longleftrightarrow> (\<exists>e \<in> set es. consumer_gone e)"
    using ev node_event_ends by blast
  ultimately show ?thesis
    using eff subscription_error_not_closed sub_never_stuck[OF assms(2)] by auto
qed

text \<open>A node that refuses the first connection and then yields one header per subscription.\<close>

definition demo_ws :: "(nat, unit, unit, nat list, nat) ws_client" where
  "demo_ws = \<lparr>ws_on_ws = (\<lambda>url n. (if n = 0 then Inl ''refused'' else Inr (), Suc n)),
     ws_blocks = (\<lambda>c n. (Inr [n], n)), ws_pending_transactions = (\<lambda>c n. (Inl NullResp, n)),
     ws_logs = (\<lambda>c f n. (Inl NullResp, n)),
     ws_next = (\<lambda>xs n. (case xs of [] \<Rightarrow> (None, []) | x # xs \<Rightarrow> (Some x, xs), n))\<rparr>"

definition demo_provider :: "(nat, nat, nat) node_provider" where
  "demo_provider = \<lparr>primary_http = alloy_http \<lparr>rp_call = (\<lambda>r b n. (Inl NullResp, n)),
       rp_get_transaction_by_hash = (\<lambda>h n. (Inl NullResp, n)), rp_get_proof = (\<lambda>a ss b n. (Inl NullResp, n)),
       rp_get_storage_at = (\<lambda>a s b n. (Inl NullResp, n)), rp_get_code_at = (\<lambda>a b n. (Inl NullResp, n))\<rparr>,
     fallback_http = None, archive_http = None, ws_url = ''ws''\<rparr>"

theorem subscription_never_gives_up_witness:
  "\<exists>t. sub_run (subscribe_new_heads demo_ws demo_provider) (ws_next demo_ws) (sub_init 0)
      [FactoryFails (WsConnect ''refused'') True, FactoryOpens, InnerItem (Inr 2) True] t \<and>
    rc_sent (sb_rc t) = [Inl (WsConnect ''refused''), Inr 2] \<and> rc_phase (sb_rc t) \<noteq> Stopped \<and>
    (\<exists>e u. sub_step (subscribe_new_heads demo_ws demo_provider) (ws_next demo_ws) t e u \<and> \<not> consumer_gone e)"
proof -
  let ?f = "subscribe_new_heads demo_ws demo_provider" and ?n = "ws_next demo_ws"
  note defs = subscribe_new_heads_def ws_subscribe_new_heads_def ws_subscribe_def demo_ws_def map_err_classify_def
  have f: "?f 0 = (Inl (WsConnect ''refused''), 1)" "?f 1 = (Inr [2], 2)" "?n [2] 2 = ((Some 2, []), 2)"
    by (simp_all add: defs)
  obtain r1 where r1: "rc_step rc_init (FactoryFails (WsConnect ''refused'') True) (r1 :: nat reconnect)"
    "rc_phase r1 = Connecting" by (simp add: rc_step_iffs rc_init_def rc_backoff_def)
  obtain r2 where r2: "rc_step r1 FactoryOpens r2" "rc_phase r2 = Streaming" using r1(2) by (simp add: rc_step_iffs)
  obtain r3 where r3: "rc_step r2 (InnerItem (Inr 2) True) r3" using r2(2) by (simp add: rc_step_iffs)
  let ?t1 = "\<lparr>sb_rc = r1, sb_inner = None, sb_world = 1\<rparr>" and ?t2 = "\<lparr>sb_rc = r2, sb_inner = Some [2], sb_world = 2\<rparr>"
    and ?t3 = "\<lparr>sb_rc = r3, sb_inner = Some [], sb_world = 2\<rparr>"
  have "sub_step ?f ?n (sub_init 0) (FactoryFails (WsConnect ''refused'') True) ?t1"
    by (rule sub_step.not_opened) (simp_all add: sub_init_def f r1)
  moreover have "sub_step ?f ?n ?t1 FactoryOpens ?t2" by (rule sub_step.opened) (simp_all add: f(2)[unfolded One_nat_def] r2)
  moreover have "sub_step ?f ?n ?t2 (InnerItem (Inr 2) True) ?t3"
    by (rule sub_step.yields[where inner = "[2]"]) (simp_all add: demo_ws_def r3)
  ultimately have run: "sub_run ?f ?n (sub_init 0)
      [FactoryFails (WsConnect ''refused'') True, FactoryOpens, InnerItem (Inr 2) True] ?t3"
    using sub_more[OF sub_more[OF sub_more[OF sub_done]], of ?f ?n "sub_init 0"] by fastforce
  from subscription_never_gives_up[OF _ run, of demo_provider] show ?thesis
    by (intro exI[of _ ?t3]) (use run in auto)
qed

end
