(* ===== verification/Archive_Outcomes.thy ===== *)
theory Archive_Outcomes
  imports Archive Relay_Sim
begin

text \<open>
  The archived form of a mismatch and of what it carries (the \<open>rkyv\<close> attributes in \<open>crates/simulator\<close> and
  \<open>crates/relay-sim\<close>), and what the event journals of the pipeline lose: nothing.
\<close>

section \<open>Outcomes and observations\<close>

record archived_observation =
  ao_account :: bytes
  ao_slot :: bytes
  ao_value :: bytes

definition observation_ser :: "state_observation \<Rightarrow> archived_observation" where
  "observation_ser x = \<lparr>ao_account = address_ser (ob_account x), ao_slot = u256_ser (ob_slot x), ao_value = b256_ser (ob_value x)\<rparr>"

definition observation_de :: "archived_observation \<Rightarrow> state_observation" where
  "observation_de a = \<lparr>ob_account = address_de (ao_account a), ob_slot = u256_de (ao_slot a), ob_value = b256_de (ao_value a)\<rparr>"

definition observation_archived :: "archived_observation \<Rightarrow> bool" where
  "observation_archived a \<longleftrightarrow> length (ao_account a) = 20 \<and> length (ao_slot a) = 32 \<and> length (ao_value a) = 32"

interpretation observation: canonical_adapter observation_ser observation_de observation_archived
  by unfold_locales
    (simp_all add: observation_ser_def observation_de_def observation_archived_def fields_restore fields_shape fields_canonical)

interpretation observations: canonical_adapter "map observation_ser" "map observation_de" "list_all observation_archived"
  by (rule observation.list_adapter)

record archived_fingerprint =
  af_block_hash :: bytes
  af_observations :: "archived_observation list"

definition fingerprint_ser :: "local_state_fingerprint \<Rightarrow> archived_fingerprint" where
  "fingerprint_ser x =
     \<lparr>af_block_hash = b256_ser (fp_block_hash x), af_observations = map observation_ser (fp_observations x)\<rparr>"

definition fingerprint_de :: "archived_fingerprint \<Rightarrow> local_state_fingerprint" where
  "fingerprint_de a =
     \<lparr>fp_block_hash = b256_de (af_block_hash a), fp_observations = map observation_de (af_observations a)\<rparr>"

record archived_sim_outcome =
  az_opportunity_block_number :: u64
  az_gas_used :: u64
  az_status :: sim_status
  az_simulated_profit_wei :: bytes
  az_profit_source :: profit_source

definition sim_outcome_ser :: "simulation_outcome \<Rightarrow> archived_sim_outcome" where
  "sim_outcome_ser x =
     \<lparr>az_opportunity_block_number = so_opportunity_block_number x, az_gas_used = so_gas_used x, az_status = so_status x,
      az_simulated_profit_wei = u256_ser (so_simulated_profit_wei x), az_profit_source = so_profit_source x\<rparr>"

definition sim_outcome_de :: "archived_sim_outcome \<Rightarrow> simulation_outcome" where
  "sim_outcome_de a =
     \<lparr>so_opportunity_block_number = az_opportunity_block_number a, so_gas_used = az_gas_used a, so_status = az_status a,
      so_simulated_profit_wei = u256_de (az_simulated_profit_wei a), so_profit_source = az_profit_source a\<rparr>"

record archived_shape =
  ah_expected_inclusion_index :: u32
  ah_expected_coinbase_transfer_wei :: bytes

definition shape_ser :: "local_bundle_shape \<Rightarrow> archived_shape" where
  "shape_ser x =
     \<lparr>ah_expected_inclusion_index = bs_expected_inclusion_index x,
      ah_expected_coinbase_transfer_wei = u256_ser (bs_expected_coinbase_transfer_wei x)\<rparr>"

definition shape_de :: "archived_shape \<Rightarrow> local_bundle_shape" where
  "shape_de a =
     \<lparr>bs_expected_inclusion_index = ah_expected_inclusion_index a,
      bs_expected_coinbase_transfer_wei = u256_de (ah_expected_coinbase_transfer_wei a)\<rparr>"

record archived_relay_outcome =
  ar_gas_used :: u64
  ar_status :: sim_status
  ar_measured_profit_wei :: bytes
  ar_state_observations :: "archived_observation list"
  ar_inclusion_index :: u32
  ar_coinbase_transfer_wei :: bytes

definition relay_outcome_ser :: "relay_simulation_outcome \<Rightarrow> archived_relay_outcome" where
  "relay_outcome_ser x =
     \<lparr>ar_gas_used = rs_gas_used x, ar_status = rs_status x, ar_measured_profit_wei = u256_ser (rs_measured_profit_wei x),
      ar_state_observations = map observation_ser (rs_state_observations x), ar_inclusion_index = rs_inclusion_index x,
      ar_coinbase_transfer_wei = u256_ser (rs_coinbase_transfer_wei x)\<rparr>"

definition relay_outcome_de :: "archived_relay_outcome \<Rightarrow> relay_simulation_outcome" where
  "relay_outcome_de a =
     \<lparr>rs_gas_used = ar_gas_used a, rs_status = ar_status a, rs_measured_profit_wei = u256_de (ar_measured_profit_wei a),
      rs_state_observations = map observation_de (ar_state_observations a), rs_inclusion_index = ar_inclusion_index a,
      rs_coinbase_transfer_wei = u256_de (ar_coinbase_transfer_wei a)\<rparr>"

definition relay_outcome_archived :: "archived_relay_outcome \<Rightarrow> bool" where
  "relay_outcome_archived a \<longleftrightarrow> length (ar_measured_profit_wei a) = 32 \<and> length (ar_coinbase_transfer_wei a) = 32 \<and>
     list_all observation_archived (ar_state_observations a)"

interpretation relay_outcome: canonical_adapter relay_outcome_ser relay_outcome_de relay_outcome_archived
  by unfold_locales
    (simp_all add: relay_outcome_ser_def relay_outcome_de_def relay_outcome_archived_def fields_restore fields_shape
      fields_canonical observations.restores observations.shape observations.canonical del: list.map_comp map_map)

interpretation relay_field: canonical_adapter "map_option relay_outcome_ser" "map_option relay_outcome_de"
  "pred_option relay_outcome_archived"
  by (rule relay_outcome.option_adapter)

section \<open>Mismatches\<close>

text \<open>The detail is text in the code and archived as it is.\<close>

record archived_mismatch =
  ax_category :: mismatch_category
  ax_detail :: mismatch_detail
  ax_local :: archived_sim_outcome
  ax_local_shape :: archived_shape
  ax_local_fingerprint :: archived_fingerprint
  ax_relay :: "archived_relay_outcome option"

definition mismatch_ser :: "mismatch_abort \<Rightarrow> archived_mismatch" where
  "mismatch_ser x =
     \<lparr>ax_category = mm_category x, ax_detail = mm_detail x, ax_local = sim_outcome_ser (mm_local x),
      ax_local_shape = shape_ser (mm_local_shape x), ax_local_fingerprint = fingerprint_ser (mm_local_fingerprint x),
      ax_relay = map_option relay_outcome_ser (mm_relay x)\<rparr>"

definition mismatch_de :: "archived_mismatch \<Rightarrow> mismatch_abort" where
  "mismatch_de a =
     \<lparr>mm_category = ax_category a, mm_detail = ax_detail a, mm_local = sim_outcome_de (ax_local a),
      mm_local_shape = shape_de (ax_local_shape a), mm_local_fingerprint = fingerprint_de (ax_local_fingerprint a),
      mm_relay = map_option relay_outcome_de (ax_relay a)\<rparr>"

definition mismatch_archived :: "archived_mismatch \<Rightarrow> bool" where
  "mismatch_archived a \<longleftrightarrow> length (az_simulated_profit_wei (ax_local a)) = 32 \<and>
     length (ah_expected_coinbase_transfer_wei (ax_local_shape a)) = 32 \<and>
     length (af_block_hash (ax_local_fingerprint a)) = 32 \<and>
     list_all observation_archived (af_observations (ax_local_fingerprint a)) \<and> pred_option relay_outcome_archived (ax_relay a)"

lemmas outcome_defs = sim_outcome_ser_def sim_outcome_de_def shape_ser_def shape_de_def fingerprint_ser_def fingerprint_de_def

interpretation mismatch: canonical_adapter mismatch_ser mismatch_de mismatch_archived
  by unfold_locales
    (simp_all add: mismatch_ser_def mismatch_de_def mismatch_archived_def outcome_defs fields_restore fields_shape
      fields_canonical observations.restores observations.shape observations.canonical relay_field.restores
      relay_field.shape relay_field.canonical del: list.map_comp map_map)

section \<open>What the journals keep\<close>

text \<open>C22: The journal of ingress events loses nothing.  The archived form of an event has 32 bytes for every hash
  and number and 20 for every address, and every such form is that of exactly one event, for ingress
  events as for state updates and for the mismatches of the comparator, whose observations are archived
  one by one; and, if rkyv reads back the archived forms it wrote, a drain of ingress
  events into an empty journal with room leaves, once closed or lagged, a file that reads back as exactly
  these events.\<close>

theorem event_journal_reads_back:
  assumes "frame_codec cd" "f_data f = []" "\<forall>e \<in> set envs. envelope_ok e"
    and "list_all2 (\<lambda>e p. cd_to_bytes cd (map_payload ingress_ser e) = Inr p \<and> payload_fits p) envs ps"
    and "8 + length (frames_of cd ps) \<le> f_room f" "journal_open (Inr f) = (Inr j, g)"
    and "stop = RxClosed \<or> stop = RxLagged n"
  shows "(ingress_archived a \<longleftrightarrow> (\<exists>!e. ingress_ser e = a)) \<and> (state_update_archived u \<longleftrightarrow> (\<exists>!e. state_update_ser e = u)) \<and>
    (mismatch_archived mm \<longleftrightarrow> (\<exists>!e. mismatch_ser e = mm)) \<and>
    (let events = adapted_codec ingress_ser ingress_de cd; j2 = journal_drain_loop events (map Received envs @ stop # rs) j
     in fst (journal_drain events chunk
          (iter_all (Inr \<lparr>rd_rest = f_data (fst (jn_writer j2)), rd_fault = None\<rparr>) j2)) = map Inr envs)"
proof (intro conjI)
  show "ingress_archived a \<longleftrightarrow> (\<exists>!e. ingress_ser e = a)" by (rule ingress_event.archived_iff1)
  show "state_update_archived u \<longleftrightarrow> (\<exists>!e. state_update_ser e = u)" by (rule state_update.archived_iff1)
  show "mismatch_archived mm \<longleftrightarrow> (\<exists>!e. mismatch_ser e = mm)" by (rule mismatch.archived_iff1)
qed (unfold Let_def, rule adapted_journal_reads_back[OF assms(1) ingress_event.restores assms(2-7), unfolded Let_def])

definition demo_archived_event :: "ingress_event envelope" where
  "demo_archived_event = \<lparr>env_sequence = 1, env_timestamp_ns = 5, env_source = Ingress, env_chain_context = no_block,
     env_event_version = 1, env_correlation_id = 0,
     env_payload = Mempool \<lparr>me_tx_hash = 3, me_from = 4, me_to = Some 5, me_value = 2 ^ 200, me_input = [1, 2],
       me_gas_limit = 21000, me_max_fee = 9, me_observed_at_ns = 5\<rparr>\<rparr>"

text \<open>A codec that knows one archived event.\<close>

definition demo_archive_codec :: "archived_ingress_event codec" where
  "demo_archive_codec =
     \<lparr>cd_to_bytes = (\<lambda>e. if e = map_payload ingress_ser demo_archived_event then Inr [7] else Inl 0),
      cd_from_bytes = (\<lambda>p. if p = [7] then Inr (map_payload ingress_ser demo_archived_event) else Inl 0), cd_crc = crc32\<rparr>"

lemma demo_archive_frames: "frame_codec demo_archive_codec"
  by unfold_locales (auto simp: demo_archive_codec_def split: if_splits)

theorem event_journal_reads_back_witness:
  "\<exists>j. (let events = adapted_codec ingress_ser ingress_de demo_archive_codec;
          j2 = journal_drain_loop events [Received demo_archived_event, RxLagged 2, Received demo_archived_event] j
     in fst (journal_drain events id
          (iter_all (Inr \<lparr>rd_rest = f_data (fst (jn_writer j2)), rd_fault = None\<rparr>) j2)) = [Inr demo_archived_event])"
proof -
  let ?f = "\<lparr>f_data = [], f_room = 1000\<rparr>"
  have ok: "\<forall>e \<in> set [demo_archived_event]. envelope_ok e"
    by (simp add: demo_archived_event_def envelope_ok_def no_block_def)
  have ps: "list_all2 (\<lambda>e p. cd_to_bytes demo_archive_codec (map_payload ingress_ser e) = Inr p \<and> payload_fits p) [demo_archived_event] [[7]]"
    by (simp add: demo_archive_codec_def payload_fits_def MAX_FRAME_LEN_def)
  have room: "8 + length (frames_of demo_archive_codec [[7]]) \<le> f_room ?f" by (simp add: frames_of_def frame_of_def)
  obtain j g where "journal_open (Inr ?f) = (Inr j, g)" using open_fresh[of ?f] by auto
  from event_journal_reads_back[OF demo_archive_frames _ ok ps room this, where stop = "RxLagged 2" and n = 2 and rs = "[Received demo_archived_event]" and chunk = id]
  show ?thesis by (intro exI[of _ j]) simp
qed

end
