(* ===== verification/Task_Runs.thy ===== *)
theory Task_Runs
  imports App_Drivers "HOL-Library.Sublist"
begin

text \<open>
  A task of \<open>crates/app/src/lib.rs\<close> that reads one broadcast channel and runs beside the others: what its
  loop does between two events, when it stops, and what the readers of the channel it sends to have
  seen of it.  The loops have one shape, so one step relation serves all of them; what differs is a
  record.
\<close>

section \<open>A loop over a broadcast receiver\<close>

text \<open>\<open>dr_body\<close> is what the loop does with one event; its first argument is a change that the surroundings
  made to a shared world before that.  \<open>dr_fin\<close> is what follows the loop, \<open>dr_out\<close> the list of what the
  task has handed to its sender.  An abort takes effect where the task awaits; \<open>dr_await\<close> relates a
  state to those the task may be in at an await inside the body.  \<open>dr_skips\<close> tells that the task goes on
  after it has lagged.\<close>

record ('u, 'e, 's, 'p) driver =
  dr_body :: "'u \<Rightarrow> 'e \<Rightarrow> 's \<Rightarrow> 's"
  dr_fin :: "'s \<Rightarrow> 's"
  dr_out :: "'s \<Rightarrow> 'p list"
  dr_await :: "'s \<Rightarrow> 's \<Rightarrow> bool"
  dr_skips :: bool

datatype task_life = Up | Ended | Gone

text \<open>\<open>tk_log\<close> is what the task took, \<open>tk_read\<close> the position of its receiver in the history of the channel,
  \<open>tk_sent\<close> how much of its output the readers can see.\<close>

record ('u, 'e, 's) task =
  tk_state :: 's
  tk_log :: "('u \<times> 'e) list"
  tk_read :: nat
  tk_sent :: nat
  tk_life :: task_life

definition task_start :: "'s \<Rightarrow> ('u, 'e, 's) task" where
  "task_start s = \<lparr>tk_state = s, tk_log = [], tk_read = 0, tk_sent = 0, tk_life = Up\<rparr>"

definition ready :: "('u, 'e, 's, 'p) driver \<Rightarrow> ('u, 'e, 's) task \<Rightarrow> bool" where
  "ready d t \<longleftrightarrow> tk_life t = Up \<and> tk_sent t = length (dr_out d (tk_state t))"

text \<open>The channel keeps the last \<open>room\<close> values; a receiver with more than that ahead of it has lagged, and
  its next receive says so.  \<open>H\<close> is everything sent on the channel so far, \<open>hung_up\<close> that no sender is
  left.  Only when all it made of an event is sent does a task receive again.\<close>

inductive task_step ::
  "('u, 'e, 's, 'p) driver \<Rightarrow> nat \<Rightarrow> bool \<Rightarrow> 'e list \<Rightarrow> ('u, 'e, 's) task \<Rightarrow> ('u, 'e, 's) task \<Rightarrow> bool"
  for d room hung_up H where
  receives: "ready d t \<Longrightarrow> tk_read t < length H \<Longrightarrow> length H - tk_read t \<le> room \<Longrightarrow>
    task_step d room hung_up H t
      (t\<lparr>tk_state := dr_body d u (H ! tk_read t) (tk_state t), tk_log := tk_log t @ [(u, H ! tk_read t)],
         tk_read := Suc (tk_read t)\<rparr>)"
| sends: "tk_life t = Up \<Longrightarrow> tk_sent t < length (dr_out d (tk_state t)) \<Longrightarrow>
    task_step d room hung_up H t (t\<lparr>tk_sent := Suc (tk_sent t)\<rparr>)"
| stops_on_lag: "ready d t \<Longrightarrow> \<not> dr_skips d \<Longrightarrow> room < length H - tk_read t \<Longrightarrow>
    task_step d room hung_up H t (t\<lparr>tk_state := dr_fin d (tk_state t), tk_life := Ended\<rparr>)"
| skips_on_lag: "ready d t \<Longrightarrow> dr_skips d \<Longrightarrow> room < length H - tk_read t \<Longrightarrow>
    task_step d room hung_up H t (t\<lparr>tk_read := length H - room\<rparr>)"
| sees_close: "ready d t \<Longrightarrow> tk_read t = length H \<Longrightarrow> hung_up \<Longrightarrow>
    task_step d room hung_up H t (t\<lparr>tk_state := dr_fin d (tk_state t), tk_life := Ended\<rparr>)"
| aborted: "tk_life t = Up \<Longrightarrow> dr_await d (tk_state t) s \<Longrightarrow>
    task_step d room hung_up H t (t\<lparr>tk_state := s, tk_life := Gone\<rparr>)"

inductive_cases task_stepE: "task_step d room hung_up H t t'"

text \<open>What the readers have seen, and what the task makes of what it took.\<close>

definition shown :: "('u, 'e, 's, 'p) driver \<Rightarrow> ('u, 'e, 's) task \<Rightarrow> 'p list" where
  "shown d t = take (tk_sent t) (dr_out d (tk_state t))"

definition replayed :: "('u, 'e, 's, 'p) driver \<Rightarrow> ('u \<times> 'e) list \<Rightarrow> 's \<Rightarrow> 's" where
  "replayed d es s = fold (\<lambda>(u, e). dr_body d u e) es s"

definition task_ok ::
  "('u, 'e, 's, 'p) driver \<Rightarrow> 's \<Rightarrow> 'e list \<Rightarrow> ('u, 'e, 's) task \<Rightarrow> bool" where
  "task_ok d s H t \<longleftrightarrow>
     tk_read t \<le> length H \<and> tk_sent t \<le> length (dr_out d (tk_state t)) \<and> snd ` set (tk_log t) \<subseteq> set H \<and>
     (\<not> dr_skips d \<longrightarrow> map snd (tk_log t) = take (tk_read t) H) \<and>
     (case tk_life t of
        Up \<Rightarrow> tk_state t = replayed d (tk_log t) s
      | Ended \<Rightarrow> tk_state t = dr_fin d (replayed d (tk_log t) s)
      | Gone \<Rightarrow> dr_out d (tk_state t) = dr_out d (replayed d (tk_log t) s))"

text \<open>All that was sent to the task is taken, and all it made of it is sent.\<close>

definition caught_up :: "('u, 'e, 's, 'p) driver \<Rightarrow> 'e list \<Rightarrow> ('u, 'e, 's) task \<Rightarrow> bool" where
  "caught_up d H t \<longleftrightarrow> tk_read t = length H \<and> tk_sent t = length (dr_out d (tk_state t))"

section \<open>Drivers only add to their output\<close>

locale driver_task =
  fixes d :: "('u, 'e, 's, 'p) driver"
  assumes body_adds: "prefix (dr_out d s) (dr_out d (dr_body d u e s))"
    and fin_keeps: "dr_out d (dr_fin d s) = dr_out d s"
    and await_keeps: "dr_await d s s' \<Longrightarrow> dr_out d s' = dr_out d s"
begin

lemma replayed_adds: "prefix (dr_out d (replayed d es s)) (dr_out d (replayed d (es @ es') s))"
proof (induction es' rule: rev_induct)
  case (snoc x es')
  then show ?case
    by (cases x) (auto simp: replayed_def intro: prefix_order.trans body_adds)
qed simp

text \<open>Whatever the task has made it made of one event it took.\<close>

lemma output_from:
  assumes "p \<in> set (dr_out d (replayed d es s))" "p \<notin> set (dr_out d s)"
  shows "\<exists>u e z. (u, e) \<in> set es \<and> p \<in> set (dr_out d (dr_body d u e z)) \<and> p \<notin> set (dr_out d z)"
  using assms(1)
proof (induction es rule: rev_induct)
  case (snoc x es)
  obtain u e where x: "x = (u, e)" by (cases x)
  show ?case
  proof (cases "p \<in> set (dr_out d (replayed d es s))")
    case True
    with snoc.IH show ?thesis by auto
  next
    case False
    with snoc.prems x show ?thesis
      by (intro exI[of _ u] exI[of _ e] exI[of _ "replayed d es s"]) (simp add: replayed_def)
  qed
qed (use assms(2) in \<open>simp add: replayed_def\<close>)

lemma output_replayed: "task_ok d s H t \<Longrightarrow> dr_out d (tk_state t) = dr_out d (replayed d (tk_log t) s)"
  by (auto simp: task_ok_def fin_keeps split: task_life.splits)

lemma shown_prefix: "task_ok d s H t \<Longrightarrow> prefix (shown d t) (dr_out d (replayed d (tk_log t) s))"
  by (simp add: shown_def output_replayed take_is_prefix)

lemma shown_from:
  assumes "task_ok d s H t" "p \<in> set (shown d t)" "dr_out d s = []"
  shows "\<exists>u e z. e \<in> set H \<and> p \<in> set (dr_out d (dr_body d u e z)) \<and> p \<notin> set (dr_out d z)"
proof -
  have "p \<in> set (dr_out d (replayed d (tk_log t) s))"
    using assms(2) set_mono_prefix[OF shown_prefix[OF assms(1)]] by blast
  from output_from[OF this] assms(3) obtain u e z where
    "(u, e) \<in> set (tk_log t)" "p \<in> set (dr_out d (dr_body d u e z))" "p \<notin> set (dr_out d z)" by auto
  moreover have "snd ` set (tk_log t) \<subseteq> set H" using assms(1) by (simp add: task_ok_def)
  ultimately show ?thesis by (metis image_subset_iff snd_conv)
qed

lemma ok_start: "task_ok d s [] (task_start s)"
  by (simp add: task_ok_def task_start_def replayed_def)

lemma ok_grows: "task_ok d s H t \<Longrightarrow> prefix H H' \<Longrightarrow> task_ok d s H' t"
  by (auto simp: task_ok_def prefix_def)

lemma ok_step:
  assumes "task_step d room hung_up H t t'" "task_ok d s H t"
  shows "task_ok d s H t'"
  using assms(1)
proof cases
  case (receives u)
  have "tk_sent t \<le> length (dr_out d (dr_body d u (H ! tk_read t) (tk_state t)))"
    using receives(2) body_adds[of "tk_state t" u "H ! tk_read t"] prefix_length_le by (fastforce simp: ready_def)
  then show ?thesis
    using assms(2) receives by (auto simp: task_ok_def ready_def replayed_def take_Suc_conv_app_nth)
next
  case stops_on_lag
  then show ?thesis using assms(2) by (auto simp: task_ok_def ready_def fin_keeps)
next
  case sees_close
  then show ?thesis using assms(2) by (auto simp: task_ok_def ready_def fin_keeps)
next
  case (aborted s')
  then show ?thesis using assms(2) by (auto simp: task_ok_def await_keeps)
qed (use assms(2) in \<open>auto simp: task_ok_def ready_def\<close>)

lemma shown_grows:
  assumes "task_step d room hung_up H t t'"
  shows "prefix (shown d t) (shown d t')"
  using assms
proof cases
  case (receives u)
  obtain zs where zs: "dr_out d (dr_body d u (H ! tk_read t) (tk_state t)) = dr_out d (tk_state t) @ zs"
    using body_adds[of "tk_state t" u "H ! tk_read t"] by (auto simp: prefix_def)
  show ?thesis using receives(2) by (simp add: shown_def receives(1) zs ready_def)
next
  case sends
  then show ?thesis by (simp add: shown_def take_Suc_conv_app_nth)
qed (simp_all add: shown_def fin_keeps await_keeps)

end

section \<open>A task that has not lagged can catch up\<close>

definition working :: "nat \<Rightarrow> 'e list \<Rightarrow> ('u, 'e, 's) task \<Rightarrow> bool" where
  "working room H t \<longleftrightarrow> tk_life t = Up \<and> length H - tk_read t \<le> room"

text \<open>Alternate between what is downstream and one step of the stage, until the stage has nothing left.\<close>

lemma alternating:
  fixes f g :: "'z \<Rightarrow> nat"
  assumes down: "\<And>z. A z \<Longrightarrow> \<exists>z'. R\<^sup>*\<^sup>* z z' \<and> B z' \<and> f z' = f z \<and> g z' = g z"
    and step: "\<And>z. B z \<Longrightarrow> f z \<noteq> 0 \<or> g z \<noteq> 0 \<Longrightarrow> \<exists>z'. R z z' \<and> A z' \<and> (f z' < f z \<or> f z' = f z \<and> g z' < g z)"
    and start: "A z"
  shows "\<exists>z'. R\<^sup>*\<^sup>* z z' \<and> B z' \<and> f z' = 0 \<and> g z' = 0"
  using start
proof (induction z rule: wf_induct_rule[OF wf_measures[of "[f, g]"]])
  case (1 z)
  from down[OF 1(2)] obtain z1 where z1: "R\<^sup>*\<^sup>* z z1" "B z1" "f z1 = f z" "g z1 = g z" by blast
  show ?case
  proof (cases "f z1 = 0 \<and> g z1 = 0")
    case False
    then have "f z1 \<noteq> 0 \<or> g z1 \<noteq> 0" by simp
    from step[OF z1(2) this] obtain z2 where z2: "R z1 z2" "A z2" "f z2 < f z1 \<or> f z2 = f z1 \<and> g z2 < g z1" by blast
    have "(z2, z) \<in> measures [f, g]" using z2(3) z1(3,4) by auto
    from 1(1)[OF this z2(2)] obtain z' where "R\<^sup>*\<^sup>* z2 z'" "B z'" "f z' = 0" "g z' = 0" by blast
    with z1(1) z2(1) show ?thesis by (meson rtranclp_trans converse_rtranclp_into_rtranclp)
  qed (use z1 in blast)
qed

context driver_task
begin

lemma one_step:
  assumes "task_ok d s H t" "working room H t" "length H - tk_read t \<noteq> 0 \<or> length (dr_out d (tk_state t)) - tk_sent t \<noteq> 0"
  shows "\<exists>t'. task_step d room hung_up H t t' \<and> working room H t' \<and>
    length (shown d t') \<le> Suc (length (shown d t)) \<and>
    (length H - tk_read t' < length H - tk_read t \<or>
     length H - tk_read t' = length H - tk_read t \<and>
     length (dr_out d (tk_state t')) - tk_sent t' < length (dr_out d (tk_state t)) - tk_sent t)"
proof (cases "tk_sent t < length (dr_out d (tk_state t))")
  case True
  with assms(2) show ?thesis
    by (intro exI[of _ "t\<lparr>tk_sent := Suc (tk_sent t)\<rparr>"] conjI task_step.sends) (auto simp: working_def shown_def)
next
  case False
  then have r: "ready d t" using assms(1,2) by (auto simp: ready_def working_def task_ok_def)
  have "tk_read t < length H" using False assms(3) by simp
  then show ?thesis
    using assms(2) r False
    by (intro exI[of _ "t\<lparr>tk_state := dr_body d u (H ! tk_read t) (tk_state t), tk_log := tk_log t @ [(u, H ! tk_read t)],
         tk_read := Suc (tk_read t)\<rparr>" for u] conjI task_step.receives) (auto simp: working_def shown_def ready_def)
qed

text \<open>\<open>up\<close> is what is upstream of the stage and stays as it is, \<open>done\<close> says that what is downstream has
  caught up, \<open>able\<close> that it can.\<close>

lemma stage_settles:
  assumes lift: "\<And>z t. task_step d room (hung z) (H (up z)) (get z) t \<Longrightarrow> R z (put t z)"
    and put: "\<And>z t. get (put t z) = t" "\<And>z t. up (put t z) = up z"
    and pushes: "\<And>z t. settled_below z \<Longrightarrow> length (shown d t) \<le> Suc (length (shown d (get z))) \<Longrightarrow> able (put t z)"
    and down: "\<And>z. I z \<Longrightarrow> able z \<Longrightarrow> \<exists>z'. R\<^sup>*\<^sup>* z z' \<and> I z' \<and> settled_below z' \<and> up z' = up z \<and> get z' = get z"
    and inv: "\<And>z z'. R z z' \<Longrightarrow> I z \<Longrightarrow> I z'" and ok: "\<And>z. I z \<Longrightarrow> task_ok d s (H (up z)) (get z)"
    and start: "I z" "able z" "working room (H (up z)) (get z)"
  shows "\<exists>z'. R\<^sup>*\<^sup>* z z' \<and> I z' \<and> settled_below z' \<and> up z' = up z \<and> tk_life (get z') = Up \<and> caught_up d (H (up z')) (get z')"
proof -
  define h where "h = H (up z)"
  let ?f = "\<lambda>y. length h - tk_read (get y)" and ?g = "\<lambda>y. length (dr_out d (tk_state (get y))) - tk_sent (get y)"
  let ?A = "\<lambda>y. I y \<and> able y \<and> up y = up z \<and> working room h (get y)"
  let ?B = "\<lambda>y. I y \<and> settled_below y \<and> up y = up z \<and> working room h (get y)"
  have "\<exists>z'. R\<^sup>*\<^sup>* z z' \<and> ?B z' \<and> ?f z' = 0 \<and> ?g z' = 0"
  proof (rule alternating[where A = ?A and B = ?B])
    show "\<exists>z'. R\<^sup>*\<^sup>* y z' \<and> ?B z' \<and> ?f z' = ?f y \<and> ?g z' = ?g y" if "?A y" for y
      using down[of y] that by metis
    show "\<exists>z'. R y z' \<and> ?A z' \<and> (?f z' < ?f y \<or> ?f z' = ?f y \<and> ?g z' < ?g y)" if "?B y" "?f y \<noteq> 0 \<or> ?g y \<noteq> 0" for y
    proof -
      have h: "H (up y) = h" using that(1) by (simp add: h_def)
      from one_step[OF ok[of y, unfolded h] _ that(2)] that(1) obtain t' where
        t': "task_step d room (hung y) h (get y) t'" "working room h t'" "length (shown d t') \<le> Suc (length (shown d (get y)))"
        "length h - tk_read t' < ?f y \<or> length h - tk_read t' = ?f y \<and> length (dr_out d (tk_state t')) - tk_sent t' < ?g y"
        by blast
      have "R y (put t' y)" using lift t'(1) h by simp
      with that(1) t' show ?thesis
        by (intro exI[of _ "put t' y"]) (use inv[of y "put t' y"] pushes[of y t'] put in auto)
    qed
    show "?A z" using start by (simp add: h_def)
  qed
  then obtain z' where z': "R\<^sup>*\<^sup>* z z'" "?B z'" "?f z' = 0" "?g z' = 0" by blast
  then have "caught_up d h (get z')" using ok[of z'] by (simp add: caught_up_def task_ok_def h_def)
  with z' show ?thesis by (intro exI[of _ z']) (simp add: h_def working_def)
qed

end

section \<open>Drivers without surroundings\<close>

text \<open>A driver whose world nobody else changes computes a function of the history.\<close>

definition makes :: "(unit, 'e, 's, 'p) driver \<Rightarrow> 's \<Rightarrow> 'e list \<Rightarrow> 'p list" where
  "makes d s H = dr_out d (fold (dr_body d ()) H s)"

lemma replayed_unit: "replayed d es s = fold (dr_body d ()) (map snd es) s"
  for d :: "(unit, 'e, 's, 'p) driver"
  by (induction es arbitrary: s) (auto simp: replayed_def)

locale private_driver = driver_task d for d :: "(unit, 'e, 's, 'p) driver" +
  assumes stops: "\<not> dr_skips d"
begin

lemma log_is_history: "task_ok d s H t \<Longrightarrow> map snd (tk_log t) = take (tk_read t) H"
  by (simp add: task_ok_def stops)

lemma makes_mono: "prefix H H' \<Longrightarrow> prefix (makes d s H) (makes d s H')"
proof (elim prefixE)
  fix zs assume "H' = H @ zs"
  then show ?thesis
    using replayed_adds[of "map (Pair ()) H" s "map (Pair ()) zs"] by (simp add: makes_def replayed_unit comp_def)
qed

lemma shown_makes: "task_ok d s H t \<Longrightarrow> prefix (shown d t) (makes d s H)"
  using shown_prefix[of s H t] makes_mono[OF take_is_prefix, of s "tk_read t" H]
  by (auto simp: replayed_unit log_is_history makes_def intro: prefix_order.trans)

lemma shown_all: "task_ok d s H t \<Longrightarrow> caught_up d H t \<Longrightarrow> shown d t = makes d s H"
  by (simp add: caught_up_def shown_def output_replayed replayed_unit log_is_history makes_def)

lemma state_ended: "task_ok d s H t \<Longrightarrow> tk_life t = Ended \<Longrightarrow> tk_state t = dr_fin d (fold (dr_body d ()) (take (tk_read t) H) s)"
  by (simp add: task_ok_def replayed_unit stops)

end

end
