(* ===== verification/App_Run.thy ===== *)
theory App_Run
  imports Task_Runs App_Pipeline App_Submission App_Shutdown
begin

text \<open>
  The full pipeline that \<open>wire_phase4\<close> of \<open>crates/app/src/lib.rs\<close> starts, as it runs: ten tasks beside each
  other, each a driver of \<open>App_Drivers\<close> or \<open>App_Submission\<close> over its broadcast channel, in any
  interleaving, with lags, aborts and the closing of channels.
\<close>

section \<open>What the tasks are given\<close>

text \<open>The values \<open>wire_phase4\<close> hands to the tasks it spawns, and what those start from: the world of the
  node and the snapshot, the simulator's state, the journals as opened, the worlds of the two relay
  drivers.  \<open>pa_source\<close> is what the mempool stream will yield.\<close>

record ('w, 'd, 'm, 'c, 'j, 'k) parts =
  pa_room :: nat
  pa_source :: "(ingress_error + mempool_event) list"
  pa_clock :: "task4 \<Rightarrow> clock"
  pa_ingress_codec :: "ingress_event codec"
  pa_ingress_journal :: journal
  pa_state_codec :: "state_update_event codec"
  pa_state_journal :: journal
  pa_kv :: "'d kv_ops"
  pa_values :: "pool_state value_codec"
  pa_engine :: "'w state_engine"
  pa_world :: "'w \<times> 'd snapshot"
  pa_gate :: risk_gate
  pa_simulator :: "'m local_simulator"
  pa_simulator_state :: 'm
  pa_weth :: address
  pa_usdc :: address
  pa_constructor :: bundle_constructor
  pa_relay_sim :: "(relay_sim_request \<Rightarrow> 'c \<Rightarrow> (relay_sim_error + relay_simulation_outcome) \<times> 'c) option"
  pa_relay :: "(signed_bundle \<Rightarrow> 'c \<Rightarrow> (bundle_relay_error + submission_receipt) \<times> 'c) option"
  pa_switch :: "'c \<Rightarrow> kill_switch"
  pa_relay_world :: 'c
  pa_mismatch :: "(mismatch_abort, 'j) journal_sink"
  pa_mismatch_journal :: 'j
  pa_submission_gate :: submission_gate
  pa_keccak :: "bytes \<Rightarrow> bytes"
  pa_receipts :: "(submission_receipt, 'k) journal_sink"
  pa_receipt_journal :: 'k

section \<open>The ten drivers\<close>

definition producer_task ::
  "('w, 'd, 'm, 'c, 'j, 'k) parts \<Rightarrow> (unit, ingress_error + mempool_event, ingress_event stage, ingress_event envelope) driver" where
  "producer_task pa =
     \<lparr>dr_body = (\<lambda>_. producer_step (pa_clock pa Producer)), dr_fin = (\<lambda>s. s), dr_out = sg_out,
      dr_await = (\<lambda>s s'. s' = s), dr_skips = False\<rparr>"

text \<open>A journal task sends nothing; its loop awaits only the next envelope.\<close>

definition drain_task :: "'p codec \<Rightarrow> (unit, 'p envelope, journal, unit) driver" where
  "drain_task cd =
     \<lparr>dr_body = (\<lambda>_. drain_step cd), dr_fin = (\<lambda>j. snd (journal_flush j)), dr_out = (\<lambda>_. []),
      dr_await = (\<lambda>j j'. j' = j), dr_skips = False\<rparr>"

definition state_task ::
  "('w, 'd, 'm, 'c, 'j, 'k) parts
   \<Rightarrow> (unit, ingress_event envelope, ('w, 'd) state_driver, state_update_event envelope) driver" where
  "state_task pa =
     \<lparr>dr_body = (\<lambda>_. state_engine_step (pa_kv pa) (pa_values pa) (pa_engine pa) (pa_clock pa StateDriver)),
      dr_fin = (\<lambda>s. s), dr_out = sg_out \<circ> sd_stage,
      dr_await = (\<lambda>s s'. \<exists>w. s' = s\<lparr>sd_world := w\<rparr>), dr_skips = False\<rparr>"

definition opportunity_task ::
  "('w, 'd, 'm, 'c, 'j, 'k) parts
   \<Rightarrow> (unit, state_update_event envelope, opportunity_driver, opportunity_event envelope) driver" where
  "opportunity_task pa =
     \<lparr>dr_body = (\<lambda>_. opportunity_step (pa_clock pa OpportunityDriver)), dr_fin = (\<lambda>s. s),
      dr_out = sg_out \<circ> od_stage, dr_await = (\<lambda>s s'. s' = s), dr_skips = False\<rparr>"

definition risk_task ::
  "('w, 'd, 'm, 'c, 'j, 'k) parts
   \<Rightarrow> (unit, opportunity_event envelope, risk_checked_opportunity stage, risk_checked_opportunity envelope) driver" where
  "risk_task pa =
     \<lparr>dr_body = (\<lambda>_. risk_step (pa_gate pa) (pa_clock pa RiskDriver)), dr_fin = (\<lambda>s. s), dr_out = sg_out,
      dr_await = (\<lambda>s s'. s' = s), dr_skips = False\<rparr>"

definition simulator_task ::
  "('w, 'd, 'm, 'c, 'j, 'k) parts
   \<Rightarrow> (unit, risk_checked_opportunity envelope, 'm simulator_driver, simulation_outcome_with_fingerprint envelope) driver" where
  "simulator_task pa =
     \<lparr>dr_body = (\<lambda>_. simulator_step (pa_simulator pa) (pa_weth pa) (pa_usdc pa) (pa_constructor pa) (pa_clock pa SimulatorDriver)),
      dr_fin = (\<lambda>s. s), dr_out = sg_out \<circ> md_stage,
      dr_await = (\<lambda>s s'. \<exists>m. s' = s\<lparr>md_sim := m\<rparr>), dr_skips = False\<rparr>"

definition execution_task ::
  "('w, 'd, 'm, 'c, 'j, 'k) parts
   \<Rightarrow> (unit, simulation_outcome_with_fingerprint envelope, bundle_candidate stage, bundle_candidate envelope) driver" where
  "execution_task pa =
     \<lparr>dr_body = (\<lambda>_. execution_step (pa_constructor pa) (pa_clock pa ExecutionDriver)), dr_fin = (\<lambda>s. s),
      dr_out = sg_out, dr_await = (\<lambda>s s'. s' = s), dr_skips = False\<rparr>"

text \<open>The comparator has three senders; its output lists what went to any of them.\<close>

definition comparator_task ::
  "('w, 'd, 'm, 'c, 'j, 'k) parts
   \<Rightarrow> ('c \<Rightarrow> 'c, simulation_outcome_with_fingerprint envelope, ('c, 'j) comparator_state, comparator_action) driver" where
  "comparator_task pa =
     \<lparr>dr_body = (\<lambda>u e s.
        case pa_relay_sim pa of
          None \<Rightarrow> s
        | Some simulate \<Rightarrow>
            comparator_step simulate (pa_switch pa) (pa_constructor pa) (pa_mismatch pa) (pa_clock pa ComparatorDriver) e
              (s\<lparr>cs_world := u (cs_world s)\<rparr>)),
      dr_fin = shut_comparator (pa_mismatch pa), dr_out = cs_sent,
      dr_await = (\<lambda>s s'. \<exists>w. s' = s\<lparr>cs_world := w\<rparr>), dr_skips = False\<rparr>"

text \<open>Without a relay the submission driver only drains its receiver, and then a lag ends it.\<close>

definition submission_task ::
  "('w, 'd, 'm, 'c, 'j, 'k) parts \<Rightarrow> ('c \<Rightarrow> 'c, submission_attempt, ('c, 'k) submission_state, unit) driver" where
  "submission_task pa =
     \<lparr>dr_body = (\<lambda>u a s.
        case pa_relay pa of
          None \<Rightarrow> s
        | Some submit \<Rightarrow>
            submission_step submit (pa_switch pa) (pa_submission_gate pa) (pa_keccak pa) (pa_receipts pa)
              (pa_clock pa SubmissionDriver) a (s\<lparr>ss_world := u (ss_world s)\<rparr>)),
      dr_fin = (\<lambda>s. s), dr_out = (\<lambda>_. []),
      dr_await = (\<lambda>s s'. \<exists>w. s' = s\<lparr>ss_world := w\<rparr>), dr_skips = (pa_relay pa \<noteq> None)\<rparr>"

section \<open>The pipeline\<close>

record ('w, 'd, 'm, 'c, 'j, 'k) pipeline =
  pl_ingress :: "ingress_event envelope list"
  pl_handle :: "chan4 \<Rightarrow> bool"
  pl_producer :: "(unit, ingress_error + mempool_event, ingress_event stage) task"
  pl_ingress_drain :: "(unit, ingress_event envelope, journal) task"
  pl_state :: "(unit, ingress_event envelope, ('w, 'd) state_driver) task"
  pl_state_drain :: "(unit, state_update_event envelope, journal) task"
  pl_opportunity :: "(unit, state_update_event envelope, opportunity_driver) task"
  pl_risk :: "(unit, opportunity_event envelope, risk_checked_opportunity stage) task"
  pl_simulator :: "(unit, risk_checked_opportunity envelope, 'm simulator_driver) task"
  pl_execution :: "(unit, simulation_outcome_with_fingerprint envelope, bundle_candidate stage) task"
  pl_comparator :: "('c \<Rightarrow> 'c, simulation_outcome_with_fingerprint envelope, ('c, 'j) comparator_state) task"
  pl_submission :: "('c \<Rightarrow> 'c, submission_attempt, ('c, 'k) submission_state) task"

definition state_start :: "('w, 'd, 'm, 'c, 'j, 'k) parts \<Rightarrow> ('w, 'd) state_driver" where
  "state_start pa = \<lparr>sd_stage = stage_init, sd_world = pa_world pa\<rparr>"

definition simulator_start :: "('w, 'd, 'm, 'c, 'j, 'k) parts \<Rightarrow> 'm simulator_driver" where
  "simulator_start pa = \<lparr>md_stage = stage_init, md_sim = pa_simulator_state pa\<rparr>"

definition comparator_start :: "('w, 'd, 'm, 'c, 'j, 'k) parts \<Rightarrow> ('c, 'j) comparator_state" where
  "comparator_start pa =
     \<lparr>cs_world = pa_relay_world pa, cs_seq = 0, cs_tick = 0, cs_journal = pa_mismatch_journal pa, cs_sent = []\<rparr>"

definition submission_start :: "('w, 'd, 'm, 'c, 'j, 'k) parts \<Rightarrow> ('c, 'k) submission_state" where
  "submission_start pa =
     \<lparr>ss_world = pa_relay_world pa, ss_seq = 0, ss_tick = 0, ss_journal = pa_receipt_journal pa\<rparr>"

text \<open>The comparator without a relay returns at once.\<close>

definition pipe_start :: "('w, 'd, 'm, 'c, 'j, 'k) parts \<Rightarrow> ('w, 'd, 'm, 'c, 'j, 'k) pipeline" where
  "pipe_start pa =
     \<lparr>pl_ingress = [], pl_handle = (\<lambda>_. True),
      pl_producer = task_start stage_init,
      pl_ingress_drain = task_start (pa_ingress_journal pa),
      pl_state = task_start (state_start pa),
      pl_state_drain = task_start (pa_state_journal pa),
      pl_opportunity = task_start od_init,
      pl_risk = task_start stage_init,
      pl_simulator = task_start (simulator_start pa),
      pl_execution = task_start stage_init,
      pl_comparator = (task_start (comparator_start pa))\<lparr>tk_life := (if pa_relay_sim pa = None then Gone else Up)\<rparr>,
      pl_submission = task_start (submission_start pa)\<rparr>"

text \<open>What has been sent on each channel.  One task sends on each of them but the first.\<close>

definition state_chan ::
  "('w, 'd, 'm, 'c, 'j, 'k) parts \<Rightarrow> ('w, 'd, 'm, 'c, 'j, 'k) pipeline \<Rightarrow> state_update_event envelope list" where
  "state_chan pa s = shown (state_task pa) (pl_state s)"

definition opp_chan ::
  "('w, 'd, 'm, 'c, 'j, 'k) parts \<Rightarrow> ('w, 'd, 'm, 'c, 'j, 'k) pipeline \<Rightarrow> opportunity_event envelope list" where
  "opp_chan pa s = shown (opportunity_task pa) (pl_opportunity s)"

definition risk_chan ::
  "('w, 'd, 'm, 'c, 'j, 'k) parts \<Rightarrow> ('w, 'd, 'm, 'c, 'j, 'k) pipeline \<Rightarrow> risk_checked_opportunity envelope list" where
  "risk_chan pa s = shown (risk_task pa) (pl_risk s)"

definition sim_chan ::
  "('w, 'd, 'm, 'c, 'j, 'k) parts \<Rightarrow> ('w, 'd, 'm, 'c, 'j, 'k) pipeline \<Rightarrow> simulation_outcome_with_fingerprint envelope list" where
  "sim_chan pa s = shown (simulator_task pa) (pl_simulator s)"

definition exec_chan ::
  "('w, 'd, 'm, 'c, 'j, 'k) parts \<Rightarrow> ('w, 'd, 'm, 'c, 'j, 'k) pipeline \<Rightarrow> bundle_candidate envelope list" where
  "exec_chan pa s = shown (execution_task pa) (pl_execution s)"

fun attempt_of :: "comparator_action \<Rightarrow> submission_attempt option" where
  "attempt_of (SentAttempt a) = Some a"
| "attempt_of (SentPassed c) = None"
| "attempt_of (SentMismatch m) = None"

definition submission_chan ::
  "('w, 'd, 'm, 'c, 'j, 'k) parts \<Rightarrow> ('w, 'd, 'm, 'c, 'j, 'k) pipeline \<Rightarrow> submission_attempt list" where
  "submission_chan pa s = List.map_filter attempt_of (shown (comparator_task pa) (pl_comparator s))"

text \<open>A channel is closed when the handle has dropped its sender and the task that owns a clone has
  ended.\<close>

definition shut :: "chan4 \<Rightarrow> ('u, 'e, 's) task \<Rightarrow> ('w, 'd, 'm, 'c, 'j, 'k) pipeline \<Rightarrow> bool" where
  "shut c sender s \<longleftrightarrow> \<not> pl_handle s c \<and> tk_life sender \<noteq> Up"

text \<open>One step of any task, or of the handle.  The producer reads a stream, which never lags.  \<open>others\<close> is a
  send by another owner of the ingress sender, as the subscriber of new heads would be.\<close>

inductive pipe_step ::
  "('w, 'd, 'm, 'c, 'j, 'k) parts \<Rightarrow> ('w, 'd, 'm, 'c, 'j, 'k) pipeline \<Rightarrow> ('w, 'd, 'm, 'c, 'j, 'k) pipeline \<Rightarrow> bool"
  for pa where
  producer: "task_step (producer_task pa) (length (pa_source pa)) True (pa_source pa) (pl_producer s) t \<Longrightarrow>
    pipe_step pa s (s\<lparr>pl_producer := t,
      pl_ingress := pl_ingress s @ drop (tk_sent (pl_producer s)) (shown (producer_task pa) t)\<rparr>)"
| others: "pl_handle s IngressTx \<Longrightarrow> pipe_step pa s (s\<lparr>pl_ingress := pl_ingress s @ [env]\<rparr>)"
| handle_drops: "pipe_step pa s (s\<lparr>pl_handle := (pl_handle s)(c := False)\<rparr>)"
| ingress_drain: "task_step (drain_task (pa_ingress_codec pa)) (pa_room pa) (shut IngressTx (pl_producer s) s)
      (pl_ingress s) (pl_ingress_drain s) t \<Longrightarrow> pipe_step pa s (s\<lparr>pl_ingress_drain := t\<rparr>)"
| state: "task_step (state_task pa) (pa_room pa) (shut IngressTx (pl_producer s) s) (pl_ingress s) (pl_state s) t \<Longrightarrow>
    pipe_step pa s (s\<lparr>pl_state := t\<rparr>)"
| state_drain: "task_step (drain_task (pa_state_codec pa)) (pa_room pa) (shut StateTx (pl_state s) s)
      (state_chan pa s) (pl_state_drain s) t \<Longrightarrow> pipe_step pa s (s\<lparr>pl_state_drain := t\<rparr>)"
| opportunity: "task_step (opportunity_task pa) (pa_room pa) (shut StateTx (pl_state s) s)
      (state_chan pa s) (pl_opportunity s) t \<Longrightarrow> pipe_step pa s (s\<lparr>pl_opportunity := t\<rparr>)"
| risk: "task_step (risk_task pa) (pa_room pa) (shut OppTx (pl_opportunity s) s) (opp_chan pa s) (pl_risk s) t \<Longrightarrow>
    pipe_step pa s (s\<lparr>pl_risk := t\<rparr>)"
| simulator: "task_step (simulator_task pa) (pa_room pa) (shut RiskTx (pl_risk s) s) (risk_chan pa s) (pl_simulator s) t \<Longrightarrow>
    pipe_step pa s (s\<lparr>pl_simulator := t\<rparr>)"
| execution: "task_step (execution_task pa) (pa_room pa) (shut SimTx (pl_simulator s) s) (sim_chan pa s) (pl_execution s) t \<Longrightarrow>
    pipe_step pa s (s\<lparr>pl_execution := t\<rparr>)"
| comparator: "task_step (comparator_task pa) (pa_room pa) (shut SimTx (pl_simulator s) s) (sim_chan pa s) (pl_comparator s) t \<Longrightarrow>
    pipe_step pa s (s\<lparr>pl_comparator := t\<rparr>)"
| submission: "task_step (submission_task pa) (pa_room pa) (shut SubmissionTx (pl_comparator s) s)
      (submission_chan pa s) (pl_submission s) t \<Longrightarrow> pipe_step pa s (s\<lparr>pl_submission := t\<rparr>)"

inductive_cases pipe_stepE: "pipe_step pa s s'"

abbreviation pipe_reaches ::
  "('w, 'd, 'm, 'c, 'j, 'k) parts \<Rightarrow> ('w, 'd, 'm, 'c, 'j, 'k) pipeline \<Rightarrow> ('w, 'd, 'm, 'c, 'j, 'k) pipeline \<Rightarrow> bool" where
  "pipe_reaches pa \<equiv> (pipe_step pa)\<^sup>*\<^sup>*"

section \<open>The drivers keep their output\<close>

lemma emit_all_adds: "prefix (sg_out s) (sg_out (emit_all clk src ps s))"
proof (induction ps arbitrary: s)
  case (Cons p ps)
  have "prefix (sg_out s) (sg_out (emit clk src p s))" by (rule emit_cases[of clk src p s]) simp_all
  then show ?case using Cons.IH by (auto simp: emit_all_Cons intro: prefix_order.trans)
qed simp

context publishing_stage
begin

lemma step_adds: "prefix (sg_out (stage s)) (sg_out (stage (step e s)))"
  using publishes[of e s] emit_all_adds by metis

end

lemma report_mismatch_adds: "prefix (cs_sent s) (cs_sent (report_mismatch ms clk cc cid a s))"
  by (auto simp: report_mismatch_def split: prod.split option.split bool.split)

lemma comparator_step_adds: "prefix (cs_sent s) (cs_sent (comparator_step simulate ks bd ms clk e s))"
  by (rule comparator_step_cases[of simulate ks bd ms clk e s])
    (simp_all, metis comparator_state.select_convs(5) comparator_state.surjective comparator_state.update_convs(1) report_mismatch_adds)

interpretation producer: private_driver "producer_task pa" for pa
  by unfold_locales (auto simp: producer_task_def producer_step_def emit_as_all intro: emit_all_adds split: sum.split)

interpretation drain: private_driver "drain_task cd" for cd
  by unfold_locales (auto simp: drain_task_def)

interpretation state: private_driver "state_task pa" for pa
  by unfold_locales (auto simp: state_task_def intro: state_stage.step_adds)

interpretation opportunity: private_driver "opportunity_task pa" for pa
  by unfold_locales (auto simp: opportunity_task_def intro: opportunity_stage.step_adds)

interpretation risk: private_driver "risk_task pa" for pa
  by unfold_locales (auto simp: risk_task_def intro: risk_stage.step_adds)

interpretation simulator: private_driver "simulator_task pa" for pa
  by unfold_locales (auto simp: simulator_task_def intro: simulator_stage.step_adds)

interpretation execution: private_driver "execution_task pa" for pa
  by unfold_locales (auto simp: execution_task_def intro: execution_stage.step_adds)

interpretation comparator: driver_task "comparator_task pa" for pa
  by unfold_locales
    (auto simp: comparator_task_def shut_comparator_def comparator_step_adds[of "_\<lparr>cs_world := _\<rparr>", simplified] split: option.split)

interpretation submission: driver_task "submission_task pa" for pa
  by unfold_locales (auto simp: submission_task_def)

section \<open>An invariant of every run\<close>

definition pipe_ok ::
  "('w, 'd, 'm, 'c, 'j, 'k) parts \<Rightarrow> ('w, 'd, 'm, 'c, 'j, 'k) pipeline \<Rightarrow> bool" where
  "pipe_ok pa s \<longleftrightarrow>
     task_ok (producer_task pa) stage_init (pa_source pa) (pl_producer s) \<and>
     subseq (shown (producer_task pa) (pl_producer s)) (pl_ingress s) \<and>
     task_ok (drain_task (pa_ingress_codec pa)) (pa_ingress_journal pa) (pl_ingress s) (pl_ingress_drain s) \<and>
     task_ok (state_task pa) (state_start pa) (pl_ingress s) (pl_state s) \<and>
     task_ok (drain_task (pa_state_codec pa)) (pa_state_journal pa) (state_chan pa s) (pl_state_drain s) \<and>
     task_ok (opportunity_task pa) od_init (state_chan pa s) (pl_opportunity s) \<and>
     task_ok (risk_task pa) stage_init (opp_chan pa s) (pl_risk s) \<and>
     task_ok (simulator_task pa) (simulator_start pa) (risk_chan pa s) (pl_simulator s) \<and>
     task_ok (execution_task pa) stage_init (sim_chan pa s) (pl_execution s) \<and>
     task_ok (comparator_task pa) (comparator_start pa) (sim_chan pa s) (pl_comparator s) \<and>
     task_ok (submission_task pa) (submission_start pa) (submission_chan pa s) (pl_submission s)"

lemmas chan_defs = state_chan_def opp_chan_def risk_chan_def sim_chan_def exec_chan_def submission_chan_def

lemma map_filter_prefix: "prefix xs ys \<Longrightarrow> prefix (List.map_filter f xs) (List.map_filter f ys)"
  by (auto simp: prefix_def map_filter_def)

lemma prefix_drop_shown: "prefix (shown d t) (shown d t') \<Longrightarrow> length (shown d t) = n \<Longrightarrow> shown d t' = shown d t @ drop n (shown d t')"
  by (auto simp: prefix_def)

lemma shown_start: "shown d (task_start x) = []" "shown d (t\<lparr>tk_life := l\<rparr>) = shown d t"
  by (simp_all add: shown_def task_start_def)

lemma pipe_ok_start: "pipe_ok pa (pipe_start pa)"
proof -
  have "task_ok (comparator_task pa) (comparator_start pa) []
      ((task_start (comparator_start pa))\<lparr>tk_life := (if pa_relay_sim pa = None then Gone else Up)\<rparr>)"
    using comparator.ok_start[of pa "comparator_start pa"] by (simp add: task_ok_def task_start_def replayed_def)
  moreover have "task_ok (producer_task pa) stage_init (pa_source pa) (task_start stage_init)"
    using producer.ok_grows[OF producer.ok_start, where H' = "pa_source pa"] by simp
  ultimately show ?thesis
    by (simp add: pipe_ok_def pipe_start_def chan_defs drain.ok_start state.ok_start opportunity.ok_start
        risk.ok_start simulator.ok_start execution.ok_start submission.ok_start map_filter_simps shown_start)
qed

lemma pipe_ok_step:
  assumes "pipe_step pa s s'" "pipe_ok pa s"
  shows "pipe_ok pa s'"
  using assms(1)
proof cases
  case (producer t)
  note ok = assms(2)[unfolded pipe_ok_def]
  have g: "prefix (shown (producer_task pa) (pl_producer s)) (shown (producer_task pa) t)"
    by (rule producer.shown_grows[OF producer(2)])
  have "length (shown (producer_task pa) (pl_producer s)) = tk_sent (pl_producer s)"
    using ok by (simp add: shown_def task_ok_def)
  with prefix_drop_shown[OF g] have
    "subseq (shown (producer_task pa) t) (pl_ingress s @ drop (tk_sent (pl_producer s)) (shown (producer_task pa) t))"
    using ok by (metis list_emb_append_mono subseq_order.refl)
  then show ?thesis
    using ok producer.ok_step[OF producer(2)]
    by (auto simp: pipe_ok_def producer(1) chan_defs intro: drain.ok_grows state.ok_grows)
next
  case (others env)
  then show ?thesis
    using assms(2) by (auto simp: pipe_ok_def chan_defs intro: drain.ok_grows state.ok_grows)
qed (use assms(2) in \<open>auto simp: pipe_ok_def chan_defs intro: drain.ok_step state.ok_step opportunity.ok_step
    risk.ok_step simulator.ok_step execution.ok_step comparator.ok_step submission.ok_step
    drain.ok_grows opportunity.ok_grows risk.ok_grows simulator.ok_grows execution.ok_grows comparator.ok_grows
    submission.ok_grows state.shown_grows opportunity.shown_grows risk.shown_grows simulator.shown_grows
    comparator.shown_grows map_filter_prefix\<close>)

lemma pipe_ok_reached: "pipe_reaches pa (pipe_start pa) s \<Longrightarrow> pipe_ok pa s"
  by (induction rule: rtranclp_induct) (auto intro: pipe_ok_start pipe_ok_step)

section \<open>The stages one after the other\<close>

text \<open>The reference: each stage is run to its end on the whole output of the stage before it.\<close>

definition sequential_updates ::
  "('w, 'd, 'm, 'c, 'j, 'k) parts \<Rightarrow> ingress_event envelope list \<Rightarrow> state_update_event envelope list" where
  "sequential_updates pa H =
     sg_out (sd_stage (run_driver (state_engine_step (pa_kv pa) (pa_values pa) (pa_engine pa) (pa_clock pa StateDriver))
       (map Received H) (state_start pa)))"

definition sequential_opportunities ::
  "('w, 'd, 'm, 'c, 'j, 'k) parts \<Rightarrow> ingress_event envelope list \<Rightarrow> opportunity_event envelope list" where
  "sequential_opportunities pa H =
     sg_out (od_stage (run_driver (opportunity_step (pa_clock pa OpportunityDriver))
       (map Received (sequential_updates pa H)) od_init))"

definition sequential_approvals ::
  "('w, 'd, 'm, 'c, 'j, 'k) parts \<Rightarrow> ingress_event envelope list \<Rightarrow> risk_checked_opportunity envelope list" where
  "sequential_approvals pa H =
     sg_out (run_driver (risk_step (pa_gate pa) (pa_clock pa RiskDriver))
       (map Received (sequential_opportunities pa H)) stage_init)"

definition sequential_outcomes ::
  "('w, 'd, 'm, 'c, 'j, 'k) parts \<Rightarrow> ingress_event envelope list \<Rightarrow> simulation_outcome_with_fingerprint envelope list" where
  "sequential_outcomes pa H =
     sg_out (md_stage (run_driver (simulator_step (pa_simulator pa) (pa_weth pa) (pa_usdc pa) (pa_constructor pa)
         (pa_clock pa SimulatorDriver)) (map Received (sequential_approvals pa H)) (simulator_start pa)))"

definition sequential_candidates ::
  "('w, 'd, 'm, 'c, 'j, 'k) parts \<Rightarrow> ingress_event envelope list \<Rightarrow> bundle_candidate envelope list" where
  "sequential_candidates pa H =
     sg_out (run_driver (execution_step (pa_constructor pa) (pa_clock pa ExecutionDriver))
       (map Received (sequential_outcomes pa H)) stage_init)"

lemma run_driver_fold: "run_driver body (map Received xs) s = fold body xs s"
  using run_driver_received[of body xs "[]" s] by simp

lemmas sequential_makes =
  makes_def sequential_updates_def sequential_opportunities_def sequential_approvals_def sequential_outcomes_def
  sequential_candidates_def run_driver_fold state_task_def opportunity_task_def risk_task_def simulator_task_def execution_task_def

lemma sequential_stages:
  "sequential_updates pa H = makes (state_task pa) (state_start pa) H"
  "sequential_opportunities pa H = makes (opportunity_task pa) od_init (sequential_updates pa H)"
  "sequential_approvals pa H = makes (risk_task pa) stage_init (sequential_opportunities pa H)"
  "sequential_outcomes pa H = makes (simulator_task pa) (simulator_start pa) (sequential_approvals pa H)"
  "sequential_candidates pa H = makes (execution_task pa) stage_init (sequential_outcomes pa H)"
  by (simp_all add: sequential_makes)

text \<open>Everything sent is taken and everything made of it is sent, in all five stages.\<close>

definition settled :: "('w, 'd, 'm, 'c, 'j, 'k) parts \<Rightarrow> ('w, 'd, 'm, 'c, 'j, 'k) pipeline \<Rightarrow> bool" where
  "settled pa s \<longleftrightarrow>
     caught_up (state_task pa) (pl_ingress s) (pl_state s) \<and>
     caught_up (opportunity_task pa) (state_chan pa s) (pl_opportunity s) \<and>
     caught_up (risk_task pa) (opp_chan pa s) (pl_risk s) \<and>
     caught_up (simulator_task pa) (risk_chan pa s) (pl_simulator s) \<and>
     caught_up (execution_task pa) (sim_chan pa s) (pl_execution s)"

definition within_sequential ::
  "('w, 'd, 'm, 'c, 'j, 'k) parts \<Rightarrow> ('w, 'd, 'm, 'c, 'j, 'k) pipeline \<Rightarrow> bool" where
  "within_sequential pa s \<longleftrightarrow>
     prefix (state_chan pa s) (sequential_updates pa (pl_ingress s)) \<and>
     prefix (opp_chan pa s) (sequential_opportunities pa (pl_ingress s)) \<and>
     prefix (risk_chan pa s) (sequential_approvals pa (pl_ingress s)) \<and>
     prefix (sim_chan pa s) (sequential_outcomes pa (pl_ingress s)) \<and>
     prefix (exec_chan pa s) (sequential_candidates pa (pl_ingress s))"

definition equals_sequential ::
  "('w, 'd, 'm, 'c, 'j, 'k) parts \<Rightarrow> ('w, 'd, 'm, 'c, 'j, 'k) pipeline \<Rightarrow> bool" where
  "equals_sequential pa s \<longleftrightarrow>
     state_chan pa s = sequential_updates pa (pl_ingress s) \<and>
     opp_chan pa s = sequential_opportunities pa (pl_ingress s) \<and>
     risk_chan pa s = sequential_approvals pa (pl_ingress s) \<and>
     sim_chan pa s = sequential_outcomes pa (pl_ingress s) \<and>
     exec_chan pa s = sequential_candidates pa (pl_ingress s)"

text \<open>A journal task that has ended has made durable what \<open>journal_drain_loop\<close> makes of what it took.\<close>

definition drained :: "'p codec \<Rightarrow> journal \<Rightarrow> 'p envelope list \<Rightarrow> (unit, 'p envelope, journal) task \<Rightarrow> bool" where
  "drained cd j H t \<longleftrightarrow>
     (tk_life t = Ended \<longrightarrow> tk_state t = journal_drain_loop cd (map Received (take (tk_read t) H) @ [RxClosed]) j)"

lemma drain_ended: "task_ok (drain_task cd) j H t \<Longrightarrow> drained cd j H t"
  using drain.state_ended[of cd j H t]
  by (auto simp: drained_def drain_task_def journal_drain_loop_def run_driver_received)

lemma run_within:
  assumes "pipe_ok pa s"
  shows "within_sequential pa s"
proof -
  note ok = assms[unfolded pipe_ok_def]
  have 1: "prefix (state_chan pa s) (sequential_updates pa (pl_ingress s))"
    using ok state.shown_makes[of pa "state_start pa" "pl_ingress s" "pl_state s"] by (simp add: state_chan_def sequential_stages(1))
  have 2: "prefix (opp_chan pa s) (sequential_opportunities pa (pl_ingress s))"
    using ok opportunity.shown_makes[of pa od_init "state_chan pa s" "pl_opportunity s"] opportunity.makes_mono[OF 1]
    unfolding opp_chan_def sequential_stages(2) by (meson prefix_order.trans)
  have 3: "prefix (risk_chan pa s) (sequential_approvals pa (pl_ingress s))"
    using ok risk.shown_makes[of pa stage_init "opp_chan pa s" "pl_risk s"] risk.makes_mono[OF 2]
    unfolding risk_chan_def sequential_stages(3) by (meson prefix_order.trans)
  have 4: "prefix (sim_chan pa s) (sequential_outcomes pa (pl_ingress s))"
    using ok simulator.shown_makes[of pa "simulator_start pa" "risk_chan pa s" "pl_simulator s"] simulator.makes_mono[OF 3]
    unfolding sim_chan_def sequential_stages(4) by (meson prefix_order.trans)
  have 5: "prefix (exec_chan pa s) (sequential_candidates pa (pl_ingress s))"
    using ok execution.shown_makes[of pa stage_init "sim_chan pa s" "pl_execution s"] execution.makes_mono[OF 4]
    unfolding exec_chan_def sequential_stages(5) by (meson prefix_order.trans)
  show ?thesis using 1 2 3 4 5 by (simp add: within_sequential_def)
qed

lemma run_settled:
  assumes "pipe_ok pa s" "settled pa s"
  shows "equals_sequential pa s"
proof -
  note ok = assms(1)[unfolded pipe_ok_def] and up = assms(2)[unfolded settled_def]
  have 1: "state_chan pa s = sequential_updates pa (pl_ingress s)"
    using ok up state.shown_all[of pa "state_start pa" "pl_ingress s" "pl_state s"] by (simp add: state_chan_def sequential_stages(1))
  have 2: "opp_chan pa s = sequential_opportunities pa (pl_ingress s)"
    using ok up opportunity.shown_all[of pa od_init "state_chan pa s"] by (simp add: opp_chan_def sequential_stages(2) 1)
  have 3: "risk_chan pa s = sequential_approvals pa (pl_ingress s)"
    using ok up risk.shown_all[of pa stage_init "opp_chan pa s"] by (simp add: risk_chan_def sequential_stages(3) 2)
  have 4: "sim_chan pa s = sequential_outcomes pa (pl_ingress s)"
    using ok up simulator.shown_all[of pa "simulator_start pa" "risk_chan pa s"] by (simp add: sim_chan_def sequential_stages(4) 3)
  have 5: "exec_chan pa s = sequential_candidates pa (pl_ingress s)"
    using ok up execution.shown_all[of pa stage_init "sim_chan pa s"] by (simp add: exec_chan_def sequential_stages(5) 4)
  show ?thesis using 1 2 3 4 5 by (simp add: equals_sequential_def)
qed

section \<open>Where what is published comes from\<close>

text \<open>An update is read by a refresh at a block event of the ingress.\<close>

definition update_traced ::
  "('w, 'd, 'm, 'c, 'j, 'k) parts \<Rightarrow> ingress_event envelope list \<Rightarrow> state_update_event envelope \<Rightarrow> bool" where
  "update_traced pa H env \<longleftrightarrow>
     (\<exists>x b w events w'. x \<in> set H \<and> env_payload x = Block b \<and>
        refresh_block (pa_kv pa) (pa_values pa) (pa_engine pa) (be_block_number b) (be_block_hash b) w = (Inr events, w') \<and>
        env_payload env \<in> set events)"

text \<open>An opportunity is the check of two such updates of one block number.\<close>

definition opportunity_traced ::
  "('w, 'd, 'm, 'c, 'j, 'k) parts \<Rightarrow> ingress_event envelope list \<Rightarrow> opportunity_event \<Rightarrow> bool" where
  "opportunity_traced pa H opp \<longleftrightarrow>
     (\<exists>a b. update_traced pa H a \<and> update_traced pa H b \<and>
        su_block_number (env_payload a) = su_block_number (env_payload b) \<and> check_envelopes (a, b) = Some opp)"

definition approval_traced ::
  "('w, 'd, 'm, 'c, 'j, 'k) parts \<Rightarrow> ingress_event envelope list \<Rightarrow> risk_checked_opportunity \<Rightarrow> bool" where
  "approval_traced pa H rc \<longleftrightarrow> (\<exists>opp. opportunity_traced pa H opp \<and> evaluate (pa_gate pa) opp = Inr rc)"

text \<open>An outcome is what the simulator returned for an approved opportunity; its bundle holds the
  transaction signed for it.\<close>

definition outcome_traced ::
  "('w, 'd, 'm, 'c, 'j, 'k) parts \<Rightarrow> ingress_event envelope list \<Rightarrow> simulation_outcome_with_fingerprint \<Rightarrow> bool" where
  "outcome_traced pa H sf \<longleftrightarrow>
     (\<exists>(y :: risk_checked_opportunity envelope) m m' tx. approval_traced pa H (env_payload y) \<and>
        ls_simulate (pa_simulator pa) (env_payload y) m = (Some (sf_outcome sf, sf_fingerprint sf), m') \<and>
        sign_for_outcome (pa_constructor pa) (sf_outcome sf) = Inr tx \<and>
        sf_signed_bundle sf = Some (bundle_for (env_chain_context y) (sf_outcome sf) tx))"

definition candidate_traced ::
  "('w, 'd, 'm, 'c, 'j, 'k) parts \<Rightarrow> ingress_event envelope list \<Rightarrow> bundle_candidate \<Rightarrow> bool" where
  "candidate_traced pa H c \<longleftrightarrow>
     (\<exists>sf. outcome_traced pa H sf \<and> construct (pa_constructor pa) (sf_outcome sf) = Inr c)"

text \<open>An attempt carries the bundle of an outcome on which the relay agreed, while the kill switch was off.\<close>

definition attempt_traced ::
  "('w, 'd, 'm, 'c, 'j, 'k) parts \<Rightarrow> ingress_event envelope list \<Rightarrow> submission_attempt \<Rightarrow> bool" where
  "attempt_traced pa H a \<longleftrightarrow>
     (\<exists>(x :: simulation_outcome_with_fingerprint envelope) simulate w. outcome_traced pa H (env_payload x) \<and>
        sf_signed_bundle (env_payload x) = Some (sa_signed_bundle a) \<and>
        is_ok (construct (pa_constructor pa) (sf_outcome (env_payload x))) \<and>
        pa_relay_sim pa = Some simulate \<and> \<not> is_active (pa_switch pa w) \<and>
        is_ok (compare_result
          \<lparr>ci_local = sf_outcome (env_payload x),
           ci_local_shape = \<lparr>bs_expected_inclusion_index = 0, bs_expected_coinbase_transfer_wei = 0\<rparr>,
           ci_local_fingerprint = sf_fingerprint (env_payload x)\<rparr>
          (fst (simulate \<lparr>rq_block_hash = block_hash (env_chain_context x),
             rq_state_block_number = block_number (env_chain_context x), rq_txs = []\<rparr> w))))"

lemma emit_new: "env \<in> set (sg_out (emit_all clk src ps s)) \<Longrightarrow> env \<notin> set (sg_out s) \<Longrightarrow> env_payload env \<in> set ps"
  using emit_all_payloads by blast

lemma emit_new1: "env \<in> set (sg_out (emit clk src p s)) \<Longrightarrow> env \<notin> set (sg_out s) \<Longrightarrow> env_payload env = p"
  using emit_new[of env clk src "[p]" s] by (simp add: emit_as_all)

lemma state_step_new:
  assumes "env \<in> set (sg_out (sd_stage (state_engine_step kv vc en clk x s)))" "env \<notin> set (sg_out (sd_stage s))"
  shows "\<exists>b events w'. env_payload x = Block b \<and>
    refresh_block kv vc en (be_block_number b) (be_block_hash b) (sd_world s) = (Inr events, w') \<and> env_payload env \<in> set events"
  using assms
  by (auto simp: state_engine_step_def dest: emit_new split: ingress_event.splits prod.splits sum.splits)

lemma risk_step_new:
  assumes "env \<in> set (sg_out (risk_step g clk x s))" "env \<notin> set (sg_out s)"
  shows "evaluate g (env_payload x) = Inr (env_payload env)"
  using assms by (auto simp: risk_step_def dest: emit_new1 split: sum.splits)

lemma simulate_new:
  assumes "env \<in> set (sg_out (md_stage (simulator_simulate sim bd clk x s)))" "env \<notin> set (sg_out (md_stage s))"
  shows "\<exists>m'. ls_simulate sim (env_payload x) (md_sim s) =
      (Some (sf_outcome (env_payload env), sf_fingerprint (env_payload env)), m') \<and>
    (\<exists>tx. sign_for_outcome bd (sf_outcome (env_payload env)) = Inr tx \<and>
      sf_signed_bundle (env_payload env) = Some (bundle_for (env_chain_context x) (sf_outcome (env_payload env)) tx))"
  using assms
  by (auto simp: simulator_simulate_def dest!: emit_new1 split: prod.splits sum.splits option.splits)

lemma simulator_step_new:
  assumes "env \<in> set (sg_out (md_stage (simulator_step sim wa ua bd clk x s)))" "env \<notin> set (sg_out (md_stage s))"
  shows "\<exists>m m' tx. ls_simulate sim (env_payload x) m = (Some (sf_outcome (env_payload env), sf_fingerprint (env_payload env)), m') \<and>
    sign_for_outcome bd (sf_outcome (env_payload env)) = Inr tx \<and>
    sf_signed_bundle (env_payload env) = Some (bundle_for (env_chain_context x) (sf_outcome (env_payload env)) tx)"
proof -
  have "\<exists>m. env \<in> set (sg_out (md_stage (simulator_simulate sim bd clk x (s\<lparr>md_sim := m\<rparr>))))"
    using assms by (auto simp: simulator_step_def intro: exI[of _ "md_sim s"] split: option.splits prod.splits bool.splits)
  then obtain m where "env \<in> set (sg_out (md_stage (simulator_simulate sim bd clk x (s\<lparr>md_sim := m\<rparr>))))" by blast
  from simulate_new[OF this] assms(2) show ?thesis by auto
qed

lemma execution_step_new:
  assumes "env \<in> set (sg_out (execution_step bd clk x s))" "env \<notin> set (sg_out s)"
  shows "construct bd (sf_outcome (env_payload x)) = Inr (env_payload env)"
  using assms by (auto simp: execution_step_def dest: emit_new1 split: sum.splits)

lemma comparator_step_attempt:
  assumes "SentAttempt a \<in> set (cs_sent (comparator_step simulate ks bd ms clk x s))" "SentAttempt a \<notin> set (cs_sent s)"
  shows "\<not> is_active (ks (cs_world s)) \<and> is_ok (construct bd (sf_outcome (env_payload x))) \<and>
    sf_signed_bundle (env_payload x) = Some (sa_signed_bundle a) \<and>
    is_ok (compare_result
      \<lparr>ci_local = sf_outcome (env_payload x),
       ci_local_shape = \<lparr>bs_expected_inclusion_index = 0, bs_expected_coinbase_transfer_wei = 0\<rparr>,
       ci_local_fingerprint = sf_fingerprint (env_payload x)\<rparr>
      (fst (simulate \<lparr>rq_block_hash = block_hash (env_chain_context x),
         rq_state_block_number = block_number (env_chain_context x), rq_txs = []\<rparr> (cs_world s))))"
proof -
  have "SentAttempt a \<notin> set (cs_sent (report_mismatch ms clk cc cid m (s\<lparr>cs_world := w\<rparr>)))" for cc cid m w
    using report_mismatch_sent[of ms clk cc cid m "s\<lparr>cs_world := w\<rparr>"] assms(2) by auto
  note refused = this
  let ?cc = "env_chain_context x"
  define inp where "inp = \<lparr>ci_local = sf_outcome (env_payload x),
    ci_local_shape = \<lparr>bs_expected_inclusion_index = 0, bs_expected_coinbase_transfer_wei = 0\<rparr>,
    ci_local_fingerprint = sf_fingerprint (env_payload x)\<rparr>"
  define req where "req = \<lparr>rq_block_hash = block_hash ?cc, rq_state_block_number = block_number ?cc, rq_txs = []\<rparr>"
  obtain rr w where w: "simulate req (cs_world s) = (rr, w)" by (meson surj_pair)
  have off: "\<not> is_active (ks (cs_world s))" using assms by (auto simp: comparator_step_def)
  then obtain c where c: "construct bd (sf_outcome (env_payload x)) = Inr c"
    using assms by (cases "construct bd (sf_outcome (env_payload x))") (auto simp: comparator_step_def Let_def)
  have step: "comparator_step simulate ks bd ms clk x s =
      (case compare_result inp rr of
         Inr _ \<Rightarrow> s\<lparr>cs_world := w, cs_sent := cs_sent s @ SentPassed c #
           (case sf_signed_bundle (env_payload x) of Some b \<Rightarrow> [SentAttempt \<lparr>sa_signed_bundle = b\<rparr>] | None \<Rightarrow> [])\<rparr>
       | Inl abort \<Rightarrow> report_mismatch ms clk ?cc (env_correlation_id x) abort (s\<lparr>cs_world := w\<rparr>))"
    by (simp add: comparator_step_def Let_def off c w[unfolded req_def] inp_def)
  obtain v where v: "compare_result inp rr = Inr v"
    using assms(1) refused by (cases "compare_result inp rr") (auto simp: step)
  have "sf_signed_bundle (env_payload x) = Some (sa_signed_bundle a)"
    using assms by (auto simp: step v split: option.splits)
  then show ?thesis using off c v w by (simp add: inp_def req_def)
qed

lemma update_from:
  assumes "pipe_ok pa s" "env \<in> set (state_chan pa s)"
  shows "update_traced pa (pl_ingress s) env"
proof -
  have "task_ok (state_task pa) (state_start pa) (pl_ingress s) (pl_state s)"
    using assms(1) by (simp add: pipe_ok_def)
  from state.shown_from[OF this assms(2)[unfolded state_chan_def]] obtain x z where
    x: "x \<in> set (pl_ingress s)" "env \<in> set (sg_out (sd_stage (dr_body (state_task pa) () x z)))"
    "env \<notin> set (sg_out (sd_stage z))"
    by (auto simp: state_task_def state_start_def stage_init_def)
  from state_step_new[OF x(2)[unfolded state_task_def driver.select_convs] x(3)] x(1)
  show ?thesis unfolding update_traced_def by blast
qed

lemma opportunity_from:
  assumes "pipe_ok pa s" "env \<in> set (opp_chan pa s)"
  shows "opportunity_traced pa (pl_ingress s) (env_payload env)"
proof -
  have "task_ok (opportunity_task pa) od_init (state_chan pa s) (pl_opportunity s)"
    using assms(1) by (simp add: pipe_ok_def)
  from opportunity.shown_makes[OF this] assms(2)
  have "env \<in> set (sg_out (od_stage (run_driver (opportunity_step (pa_clock pa OpportunityDriver))
      (map Received (state_chan pa s)) od_init)))"
    using set_mono_prefix by (fastforce simp: opp_chan_def makes_def opportunity_task_def run_driver_fold)
  with od_ok_from_start[of "map Received (state_chan pa s)" "set (state_chan pa s)" "pa_clock pa OpportunityDriver"]
  have "justified (set (state_chan pa s)) (env_payload env)" by (auto simp: od_ok_def)
  with update_from[OF assms(1)] show ?thesis unfolding justified_def opportunity_traced_def by blast
qed

lemma approval_from:
  assumes "pipe_ok pa s" "env \<in> set (risk_chan pa s)"
  shows "approval_traced pa (pl_ingress s) (env_payload env)"
proof -
  have "task_ok (risk_task pa) stage_init (opp_chan pa s) (pl_risk s)" using assms(1) by (simp add: pipe_ok_def)
  from risk.shown_from[OF this assms(2)[unfolded risk_chan_def]] obtain x z where
    "x \<in> set (opp_chan pa s)" "env \<in> set (sg_out (risk_step (pa_gate pa) (pa_clock pa RiskDriver) x z))"
    "env \<notin> set (sg_out z)"
    by (auto simp: risk_task_def stage_init_def)
  with risk_step_new opportunity_from[OF assms(1)] show ?thesis unfolding approval_traced_def by blast
qed

lemma outcome_from:
  assumes "pipe_ok pa s" "env \<in> set (sim_chan pa s)"
  shows "outcome_traced pa (pl_ingress s) (env_payload env)"
proof -
  have "task_ok (simulator_task pa) (simulator_start pa) (risk_chan pa s) (pl_simulator s)"
    using assms(1) by (simp add: pipe_ok_def)
  from simulator.shown_from[OF this assms(2)[unfolded sim_chan_def]] obtain x z where
    x: "x \<in> set (risk_chan pa s)" "env \<in> set (sg_out (md_stage (dr_body (simulator_task pa) () x z)))"
    "env \<notin> set (sg_out (md_stage z))"
    by (auto simp: simulator_task_def simulator_start_def stage_init_def)
  from simulator_step_new[OF x(2)[unfolded simulator_task_def driver.select_convs] x(3)] approval_from[OF assms(1) x(1)]
  show ?thesis unfolding outcome_traced_def by blast
qed

lemma candidate_from:
  assumes "pipe_ok pa s" "env \<in> set (exec_chan pa s)"
  shows "candidate_traced pa (pl_ingress s) (env_payload env)"
proof -
  have "task_ok (execution_task pa) stage_init (sim_chan pa s) (pl_execution s)" using assms(1) by (simp add: pipe_ok_def)
  from execution.shown_from[OF this assms(2)[unfolded exec_chan_def]] obtain x z where
    "x \<in> set (sim_chan pa s)" "env \<in> set (sg_out (execution_step (pa_constructor pa) (pa_clock pa ExecutionDriver) x z))"
    "env \<notin> set (sg_out z)"
    by (auto simp: execution_task_def stage_init_def)
  with execution_step_new outcome_from[OF assms(1)] show ?thesis unfolding candidate_traced_def by blast
qed

lemma attempt_of_Some: "attempt_of x = Some a \<longleftrightarrow> x = SentAttempt a"
  by (cases x) auto

lemma attempt_from:
  assumes "pipe_ok pa s" "a \<in> set (submission_chan pa s)"
  shows "attempt_traced pa (pl_ingress s) a"
proof -
  have ok: "task_ok (comparator_task pa) (comparator_start pa) (sim_chan pa s) (pl_comparator s)"
    using assms(1) by (simp add: pipe_ok_def)
  have "SentAttempt a \<in> set (shown (comparator_task pa) (pl_comparator s))"
    using assms(2) by (auto simp: submission_chan_def map_filter_def attempt_of_Some)
  from comparator.shown_from[OF ok this] obtain u x z where
    x: "x \<in> set (sim_chan pa s)" and new: "SentAttempt a \<in> set (cs_sent (dr_body (comparator_task pa) u x z))"
    "SentAttempt a \<notin> set (cs_sent z)"
    by (auto simp: comparator_task_def comparator_start_def)
  obtain simulate where sim: "pa_relay_sim pa = Some simulate"
    using new by (cases "pa_relay_sim pa") (simp_all add: comparator_task_def)
  let ?z = "z\<lparr>cs_world := u (cs_world z)\<rparr>"
  have "SentAttempt a \<in> set (cs_sent (comparator_step simulate (pa_switch pa) (pa_constructor pa) (pa_mismatch pa)
      (pa_clock pa ComparatorDriver) x ?z))" "SentAttempt a \<notin> set (cs_sent ?z)"
    using new by (simp_all add: comparator_task_def sim)
  from comparator_step_attempt[OF this] outcome_from[OF assms(1) x] sim
  show ?thesis unfolding attempt_traced_def by (intro exI[of _ x] exI[of _ simulate] exI[of _ "cs_world ?z"]) simp
qed

lemma submission_took:
  assumes "pipe_ok pa s" "(u, a) \<in> set (tk_log (pl_submission s))"
  shows "a \<in> set (submission_chan pa s)"
proof -
  have "task_ok (submission_task pa) (submission_start pa) (submission_chan pa s) (pl_submission s)"
    using assms(1) by (simp add: pipe_ok_def)
  then have "snd ` set (tk_log (pl_submission s)) \<subseteq> set (submission_chan pa s)" by (simp add: task_ok_def)
  with assms(2) show ?thesis by (metis image_subset_iff snd_conv)
qed

end
