(* ===== verification/App_Settle.thy ===== *)
theory App_Settle
  imports App_Run
begin

text \<open>
  The running pipeline makes progress: from every state in which no stage has ended or lagged, the
  stages can be scheduled so that all of them catch up.
\<close>

section \<open>A run that has not lagged can settle\<close>

text \<open>For each stage: it and those after it can go on, or have caught up; what is before it.\<close>

definition can_execute :: "('w, 'd, 'm, 'c, 'j, 'k) parts \<Rightarrow> ('w, 'd, 'm, 'c, 'j, 'k) pipeline \<Rightarrow> bool" where
  "can_execute pa s \<longleftrightarrow> working (pa_room pa) (sim_chan pa s) (pl_execution s)"

definition can_simulate :: "('w, 'd, 'm, 'c, 'j, 'k) parts \<Rightarrow> ('w, 'd, 'm, 'c, 'j, 'k) pipeline \<Rightarrow> bool" where
  "can_simulate pa s \<longleftrightarrow> working (pa_room pa) (risk_chan pa s) (pl_simulator s) \<and> can_execute pa s"

definition can_approve :: "('w, 'd, 'm, 'c, 'j, 'k) parts \<Rightarrow> ('w, 'd, 'm, 'c, 'j, 'k) pipeline \<Rightarrow> bool" where
  "can_approve pa s \<longleftrightarrow> working (pa_room pa) (opp_chan pa s) (pl_risk s) \<and> can_simulate pa s"

definition can_find :: "('w, 'd, 'm, 'c, 'j, 'k) parts \<Rightarrow> ('w, 'd, 'm, 'c, 'j, 'k) pipeline \<Rightarrow> bool" where
  "can_find pa s \<longleftrightarrow> working (pa_room pa) (state_chan pa s) (pl_opportunity s) \<and> can_approve pa s"

text \<open>No stage has ended or lagged.\<close>

definition keeping_up :: "('w, 'd, 'm, 'c, 'j, 'k) parts \<Rightarrow> ('w, 'd, 'm, 'c, 'j, 'k) pipeline \<Rightarrow> bool" where
  "keeping_up pa s \<longleftrightarrow> working (pa_room pa) (pl_ingress s) (pl_state s) \<and> can_find pa s"

definition has_caught_up :: "('u, 'e, 's, 'p) driver \<Rightarrow> 'e list \<Rightarrow> ('u, 'e, 's) task \<Rightarrow> bool" where
  "has_caught_up d H t \<longleftrightarrow> tk_life t = Up \<and> caught_up d H t"

abbreviation executed where
  "executed pa s \<equiv> has_caught_up (execution_task pa) (sim_chan pa s) (pl_execution s)"
abbreviation simulated where
  "simulated pa s \<equiv> has_caught_up (simulator_task pa) (risk_chan pa s) (pl_simulator s) \<and> executed pa s"
abbreviation approved where
  "approved pa s \<equiv> has_caught_up (risk_task pa) (opp_chan pa s) (pl_risk s) \<and> simulated pa s"
abbreviation found where
  "found pa s \<equiv> has_caught_up (opportunity_task pa) (state_chan pa s) (pl_opportunity s) \<and> approved pa s"

lemma pushed_works:
  "has_caught_up d H t \<Longrightarrow> length H' \<le> Suc (length H) \<Longrightarrow> 0 < room \<Longrightarrow> working room H' t"
  by (auto simp: has_caught_up_def caught_up_def working_def)

lemma caught_up_works: "has_caught_up d H t \<Longrightarrow> working room H t"
  by (simp add: has_caught_up_def caught_up_def working_def)

text \<open>What a stage and those after it leave alone: what is upstream of the stage, and the tasks that are
  not stages.\<close>

definition before_state :: "('w, 'd, 'm, 'c, 'j, 'k) pipeline \<Rightarrow> _" where
  "before_state s = (pl_ingress s, pl_handle s, pl_comparator s, pl_submission s)"

definition before_opportunity :: "('w, 'd, 'm, 'c, 'j, 'k) pipeline \<Rightarrow> _" where
  "before_opportunity s = (before_state s, pl_state s)"

definition before_risk :: "('w, 'd, 'm, 'c, 'j, 'k) pipeline \<Rightarrow> _" where
  "before_risk s = (before_opportunity s, pl_opportunity s)"

definition before_simulator :: "('w, 'd, 'm, 'c, 'j, 'k) pipeline \<Rightarrow> _" where
  "before_simulator s = (before_risk s, pl_risk s)"

definition before_execution :: "('w, 'd, 'm, 'c, 'j, 'k) pipeline \<Rightarrow> _" where
  "before_execution s = (before_simulator s, pl_simulator s)"

lemmas before_defs = before_state_def before_opportunity_def before_risk_def before_simulator_def before_execution_def

lemma stage_oks:
  assumes "pipe_ok pa s"
  shows "task_ok (state_task pa) (state_start pa) (fst (before_state s)) (pl_state s)"
    "task_ok (opportunity_task pa) od_init (shown (state_task pa) (snd (before_opportunity s))) (pl_opportunity s)"
    "task_ok (risk_task pa) stage_init (shown (opportunity_task pa) (snd (before_risk s))) (pl_risk s)"
    "task_ok (simulator_task pa) (simulator_start pa) (shown (risk_task pa) (snd (before_simulator s))) (pl_simulator s)"
    "task_ok (execution_task pa) stage_init (shown (simulator_task pa) (snd (before_execution s))) (pl_execution s)"
  using assms by (simp_all add: pipe_ok_def chan_defs before_defs)

lemma execution_settles:
  assumes "pipe_ok pa s" "can_execute pa s"
  shows "\<exists>s'. pipe_reaches pa s s' \<and> pipe_ok pa s' \<and> executed pa s' \<and> before_execution s' = before_execution s"
proof -
  let ?H = "\<lambda>u. shown (simulator_task pa) (snd u)"
  have "\<exists>s'. pipe_reaches pa s s' \<and> pipe_ok pa s' \<and> True \<and> before_execution s' = before_execution s \<and>
      tk_life (pl_execution s') = Up \<and> caught_up (execution_task pa) (?H (before_execution s')) (pl_execution s')"
  proof (rule execution.stage_settles[where R = "pipe_step pa" and I = "pipe_ok pa" and up = before_execution and H = ?H and get = pl_execution
        and put = "\<lambda>t s. s\<lparr>pl_execution := t\<rparr>" and settled_below = "\<lambda>_. True" and able = "\<lambda>_. True"
        and hung = "\<lambda>s. shut SimTx (pl_simulator s) s", OF _ _ _ _ _ pipe_ok_step stage_oks(5) assms(1)])
    show "pipe_step pa z (z\<lparr>pl_execution := t\<rparr>)"
      if "task_step (execution_task pa) (pa_room pa) (shut SimTx (pl_simulator z) z) (?H (before_execution z)) (pl_execution z) t"
      for z t using that by (auto simp: sim_chan_def before_execution_def intro: pipe_step.execution)
  qed (use assms(2) in \<open>auto simp: can_execute_def sim_chan_def before_defs\<close>)
  then show ?thesis by (auto simp: has_caught_up_def sim_chan_def before_execution_def)
qed

lemma simulator_settles:
  assumes "0 < pa_room pa" "pipe_ok pa s" "can_simulate pa s"
  shows "\<exists>s'. pipe_reaches pa s s' \<and> pipe_ok pa s' \<and> simulated pa s' \<and> before_simulator s' = before_simulator s"
proof -
  let ?H = "\<lambda>u. shown (risk_task pa) (snd u)"
  have "\<exists>s'. pipe_reaches pa s s' \<and> pipe_ok pa s' \<and> executed pa s' \<and> before_simulator s' = before_simulator s \<and>
      tk_life (pl_simulator s') = Up \<and> caught_up (simulator_task pa) (?H (before_simulator s')) (pl_simulator s')"
  proof (rule simulator.stage_settles[where R = "pipe_step pa" and I = "pipe_ok pa" and up = before_simulator and H = ?H and get = pl_simulator
        and put = "\<lambda>t s. s\<lparr>pl_simulator := t\<rparr>" and settled_below = "executed pa" and able = "can_execute pa"
        and hung = "\<lambda>s. shut RiskTx (pl_risk s) s", OF _ _ _ _ _ pipe_ok_step stage_oks(4) assms(2)])
    show "pipe_step pa z (z\<lparr>pl_simulator := t\<rparr>)"
      if "task_step (simulator_task pa) (pa_room pa) (shut RiskTx (pl_risk z) z) (?H (before_simulator z)) (pl_simulator z) t"
      for z t using that by (auto simp: risk_chan_def before_simulator_def intro: pipe_step.simulator)
    show "can_execute pa (z\<lparr>pl_simulator := t\<rparr>)"
      if "executed pa z" "length (shown (simulator_task pa) t) \<le> Suc (length (shown (simulator_task pa) (pl_simulator z)))" for z t
      using pushed_works[OF that(1) _ assms(1)] that(2) by (simp add: can_execute_def sim_chan_def)
    show "\<exists>z'. pipe_reaches pa z z' \<and> pipe_ok pa z' \<and> executed pa z' \<and> before_simulator z' = before_simulator z
        \<and> pl_simulator z' = pl_simulator z"
      if "pipe_ok pa z" "can_execute pa z" for z using execution_settles[OF that] by (auto simp: before_execution_def)
  qed (use assms(3) in \<open>auto simp: can_simulate_def risk_chan_def before_defs\<close>)
  then show ?thesis by (auto simp: has_caught_up_def risk_chan_def before_simulator_def)
qed

lemma risk_settles:
  assumes "0 < pa_room pa" "pipe_ok pa s" "can_approve pa s"
  shows "\<exists>s'. pipe_reaches pa s s' \<and> pipe_ok pa s' \<and> approved pa s' \<and> before_risk s' = before_risk s"
proof -
  let ?H = "\<lambda>u. shown (opportunity_task pa) (snd u)"
  have "\<exists>s'. pipe_reaches pa s s' \<and> pipe_ok pa s' \<and> simulated pa s' \<and> before_risk s' = before_risk s \<and>
      tk_life (pl_risk s') = Up \<and> caught_up (risk_task pa) (?H (before_risk s')) (pl_risk s')"
  proof (rule risk.stage_settles[where R = "pipe_step pa" and I = "pipe_ok pa" and up = before_risk and H = ?H and get = pl_risk
        and put = "\<lambda>t s. s\<lparr>pl_risk := t\<rparr>" and settled_below = "\<lambda>s. simulated pa s" and able = "can_simulate pa"
        and hung = "\<lambda>s. shut OppTx (pl_opportunity s) s", OF _ _ _ _ _ pipe_ok_step stage_oks(3) assms(2)])
    show "pipe_step pa z (z\<lparr>pl_risk := t\<rparr>)"
      if "task_step (risk_task pa) (pa_room pa) (shut OppTx (pl_opportunity z) z) (?H (before_risk z)) (pl_risk z) t"
      for z t using that by (auto simp: opp_chan_def before_risk_def intro: pipe_step.risk)
    show "can_simulate pa (z\<lparr>pl_risk := t\<rparr>)"
      if "simulated pa z" "length (shown (risk_task pa) t) \<le> Suc (length (shown (risk_task pa) (pl_risk z)))" for z t
      using pushed_works[OF conjunct1[OF that(1)] _ assms(1)] caught_up_works[OF conjunct2[OF that(1)]] that(2)
      by (simp add: can_execute_def can_simulate_def sim_chan_def risk_chan_def)
    show "\<exists>z'. pipe_reaches pa z z' \<and> pipe_ok pa z' \<and> simulated pa z' \<and> before_risk z' = before_risk z
        \<and> pl_risk z' = pl_risk z"
      if "pipe_ok pa z" "can_simulate pa z" for z using simulator_settles[OF assms(1) that] by (auto simp: before_simulator_def)
  qed (use assms(3) in \<open>auto simp: can_approve_def opp_chan_def before_defs\<close>)
  then show ?thesis by (auto simp: has_caught_up_def opp_chan_def before_risk_def)
qed

lemma opportunity_settles:
  assumes "0 < pa_room pa" "pipe_ok pa s" "can_find pa s"
  shows "\<exists>s'. pipe_reaches pa s s' \<and> pipe_ok pa s' \<and> found pa s' \<and> before_opportunity s' = before_opportunity s"
proof -
  let ?H = "\<lambda>u. shown (state_task pa) (snd u)"
  have "\<exists>s'. pipe_reaches pa s s' \<and> pipe_ok pa s' \<and> approved pa s' \<and> before_opportunity s' = before_opportunity s \<and>
      tk_life (pl_opportunity s') = Up \<and> caught_up (opportunity_task pa) (?H (before_opportunity s')) (pl_opportunity s')"
  proof (rule opportunity.stage_settles[where R = "pipe_step pa" and I = "pipe_ok pa" and up = before_opportunity and H = ?H and get = pl_opportunity
        and put = "\<lambda>t s. s\<lparr>pl_opportunity := t\<rparr>" and settled_below = "\<lambda>s. approved pa s" and able = "can_approve pa"
        and hung = "\<lambda>s. shut StateTx (pl_state s) s", OF _ _ _ _ _ pipe_ok_step stage_oks(2) assms(2)])
    show "pipe_step pa z (z\<lparr>pl_opportunity := t\<rparr>)"
      if "task_step (opportunity_task pa) (pa_room pa) (shut StateTx (pl_state z) z) (?H (before_opportunity z)) (pl_opportunity z) t"
      for z t using that by (auto simp: state_chan_def before_opportunity_def intro: pipe_step.opportunity)
    show "can_approve pa (z\<lparr>pl_opportunity := t\<rparr>)"
      if "approved pa z" "length (shown (opportunity_task pa) t) \<le> Suc (length (shown (opportunity_task pa) (pl_opportunity z)))"
      for z t
      using pushed_works[OF conjunct1[OF that(1)] _ assms(1)] that
      by (auto simp: can_execute_def can_simulate_def can_approve_def sim_chan_def risk_chan_def opp_chan_def dest: caught_up_works)
    show "\<exists>z'. pipe_reaches pa z z' \<and> pipe_ok pa z' \<and> approved pa z' \<and> before_opportunity z' = before_opportunity z
        \<and> pl_opportunity z' = pl_opportunity z"
      if "pipe_ok pa z" "can_approve pa z" for z using risk_settles[OF assms(1) that] by (auto simp: before_risk_def)
  qed (use assms(3) in \<open>auto simp: can_find_def state_chan_def before_defs\<close>)
  then show ?thesis by (auto simp: has_caught_up_def state_chan_def before_opportunity_def)
qed

lemma all_settle:
  assumes "0 < pa_room pa" "pipe_ok pa s" "keeping_up pa s"
  shows "\<exists>s'. pipe_reaches pa s s' \<and> pipe_ok pa s' \<and> settled pa s' \<and> keeping_up pa s' \<and> before_state s' = before_state s"
proof -
  have "\<exists>s'. pipe_reaches pa s s' \<and> pipe_ok pa s' \<and> found pa s' \<and> before_state s' = before_state s \<and>
      tk_life (pl_state s') = Up \<and> caught_up (state_task pa) (fst (before_state s')) (pl_state s')"
  proof (rule state.stage_settles[where R = "pipe_step pa" and I = "pipe_ok pa" and up = before_state and get = pl_state and H = fst
        and put = "\<lambda>t s. s\<lparr>pl_state := t\<rparr>" and settled_below = "\<lambda>s. found pa s" and able = "can_find pa"
        and hung = "\<lambda>s. shut IngressTx (pl_producer s) s", OF _ _ _ _ _ pipe_ok_step stage_oks(1) assms(2)])
    show "pipe_step pa z (z\<lparr>pl_state := t\<rparr>)"
      if "task_step (state_task pa) (pa_room pa) (shut IngressTx (pl_producer z) z) (fst (before_state z)) (pl_state z) t"
      for z t using that by (auto simp: before_state_def intro: pipe_step.state)
    show "can_find pa (z\<lparr>pl_state := t\<rparr>)"
      if "found pa z" "length (shown (state_task pa) t) \<le> Suc (length (shown (state_task pa) (pl_state z)))" for z t
      using pushed_works[OF conjunct1[OF that(1)] _ assms(1)] that
      by (auto simp: can_execute_def can_simulate_def can_approve_def can_find_def chan_defs dest: caught_up_works)
    show "\<exists>z'. pipe_reaches pa z z' \<and> pipe_ok pa z' \<and> found pa z' \<and> before_state z' = before_state z \<and> pl_state z' = pl_state z"
      if "pipe_ok pa z" "can_find pa z" for z using opportunity_settles[OF assms(1) that] by (auto simp: before_opportunity_def)
  qed (use assms(3) in \<open>auto simp: keeping_up_def before_defs\<close>)
  then obtain s' where s': "pipe_reaches pa s s'" "pipe_ok pa s'" "found pa s'" "before_state s' = before_state s"
    "has_caught_up (state_task pa) (pl_ingress s') (pl_state s')"
    by (auto simp: before_state_def has_caught_up_def)
  then have "settled pa s'" "keeping_up pa s'"
    by (auto simp: settled_def has_caught_up_def keeping_up_def can_find_def can_approve_def can_simulate_def can_execute_def
        working_def caught_up_def)
  with s' show ?thesis by blast
qed

text \<open>Every history of the ingress can be brought to its sequential result.\<close>

lemma every_history:
  assumes "0 < pa_room pa"
  shows "\<exists>s. pipe_reaches pa (pipe_start pa) s \<and> settled pa s \<and> keeping_up pa s \<and>
    before_state s = (H, pl_handle (pipe_start pa), pl_comparator (pipe_start pa), pl_submission (pipe_start pa))"
proof (induction H rule: rev_induct)
  case Nil
  have "settled pa (pipe_start pa)" "keeping_up pa (pipe_start pa)"
    by (auto simp: settled_def keeping_up_def can_find_def can_approve_def can_simulate_def can_execute_def working_def
        caught_up_def pipe_start_def task_start_def state_task_def opportunity_task_def risk_task_def simulator_task_def
        execution_task_def state_start_def simulator_start_def od_init_def stage_init_def chan_defs shown_def)
  then show ?case by (intro exI[of _ "pipe_start pa"]) (simp add: before_state_def pipe_start_def)
next
  case (snoc env H)
  then obtain s where s: "pipe_reaches pa (pipe_start pa) s" "settled pa s" "keeping_up pa s"
    "before_state s = (H, pl_handle (pipe_start pa), pl_comparator (pipe_start pa), pl_submission (pipe_start pa))" by blast
  let ?s = "s\<lparr>pl_ingress := pl_ingress s @ [env]\<rparr>"
  have "pipe_step pa s ?s" using s(4) by (intro pipe_step.others) (simp add: before_state_def pipe_start_def)
  with s(1) have r: "pipe_reaches pa (pipe_start pa) ?s" by simp
  have "keeping_up pa ?s"
    using s(2,3) assms by (auto simp: keeping_up_def can_find_def can_approve_def can_simulate_def can_execute_def
        chan_defs working_def settled_def caught_up_def)
  from all_settle[OF assms pipe_ok_reached[OF r] this] obtain s' where
    "pipe_reaches pa ?s s'" "settled pa s'" "keeping_up pa s'" "before_state s' = before_state ?s" by blast
  with r s(4) show ?case by (intro exI[of _ s']) (auto simp: before_state_def)
qed

section \<open>An example run\<close>

text \<open>A simulator that always succeeds, a signer that signs, and a relay that agrees.\<close>

definition agreeing_simulator :: "unit local_simulator" where
  "agreeing_simulator =
     \<lparr>ls_prefetch = None,
      ls_simulate = (\<lambda>rc m. (Some (demo_outcome, \<lparr>fp_block_hash = 9, fp_observations = []\<rparr>), m))\<rparr>"

lemma agreeing_simps [simp]:
  "ls_prefetch agreeing_simulator = None"
  "ls_simulate agreeing_simulator rc m = (Some (demo_outcome, \<lparr>fp_block_hash = 9, fp_observations = []\<rparr>), m)"
  by (simp_all add: agreeing_simulator_def)

definition agreeing_relay :: relay_simulation_outcome where
  "agreeing_relay =
     \<lparr>rs_gas_used = 200000, rs_status = Success, rs_measured_profit_wei = 1000000,
      rs_state_observations = [], rs_inclusion_index = 0, rs_coinbase_transfer_wei = 0\<rparr>"

definition demo_parts ::
  "'m local_simulator \<Rightarrow> 'm \<Rightarrow> (unit, bytes \<Rightarrow> bytes option, 'm, unit, unit, unit) parts" where
  "demo_parts sim m =
     \<lparr>pa_room = 8, pa_source = [], pa_clock = (\<lambda>_. demo_clock), pa_ingress_codec = flat_codec,
      pa_ingress_journal = demo_journal, pa_state_codec = flat_codec, pa_state_journal = demo_journal,
      pa_kv = map_kv, pa_values = reserve_codec, pa_engine = two_pools, pa_world = ((), demo_store),
      pa_gate = risk_gate_new risk_defaults, pa_simulator = sim, pa_simulator_state = m, pa_weth = 9, pa_usdc = 8,
      pa_constructor = demo_constructor\<lparr>bd_signer := (\<lambda>_. Inr (SignedTxBytes [1]))\<rparr>,
      pa_relay_sim = Some (\<lambda>rq w. (Inr agreeing_relay, w)), pa_relay = Some (\<lambda>b w. (Inl SubmitDisabled, w)),
      pa_switch = (\<lambda>_. kill_switch_new False), pa_relay_world = (),
      pa_mismatch = \<lparr>sink_append = (\<lambda>e j. (Inr (), j)), sink_flush = (\<lambda>j. (Inr (), j))\<rparr>, pa_mismatch_journal = (),
      pa_submission_gate = \<lparr>gate_live_send = True, gate_production_profile = True, gate_hsmkms = True\<rparr>,
      pa_keccak = (\<lambda>_. []),
      pa_receipts = \<lparr>sink_append = (\<lambda>e j. (Inr (), j)), sink_flush = (\<lambda>j. (Inr (), j))\<rparr>, pa_receipt_journal = ()\<rparr>"

lemma demo_parts_simps [simp]:
  "pa_room (demo_parts sim m) = 8" "pa_source (demo_parts sim m) = []" "pa_clock (demo_parts sim m) = (\<lambda>_. demo_clock)"
  "pa_kv (demo_parts sim m) = map_kv" "pa_values (demo_parts sim m) = reserve_codec" "pa_engine (demo_parts sim m) = two_pools"
  "pa_world (demo_parts sim m) = ((), demo_store)" "pa_gate (demo_parts sim m) = risk_gate_new risk_defaults"
  "pa_simulator (demo_parts sim m) = sim" "pa_simulator_state (demo_parts sim m) = m" "pa_weth (demo_parts sim m) = 9"
  "pa_usdc (demo_parts sim m) = 8"
  "pa_constructor (demo_parts sim m) = demo_constructor\<lparr>bd_signer := (\<lambda>_. Inr (SignedTxBytes [1]))\<rparr>"
  "pa_relay_sim (demo_parts sim m) = Some (\<lambda>rq w. (Inr agreeing_relay, w))"
  "pa_relay (demo_parts sim m) = Some (\<lambda>b w. (Inl SubmitDisabled, w))"
  "pa_switch (demo_parts sim m) = (\<lambda>_. kill_switch_new False)"
  by (simp_all add: demo_parts_def)

lemma single_payload: "map env_payload xs = [p] \<Longrightarrow> \<exists>e. xs = [e] \<and> env_payload e = p"
  by (auto simp: map_eq_Cons_conv)

text \<open>One block, two pools whose prices differ: one opportunity, which is approved.\<close>

lemma demo_approval:
  obtains x rc ap where "env_payload x = Block demo_block"
    "sequential_approvals (demo_parts sim m) [x] = [ap]" "env_payload ap = rc"
proof -
  let ?pa = "demo_parts sim m"
  obtain x u v where uv: "env_payload x = Block demo_block"
    "sg_out (sd_stage (run_driver (state_engine_step map_kv reserve_codec two_pools demo_clock) [Received x] demo_state)) = [u, v]"
    "env_payload u = event_for 7 9 (demo_v2 1) (UniV2 1000 500 0)"
    "env_payload v = event_for 7 9 (demo_v2 2) (UniV2 1000 510 0)" by (rule two_pools_updates)
  have upd: "sequential_updates ?pa [x] = [u, v]"
    using uv(2) by (simp add: sequential_updates_def state_start_def demo_state_def)
  obtain ev where ev: "check_envelopes (u, v) = Some ev" "gas_estimate ev = GAS_ESTIMATE_TWO_HOP_ARB"
    "optimal_amount_in_wei ev = OPTIMAL_AMOUNT_IN_WEI"
    by (auto simp: check_envelopes_def uv(3,4) event_for_def demo_v2_def check_pair_Some_iff event_of_def
        price_nat_def spread_pays_def)
  have same: "\<forall>e \<in> set [u, v]. su_block_number (env_payload e) = 7" by (simp add: uv(3,4) event_for_def)
  have "map env_payload (sequential_opportunities ?pa [x]) = [ev]"
    unfolding sequential_opportunities_def upd run_driver_fold
    using opportunity_driver_one_block[OF same, of demo_clock]
    by (simp add: emit_all_payloads_exact[OF demo_clock_runs] found_in_def map_filter_simps ev)
  then obtain op where op: "sequential_opportunities ?pa [x] = [op]" "env_payload op = ev"
    using single_payload by blast
  have "\<exists>rc. evaluate (risk_gate_new risk_defaults) ev = Inr rc"
    by (simp add: risk_demo_simps ev(2,3) GAS_ESTIMATE_TWO_HOP_ARB_def OPTIMAL_AMOUNT_IN_WEI_def)
  then obtain rc where rc: "evaluate (risk_gate_new risk_defaults) ev = Inr rc" by blast
  then have "map env_payload (sequential_approvals ?pa [x]) = [rc]"
    by (simp add: sequential_approvals_def op risk_step_def emit_as_all emit_all_payloads_exact[OF demo_clock_runs])
  then show thesis using that uv(1) single_payload by blast
qed

lemma demo_candidate:
  obtains x y c where "env_payload x = Block demo_block"
    "sequential_outcomes (demo_parts agreeing_simulator ()) [x] = [y]"
    "sf_outcome (env_payload y) = demo_outcome" "sf_fingerprint (env_payload y) = \<lparr>fp_block_hash = 9, fp_observations = []\<rparr>"
    "\<exists>b. sf_signed_bundle (env_payload y) = Some b"
    "sequential_candidates (demo_parts agreeing_simulator ()) [x] = [c]"
proof -
  let ?pa = "demo_parts agreeing_simulator ()"
  obtain x rc ap where x: "env_payload x = Block demo_block" "sequential_approvals ?pa [x] = [ap]" "env_payload ap = rc"
    by (rule demo_approval)
  define sf where "sf = \<lparr>sf_outcome = demo_outcome, sf_fingerprint = \<lparr>fp_block_hash = 9, fp_observations = []\<rparr>,
    sf_signed_bundle = Some (bundle_for (env_chain_context ap) demo_outcome (SignedTxBytes [1]))\<rparr>"
  have "map env_payload (sequential_outcomes ?pa [x]) = [sf]"
    by (simp add: sequential_outcomes_def x(2) simulator_step_def simulator_simulate_def
        simulator_start_def sign_for_outcome_def emit_as_all emit_all_payloads_exact[OF demo_clock_runs] sf_def)
  then obtain y where y: "sequential_outcomes ?pa [x] = [y]" "env_payload y = sf" using single_payload by blast
  obtain c where "construct (pa_constructor ?pa) demo_outcome = Inr c"
    by (simp add: construct_def construct_with_context_def Let_def demo_outcome_def demo_constructor_def
        fixed_fraction_bid_def saturating_mul_def)
  then have "map env_payload (sequential_candidates ?pa [x]) = [c]"
    by (simp add: sequential_candidates_def y sf_def execution_step_def emit_as_all emit_all_payloads_exact[OF demo_clock_runs])
  then obtain ce where "sequential_candidates ?pa [x] = [ce]" using single_payload by blast
  with x(1) y show thesis by (intro that[of x y ce]) (simp_all add: sf_def)
qed

text \<open>A run on this block to the end: the stages settle, then the comparator and the submission driver
  take what is theirs.\<close>

lemma demo_run:
  obtains x s a c where "env_payload x = Block demo_block"
    "pipe_reaches (demo_parts agreeing_simulator ()) (pipe_start (demo_parts agreeing_simulator ())) s"
    "pl_ingress s = [x]" "settled (demo_parts agreeing_simulator ()) s" "keeping_up (demo_parts agreeing_simulator ()) s"
    "exec_chan (demo_parts agreeing_simulator ()) s = [c]" "tk_log (pl_submission s) = [(id, a)]"
proof -
  let ?pa = "demo_parts agreeing_simulator ()"
  obtain x y c where x: "env_payload x = Block demo_block" "sequential_outcomes ?pa [x] = [y]"
    "sf_outcome (env_payload y) = demo_outcome" "sf_fingerprint (env_payload y) = \<lparr>fp_block_hash = 9, fp_observations = []\<rparr>"
    "\<exists>b. sf_signed_bundle (env_payload y) = Some b" "sequential_candidates ?pa [x] = [c]" by (rule demo_candidate)
  obtain b where b: "sf_signed_bundle (env_payload y) = Some b" using x(5) by blast
  obtain s where s: "pipe_reaches ?pa (pipe_start ?pa) s" "settled ?pa s" "keeping_up ?pa s"
    "before_state s = ([x], pl_handle (pipe_start ?pa), pl_comparator (pipe_start ?pa), pl_submission (pipe_start ?pa))"
    using every_history[of ?pa "[x]"] by auto
  then have start: "pl_ingress s = [x]" "pl_comparator s = task_start (comparator_start ?pa)"
    "pl_submission s = task_start (submission_start ?pa)"
    by (simp_all add: before_state_def pipe_start_def task_start_def)
  have eq: "sim_chan ?pa s = [y]" "exec_chan ?pa s = [c]"
    using run_settled[OF pipe_ok_reached[OF s(1)] s(2)] x(2,6) start(1) by (simp_all add: equals_sequential_def)
  obtain cand where cand: "construct (pa_constructor ?pa) demo_outcome = Inr cand"
    by (simp add: construct_def construct_with_context_def Let_def demo_outcome_def demo_constructor_def
        fixed_fraction_bid_def saturating_mul_def)
  define cs where "cs = (comparator_start ?pa)\<lparr>cs_sent := [SentPassed cand, SentAttempt \<lparr>sa_signed_bundle = b\<rparr>]\<rparr>"
  have body: "dr_body (comparator_task ?pa) id y (comparator_start ?pa) = cs"
    using cand by (simp add: comparator_task_def comparator_step_def kill_switch_new_def is_active_def x(3,4) b cs_def
        comparator_start_def compare_result_def compare_def agreeing_relay_def demo_outcome_def Let_def)
  define t1 where "t1 = \<lparr>tk_state = cs, tk_log = [(id :: unit \<Rightarrow> unit, y)], tk_read = 1, tk_sent = 0, tk_life = Up\<rparr>"
  have out: "dr_out (comparator_task ?pa) = cs_sent" by (simp add: comparator_task_def)
  have 1: "task_step (comparator_task ?pa) 8 h [y] (task_start (comparator_start ?pa)) t1" for h
    using task_step.receives[of "comparator_task ?pa" "task_start (comparator_start ?pa)" "[y]" 8 h id]
    by (simp add: ready_def task_start_def out body t1_def comparator_start_def[of ?pa, THEN arg_cong[of _ _ cs_sent]])
  have 2: "task_step (comparator_task ?pa) 8 h [y] t1 (t1\<lparr>tk_sent := 1\<rparr>)" for h
    using task_step.sends[of t1 "comparator_task ?pa" 8 h "[y]"] by (simp add: t1_def out cs_def)
  have 3: "task_step (comparator_task ?pa) 8 h [y] (t1\<lparr>tk_sent := 1\<rparr>) (t1\<lparr>tk_sent := 2\<rparr>)" for h
    using task_step.sends[of "t1\<lparr>tk_sent := 1\<rparr>" "comparator_task ?pa" 8 h "[y]"]
    by (simp add: t1_def out cs_def numeral_2_eq_2)
  have step: "pipe_step ?pa (s\<lparr>pl_comparator := t\<rparr>) (s\<lparr>pl_comparator := t'\<rparr>)"
    if "\<And>h. task_step (comparator_task ?pa) 8 h [y] t t'" for t t'
    using pipe_step.comparator[of ?pa "s\<lparr>pl_comparator := t\<rparr>" t'] that eq(1) by (simp add: sim_chan_def)
  have s0: "s\<lparr>pl_comparator := task_start (comparator_start ?pa)\<rparr> = s" using start(2) by simp
  let ?s = "s\<lparr>pl_comparator := t1\<lparr>tk_sent := 2\<rparr>\<rparr>"
  have r: "pipe_reaches ?pa (pipe_start ?pa) ?s"
    using s(1) step[OF 1] step[OF 2] step[OF 3] unfolding s0 by (meson rtranclp.rtrancl_into_rtrancl)
  have chan: "submission_chan ?pa ?s = [\<lparr>sa_signed_bundle = b\<rparr>]"
    by (simp add: submission_chan_def shown_def out t1_def cs_def map_filter_simps)
  define t2 where "t2 = \<lparr>tk_state = dr_body (submission_task ?pa) id \<lparr>sa_signed_bundle = b\<rparr> (submission_start ?pa),
    tk_log = [(id :: unit \<Rightarrow> unit, \<lparr>sa_signed_bundle = b\<rparr>)], tk_read = 1, tk_sent = 0, tk_life = Up\<rparr>"
  have "task_step (submission_task ?pa) 8 h [\<lparr>sa_signed_bundle = b\<rparr>] (task_start (submission_start ?pa)) t2" for h
    using task_step.receives[of "submission_task ?pa" "task_start (submission_start ?pa)" "[\<lparr>sa_signed_bundle = b\<rparr>]" 8 h id]
    by (simp add: ready_def task_start_def submission_task_def t2_def)
  then have "pipe_step ?pa ?s (?s\<lparr>pl_submission := t2\<rparr>)"
    using pipe_step.submission[of ?pa ?s t2] start(3) chan by simp
  with r have "pipe_reaches ?pa (pipe_start ?pa) (?s\<lparr>pl_submission := t2\<rparr>)" by simp
  then show thesis
    by (rule that[OF x(1)])
      (use s(2,3) start(1) eq in \<open>simp_all add: settled_def keeping_up_def can_find_def can_approve_def can_simulate_def
        can_execute_def chan_defs t2_def\<close>)
qed

section \<open>Every run is a run of the stages one after the other\<close>

text \<open>C15: However the ten tasks interleave, whichever of them lag or are aborted, and whatever arrives on the
  ingress when: on every channel a reader has seen an initial part of what the stages, run one after
  the other on the whole history of the ingress, publish there, and all of it once the stages have
  caught up.  While none has ended or lagged they can always catch up, with nothing further arriving.
  What the producer sent is an initial part of what its loop makes of the stream, and a journal task
  that has ended holds what the drain loop makes of what it took.\<close>

theorem runs_refine_sequential:
  assumes "pipe_reaches pa (pipe_start pa) s"
  shows "within_sequential pa s \<and> (settled pa s \<longrightarrow> equals_sequential pa s) \<and>
    (keeping_up pa s \<and> 0 < pa_room pa \<longrightarrow>
      (\<exists>s'. pipe_reaches pa s s' \<and> pl_ingress s' = pl_ingress s \<and> settled pa s' \<and> equals_sequential pa s')) \<and>
    prefix (shown (producer_task pa) (pl_producer s))
      (sg_out (producer_loop (pa_clock pa Producer) (pa_source pa) stage_init)) \<and>
    subseq (shown (producer_task pa) (pl_producer s)) (pl_ingress s) \<and>
    drained (pa_ingress_codec pa) (pa_ingress_journal pa) (pl_ingress s) (pl_ingress_drain s) \<and>
    drained (pa_state_codec pa) (pa_state_journal pa) (state_chan pa s) (pl_state_drain s)"
proof -
  note ok = pipe_ok_reached[OF assms]
  have "\<exists>s'. pipe_reaches pa s s' \<and> pl_ingress s' = pl_ingress s \<and> settled pa s' \<and> equals_sequential pa s'"
    if "keeping_up pa s" "0 < pa_room pa"
    using all_settle[OF that(2) ok that(1)] run_settled by (fastforce simp: before_state_def)
  moreover have "prefix (shown (producer_task pa) (pl_producer s))
      (sg_out (producer_loop (pa_clock pa Producer) (pa_source pa) stage_init))"
    using producer.shown_makes[of pa stage_init "pa_source pa" "pl_producer s"] ok
    by (simp add: pipe_ok_def makes_def producer_task_def producer_loop_def)
  ultimately show ?thesis
    using run_within[OF ok] run_settled[OF ok] ok by (simp add: pipe_ok_def drain_ended)
qed

text \<open>C20: Nothing appears from nowhere.  In every state of every run, each bundle candidate published, and
  each attempt the submission driver takes, goes back step by step to the ingress: to an outcome of
  the simulator that was signed, of an opportunity the risk gate approved, which is the check of two
  pool updates of one block number, each read by a refresh at a block event that arrived.  An attempt
  moreover carries the bundle of that outcome, and the relay agreed on it with the kill switch off.\<close>

theorem published_is_traced:
  assumes "pipe_reaches pa (pipe_start pa) s"
  shows "(\<forall>env \<in> set (exec_chan pa s). candidate_traced pa (pl_ingress s) (env_payload env)) \<and>
    (\<forall>(u, a) \<in> set (tk_log (pl_submission s)). attempt_traced pa (pl_ingress s) a)"
  using candidate_from[OF pipe_ok_reached[OF assms]] attempt_from[OF pipe_ok_reached[OF assms] submission_took[OF pipe_ok_reached[OF assms]]]
  by blast

theorem runs_refine_sequential_witness:
  "\<exists>s c. pipe_reaches (demo_parts agreeing_simulator ()) (pipe_start (demo_parts agreeing_simulator ())) s \<and>
     exec_chan (demo_parts agreeing_simulator ()) s = [c] \<and>
     equals_sequential (demo_parts agreeing_simulator ()) s"
proof -
  obtain x s a c where "pipe_reaches (demo_parts agreeing_simulator ()) (pipe_start (demo_parts agreeing_simulator ())) s"
    "settled (demo_parts agreeing_simulator ()) s" "exec_chan (demo_parts agreeing_simulator ()) s = [c]"
    by (rule demo_run) blast
  with runs_refine_sequential[OF this(1)] show ?thesis by blast
qed

theorem published_is_traced_witness:
  "\<exists>s c a x. pipe_reaches (demo_parts agreeing_simulator ()) (pipe_start (demo_parts agreeing_simulator ())) s \<and>
     env_payload x = Block demo_block \<and>
     candidate_traced (demo_parts agreeing_simulator ()) [x] c \<and> attempt_traced (demo_parts agreeing_simulator ()) [x] a \<and>
     tk_log (pl_submission s) = [(id, a)]"
proof -
  obtain x s a c where r: "env_payload x = Block demo_block"
    "pipe_reaches (demo_parts agreeing_simulator ()) (pipe_start (demo_parts agreeing_simulator ())) s"
    "pl_ingress s = [x]" "exec_chan (demo_parts agreeing_simulator ()) s = [c]" "tk_log (pl_submission s) = [(id, a)]"
    by (rule demo_run) blast
  from published_is_traced[OF r(2)] r show ?thesis by (intro exI[of _ s] exI[of _ "env_payload c"] exI[of _ a] exI[of _ x]) simp
qed

end
