(* ===== verification/App_Silence.thy ===== *)
theory App_Silence
  imports App_Settle App_Simulation
begin

text \<open>
  The running pipeline of \<open>App_Run\<close> with the simulator that \<open>wire_phase4\<close> of \<open>crates/app/src/lib.rs\<close> puts in
  it, the one of \<open>App_Simulation\<close>.
\<close>

section \<open>A run with the wired simulator\<close>

definition wired_with ::
  "(fixture_key, fixture_set, 'l) lru_ops \<Rightarrow> ('e, 'v) sim_env \<Rightarrow> nat \<Rightarrow> u64 \<Rightarrow> 'f state_fetcher option
   \<Rightarrow> ('w, 'd, ('l, 'f) wired_sim, 'c, 'j, 'k) parts \<Rightarrow> bool" where
  "wired_with lru se capacity window fetcher pa \<longleftrightarrow>
     (case with_cache lru sim_defaults capacity window of
        Inl e \<Rightarrow> False
      | Inr (cfg, sim) \<Rightarrow>
          pa_simulator pa = wired_simulator lru se cfg fetcher \<and>
          ws_dead (pa_simulator_state pa) = False \<and> ws_state (pa_simulator_state pa) = sim)"

lemma wired_outcomes_empty:
  assumes "fixture_cache lru ent" "wired_with lru se capacity window fetcher pa"
    and "fetcher = None \<or> fetcher = Some (archive_fetcher fe)"
  shows "sequential_outcomes pa H = []"
proof -
  obtain cfg sim where w: "with_cache lru sim_defaults capacity window = Inr (cfg, sim)"
    "pa_simulator pa = wired_simulator lru se cfg fetcher" "ws_dead (pa_simulator_state pa) = False"
    "ws_state (pa_simulator_state pa) = sim"
    using assms(2) by (auto simp: wired_with_def split: sum.splits prod.splits)
  have m: "pa_simulator_state pa = \<lparr>ws_dead = False, ws_state = sim, ws_fetcher = ws_fetcher (pa_simulator_state pa)\<rparr>"
    using w(3,4) by simp
  have start: "simulator_start pa = \<lparr>md_stage = stage_init,
      md_sim = \<lparr>ws_dead = False, ws_state = sim, ws_fetcher = ws_fetcher (pa_simulator_state pa)\<rparr>\<rparr>"
    unfolding simulator_start_def using m by metis
  have st: "sd_stage (state_start pa) = stage_init" by (simp add: state_start_def)
  show ?thesis
    unfolding sequential_outcomes_def start w(2)
    by (rule wired_simulator_never_emits[OF assms(1) w(1) assms(3) st,
          where updates = "map Received (sequential_updates pa H)" and opps = "map Received (sequential_opportunities pa H)"
            and blocks = "map Received H" and kv = "pa_kv pa" and vc = "pa_values pa" and en = "pa_engine pa"
            and ?clk1.0 = "pa_clock pa StateDriver" and ?clk2.0 = "pa_clock pa OpportunityDriver"
            and ?clk3.0 = "pa_clock pa RiskDriver" and g = "pa_gate pa"])
      (auto simp: sequential_updates_def sequential_opportunities_def sequential_approvals_def)
qed

text \<open>C11: The pipeline as wired never reaches the relays.  The simulator starts without fixtures and nothing but
  the prefetch loads any; the opportunities carry a zero block hash, which the fetcher refuses.  So in
  every state of every run, whatever the node answers, whatever arrives on the ingress and however the
  tasks interleave, nothing has been published on the simulation and execution channels, the
  comparator has taken nothing and sent nothing, and the submission driver has taken nothing, with
  prefetching configured or not.\<close>

theorem wired_run_never_submits:
  assumes "fixture_cache lru ent" "wired_with lru se capacity window fetcher pa"
    and "fetcher = None \<or> fetcher = Some (archive_fetcher fe)" "pipe_reaches pa (pipe_start pa) s"
  shows "sim_chan pa s = [] \<and> exec_chan pa s = [] \<and> tk_log (pl_comparator s) = [] \<and>
    shown (comparator_task pa) (pl_comparator s) = [] \<and> tk_log (pl_submission s) = []"
proof -
  note ok = pipe_ok_reached[OF assms(4)]
  have sim: "sim_chan pa s = []"
    using run_within[OF ok] wired_outcomes_empty[OF assms(1-3)] by (simp add: within_sequential_def)
  have exec: "exec_chan pa s = []"
    using run_within[OF ok] wired_outcomes_empty[OF assms(1-3), of "pl_ingress s"]
    by (simp add: within_sequential_def sequential_candidates_def stage_init_def)
  have c: "task_ok (comparator_task pa) (comparator_start pa) [] (pl_comparator s)"
    using ok by (simp add: pipe_ok_def sim)
  then have log: "tk_log (pl_comparator s) = []" by (simp add: task_ok_def)
  have out: "shown (comparator_task pa) (pl_comparator s) = []"
    using comparator.shown_prefix[OF c] by (simp add: log replayed_def comparator_start_def comparator_task_def)
  have "task_ok (submission_task pa) (submission_start pa) [] (pl_submission s)"
    using ok by (simp add: pipe_ok_def submission_chan_def out map_filter_simps)
  then have "tk_log (pl_submission s) = []" by (simp add: task_ok_def)
  with sim exec log out show ?thesis by simp
qed

text \<open>A run in which a block arrives, an opportunity is found and approved, and nothing follows.\<close>

theorem wired_run_never_submits_witness:
  "\<forall>f0. \<exists>pa s ap. pa = demo_parts (wired_simulator list_lru_ops demo_sim_env sim_defaults (Some (archive_fetcher demo_fetcher_env)))
       \<lparr>ws_dead = False, ws_state = demo_sim_state, ws_fetcher = f0\<rparr> \<and>
     pipe_reaches pa (pipe_start pa) s \<and> settled pa s \<and> risk_chan pa s = [ap] \<and> sim_chan pa s = [] \<and>
     tk_log (pl_submission s) = []"
proof
  fix f0 :: "(unit, nat \<times> (code_key \<times> bytes) list, nat \<times> (storage_key \<times> b256) list) fetcher"
  let ?sim = "wired_simulator list_lru_ops demo_sim_env sim_defaults (Some (archive_fetcher demo_fetcher_env))"
  let ?m = "\<lparr>ws_dead = False, ws_state = demo_sim_state, ws_fetcher = f0\<rparr>"
  let ?pa = "demo_parts ?sim ?m"
  obtain x rc ap where x: "sequential_approvals ?pa [x] = [ap]" using demo_approval[of ?sim ?m] by metis
  obtain s where s: "pipe_reaches ?pa (pipe_start ?pa) s" "settled ?pa s" "pl_ingress s = [x]"
    using every_history[of ?pa "[x]"] by (auto simp: before_state_def)
  have "risk_chan ?pa s = [ap]"
    using run_settled[OF pipe_ok_reached[OF s(1)] s(2)] by (simp add: equals_sequential_def s(3) x)
  moreover have "wired_with list_lru_ops demo_sim_env 4 1 (Some (archive_fetcher demo_fetcher_env)) ?pa"
    by (simp add: wired_with_def demo_sim_state_new)
  from wired_run_never_submits[OF fixture_lru.fixture_cache_axioms this disjI2[OF refl] s(1)]
  have "sim_chan ?pa s = []" "tk_log (pl_submission s) = []" by simp_all
  ultimately show "\<exists>pa s ap. pa = ?pa \<and> pipe_reaches pa (pipe_start pa) s \<and> settled pa s \<and> risk_chan pa s = [ap] \<and>
      sim_chan pa s = [] \<and> tk_log (pl_submission s) = []"
    using s(1,2) by blast
qed

end
