(* ===== verification/Fixture_Recorder.thy ===== *)
theory Fixture_Recorder
  imports Sim_Fixtures Relay_Clients
begin

text \<open>
  The fixture recorder (\<open>crates/simulator/examples/dump_fixture.rs\<close>): a command line tool that reads the
  contracts of one block from an archive node and prints them as Rust constants, the ones of
  \<open>crates/simulator/src/fixtures.rs\<close>.  Standard output and standard error are strings; the archive is the
  fetcher of \<open>State_Fetcher\<close> over the provider of \<open>Node\<close>.
\<close>

section \<open>Texts\<close>

definition newline :: string where "newline = [CHR 0x0A]"

definition line :: "string \<Rightarrow> string" where "line t = t @ newline"

definition byte_literal :: "u8 \<Rightarrow> string" where "byte_literal b = ''0x'' @ hex_bytes [b]"

text \<open>The loop over the bytes; the separator before the byte of index \<open>i\<close> may depend on \<open>i\<close>.\<close>

fun literal_items :: "(nat \<Rightarrow> string) \<Rightarrow> nat \<Rightarrow> bytes \<Rightarrow> string" where
  "literal_items sep i [] = []"
| "literal_items sep i (b # bs) =
     (if 0 < i then sep i else []) @ byte_literal b @ literal_items sep (Suc i) bs"

definition addr_array_literal :: "address \<Rightarrow> string" where
  "addr_array_literal a = ''['' @ literal_items (\<lambda>_. '', '') 0 (address_to_be a) @ '']''"

definition b256_array_literal :: "b256 \<Rightarrow> string" where
  "b256_array_literal b = ''['' @ literal_items (\<lambda>_. '', '') 0 (u256_to_be b) @ '']''"

definition b256_array_literal_from_u256 :: "u256 \<Rightarrow> string" where
  "b256_array_literal_from_u256 u = ''['' @ literal_items (\<lambda>_. '', '') 0 (u256_to_be u) @ '']''"

definition bytes_array_literal :: "bytes \<Rightarrow> string" where
  "bytes_array_literal bs =
     ''['' @ literal_items (\<lambda>i. if i mod 16 = 0 then '','' @ newline @ ''    '' else '', '') 0 bs @ '']''"

definition storage_rows :: "(u256 \<times> b256) list \<Rightarrow> string" where
  "storage_rows st =
     concat (map (\<lambda>(slot, v). line (''    ('' @ b256_array_literal_from_u256 slot @ '', '' @ b256_array_literal v @ ''),'')) st)"

text \<open>What both printers end with.\<close>

definition const_text :: "string \<Rightarrow> address \<Rightarrow> b256 \<Rightarrow> bytes \<Rightarrow> (u256 \<times> b256) list \<Rightarrow> string" where
  "const_text name a h code st =
     line (''pub const '' @ name @ ''_ADDRESS: [u8; 20] = '' @ addr_array_literal a @ '';'') @
     line (''pub const '' @ name @ ''_BLOCK_HASH: [u8; 32] = '' @ b256_array_literal h @ '';'') @
     line (''pub const '' @ name @ ''_CODE: &[u8] = &'' @ bytes_array_literal code @ '';'') @
     line (''pub const '' @ name @ ''_STORAGE: &[([u8; 32], [u8; 32])] = &['') @
     storage_rows st @ line ''];'' @ line []"

fun pool_kind_text :: "pool_kind \<Rightarrow> string" where
  "pool_kind_text UniswapV2 = ''UniswapV2''"
| "pool_kind_text UniswapV3Fee005 = ''UniswapV3Fee005''"
| "pool_kind_text SushiswapV2 = ''SushiswapV2''"

definition print_pool_const :: "string \<Rightarrow> fetched_pool_state \<Rightarrow> string" where
  "print_pool_const name p =
     line (''// --- '' @ name @ '' ('' @ pool_kind_text (pid_kind (fp_pool p)) @ '') ---'') @
     const_text name (pid_address (fp_pool p)) (fp_hash p) (fp_pool_code p) (fp_pool_storage p)"

definition print_account_const :: "string \<Rightarrow> fetched_account \<Rightarrow> string" where
  "print_account_const name a =
     line (''// --- '' @ name @ '' ---'') @ const_text name (fa_address a) (fa_block_hash a) (fa_code a) (fa_storage a)"

text \<open>The display texts of the two error types.\<close>

fun node_error_text :: "node_error \<Rightarrow> string" where
  "node_error_text (WsConnect e) = ''WebSocket connect failed: '' @ e"
| "node_error_text (Transport e) = ''transport error: '' @ e"
| "node_error_text (Rpc e) = ''JSON-RPC error: '' @ e"
| "node_error_text (NodeDecode e) = ''decode error: '' @ e"
| "node_error_text NodeClosed = ''provider closed''"
| "node_error_text ArchiveNotConfigured = ''archive RPC not configured (set node.archive_rpc in config)''"

fun fetch_error_text :: "fetch_error \<Rightarrow> string" where
  "fetch_error_text (FetchNode e) = ''node error: '' @ node_error_text e"
| "fetch_error_text InvalidBlockHash = ''invalid block_hash zero''"
| "fetch_error_text (DerivedSlotsTooDeep n) = ''derived-slot loop exceeded max depth ('' @ decimal n @ '')''"
| "fetch_error_text (FetchInternal e) = ''internal: '' @ e"

section \<open>Constants\<close>

definition WETH9 :: address where
  "WETH9 = address_from_be
     [0xc0, 0x2a, 0xaa, 0x39, 0xb2, 0x23, 0xfe, 0x8d, 0x0a, 0x0e, 0x5c, 0x4f, 0x27, 0xea, 0xd9, 0x08, 0x3c, 0x75, 0x6c, 0xc2]"
definition USDC_PROXY :: address where
  "USDC_PROXY = address_from_be
     [0xa0, 0xb8, 0x69, 0x91, 0xc6, 0x21, 0x8b, 0x36, 0xc1, 0xd1, 0x9d, 0x4a, 0x2e, 0x9e, 0xb0, 0xce, 0x36, 0x06, 0xeb, 0x48]"
definition V2_WETH_USDC :: address where
  "V2_WETH_USDC = address_from_be
     [0xb4, 0xe1, 0x6d, 0x01, 0x68, 0xe5, 0x2d, 0x35, 0xca, 0xcd, 0x2c, 0x61, 0x85, 0xb4, 0x42, 0x81, 0xec, 0x28, 0xc9, 0xdc]"
definition V3_005_WETH_USDC :: address where
  "V3_005_WETH_USDC = address_from_be
     [0x88, 0xe6, 0xa0, 0xc2, 0xdd, 0xd2, 0x6f, 0xee, 0xb6, 0x4f, 0x03, 0x9a, 0x2c, 0x41, 0x29, 0x6f, 0xcb, 0x3f, 0x56, 0x40]"
definition V2_FACTORY :: address where
  "V2_FACTORY = address_from_be
     [0x5c, 0x69, 0xbe, 0xe7, 0x01, 0xef, 0x81, 0x4a, 0x2b, 0x6a, 0x3e, 0xdd, 0x4b, 0x16, 0x52, 0xcb, 0x9c, 0xc5, 0xaa, 0x6f]"
definition MOCK_ROUTER :: address where "MOCK_ROUTER = address_from_be (replicate 20 0x33)"

definition WETH9_BALANCES :: u64 where "WETH9_BALANCES = 3"
definition USDC_BALANCES :: u64 where "USDC_BALANCES = 9"

definition EIP1967_IMPL_SLOT_BE :: bytes where
  "EIP1967_IMPL_SLOT_BE =
     [0x36, 0x08, 0x94, 0xa1, 0x3b, 0xa1, 0xa3, 0x21, 0x06, 0x67, 0xc8, 0x28, 0x49, 0x2d, 0xb9, 0x8d,
      0xca, 0x3e, 0x20, 0x76, 0xcc, 0x37, 0x35, 0xa9, 0x20, 0xa3, 0xca, 0x50, 0x5d, 0x38, 0x2b, 0xbc]"
definition ZEPPELINOS_IMPL_SLOT_BE :: bytes where
  "ZEPPELINOS_IMPL_SLOT_BE =
     [0x70, 0x50, 0xc9, 0xe0, 0xf4, 0xca, 0x76, 0x9c, 0x69, 0xbd, 0x3a, 0x8e, 0xf7, 0x40, 0xbc, 0x37,
      0x93, 0x4f, 0x8e, 0x2c, 0x03, 0x6e, 0x5a, 0x72, 0x3f, 0xd8, 0xee, 0x04, 0x8e, 0xd3, 0xf8, 0xc3]"
definition ZEPPELINOS_ADMIN_SLOT_BE :: bytes where
  "ZEPPELINOS_ADMIN_SLOT_BE =
     [0x10, 0xd6, 0xa5, 0x4a, 0x47, 0x54, 0xc8, 0x86, 0x9d, 0x68, 0x86, 0xb5, 0xf5, 0xd7, 0xfb, 0xfa,
      0x5b, 0x45, 0x22, 0x23, 0x7e, 0xa5, 0xc6, 0x0d, 0x11, 0xbc, 0x4e, 0x7a, 0x1f, 0xf9, 0x39, 0x0b]"

definition pool_id_v2 :: pool_id where
  "pool_id_v2 = \<lparr>pid_kind = UniswapV2, pid_address = V2_WETH_USDC\<rparr>"
definition pool_id_v3_005 :: pool_id where
  "pool_id_v3_005 = \<lparr>pid_kind = UniswapV3Fee005, pid_address = V3_005_WETH_USDC\<rparr>"

definition v2_extra_slots :: "u256 list" where "v2_extra_slots = map word_of_nat [9 ..< 13]"

definition weth_slots :: "(bytes \<Rightarrow> bytes) \<Rightarrow> u256 list" where
  "weth_slots keccak = map (\<lambda>a. mapping_slot_u256 keccak (ucast WETH9_BALANCES) (address_key a))
     [MOCK_ROUTER, V2_WETH_USDC, V3_005_WETH_USDC]"

definition usdc_proxy_slots :: "(bytes \<Rightarrow> bytes) \<Rightarrow> u256 list" where
  "usdc_proxy_slots keccak =
     [u256_from_be EIP1967_IMPL_SLOT_BE, u256_from_be ZEPPELINOS_IMPL_SLOT_BE, u256_from_be ZEPPELINOS_ADMIN_SLOT_BE] @
     map (\<lambda>a. mapping_slot_u256 keccak (ucast USDC_BALANCES) (address_key a)) [MOCK_ROUTER, V2_WETH_USDC, V3_005_WETH_USDC] @
     map word_of_nat [0 ..< 16]"

text \<open>The implementation slot of the proxy, EIP-1967 first, and the name of the scheme.\<close>

definition proxy_impl :: "fetched_account \<Rightarrow> (b256 \<times> string) option" where
  "proxy_impl proxy =
     (let read_slot = (\<lambda>slot_be. slot_value (u256_from_be slot_be) (fa_storage proxy));
          zeppelin = (case read_slot ZEPPELINOS_IMPL_SLOT_BE of
            Some v \<Rightarrow> (if v \<noteq> 0 then Some (v, ''ZeppelinOS'') else None) | None \<Rightarrow> None)
      in (case read_slot EIP1967_IMPL_SLOT_BE of
            Some v \<Rightarrow> (if v \<noteq> 0 then Some (v, ''EIP-1967'') else zeppelin) | None \<Rightarrow> zeppelin))"

section \<open>The session\<close>

record console =
  con_out :: string
  con_err :: string

definition console_start :: console where "console_start = \<lparr>con_out = [], con_err = []\<rparr>"

text \<open>A step either goes on with a value or returns an exit code.\<close>

type_synonym ('f, 'a) session = "'f \<times> console \<Rightarrow> (u8 + 'a) \<times> ('f \<times> console)"

definition go_on :: "('f, 'a) session \<Rightarrow> ('a \<Rightarrow> ('f, 'b) session) \<Rightarrow> ('f, 'b) session" where
  "go_on m g = (\<lambda>s. case m s of (Inl code, s) \<Rightarrow> (Inl code, s) | (Inr x, s) \<Rightarrow> g x s)"

definition println :: "string \<Rightarrow> ('f, unit) session" where
  "println t = (\<lambda>(f, c). (Inr (), (f, c\<lparr>con_out := con_out c @ line t\<rparr>)))"

definition print_text :: "string \<Rightarrow> ('f, unit) session" where
  "print_text t = (\<lambda>(f, c). (Inr (), (f, c\<lparr>con_out := con_out c @ t\<rparr>)))"

definition eprintln :: "string \<Rightarrow> ('f, unit) session" where
  "eprintln t = (\<lambda>(f, c). (Inr (), (f, c\<lparr>con_err := con_err c @ line t\<rparr>)))"

definition exit_with :: "u8 \<Rightarrow> ('f, 'a) session" where
  "exit_with code = (\<lambda>s. (Inl code, s))"

definition fetch_or_exit ::
  "string \<Rightarrow> ('f \<Rightarrow> (fetch_error + 'a) \<times> 'f) \<Rightarrow> ('f, 'a) session" where
  "fetch_or_exit what fetch = (\<lambda>(f, c).
     case fetch f of
       (Inr x, f) \<Rightarrow> (Inr x, (f, c))
     | (Inl e, f) \<Rightarrow>
         go_on (eprintln (''error: '' @ what @ '' fetch failed: '' @ fetch_error_text e)) (\<lambda>_. exit_with 4) (f, c))"

record ('w, 'tx, 'pf, 'u, 'cc, 'sc) recorder_env =
  rr_archive_url :: "string option"
  rr_args :: "string list"
  rr_b256_from_str :: "string \<Rightarrow> string + b256"
  rr_debug_address :: "address \<Rightarrow> string"
  rr_keccak :: "bytes \<Rightarrow> bytes"
  rr_parse_url :: "string \<Rightarrow> string + 'u"
  rr_on_http :: "'u \<Rightarrow> ('w, 'tx, 'pf) root_provider"
  rr_code_cache :: "(code_key, bytes, 'cc) cache_ops"
  rr_storage_cache :: "(storage_key, b256, 'sc) cache_ops"

definition parse_block_hash :: "(string \<Rightarrow> string + b256) \<Rightarrow> string \<Rightarrow> string + b256" where
  "parse_block_hash from_str s =
     (let stripped = (if take 2 s = ''0x'' then drop 2 s else s) in
      if length stripped \<noteq> 64
      then Inl (''expected 32-byte hex (64 chars), got '' @ decimal (length stripped) @ '' chars'')
      else case from_str s of Inl e \<Rightarrow> Inl (''hex parse: '' @ e) | Inr h \<Rightarrow> Inr h)"

definition recorder_node_config :: "string \<Rightarrow> node_config" where
  "recorder_node_config archive_url =
     \<lparr>geth_ws_url = ''ws://127.0.0.1:65535/never-used'', geth_http_url = archive_url,
      fallback_rpc = [\<lparr>fb_url = archive_url, fb_label = ''archive-only-tool''\<rparr>],
      archive_rpc = Some \<lparr>fb_url = archive_url, fb_label = ''archive''\<rparr>\<rparr>"

definition recorder_fetcher ::
  "('w, 'tx, 'pf, 'u, 'cc, 'sc) recorder_env \<Rightarrow> ('w, 'tx, 'pf) node_provider \<Rightarrow> ('w, 'cc, 'sc) fetcher_env" where
  "recorder_fetcher env np =
     \<lparr>fe_backend = node_backend np, fe_code = rr_code_cache env, fe_storage = rr_storage_cache env\<rparr>"

definition merge_extra :: "fetched_pool_state \<Rightarrow> fetched_account \<Rightarrow> fetched_pool_state" where
  "merge_extra v2 extra = v2\<lparr>fp_pool_storage := sort_key fst (fp_pool_storage v2 @ fa_storage extra)\<rparr>"

text \<open>From the V2 pool to the proxy, and from the implementation on.\<close>

definition record_pools_and_tokens ::
  "(bytes \<Rightarrow> bytes) \<Rightarrow> ('w, 'cc, 'sc) fetcher_env \<Rightarrow> b256 \<Rightarrow> (('w, 'cc, 'sc) fetcher, fetched_account) session" where
  "record_pools_and_tokens keccak fe h =
     go_on (fetch_or_exit ''V2'' (fetch_pool fe pool_id_v2 h uniswap_v2_layout)) (\<lambda>v2.
     go_on (fetch_or_exit ''V2 extra-slot'' (fetch_account fe V2_WETH_USDC v2_extra_slots h)) (\<lambda>v2_extra.
     go_on (print_text (print_pool_const ''V2_WETH_USDC'' (merge_extra v2 v2_extra))) (\<lambda>_.
     go_on (fetch_or_exit ''V3'' (fetch_pool fe pool_id_v3_005 h (uniswap_v3_layout keccak))) (\<lambda>v3.
     go_on (print_text (print_pool_const ''V3_WETH_USDC_005'' v3)) (\<lambda>_.
     go_on (fetch_or_exit ''WETH9'' (fetch_account fe WETH9 (weth_slots keccak) h)) (\<lambda>weth.
     go_on (print_text (print_account_const ''WETH9'' weth)) (\<lambda>_.
     go_on (fetch_or_exit ''USDC proxy'' (fetch_account fe USDC_PROXY (usdc_proxy_slots keccak) h)) (\<lambda>usdc_proxy.
     go_on (print_text (print_account_const ''USDC_PROXY'' usdc_proxy)) (\<lambda>_ s. (Inr usdc_proxy, s))))))))))"

definition record_impl_and_factory ::
  "(address \<Rightarrow> string) \<Rightarrow> ('w, 'cc, 'sc) fetcher_env \<Rightarrow> b256 \<Rightarrow> b256 \<times> string \<Rightarrow> (('w, 'cc, 'sc) fetcher, unit) session" where
  "record_impl_and_factory debug_address fe h = (\<lambda>(impl_slot_value, proxy_scheme).
     let impl_addr = address_from_be (drop 12 (u256_to_be impl_slot_value)) in
     go_on (println (''// USDC proxy scheme detected: '' @ proxy_scheme)) (\<lambda>_.
     go_on (println (''//   impl_slot_value (low 20 bytes = address) = 0x'' @ hex_bytes (u256_to_be impl_slot_value))) (\<lambda>_.
     go_on (println (''//   parsed implementation address: '' @ debug_address impl_addr)) (\<lambda>_.
     go_on (println []) (\<lambda>_.
     go_on (eprintln (''# USDC proxy scheme detected: '' @ proxy_scheme)) (\<lambda>_.
     go_on (eprintln (''# parsed USDC impl address: '' @ debug_address impl_addr)) (\<lambda>_.
     go_on (fetch_or_exit ''USDC impl'' (fetch_account fe impl_addr [] h)) (\<lambda>usdc_impl.
     go_on (print_text (print_account_const ''USDC_IMPL'' usdc_impl)) (\<lambda>_.
     go_on (fetch_or_exit ''V2 factory'' (fetch_account fe V2_FACTORY [0] h)) (\<lambda>v2_factory.
     print_text (print_account_const ''V2_FACTORY'' v2_factory)))))))))))"

definition record_header :: "string \<Rightarrow> ('f, unit) session" where
  "record_header block_hash_hex =
     go_on (eprintln ''# P4-C2 fixture recording'') (\<lambda>_.
     go_on (eprintln (''# block_hash: '' @ block_hash_hex)) (\<lambda>_.
     go_on (eprintln ''# (paste the stdout below into crates/simulator/src/fixtures.rs)'') (\<lambda>_.
     go_on (eprintln []) (\<lambda>_.
     go_on (println ''// AUTO-GENERATED by `cargo run --release --example dump_fixture`.'') (\<lambda>_.
     go_on (println (''// Block hash: '' @ block_hash_hex)) (\<lambda>_.
     go_on (println ''// DO NOT edit by hand. Re-run dump_fixture if T-USDC-1 reports a'') (\<lambda>_.
     go_on (println ''// MissingStorage error for an unrecorded slot.'') (\<lambda>_.
     println []))))))))"

definition record_footer :: "('f, unit) session" where
  "record_footer =
     go_on (eprintln []) (\<lambda>_.
     go_on (eprintln ''done. Pasted constants live at crates/simulator/src/fixtures.rs.'') (\<lambda>_.
     go_on (eprintln ''If P4-C2 T-USDC-1 reports a MissingStorage error for an unrecorded'') (\<lambda>_.
     go_on (eprintln ''slot, add that slot to `usdc_proxy_slots` in dump_fixture.rs and'') (\<lambda>_.
     eprintln ''re-run with the same BLOCK_HASH_HEX.''))))"

definition record_fixtures ::
  "('w, 'tx, 'pf, 'u, 'cc, 'sc) recorder_env \<Rightarrow> ('w, 'cc, 'sc) fetcher_env \<Rightarrow> string \<Rightarrow> b256
   \<Rightarrow> (('w, 'cc, 'sc) fetcher, unit) session" where
  "record_fixtures env fe block_hash_hex h =
     go_on (record_header block_hash_hex) (\<lambda>_.
     go_on (record_pools_and_tokens (rr_keccak env) fe h) (\<lambda>usdc_proxy.
     go_on (case proxy_impl usdc_proxy of
              Some found \<Rightarrow> record_impl_and_factory (rr_debug_address env) fe h found
            | None \<Rightarrow>
                go_on (eprintln ''error: USDC proxy implementation slot is zero in BOTH EIP-1967 and ZeppelinOS layouts'') (\<lambda>_.
                go_on (eprintln ''       (the proxy may use yet another scheme; inspect head slots in the proxy fixture)'') (\<lambda>_.
                exit_with 5))) (\<lambda>_.
     record_footer)))"

text \<open>The exit code and what was printed.\<close>

definition complain :: "string list \<Rightarrow> u8 \<Rightarrow> u8 \<times> console" where
  "complain ls code = (code, \<lparr>con_out = [], con_err = concat (map line ls)\<rparr>)"

definition recorder_main :: "('w, 'tx, 'pf, 'u, 'cc, 'sc) recorder_env \<Rightarrow> 'w \<Rightarrow> u8 \<times> console" where
  "recorder_main env w =
     (case rr_archive_url env of
        Some (c # cs) \<Rightarrow>
          (let archive_url = c # cs in
           if length (rr_args env) < 2
           then complain [''error: missing CLI arg <BLOCK_HASH_HEX>'',
             ''usage: cargo run --release --example dump_fixture -- 0x<32-byte-hash>''] 2
           else let block_hash_hex = rr_args env ! 1 in
             (case parse_block_hash (rr_b256_from_str env) block_hash_hex of
                Inl e \<Rightarrow> complain [''error: bad BLOCK_HASH_HEX: '' @ e] 2
              | Inr h \<Rightarrow>
                  (case connect (rr_parse_url env) (rr_on_http env) (recorder_node_config archive_url) of
                     Inl e \<Rightarrow> complain [''error: NodeProvider::connect failed: '' @ node_error_text e] 3
                   | Inr np \<Rightarrow>
                       (let fe = recorder_fetcher env np in
                        case record_fixtures env fe block_hash_hex h (fetcher_with_backend fe fetcher_defaults w, console_start) of
                          (Inl code, (f, c)) \<Rightarrow> (code, c)
                        | (Inr _, (f, c)) \<Rightarrow> (0, c)))))
      | _ \<Rightarrow> complain [''error: ARCHIVE_RPC_URL env var unset or empty'',
          ''       set it to your archive-mode RPC endpoint and re-run'',
          ''       (URL is never logged; only the recorded slot values + bytecode are emitted)''] 2)"

section \<open>Reading the constants back\<close>

text \<open>What the printed text denotes as Rust source: byte arrays with their commas between any white space, comment lines and
  empty lines between the items.\<close>

type_synonym constants = "bytes \<times> bytes \<times> bytes \<times> (bytes \<times> bytes) list"

definition hex_value :: "char \<Rightarrow> nat option" where "hex_value c = position c ''0123456789abcdef''"

definition hex_byte :: "char \<Rightarrow> char \<Rightarrow> u8 option" where
  "hex_byte d e =
     Option.bind (hex_value d) (\<lambda>m. Option.bind (hex_value e) (\<lambda>n. Some (word_of_nat (16 * m + n))))"

definition is_space :: "char \<Rightarrow> bool" where "is_space c \<longleftrightarrow> c = CHR '' '' \<or> c = CHR 0x0A"

text \<open>The flag tells whether an element has just been read, so that a comma must come before the next.\<close>

fun read_bytes :: "bool \<Rightarrow> string \<Rightarrow> (bytes \<times> string) option" where
  "read_bytes after [] = None"
| "read_bytes after (c # cs) =
     (if c = CHR '']'' then Some ([], cs)
      else if is_space c then read_bytes after cs
      else if c = CHR '','' then (if after then read_bytes False cs else None)
      else case cs of
        x # d # e # rest \<Rightarrow>
          (if \<not> after \<and> c = CHR ''0'' \<and> x = CHR ''x''
           then Option.bind (hex_byte d e) (\<lambda>b. map_option (apfst ((#) b)) (read_bytes True rest))
           else None)
      | _ \<Rightarrow> None)"

definition expect :: "string \<Rightarrow> string \<Rightarrow> string option" where
  "expect p s = (if take (length p) s = p then Some (drop (length p) s) else None)"

definition read_array :: "string \<Rightarrow> (bytes \<times> string) option" where
  "read_array s = Option.bind (expect ''['' s) (read_bytes False)"

definition read_row :: "string \<Rightarrow> ((bytes \<times> bytes) \<times> string) option" where
  "read_row s =
     Option.bind (expect ''    ('' s) (\<lambda>s.
     Option.bind (read_array s) (\<lambda>(slot, s).
     Option.bind (expect '', '' s) (\<lambda>s.
     Option.bind (read_array s) (\<lambda>(v, s).
     Option.bind (expect (''),'' @ newline) s) (\<lambda>s. Some ((slot, v), s))))))"

declare read_bytes.simps(2) [simp del]

lemma read_bytes_cases:
  assumes "read_bytes after (c # cs) = Some (bs, r)"
  obtains "r = cs" | after' where "read_bytes after' cs = Some (bs, r)"
    | x d e rest bs' where "cs = x # d # e # rest" "read_bytes True rest = Some (bs', r)"
proof (cases "c = CHR '']'' \<or> is_space c \<or> c = CHR '',''")
  case True
  with assms that(1,2) show ?thesis by (auto simp: read_bytes.simps(2) split: if_splits)
next
  case False
  with assms have *: "(case cs of x # d # e # rest \<Rightarrow>
      (if \<not> after \<and> c = CHR ''0'' \<and> x = CHR ''x''
       then Option.bind (hex_byte d e) (\<lambda>b. map_option (apfst ((#) b)) (read_bytes True rest)) else None)
    | _ \<Rightarrow> None) = Some (bs, r)"
    by (simp add: read_bytes.simps(2))
  then obtain x d e rest where cs: "cs = x # d # e # rest"
    by (simp split: list.splits)
  with * have "Option.bind (hex_byte d e) (\<lambda>b. map_option (apfst ((#) b)) (read_bytes True rest)) = Some (bs, r)"
    by (simp split: if_splits)
  then obtain bs' where "read_bytes True rest = Some (bs', r)" by (auto simp: bind_eq_Some_conv)
  with cs that(3) show ?thesis by blast
qed

lemma read_bytes_shorter: "read_bytes after s = Some (bs, r) \<Longrightarrow> length r < length s"
proof (induction s arbitrary: after bs r rule: length_induct)
  case (1 s)
  note IH = "1.IH"[rule_format]
  show ?case
  proof (cases s)
    case (Cons c cs)
    with "1.prems" have "read_bytes after (c # cs) = Some (bs, r)" by simp
    then show ?thesis
    proof (cases rule: read_bytes_cases)
      case (2 after')
      have "length r < length cs" by (rule IH[OF _ 2]) (simp add: Cons)
      then show ?thesis by (simp add: Cons)
    next
      case (3 x d e rest bs')
      have "length r < length rest" by (rule IH[OF _ 3(2)]) (simp add: Cons 3(1))
      then show ?thesis by (simp add: Cons 3(1))
    qed (simp add: Cons)
  qed (use "1.prems" in simp)
qed

lemma expect_length:
  assumes "expect p s = Some r"
  shows "length s = length p + length r"
proof -
  have t: "take (length p) s = p" and r: "r = drop (length p) s"
    using assms by (simp_all add: expect_def split: if_splits)
  from t have "length p \<le> length s" by (metis length_take min.cobounded1)
  then show ?thesis by (simp add: r)
qed

lemma read_array_shorter: "read_array s = Some (bs, r) \<Longrightarrow> length r < length s"
  by (auto simp: read_array_def bind_eq_Some_conv dest!: expect_length read_bytes_shorter)

lemma read_row_shorter: "read_row s = Some (row, r) \<Longrightarrow> length r < length s"
  by (auto simp: read_row_def bind_eq_Some_conv dest!: expect_length read_array_shorter)

function read_rows :: "string \<Rightarrow> ((bytes \<times> bytes) list \<times> string) option" where
  "read_rows s =
     (case expect (''];'' @ newline) s of
        Some r \<Rightarrow> Some ([], r)
      | None \<Rightarrow>
          (case read_row s of
             None \<Rightarrow> None
           | Some (row, r) \<Rightarrow> map_option (apfst ((#) row)) (read_rows r)))"
  by pat_completeness auto

termination
  by (relation "measure length") (auto dest: read_row_shorter)

declare read_rows.simps [simp del]

definition read_const :: "string \<Rightarrow> string \<Rightarrow> (constants \<times> string) option" where
  "read_const name s =
     Option.bind (expect (''pub const '' @ name @ ''_ADDRESS: [u8; 20] = '') s) (\<lambda>s.
     Option.bind (read_array s) (\<lambda>(a, s).
     Option.bind (expect ('';'' @ newline @ ''pub const '' @ name @ ''_BLOCK_HASH: [u8; 32] = '') s) (\<lambda>s.
     Option.bind (read_array s) (\<lambda>(h, s).
     Option.bind (expect ('';'' @ newline @ ''pub const '' @ name @ ''_CODE: &[u8] = &'') s) (\<lambda>s.
     Option.bind (read_array s) (\<lambda>(code, s).
     Option.bind (expect ('';'' @ newline @ ''pub const '' @ name @ ''_STORAGE: &[([u8; 32], [u8; 32])] = &['' @ newline) s) (\<lambda>s.
     Option.bind (read_rows s) (\<lambda>(st, s). Some ((a, h, code, st), s)))))))))"

lemma dropped_line_shorter: "s \<noteq> [] \<Longrightarrow> length (dropWhile P s) - Suc 0 < length s"
  using length_dropWhile_le[of P s] by (cases "length s") (simp_all del: length_dropWhile_le)

function skip_comments :: "string \<Rightarrow> string" where
  "skip_comments s =
     (if take 2 s = ''//'' then skip_comments (drop 1 (dropWhile (\<lambda>c. c \<noteq> CHR 0x0A) s))
      else if take 1 s = newline then skip_comments (drop 1 s)
      else s)"
  by pat_completeness auto

termination
  by (relation "measure length") (auto simp: newline_def intro!: dropped_line_shorter diff_less)

declare skip_comments.simps [simp del]

fun read_fixtures :: "string list \<Rightarrow> string \<Rightarrow> (constants list \<times> string) option" where
  "read_fixtures [] s = Some ([], skip_comments s)"
| "read_fixtures (name # names) s =
     Option.bind (read_const name (skip_comments s)) (\<lambda>(c, s).
     Option.bind (read_fixtures names s) (\<lambda>(cs, s). Some (c # cs, s)))"

section \<open>What is printed reads back\<close>

lemma hex_value_digit: "n < 16 \<Longrightarrow> hex_value (hex_digit n) = Some n"
proof -
  have "\<forall>n \<in> set [0 ..< 16]. hex_value (hex_digit n) = Some n" by code_simp
  then show "n < 16 \<Longrightarrow> hex_value (hex_digit n) = Some n" by simp
qed

lemma hex_byte_digits: "hex_byte (hex_digit (unat b div 16)) (hex_digit (unat b mod 16)) = Some b"
proof -
  have "unat b < 256" using unat_lt_exp[of b] by simp
  then have "unat b div 16 < 16" by (simp add: less_mult_imp_div_less)
  moreover have "16 * (unat b div 16) + unat b mod 16 = unat b" by simp
  ultimately show ?thesis
    by (simp only: hex_byte_def hex_value_digit[OF mod_less_divisor[OF zero_less_numeral]] hex_value_digit
        bind.bind_lunit of_nat_unat ucast_id)
qed

lemma hex_digit_neq: "n < 16 \<Longrightarrow> hex_digit n \<notin> {CHR '']'', CHR '','', CHR '' '', CHR 0x0A}"
proof -
  have "\<forall>n \<in> set [0 ..< 16]. hex_digit n \<notin> {CHR '']'', CHR '','', CHR '' '', CHR 0x0A}" by code_simp
  then show "n < 16 \<Longrightarrow> hex_digit n \<notin> {CHR '']'', CHR '','', CHR '' '', CHR 0x0A}" by simp
qed

lemma read_bytes_byte:
  "read_bytes False (byte_literal b @ s) = map_option (apfst ((#) b)) (read_bytes True s)"
  by (simp add: byte_literal_def hex_bytes_def read_bytes.simps(2) is_space_def hex_byte_digits)

definition comma_first :: "string \<Rightarrow> bool" where
  "comma_first t \<longleftrightarrow> (\<exists>ws. t = CHR '','' # ws \<and> list_all is_space ws)"

lemma read_bytes_spaces: "list_all is_space ws \<Longrightarrow> read_bytes after (ws @ s) = read_bytes after s"
  by (induction ws) (auto simp: read_bytes.simps(2) is_space_def)

lemma read_bytes_comma: "comma_first t \<Longrightarrow> read_bytes True (t @ s) = read_bytes False s"
  by (auto simp: comma_first_def read_bytes.simps(2) is_space_def read_bytes_spaces)

lemma read_items:
  assumes "\<And>i. comma_first (sep i)"
  shows "read_bytes (0 < i) (literal_items sep i bs @ CHR '']'' # s) = Some (bs, s)"
proof (induction bs arbitrary: i)
  case Nil
  show ?case by (simp add: read_bytes.simps(2))
next
  case (Cons b bs)
  have "read_bytes False (byte_literal b @ literal_items sep (Suc j) bs @ CHR '']'' # s) = Some (b # bs, s)" for j
    using Cons.IH[of "Suc j"] by (simp add: read_bytes_byte)
  then show ?case by (simp add: read_bytes_comma[OF assms])
qed

lemma expect_append [simp]: "expect p (p @ s) = Some s"
  by (simp add: expect_def)

lemma read_array_items:
  assumes "\<And>i. comma_first (sep i)"
  shows "read_array ((''['' @ literal_items sep 0 bs @ '']'') @ s) = Some (bs, s)"
  using read_items[OF assms, where i = 0 and bs = bs and s = s] by (simp add: read_array_def expect_def)

lemma read_literals [simp]:
  "read_array (addr_array_literal a @ s) = Some (address_to_be a, s)"
  "read_array (b256_array_literal b @ s) = Some (u256_to_be b, s)"
  "read_array (b256_array_literal_from_u256 u @ s) = Some (u256_to_be u, s)"
  "read_array (bytes_array_literal bs @ s) = Some (bs, s)"
  unfolding addr_array_literal_def b256_array_literal_def b256_array_literal_from_u256_def bytes_array_literal_def
  by (rule read_array_items, simp add: comma_first_def is_space_def newline_def)+

abbreviation be_rows :: "(u256 \<times> b256) list \<Rightarrow> (bytes \<times> bytes) list" where
  "be_rows st \<equiv> map (map_prod u256_to_be u256_to_be) st"

lemma read_row_printed:
  "read_row (line (''    ('' @ b256_array_literal_from_u256 slot @ '', '' @ b256_array_literal v @ ''),'') @ s) =
     Some ((u256_to_be slot, u256_to_be v), s)"
proof -
  have e: "line (''    ('' @ b256_array_literal_from_u256 slot @ '', '' @ b256_array_literal v @ ''),'') @ s =
    ''    ('' @ b256_array_literal_from_u256 slot @ '', '' @ b256_array_literal v @ (''),'' @ newline) @ s"
    by (simp add: line_def)
  show ?thesis
    unfolding read_row_def e by (simp only: expect_append read_literals bind.bind_lunit prod.case)
qed

lemma read_rows_printed: "read_rows (storage_rows st @ line ''];'' @ s) = Some (be_rows st, s)"
proof (induction st)
  case Nil
  show ?case by (simp add: read_rows.simps storage_rows_def line_def expect_def newline_def)
next
  case (Cons row st)
  obtain slot v where row: "row = (slot, v)" by (cases row)
  let ?rest = "storage_rows st @ line ''];'' @ s"
  let ?row = "line (''    ('' @ b256_array_literal_from_u256 slot @ '', '' @ b256_array_literal v @ ''),'')"
  have e: "storage_rows (row # st) @ line ''];'' @ s = ?row @ ?rest"
    by (simp add: storage_rows_def row)
  have "expect (''];'' @ newline) (?row @ ?rest) = None" by (simp add: expect_def line_def newline_def)
  then show ?case
    unfolding e by (subst read_rows.simps) (simp only: read_row_printed Cons.IH row option.case prod.case
        option.map apfst_conv list.map map_prod_simp)
qed

lemma read_const_printed:
  "read_const name (const_text name a h code st @ s) =
     Some ((address_to_be a, u256_to_be h, code, be_rows st), newline @ s)"
proof -
  have "const_text name a h code st @ s =
    (''pub const '' @ name @ ''_ADDRESS: [u8; 20] = '') @ addr_array_literal a @
    ('';'' @ newline @ ''pub const '' @ name @ ''_BLOCK_HASH: [u8; 32] = '') @ b256_array_literal h @
    ('';'' @ newline @ ''pub const '' @ name @ ''_CODE: &[u8] = &'') @ bytes_array_literal code @
    ('';'' @ newline @ ''pub const '' @ name @ ''_STORAGE: &[([u8; 32], [u8; 32])] = &['' @ newline) @
    storage_rows st @ line ''];'' @ newline @ s"
    by (simp add: const_text_def line_def)
  then show ?thesis
    unfolding read_const_def by (simp only: expect_append read_literals read_rows_printed bind.bind_lunit prod.case)
qed

lemma skip_newline [simp]: "skip_comments (CHR 0x0A # s) = skip_comments s"
  by (subst skip_comments.simps) (simp add: newline_def numeral_2_eq_2)

lemma dropWhile_line: "CHR 0x0A \<notin> set t \<Longrightarrow> dropWhile (\<lambda>c. c \<noteq> CHR 0x0A) (t @ CHR 0x0A # s) = CHR 0x0A # s"
  by (induction t) auto

lemma skip_line: "CHR 0x0A \<notin> set t \<Longrightarrow> skip_comments (line (''//'' @ t) @ s) = skip_comments s"
  by (subst skip_comments.simps) (simp add: line_def newline_def numeral_2_eq_2 dropWhile_line)

lemma skip_const [simp]: "skip_comments (const_text name a h code st @ s) = const_text name a h code st @ s"
  by (subst skip_comments.simps) (simp add: const_text_def line_def newline_def numeral_2_eq_2)

lemma skip_end [simp]: "skip_comments [] = []"
  by (subst skip_comments.simps) (simp add: newline_def)

lemma line_append: "line (t @ u) = t @ line u"
  by (simp add: line_def)

definition pool_constants :: "fetched_pool_state \<Rightarrow> constants" where
  "pool_constants p =
     (address_to_be (pid_address (fp_pool p)), u256_to_be (fp_hash p), fp_pool_code p, be_rows (fp_pool_storage p))"

definition account_constants :: "fetched_account \<Rightarrow> constants" where
  "account_constants a = (address_to_be (fa_address a), u256_to_be (fa_block_hash a), fa_code a, be_rows (fa_storage a))"

lemma read_pool_printed:
  assumes "CHR 0x0A \<notin> set name"
  shows "read_fixtures (name # names) (print_pool_const name p @ s) =
    Option.bind (read_fixtures names (newline @ s)) (\<lambda>(cs, s). Some (pool_constants p # cs, s))"
proof -
  have "CHR 0x0A \<notin> set ('' --- '' @ name @ '' ('' @ pool_kind_text (pid_kind (fp_pool p)) @ '') ---'')"
    using assms by (cases "pid_kind (fp_pool p)") simp_all
  note skip = skip_line[OF this]
  have "print_pool_const name p @ s =
    line (''//'' @ '' --- '' @ name @ '' ('' @ pool_kind_text (pid_kind (fp_pool p)) @ '') ---'') @
    const_text name (pid_address (fp_pool p)) (fp_hash p) (fp_pool_code p) (fp_pool_storage p) @ s"
    by (simp add: print_pool_const_def)
  then show ?thesis
    by (simp only: read_fixtures.simps skip skip_const read_const_printed bind.bind_lunit prod.case pool_constants_def)
qed

lemma read_account_printed:
  assumes "CHR 0x0A \<notin> set name"
  shows "read_fixtures (name # names) (print_account_const name a @ s) =
    Option.bind (read_fixtures names (newline @ s)) (\<lambda>(cs, s). Some (account_constants a # cs, s))"
proof -
  have "CHR 0x0A \<notin> set ('' --- '' @ name @ '' ---'')" using assms by simp
  note skip = skip_line[OF this]
  have "print_account_const name a @ s =
    line (''//'' @ '' --- '' @ name @ '' ---'') @ const_text name (fa_address a) (fa_block_hash a) (fa_code a) (fa_storage a) @ s"
    by (simp add: print_account_const_def)
  then show ?thesis
    by (simp only: read_fixtures.simps skip skip_const read_const_printed bind.bind_lunit prod.case account_constants_def)
qed

lemma read_fixtures_skip: "skip_comments s = skip_comments s' \<Longrightarrow> read_fixtures names s = read_fixtures names s'"
  by (cases names) simp_all

section \<open>What a session does\<close>

lemma go_on_Inr: "go_on m g s = (Inr y, t) \<longleftrightarrow> (\<exists>x u. m s = (Inr x, u) \<and> g x u = (Inr y, t))"
  by (auto simp: go_on_def split: prod.splits sum.splits)

lemma go_on_Inl:
  "go_on m g s = (Inl e, t) \<longleftrightarrow> m s = (Inl e, t) \<or> (\<exists>x u. m s = (Inr x, u) \<and> g x u = (Inl e, t))"
  by (auto simp: go_on_def split: prod.splits sum.splits)

lemma prints [simp]:
  "println t (f, c) = (Inr (), (f, c\<lparr>con_out := con_out c @ line t\<rparr>))"
  "print_text t (f, c) = (Inr (), (f, c\<lparr>con_out := con_out c @ t\<rparr>))"
  "eprintln t (f, c) = (Inr (), (f, c\<lparr>con_err := con_err c @ line t\<rparr>))"
  by (simp_all add: println_def print_text_def eprintln_def)

lemma fetch_or_exit_Inr:
  "fetch_or_exit what fetch (f, c) = (Inr x, t) \<longleftrightarrow> (\<exists>f'. fetch f = (Inr x, f') \<and> t = (f', c))"
  by (auto simp: fetch_or_exit_def go_on_def exit_with_def split: prod.splits sum.splits)

lemma fetch_or_exit_Inl:
  "fetch_or_exit what fetch (f, c) = (Inl code, t) \<longleftrightarrow>
     (\<exists>e f'. fetch f = (Inl e, f') \<and> code = 4 \<and>
        t = (f', c\<lparr>con_err := con_err c @ line (''error: '' @ what @ '' fetch failed: '' @ fetch_error_text e)\<rparr>))"
  by (auto simp: fetch_or_exit_def go_on_def exit_with_def split: prod.splits sum.splits)

lemmas session_simps = go_on_Inr go_on_Inl fetch_or_exit_Inr fetch_or_exit_Inl

definition impl_of :: "b256 \<Rightarrow> address" where "impl_of v = address_from_be (drop 12 (u256_to_be v))"

lemma record_pools_and_tokens_Inr:
  assumes "record_pools_and_tokens keccak fe h (f, c) = (Inr proxy, (f', c'))"
  obtains v2 f1 extra f2 v3 f3 weth f4 where
    "fetch_pool fe pool_id_v2 h uniswap_v2_layout f = (Inr v2, f1)"
    "fetch_account fe V2_WETH_USDC v2_extra_slots h f1 = (Inr extra, f2)"
    "fetch_pool fe pool_id_v3_005 h (uniswap_v3_layout keccak) f2 = (Inr v3, f3)"
    "fetch_account fe WETH9 (weth_slots keccak) h f3 = (Inr weth, f4)"
    "fetch_account fe USDC_PROXY (usdc_proxy_slots keccak) h f4 = (Inr proxy, f')"
    "con_out c' = con_out c @ print_pool_const ''V2_WETH_USDC'' (merge_extra v2 extra) @
       print_pool_const ''V3_WETH_USDC_005'' v3 @ print_account_const ''WETH9'' weth @ print_account_const ''USDC_PROXY'' proxy"
  using assms by (auto simp: record_pools_and_tokens_def session_simps)

lemma record_impl_and_factory_Inr:
  assumes "record_impl_and_factory dbg fe h (v, scheme) (f, c) = (Inr u, (f', c'))"
  obtains impl f1 factory where
    "fetch_account fe (impl_of v) [] h f = (Inr impl, f1)"
    "fetch_account fe V2_FACTORY [0] h f1 = (Inr factory, f')"
    "con_out c' = con_out c @ line (''//'' @ '' USDC proxy scheme detected: '' @ scheme) @
       line (''//'' @ ''   impl_slot_value (low 20 bytes = address) = 0x'' @ hex_bytes (u256_to_be v)) @
       line (''//'' @ ''   parsed implementation address: '' @ dbg (impl_of v)) @ line [] @
       print_account_const ''USDC_IMPL'' impl @ print_account_const ''V2_FACTORY'' factory"
  using assms by (auto simp: record_impl_and_factory_def Let_def session_simps impl_of_def)

lemma record_header_Inr:
  "record_header hex (f, c) = (Inr u, (f', c')) \<Longrightarrow> f' = f \<and> con_out c' = con_out c @
     line (''//'' @ '' AUTO-GENERATED by `cargo run --release --example dump_fixture`.'') @
     line (''//'' @ '' Block hash: '' @ hex) @
     line (''//'' @ '' DO NOT edit by hand. Re-run dump_fixture if T-USDC-1 reports a'') @
     line (''//'' @ '' MissingStorage error for an unrecorded slot.'') @ line []"
  by (auto simp: record_header_def session_simps)

lemma record_footer_Inr: "record_footer (f, c) = (Inr u, (f', c')) \<Longrightarrow> f' = f \<and> con_out c' = con_out c"
  by (auto simp: record_footer_def session_simps)

lemma no_exit [simp]:
  "record_header hex s \<noteq> (Inl e, t)" "record_footer s \<noteq> (Inl e, t)" "exit_with code s = (Inl code, s)"
  by (cases s; auto simp: record_header_def record_footer_def exit_with_def session_simps)+

section \<open>The archive's contracts\<close>

text \<open>What the recording is meant to hold: a contract as the archive has it, with the given slots.\<close>

definition contract_at :: "archive \<Rightarrow> b256 \<Rightarrow> address \<Rightarrow> u256 list \<Rightarrow> constants" where
  "contract_at ar h a slots =
     (address_to_be a, u256_to_be h, ar_code ar a h,
      map (\<lambda>slot. (u256_to_be slot, u256_to_be (ar_storage ar a h slot))) slots)"

text \<open>The implementation word of the proxy: the EIP-1967 slot unless it is zero.\<close>

definition impl_word :: "archive \<Rightarrow> b256 \<Rightarrow> b256" where
  "impl_word ar h =
     (let e = ar_storage ar USDC_PROXY h EIP1967_IMPL_SLOT in
      if e \<noteq> 0 then e else ar_storage ar USDC_PROXY h ZEPPELINOS_IMPL_SLOT)"

lemma slot_value_map: "slot_value x (map (\<lambda>s. (s, g s)) xs) = (if x \<in> set xs then Some (g x) else None)"
  by (induction xs) (auto simp: slot_value_def)

lemma slots_be [simp]:
  "u256_from_be EIP1967_IMPL_SLOT_BE = EIP1967_IMPL_SLOT"
  "u256_from_be ZEPPELINOS_IMPL_SLOT_BE = ZEPPELINOS_IMPL_SLOT"
  "u256_from_be ZEPPELINOS_ADMIN_SLOT_BE = ZEPPELINOS_ADMIN_SLOT"
  by (simp_all add: EIP1967_IMPL_SLOT_BE_def EIP1967_IMPL_SLOT_def ZEPPELINOS_IMPL_SLOT_BE_def ZEPPELINOS_IMPL_SLOT_def
      ZEPPELINOS_ADMIN_SLOT_BE_def ZEPPELINOS_ADMIN_SLOT_def u256_from_be_def be_to_nat_def)

lemma account_constants_archive:
  "archive_account ar a slots h = Inr acc \<Longrightarrow> account_constants acc = contract_at ar h a (remdups_adj (sort slots))"
  by (auto simp: archive_account_def account_constants_def contract_at_def split: if_splits)

lemma impl_slots_asked: "{EIP1967_IMPL_SLOT, ZEPPELINOS_IMPL_SLOT} \<subseteq> set (usdc_proxy_slots keccak)"
  by (simp add: usdc_proxy_slots_def)

lemma proxy_impl_archive:
  assumes "archive_account ar USDC_PROXY (usdc_proxy_slots keccak) h = Inr proxy"
  shows "map_option fst (proxy_impl proxy) = (if impl_word ar h = 0 then None else Some (impl_word ar h))"
proof -
  have st: "fa_storage proxy = map (\<lambda>s. (s, ar_storage ar USDC_PROXY h s)) (remdups_adj (sort (usdc_proxy_slots keccak)))"
    using assms by (auto simp: archive_account_def split: if_splits)
  have "slot_value x (fa_storage proxy) = Some (ar_storage ar USDC_PROXY h x)"
    if "x \<in> {EIP1967_IMPL_SLOT, ZEPPELINOS_IMPL_SLOT}" for x
    using that impl_slots_asked[of keccak] by (auto simp: st slot_value_map)
  then show ?thesis by (simp add: proxy_impl_def impl_word_def Let_def)
qed

lemma v2_layout_slots: "base_slots uniswap_v2_layout p = [0, 6, 7, 8]" "derived_slots uniswap_v2_layout p al = []"
  by (simp_all add: uniswap_v2_layout_def UNIV2_FACTORY_SLOT_def UNIV2_TOKEN0_SLOT_def UNIV2_TOKEN1_SLOT_def
      UNIV2_RESERVES_SLOT_def)

lemma v2_extra: "v2_extra_slots = [9, 10, 11, 12]"
  by (simp add: v2_extra_slots_def upt_rec)

lemma v2_archive:
  assumes "archive_pool ar pool_id_v2 h uniswap_v2_layout = Inr v2"
    and "archive_account ar V2_WETH_USDC v2_extra_slots h = Inr extra"
  shows "pool_constants (merge_extra v2 extra) = contract_at ar h V2_WETH_USDC [0, 6, 7, 8, 9, 10, 11, 12]"
proof -
  have "fresh_slots [0, 6, 7, 8] [] = [0, 6, 7, 8]" by (simp add: fresh_slots_def fetched_def)
  then have "v2 = \<lparr>fp_pool = pool_id_v2, fp_hash = h, fp_pool_code = ar_code ar V2_WETH_USDC h,
      fp_pool_storage = map (\<lambda>s. (s, ar_storage ar V2_WETH_USDC h s)) [0, 6, 7, 8], fp_auxiliary = []\<rparr>"
    using assms(1)
    by (auto simp: archive_pool_def archive_rounds.simps v2_layout_slots bind_res_simps Let_def pool_id_v2_def
        split: if_splits)
  moreover have "fa_storage extra = map (\<lambda>s. (s, ar_storage ar V2_WETH_USDC h s)) [9, 10, 11, 12]"
    using assms(2) by (auto simp: archive_account_def v2_extra split: if_splits)
  ultimately show ?thesis
    by (simp add: merge_extra_def pool_constants_def contract_at_def pool_id_v2_def)
qed

context two_caches
begin

lemma pool_read:
  assumes "honest (fe_backend fe) ar" "coherent cent sent ar s" "fetch_pool fe pool h layout s = (Inr st, s')"
  shows "archive_pool ar pool h layout = Inr st" and "coherent cent sent ar s'"
  using pool_cached[OF assms] by (auto simp: as_archive_def)

lemma account_read:
  assumes "honest (fe_backend fe) ar" "coherent cent sent ar s" "fetch_account fe a slots h s = (Inr acc, s')"
  shows "archive_account ar a slots h = Inr acc" and "coherent cent sent ar s'"
  using account_cached[OF assms] by (auto simp: as_archive_def)

lemma pools_and_tokens_read:
  assumes "honest (fe_backend fe) ar" "coherent cent sent ar f"
    and "record_pools_and_tokens keccak fe h (f, c) = (Inr proxy, (f', c'))"
  obtains v2 v3 weth where
    "pool_constants v2 = contract_at ar h V2_WETH_USDC [0, 6, 7, 8, 9, 10, 11, 12]"
    "archive_pool ar pool_id_v3_005 h (uniswap_v3_layout keccak) = Inr v3"
    "archive_account ar WETH9 (weth_slots keccak) h = Inr weth"
    "archive_account ar USDC_PROXY (usdc_proxy_slots keccak) h = Inr proxy"
    "coherent cent sent ar f'"
    "con_out c' = con_out c @ print_pool_const ''V2_WETH_USDC'' v2 @
       print_pool_const ''V3_WETH_USDC_005'' v3 @ print_account_const ''WETH9'' weth @ print_account_const ''USDC_PROXY'' proxy"
proof -
  from assms(3) obtain v2 f1 extra f2 v3 f3 weth f4 where
    v2: "fetch_pool fe pool_id_v2 h uniswap_v2_layout f = (Inr v2, f1)" and
    ex: "fetch_account fe V2_WETH_USDC v2_extra_slots h f1 = (Inr extra, f2)" and
    v3: "fetch_pool fe pool_id_v3_005 h (uniswap_v3_layout keccak) f2 = (Inr v3, f3)" and
    weth: "fetch_account fe WETH9 (weth_slots keccak) h f3 = (Inr weth, f4)" and
    proxy: "fetch_account fe USDC_PROXY (usdc_proxy_slots keccak) h f4 = (Inr proxy, f')" and
    out: "con_out c' = con_out c @ print_pool_const ''V2_WETH_USDC'' (merge_extra v2 extra) @
       print_pool_const ''V3_WETH_USDC_005'' v3 @ print_account_const ''WETH9'' weth @ print_account_const ''USDC_PROXY'' proxy"
    by (rule record_pools_and_tokens_Inr)
  note a1 = pool_read[OF assms(1,2) v2]
  note a2 = account_read[OF assms(1) a1(2) ex]
  note a3 = pool_read[OF assms(1) a2(2) v3]
  note a4 = account_read[OF assms(1) a3(2) weth]
  note a5 = account_read[OF assms(1) a4(2) proxy]
  show thesis
    by (rule that[OF v2_archive[OF a1(1) a2(1)] a3(1) a4(1) a5(1) a5(2) out])
qed

lemma impl_and_factory_read:
  assumes "honest (fe_backend fe) ar" "coherent cent sent ar f"
    and "record_impl_and_factory dbg fe h (v, scheme) (f, c) = (Inr u, (f', c'))"
  obtains impl factory where
    "archive_account ar (impl_of v) [] h = Inr impl" "archive_account ar V2_FACTORY [0] h = Inr factory"
    "con_out c' = con_out c @ line (''//'' @ '' USDC proxy scheme detected: '' @ scheme) @
       line (''//'' @ ''   impl_slot_value (low 20 bytes = address) = 0x'' @ hex_bytes (u256_to_be v)) @
       line (''//'' @ ''   parsed implementation address: '' @ dbg (impl_of v)) @ line [] @
       print_account_const ''USDC_IMPL'' impl @ print_account_const ''V2_FACTORY'' factory"
proof -
  from assms(3) obtain impl f1 factory where
    impl: "fetch_account fe (impl_of v) [] h f = (Inr impl, f1)" and
    factory: "fetch_account fe V2_FACTORY [0] h f1 = (Inr factory, f')" and
    out: "con_out c' = con_out c @ line (''//'' @ '' USDC proxy scheme detected: '' @ scheme) @
       line (''//'' @ ''   impl_slot_value (low 20 bytes = address) = 0x'' @ hex_bytes (u256_to_be v)) @
       line (''//'' @ ''   parsed implementation address: '' @ dbg (impl_of v)) @ line [] @
       print_account_const ''USDC_IMPL'' impl @ print_account_const ''V2_FACTORY'' factory"
    by (rule record_impl_and_factory_Inr)
  note a1 = account_read[OF assms(1,2) impl]
  show thesis
    by (rule that[OF a1(1) account_read(1)[OF assms(1) a1(2) factory] out])
qed

end

lemma read_comment: "CHR 0x0A \<notin> set t \<Longrightarrow> read_fixtures names (line (''//'' @ t) @ s) = read_fixtures names s"
  by (rule read_fixtures_skip) (rule skip_line)

lemma read_blank: "read_fixtures names (line [] @ s) = read_fixtures names s" "read_fixtures names (newline @ s) = read_fixtures names s"
  by (rule read_fixtures_skip, simp add: line_def newline_def)+

lemma hex_bytes_plain: "CHR 0x0A \<notin> set (hex_bytes bs)"
proof -
  have "CHR 0x0A \<noteq> hex_digit (unat b div 16)" "CHR 0x0A \<noteq> hex_digit (unat b mod 16)" for b :: u8
    using hex_digit_neq[of "unat b div 16"] hex_digit_neq[of "unat b mod 16"] unat_lt_exp[of b]
    by (auto simp: less_mult_imp_div_less)
  then show ?thesis by (simp add: hex_bytes_def)
qed

definition fixture_names :: "string list" where
  "fixture_names = [''V2_WETH_USDC'', ''V3_WETH_USDC_005'', ''WETH9'', ''USDC_PROXY'', ''USDC_IMPL'', ''V2_FACTORY'']"

text \<open>Everything a complete recording prints.\<close>

definition recording_text ::
  "string \<Rightarrow> string \<Rightarrow> bytes \<Rightarrow> string \<Rightarrow> fetched_pool_state \<Rightarrow> fetched_pool_state \<Rightarrow> fetched_account
   \<Rightarrow> fetched_account \<Rightarrow> fetched_account \<Rightarrow> fetched_account \<Rightarrow> string" where
  "recording_text hex scheme v dbg v2 v3 weth9 proxy impl factory =
     line (''//'' @ '' AUTO-GENERATED by `cargo run --release --example dump_fixture`.'') @
     line (''//'' @ '' Block hash: '' @ hex) @
     line (''//'' @ '' DO NOT edit by hand. Re-run dump_fixture if T-USDC-1 reports a'') @
     line (''//'' @ '' MissingStorage error for an unrecorded slot.'') @ line [] @
     print_pool_const ''V2_WETH_USDC'' v2 @ print_pool_const ''V3_WETH_USDC_005'' v3 @
     print_account_const ''WETH9'' weth9 @ print_account_const ''USDC_PROXY'' proxy @
     line (''//'' @ '' USDC proxy scheme detected: '' @ scheme) @
     line (''//'' @ ''   impl_slot_value (low 20 bytes = address) = 0x'' @ hex_bytes v) @
     line (''//'' @ ''   parsed implementation address: '' @ dbg) @ line [] @
     print_account_const ''USDC_IMPL'' impl @ print_account_const ''V2_FACTORY'' factory"

lemma fixtures_read:
  assumes "CHR 0x0A \<notin> set hex" "CHR 0x0A \<notin> set scheme" "CHR 0x0A \<notin> set dbg"
  shows "read_fixtures fixture_names
    (recording_text hex scheme v dbg v2 v3 weth9 proxy impl factory) =
    Some ([pool_constants v2, pool_constants v3, account_constants weth9, account_constants proxy,
      account_constants impl, account_constants factory], [])"
proof -
  have plain: "CHR 0x0A \<notin> set ('' AUTO-GENERATED by `cargo run --release --example dump_fixture`.'')"
    "CHR 0x0A \<notin> set ('' Block hash: '' @ hex)"
    "CHR 0x0A \<notin> set ('' DO NOT edit by hand. Re-run dump_fixture if T-USDC-1 reports a'')"
    "CHR 0x0A \<notin> set ('' MissingStorage error for an unrecorded slot.'')"
    "CHR 0x0A \<notin> set ('' USDC proxy scheme detected: '' @ scheme)"
    "CHR 0x0A \<notin> set (''   impl_slot_value (low 20 bytes = address) = 0x'' @ hex_bytes v)"
    "CHR 0x0A \<notin> set (''   parsed implementation address: '' @ dbg)"
    using assms hex_bytes_plain[of v] by simp_all
  have names: "CHR 0x0A \<notin> set ''V2_WETH_USDC''" "CHR 0x0A \<notin> set ''V3_WETH_USDC_005''" "CHR 0x0A \<notin> set ''WETH9''"
    "CHR 0x0A \<notin> set ''USDC_PROXY''" "CHR 0x0A \<notin> set ''USDC_IMPL''" "CHR 0x0A \<notin> set ''V2_FACTORY''"
    by simp_all
  have last: "read_fixtures [''V2_FACTORY''] (print_account_const ''V2_FACTORY'' factory) = Some ([account_constants factory], [])"
    using read_account_printed[OF names(6), of "[]" factory "[]"] by (simp add: newline_def)
  show ?thesis
    unfolding fixture_names_def recording_text_def
    by (simp only: plain[THEN read_comment] read_blank names[THEN read_pool_printed] names[THEN read_account_printed]
        last bind.bind_lunit prod.case)
qed

lemma record_impl_and_factory_Inl:
  "record_impl_and_factory dbg fe h found s = (Inl code, t) \<Longrightarrow> code = 4"
  by (cases s; cases found) (auto simp: record_impl_and_factory_def Let_def session_simps)

lemma record_pools_and_tokens_Inl: "record_pools_and_tokens keccak fe h s = (Inl code, t) \<Longrightarrow> code = 4"
  by (cases s) (auto simp: record_pools_and_tokens_def session_simps)

text \<open>How a recording ends: a failed fetch, no implementation, or everything printed.\<close>

lemma record_fixtures_ends:
  assumes "record_fixtures env fe hex h (f, c) = (r, t)"
  obtains "r = Inl 4"
    | proxy f1 c1 where "r = Inl 5" "proxy_impl proxy = None"
        "record_header hex (f, c) = (Inr (), (f, c1))"
        "record_pools_and_tokens (rr_keccak env) fe h (f, c1) = (Inr proxy, f1)"
    | proxy v scheme c1 f2 c2 f3 c3 c4 where "r = Inr ()" "proxy_impl proxy = Some (v, scheme)"
        "record_header hex (f, c) = (Inr (), (f, c1))"
        "record_pools_and_tokens (rr_keccak env) fe h (f, c1) = (Inr proxy, (f2, c2))"
        "record_impl_and_factory (rr_debug_address env) fe h (v, scheme) (f2, c2) = (Inr (), (f3, c3))"
        "t = (f3, c4)" "con_out c4 = con_out c3"
proof -
  obtain u c1 where hdr: "record_header hex (f, c) = (Inr u, (f, c1))"
    by (cases "record_header hex (f, c)"; cases "fst (record_header hex (f, c))")
      (auto dest: record_header_Inr)
  obtain p s2 where p: "record_pools_and_tokens (rr_keccak env) fe h (f, c1) = (p, s2)" by (meson surj_pair)
  show thesis
  proof (cases p)
    case (Inl e)
    then show ?thesis using assms that(1) hdr p record_pools_and_tokens_Inl[of "rr_keccak env" fe h "(f, c1)" e s2]
      by (simp add: record_fixtures_def go_on_def)
  next
    case (Inr proxy)
    show ?thesis
    proof (cases "proxy_impl proxy")
      case None
      then have "r = Inl 5" using assms hdr p Inr by (cases s2) (auto simp: record_fixtures_def go_on_def)
      with None hdr p Inr show ?thesis by (intro that(2)) simp_all
    next
      case (Some found)
      obtain v scheme where found: "found = (v, scheme)" by (cases found)
      obtain q s3 where q: "record_impl_and_factory (rr_debug_address env) fe h (v, scheme) s2 = (q, s3)" by (meson surj_pair)
      show ?thesis
      proof (cases q)
        case (Inl e)
        then show ?thesis using assms that(1) hdr p Inr Some found q record_impl_and_factory_Inl[OF q[unfolded Inl]]
          by (simp add: record_fixtures_def go_on_def)
      next
        case (Inr u2)
        obtain f2 c2 f3 c3 where s: "s2 = (f2, c2)" "s3 = (f3, c3)" by (cases s2; cases s3)
        have "record_footer (f3, c3) = (r, t)"
          using assms hdr p \<open>p = Inr proxy\<close> Some found q Inr s by (simp add: record_fixtures_def go_on_def)
        moreover from this obtain f4 c4 where t: "t = (f4, c4)" "r = Inr ()"
          by (cases r; cases t) auto
        ultimately have "record_footer (f3, c3) = (Inr (), (f4, c4))" by simp
        note record_footer_Inr[OF this]
        with t s hdr p q \<open>p = Inr proxy\<close> Inr Some found show ?thesis
          by (intro that(3)[of proxy v scheme c1 f2 c2 f3 c3 c4]) simp_all
      qed
    qed
  qed
qed

text \<open>What a recording of the archive at a block reads back as.\<close>

definition archive_recording :: "(bytes \<Rightarrow> bytes) \<Rightarrow> archive \<Rightarrow> b256 \<Rightarrow> fetched_pool_state \<Rightarrow> constants list" where
  "archive_recording keccak ar h v3 =
     [contract_at ar h V2_WETH_USDC [0, 6, 7, 8, 9, 10, 11, 12],
      pool_constants v3,
      contract_at ar h WETH9 (remdups_adj (sort (weth_slots keccak))),
      contract_at ar h USDC_PROXY (remdups_adj (sort (usdc_proxy_slots keccak))),
      contract_at ar h (impl_of (impl_word ar h)) [],
      contract_at ar h V2_FACTORY [0]]"

lemma proxy_scheme_plain: "proxy_impl proxy = Some (v, scheme) \<Longrightarrow> CHR 0x0A \<notin> set scheme"
  by (auto simp: proxy_impl_def Let_def split: option.splits if_splits)

lemma recorded:
  assumes "two_caches fe cent sent" "honest (fe_backend fe) ar" "coherent cent sent ar f"
    and plain: "CHR 0x0A \<notin> set hex" "\<And>a. CHR 0x0A \<notin> set (rr_debug_address env a)"
    and run: "record_fixtures env fe hex h (f, console_start) = (r, (f', c))"
  shows "r = Inl 4 \<or> r = Inl 5 \<and> impl_word ar h = 0 \<or>
    r = Inr () \<and> impl_word ar h \<noteq> 0 \<and> (\<exists>v3. archive_pool ar pool_id_v3_005 h (uniswap_v3_layout (rr_keccak env)) = Inr v3 \<and>
      read_fixtures fixture_names (con_out c) = Some (archive_recording (rr_keccak env) ar h v3, []))"
  using run
proof (cases rule: record_fixtures_ends)
  case (2 proxy f1 c1)
  obtain f2 c2 where f1: "f1 = (f2, c2)" by (cases f1)
  from two_caches.pools_and_tokens_read[OF assms(1-3) 2(4)[unfolded f1]]
  have "archive_account ar USDC_PROXY (usdc_proxy_slots (rr_keccak env)) h = Inr proxy" by metis
  from proxy_impl_archive[OF this] 2(2) have "impl_word ar h = 0" by (simp split: if_splits)
  with 2(1) show ?thesis by simp
next
  case (3 proxy v scheme c1 f2 c2 f3 c3 c4)
  from two_caches.pools_and_tokens_read[OF assms(1-3) 3(4)] obtain v2 v3 w9 where
    v2: "pool_constants v2 = contract_at ar h V2_WETH_USDC [0, 6, 7, 8, 9, 10, 11, 12]" and
    v3: "archive_pool ar pool_id_v3_005 h (uniswap_v3_layout (rr_keccak env)) = Inr v3" and
    w9: "archive_account ar WETH9 (weth_slots (rr_keccak env)) h = Inr w9" and
    proxy: "archive_account ar USDC_PROXY (usdc_proxy_slots (rr_keccak env)) h = Inr proxy" and
    coh: "coherent cent sent ar f2" and
    out2: "con_out c2 = con_out c1 @ print_pool_const ''V2_WETH_USDC'' v2 @
       print_pool_const ''V3_WETH_USDC_005'' v3 @ print_account_const ''WETH9'' w9 @ print_account_const ''USDC_PROXY'' proxy"
    by blast
  from two_caches.impl_and_factory_read[OF assms(1,2) coh 3(5)] obtain impl factory where
    impl: "archive_account ar (impl_of v) [] h = Inr impl" and
    factory: "archive_account ar V2_FACTORY [0] h = Inr factory" and
    out3: "con_out c3 = con_out c2 @ line (''//'' @ '' USDC proxy scheme detected: '' @ scheme) @
       line (''//'' @ ''   impl_slot_value (low 20 bytes = address) = 0x'' @ hex_bytes (u256_to_be v)) @
       line (''//'' @ ''   parsed implementation address: '' @ rr_debug_address env (impl_of v)) @ line [] @
       print_account_const ''USDC_IMPL'' impl @ print_account_const ''V2_FACTORY'' factory"
    by blast
  have word: "impl_word ar h \<noteq> 0" "v = impl_word ar h"
    using proxy_impl_archive[OF proxy] 3(2) by (simp_all split: if_splits)
  have out: "con_out c = con_out console_start @
     recording_text hex scheme (u256_to_be v) (rr_debug_address env (impl_of v)) v2 v3 w9 proxy impl factory"
    using 3(6,7) out2 out3 record_header_Inr[OF 3(3)] by (simp only: prod.inject append_assoc recording_text_def)
  have "read_fixtures fixture_names (con_out c) =
    Some ([pool_constants v2, pool_constants v3, account_constants w9, account_constants proxy,
      account_constants impl, account_constants factory], [])"
    unfolding out console_start_def console.select_convs append_Nil
    by (rule fixtures_read[OF plain(1) proxy_scheme_plain[OF 3(2)] plain(2)])
  then have "read_fixtures fixture_names (con_out c) = Some (archive_recording (rr_keccak env) ar h v3, [])"
    by (simp add: archive_recording_def v2 account_constants_archive[OF w9] account_constants_archive[OF proxy]
      account_constants_archive[OF impl] account_constants_archive[OF factory] word(2))
  with 3(1) word(1) v3 show ?thesis by blast
qed simp

section \<open>A node that answers every request\<close>

definition answering :: "'w archive_backend \<Rightarrow> bool" where
  "answering be \<longleftrightarrow> (\<forall>a h w. \<exists>c w'. ab_get_code be a h w = (Inr c, w')) \<and>
     (\<forall>a slot h w. \<exists>v w'. ab_get_storage_at be a slot h w = (Inr v, w'))"

lemma code_answers: "answering (fe_backend fe) \<Longrightarrow> get_code_cached fe a h s \<noteq> (Inl e, s')"
  unfolding answering_def
  by (auto simp: get_code_cached_def Let_def split: prod.splits option.splits sum.splits) (metis Inl_Inr_False fst_conv)

lemma storage_answers: "answering (fe_backend fe) \<Longrightarrow> get_storage_cached fe a slot h s \<noteq> (Inl e, s')"
  unfolding answering_def
  by (auto simp: get_storage_cached_def Let_def split: prod.splits option.splits sum.splits) (metis Inl_Inr_False fst_conv)

lemma slots_answer:
  assumes "answering (fe_backend fe)"
  shows "fetch_slots fe a h slots all s \<noteq> (Inl e, s')"
proof (induction slots arbitrary: all s)
  case (Cons slot slots)
  then show ?case using storage_answers[OF assms] by (auto split: prod.splits sum.splits)
qed simp

lemma rounds_answer:
  assumes "answering (fe_backend fe)" "fetch_rounds fe layout pool h depth tf all s = (Inl e, s')"
  shows "e = DerivedSlotsTooDeep DERIVED_SLOTS_MAX_DEPTH \<and> (\<exists>al. derived_slots layout pool al \<noteq> [])"
  using assms(2)
proof (induction "DERIVED_SLOTS_MAX_DEPTH - depth" arbitrary: depth tf all s rule: less_induct)
  case less
  note unf = fetch_rounds.simps[of fe layout pool h depth tf all s]
  obtain g s1 where g: "fetch_slots fe (pid_address pool) h (fresh_slots tf all) all s = (g, s1)" by (meson surj_pair)
  obtain al where al: "g = Inr al"
    using slots_answer[OF assms(1), of "pid_address pool" h "fresh_slots tf all" all s _ s1] g by (cases g) auto
  show ?case
  proof (cases "fresh_slots tf all = [] \<or> derived_slots layout pool al = [] \<or> DERIVED_SLOTS_MAX_DEPTH \<le> depth + 1")
    case True
    then show ?thesis using less.prems unf g al by (auto split: if_splits)
  next
    case False
    then have "fetch_rounds fe layout pool h (depth + 1) (derived_slots layout pool al) al s1 = (Inl e, s')"
      using less.prems unf g al by simp
    moreover have "DERIVED_SLOTS_MAX_DEPTH - (depth + 1) < DERIVED_SLOTS_MAX_DEPTH - depth" using False by arith
    ultimately show ?thesis using less.hyps by blast
  qed
qed

lemma account_answers:
  assumes "answering (fe_backend fe)" "h \<noteq> 0"
  shows "fetch_account fe a slots h s \<noteq> (Inl e, s')"
  using assms code_answers[OF assms(1)] slots_answer[OF assms(1)]
  by (auto simp: fetch_account_def split: prod.splits sum.splits)

lemma pool_answers:
  assumes "answering (fe_backend fe)" "h \<noteq> 0" "fetch_pool fe pool h layout s = (Inl e, s')"
  shows "\<exists>s. fetch_rounds fe layout pool h 0 (base_slots layout pool) [] s = (Inl (DerivedSlotsTooDeep DERIVED_SLOTS_MAX_DEPTH), s') \<and>
    (\<exists>al. derived_slots layout pool al \<noteq> [])"
proof -
  obtain g s1 where g: "get_code_cached fe (pid_address pool) h s = (g, s1)" by (meson surj_pair)
  obtain code where "g = Inr code" using g code_answers[OF assms(1)] by (cases g) auto
  with assms(2,3) g have r: "fetch_rounds fe layout pool h 0 (base_slots layout pool) [] s1 = (Inl e, s')"
    by (auto simp: fetch_pool_def split: prod.splits sum.splits)
  with rounds_answer[OF assms(1) r] show ?thesis by blast
qed

lemma v2_answers:
  "answering (fe_backend fe) \<Longrightarrow> h \<noteq> 0 \<Longrightarrow> fetch_pool fe pool h uniswap_v2_layout f \<noteq> (Inl e, f')"
  using pool_answers[of fe h pool uniswap_v2_layout f e f'] by (auto simp: v2_layout_slots)

lemma v3_answers:
  assumes "answering (fe_backend fe)" "h \<noteq> 0"
    and "\<And>s0 x. x \<in> set (phase2_bitmap_slots keccak s0) \<Longrightarrow> x \<notin> {0, 1, 2, 3, 4}"
  shows "fetch_pool fe pool h (uniswap_v3_layout keccak) f \<noteq> (Inl e, f')"
proof
  assume "fetch_pool fe pool h (uniswap_v3_layout keccak) f = (Inl e, f')"
  from pool_answers[OF assms(1,2) this] obtain s1 where
    "fetch_rounds fe (uniswap_v3_layout keccak) pool h 0 (base_slots (uniswap_v3_layout keccak) pool) [] s1
       = (Inl (DerivedSlotsTooDeep DERIVED_SLOTS_MAX_DEPTH), f')" by blast
  moreover have "fetch_rounds fe (uniswap_v3_layout keccak) pool h 0 (base_slots (uniswap_v3_layout keccak) pool) [] s1
       \<noteq> (Inl (DerivedSlotsTooDeep DERIVED_SLOTS_MAX_DEPTH), f')"
    by (rule v3_not_too_deep) (rule assms(3))
  ultimately show False by simp
qed

lemma recording_answers:
  assumes "answering (fe_backend fe)" "h \<noteq> 0"
    and "\<And>s0 x. x \<in> set (phase2_bitmap_slots (rr_keccak env) s0) \<Longrightarrow> x \<notin> {0, 1, 2, 3, 4}"
  shows "fst (record_fixtures env fe hex h s) \<noteq> Inl 4"
proof
  assume "fst (record_fixtures env fe hex h s) = Inl 4"
  then obtain t where "record_fixtures env fe hex h s = (Inl 4, t)" by (metis prod.collapse)
  then show False
    using account_answers[OF assms(1,2)] v2_answers[OF assms(1,2)] v3_answers[OF assms]
    by (cases s) (auto simp: record_fixtures_def record_pools_and_tokens_def record_impl_and_factory_def Let_def
      session_simps split: option.splits)
qed

lemma recorder_main_run:
  assumes "rr_archive_url env = Some url" "url \<noteq> []" "2 \<le> length (rr_args env)"
    and "parse_block_hash (rr_b256_from_str env) (rr_args env ! 1) = Inr h"
    and "connect (rr_parse_url env) (rr_on_http env) (recorder_node_config url) = Inr np"
  obtains r f' c where
    "record_fixtures env (recorder_fetcher env np) (rr_args env ! 1) h
       (fetcher_with_backend (recorder_fetcher env np) fetcher_defaults w, console_start) = (r, (f', c))"
    "recorder_main env w = ((case r of Inl code \<Rightarrow> code | Inr _ \<Rightarrow> 0), c)"
proof -
  obtain r f' c where run: "record_fixtures env (recorder_fetcher env np) (rr_args env ! 1) h
       (fetcher_with_backend (recorder_fetcher env np) fetcher_defaults w, console_start) = (r, (f', c))"
    by (metis surj_pair)
  have "recorder_main env w = ((case r of Inl code \<Rightarrow> code | Inr _ \<Rightarrow> 0), c)"
    using assms run by (cases url; cases r) (simp_all add: recorder_main_def Let_def)
  with run show thesis by (rule that)
qed

lemma recorder_ends:
  assumes "two_caches (recorder_fetcher env np) cent sent" "honest (node_backend np) ar"
    and "rr_archive_url env = Some url" "url \<noteq> []" "2 \<le> length (rr_args env)"
    and "parse_block_hash (rr_b256_from_str env) (rr_args env ! 1) = Inr h"
    and "connect (rr_parse_url env) (rr_on_http env) (recorder_node_config url) = Inr np"
    and "\<And>t b. rr_b256_from_str env t = Inr b \<Longrightarrow> CHR 0x0A \<notin> set t" "\<And>a. CHR 0x0A \<notin> set (rr_debug_address env a)"
    and main: "recorder_main env w = (code, c)"
  obtains "code = 4" "\<exists>s. fst (record_fixtures env (recorder_fetcher env np) (rr_args env ! 1) h s) = Inl 4"
    | "code = 5" "impl_word ar h = 0"
    | v3 where "code = 0" "impl_word ar h \<noteq> 0" "archive_pool ar pool_id_v3_005 h (uniswap_v3_layout (rr_keccak env)) = Inr v3"
        "read_fixtures fixture_names (con_out c) = Some (archive_recording (rr_keccak env) ar h v3, [])"
proof -
  obtain r f' c' where run: "record_fixtures env (recorder_fetcher env np) (rr_args env ! 1) h
       (fetcher_with_backend (recorder_fetcher env np) fetcher_defaults w, console_start) = (r, (f', c'))"
    and "recorder_main env w = ((case r of Inl code \<Rightarrow> code | Inr _ \<Rightarrow> 0), c')"
    using recorder_main_run[OF assms(3-7)] .
  with main have end_code: "code = (case r of Inl code \<Rightarrow> code | Inr _ \<Rightarrow> 0)" and c: "c' = c" by simp_all
  have "CHR 0x0A \<notin> set (rr_args env ! 1)"
    using assms(6,8) by (auto simp: parse_block_hash_def Let_def split: if_splits sum.splits)
  moreover have "honest (fe_backend (recorder_fetcher env np)) ar" using assms(2) by (simp add: recorder_fetcher_def)
  ultimately have "r = Inl 4 \<or> r = Inl 5 \<and> impl_word ar h = 0 \<or>
    r = Inr () \<and> impl_word ar h \<noteq> 0 \<and> (\<exists>v3. archive_pool ar pool_id_v3_005 h (uniswap_v3_layout (rr_keccak env)) = Inr v3 \<and>
      read_fixtures fixture_names (con_out c) = Some (archive_recording (rr_keccak env) ar h v3, []))"
    using recorded[OF assms(1) _ two_caches.fresh_coherent[OF assms(1)] _ assms(9) run] unfolding c by blast
  then consider "r = Inl 4" | "r = Inl 5" "impl_word ar h = 0" | v3 where "r = Inr ()" "impl_word ar h \<noteq> 0"
      "archive_pool ar pool_id_v3_005 h (uniswap_v3_layout (rr_keccak env)) = Inr v3"
      "read_fixtures fixture_names (con_out c) = Some (archive_recording (rr_keccak env) ar h v3, [])"
    by blast
  then show thesis
  proof cases
    case 1
    with run have "\<exists>s. fst (record_fixtures env (recorder_fetcher env np) (rr_args env ! 1) h s) = Inl 4"
      by (metis fst_conv)
    with 1 end_code show ?thesis by (intro that(1)) simp_all
  next
    case 2
    with end_code show ?thesis by (intro that(2)) simp_all
  next
    case (3 v3)
    with end_code show ?thesis by (intro that(3)[of v3]) simp_all
  qed
qed

section \<open>The prefetch of the simulator reads the same contracts\<close>

lemma recorder_constants:
  "MOCK_ROUTER = MOCK_ROUTER_ADDRESS" "V2_FACTORY = V2_FACTORY_ADDRESS"
  "weth_slots keccak = [mapping_slot_u256 keccak WETH9_BALANCES_SLOT (address_key MOCK_ROUTER_ADDRESS),
     mapping_slot_u256 keccak WETH9_BALANCES_SLOT (address_key V2_WETH_USDC),
     mapping_slot_u256 keccak WETH9_BALANCES_SLOT (address_key V3_005_WETH_USDC)]"
  "usdc_proxy_slots keccak = build_usdc_proxy_slots keccak V2_WETH_USDC V3_005_WETH_USDC"
proof -
  show r: "MOCK_ROUTER = MOCK_ROUTER_ADDRESS" by (simp add: MOCK_ROUTER_def MOCK_ROUTER_ADDRESS_def)
  show "V2_FACTORY = V2_FACTORY_ADDRESS" by (simp add: V2_FACTORY_def V2_FACTORY_ADDRESS_def)
  show "weth_slots keccak = [mapping_slot_u256 keccak WETH9_BALANCES_SLOT (address_key MOCK_ROUTER_ADDRESS),
     mapping_slot_u256 keccak WETH9_BALANCES_SLOT (address_key V2_WETH_USDC),
     mapping_slot_u256 keccak WETH9_BALANCES_SLOT (address_key V3_005_WETH_USDC)]"
    by (simp add: weth_slots_def r WETH9_BALANCES_def WETH9_BALANCES_SLOT_def)
  show "usdc_proxy_slots keccak = build_usdc_proxy_slots keccak V2_WETH_USDC V3_005_WETH_USDC"
    by (simp add: usdc_proxy_slots_def build_usdc_proxy_slots_def r USDC_BALANCES_def USDC_BALANCES_SLOT_def)
qed

lemma same_implementation:
  "parse_usdc_impl_address proxy = map_option (\<lambda>(v, _). impl_of v) (proxy_impl proxy)"
  by (simp add: parse_usdc_impl_address_def nonzero_slot_def proxy_impl_def impl_of_def Let_def split: option.split)

lemma prefetched_contracts:
  assumes "two_caches fe cent sent" "honest (fe_backend fe) ar" "coherent cent sent ar f"
    and opp: "source_pool opp = pool_id_v2" "sink_pool opp = pool_id_v3_005" "oo_block_hash opp = h"
    and fetch: "prefetch_fetch keccak (archive_fetcher fe) opp WETH9 USDC_PROXY f = (Inr fx, f')"
  shows "archive_pool ar pool_id_v2 h uniswap_v2_layout = Inr (fx_source fx)"
    and "archive_pool ar pool_id_v3_005 h (uniswap_v3_layout keccak) = Inr (fx_sink fx)"
    and "archive_account ar WETH9 (weth_slots keccak) h = Inr (fx_weth fx)"
    and "archive_account ar USDC_PROXY (usdc_proxy_slots keccak) h = Inr (fx_usdc_proxy fx)"
    and "archive_account ar (impl_of (impl_word ar h)) [] h = Inr (fx_usdc_impl fx)"
    and "archive_account ar V2_FACTORY [0] h = Inr (fx_v2_factory fx)"
proof -
  have pid: "pid_address pool_id_v2 = V2_WETH_USDC" "pid_address pool_id_v3_005 = V3_005_WETH_USDC"
    "is_v2 (pid_kind pool_id_v2)" "\<not> is_v2 (pid_kind pool_id_v3_005)"
    by (simp_all add: pool_id_v2_def pool_id_v3_005_def)
  from fetch obtain f1 f2 f3 f4 f5 a where
    s: "fetch_pool fe pool_id_v2 h uniswap_v2_layout f = (Inr (fx_source fx), f1)" and
    k: "fetch_pool fe pool_id_v3_005 h (uniswap_v3_layout keccak) f1 = (Inr (fx_sink fx), f2)" and
    w: "fetch_account fe WETH9 (weth_slots keccak) h f2 = (Inr (fx_weth fx), f3)" and
    p: "fetch_account fe USDC_PROXY (usdc_proxy_slots keccak) h f3 = (Inr (fx_usdc_proxy fx), f4)" and
    a: "parse_usdc_impl_address (fx_usdc_proxy fx) = Some a" and
    i: "fetch_account fe a [] h f4 = (Inr (fx_usdc_impl fx), f5)" and
    v: "fetch_account fe V2_FACTORY [0] h f5 = (Inr (fx_v2_factory fx), f')"
    unfolding prefetch_fetch_def recorder_constants
    by (auto simp: Let_def opp pid and_then_Inr lift_fetch_Inr layout_dispatch_def archive_fetcher_def split: option.splits)
  note r1 = two_caches.pool_read[OF assms(1,2) assms(3) s]
  note r2 = two_caches.pool_read[OF assms(1,2) r1(2) k]
  note r3 = two_caches.account_read[OF assms(1,2) r2(2) w]
  note r4 = two_caches.account_read[OF assms(1,2) r3(2) p]
  note r5 = two_caches.account_read[OF assms(1,2) r4(2) i]
  note r6 = two_caches.account_read[OF assms(1,2) r5(2) v]
  have "a = impl_of (impl_word ar h)"
    using a proxy_impl_archive[OF r4(1)] by (auto simp: same_implementation split: if_splits)
  with r1 r2 r3 r4 r5 r6 show
    "archive_pool ar pool_id_v2 h uniswap_v2_layout = Inr (fx_source fx)"
    "archive_pool ar pool_id_v3_005 h (uniswap_v3_layout keccak) = Inr (fx_sink fx)"
    "archive_account ar WETH9 (weth_slots keccak) h = Inr (fx_weth fx)"
    "archive_account ar USDC_PROXY (usdc_proxy_slots keccak) h = Inr (fx_usdc_proxy fx)"
    "archive_account ar (impl_of (impl_word ar h)) [] h = Inr (fx_usdc_impl fx)"
    "archive_account ar V2_FACTORY [0] h = Inr (fx_v2_factory fx)"
    by simp_all
qed

lemma v2_pool_archive:
  assumes "archive_pool ar pool_id_v2 h uniswap_v2_layout = Inr v2"
  shows "pool_constants v2 = contract_at ar h V2_WETH_USDC [0, 6, 7, 8]"
proof -
  have "fresh_slots [0, 6, 7, 8] [] = [0, 6, 7, 8]" by (simp add: fresh_slots_def fetched_def)
  then show ?thesis
    using assms
    by (auto simp: archive_pool_def archive_rounds.simps v2_layout_slots bind_res_simps Let_def pool_id_v2_def
        pool_constants_def contract_at_def split: if_splits)
qed

section \<open>Refusals, and where the URL can go\<close>

lemma recorder_connect:
  "connect parse on_http (recorder_node_config url) =
     (case parse url of
        Inl e \<Rightarrow> Inl (Transport (''primary HTTP URL parse: '' @ e))
      | Inr u \<Rightarrow> Inr \<lparr>primary_http = alloy_http (on_http u), fallback_http = Some (alloy_http (on_http u)),
          archive_http = Some (alloy_http (on_http u)), ws_url = ''ws://127.0.0.1:65535/never-used''\<rparr>)"
  by (simp add: connect_def recorder_node_config_def parse_http_url_def bind_res_simps split: sum.split)

text \<open>Without a URL, an argument and a hash of 64 digits the tool ends with 2, with a URL that does not
  parse with 3; nothing is printed on standard output then and the world is untouched.\<close>

lemma refusals:
  assumes "recorder_main env w = (code, c)"
  shows "code = 2 \<longleftrightarrow> (rr_archive_url env = None \<or> rr_archive_url env = Some [] \<or> length (rr_args env) < 2 \<or>
      (\<exists>e. parse_block_hash (rr_b256_from_str env) (rr_args env ! 1) = Inl e))" (is ?two)
    and "code \<in> {2, 3} \<Longrightarrow> con_out c = []" (is "_ \<Longrightarrow> ?empty")
proof -
  have "?two \<and> (code \<in> {2, 3} \<longrightarrow> ?empty)"
  proof (cases "\<exists>url h np. rr_archive_url env = Some url \<and> url \<noteq> [] \<and> 2 \<le> length (rr_args env) \<and>
      parse_block_hash (rr_b256_from_str env) (rr_args env ! 1) = Inr h \<and>
      connect (rr_parse_url env) (rr_on_http env) (recorder_node_config url) = Inr np")
    case True
    then obtain url h np where r: "rr_archive_url env = Some url" "url \<noteq> []" "2 \<le> length (rr_args env)"
      "parse_block_hash (rr_b256_from_str env) (rr_args env ! 1) = Inr h"
      "connect (rr_parse_url env) (rr_on_http env) (recorder_node_config url) = Inr np" by blast
    obtain r' f' c' where run: "record_fixtures env (recorder_fetcher env np) (rr_args env ! 1) h
         (fetcher_with_backend (recorder_fetcher env np) fetcher_defaults w, console_start) = (r', (f', c'))"
      and "recorder_main env w = ((case r' of Inl code \<Rightarrow> code | Inr _ \<Rightarrow> 0), c')"
      using recorder_main_run[OF r] .
    then have "code \<in> {0, 4, 5}"
      using assms by (cases rule: record_fixtures_ends[OF run]) auto
    with r show ?thesis by auto
  next
    case False
    with assms show ?thesis
      by (auto simp: recorder_main_def Let_def complain_def split: option.splits list.splits if_splits sum.splits)
  qed
  then show ?two "code \<in> {2, 3} \<Longrightarrow> ?empty" by blast+
qed

text \<open>Two URLs that lead to the same provider give the same texts; so a URL reaches the texts only inside
  what the provider answers.  A failed request's text is printed as it is.\<close>

lemma url_ignored:
  "record_fixtures (env\<lparr>rr_archive_url := x\<rparr>) = record_fixtures env"
  "recorder_fetcher (env\<lparr>rr_archive_url := x\<rparr>) = recorder_fetcher env"
  by (simp_all add: record_fixtures_def recorder_fetcher_def fun_eq_iff cong: option.case_cong)

lemma url_only_through_provider:
  assumes "url \<noteq> []" "url' \<noteq> []"
    and "connect (rr_parse_url env) (rr_on_http env) (recorder_node_config url) =
      connect (rr_parse_url env) (rr_on_http env) (recorder_node_config url')"
  shows "recorder_main (env\<lparr>rr_archive_url := Some url\<rparr>) w = recorder_main (env\<lparr>rr_archive_url := Some url'\<rparr>) w"
  using assms
  by (cases url; cases url')
    (auto simp: recorder_main_def Let_def url_ignored split: sum.splits)

lemma failure_text_printed:
  assumes "fetch_pool fe pool_id_v2 h uniswap_v2_layout f = (Inl (FetchNode (Transport text)), f')"
    and "record_fixtures env fe hex h (f, c) = (r, (f'', c'))"
  shows "r = Inl 4 \<and> (\<exists>before. con_err c' = before @ line (''error: V2 fetch failed: node error: transport error: '' @ text))"
proof -
  obtain u c1 where hdr: "record_header hex (f, c) = (Inr u, (f, c1))"
    by (cases "record_header hex (f, c)"; cases "fst (record_header hex (f, c))") (auto dest: record_header_Inr)
  have "record_pools_and_tokens (rr_keccak env) fe h (f, c1) =
    (Inl 4, (f', c1\<lparr>con_err := con_err c1 @ line (''error: V2 fetch failed: node error: transport error: '' @ text)\<rparr>))"
    using assms(1) by (simp add: record_pools_and_tokens_def session_simps)
  then show ?thesis using assms(2) hdr by (auto simp: record_fixtures_def go_on_def)
qed

lemma pair_cases:
  assumes "\<And>e s'. fetch s \<noteq> (Inl e, s')"
  obtains x s' where "fetch s = (Inr x, s')"
  using assms by (metis sum.exhaust surj_pair)

lemma prefetch_answers:
  assumes "two_caches fe cent sent" "honest (fe_backend fe) ar" "coherent cent sent ar f"
    and opp: "source_pool opp = pool_id_v2" "sink_pool opp = pool_id_v3_005" "oo_block_hash opp = h"
    and answers: "answering (fe_backend fe)" "h \<noteq> 0" "impl_word ar h \<noteq> 0"
    and "\<And>s0 x. x \<in> set (phase2_bitmap_slots keccak s0) \<Longrightarrow> x \<notin> {0, 1, 2, 3, 4}"
  shows "\<exists>fx f'. prefetch_fetch keccak (archive_fetcher fe) opp WETH9 USDC_PROXY f = (Inr fx, f')"
proof -
  have pid: "pid_address pool_id_v2 = V2_WETH_USDC" "pid_address pool_id_v3_005 = V3_005_WETH_USDC"
    "is_v2 (pid_kind pool_id_v2)" "\<not> is_v2 (pid_kind pool_id_v3_005)"
    by (simp_all add: pool_id_v2_def pool_id_v3_005_def)
  obtain st1 f1 where s: "fetch_pool fe pool_id_v2 h uniswap_v2_layout f = (Inr st1, f1)"
    by (rule pair_cases) (rule v2_answers[OF answers(1,2)])
  obtain st2 f2 where k: "fetch_pool fe pool_id_v3_005 h (uniswap_v3_layout keccak) f1 = (Inr st2, f2)"
    by (rule pair_cases) (rule v3_answers[OF answers(1,2) assms(10)])
  obtain a3 f3 where w: "fetch_account fe WETH9 (weth_slots keccak) h f2 = (Inr a3, f3)"
    by (rule pair_cases) (rule account_answers[OF answers(1,2)])
  obtain a4 f4 where p: "fetch_account fe USDC_PROXY (usdc_proxy_slots keccak) h f3 = (Inr a4, f4)"
    by (rule pair_cases) (rule account_answers[OF answers(1,2)])
  note r1 = two_caches.pool_read[OF assms(1,2) assms(3) s]
  note r2 = two_caches.pool_read[OF assms(1,2) r1(2) k]
  note r3 = two_caches.account_read[OF assms(1,2) r2(2) w]
  note r4 = two_caches.account_read[OF assms(1,2) r3(2) p]
  obtain a where a: "parse_usdc_impl_address a4 = Some a"
    using proxy_impl_archive[OF r4(1)] answers(3) by (auto simp: same_implementation)
  obtain a5 f5 where i: "fetch_account fe a [] h f4 = (Inr a5, f5)"
    by (rule pair_cases) (rule account_answers[OF answers(1,2)])
  obtain a6 f6 where v: "fetch_account fe V2_FACTORY [0] h f5 = (Inr a6, f6)"
    by (rule pair_cases) (rule account_answers[OF answers(1,2)])
  show ?thesis
    using s k w p a i v
    by (simp add: prefetch_fetch_def Let_def opp pid and_then_def lift_fetch_def layout_dispatch_def archive_fetcher_def
      recorder_constants)
qed

section \<open>What the tool promises\<close>

text \<open>C36: The tool's answer to a request it accepts for a block hash other than zero (which ends with 4), over an
  archive that answers truthfully when it answers: exit code 0 and a text that reads back as the archive's contracts at that block, 5 when both
  implementation slots are zero, or 4; never 4 when the node answers every request.\<close>

theorem recording_reads_back:
  assumes "two_caches (recorder_fetcher env np) cent sent" "honest (node_backend np) ar"
    and "rr_archive_url env = Some url" "url \<noteq> []" "2 \<le> length (rr_args env)"
    and "parse_block_hash (rr_b256_from_str env) (rr_args env ! 1) = Inr h"
    and "connect (rr_parse_url env) (rr_on_http env) (recorder_node_config url) = Inr np"
    and "\<And>t b. rr_b256_from_str env t = Inr b \<Longrightarrow> CHR 0x0A \<notin> set t" "\<And>a. CHR 0x0A \<notin> set (rr_debug_address env a)"
    and "\<And>s0 x. x \<in> set (phase2_bitmap_slots (rr_keccak env) s0) \<Longrightarrow> x \<notin> {0, 1, 2, 3, 4}"
  shows "(let (code, c) = recorder_main env w in
      code \<in> {0, 4, 5} \<and> (code = 5 \<longrightarrow> impl_word ar h = 0) \<and>
      (code = 4 \<longrightarrow> \<not> (answering (node_backend np) \<and> h \<noteq> 0)) \<and>
      (code = 0 \<longrightarrow> impl_word ar h \<noteq> 0 \<and> (\<exists>v3. archive_pool ar pool_id_v3_005 h (uniswap_v3_layout (rr_keccak env)) = Inr v3 \<and>
         read_fixtures fixture_names (con_out c) = Some (archive_recording (rr_keccak env) ar h v3, []))))"
proof -
  obtain code c where main: "recorder_main env w = (code, c)" by (meson surj_pair)
  have answered: "fst (record_fixtures env (recorder_fetcher env np) (rr_args env ! 1) h s) \<noteq> Inl 4"
    if "answering (node_backend np)" "h \<noteq> 0" for s
    by (rule recording_answers[OF _ that(2)]) (use that(1) assms(10) in \<open>simp_all add: recorder_fetcher_def\<close>)
  show ?thesis
    by (rule recorder_ends[OF assms(1-9) main]) (use answered main in auto)
qed

text \<open>C37: A recording and a prefetch of an opportunity between the two pools, from whatever fetcher over the same
  archive, hold the same contracts, except that the recorded V2 pair has four more slots, its lock among
  them.\<close>

theorem recording_extends_prefetch:
  assumes "two_caches (recorder_fetcher env np) cent sent" "honest (node_backend np) ar"
    and "rr_archive_url env = Some url" "url \<noteq> []" "2 \<le> length (rr_args env)"
    and "parse_block_hash (rr_b256_from_str env) (rr_args env ! 1) = Inr h"
    and "connect (rr_parse_url env) (rr_on_http env) (recorder_node_config url) = Inr np"
    and "\<And>t b. rr_b256_from_str env t = Inr b \<Longrightarrow> CHR 0x0A \<notin> set t" "\<And>a. CHR 0x0A \<notin> set (rr_debug_address env a)"
    and "recorder_main env w = (0, c)"
    and "two_caches fe cent' sent'" "honest (fe_backend fe) ar" "coherent cent' sent' ar f"
    and "source_pool opp = pool_id_v2" "sink_pool opp = pool_id_v3_005" "oo_block_hash opp = h"
    and "prefetch_fetch (rr_keccak env) (archive_fetcher fe) opp WETH9 USDC_PROXY f = (Inr fx, f')"
  shows "\<exists>a bh code st. pool_constants (fx_source fx) = (a, bh, code, st) \<and>
    read_fixtures fixture_names (con_out c) = Some
      ([(a, bh, code, st @ map (\<lambda>slot. (u256_to_be slot, u256_to_be (ar_storage ar V2_WETH_USDC h slot))) [9, 10, 11, 12]),
        pool_constants (fx_sink fx), account_constants (fx_weth fx), account_constants (fx_usdc_proxy fx),
        account_constants (fx_usdc_impl fx), account_constants (fx_v2_factory fx)], [])"
proof -
  note pre = prefetched_contracts[OF assms(11-17)]
  obtain v3 where
    v3: "archive_pool ar pool_id_v3_005 h (uniswap_v3_layout (rr_keccak env)) = Inr v3" and
    out: "read_fixtures fixture_names (con_out c) = Some (archive_recording (rr_keccak env) ar h v3, [])"
    by (rule recorder_ends[OF assms(1-10)]) simp_all
  have "v3 = fx_sink fx" using v3 pre(2) by simp
  then show ?thesis
    using out by (simp add: archive_recording_def v2_pool_archive[OF pre(1)] account_constants_archive[OF pre(3)]
      account_constants_archive[OF pre(4)] account_constants_archive[OF pre(5)] account_constants_archive[OF pre(6)]
      contract_at_def)
qed

section \<open>A run\<close>

definition demo_root :: "(unit, unit, unit) root_provider" where
  "demo_root =
     \<lparr>rp_call = (\<lambda>_ _ w. (Inr [], w)), rp_get_transaction_by_hash = (\<lambda>_ w. (Inr None, w)),
      rp_get_proof = (\<lambda>_ _ _ w. (Inr (), w)), rp_get_storage_at = (\<lambda>_ slot _ w. (Inr (slot + 1), w)),
      rp_get_code_at = (\<lambda>_ _ w. (Inr [1], w))\<rparr>"

definition demo_recorder ::
  "(unit, unit, unit, string, nat \<times> (code_key \<times> bytes) list, nat \<times> (storage_key \<times> b256) list) recorder_env" where
  "demo_recorder =
     \<lparr>rr_archive_url = Some ''https://node'', rr_args = [''dump_fixture'', replicate 64 CHR ''1''],
      rr_b256_from_str = (\<lambda>t. if t = replicate 64 CHR ''1'' then Inr 9 else Inl ''bad''), rr_debug_address = (\<lambda>_. ''0x''),
      rr_keccak = (\<lambda>_. u256_to_be 9), rr_parse_url = Inr, rr_on_http = (\<lambda>_. demo_root),
      rr_code_cache = list_cache, rr_storage_cache = list_cache\<rparr>"

definition demo_np :: "(unit, unit, unit) node_provider" where
  "demo_np = \<lparr>primary_http = alloy_http demo_root, fallback_http = Some (alloy_http demo_root),
     archive_http = Some (alloy_http demo_root), ws_url = ''ws://127.0.0.1:65535/never-used''\<rparr>"

lemma demo_np_truthful: "honest (node_backend demo_np) demo_archive" "answering (node_backend demo_np)"
  by (simp_all add: honest_def answering_def node_backend_def demo_np_def demo_root_def alloy_http_def demo_archive_def
      eth_get_code_def eth_get_storage_at_def map_err_classify_def)

lemma demo_recorder_accepts:
  "two_caches (recorder_fetcher demo_recorder demo_np) (\<lambda>c. map_of (snd c)) (\<lambda>c. map_of (snd c))"
  "rr_archive_url demo_recorder = Some ''https://node''" "''https://node'' \<noteq> []" "2 \<le> length (rr_args demo_recorder)"
  "parse_block_hash (rr_b256_from_str demo_recorder) (rr_args demo_recorder ! 1) = Inr 9"
  "connect (rr_parse_url demo_recorder) (rr_on_http demo_recorder) (recorder_node_config ''https://node'') = Inr demo_np"
  using list_caches.two_caches_axioms
  by (simp_all add: demo_recorder_def recorder_fetcher_def parse_block_hash_def recorder_connect demo_np_def
      numeral_2_eq_2)

lemma demo_recorder_plain:
  "rr_b256_from_str demo_recorder t = Inr b \<Longrightarrow> CHR 0x0A \<notin> set t" "CHR 0x0A \<notin> set (rr_debug_address demo_recorder a)"
  by (auto simp: demo_recorder_def split: if_splits)

lemma demo_recorder_slots: "x \<in> set (phase2_bitmap_slots (rr_keccak demo_recorder) s0) \<Longrightarrow> x \<notin> {0, 1, 2, 3, 4}"
proof -
  assume "x \<in> set (phase2_bitmap_slots (rr_keccak demo_recorder) s0)"
  then have "x = 9" by (auto simp: demo_recorder_def phase2_slots word_slot_def mapping_slot_u256_def)
  then show ?thesis by simp
qed

lemma demo_impl_word: "impl_word demo_archive 9 \<noteq> 0"
  by (simp add: impl_word_def demo_archive_def EIP1967_IMPL_SLOT_def)

theorem recording_reads_back_witness:
  "\<exists>c v3. recorder_main demo_recorder () = (0, c) \<and>
     read_fixtures fixture_names (con_out c) = Some (archive_recording (rr_keccak demo_recorder) demo_archive 9 v3, [])"
proof -
  have "(let (code, c) = recorder_main demo_recorder () in
      code \<in> {0, 4, 5} \<and> (code = 5 \<longrightarrow> impl_word demo_archive 9 = 0) \<and>
      (code = 4 \<longrightarrow> \<not> (answering (node_backend demo_np) \<and> (9 :: b256) \<noteq> 0)) \<and>
      (code = 0 \<longrightarrow> impl_word demo_archive 9 \<noteq> 0 \<and>
        (\<exists>v3. archive_pool demo_archive pool_id_v3_005 9 (uniswap_v3_layout (rr_keccak demo_recorder)) = Inr v3 \<and>
         read_fixtures fixture_names (con_out c) = Some (archive_recording (rr_keccak demo_recorder) demo_archive 9 v3, []))))"
    by (rule recording_reads_back[OF demo_recorder_accepts(1) demo_np_truthful(1) demo_recorder_accepts(2-6)])
      (fact demo_recorder_plain demo_recorder_slots)+
  then show ?thesis using demo_np_truthful(2) demo_impl_word by (auto split: prod.splits)
qed

definition recorder_opp :: opportunity_event where
  "recorder_opp = demo_opp\<lparr>source_pool := pool_id_v2, sink_pool := pool_id_v3_005, oo_block_hash := 9\<rparr>"

theorem recording_extends_prefetch_witness:
  "\<exists>c fx f' rows. recorder_main demo_recorder () = (0, c) \<and>
     prefetch_fetch (rr_keccak demo_recorder) (archive_fetcher (recorder_fetcher demo_recorder demo_np)) recorder_opp
       WETH9 USDC_PROXY (fetcher_with_backend (recorder_fetcher demo_recorder demo_np) fetcher_defaults ()) = (Inr fx, f') \<and>
     read_fixtures fixture_names (con_out c) = Some (rows, []) \<and> rows ! 1 = pool_constants (fx_sink fx)"
proof -
  let ?fe = "recorder_fetcher demo_recorder demo_np"
  let ?ents = "\<lambda>c. map_of (snd c)"
  have honest: "honest (fe_backend ?fe) demo_archive" and answers: "answering (fe_backend ?fe)"
    using demo_np_truthful by (simp_all add: recorder_fetcher_def)
  note coh = two_caches.fresh_coherent[OF demo_recorder_accepts(1), of demo_archive fetcher_defaults "()"]
  have opp: "source_pool recorder_opp = pool_id_v2" "sink_pool recorder_opp = pool_id_v3_005" "oo_block_hash recorder_opp = 9"
    by (simp_all add: recorder_opp_def)
  have "\<exists>fx f'. prefetch_fetch (rr_keccak demo_recorder) (archive_fetcher ?fe) recorder_opp WETH9 USDC_PROXY
      (fetcher_with_backend ?fe fetcher_defaults ()) = (Inr fx, f')"
    by (rule prefetch_answers[OF demo_recorder_accepts(1) honest coh opp answers _ demo_impl_word])
      (simp, fact demo_recorder_slots)
  then obtain fx f' where fx: "prefetch_fetch (rr_keccak demo_recorder) (archive_fetcher ?fe) recorder_opp WETH9 USDC_PROXY
      (fetcher_with_backend ?fe fetcher_defaults ()) = (Inr fx, f')" by blast
  obtain code c where main: "recorder_main demo_recorder () = (code, c)" by (meson surj_pair)
  have "fst (record_fixtures demo_recorder ?fe (rr_args demo_recorder ! 1) 9 s) \<noteq> Inl 4" for s
    by (rule recording_answers[OF answers]) (simp, fact demo_recorder_slots)
  then have zero: "code = 0"
    by (rule_tac recorder_ends[OF demo_recorder_accepts(1) demo_np_truthful(1) demo_recorder_accepts(2-6) _ _ main])
      (use demo_recorder_plain demo_impl_word in auto)
  have "\<exists>a bh code st. pool_constants (fx_source fx) = (a, bh, code, st) \<and>
    read_fixtures fixture_names (con_out c) = Some
      ([(a, bh, code, st @ map (\<lambda>slot. (u256_to_be slot, u256_to_be (ar_storage demo_archive V2_WETH_USDC 9 slot))) [9, 10, 11, 12]),
        pool_constants (fx_sink fx), account_constants (fx_weth fx), account_constants (fx_usdc_proxy fx),
        account_constants (fx_usdc_impl fx), account_constants (fx_v2_factory fx)], [])"
    by (rule recording_extends_prefetch[OF demo_recorder_accepts(1) demo_np_truthful(1) demo_recorder_accepts(2-6) _ _
        main[unfolded zero] demo_recorder_accepts(1) honest coh opp fx])
      (fact demo_recorder_plain)+
  then have "\<exists>rows. read_fixtures fixture_names (con_out c) = Some (rows, []) \<and> rows ! 1 = pool_constants (fx_sink fx)"
    by auto
  with main zero fx show ?thesis by blast
qed

end
