(* ===== verification/Fixture_Data.thy ===== *)
theory Fixture_Data
  imports Fixture_Recorder
begin

text \<open>
  The recorded constants (\<open>crates/simulator/src/fixtures.rs\<close>): addresses, block hashes and the storage tables of
  the V2 pair, the two tokens and the factory, byte for byte.  The byte codes and the storage of the V3 pool (most
  of the file) are not written out: they are arguments here.
\<close>

section \<open>The constants\<close>

definition V2_WETH_USDC_ADDRESS :: bytes where
  "V2_WETH_USDC_ADDRESS =
     [0xb4, 0xe1, 0x6d, 0x01, 0x68, 0xe5, 0x2d, 0x35, 0xca, 0xcd, 0x2c, 0x61, 0x85, 0xb4, 0x42, 0x81,
      0xec, 0x28, 0xc9, 0xdc]"

definition V2_WETH_USDC_BLOCK_HASH :: bytes where
  "V2_WETH_USDC_BLOCK_HASH =
     [0xeb, 0x77, 0xd5, 0x2a, 0xbb, 0xfc, 0xac, 0x49, 0x83, 0x43, 0x2e, 0xba, 0x39, 0xdb, 0x50, 0x79,
      0x88, 0xe3, 0x93, 0x58, 0x7f, 0x1a, 0x0a, 0xf5, 0x94, 0x4d, 0x57, 0x5d, 0x8b, 0x3d, 0xb0, 0xd4]"

definition V2_WETH_USDC_STORAGE :: "(bytes \<times> bytes) list" where
  "V2_WETH_USDC_STORAGE =
     [([0x00, 0x00, 0x00, 0x00, 0x00, 0x00, 0x00, 0x00, 0x00, 0x00, 0x00, 0x00, 0x00, 0x00, 0x00, 0x00,
        0x00, 0x00, 0x00, 0x00, 0x00, 0x00, 0x00, 0x00, 0x00, 0x00, 0x00, 0x00, 0x00, 0x00, 0x00, 0x00],
       [0x00, 0x00, 0x00, 0x00, 0x00, 0x00, 0x00, 0x00, 0x00, 0x00, 0x00, 0x00, 0x00, 0x00, 0x00, 0x00,
        0x00, 0x00, 0x00, 0x00, 0x00, 0x00, 0x00, 0x00, 0x00, 0xfe, 0x1f, 0xfe, 0xda, 0x79, 0xec, 0x65]),
      ([0x00, 0x00, 0x00, 0x00, 0x00, 0x00, 0x00, 0x00, 0x00, 0x00, 0x00, 0x00, 0x00, 0x00, 0x00, 0x00,
        0x00, 0x00, 0x00, 0x00, 0x00, 0x00, 0x00, 0x00, 0x00, 0x00, 0x00, 0x00, 0x00, 0x00, 0x00, 0x06],
       [0x00, 0x00, 0x00, 0x00, 0x00, 0x00, 0x00, 0x00, 0x00, 0x00, 0x00, 0x00, 0xa0, 0xb8, 0x69, 0x91,
        0xc6, 0x21, 0x8b, 0x36, 0xc1, 0xd1, 0x9d, 0x4a, 0x2e, 0x9e, 0xb0, 0xce, 0x36, 0x06, 0xeb, 0x48]),
      ([0x00, 0x00, 0x00, 0x00, 0x00, 0x00, 0x00, 0x00, 0x00, 0x00, 0x00, 0x00, 0x00, 0x00, 0x00, 0x00,
        0x00, 0x00, 0x00, 0x00, 0x00, 0x00, 0x00, 0x00, 0x00, 0x00, 0x00, 0x00, 0x00, 0x00, 0x00, 0x07],
       [0x00, 0x00, 0x00, 0x00, 0x00, 0x00, 0x00, 0x00, 0x00, 0x00, 0x00, 0x00, 0xc0, 0x2a, 0xaa, 0x39,
        0xb2, 0x23, 0xfe, 0x8d, 0x0a, 0x0e, 0x5c, 0x4f, 0x27, 0xea, 0xd9, 0x08, 0x3c, 0x75, 0x6c, 0xc2]),
      ([0x00, 0x00, 0x00, 0x00, 0x00, 0x00, 0x00, 0x00, 0x00, 0x00, 0x00, 0x00, 0x00, 0x00, 0x00, 0x00,
        0x00, 0x00, 0x00, 0x00, 0x00, 0x00, 0x00, 0x00, 0x00, 0x00, 0x00, 0x00, 0x00, 0x00, 0x00, 0x08],
       [0x69, 0xff, 0x33, 0x23, 0x00, 0x00, 0x00, 0x00, 0x00, 0xe3, 0x0f, 0xb4, 0xf8, 0xdc, 0x49, 0xaa,
        0xfa, 0xdb, 0x00, 0x00, 0x00, 0x00, 0x00, 0x00, 0x00, 0x00, 0x08, 0xd3, 0x61, 0x85, 0x2d, 0x37]),
      ([0x00, 0x00, 0x00, 0x00, 0x00, 0x00, 0x00, 0x00, 0x00, 0x00, 0x00, 0x00, 0x00, 0x00, 0x00, 0x00,
        0x00, 0x00, 0x00, 0x00, 0x00, 0x00, 0x00, 0x00, 0x00, 0x00, 0x00, 0x00, 0x00, 0x00, 0x00, 0x09],
       [0x00, 0x00, 0x00, 0x00, 0x00, 0x00, 0x00, 0x00, 0x00, 0x00, 0x01, 0xf0, 0xdc, 0xa5, 0xfb, 0x15,
        0x6e, 0xf9, 0x52, 0xe8, 0xb8, 0x5c, 0x06, 0x97, 0x6a, 0x70, 0x52, 0x83, 0xd0, 0x07, 0xb6, 0x00]),
      ([0x00, 0x00, 0x00, 0x00, 0x00, 0x00, 0x00, 0x00, 0x00, 0x00, 0x00, 0x00, 0x00, 0x00, 0x00, 0x00,
        0x00, 0x00, 0x00, 0x00, 0x00, 0x00, 0x00, 0x00, 0x00, 0x00, 0x00, 0x00, 0x00, 0x00, 0x00, 0x0a],
       [0x00, 0x00, 0x00, 0x00, 0x00, 0x00, 0x00, 0x00, 0x00, 0x00, 0x00, 0x00, 0x00, 0x00, 0x00, 0x00,
        0x00, 0x00, 0x6f, 0x03, 0x43, 0xee, 0xbe, 0x7c, 0x81, 0x01, 0xfd, 0x0c, 0x20, 0xbe, 0x01, 0x8e]),
      ([0x00, 0x00, 0x00, 0x00, 0x00, 0x00, 0x00, 0x00, 0x00, 0x00, 0x00, 0x00, 0x00, 0x00, 0x00, 0x00,
        0x00, 0x00, 0x00, 0x00, 0x00, 0x00, 0x00, 0x00, 0x00, 0x00, 0x00, 0x00, 0x00, 0x00, 0x00, 0x0b],
       [0x00, 0x00, 0x00, 0x00, 0x00, 0x00, 0x00, 0x00, 0x00, 0x00, 0x00, 0x00, 0x00, 0x00, 0x00, 0x00,
        0x00, 0x07, 0xd3, 0xfa, 0x03, 0x67, 0x94, 0x7e, 0x46, 0x81, 0x3c, 0xe1, 0x8d, 0xa6, 0x5f, 0x92]),
      ([0x00, 0x00, 0x00, 0x00, 0x00, 0x00, 0x00, 0x00, 0x00, 0x00, 0x00, 0x00, 0x00, 0x00, 0x00, 0x00,
        0x00, 0x00, 0x00, 0x00, 0x00, 0x00, 0x00, 0x00, 0x00, 0x00, 0x00, 0x00, 0x00, 0x00, 0x00, 0x0c],
       [0x00, 0x00, 0x00, 0x00, 0x00, 0x00, 0x00, 0x00, 0x00, 0x00, 0x00, 0x00, 0x00, 0x00, 0x00, 0x00,
        0x00, 0x00, 0x00, 0x00, 0x00, 0x00, 0x00, 0x00, 0x00, 0x00, 0x00, 0x00, 0x00, 0x00, 0x00, 0x01])]"

definition V3_WETH_USDC_005_ADDRESS :: bytes where
  "V3_WETH_USDC_005_ADDRESS =
     [0x88, 0xe6, 0xa0, 0xc2, 0xdd, 0xd2, 0x6f, 0xee, 0xb6, 0x4f, 0x03, 0x9a, 0x2c, 0x41, 0x29, 0x6f,
      0xcb, 0x3f, 0x56, 0x40]"

definition V3_WETH_USDC_005_BLOCK_HASH :: bytes where
  "V3_WETH_USDC_005_BLOCK_HASH =
     [0xeb, 0x77, 0xd5, 0x2a, 0xbb, 0xfc, 0xac, 0x49, 0x83, 0x43, 0x2e, 0xba, 0x39, 0xdb, 0x50, 0x79,
      0x88, 0xe3, 0x93, 0x58, 0x7f, 0x1a, 0x0a, 0xf5, 0x94, 0x4d, 0x57, 0x5d, 0x8b, 0x3d, 0xb0, 0xd4]"

definition WETH9_ADDRESS :: bytes where
  "WETH9_ADDRESS =
     [0xc0, 0x2a, 0xaa, 0x39, 0xb2, 0x23, 0xfe, 0x8d, 0x0a, 0x0e, 0x5c, 0x4f, 0x27, 0xea, 0xd9, 0x08,
      0x3c, 0x75, 0x6c, 0xc2]"

definition WETH9_BLOCK_HASH :: bytes where
  "WETH9_BLOCK_HASH =
     [0xeb, 0x77, 0xd5, 0x2a, 0xbb, 0xfc, 0xac, 0x49, 0x83, 0x43, 0x2e, 0xba, 0x39, 0xdb, 0x50, 0x79,
      0x88, 0xe3, 0x93, 0x58, 0x7f, 0x1a, 0x0a, 0xf5, 0x94, 0x4d, 0x57, 0x5d, 0x8b, 0x3d, 0xb0, 0xd4]"

definition WETH9_STORAGE :: "(bytes \<times> bytes) list" where
  "WETH9_STORAGE =
     [([0x39, 0x0f, 0x61, 0x78, 0x40, 0x7c, 0x9b, 0x8e, 0x95, 0x80, 0x2b, 0x86, 0x59, 0xe6, 0xdf, 0x8e,
        0x34, 0xc1, 0xe3, 0xd4, 0xf8, 0xd6, 0xa4, 0x9e, 0x61, 0x32, 0xbb, 0xcd, 0xd9, 0x37, 0xb6, 0x3a],
       [0x00, 0x00, 0x00, 0x00, 0x00, 0x00, 0x00, 0x00, 0x00, 0x00, 0x00, 0x00, 0x00, 0x00, 0x00, 0x00,
        0x00, 0x00, 0x00, 0x00, 0x00, 0x00, 0x02, 0xa8, 0xa5, 0x31, 0x3d, 0xa6, 0x14, 0x42, 0xd5, 0xe6]),
      ([0x3e, 0x78, 0x47, 0x8c, 0x2b, 0x05, 0xd6, 0x7c, 0x48, 0x55, 0x08, 0xce, 0xd9, 0xf8, 0x15, 0xe1,
        0x06, 0x74, 0x85, 0xf4, 0xaa, 0x1a, 0x7f, 0xb0, 0xcf, 0x58, 0x79, 0xb7, 0x23, 0x92, 0x35, 0x5b],
       [0x00, 0x00, 0x00, 0x00, 0x00, 0x00, 0x00, 0x00, 0x00, 0x00, 0x00, 0x00, 0x00, 0x00, 0x00, 0x00,
        0x00, 0x00, 0x00, 0x00, 0x00, 0x00, 0x00, 0x00, 0x00, 0x05, 0x5d, 0x56, 0x45, 0x9c, 0x60, 0x00]),
      ([0xb3, 0x74, 0x80, 0x1a, 0xce, 0x2c, 0x02, 0xf5, 0xdb, 0x04, 0x25, 0xab, 0x59, 0x20, 0xa2, 0xb7,
        0xed, 0x1d, 0x5a, 0x00, 0xab, 0xbc, 0xd3, 0x95, 0xfd, 0xa7, 0x53, 0x0b, 0xa1, 0xd6, 0x66, 0xc0],
       [0x00, 0x00, 0x00, 0x00, 0x00, 0x00, 0x00, 0x00, 0x00, 0x00, 0x00, 0x00, 0x00, 0x00, 0x00, 0x00,
        0x00, 0x00, 0x00, 0x00, 0x00, 0x00, 0x00, 0xe3, 0x0f, 0xb4, 0xf8, 0xdc, 0x49, 0xaa, 0xfa, 0xdb])]"

definition USDC_PROXY_ADDRESS :: bytes where
  "USDC_PROXY_ADDRESS =
     [0xa0, 0xb8, 0x69, 0x91, 0xc6, 0x21, 0x8b, 0x36, 0xc1, 0xd1, 0x9d, 0x4a, 0x2e, 0x9e, 0xb0, 0xce,
      0x36, 0x06, 0xeb, 0x48]"

definition USDC_PROXY_BLOCK_HASH :: bytes where
  "USDC_PROXY_BLOCK_HASH =
     [0xeb, 0x77, 0xd5, 0x2a, 0xbb, 0xfc, 0xac, 0x49, 0x83, 0x43, 0x2e, 0xba, 0x39, 0xdb, 0x50, 0x79,
      0x88, 0xe3, 0x93, 0x58, 0x7f, 0x1a, 0x0a, 0xf5, 0x94, 0x4d, 0x57, 0x5d, 0x8b, 0x3d, 0xb0, 0xd4]"

definition USDC_PROXY_STORAGE :: "(bytes \<times> bytes) list" where
  "USDC_PROXY_STORAGE =
     [([0x00, 0x00, 0x00, 0x00, 0x00, 0x00, 0x00, 0x00, 0x00, 0x00, 0x00, 0x00, 0x00, 0x00, 0x00, 0x00,
        0x00, 0x00, 0x00, 0x00, 0x00, 0x00, 0x00, 0x00, 0x00, 0x00, 0x00, 0x00, 0x00, 0x00, 0x00, 0x00],
       [0x00, 0x00, 0x00, 0x00, 0x00, 0x00, 0x00, 0x00, 0x00, 0x00, 0x00, 0x00, 0xfc, 0xb1, 0x9e, 0x6a,
        0x32, 0x2b, 0x27, 0xc0, 0x68, 0x42, 0xa7, 0x1e, 0x8c, 0x72, 0x53, 0x99, 0xf0, 0x49, 0xae, 0x3a]),
      ([0x00, 0x00, 0x00, 0x00, 0x00, 0x00, 0x00, 0x00, 0x00, 0x00, 0x00, 0x00, 0x00, 0x00, 0x00, 0x00,
        0x00, 0x00, 0x00, 0x00, 0x00, 0x00, 0x00, 0x00, 0x00, 0x00, 0x00, 0x00, 0x00, 0x00, 0x00, 0x01],
       [0x00, 0x00, 0x00, 0x00, 0x00, 0x00, 0x00, 0x00, 0x00, 0x00, 0x00, 0x00, 0x49, 0x14, 0xf6, 0x1d,
        0x25, 0xe5, 0xc5, 0x67, 0x14, 0x37, 0x74, 0xb7, 0x6e, 0xdb, 0xf4, 0xd5, 0x10, 0x9a, 0x85, 0x66]),
      ([0x00, 0x00, 0x00, 0x00, 0x00, 0x00, 0x00, 0x00, 0x00, 0x00, 0x00, 0x00, 0x00, 0x00, 0x00, 0x00,
        0x00, 0x00, 0x00, 0x00, 0x00, 0x00, 0x00, 0x00, 0x00, 0x00, 0x00, 0x00, 0x00, 0x00, 0x00, 0x02],
       [0x00, 0x00, 0x00, 0x00, 0x00, 0x00, 0x00, 0x00, 0x00, 0x00, 0x00, 0x00, 0x0a, 0x06, 0xbe, 0x16,
        0x27, 0x5b, 0x95, 0xa7, 0xd2, 0x56, 0x7f, 0xbd, 0xae, 0x11, 0x8b, 0x36, 0xc7, 0xda, 0x78, 0xf9]),
      ([0x00, 0x00, 0x00, 0x00, 0x00, 0x00, 0x00, 0x00, 0x00, 0x00, 0x00, 0x00, 0x00, 0x00, 0x00, 0x00,
        0x00, 0x00, 0x00, 0x00, 0x00, 0x00, 0x00, 0x00, 0x00, 0x00, 0x00, 0x00, 0x00, 0x00, 0x00, 0x03],
       [0x00, 0x00, 0x00, 0x00, 0x00, 0x00, 0x00, 0x00, 0x00, 0x00, 0x00, 0x00, 0x00, 0x00, 0x00, 0x00,
        0x00, 0x00, 0x00, 0x00, 0x00, 0x00, 0x00, 0x00, 0x00, 0x00, 0x00, 0x00, 0x00, 0x00, 0x00, 0x00]),
      ([0x00, 0x00, 0x00, 0x00, 0x00, 0x00, 0x00, 0x00, 0x00, 0x00, 0x00, 0x00, 0x00, 0x00, 0x00, 0x00,
        0x00, 0x00, 0x00, 0x00, 0x00, 0x00, 0x00, 0x00, 0x00, 0x00, 0x00, 0x00, 0x00, 0x00, 0x00, 0x04],
       [0x55, 0x53, 0x44, 0x20, 0x43, 0x6f, 0x69, 0x6e, 0x00, 0x00, 0x00, 0x00, 0x00, 0x00, 0x00, 0x00,
        0x00, 0x00, 0x00, 0x00, 0x00, 0x00, 0x00, 0x00, 0x00, 0x00, 0x00, 0x00, 0x00, 0x00, 0x00, 0x10]),
      ([0x00, 0x00, 0x00, 0x00, 0x00, 0x00, 0x00, 0x00, 0x00, 0x00, 0x00, 0x00, 0x00, 0x00, 0x00, 0x00,
        0x00, 0x00, 0x00, 0x00, 0x00, 0x00, 0x00, 0x00, 0x00, 0x00, 0x00, 0x00, 0x00, 0x00, 0x00, 0x05],
       [0x55, 0x53, 0x44, 0x43, 0x00, 0x00, 0x00, 0x00, 0x00, 0x00, 0x00, 0x00, 0x00, 0x00, 0x00, 0x00,
        0x00, 0x00, 0x00, 0x00, 0x00, 0x00, 0x00, 0x00, 0x00, 0x00, 0x00, 0x00, 0x00, 0x00, 0x00, 0x08]),
      ([0x00, 0x00, 0x00, 0x00, 0x00, 0x00, 0x00, 0x00, 0x00, 0x00, 0x00, 0x00, 0x00, 0x00, 0x00, 0x00,
        0x00, 0x00, 0x00, 0x00, 0x00, 0x00, 0x00, 0x00, 0x00, 0x00, 0x00, 0x00, 0x00, 0x00, 0x00, 0x06],
       [0x00, 0x00, 0x00, 0x00, 0x00, 0x00, 0x00, 0x00, 0x00, 0x00, 0x00, 0x00, 0x00, 0x00, 0x00, 0x00,
        0x00, 0x00, 0x00, 0x00, 0x00, 0x00, 0x00, 0x00, 0x00, 0x00, 0x00, 0x00, 0x00, 0x00, 0x00, 0x06]),
      ([0x00, 0x00, 0x00, 0x00, 0x00, 0x00, 0x00, 0x00, 0x00, 0x00, 0x00, 0x00, 0x00, 0x00, 0x00, 0x00,
        0x00, 0x00, 0x00, 0x00, 0x00, 0x00, 0x00, 0x00, 0x00, 0x00, 0x00, 0x00, 0x00, 0x00, 0x00, 0x07],
       [0x55, 0x53, 0x44, 0x00, 0x00, 0x00, 0x00, 0x00, 0x00, 0x00, 0x00, 0x00, 0x00, 0x00, 0x00, 0x00,
        0x00, 0x00, 0x00, 0x00, 0x00, 0x00, 0x00, 0x00, 0x00, 0x00, 0x00, 0x00, 0x00, 0x00, 0x00, 0x06]),
      ([0x00, 0x00, 0x00, 0x00, 0x00, 0x00, 0x00, 0x00, 0x00, 0x00, 0x00, 0x00, 0x00, 0x00, 0x00, 0x00,
        0x00, 0x00, 0x00, 0x00, 0x00, 0x00, 0x00, 0x00, 0x00, 0x00, 0x00, 0x00, 0x00, 0x00, 0x00, 0x08],
       [0x00, 0x00, 0x00, 0x00, 0x00, 0x00, 0x00, 0x00, 0x00, 0x00, 0x00, 0x01, 0xe9, 0x82, 0x61, 0x5d,
        0x46, 0x1d, 0xd5, 0xcd, 0x06, 0x57, 0x5b, 0xbe, 0xa8, 0x76, 0x24, 0xfd, 0xa4, 0xe3, 0xde, 0x17]),
      ([0x00, 0x00, 0x00, 0x00, 0x00, 0x00, 0x00, 0x00, 0x00, 0x00, 0x00, 0x00, 0x00, 0x00, 0x00, 0x00,
        0x00, 0x00, 0x00, 0x00, 0x00, 0x00, 0x00, 0x00, 0x00, 0x00, 0x00, 0x00, 0x00, 0x00, 0x00, 0x09],
       [0x00, 0x00, 0x00, 0x00, 0x00, 0x00, 0x00, 0x00, 0x00, 0x00, 0x00, 0x00, 0x00, 0x00, 0x00, 0x00,
        0x00, 0x00, 0x00, 0x00, 0x00, 0x00, 0x00, 0x00, 0x00, 0x00, 0x00, 0x00, 0x00, 0x00, 0x00, 0x00]),
      ([0x00, 0x00, 0x00, 0x00, 0x00, 0x00, 0x00, 0x00, 0x00, 0x00, 0x00, 0x00, 0x00, 0x00, 0x00, 0x00,
        0x00, 0x00, 0x00, 0x00, 0x00, 0x00, 0x00, 0x00, 0x00, 0x00, 0x00, 0x00, 0x00, 0x00, 0x00, 0x0a],
       [0x00, 0x00, 0x00, 0x00, 0x00, 0x00, 0x00, 0x00, 0x00, 0x00, 0x00, 0x00, 0x00, 0x00, 0x00, 0x00,
        0x00, 0x00, 0x00, 0x00, 0x00, 0x00, 0x00, 0x00, 0x00, 0x00, 0x00, 0x00, 0x00, 0x00, 0x00, 0x00]),
      ([0x00, 0x00, 0x00, 0x00, 0x00, 0x00, 0x00, 0x00, 0x00, 0x00, 0x00, 0x00, 0x00, 0x00, 0x00, 0x00,
        0x00, 0x00, 0x00, 0x00, 0x00, 0x00, 0x00, 0x00, 0x00, 0x00, 0x00, 0x00, 0x00, 0x00, 0x00, 0x0b],
       [0x00, 0x00, 0x00, 0x00, 0x00, 0x00, 0x00, 0x00, 0x00, 0x00, 0x00, 0x00, 0x00, 0x00, 0x00, 0x00,
        0x00, 0x00, 0x00, 0x00, 0x00, 0x00, 0x00, 0x00, 0x00, 0xc3, 0x6c, 0xc2, 0xc1, 0xc1, 0x15, 0xbb]),
      ([0x00, 0x00, 0x00, 0x00, 0x00, 0x00, 0x00, 0x00, 0x00, 0x00, 0x00, 0x00, 0x00, 0x00, 0x00, 0x00,
        0x00, 0x00, 0x00, 0x00, 0x00, 0x00, 0x00, 0x00, 0x00, 0x00, 0x00, 0x00, 0x00, 0x00, 0x00, 0x0c],
       [0x00, 0x00, 0x00, 0x00, 0x00, 0x00, 0x00, 0x00, 0x00, 0x00, 0x00, 0x00, 0x00, 0x00, 0x00, 0x00,
        0x00, 0x00, 0x00, 0x00, 0x00, 0x00, 0x00, 0x00, 0x00, 0x00, 0x00, 0x00, 0x00, 0x00, 0x00, 0x00]),
      ([0x00, 0x00, 0x00, 0x00, 0x00, 0x00, 0x00, 0x00, 0x00, 0x00, 0x00, 0x00, 0x00, 0x00, 0x00, 0x00,
        0x00, 0x00, 0x00, 0x00, 0x00, 0x00, 0x00, 0x00, 0x00, 0x00, 0x00, 0x00, 0x00, 0x00, 0x00, 0x0d],
       [0x00, 0x00, 0x00, 0x00, 0x00, 0x00, 0x00, 0x00, 0x00, 0x00, 0x00, 0x00, 0x00, 0x00, 0x00, 0x00,
        0x00, 0x00, 0x00, 0x00, 0x00, 0x00, 0x00, 0x00, 0x00, 0x00, 0x00, 0x00, 0x00, 0x00, 0x00, 0x00]),
      ([0x00, 0x00, 0x00, 0x00, 0x00, 0x00, 0x00, 0x00, 0x00, 0x00, 0x00, 0x00, 0x00, 0x00, 0x00, 0x00,
        0x00, 0x00, 0x00, 0x00, 0x00, 0x00, 0x00, 0x00, 0x00, 0x00, 0x00, 0x00, 0x00, 0x00, 0x00, 0x0e],
       [0x00, 0x00, 0x00, 0x00, 0x00, 0x00, 0x00, 0x00, 0x00, 0x00, 0x00, 0x00, 0x00, 0x00, 0x00, 0x00,
        0x00, 0x00, 0x00, 0x00, 0x00, 0x00, 0x00, 0x00, 0x00, 0x00, 0x00, 0x00, 0x00, 0x00, 0x00, 0x00]),
      ([0x00, 0x00, 0x00, 0x00, 0x00, 0x00, 0x00, 0x00, 0x00, 0x00, 0x00, 0x00, 0x00, 0x00, 0x00, 0x00,
        0x00, 0x00, 0x00, 0x00, 0x00, 0x00, 0x00, 0x00, 0x00, 0x00, 0x00, 0x00, 0x00, 0x00, 0x00, 0x0f],
       [0x06, 0xc3, 0x71, 0x68, 0xa7, 0xdb, 0x51, 0x38, 0xde, 0xfc, 0x78, 0x66, 0x39, 0x2b, 0xb8, 0x7a,
        0x74, 0x1f, 0x9b, 0x3d, 0x10, 0x4d, 0xeb, 0x50, 0x94, 0x58, 0x8c, 0xe0, 0x41, 0xca, 0xe3, 0x35]),
      ([0x10, 0xd6, 0xa5, 0x4a, 0x47, 0x54, 0xc8, 0x86, 0x9d, 0x68, 0x86, 0xb5, 0xf5, 0xd7, 0xfb, 0xfa,
        0x5b, 0x45, 0x22, 0x23, 0x7e, 0xa5, 0xc6, 0x0d, 0x11, 0xbc, 0x4e, 0x7a, 0x1f, 0xf9, 0x39, 0x0b],
       [0x00, 0x00, 0x00, 0x00, 0x00, 0x00, 0x00, 0x00, 0x00, 0x00, 0x00, 0x00, 0x80, 0x7a, 0x96, 0x28,
        0x8a, 0x1a, 0x40, 0x8d, 0xbc, 0x13, 0xde, 0x2b, 0x1d, 0x08, 0x7d, 0x10, 0x35, 0x63, 0x95, 0xd2]),
      ([0x1f, 0x21, 0xa6, 0x2c, 0x45, 0x38, 0xba, 0xcf, 0x2a, 0xab, 0xec, 0xa4, 0x10, 0xf0, 0xfe, 0x63,
        0x15, 0x18, 0x69, 0xf1, 0x72, 0xe0, 0x3c, 0x0e, 0x00, 0x35, 0x7b, 0xa2, 0x6a, 0x34, 0x1e, 0xff],
       [0x00, 0x00, 0x00, 0x00, 0x00, 0x00, 0x00, 0x00, 0x00, 0x00, 0x00, 0x00, 0x00, 0x00, 0x00, 0x00,
        0x00, 0x00, 0x00, 0x00, 0x00, 0x00, 0x00, 0x00, 0x00, 0x00, 0x42, 0x80, 0xfd, 0xce, 0x21, 0x6f]),
      ([0x28, 0xc0, 0x94, 0x7f, 0x46, 0x33, 0x62, 0xaa, 0xb0, 0x9a, 0x2d, 0x78, 0x96, 0xcc, 0xc8, 0x47,
        0xfb, 0x7e, 0x52, 0x63, 0x3a, 0x16, 0xb9, 0x78, 0xfb, 0x2c, 0xaf, 0x3d, 0xb1, 0xa9, 0xb8, 0xf8],
       [0x00, 0x00, 0x00, 0x00, 0x00, 0x00, 0x00, 0x00, 0x00, 0x00, 0x00, 0x00, 0x00, 0x00, 0x00, 0x00,
        0x00, 0x00, 0x00, 0x00, 0x00, 0x00, 0x00, 0x00, 0x00, 0x00, 0x08, 0xd3, 0x61, 0x85, 0x2d, 0x37]),
      ([0x36, 0x08, 0x94, 0xa1, 0x3b, 0xa1, 0xa3, 0x21, 0x06, 0x67, 0xc8, 0x28, 0x49, 0x2d, 0xb9, 0x8d,
        0xca, 0x3e, 0x20, 0x76, 0xcc, 0x37, 0x35, 0xa9, 0x20, 0xa3, 0xca, 0x50, 0x5d, 0x38, 0x2b, 0xbc],
       [0x00, 0x00, 0x00, 0x00, 0x00, 0x00, 0x00, 0x00, 0x00, 0x00, 0x00, 0x00, 0x00, 0x00, 0x00, 0x00,
        0x00, 0x00, 0x00, 0x00, 0x00, 0x00, 0x00, 0x00, 0x00, 0x00, 0x00, 0x00, 0x00, 0x00, 0x00, 0x00]),
      ([0x70, 0x50, 0xc9, 0xe0, 0xf4, 0xca, 0x76, 0x9c, 0x69, 0xbd, 0x3a, 0x8e, 0xf7, 0x40, 0xbc, 0x37,
        0x93, 0x4f, 0x8e, 0x2c, 0x03, 0x6e, 0x5a, 0x72, 0x3f, 0xd8, 0xee, 0x04, 0x8e, 0xd3, 0xf8, 0xc3],
       [0x00, 0x00, 0x00, 0x00, 0x00, 0x00, 0x00, 0x00, 0x00, 0x00, 0x00, 0x00, 0x43, 0x50, 0x68, 0x49,
        0xd7, 0xc0, 0x4f, 0x91, 0x38, 0xd1, 0xa2, 0x05, 0x0b, 0xbf, 0x3a, 0x0c, 0x05, 0x44, 0x02, 0xdd]),
      ([0x8b, 0x66, 0x0f, 0x95, 0x2a, 0x22, 0x1d, 0xd0, 0xf8, 0xa1, 0x56, 0xb6, 0x9f, 0xef, 0x97, 0x6c,
        0xd6, 0xbd, 0xe3, 0x86, 0xac, 0xcd, 0x9b, 0x45, 0xf6, 0x20, 0x7d, 0x00, 0x39, 0x08, 0xa1, 0x56],
       [0x00, 0x00, 0x00, 0x00, 0x00, 0x00, 0x00, 0x00, 0x00, 0x00, 0x00, 0x00, 0x00, 0x00, 0x00, 0x00,
        0x00, 0x00, 0x00, 0x00, 0x00, 0x00, 0x00, 0x00, 0x00, 0x00, 0x00, 0x00, 0x00, 0x03, 0xc9, 0x88])]"

definition USDC_IMPL_ADDRESS :: bytes where
  "USDC_IMPL_ADDRESS =
     [0x43, 0x50, 0x68, 0x49, 0xd7, 0xc0, 0x4f, 0x91, 0x38, 0xd1, 0xa2, 0x05, 0x0b, 0xbf, 0x3a, 0x0c,
      0x05, 0x44, 0x02, 0xdd]"

definition USDC_IMPL_BLOCK_HASH :: bytes where
  "USDC_IMPL_BLOCK_HASH =
     [0xeb, 0x77, 0xd5, 0x2a, 0xbb, 0xfc, 0xac, 0x49, 0x83, 0x43, 0x2e, 0xba, 0x39, 0xdb, 0x50, 0x79,
      0x88, 0xe3, 0x93, 0x58, 0x7f, 0x1a, 0x0a, 0xf5, 0x94, 0x4d, 0x57, 0x5d, 0x8b, 0x3d, 0xb0, 0xd4]"

definition USDC_IMPL_STORAGE :: "(bytes \<times> bytes) list" where "USDC_IMPL_STORAGE = []"

definition V2_FACTORY_ADDRESS_FIXTURE :: bytes where
  "V2_FACTORY_ADDRESS_FIXTURE =
     [0x5c, 0x69, 0xbe, 0xe7, 0x01, 0xef, 0x81, 0x4a, 0x2b, 0x6a, 0x3e, 0xdd, 0x4b, 0x16, 0x52, 0xcb,
      0x9c, 0xc5, 0xaa, 0x6f]"

definition V2_FACTORY_BLOCK_HASH :: bytes where
  "V2_FACTORY_BLOCK_HASH =
     [0xeb, 0x77, 0xd5, 0x2a, 0xbb, 0xfc, 0xac, 0x49, 0x83, 0x43, 0x2e, 0xba, 0x39, 0xdb, 0x50, 0x79,
      0x88, 0xe3, 0x93, 0x58, 0x7f, 0x1a, 0x0a, 0xf5, 0x94, 0x4d, 0x57, 0x5d, 0x8b, 0x3d, 0xb0, 0xd4]"

definition V2_FACTORY_STORAGE :: "(bytes \<times> bytes) list" where
  "V2_FACTORY_STORAGE =
     [([0x00, 0x00, 0x00, 0x00, 0x00, 0x00, 0x00, 0x00, 0x00, 0x00, 0x00, 0x00, 0x00, 0x00, 0x00, 0x00,
        0x00, 0x00, 0x00, 0x00, 0x00, 0x00, 0x00, 0x00, 0x00, 0x00, 0x00, 0x00, 0x00, 0x00, 0x00, 0x00],
       [0x00, 0x00, 0x00, 0x00, 0x00, 0x00, 0x00, 0x00, 0x00, 0x00, 0x00, 0x00, 0xf3, 0x85, 0x21, 0xf1,
        0x30, 0xfc, 0xcf, 0x29, 0xdb, 0x19, 0x61, 0x59, 0x7b, 0xc5, 0xd2, 0xb6, 0x0f, 0x99, 0x5f, 0x85])]"

text \<open>The six records in the order of the file, with the byte codes and the storage table of the V3 pool as
  arguments.\<close>

definition fixture_constants :: "(address \<Rightarrow> bytes) \<Rightarrow> (bytes \<times> bytes) list \<Rightarrow> constants list" where
  "fixture_constants codes v3_table =
     map (\<lambda>(a, h, st). (a, h, codes (address_from_be a), st))
       [(V2_WETH_USDC_ADDRESS, V2_WETH_USDC_BLOCK_HASH, V2_WETH_USDC_STORAGE),
        (V3_WETH_USDC_005_ADDRESS, V3_WETH_USDC_005_BLOCK_HASH, v3_table),
        (WETH9_ADDRESS, WETH9_BLOCK_HASH, WETH9_STORAGE),
        (USDC_PROXY_ADDRESS, USDC_PROXY_BLOCK_HASH, USDC_PROXY_STORAGE),
        (USDC_IMPL_ADDRESS, USDC_IMPL_BLOCK_HASH, USDC_IMPL_STORAGE),
        (V2_FACTORY_ADDRESS_FIXTURE, V2_FACTORY_BLOCK_HASH, V2_FACTORY_STORAGE)]"

section \<open>The archive they were read from\<close>

definition table_value :: "(bytes \<times> bytes) list \<Rightarrow> u256 \<Rightarrow> b256" where
  "table_value rows slot = (case map_of (map (map_prod u256_from_be u256_from_be) rows) slot of Some v \<Rightarrow> v | None \<Rightarrow> 0)"

text \<open>The recorded state: byte codes and the storage of the V3 pool are arbitrary, the rest is what the tables
  hold.\<close>

definition recorded_archive :: "(address \<Rightarrow> bytes) \<Rightarrow> (u256 \<Rightarrow> b256) \<Rightarrow> archive" where
  "recorded_archive codes v3 =
     \<lparr>ar_code = (\<lambda>a _. codes a),
      ar_storage = (\<lambda>a _.
        if a = V3_005_WETH_USDC then v3
        else table_value
         (if a = V2_WETH_USDC then V2_WETH_USDC_STORAGE else if a = WETH9 then WETH9_STORAGE
          else if a = USDC_PROXY then USDC_PROXY_STORAGE else if a = V2_FACTORY then V2_FACTORY_STORAGE else []))\<rparr>"

lemma table_rows:
  assumes "list_all (\<lambda>(k, v). length k = 32 \<and> length v = 32) rows" "distinct (map (u256_from_be \<circ> fst) rows)"
  shows "map (\<lambda>s. (u256_to_be s, u256_to_be (table_value rows s))) (map (u256_from_be \<circ> fst) rows) = rows"
proof -
  have "(u256_to_be (u256_from_be k), u256_to_be (table_value rows (u256_from_be k))) = (k, v)" if r: "(k, v) \<in> set rows" for k v
  proof -
    have len: "length k = 32" "length v = 32" using assms(1) r by (auto simp: list_all_iff)
    let ?m = "map (map_prod u256_from_be u256_from_be) rows"
    have "distinct (map fst ?m)" using assms(2) by (simp add: comp_def map_prod_def split_beta)
    moreover have "(u256_from_be k, u256_from_be v) \<in> set ?m" using r by force
    ultimately have "map_of ?m (u256_from_be k) = Some (u256_from_be v)" by (rule map_of_is_SomeI)
    then show ?thesis by (simp add: table_value_def u256_to_from_be len)
  qed
  then show ?thesis by (auto simp: comp_def intro!: map_idI)
qed

lemma table_value_row:
  assumes "(k, v) \<in> set rows" "distinct (map (u256_from_be \<circ> fst) rows)"
  shows "table_value rows (u256_from_be k) = u256_from_be v"
proof -
  let ?m = "map (map_prod u256_from_be u256_from_be) rows"
  have "distinct (map fst ?m)" using assms(2) by (simp add: comp_def map_prod_def split_beta)
  moreover have "(u256_from_be k, u256_from_be v) \<in> set ?m" using assms(1) by force
  ultimately have "map_of ?m (u256_from_be k) = Some (u256_from_be v)" by (rule map_of_is_SomeI)
  then show ?thesis by (simp add: table_value_def)
qed

lemma address_to_from_be: "length c = 20 \<Longrightarrow> address_to_be (address_from_be c) = c"
  using be_to_nat_bound[of c] nat_to_be_be_to_nat[of c]
  by (simp add: address_to_be_def address_from_be_def unsigned_of_nat take_bit_nat_eq_self)

lemma recorded_addresses:
  "address_to_be V2_WETH_USDC = V2_WETH_USDC_ADDRESS" "address_to_be V3_005_WETH_USDC = V3_WETH_USDC_005_ADDRESS"
  "address_to_be WETH9 = WETH9_ADDRESS" "address_to_be USDC_PROXY = USDC_PROXY_ADDRESS"
  "address_to_be V2_FACTORY = V2_FACTORY_ADDRESS_FIXTURE"
  by (simp_all add: V2_WETH_USDC_def V2_WETH_USDC_ADDRESS_def V3_005_WETH_USDC_def V3_WETH_USDC_005_ADDRESS_def
      WETH9_def WETH9_ADDRESS_def USDC_PROXY_def USDC_PROXY_ADDRESS_def V2_FACTORY_def V2_FACTORY_ADDRESS_FIXTURE_def
      address_to_from_be)

lemma recorded_addresses_from:
  "address_from_be V2_WETH_USDC_ADDRESS = V2_WETH_USDC" "address_from_be WETH9_ADDRESS = WETH9"
  "address_from_be USDC_PROXY_ADDRESS = USDC_PROXY" "address_from_be V2_FACTORY_ADDRESS_FIXTURE = V2_FACTORY"
  "address_from_be V3_WETH_USDC_005_ADDRESS = V3_005_WETH_USDC"
  by (simp_all flip: recorded_addresses)

lemma addresses_distinct: "distinct [V2_WETH_USDC_ADDRESS, WETH9_ADDRESS, USDC_PROXY_ADDRESS, V2_FACTORY_ADDRESS_FIXTURE,
    V3_WETH_USDC_005_ADDRESS]"
  by (simp add: V3_WETH_USDC_005_ADDRESS_def V2_WETH_USDC_ADDRESS_def WETH9_ADDRESS_def USDC_PROXY_ADDRESS_def V2_FACTORY_ADDRESS_FIXTURE_def)

lemma contracts_distinct: "distinct [V2_WETH_USDC, WETH9, USDC_PROXY, V2_FACTORY, V3_005_WETH_USDC]"
  using addresses_distinct by (simp flip: recorded_addresses)

lemma one_block:
  "V3_WETH_USDC_005_BLOCK_HASH = V2_WETH_USDC_BLOCK_HASH" "WETH9_BLOCK_HASH = V2_WETH_USDC_BLOCK_HASH"
  "USDC_PROXY_BLOCK_HASH = V2_WETH_USDC_BLOCK_HASH" "USDC_IMPL_BLOCK_HASH = V2_WETH_USDC_BLOCK_HASH"
  "V2_FACTORY_BLOCK_HASH = V2_WETH_USDC_BLOCK_HASH"
  by (simp_all add: V3_WETH_USDC_005_BLOCK_HASH_def V2_WETH_USDC_BLOCK_HASH_def WETH9_BLOCK_HASH_def
      USDC_PROXY_BLOCK_HASH_def USDC_IMPL_BLOCK_HASH_def V2_FACTORY_BLOCK_HASH_def)

abbreviation full_rows :: "(bytes \<times> bytes) list \<Rightarrow> bool" where
  "full_rows \<equiv> list_all (\<lambda>(k, v). length k = 32 \<and> length v = 32)"

lemma rows_full:
  "full_rows V2_WETH_USDC_STORAGE" "full_rows WETH9_STORAGE" "full_rows USDC_PROXY_STORAGE" "full_rows V2_FACTORY_STORAGE"
  by (simp_all add: V2_WETH_USDC_STORAGE_def WETH9_STORAGE_def USDC_PROXY_STORAGE_def V2_FACTORY_STORAGE_def)

abbreviation keys :: "(bytes \<times> bytes) list \<Rightarrow> u256 list" where
  "keys rows \<equiv> map (u256_from_be \<circ> fst) rows"

text \<open>The slots of the tables; the hashed ones are the balances of the router and the two pools.\<close>

definition WETH_OF_ROUTER :: u256 where "WETH_OF_ROUTER = 0x3e78478c2b05d67c485508ced9f815e1067485f4aa1a7fb0cf5879b72392355b"
definition WETH_OF_V2 :: u256 where "WETH_OF_V2 = 0xb374801ace2c02f5db0425ab5920a2b7ed1d5a00abbcd395fda7530ba1d666c0"
definition WETH_OF_V3 :: u256 where "WETH_OF_V3 = 0x390f6178407c9b8e95802b8659e6df8e34c1e3d4f8d6a49e6132bbcdd937b63a"
definition USDC_OF_ROUTER :: u256 where "USDC_OF_ROUTER = 0x8b660f952a221dd0f8a156b69fef976cd6bde386accd9b45f6207d003908a156"
definition USDC_OF_V2 :: u256 where "USDC_OF_V2 = 0x28c0947f463362aab09a2d7896ccc847fb7e52633a16b978fb2caf3db1a9b8f8"
definition USDC_OF_V3 :: u256 where "USDC_OF_V3 = 0x1f21a62c4538bacf2aabeca410f0fe63151869f172e03c0e00357ba26a341eff"

lemmas hashed_slots = WETH_OF_ROUTER_def WETH_OF_V2_def WETH_OF_V3_def USDC_OF_ROUTER_def USDC_OF_V2_def USDC_OF_V3_def

lemma v2_keys: "keys V2_WETH_USDC_STORAGE = [0, 6, 7, 8, 9, 10, 11, 12]"
  by (simp add: V2_WETH_USDC_STORAGE_def u256_from_be_def be_to_nat_def)

lemma weth_keys: "keys WETH9_STORAGE = [WETH_OF_V3, WETH_OF_ROUTER, WETH_OF_V2]"
  by (simp add: WETH9_STORAGE_def u256_from_be_def be_to_nat_def hashed_slots)

lemma proxy_keys: "keys USDC_PROXY_STORAGE = [0, 1, 2, 3, 4, 5, 6, 7, 8, 9, 10, 11, 12, 13, 14, 15,
    ZEPPELINOS_ADMIN_SLOT, USDC_OF_V3, USDC_OF_V2, EIP1967_IMPL_SLOT, ZEPPELINOS_IMPL_SLOT, USDC_OF_ROUTER]"
  by (simp add: USDC_PROXY_STORAGE_def u256_from_be_def be_to_nat_def hashed_slots ZEPPELINOS_ADMIN_SLOT_def
      EIP1967_IMPL_SLOT_def ZEPPELINOS_IMPL_SLOT_def)

lemma factory_keys: "keys V2_FACTORY_STORAGE = [0]"
  by (simp add: V2_FACTORY_STORAGE_def u256_from_be_def be_to_nat_def)

text \<open>What keccak is relied on for: the slots of the six balances.\<close>

definition balance_slots :: "(bytes \<Rightarrow> bytes) \<Rightarrow> bool" where
  "balance_slots keccak \<longleftrightarrow>
     weth_slots keccak = [WETH_OF_ROUTER, WETH_OF_V2, WETH_OF_V3] \<and>
     map (\<lambda>a. mapping_slot_u256 keccak (ucast USDC_BALANCES) (address_key a)) [MOCK_ROUTER, V2_WETH_USDC, V3_005_WETH_USDC] =
       [USDC_OF_ROUTER, USDC_OF_V2, USDC_OF_V3]"

lemmas ascending_simps = sorted_wrt2[OF transp_on_less] sorted_wrt1

lemma keys_ascend:
  "sorted_wrt (<) (keys V2_WETH_USDC_STORAGE)" "sorted_wrt (<) (keys WETH9_STORAGE)"
  "sorted_wrt (<) (keys USDC_PROXY_STORAGE)" "sorted_wrt (<) (keys V2_FACTORY_STORAGE)"
  unfolding v2_keys weth_keys proxy_keys factory_keys
  by (simp_all add: ascending_simps hashed_slots ZEPPELINOS_ADMIN_SLOT_def EIP1967_IMPL_SLOT_def ZEPPELINOS_IMPL_SLOT_def
      del: sorted_wrt.simps)

lemmas keys_distinct = keys_ascend[THEN strict_sorted_iff[THEN iffD1, THEN conjunct2]]

lemma ascending_unique:
  assumes "sorted_wrt (<) ys" "set xs = set ys"
  shows "remdups_adj (sort xs) = (ys :: 'a::linorder list)"
proof (rule sorted_distinct_set_unique)
  have "sorted_wrt (<) (remdups_adj (sort xs))" by (rule sorted_remdups_adj) simp
  then show "sorted (remdups_adj (sort xs))" "distinct (remdups_adj (sort xs))"
    by (simp_all add: strict_sorted_iff)
  show "sorted ys" "distinct ys" using assms(1) by (simp_all add: strict_sorted_iff)
qed (simp add: assms(2))

lemma weth_asked: "balance_slots keccak \<Longrightarrow> remdups_adj (sort (weth_slots keccak)) = keys WETH9_STORAGE"
  by (rule ascending_unique[OF keys_ascend(2)]) (auto simp: balance_slots_def weth_keys)

lemma proxy_asked:
  assumes "balance_slots keccak"
  shows "remdups_adj (sort (usdc_proxy_slots keccak)) = keys USDC_PROXY_STORAGE"
proof (rule ascending_unique[OF keys_ascend(3)])
  have "usdc_proxy_slots keccak = [EIP1967_IMPL_SLOT, ZEPPELINOS_IMPL_SLOT, ZEPPELINOS_ADMIN_SLOT] @
      [USDC_OF_ROUTER, USDC_OF_V2, USDC_OF_V3] @ [0, 1, 2, 3, 4, 5, 6, 7, 8, 9, 10, 11, 12, 13, 14, 15]"
    using assms unfolding balance_slots_def usdc_proxy_slots_def by (simp add: upt_rec)
  then show "set (usdc_proxy_slots keccak) = set (keys USDC_PROXY_STORAGE)"
    unfolding proxy_keys by (simp only: set_append list.set) blast
qed

lemma recorded_tables:
  "ar_storage (recorded_archive codes v3) V2_WETH_USDC h = table_value V2_WETH_USDC_STORAGE"
  "ar_storage (recorded_archive codes v3) WETH9 h = table_value WETH9_STORAGE"
  "ar_storage (recorded_archive codes v3) USDC_PROXY h = table_value USDC_PROXY_STORAGE"
  "ar_storage (recorded_archive codes v3) V2_FACTORY h = table_value V2_FACTORY_STORAGE"
  "ar_storage (recorded_archive codes v3) V3_005_WETH_USDC h = v3"
  "ar_code (recorded_archive codes v3) a h = codes a"
  using contracts_distinct by (auto simp: recorded_archive_def)

abbreviation fixture_block :: b256 where "fixture_block \<equiv> u256_from_be V2_WETH_USDC_BLOCK_HASH"

lemma fixture_block_be: "u256_to_be fixture_block = V2_WETH_USDC_BLOCK_HASH"
  by (rule u256_to_from_be) (simp add: V2_WETH_USDC_BLOCK_HASH_def)

lemma contract_at_table:
  assumes "full_rows rows" "distinct (keys rows)" "ar_storage ar a h = table_value rows"
  shows "contract_at ar h a (keys rows) = (address_to_be a, u256_to_be h, ar_code ar a h, rows)"
  unfolding contract_at_def assms(3) table_rows[OF assms(1,2)] ..

lemma recorded_implementation:
  "impl_word (recorded_archive codes v3) h \<noteq> 0" "impl_of (impl_word (recorded_archive codes v3) h) = address_from_be USDC_IMPL_ADDRESS"
  "u256_to_be (impl_word (recorded_archive codes v3) h) = replicate 12 0 @ USDC_IMPL_ADDRESS"
proof -
  have "(EIP1967_IMPL_SLOT_BE, replicate 32 0) \<in> set USDC_PROXY_STORAGE"
    by (simp add: USDC_PROXY_STORAGE_def EIP1967_IMPL_SLOT_BE_def numeral_eq_Suc)
  from table_value_row[OF this keys_distinct(3)]
  have e32: "table_value USDC_PROXY_STORAGE EIP1967_IMPL_SLOT = u256_from_be (replicate 32 0)" by simp
  have b32: "be_to_nat (replicate 32 0) = 0" by (simp add: be_to_nat_zero_iff)
  have e: "table_value USDC_PROXY_STORAGE EIP1967_IMPL_SLOT = 0"
    unfolding e32 u256_from_be_def b32 by simp
  have "(ZEPPELINOS_IMPL_SLOT_BE, replicate 12 0 @ USDC_IMPL_ADDRESS) \<in> set USDC_PROXY_STORAGE"
    by (simp add: USDC_PROXY_STORAGE_def ZEPPELINOS_IMPL_SLOT_BE_def USDC_IMPL_ADDRESS_def numeral_eq_Suc)
  from table_value_row[OF this keys_distinct(3)]
  have z: "impl_word (recorded_archive codes v3) h = u256_from_be (replicate 12 0 @ USDC_IMPL_ADDRESS)"
    by (simp add: impl_word_def recorded_tables e)
  show be: "u256_to_be (impl_word (recorded_archive codes v3) h) = replicate 12 0 @ USDC_IMPL_ADDRESS"
    unfolding z by (rule u256_to_from_be) (simp add: USDC_IMPL_ADDRESS_def)
  show "impl_of (impl_word (recorded_archive codes v3) h) = address_from_be USDC_IMPL_ADDRESS"
    by (simp add: impl_of_def be)
  show "impl_word (recorded_archive codes v3) h \<noteq> 0"
  proof
    assume "impl_word (recorded_archive codes v3) h = 0"
    then have "be_to_nat (replicate 12 0 @ USDC_IMPL_ADDRESS) = 0"
      using unat_u256_from_be[of "replicate 12 0 @ USDC_IMPL_ADDRESS"] unfolding z by (simp add: USDC_IMPL_ADDRESS_def)
    then have "\<forall>b \<in> set USDC_IMPL_ADDRESS. b = 0" by (simp add: be_to_nat_zero_iff)
    then show False by (simp add: USDC_IMPL_ADDRESS_def)
  qed
qed

text \<open>What the archive holds of the V3 pool: a row for every slot that the layout asks for, in order.\<close>

lemma archive_rounds_shape:
  assumes "archive_rounds ar layout pool h depth tf (map (\<lambda>x. (x, ar_storage ar (pid_address pool) h x)) ks) = Inr al"
    and "distinct ks"
  shows "\<exists>ls. al = map (\<lambda>x. (x, ar_storage ar (pid_address pool) h x)) ls \<and> distinct ls \<and> set tf \<union> set ks \<subseteq> set ls"
  using assms
proof (induction "DERIVED_SLOTS_MAX_DEPTH - depth" arbitrary: depth tf ks rule: less_induct)
  case less
  let ?row = "\<lambda>x. (x, ar_storage ar (pid_address pool) h x)"
  define new where "new = fresh_slots tf (map ?row ks)"
  have new: "set new = set tf - set ks" "distinct (ks @ new)"
    using less.prems(2) distinct_fresh[of tf "map ?row ks"] set_fresh[of tf "map ?row ks"]
    by (auto simp: new_def image_image)
  show ?case
  proof (cases "new = []")
    case True
    then have "al = map ?row ks" using less.prems(1) by (simp add: archive_rounds.simps[of ar layout pool h depth tf] new_def)
    with True new less.prems(2) show ?thesis by (intro exI[of _ ks]) auto
  next
    case False
    have step: "archive_rounds ar layout pool h depth tf (map ?row ks) =
        (if derived_slots layout pool (map ?row (ks @ new)) = [] then Inr (map ?row (ks @ new))
         else if DERIVED_SLOTS_MAX_DEPTH \<le> depth + 1 then Inl (DerivedSlotsTooDeep DERIVED_SLOTS_MAX_DEPTH)
         else archive_rounds ar layout pool h (depth + 1) (derived_slots layout pool (map ?row (ks @ new))) (map ?row (ks @ new)))"
      using False by (simp add: archive_rounds.simps[of ar layout pool h depth tf] new_def[symmetric] Let_def)
    show ?thesis
    proof (cases "derived_slots layout pool (map ?row (ks @ new)) = [] \<or> DERIVED_SLOTS_MAX_DEPTH \<le> depth + 1")
      case True
      then have "al = map ?row (ks @ new)" using less.prems(1) unfolding step by (auto split: if_splits)
      with new show ?thesis by (intro exI[of _ "ks @ new"]) auto
    next
      case False
      then have "DERIVED_SLOTS_MAX_DEPTH - (depth + 1) < DERIVED_SLOTS_MAX_DEPTH - depth" by arith
      moreover have "archive_rounds ar layout pool h (depth + 1) (derived_slots layout pool (map ?row (ks @ new)))
          (map ?row (ks @ new)) = Inr al"
        using less.prems(1) False unfolding step by simp
      ultimately obtain ls where "al = map ?row ls" "distinct ls" "set (ks @ new) \<subseteq> set ls"
        using less.hyps[OF _ _ new(2)] by blast
      with new(1) show ?thesis by (intro exI[of _ ls]) auto
    qed
  qed
qed

lemma archive_pool_shape:
  assumes "archive_pool ar pool h layout = Inr st"
  shows "pool_constants st = contract_at ar h (pid_address pool) (map fst (fp_pool_storage st)) \<and>
    sorted_wrt (<) (map fst (fp_pool_storage st)) \<and> set (base_slots layout pool) \<subseteq> fst ` set (fp_pool_storage st)"
proof -
  let ?row = "\<lambda>x. (x, ar_storage ar (pid_address pool) h x)"
  obtain al where al: "archive_rounds ar layout pool h 0 (base_slots layout pool) [] = Inr al"
    "st = \<lparr>fp_pool = pool, fp_hash = h, fp_pool_code = ar_code ar (pid_address pool) h,
             fp_pool_storage = sort_key fst al, fp_auxiliary = []\<rparr>"
    using assms by (auto simp: archive_pool_def bind_res_Inr_iff split: if_splits)
  then obtain ls where ls: "al = map ?row ls" "distinct ls" "set (base_slots layout pool) \<subseteq> set ls"
    using archive_rounds_shape[of ar layout pool h 0 "base_slots layout pool" "[]" al] by auto
  have "distinct (map fst (sort_key fst al))" using ls(1,2) by (simp add: distinct_map inj_on_def)
  moreover have "be_rows (sort_key fst al) = map (\<lambda>x. (u256_to_be x, u256_to_be (ar_storage ar (pid_address pool) h x)))
      (map fst (sort_key fst al))"
    by (auto simp: ls(1))
  ultimately show ?thesis
    using ls(1,3) by (simp add: al(2) pool_constants_def contract_at_def strict_sorted_iff image_image)
qed

lemma recorded_constants:
  assumes "balance_slots keccak" "archive_pool (recorded_archive codes v3) pool_id_v3_005 fixture_block layout = Inr st"
  shows "archive_recording keccak (recorded_archive codes v3) fixture_block st =
    fixture_constants codes (map (\<lambda>x. (u256_to_be x, u256_to_be (v3 x))) (map fst (fp_pool_storage st)))"
proof -
  let ?ar = "recorded_archive codes v3"
  have "contract_at ?ar fixture_block V2_WETH_USDC [0, 6, 7, 8, 9, 10, 11, 12] =
      (V2_WETH_USDC_ADDRESS, V2_WETH_USDC_BLOCK_HASH, codes V2_WETH_USDC, V2_WETH_USDC_STORAGE)"
    using contract_at_table[OF rows_full(1) keys_distinct(1) recorded_tables(1)]
    by (simp only: v2_keys recorded_addresses fixture_block_be recorded_tables)
  moreover have "contract_at ?ar fixture_block WETH9 (remdups_adj (sort (weth_slots keccak))) =
      (WETH9_ADDRESS, V2_WETH_USDC_BLOCK_HASH, codes WETH9, WETH9_STORAGE)"
    using contract_at_table[OF rows_full(2) keys_distinct(2) recorded_tables(2)]
    by (simp only: weth_asked[OF assms(1)] recorded_addresses fixture_block_be recorded_tables)
  moreover have "contract_at ?ar fixture_block USDC_PROXY (remdups_adj (sort (usdc_proxy_slots keccak))) =
      (USDC_PROXY_ADDRESS, V2_WETH_USDC_BLOCK_HASH, codes USDC_PROXY, USDC_PROXY_STORAGE)"
    using contract_at_table[OF rows_full(3) keys_distinct(3) recorded_tables(3)]
    by (simp only: proxy_asked[OF assms(1)] recorded_addresses fixture_block_be recorded_tables)
  moreover have "contract_at ?ar fixture_block V2_FACTORY [0] =
      (V2_FACTORY_ADDRESS_FIXTURE, V2_WETH_USDC_BLOCK_HASH, codes V2_FACTORY, V2_FACTORY_STORAGE)"
    using contract_at_table[OF rows_full(4) keys_distinct(4) recorded_tables(4)]
    by (simp only: factory_keys recorded_addresses fixture_block_be recorded_tables)
  moreover have "contract_at ?ar fixture_block (impl_of (impl_word ?ar fixture_block)) [] =
      (USDC_IMPL_ADDRESS, V2_WETH_USDC_BLOCK_HASH, codes (address_from_be USDC_IMPL_ADDRESS), [])"
    by (simp add: contract_at_def recorded_implementation(2) fixture_block_be recorded_tables
      address_to_from_be USDC_IMPL_ADDRESS_def)
  moreover have "pool_constants st =
      (V3_WETH_USDC_005_ADDRESS, V2_WETH_USDC_BLOCK_HASH, codes V3_005_WETH_USDC,
       map (\<lambda>x. (u256_to_be x, u256_to_be (v3 x))) (map fst (fp_pool_storage st)))"
    using archive_pool_shape[OF assms(2)]
    by (simp only: contract_at_def pool_id_v3_005_def pool_id.simps recorded_addresses fixture_block_be recorded_tables)
  ultimately show ?thesis
    by (simp add: archive_recording_def fixture_constants_def recorded_addresses_from one_block USDC_IMPL_STORAGE_def)
qed

text \<open>A table that gives the values of exactly the slots asked for is what is printed.\<close>

lemma table_printed:
  assumes "full_rows rows" "sorted_wrt (<) (keys rows)" "sorted_wrt (<) slots" "set (keys rows) = set slots"
  shows "map (\<lambda>x. (u256_to_be x, u256_to_be (table_value rows x))) slots = rows"
proof -
  have "slots = keys rows"
    using assms(2-4) by (metis sorted_distinct_set_unique strict_sorted_iff)
  then show ?thesis using table_rows[OF assms(1)] assms(2) by (simp add: strict_sorted_iff)
qed

section \<open>What the recorded pair says\<close>

lemma pair_rows:
  "table_value V2_WETH_USDC_STORAGE 6 = ucast USDC_PROXY" "table_value V2_WETH_USDC_STORAGE 7 = ucast WETH9"
  "table_value V2_WETH_USDC_STORAGE 8 = 0x69ff33230000000000e30fb4f8dc49aafadb000000000000000008d361852d37"
  "table_value V2_WETH_USDC_STORAGE 12 = 1"
  by (simp_all add: table_value_def V2_WETH_USDC_STORAGE_def u256_from_be_def be_to_nat_def USDC_PROXY_def WETH9_def
      address_from_be_def)

lemma balance_rows:
  "table_value USDC_PROXY_STORAGE USDC_OF_V2 = 0x08d361852d37" "table_value WETH9_STORAGE WETH_OF_V2 = 0xe30fb4f8dc49aafadb"
  "table_value V2_FACTORY_STORAGE 0 \<noteq> 0"
  by (simp_all add: table_value_def USDC_PROXY_STORAGE_def WETH9_STORAGE_def V2_FACTORY_STORAGE_def u256_from_be_def
      be_to_nat_def USDC_OF_V2_def WETH_OF_V2_def)

lemma pair_in_sync:
  "take_bit 112 (table_value V2_WETH_USDC_STORAGE 8) = table_value USDC_PROXY_STORAGE USDC_OF_V2"
  "take_bit 112 (drop_bit 112 (table_value V2_WETH_USDC_STORAGE 8)) = table_value WETH9_STORAGE WETH_OF_V2"
  by (simp_all add: pair_rows balance_rows)

text \<open>C38: The recording that \<open>fixtures.rs\<close> holds, up to byte codes and the storage of the V3 pool, which are arguments.
  The tool, run on a node that answers every request, with the state of the recorded block (codes and V3 storage
  being whatever they were), ends with 0 and prints the six records of the file in their order: addresses and block
  hashes as in the file, the tables of the V2 pair, the two tokens, the implementation and the factory
  byte for byte, and for the V3 pool the rows of its storage, by ascending slot, at exactly the slots the layout
  derives.  Whatever table has exactly these slots and the values of that storage, in ascending order, is then the table
  printed.  In the recorded state the pair is in step with the two tokens, points at them and is unlocked, and the
  factory has a fee receiver.\<close>

theorem fixtures_are_a_recording:
  assumes "two_caches (recorder_fetcher env np) cent sent" "honest (node_backend np) (recorded_archive codes v3)"
    and "answering (node_backend np)"
    and "rr_archive_url env = Some url" "url \<noteq> []" "2 \<le> length (rr_args env)"
    and "parse_block_hash (rr_b256_from_str env) (rr_args env ! 1) = Inr fixture_block"
    and "connect (rr_parse_url env) (rr_on_http env) (recorder_node_config url) = Inr np"
    and "\<And>t b. rr_b256_from_str env t = Inr b \<Longrightarrow> CHR 0x0A \<notin> set t" "\<And>a. CHR 0x0A \<notin> set (rr_debug_address env a)"
    and "\<And>s0 x. x \<in> set (phase2_bitmap_slots (rr_keccak env) s0) \<Longrightarrow> x \<notin> {0, 1, 2, 3, 4}"
    and "balance_slots (rr_keccak env)"
  shows "(let (code, c) = recorder_main env w in
      code = 0 \<and> (\<exists>st slots. archive_pool (recorded_archive codes v3) pool_id_v3_005 fixture_block
            (uniswap_v3_layout (rr_keccak env)) = Inr st \<and>
        slots = map fst (fp_pool_storage st) \<and> sorted_wrt (<) slots \<and> {0, 1, 2, 3, 4} \<subseteq> set slots \<and>
        read_fixtures fixture_names (con_out c) =
          Some (fixture_constants codes (map (\<lambda>x. (u256_to_be x, u256_to_be (v3 x))) slots), []) \<and>
        (\<forall>rows. full_rows rows \<and> sorted_wrt (<) (keys rows) \<and> set (keys rows) = set slots \<and> v3 = table_value rows \<longrightarrow>
           read_fixtures fixture_names (con_out c) = Some (fixture_constants codes rows, [])))) \<and>
    take_bit 112 (table_value V2_WETH_USDC_STORAGE 8) = table_value USDC_PROXY_STORAGE USDC_OF_V2 \<and>
    take_bit 112 (drop_bit 112 (table_value V2_WETH_USDC_STORAGE 8)) = table_value WETH9_STORAGE WETH_OF_V2 \<and>
    table_value V2_WETH_USDC_STORAGE 6 = ucast USDC_PROXY \<and> table_value V2_WETH_USDC_STORAGE 7 = ucast WETH9 \<and>
    table_value V2_WETH_USDC_STORAGE 12 = 1 \<and> table_value V2_FACTORY_STORAGE 0 \<noteq> 0"
proof -
  obtain code c where main: "recorder_main env w = (code, c)" by (meson surj_pair)
  have "fixture_block \<noteq> 0" by (simp add: u256_from_be_def be_to_nat_def V2_WETH_USDC_BLOCK_HASH_def)
  then have answered: "fst (record_fixtures env (recorder_fetcher env np) (rr_args env ! 1) fixture_block s) \<noteq> Inl 4" for s
    by (intro recording_answers) (use assms(3,11) in \<open>simp_all add: recorder_fetcher_def\<close>)
  have "code = 0 \<and> (\<exists>st. archive_pool (recorded_archive codes v3) pool_id_v3_005 fixture_block
            (uniswap_v3_layout (rr_keccak env)) = Inr st \<and>
      read_fixtures fixture_names (con_out c) =
        Some (archive_recording (rr_keccak env) (recorded_archive codes v3) fixture_block st, []))"
    by (rule recorder_ends[OF assms(1,2,4-10) main]) (use answered recorded_implementation(1) in auto)
  then obtain st where st: "code = 0" "archive_pool (recorded_archive codes v3) pool_id_v3_005 fixture_block
            (uniswap_v3_layout (rr_keccak env)) = Inr st"
      "read_fixtures fixture_names (con_out c) =
        Some (archive_recording (rr_keccak env) (recorded_archive codes v3) fixture_block st, [])" by blast
  define slots where "slots = map fst (fp_pool_storage st)"
  note shape = archive_pool_shape[OF st(2)]
  have ordered: "sorted_wrt (<) slots" using shape by (simp add: slots_def)
  have base: "{0, 1, 2, 3, 4} \<subseteq> set slots" using shape unfolding v3_base by (simp add: slots_def)
  have out: "read_fixtures fixture_names (con_out c) =
      Some (fixture_constants codes (map (\<lambda>x. (u256_to_be x, u256_to_be (v3 x))) slots), [])"
    using st(3) unfolding recorded_constants[OF assms(12) st(2)] slots_def .
  have table: "\<forall>rows. full_rows rows \<and> sorted_wrt (<) (keys rows) \<and> set (keys rows) = set slots \<and>
      v3 = table_value rows \<longrightarrow> read_fixtures fixture_names (con_out c) = Some (fixture_constants codes rows, [])"
  proof (intro allI impI, elim conjE)
    fix rows assume "full_rows rows" "sorted_wrt (<) (keys rows)" "set (keys rows) = set slots" "v3 = table_value rows"
    then show "read_fixtures fixture_names (con_out c) = Some (fixture_constants codes rows, [])"
      using table_printed[OF _ _ ordered, of rows] by (simp only: out)
  qed
  have "let (code, c) = recorder_main env w in
      code = 0 \<and> (\<exists>st slots. archive_pool (recorded_archive codes v3) pool_id_v3_005 fixture_block
            (uniswap_v3_layout (rr_keccak env)) = Inr st \<and>
        slots = map fst (fp_pool_storage st) \<and> sorted_wrt (<) slots \<and> {0, 1, 2, 3, 4} \<subseteq> set slots \<and>
        read_fixtures fixture_names (con_out c) =
          Some (fixture_constants codes (map (\<lambda>x. (u256_to_be x, u256_to_be (v3 x))) slots), []) \<and>
        (\<forall>rows. full_rows rows \<and> sorted_wrt (<) (keys rows) \<and> set (keys rows) = set slots \<and> v3 = table_value rows \<longrightarrow>
           read_fixtures fixture_names (con_out c) = Some (fixture_constants codes rows, [])))"
    unfolding main Let_def prod.case
    by (intro conjI st(1) exI[of _ st] exI[of _ slots] st(2) slots_def ordered base out table)
  then show ?thesis by (intro conjI pair_in_sync pair_rows balance_rows(3))
qed

section \<open>A run\<close>

definition demo_keccak :: "bytes \<Rightarrow> bytes" where
  "demo_keccak bs =
     (let key = take 32 bs; slot = drop 32 bs;
          of_key = (\<lambda>r v2 v3. if key = u256_to_be (address_key MOCK_ROUTER) then r
            else if key = u256_to_be (address_key V2_WETH_USDC) then v2
            else if key = u256_to_be (address_key V3_005_WETH_USDC) then v3 else 9)
      in u256_to_be
        (if slot = u256_to_be 3 then of_key WETH_OF_ROUTER WETH_OF_V2 WETH_OF_V3
         else if slot = u256_to_be 9 then of_key USDC_OF_ROUTER USDC_OF_V2 USDC_OF_V3 else 9))"

text \<open>A pool with nothing but a liquidity of 77.\<close>

definition demo_v3 :: "u256 \<Rightarrow> b256" where
  "demo_v3 slot = (if slot = 4 then 77 else 0)"

definition replay_root :: "(unit, unit, unit) root_provider" where
  "replay_root = demo_root
     \<lparr>rp_get_storage_at := (\<lambda>a slot _ w. (Inr (ar_storage (recorded_archive (\<lambda>_. [1]) demo_v3) a 0 slot), w))\<rparr>"

definition replay_recorder ::
  "(unit, unit, unit, string, nat \<times> (code_key \<times> bytes) list, nat \<times> (storage_key \<times> b256) list) recorder_env" where
  "replay_recorder = demo_recorder
     \<lparr>rr_keccak := demo_keccak, rr_on_http := (\<lambda>_. replay_root),
      rr_b256_from_str := (\<lambda>t. if t = replicate 64 CHR ''1'' then Inr fixture_block else Inl ''bad'')\<rparr>"

definition replay_np :: "(unit, unit, unit) node_provider" where
  "replay_np = \<lparr>primary_http = alloy_http replay_root, fallback_http = Some (alloy_http replay_root),
     archive_http = Some (alloy_http replay_root), ws_url = ''ws://127.0.0.1:65535/never-used''\<rparr>"

lemma replay_np_truthful:
  "honest (node_backend replay_np) (recorded_archive (\<lambda>_. [1]) demo_v3)" "answering (node_backend replay_np)"
  by (simp_all add: honest_def answering_def node_backend_def replay_np_def replay_root_def demo_root_def alloy_http_def
      eth_get_code_def eth_get_storage_at_def map_err_classify_def recorded_archive_def)

lemma replay_accepts:
  "two_caches (recorder_fetcher replay_recorder replay_np) (\<lambda>c. map_of (snd c)) (\<lambda>c. map_of (snd c))"
  "rr_archive_url replay_recorder = Some ''https://node''" "''https://node'' \<noteq> []" "2 \<le> length (rr_args replay_recorder)"
  "parse_block_hash (rr_b256_from_str replay_recorder) (rr_args replay_recorder ! 1) = Inr fixture_block"
  "connect (rr_parse_url replay_recorder) (rr_on_http replay_recorder) (recorder_node_config ''https://node'') = Inr replay_np"
  using list_caches.two_caches_axioms
  by (simp_all add: replay_recorder_def demo_recorder_def recorder_fetcher_def parse_block_hash_def recorder_connect
      replay_np_def numeral_2_eq_2)

lemma replay_plain:
  "rr_b256_from_str replay_recorder t = Inr b \<Longrightarrow> CHR 0x0A \<notin> set t" "CHR 0x0A \<notin> set (rr_debug_address replay_recorder a)"
  by (auto simp: replay_recorder_def demo_recorder_def split: if_splits)

lemma demo_keccak_range:
  "u256_from_be (demo_keccak bs) \<in> {9, WETH_OF_ROUTER, WETH_OF_V2, WETH_OF_V3, USDC_OF_ROUTER, USDC_OF_V2, USDC_OF_V3}"
  by (simp add: demo_keccak_def Let_def)

lemma replay_slots: "x \<in> set (phase2_bitmap_slots (rr_keccak replay_recorder) s0) \<Longrightarrow> x \<notin> {0, 1, 2, 3, 4}"
proof -
  assume "x \<in> set (phase2_bitmap_slots (rr_keccak replay_recorder) s0)"
  then obtain bs where "x = u256_from_be (demo_keccak bs)"
    by (auto simp: replay_recorder_def phase2_slots word_slot_def mapping_slot_u256_def)
  with demo_keccak_range[of bs] show ?thesis by (auto simp: hashed_slots)
qed

lemma demo_keccak_slots: "balance_slots demo_keccak"
proof -
  have key: "address_key a = address_key b \<longleftrightarrow> a = b" for a b :: address
  proof -
    have "unat (address_key a) = unat a" for a :: address
      using unat_lt_exp[of a]
      by (simp add: address_key_def u256_from_be_def be_to_nat_append be_to_nat_replicate_0 address_to_be_def
          be_to_nat_nat_to_be unsigned_ucast_eq unsigned_of_nat take_bit_nat_eq_self)
    then show ?thesis by (metis word_unat_eq_iff)
  qed
  have r: "replicate 20 (0x33 :: u8) = 0x33 # replicate 19 0x33" using replicate_Suc[of 19 "0x33 :: u8"] by simp
  have be: "address_to_be MOCK_ROUTER = 0x33 # replicate 19 0x33"
    unfolding MOCK_ROUTER_def r[symmetric] by (rule address_to_from_be) simp
  have "MOCK_ROUTER \<noteq> V2_WETH_USDC" "MOCK_ROUTER \<noteq> V3_005_WETH_USDC" "V2_WETH_USDC \<noteq> V3_005_WETH_USDC"
    unfolding address_to_be_inj[symmetric] recorded_addresses be
    by (simp_all add: V2_WETH_USDC_ADDRESS_def V3_WETH_USDC_005_ADDRESS_def)
  then show ?thesis
    by (simp add: balance_slots_def weth_slots_def mapping_slot_u256_def demo_keccak_def Let_def key WETH9_BALANCES_def
        USDC_BALANCES_def)
qed

theorem fixtures_are_a_recording_witness:
  "\<exists>c rows. recorder_main replay_recorder () = (0, c) \<and>
     read_fixtures fixture_names (con_out c) = Some (fixture_constants (\<lambda>_. [1]) rows, []) \<and>
     (u256_to_be 4, u256_to_be 77) \<in> set rows"
proof -
  have keccak: "rr_keccak replay_recorder = demo_keccak" by (simp add: replay_recorder_def)
  obtain code c where main: "recorder_main replay_recorder () = (code, c)" by (meson surj_pair)
  have "let (code, c) = recorder_main replay_recorder () in
      code = 0 \<and> (\<exists>st slots. archive_pool (recorded_archive (\<lambda>_. [1]) demo_v3) pool_id_v3_005 fixture_block
            (uniswap_v3_layout (rr_keccak replay_recorder)) = Inr st \<and>
        slots = map fst (fp_pool_storage st) \<and> sorted_wrt (<) slots \<and> {0, 1, 2, 3, 4} \<subseteq> set slots \<and>
        read_fixtures fixture_names (con_out c) =
          Some (fixture_constants (\<lambda>_. [1]) (map (\<lambda>x. (u256_to_be x, u256_to_be (demo_v3 x))) slots), []) \<and>
        (\<forall>rows. full_rows rows \<and> sorted_wrt (<) (keys rows) \<and> set (keys rows) = set slots \<and>
             demo_v3 = table_value rows \<longrightarrow>
           read_fixtures fixture_names (con_out c) = Some (fixture_constants (\<lambda>_. [1]) rows, [])))"
    by (rule fixtures_are_a_recording[OF replay_accepts(1) replay_np_truthful replay_accepts(2-6), THEN conjunct1])
      (fact replay_plain replay_slots demo_keccak_slots[folded keccak])+
  then obtain slots where "code = 0" "{0, 1, 2, 3, 4} \<subseteq> set slots"
    "read_fixtures fixture_names (con_out c) =
       Some (fixture_constants (\<lambda>_. [1]) (map (\<lambda>x. (u256_to_be x, u256_to_be (demo_v3 x))) slots), [])"
    unfolding main Let_def prod.case by blast
  then show ?thesis
    using main by (intro exI[of _ c] exI[of _ "map (\<lambda>x. (u256_to_be x, u256_to_be (demo_v3 x))) slots"])
      (force simp: demo_v3_def)
qed

end
