(* ===== verification/Spec2Isabelle.thy ===== *)
theory Spec2Isabelle
  imports Types Event_Bus Journal Snapshot Config Node Ingress State_Engine Opportunity
    Risk Signer Execution Relay_Sim Relay_Clients State_Fetcher Observability App_Drivers
    App_Pipeline App_Submission Reconcile Sim_Properties Sim_Pair_Lock App_Simulation
    App_Shutdown App_Wire Archive Kms_Aws App_Bus Mock_Router Node_Subscriptions
    Archive_Outcomes App_Settle App_Silence Fixture_Data
begin

text \<open>
  A verification development for the Rust workspace \<^verbatim>\<open>rust_lmax_mev\<close>, an event-driven
  arbitrage pipeline. The program is a chain of stages. A node provider feeds an ingress; the
  ingress feeds a state engine that reads pool states pinned to a block hash; pool updates become
  opportunities, pass a risk gate, are simulated, turned into bundle candidates, compared with a
  relay's own simulation, and, behind several gates, submitted. Every event travels in an
  envelope (source, sequence number, timestamps, chain context) and is also written to a journal
  from which a run can be replayed.

  Theories and the code they model (paths under \<^verbatim>\<open>src/crates\<close>):

  \<^item> \<^theory_text>\<open>Prelude\<close>: shared lemmas on lists, bytes, little- and big-endian words, association
    lists, and results; the collections of simplification rules.
  \<^item> \<^theory_text>\<open>Types\<close>: \<^verbatim>\<open>types\<close>. The envelope with its validating constructor.
  \<^item> \<^theory_text>\<open>Event_Bus\<close>: \<^verbatim>\<open>event-bus\<close>. The bounded bus over the contract of a bounded channel
    (locale \<^verbatim>\<open>bounded_channel\<close>); publishing may block and be resumed, so a publish is two steps.
  \<^item> \<^theory_text>\<open>Journal\<close>: \<^verbatim>\<open>journal/src/journal.rs\<close>, \<^verbatim>\<open>frame.rs\<close>. File format, buffered writer, opening,
    iteration; the serializer is a parameter under the locale \<^verbatim>\<open>frame_codec\<close>.
  \<^item> \<^theory_text>\<open>Snapshot\<close>: \<^verbatim>\<open>journal/src/snapshot.rs\<close>. The keyed store over a key-value interface.
  \<^item> \<^theory_text>\<open>Config\<close>: \<^verbatim>\<open>config\<close>. All sections and every validation rule.
  \<^item> \<^theory_text>\<open>Node\<close>: \<^verbatim>\<open>node\<close>. Error classes, retry and fallback, back-off and the reconnecting
    stream as an inductive step relation.
  \<^item> \<^theory_text>\<open>Node_Subscriptions\<close>: \<^verbatim>\<open>node\<close>. The WebSocket subscriptions as factories of that stream, over
    alloy's client as an argument.
  \<^item> \<^theory_text>\<open>Ingress\<close>: \<^verbatim>\<open>ingress\<close>. The mempool pipeline with its bounded duplicate cache.
  \<^item> \<^theory_text>\<open>State_Types\<close>, \<^theory_text>\<open>State_Decode\<close>, \<^theory_text>\<open>State_Engine\<close>: \<^verbatim>\<open>state\<close> and \<^verbatim>\<open>replay\<close>. The ABI
    decoders, the per-block refresh with its snapshot writes, the recorded caller and the replay.
  \<^item> \<^theory_text>\<open>Opportunity\<close>, \<^theory_text>\<open>Risk\<close>: \<^verbatim>\<open>opportunity\<close>, \<^verbatim>\<open>risk\<close>. Fixed-point spread check and budget gate, on
    256-bit words as in the code.
  \<^item> \<^theory_text>\<open>Rlp\<close>, \<^theory_text>\<open>Signer\<close>: \<^verbatim>\<open>signer\<close>. Transaction encoding, boot from a key service, signing with
    its audit trail.
  \<^item> \<^theory_text>\<open>Sim_Types\<close>, \<^theory_text>\<open>Execution\<close>: outcome types of \<^verbatim>\<open>simulator\<close>, and \<^verbatim>\<open>execution\<close>, the bid strategies
    and the bundle constructor.
  \<^item> \<^theory_text>\<open>Swap_Calldata\<close>, \<^theory_text>\<open>Mock_Router\<close>, \<^theory_text>\<open>Sim_Database\<close>, \<^theory_text>\<open>Sim_Fixtures\<close>, \<^theory_text>\<open>Simulator\<close>, \<^theory_text>\<open>Reconcile\<close>: the rest of
    \<^verbatim>\<open>simulator\<close>. Calldata and amounts, the router's byte code, the strict and recording databases (locale \<^verbatim>\<open>cache_db\<close>), the
    fixture cache and the prefetch (locales \<^verbatim>\<open>faithful_fetcher\<close>, \<^verbatim>\<open>fixture_cache\<close>), the two-hop
    simulation over a virtual machine that is a script of database reads.
  \<^item> \<^theory_text>\<open>Sim_Properties\<close>, \<^theory_text>\<open>Sim_Pair_Lock\<close>: what a simulation guarantees, and simulator and fetcher
    composed (locale \<^verbatim>\<open>layout_fetcher\<close>).
  \<^item> \<^theory_text>\<open>Relay_Sim\<close>, \<^theory_text>\<open>Relay_Clients\<close>: \<^verbatim>\<open>relay-sim\<close>, \<^verbatim>\<open>bundle-relay\<close>, \<^verbatim>\<open>relay-clients\<close>. The comparator,
    the kill switch and the two relay adapters.
  \<^item> \<^theory_text>\<open>Storage_Layout\<close>, \<^theory_text>\<open>State_Fetcher\<close>: \<^verbatim>\<open>state-fetcher\<close>. Storage keys, the slot layouts of the pools,
    and the archive fetcher with its two caches (locales \<^verbatim>\<open>bounded_cache\<close>, \<^verbatim>\<open>two_caches\<close>).
  \<^item> \<^theory_text>\<open>Observability\<close>: \<^verbatim>\<open>observability\<close>. The guarded start of logging and metrics.
  \<^item> \<^theory_text>\<open>App_Drivers\<close>, \<^theory_text>\<open>App_Pipeline\<close>: \<^verbatim>\<open>app\<close>. Sealing, the producer, the journal drains and the stage
    drivers; what a run of the stages publishes.
  \<^item> \<^theory_text>\<open>App_Submission\<close>: \<^verbatim>\<open>app\<close>. The relay adapters made from the configuration, the comparator
    driver with its fail-closed journal, the submission gate and driver.
  \<^item> \<^theory_text>\<open>App_Simulation\<close>: \<^verbatim>\<open>app\<close> and \<^verbatim>\<open>simulator\<close>. The simulator stage with the real simulator behind it,
    and what the stages before it can make it do.
  \<^item> \<^theory_text>\<open>App_Shutdown\<close>: \<^verbatim>\<open>app\<close>. The shutdowns of the three handles as a step relation over tasks, channels
    and the handle's actions (locale \<^verbatim>\<open>orderly_shutdown\<close>): that none can block, counting only the steps that
    need no panic and no lag, and that it is the aborts of the fourth that lose events.
  \<^item> \<^theory_text>\<open>App_Wire\<close>: \<^verbatim>\<open>app\<close>. The four wirings as steps that may fail, what they hand to the tasks, \<^verbatim>\<open>run\<close>
    and the exit code of the binary. The panics of the full wiring (memory, and a bus capacity the channel
    constructor refuses) are steps of it; each journal is an open file of its own, with its position and buffer.
  \<^item> \<^theory_text>\<open>Kms_Aws\<close>: \<^verbatim>\<open>signer/src/kms_aws.rs\<close>. The key service client over the AWS SDK, whose answers are an
    argument, and what the production signer booted on it signs.
  \<^item> \<^theory_text>\<open>Archive\<close>, \<^theory_text>\<open>Archive_Outcomes\<close>: the \<^verbatim>\<open>rkyv_compat.rs\<close> modules and the rkyv attributes of the
    journaled events (locales \<^verbatim>\<open>field_adapter\<close>, \<^verbatim>\<open>canonical_adapter\<close>): the archived forms, and what an event
    journal reads back.
  \<^item> \<^theory_text>\<open>App_Bus\<close>: \<^verbatim>\<open>app\<close>. The ingress of the third wiring, its producer task and consumer thread over
    the bounded bus, as interleaved steps (locales \<^verbatim>\<open>closing_channel\<close>, \<^verbatim>\<open>ingress_channel\<close>).
  \<^item> \<^theory_text>\<open>Task_Runs\<close>, \<^theory_text>\<open>App_Run\<close>: \<^verbatim>\<open>app\<close>. The ten tasks of the full pipeline as they run: one step relation
    for a loop over a broadcast receiver (locales \<^verbatim>\<open>driver_task\<close>, \<^verbatim>\<open>private_driver\<close>, interpreted for every
    task), and the pipeline as any interleaving of their steps.
  \<^item> \<^theory_text>\<open>App_Settle\<close>, \<^theory_text>\<open>App_Silence\<close>: what holds in every run. The channels refine the stages run one after
    the other, what is published goes back to the ingress, and as wired nothing reaches the relays.
  \<^item> \<^theory_text>\<open>Fixture_Recorder\<close>: \<^verbatim>\<open>simulator/examples/dump_fixture.rs\<close>. The tool that records contracts from an
    archive as Rust constants, its printed text as a string, a reader of that text, and the round trip.
  \<^item> \<^theory_text>\<open>Fixture_Data\<close>: \<^verbatim>\<open>simulator/src/fixtures.rs\<close>. The recorded addresses, hashes and all storage tables but
    the V3 pool's, which is an argument like the byte codes, and that the recorder prints the six records from
    the state they describe.

  Conventions. A struct is a record, an enum a datatype, \<^verbatim>\<open>u64\<close> and \<^verbatim>\<open>U256\<close> are words of their
  width with wrapping operations where the code wraps; \<^verbatim>\<open>Result\<close> is a sum whose left side is the
  error. State is passed explicitly. A channel is a list of pending values with a capacity. Code
  outside the repository (hashing, elliptic curves, serializers, the HTTP client, the node behind
  the transport, RocksDB, TOML and URL parsing) is an argument of the definitions that use it;
  the laws a proof needs of it are premises of the theorem or assumptions of a locale, and each
  such theorem is applied to concrete instances by the theorem named after it with the suffix
  \<^verbatim>\<open>_witness\<close>.

  Bounds and fuel. No definition carries fuel: loops over lists are structural recursion, the
  journal reader recurses on the bytes left in the file with a measure, and unbounded
  asynchronous loops are folds of a step over the finite history of what they received. The
  reconnecting stream, which may sleep forever, is a step relation.

  Groups of lemmas. Each component theory proves, in this order, well-formedness facts about its
  state, the behaviour of each operation on every branch, and the properties. The refinements
  are the snapshot store against an abstract map, the replay against the recordings, the decoders
  against the ABI encoding, the spread check against natural-number arithmetic, and the running
  pipeline against its stages run one after the other.

  Not modelled: revm, so what the byte code of the router and of the recorded contracts does (the recorded byte codes and the storage
  table of the V3 pool are data that no definition writes out),
  the schedulers of the threads and of tokio beyond the steps of \<^verbatim>\<open>App_Shutdown\<close>, \<^verbatim>\<open>App_Bus\<close> and \<^verbatim>\<open>App_Run\<close>, metrics and log output, the serde derives, and the bytes rkyv
  writes for an archived form. They are libraries, data and side effects.
\<close>

end
